(* ===== verification/Prelude.thy ===== *)
theory Prelude
  imports Main "HOL-Library.AList" "HOL-Library.Sublist"
begin

text \<open>
  Shared vocabulary of the development: JavaScript values, objects as association lists in
  insertion order, the string operations of the standard library that the console's code
  calls, and the locale of event-driven machines whose invariant every step keeps.

  Strings are lists of 8-bit characters; the few characters of the source's messages beyond
  Latin-1 (dashes, arrows, ellipses) are written by their UTF-8 bytes, and no property
  depends on their length. Numbers are integers. An object holds each key once (predicate
  \<open>wf_js\<close>); lookups see own properties only, so keys that live on the prototype of
  every object (such as \<open>constructor\<close>) are outside the model.
\<close>

named_theorems js_simps "evaluation of the JavaScript helpers"
named_theorems state_defs "definitions of state machine handlers"

section \<open>Values\<close>

datatype jsval =
    JUndefined
  | JNull
  | JBool bool
  | JNum int
  | JStr string
  | JArr "jsval list"
  | JObj "(string \<times> jsval) list"

type_synonym entries = "(string \<times> jsval) list"

abbreviation entries_size :: "entries \<Rightarrow> nat" where
  "entries_size kvs \<equiv> size_list (size_prod (\<lambda>_. 0) size) kvs"

lemma size_entry_less [termination_simp]:
  "(k, v) \<in> set kvs \<Longrightarrow> size v < Suc (entries_size kvs)"
  by (induction kvs) auto

lemma size_entry_le: "map_of kvs k = Some v \<Longrightarrow> size v < Suc (entries_size kvs)"
  by (auto dest: map_of_SomeD size_entry_less)

fun is_plain_object :: "jsval \<Rightarrow> bool" where
  "is_plain_object (JObj _) = True"
| "is_plain_object _ = False"

fun is_array :: "jsval \<Rightarrow> bool" where
  "is_array (JArr _) = True"
| "is_array _ = False"

fun js_truthy :: "jsval \<Rightarrow> bool" where
  "js_truthy JUndefined = False"
| "js_truthy JNull = False"
| "js_truthy (JBool b) = b"
| "js_truthy (JNum n) = (n \<noteq> 0)"
| "js_truthy (JStr s) = (s \<noteq> [])"
| "js_truthy _ = True"

text \<open>Hereditarily distinct keys: what every object the runtime builds satisfies.\<close>

fun wf_js :: "jsval \<Rightarrow> bool" where
  "wf_js (JArr xs) = (\<forall>x \<in> set xs. wf_js x)"
| "wf_js (JObj kvs) = (distinct (map fst kvs) \<and> (\<forall>kv \<in> set kvs. wf_js (snd kv)))"
| "wf_js _ = True"

section \<open>Strings\<close>

abbreviation starts_with :: "string \<Rightarrow> string \<Rightarrow> bool" where
  "starts_with p s \<equiv> prefix p s"

abbreviation ends_with :: "string \<Rightarrow> string \<Rightarrow> bool" where
  "ends_with p s \<equiv> suffix p s"

definition em_dash :: string where
  "em_dash = map char_of [226, 128, 148 :: nat]"

definition ellipsis_char :: string where
  "ellipsis_char = map char_of [226, 128, 166 :: nat]"

definition newline :: char where
  "newline = CHR 0x0A"

text \<open>An arrow between two spaces.\<close>

definition arrow_right :: string where
  "arrow_right = '' '' @ map char_of [226, 134, 146 :: nat] @ '' ''"

definition middle_dot :: string where
  "middle_dot = [char_of (183 :: nat)]"

fun show_nat :: "nat \<Rightarrow> string" where
  "show_nat n =
     (if n < 10 then [char_of (48 + n)] else show_nat (n div 10) @ [char_of (48 + n mod 10)])"

declare show_nat.simps [simp del]

lemma show_nat_not_Nil [simp]: "show_nat n \<noteq> []"
  by (subst show_nat.simps) simp

lemma digit_char_inj: "m < 10 \<Longrightarrow> n < 10 \<Longrightarrow> (char_of (48 + m) :: char) = char_of (48 + n) \<Longrightarrow> m = n"
  for m n :: nat
  by (auto dest!: arg_cong [of _ _ "of_char :: char \<Rightarrow> nat"])

lemma show_nat_inj: "show_nat m = show_nat n \<Longrightarrow> m = n"
proof (induction m arbitrary: n rule: show_nat.induct)
  case (1 m)
  have h: "m div 10 = n div 10 \<Longrightarrow> m mod 10 = n mod 10 \<Longrightarrow> m = n"
    by (metis div_mult_mod_eq)
  show ?case
    using "1.prems" "1.IH" h
    by (subst (asm) (1 2) show_nat.simps) (auto split: if_splits dest: digit_char_inj dest!: sym [of "[]"])
qed

lemma show_nat_digits: "c \<in> set (show_nat n) \<Longrightarrow> 48 \<le> (of_char c :: nat) \<and> (of_char c :: nat) \<le> 57"
proof (induction n rule: show_nat.induct)
  case (1 n)
  then show ?case by (subst (asm) (2) show_nat.simps) (auto split: if_splits)
qed

definition show_int :: "int \<Rightarrow> string" where
  "show_int i = (if i < 0 then CHR ''-'' # show_nat (nat (- i)) else show_nat (nat i))"

fun join_str :: "string \<Rightarrow> string list \<Rightarrow> string" where
  "join_str sep [] = []"
| "join_str sep [s] = s"
| "join_str sep (s # t # ss) = s @ sep @ join_str sep (t # ss)"

fun split_on :: "char \<Rightarrow> string \<Rightarrow> string list" where
  "split_on c [] = [[]]"
| "split_on c (x # xs) =
     (if x = c then [] # split_on c xs
      else (case split_on c xs of [] \<Rightarrow> [[x]] | s # ss \<Rightarrow> (x # s) # ss))"

lemma split_on_nonempty [simp]: "split_on c s \<noteq> []"
  by (induction s) (auto split: list.splits)

lemma split_on_no_sep: "c \<notin> set s \<Longrightarrow> split_on c (s @ c # t) = s # split_on c t"
  by (induction s) auto

lemma split_on_id: "c \<notin> set s \<Longrightarrow> split_on c s = [s]"
  by (induction s) auto

lemma split_join:
  "xs \<noteq> [] \<Longrightarrow> \<forall>x \<in> set xs. c \<notin> set x \<Longrightarrow> split_on c (join_str [c] xs) = xs"
  by (induction "[c]" xs rule: join_str.induct) (auto simp: split_on_id split_on_no_sep)

lemma join_split: "join_str [c] (split_on c s) = s"
proof (induction s)
  case (Cons x s)
  obtain w ws where "split_on c s = w # ws" by (cases "split_on c s") auto
  with Cons show ?case by (cases ws) auto
qed simp

lemma split_on_pieces: "s \<in> set (split_on c t) \<Longrightarrow> c \<notin> set s"
  by (induction t arbitrary: s) (auto split: if_splits list.splits)

lemma join_infix: "s \<in> set xs \<Longrightarrow> \<exists>u v. join_str sep xs = u @ s @ v"
proof (induction sep xs rule: join_str.induct)
  case (3 sep x t ss)
  show ?case
  proof (cases "s = x")
    case True
    then have "join_str sep (x # t # ss) = [] @ s @ (sep @ join_str sep (t # ss))" by simp
    then show ?thesis by blast
  next
    case False
    then obtain u v where "join_str sep (t # ss) = u @ s @ v" using 3 by auto
    then have "join_str sep (x # t # ss) = (x @ sep @ u) @ s @ v" by simp
    then show ?thesis by blast
  qed
next
  case (2 sep x)
  then have "join_str sep [x] = [] @ s @ []" by simp
  then show ?case by blast
qed simp

lemma split_on_infix: "s \<in> set (split_on c t) \<Longrightarrow> \<exists>xs ys. t = xs @ s @ ys"
  using join_infix [of s "split_on c t" "[c]"] by (simp add: join_split)

definition is_ws :: "char \<Rightarrow> bool" where
  "is_ws c = (of_char c \<in> set [9, 10, 11, 12, 13, 32, 160 :: nat])"

definition trim_start :: "string \<Rightarrow> string" where
  "trim_start s = dropWhile is_ws s"

definition trim_str :: "string \<Rightarrow> string" where
  "trim_str s = rev (dropWhile is_ws (rev (dropWhile is_ws s)))"

lemma trim_id: "s \<noteq> [] \<Longrightarrow> \<not> is_ws (hd s) \<Longrightarrow> \<not> is_ws (last s) \<Longrightarrow> trim_str s = s"
  by (simp add: trim_str_def dropWhile_eq_self_iff [THEN iffD2] hd_rev)

definition lower_char :: "char \<Rightarrow> char" where
  "lower_char c = (let n = (of_char c :: nat) in if 65 \<le> n \<and> n \<le> 90 then char_of (n + 32) else c)"

definition upper_char :: "char \<Rightarrow> char" where
  "upper_char c = (let n = (of_char c :: nat) in if 97 \<le> n \<and> n \<le> 122 then char_of (n - 32) else c)"

abbreviation to_lower :: "string \<Rightarrow> string" where
  "to_lower s \<equiv> map lower_char s"

abbreviation to_upper :: "string \<Rightarrow> string" where
  "to_upper s \<equiv> map upper_char s"

definition is_digit :: "char \<Rightarrow> bool" where
  "is_digit c = (let n = (of_char c :: nat) in 48 \<le> n \<and> n \<le> 57)"

definition str_contains :: "string \<Rightarrow> string \<Rightarrow> bool" where
  "str_contains s p = list_ex (prefix p) (suffixes s)"

definition index_of :: "char \<Rightarrow> string \<Rightarrow> nat option" where
  "index_of c s = (let n = length (takeWhile (\<lambda>x. x \<noteq> c) s) in if n < length s then Some n else None)"

lemma find_Some_mem: "find P xs = Some x \<Longrightarrow> x \<in> set xs \<and> P x"
  by (induction xs) (auto split: if_splits)

lemma index_of_less: "index_of c s = Some i \<Longrightarrow> i < length s"
  by (auto simp: index_of_def Let_def split: if_splits)

text \<open>
  \<open>encodeURIComponent\<close> on the UTF-8 bytes of a string: the unreserved characters stay, every
  other byte becomes a percent sign and two hexadecimal digits.
\<close>

definition uri_unreserved :: "char \<Rightarrow> bool" where
  "uri_unreserved c =
     (let n = (of_char c :: nat)
      in 48 \<le> n \<and> n \<le> 57 \<or> 65 \<le> n \<and> n \<le> 90 \<or> 97 \<le> n \<and> n \<le> 122
         \<or> n \<in> set [45, 95, 46, 33, 126, 42, 39, 40, 41])"

definition hex_digit :: "nat \<Rightarrow> char" where
  "hex_digit n = char_of (if n < 10 then 48 + n else 55 + n)"

definition encode_uri_char :: "char \<Rightarrow> string" where
  "encode_uri_char c =
     (if uri_unreserved c then [c]
      else let n = (of_char c :: nat) in [CHR ''%'', hex_digit (n div 16), hex_digit (n mod 16)])"

definition encode_uri_component :: "string \<Rightarrow> string" where
  "encode_uri_component s = concat (map encode_uri_char s)"

section \<open>Objects\<close>

definition entry_get :: "entries \<Rightarrow> string \<Rightarrow> jsval" where
  "entry_get kvs k = (case map_of kvs k of None \<Rightarrow> JUndefined | Some v \<Rightarrow> v)"

abbreviation has_key :: "entries \<Rightarrow> string \<Rightarrow> bool" where
  "has_key kvs k \<equiv> k \<in> fst ` set kvs"

definition array_entries :: "jsval list \<Rightarrow> entries" where
  "array_entries xs = zip (map show_nat [0..<length xs]) xs"

text \<open>Own enumerable entries of a value, as \<open>Object.entries\<close> and the spread syntax see them.\<close>

fun own_entries :: "jsval \<Rightarrow> entries" where
  "own_entries (JObj kvs) = kvs"
| "own_entries (JArr xs) = array_entries xs"
| "own_entries (JStr s) = array_entries (map (\<lambda>c. JStr [c]) s)"
| "own_entries _ = []"

text \<open>Property read of a value that is neither null nor undefined.\<close>

definition get_prop :: "jsval \<Rightarrow> string \<Rightarrow> jsval" where
  "get_prop v k =
     (case v of
        JArr xs \<Rightarrow> if k = ''length'' then JNum (int (length xs)) else entry_get (array_entries xs) k
      | JStr s \<Rightarrow> if k = ''length'' then JNum (int (length s)) else entry_get (own_entries v) k
      | _ \<Rightarrow> entry_get (own_entries v) k)"

lemma get_prop_obj: "get_prop (JObj kvs) k = entry_get kvs k"
  by (simp add: get_prop_def)

definition spread :: "entries \<Rightarrow> entries \<Rightarrow> entries" where
  "spread base extra = fold (\<lambda>(k, v). AList.update k v) extra base"

lemma update_memD:
  "(k, b) \<in> set (AList.update s v m) \<Longrightarrow> (k, b) \<in> set m \<or> k = s \<and> b = v"
  by (induction m) (auto split: if_splits)

lemma entry_get_update [simp]:
  "entry_get (AList.update k v kvs) k' = (if k' = k then v else entry_get kvs k')"
  by (simp add: entry_get_def update_conv')

lemma entry_get_delete [simp]:
  "entry_get (AList.delete k kvs) k' = (if k' = k then JUndefined else entry_get kvs k')"
  by (simp add: entry_get_def delete_conv')

lemma entry_get_Nil [simp]: "entry_get [] k = JUndefined"
  by (simp add: entry_get_def)

lemma entry_get_Cons [simp]:
  "entry_get ((k, v) # kvs) k' = (if k' = k then v else entry_get kvs k')"
  by (simp add: entry_get_def)

lemma entry_get_absent: "\<not> has_key kvs k \<Longrightarrow> entry_get kvs k = JUndefined"
  by (auto simp: entry_get_def split: option.splits dest: map_of_SomeD)
     (metis fst_conv image_eqI map_of_SomeD)

lemma entry_get_mem: "entry_get kvs k = v \<Longrightarrow> v \<noteq> JUndefined \<Longrightarrow> (k, v) \<in> set kvs"
  by (auto simp: entry_get_def split: option.splits dest: map_of_SomeD)

lemma entry_get_distinct:
  "distinct (map fst kvs) \<Longrightarrow> (k, v) \<in> set kvs \<Longrightarrow> entry_get kvs k = v"
  by (simp add: entry_get_def)

text \<open>A map filled in a loop gives each key its last value.\<close>

lemma map_of_fold_update:
  "map_of (fold (\<lambda>x. AList.update (k x) (f x)) xs []) key = map_option f (find (\<lambda>x. k x = key) (rev xs))"
  by (induction xs rule: rev_induct) (simp_all add: update_conv')

lemma entry_get_obj_size:
  "entry_get kvs k = JObj b \<Longrightarrow> entries_size b < entries_size kvs"
  by (drule entry_get_mem, simp) (auto dest!: size_entry_less)

lemma entry_get_arr_size:
  "entry_get kvs k = JArr xs \<Longrightarrow> size_list size xs < entries_size kvs"
  by (drule entry_get_mem, simp) (auto dest!: size_entry_less)

lemma wf_entry_get: "wf_js (JObj kvs) \<Longrightarrow> wf_js (entry_get kvs k)"
  by (cases "entry_get kvs k = JUndefined") (auto dest!: entry_get_mem [OF refl])

text \<open>\<open>String(v)\<close>.\<close>

function js_to_string :: "jsval \<Rightarrow> string" where
  "js_to_string JUndefined = ''undefined''"
| "js_to_string JNull = ''null''"
| "js_to_string (JBool b) = (if b then ''true'' else ''false'')"
| "js_to_string (JNum n) = show_int n"
| "js_to_string (JStr s) = s"
| "js_to_string (JArr xs) =
     join_str '','' (map (\<lambda>x. if x = JUndefined \<or> x = JNull then [] else js_to_string x) xs)"
| "js_to_string (JObj _) = ''[object Object]''"
  by pat_completeness auto
termination by (relation "measure size") (auto simp: size_list_estimation' less_Suc_eq_le)

section \<open>Event-driven machines\<close>

text \<open>
  Every stateful component of the console is a step function over a state record. The
  contract its handlers share is an invariant that each step keeps; runs inherit it.
\<close>

locale event_machine =
  fixes step :: "'s \<Rightarrow> 'e \<Rightarrow> 's"
    and inv :: "'s \<Rightarrow> bool"
  assumes inv_step: "inv s \<Longrightarrow> inv (step s e)"
begin

lemma inv_run: "inv s \<Longrightarrow> inv (foldl step s es)"
  by (induction es arbitrary: s) (auto intro: inv_step)

lemma inv_prefix_run: "inv s \<Longrightarrow> inv (foldl step s (take n es))"
  by (rule inv_run)

end

text \<open>A machine with an absorbing condition: once it holds, no step leaves it.\<close>

locale absorbing_machine = event_machine step inv
  for step :: "'s \<Rightarrow> 'e \<Rightarrow> 's" and inv :: "'s \<Rightarrow> bool" +
  fixes final :: "'s \<Rightarrow> bool"
  assumes final_step: "inv s \<Longrightarrow> final s \<Longrightarrow> final (step s e)"
begin

lemma final_run: "inv s \<Longrightarrow> final s \<Longrightarrow> final (foldl step s es)"
  by (induction es arbitrary: s) (auto intro: inv_step final_step)

end

end
