(* ===== verification/JsonSchema.thy ===== *)
theory JsonSchema
  imports Prelude "HOL-Library.AList"
begin

text \<open>
  The data of the schema form engine (\<open>web/src/lib/schemaForm/types.ts\<close>): JSON schema
  fragments, field descriptors, and the resolution of references and of \<open>allOf\<close>
  (\<open>refResolver.ts\<close>, \<open>allOfMerger.ts\<close>, \<open>derefIfNeeded\<close> of \<open>walker.ts\<close>). A schema is the typed
  interface the engine reads: a record of its flat keywords and, as a tree, the keywords that
  hold schemas. \<open>None\<close> is an absent keyword. The set of references already followed is a list.
\<close>

section \<open>Schemas\<close>

datatype type_decl = TypeName string | TypeNames "string list"

record kind_tag =
  kt_group :: string
  kt_version :: string
  kt_kind :: string

record schema_core =
  sc_ref :: "string option"
  sc_type :: "type_decl option"
  sc_title :: "string option"
  sc_description :: "string option"
  sc_default :: "jsval option"
  sc_enum :: "jsval list option"
  sc_required :: "string list option"
  sc_pattern :: "string option"
  sc_format :: "string option"
  sc_minimum :: "int option"
  sc_maximum :: "int option"
  sc_min_length :: "int option"
  sc_max_length :: "int option"
  sc_any_of :: bool
  sc_pattern_properties :: bool
  sc_kind_tags :: "kind_tag list option"
  sc_other_keys :: "string list"

datatype json_schema =
  Schema (core: schema_core)
    (properties: "(string \<times> json_schema) list option")
    (additional: "additional_props option")
    (items: "json_schema option")
    (all_of: "json_schema list option")
    (one_of: "json_schema list option")
and additional_props = ApBool bool | ApSchema json_schema

definition blank :: schema_core where
  "blank =
     \<lparr>sc_ref = None, sc_type = None, sc_title = None, sc_description = None, sc_default = None,
      sc_enum = None, sc_required = None, sc_pattern = None, sc_format = None, sc_minimum = None,
      sc_maximum = None, sc_min_length = None, sc_max_length = None, sc_any_of = False,
      sc_pattern_properties = False, sc_kind_tags = None, sc_other_keys = []\<rparr>"

definition opt_list :: "'a list option \<Rightarrow> 'a list" where
  "opt_list v = (case v of Some xs \<Rightarrow> xs | None \<Rightarrow> [])"

lemma opt_list_simps [simp]: "opt_list None = []" "opt_list (Some xs) = xs"
  by (simp_all add: opt_list_def)

lemma opt_list_map [simp]: "opt_list (map_option (map f) v) = map f (opt_list v)"
  by (cases v) simp_all

definition opt_num :: "nat option \<Rightarrow> nat" where
  "opt_num v = (case v of Some n \<Rightarrow> n | None \<Rightarrow> 0)"

lemma opt_num_simps [simp]: "opt_num None = 0" "opt_num (Some n) = n"
  by (simp_all add: opt_num_def)

text \<open>The weight of a schema bounds that of the schemas it holds; recursion descends along it.\<close>

primrec weight :: "json_schema \<Rightarrow> nat" where
  "weight (Schema c ps ap it ao oo) =
     1 + sum_list (map snd (opt_list (map_option (map (map_prod (\<lambda>x. x) weight)) ps)))
       + opt_num (map_option weight it)
       + sum_list (opt_list (map_option (map weight) ao))
       + sum_list (opt_list (map_option (map weight) oo))"

definition weights :: "json_schema list \<Rightarrow> nat" where
  "weights xs = sum_list (map weight xs)"

lemma weights_simps [simp]:
  "weights [] = 0" "weights (x # xs) = weight x + weights xs" "weights (xs @ ys) = weights xs + weights ys"
  by (simp_all add: weights_def)

lemma weights_mem: "x \<in> set xs \<Longrightarrow> weight x \<le> weights xs"
  unfolding weights_def by (intro member_le_sum_list) auto

lemma weight_eq:
  "weight s = 1 + weights (map snd (opt_list (properties s))) + opt_num (map_option weight (items s))
     + weights (opt_list (all_of s)) + weights (opt_list (one_of s))"
  by (cases s) (simp add: weights_def comp_def map_prod_def case_prod_beta)

lemma weight_property: "(k, v) \<in> set (opt_list (properties s)) \<Longrightarrow> weight v < weight s"
  unfolding weight_eq [of s]
  using weights_mem [of v "map snd (opt_list (properties s))"] by force

lemma weight_items: "items s = Some v \<Longrightarrow> weight v < weight s"
  unfolding weight_eq [of s] by simp

lemma weight_one_of: "v \<in> set (opt_list (one_of s)) \<Longrightarrow> weight v < weight s"
  unfolding weight_eq [of s] using weights_mem [of v "opt_list (one_of s)"] by simp

section \<open>References\<close>

text \<open>
  The resolver of \<open>buildRefResolver\<close> over the document's components; \<open>None\<close> when the caller
  supplies no \<open>resolveRef\<close> (the Helm dialog).
\<close>

type_synonym components = "(string \<times> json_schema) list option"

definition ref_prefix :: string where
  "ref_prefix = ''#/components/schemas/''"

definition resolve_ref :: "(string \<times> json_schema) list \<Rightarrow> string \<Rightarrow> json_schema option" where
  "resolve_ref schemas ref =
     (if \<not> starts_with ref_prefix ref then None else map_of schemas (drop (length ref_prefix) ref))"

definition find_schema_by_gvk ::
  "(string \<times> json_schema) list \<Rightarrow> string \<Rightarrow> string \<Rightarrow> string \<Rightarrow> json_schema option" where
  "find_schema_by_gvk schemas grp version kind =
     map_option snd
       (find (\<lambda>(_, s). list_ex (\<lambda>g. kt_group g = grp \<and> kt_version g = version \<and> kt_kind g = kind)
                        (opt_list (sc_kind_tags (core s)))) schemas)"

text \<open>How many references of the document have not been followed yet.\<close>

definition unseen :: "components \<Rightarrow> string list \<Rightarrow> nat" where
  "unseen comps seen =
     (case comps of None \<Rightarrow> 0
      | Some schemas \<Rightarrow> card ((\<lambda>k. ref_prefix @ k) ` set (map fst schemas) - set seen))"

lemma unseen_mono: "set seen \<subseteq> set seen' \<Longrightarrow> unseen comps seen' \<le> unseen comps seen"
  by (cases comps) (auto simp: unseen_def intro!: card_mono)

lemma unseen_follow:
  assumes "comps = Some schemas" "resolve_ref schemas ref = Some t" "ref \<notin> set seen"
  shows "unseen comps (ref # seen) < unseen comps seen"
proof -
  let ?refs = "(\<lambda>k. ref_prefix @ k) ` set (map fst schemas)"
  from assms(2) obtain k where k: "ref = ref_prefix @ k" "map_of schemas k = Some t"
    by (auto simp: resolve_ref_def prefix_def split: if_splits)
  then have "ref \<in> ?refs" by (force dest: map_of_SomeD)
  then have "?refs - set (ref # seen) \<subset> ?refs - set seen" using assms(3) by auto
  then have "card (?refs - set (ref # seen)) < card (?refs - set seen)"
    by (intro psubset_card_mono) simp_all
  then show ?thesis using assms(1) by (simp only: unseen_def option.case)
qed

section \<open>Merging allOf\<close>

definition add_new :: "'a \<Rightarrow> 'a list \<Rightarrow> 'a list" where
  "add_new x xs = (if x \<in> set xs then xs else xs @ [x])"

definition remdups_first :: "'a list \<Rightarrow> 'a list" where
  "remdups_first xs = fold add_new xs []"

definition add_type :: "type_decl option \<Rightarrow> string list \<Rightarrow> string list" where
  "add_type t types =
     (case t of
        None \<Rightarrow> types
      | Some (TypeName n) \<Rightarrow> if n = [] then types else add_new n types
      | Some (TypeNames ns) \<Rightarrow> fold add_new (filter (\<lambda>n. n \<noteq> ''null'') ns) types)"

text \<open>\<open>includes\<close> compares objects by reference: a value of another array is never found.\<close>

definition js_includes :: "jsval list \<Rightarrow> jsval \<Rightarrow> bool" where
  "js_includes xs v = (\<not> (is_plain_object v \<or> is_array v) \<and> v \<in> set xs)"

definition intersect_enums :: "jsval list list \<Rightarrow> jsval list option" where
  "intersect_enums enums =
     (case enums of
        [] \<Rightarrow> None
      | e # es \<Rightarrow> Some (foldl (\<lambda>acc e2. filter (js_includes e2) acc) e es))"

text \<open>Folding the flat keywords of the resolved entries into the parent's.\<close>

definition declared_types :: "schema_core \<Rightarrow> schema_core list \<Rightarrow> string list" where
  "declared_types parent entries =
     fold (\<lambda>e. add_type (sc_type e)) entries (add_type (sc_type parent) [])"

definition merge_core :: "schema_core \<Rightarrow> schema_core list \<Rightarrow> schema_core" where
  "merge_core parent entries =
     (let required = fold (\<lambda>e. fold add_new (opt_list (sc_required e))) entries
                       (remdups_first (opt_list (sc_required parent)));
          types = declared_types parent entries;
          enums = (case sc_enum parent of Some e \<Rightarrow> [e] | None \<Rightarrow> [])
                  @ concat (map (\<lambda>e. case sc_enum e of Some x \<Rightarrow> [x] | None \<Rightarrow> []) entries)
      in parent
           \<lparr>sc_required := (if required \<noteq> [] then Some required else sc_required parent),
            sc_type := (case types of [t] \<Rightarrow> Some (TypeName t) | _ \<Rightarrow> sc_type parent),
            sc_description := fold (\<lambda>e d. case sc_description e of
                                          Some (c # cs) \<Rightarrow> Some (c # cs) | _ \<Rightarrow> d)
                                entries (sc_description parent),
            sc_default := fold (\<lambda>e d. case sc_default e of Some v \<Rightarrow> Some v | None \<Rightarrow> d)
                            entries (sc_default parent),
            sc_enum := (case intersect_enums enums of
                          None \<Rightarrow> sc_enum parent
                        | Some [] \<Rightarrow> None
                        | Some vs \<Rightarrow> Some vs)\<rparr>)"

definition merge_properties ::
  "json_schema \<Rightarrow> json_schema list \<Rightarrow> (string \<times> json_schema) list" where
  "merge_properties parent entries =
     fold (\<lambda>e. fold (\<lambda>(k, v). AList.update k v) (opt_list (properties e))) entries
       (opt_list (properties parent))"

definition merge_resolved :: "json_schema \<Rightarrow> json_schema list \<Rightarrow> json_schema" where
  "merge_resolved s entries =
     (if 1 < length (declared_types (core s) (map core entries)) then s
      else let props = merge_properties s entries
           in Schema (merge_core (core s) (map core entries))
                (if props \<noteq> [] then Some props else properties s)
                (fold (\<lambda>e ap. case additional e of Some v \<Rightarrow> Some v | None \<Rightarrow> ap)
                   entries (additional s))
                (items s) None
                (case one_of s of
                   Some oo \<Rightarrow> Some oo
                 | None \<Rightarrow> (case find (\<lambda>e. one_of e \<noteq> None) entries of
                              Some e \<Rightarrow> one_of e | None \<Rightarrow> None)))"

text \<open>
  \<open>mergeAllOf\<close>, its loop over the entries and \<open>resolveEntry\<close>. Each returns the grown set of
  followed references beside its result; the merge itself returns the schema unchanged when an
  entry cannot be resolved.
\<close>

function (sequential) merge_all_of ::
    "components \<Rightarrow> json_schema \<Rightarrow> string list \<Rightarrow> json_schema \<times> string list"
  and resolve_entries ::
    "components \<Rightarrow> json_schema list \<Rightarrow> string list \<Rightarrow> json_schema list option \<times> string list"
  and resolve_entry ::
    "components \<Rightarrow> json_schema \<Rightarrow> string list \<Rightarrow> json_schema option \<times> string list" where
  "merge_all_of comps s seen =
     (if opt_list (all_of s) = [] then (s, seen)
      else (case resolve_entries comps (opt_list (all_of s)) seen of
              (None, seen') \<Rightarrow> (s, seen')
            | (Some entries, seen') \<Rightarrow> (merge_resolved s entries, seen')))"
| "resolve_entries comps [] seen = (Some [], seen)"
| "resolve_entries comps (e # es) seen =
     (case resolve_entry comps e seen of
        (None, seen') \<Rightarrow> (None, seen')
      | (Some r, seen') \<Rightarrow>
          (case resolve_entries comps es seen' of
             (None, seen2) \<Rightarrow> (None, seen2)
           | (Some rs, seen2) \<Rightarrow> (Some (r # rs), seen2)))"
| "resolve_entry comps e seen =
     (case sc_ref (core e) of
        None \<Rightarrow> (Some e, seen)
      | Some ref \<Rightarrow>
          (case comps of
             None \<Rightarrow> (None, seen)
           | Some schemas \<Rightarrow>
               (if ref \<in> set seen then (None, seen)
                else (case resolve_ref schemas ref of
                        None \<Rightarrow> (None, seen)
                      | Some t \<Rightarrow>
                          (if (case sc_ref (core t) of Some r \<Rightarrow> r \<noteq> [] | None \<Rightarrow> False)
                           then resolve_entry comps t (ref # seen)
                           else if all_of t \<noteq> None
                           then (let (m, seen') = merge_all_of comps t (ref # seen) in (Some m, seen'))
                           else (Some t, ref # seen))))))"
  by pat_completeness auto

text \<open>The set of followed references only grows.\<close>

lemma seen_grows_dom:
  "merge_all_of_resolve_entries_resolve_entry_dom (Inl (comps, s, seen)) \<Longrightarrow>
     set seen \<subseteq> set (snd (merge_all_of comps s seen))"
  "merge_all_of_resolve_entries_resolve_entry_dom (Inr (Inl (comps, es, seen))) \<Longrightarrow>
     set seen \<subseteq> set (snd (resolve_entries comps es seen))"
  "merge_all_of_resolve_entries_resolve_entry_dom (Inr (Inr (comps, e, seen))) \<Longrightarrow>
     set seen \<subseteq> set (snd (resolve_entry comps e seen))"
proof (induction comps s seen and comps es seen and comps e seen
    rule: merge_all_of_resolve_entries_resolve_entry.pinduct)
  case (1 comps s seen)
  then show ?case by (auto simp: merge_all_of.psimps split: prod.splits option.splits)
next
  case (2 comps seen)
  then show ?case by (simp add: resolve_entries.psimps)
next
  case (3 comps e es seen)
  then show ?case by (fastforce simp: resolve_entries.psimps split: prod.splits option.splits)
next
  case (4 comps e seen)
  then show ?case
    by (auto simp: resolve_entry.psimps case_prod_beta split: option.splits if_splits)
qed

termination merge_all_of
proof (relation "measures
    [\<lambda>x. case x of Inl (comps, s, seen) \<Rightarrow> unseen comps seen
        | Inr (Inl (comps, es, seen)) \<Rightarrow> unseen comps seen
        | Inr (Inr (comps, e, seen)) \<Rightarrow> unseen comps seen,
     \<lambda>x. case x of Inl (comps, s, seen) \<Rightarrow> length (opt_list (all_of s)) + 2
        | Inr (Inl (comps, es, seen)) \<Rightarrow> length es + 1
        | Inr (Inr (comps, e, seen)) \<Rightarrow> 0]", goal_cases)
  case (4 comps e es seen result seen' r)
  then have "set seen \<subseteq> set seen'"
    using seen_grows_dom(3) [of comps e seen] by (metis snd_conv)
  then have "unseen comps seen' \<le> unseen comps seen" by (rule unseen_mono)
  then show ?case by auto
next
  case (5 comps e seen ref schemas t)
  then show ?case using unseen_follow [of comps schemas ref t seen] by simp
next
  case (6 comps e seen ref schemas t)
  then show ?case using unseen_follow [of comps schemas ref t seen] by simp
qed auto

declare merge_all_of.simps [simp del] resolve_entry.simps [simp del]

text \<open>\<open>derefIfNeeded\<close>: following the reference, then merging \<open>allOf\<close>.\<close>

definition flatten :: "components \<Rightarrow> json_schema \<Rightarrow> string list \<Rightarrow> json_schema \<times> string list" where
  "flatten comps s seen =
     (if opt_list (all_of s) \<noteq> [] then merge_all_of comps s seen else (s, seen))"

function deref ::
  "components \<Rightarrow> json_schema \<Rightarrow> string list \<Rightarrow> json_schema option \<times> string list" where
  "deref comps s seen =
     (case sc_ref (core s) of
        None \<Rightarrow> (let (t, seen') = flatten comps s seen in (Some t, seen'))
      | Some ref \<Rightarrow>
          (case comps of
             None \<Rightarrow> (None, seen)
           | Some schemas \<Rightarrow>
               (if ref \<in> set seen then (None, seen)
                else (case resolve_ref schemas ref of
                        None \<Rightarrow> (None, seen)
                      | Some t \<Rightarrow>
                          (case deref comps t (ref # seen) of
                             (None, seen') \<Rightarrow> (None, seen')
                           | (Some c, seen') \<Rightarrow>
                               (let (m, seen2) = flatten comps c seen' in (Some m, seen2)))))))"
  by pat_completeness auto
termination
  by (relation "measure (\<lambda>(comps, s, seen). unseen comps seen)") (auto intro: unseen_follow)

declare deref.simps [simp del]

section \<open>Resolution makes progress\<close>

text \<open>
  Either a reference of the document is used up, or the schema found is no heavier than the one
  resolved. This is what ends the walker's recursion on cyclic types.
\<close>

lemma weights_update: "weights (map snd (AList.update k v ps)) \<le> weights (map snd ps) + weight v"
  by (induction ps) (auto simp: weights_def)

lemma weights_update_all:
  "weights (map snd (fold (\<lambda>(k, v). AList.update k v) qs ps))
     \<le> weights (map snd ps) + weights (map snd qs)"
proof (induction qs arbitrary: ps)
  case (Cons q qs)
  obtain k v where q: "q = (k, v)" by (cases q)
  show ?case using Cons.IH [of "AList.update k v ps"] weights_update [of k v ps] by (simp add: q)
qed simp

lemma weight_pos: "weight s = Suc (weight s - 1)"
  using weight_eq [of s] by simp

definition one_of_weights :: "json_schema list \<Rightarrow> nat" where
  "one_of_weights es = sum_list (map (\<lambda>e. weights (opt_list (one_of e))) es)"

lemma one_of_weights_simps [simp]:
  "one_of_weights [] = 0"
  "one_of_weights (e # es) = weights (opt_list (one_of e)) + one_of_weights es"
  by (simp_all add: one_of_weights_def)

lemma one_of_weights_mem: "e \<in> set es \<Longrightarrow> weights (opt_list (one_of e)) \<le> one_of_weights es"
  unfolding one_of_weights_def by (intro member_le_sum_list) auto

lemma entry_weight:
  "weights (map snd (opt_list (properties e))) + weights (opt_list (one_of e)) < weight e"
  unfolding weight_eq [of e] by simp

lemma merge_properties_weight:
  "weights (map snd (merge_properties s es)) + one_of_weights es
     \<le> weights (map snd (opt_list (properties s))) + weights es"
proof -
  have "weights (map snd (fold (\<lambda>e. fold (\<lambda>(k, v). AList.update k v) (opt_list (properties e))) es ps))
      + one_of_weights es \<le> weights (map snd ps) + weights es" for ps
  proof (induction es arbitrary: ps)
    case (Cons e es)
    let ?qs = "fold (\<lambda>(k, v). AList.update k v) (opt_list (properties e)) ps"
    show ?case
      using Cons.IH [of ?qs] weights_update_all [of "opt_list (properties e)" ps] entry_weight [of e]
      by simp
  qed simp
  then show ?thesis by (simp add: merge_properties_def)
qed

lemma one_of_weights_le: "one_of_weights es \<le> weights es"
proof (induction es)
  case (Cons e es)
  then show ?case using entry_weight [of e] by simp
qed simp

lemma found_one_of_weight:
  "weights (opt_list (case find (\<lambda>e. one_of e \<noteq> None) es of Some e \<Rightarrow> one_of e | None \<Rightarrow> None))
     \<le> one_of_weights es"
  by (auto split: option.split dest!: find_Some_mem intro: one_of_weights_mem)

lemma merge_resolved_weight: "weight (merge_resolved s (opt_list (all_of s))) \<le> weight s"
proof (cases "1 < length (declared_types (core s) (map core (opt_list (all_of s))))")
  case False
  let ?es = "opt_list (all_of s)"
  let ?props = "merge_properties s ?es"
  let ?oo = "case one_of s of Some oo \<Rightarrow> Some oo | None \<Rightarrow>
      (case find (\<lambda>e. one_of e \<noteq> None) ?es of Some e \<Rightarrow> one_of e | None \<Rightarrow> None)"
  have oo: "weights (opt_list ?oo) \<le> weights (opt_list (one_of s)) + one_of_weights ?es"
    using found_one_of_weight [of ?es] by (cases "one_of s") simp_all
  have props: "weights (map snd (opt_list (if ?props \<noteq> [] then Some ?props else properties s)))
      + one_of_weights ?es \<le> weights (map snd (opt_list (properties s))) + weights ?es"
    using merge_properties_weight [of s ?es] one_of_weights_le [of ?es] by simp
  show ?thesis
    using oo props False unfolding merge_resolved_def Let_def weight_eq [of s]
    by (simp only: if_False weight_eq json_schema.sel opt_list_simps weights_simps)
qed (simp add: merge_resolved_def)

lemma merge_progress_dom:
  "unseen comps (snd (merge_all_of comps s seen)) < unseen comps seen \<or>
     snd (merge_all_of comps s seen) = seen \<and> weight (fst (merge_all_of comps s seen)) \<le> weight s"
  "unseen comps (snd (resolve_entries comps es seen)) < unseen comps seen \<or>
     snd (resolve_entries comps es seen) = seen \<and>
       fst (resolve_entries comps es seen) \<in> {None, Some es}"
  "unseen comps (snd (resolve_entry comps e seen)) < unseen comps seen \<or>
     snd (resolve_entry comps e seen) = seen \<and> fst (resolve_entry comps e seen) \<in> {None, Some e}"
proof (induction comps s seen and comps es seen and comps e seen
    rule: merge_all_of_resolve_entries_resolve_entry.induct)
  case (1 comps s seen)
  then show ?case
    using merge_resolved_weight [of s]
    by (auto simp: merge_all_of.simps split: prod.splits option.splits)
next
  case (3 comps e es seen)
  then show ?case
    by (cases "resolve_entry comps e seen") (force split: prod.splits option.splits)
next
  case (4 comps e seen)
  then show ?case
    using unseen_follow [of comps _ _ _ seen]
    by (subst (1 2 3) resolve_entry.simps)
       (force simp: case_prod_beta split: option.splits if_splits)
qed simp

lemma flatten_progress:
  "unseen comps (snd (flatten comps s seen)) < unseen comps seen \<or>
     snd (flatten comps s seen) = seen \<and> weight (fst (flatten comps s seen)) \<le> weight s"
  using merge_progress_dom(1) by (simp add: flatten_def)

lemma deref_progress:
  "unseen comps (snd (deref comps s seen)) < unseen comps seen \<or>
     snd (deref comps s seen) = seen \<and>
       (\<forall>t. fst (deref comps s seen) = Some t \<longrightarrow> weight t \<le> weight s)"
proof (induction comps s seen rule: deref.induct)
  case (1 comps s seen)
  show ?case
  proof (cases "sc_ref (core s)")
    case None
    then show ?thesis
      using flatten_progress [of comps s seen]
      by (simp add: deref.simps [of comps s seen] case_prod_beta Let_def)
  next
    case (Some ref)
    show ?thesis
    proof (cases "\<exists>schemas t. comps = Some schemas \<and> ref \<notin> set seen \<and> resolve_ref schemas ref = Some t")
      case True
      then obtain schemas t where t: "comps = Some schemas" "ref \<notin> set seen"
        "resolve_ref schemas ref = Some t" by blast
      obtain r seen' where d: "deref comps t (ref # seen) = (r, seen')" by (metis surj_pair)
      have "unseen comps seen' \<le> unseen comps (ref # seen)"
        using "1.IH" [OF Some t] d by auto
      then have less: "unseen comps seen' < unseen comps seen"
        using unseen_follow [OF t(1,3,2)] by simp
      have "deref comps s seen = (case r of None \<Rightarrow> (None, seen') | Some c \<Rightarrow>
          (Some (fst (flatten comps c seen')), snd (flatten comps c seen')))"
        by (subst deref.simps) (simp add: Some t d [unfolded t(1)] case_prod_beta Let_def
            split: option.split)
      then show ?thesis
        using flatten_progress [of comps "the r" seen'] less by (cases r) auto
    next
      case False
      then show ?thesis
        using Some by (subst (1 2 3) deref.simps) (auto split: option.splits)
    qed
  qed
qed

end
