(* ===== verification/SchemaWalker.thy ===== *)
theory SchemaWalker
  imports JsonSchema
begin

text \<open>
  Model of \<open>web/src/lib/schemaForm/walker.ts\<close>: the recursion from a JSON schema to the tree of
  field descriptors the form renders, with its options. Schemas may be cyclic through
  references; the functions are total because every level either uses up a reference or
  descends into a lighter schema.
\<close>

section \<open>Descriptors\<close>

datatype field_type =
    FtString | FtNumber | FtInteger | FtBoolean | FtObject | FtArrayOfPrimitives
  | FtArrayOfObjects | FtKvMap | FtDiscriminator | FtUnsupported

record row_sub_config =
  rs_id :: string
  rs_label :: string
  rs_open_when_populated :: bool
  rs_show_count :: bool

record field_core =
  fd_path :: "string list"
  fd_label :: string
  fd_type :: field_type
  fd_description :: "string option"
  fd_required :: bool
  fd_default :: "jsval option"
  fd_enum :: "jsval list option"
  fd_item_type :: "string option"
  fd_kv_value_type :: "string option"
  fd_pattern :: "string option"
  fd_format :: "string option"
  fd_minimum :: "int option"
  fd_maximum :: "int option"
  fd_min_length :: "int option"
  fd_max_length :: "int option"
  fd_create_only :: bool
  fd_unsupported_reason :: "string option"
  fd_section :: "string option"
  fd_display_order :: "nat option"
  fd_row_sub_sections :: "row_sub_config list option"

datatype field_descriptor =
  Field (fcore: field_core)
    (children: "field_descriptor list option")
    (branches: "discriminator_branch list option")
    (shared_children: "field_descriptor list option")
and discriminator_branch =
  Branch (br_label: string) (br_description: "string option") (br_schema: json_schema)
    (br_key: "string option") (br_descriptors: "field_descriptor list")

record discriminator_hint =
  dh_branches :: "string list"
  dh_labels :: "(string \<times> string) list"

type_synonym section_resolver = "string list \<Rightarrow> (string \<times> nat) option"

record walk_options =
  wo_components :: components
  wo_allow_kv_map :: bool
  wo_allow_array_of_objects :: bool
  wo_allow_one_of :: bool
  wo_create_only_paths :: "string list"
  wo_section_resolver :: "section_resolver option"
  wo_sub_section_resolver :: "(string list \<Rightarrow> row_sub_config list option) option"
  wo_hints :: "(string \<times> discriminator_hint) list"

section \<open>Helpers\<close>

definition normalize_type :: "type_decl option \<Rightarrow> string" where
  "normalize_type t =
     (case t of
        None \<Rightarrow> []
      | Some (TypeName n) \<Rightarrow> n
      | Some (TypeNames ns) \<Rightarrow>
          (case find (\<lambda>n. n \<noteq> ''null'') ns of Some n \<Rightarrow> n | None \<Rightarrow> []))"

definition primitive_types :: "string list" where
  "primitive_types = [''string'', ''number'', ''integer'', ''boolean'']"

definition is_primitive_additional_properties :: "additional_props option \<Rightarrow> bool" where
  "is_primitive_additional_properties ap =
     (case ap of Some (ApSchema s) \<Rightarrow> normalize_type (sc_type (core s)) \<in> set primitive_types
      | _ \<Rightarrow> False)"

definition last_segment :: "string list \<Rightarrow> string" where
  "last_segment path = (if path = [] then [] else last path)"

definition nonempty :: "string option \<Rightarrow> bool" where
  "nonempty v = (case v of Some s \<Rightarrow> s \<noteq> [] | None \<Rightarrow> False)"

definition is_single_required_key_branch :: "json_schema \<Rightarrow> bool" where
  "is_single_required_key_branch b =
     ((case sc_required (core b) of Some [_] \<Rightarrow> True | _ \<Rightarrow> False) \<and>
      core b = blank\<lparr>sc_required := sc_required (core b), sc_description := sc_description (core b),
                     sc_title := sc_title (core b)\<rparr> \<and>
      properties b = None \<and> additional b = None \<and> items b = None \<and> all_of b = None \<and>
      one_of b = None)"

definition branch_label_for :: "json_schema \<Rightarrow> string option \<Rightarrow> nat \<Rightarrow> string" where
  "branch_label_for sub key fallback_idx =
     (if nonempty (sc_title (core sub)) then the (sc_title (core sub))
      else if nonempty key then the key
      else (case sc_required (core sub) of
              Some [r] \<Rightarrow> r
            | _ \<Rightarrow>
                (let keys = map fst (opt_list (properties sub))
                 in if length keys = 1 then hd keys
                    else if 0 < length keys \<and> length keys \<le> 3 then join_str '' + '' keys
                    else (case sc_type (core sub) of
                            Some (TypeName n) \<Rightarrow>
                              if n \<in> set primitive_types then n
                              else ''option '' @ show_nat (fallback_idx + 1)
                          | _ \<Rightarrow> ''option '' @ show_nat (fallback_idx + 1)))))"

definition extract_primary_ref :: "json_schema \<Rightarrow> string option" where
  "extract_primary_ref s =
     (case sc_ref (core s) of
        Some r \<Rightarrow> Some r
      | None \<Rightarrow> (case all_of s of Some [e] \<Rightarrow> sc_ref (core e) | _ \<Rightarrow> None))"

definition find_hint :: "walk_options \<Rightarrow> json_schema \<Rightarrow> discriminator_hint option" where
  "find_hint opts s =
     (case extract_primary_ref s of Some r \<Rightarrow> map_of (wo_hints opts) r | None \<Rightarrow> None)"

fun stamp_row :: "section_resolver \<Rightarrow> string list \<Rightarrow> field_descriptor \<Rightarrow> field_descriptor" where
  "stamp_row resolver pre (Field c ch br sh) =
     Field
       (case resolver (pre @ fd_path c) of
          Some (sec, order) \<Rightarrow> c\<lparr>fd_section := Some sec, fd_display_order := Some order\<rparr>
        | None \<Rightarrow> c)
       (if fd_type c = FtArrayOfObjects \<or> fd_type c = FtDiscriminator then ch
        else (case ch of None \<Rightarrow> None | Some ds \<Rightarrow> Some (map (stamp_row resolver pre) ds)))
       br sh"

definition stamp_section :: "walk_options \<Rightarrow> string list \<Rightarrow> field_descriptor \<Rightarrow> field_descriptor" where
  "stamp_section opts path d =
     (case wo_section_resolver opts of
        None \<Rightarrow> d
      | Some resolver \<Rightarrow>
          (case resolver path of
             None \<Rightarrow> d
           | Some (sec, order) \<Rightarrow>
               (case d of Field c ch br sh \<Rightarrow>
                  Field (c\<lparr>fd_section := Some sec, fd_display_order := Some order\<rparr>) ch br sh)))"

definition plain_core :: "string list \<Rightarrow> string \<Rightarrow> field_type \<Rightarrow> field_core" where
  "plain_core path label t =
     \<lparr>fd_path = path, fd_label = label, fd_type = t, fd_description = None, fd_required = False,
      fd_default = None, fd_enum = None, fd_item_type = None, fd_kv_value_type = None,
      fd_pattern = None, fd_format = None, fd_minimum = None, fd_maximum = None,
      fd_min_length = None, fd_max_length = None, fd_create_only = False,
      fd_unsupported_reason = None, fd_section = None, fd_display_order = None,
      fd_row_sub_sections = None\<rparr>"

definition leaf :: "field_core \<Rightarrow> field_descriptor" where
  "leaf c = Field c None None None"

definition unsupported_field :: "json_schema \<Rightarrow> string list \<Rightarrow> bool \<Rightarrow> string \<Rightarrow> field_descriptor" where
  "unsupported_field raw path required reason =
     leaf ((plain_core path (last_segment path) FtUnsupported)
       \<lparr>fd_description := sc_description (core raw), fd_required := required,
        fd_unsupported_reason := Some reason\<rparr>)"

definition unsupported :: "field_core \<Rightarrow> string \<Rightarrow> field_descriptor" where
  "unsupported base reason =
     leaf (base\<lparr>fd_type := FtUnsupported, fd_unsupported_reason := Some reason\<rparr>)"

text \<open>The \<open>base\<close> of \<open>walkFieldImpl\<close>; every branch sets the type.\<close>

definition base_core :: "walk_options \<Rightarrow> json_schema \<Rightarrow> string list \<Rightarrow> bool \<Rightarrow> field_core" where
  "base_core opts s path required =
     (plain_core path
        (if nonempty (sc_title (core s)) then the (sc_title (core s)) else last_segment path)
        FtUnsupported)
       \<lparr>fd_description := sc_description (core s), fd_required := required,
        fd_default := sc_default (core s),
        fd_create_only := join_str ''.'' path \<in> set (wo_create_only_paths opts)\<rparr>"

definition yaml_mode :: string where
  "yaml_mode = '' '' @ em_dash @ '' edit in YAML mode''"

definition show_type :: "type_decl \<Rightarrow> string" where
  "show_type t = (case t of TypeName n \<Rightarrow> n | TypeNames ns \<Rightarrow> join_str '','' ns)"

definition default_reason :: "json_schema \<Rightarrow> string" where
  "default_reason s =
     (case sc_type (core s) of
        Some (TypeName []) \<Rightarrow> ''type not specified''
      | Some t \<Rightarrow> ''unsupported type '' @ show_type t
      | None \<Rightarrow> ''type not specified'')"

text \<open>What an array's items resolve to, and the references followed by then.\<close>

definition row_schema :: "walk_options \<Rightarrow> json_schema \<Rightarrow> string list \<Rightarrow> json_schema" where
  "row_schema opts its seen =
     (case fst (deref (wo_components opts) its seen) of Some s \<Rightarrow> s | None \<Rightarrow> its)"

definition row_seen :: "walk_options \<Rightarrow> json_schema \<Rightarrow> string list \<Rightarrow> string list" where
  "row_seen opts its seen = snd (deref (wo_components opts) its seen)"

definition stamp_rows ::
  "walk_options \<Rightarrow> string list \<Rightarrow> field_descriptor list \<Rightarrow> field_descriptor list" where
  "stamp_rows opts path rows =
     (case wo_section_resolver opts of
        Some resolver \<Rightarrow> map (stamp_row resolver (path @ [''*''])) rows | None \<Rightarrow> rows)"

lemma row_progress:
  "unseen (wo_components opts) (row_seen opts its seen) < unseen (wo_components opts) seen \<or>
     row_seen opts its seen = seen \<and> weight (row_schema opts its seen) \<le> weight its"
  using deref_progress [of "wo_components opts" its seen]
  by (auto simp: row_seen_def row_schema_def split: option.splits)

lemma deref_Some_progress:
  "deref comps s seen = (Some t, seen') \<Longrightarrow>
     unseen comps seen' < unseen comps seen \<or> seen' = seen \<and> weight t \<le> weight s"
  using deref_progress [of comps s seen] by simp

lemma entry_progress:
  "(i, e) \<in> set (zip is (opt_list (one_of s))) \<Longrightarrow> (Some t, seen') = deref comps e seen \<Longrightarrow>
     unseen comps seen' < unseen comps seen \<or> seen' = seen \<and> weight t < weight s"
  using deref_Some_progress [of comps e seen t seen'] weight_one_of [of e s]
  by (fastforce dest: set_zip_rightD)

section \<open>The walk\<close>

text \<open>
  \<open>walkObject\<close>, \<open>walkField\<close>, \<open>walkFieldImpl\<close> with its switch on the type (\<open>walk_typed\<close>),
  \<open>buildHintedDiscriminator\<close>, \<open>buildDiscriminatorBranches\<close> and \<open>walkBranchSchema\<close>. The keys of
  an object schema's properties are distinct, as in any JSON text.
\<close>

function (sequential) walk_object ::
    "walk_options \<Rightarrow> json_schema \<Rightarrow> string list \<Rightarrow> string list \<Rightarrow> field_descriptor list"
  and walk_field ::
    "walk_options \<Rightarrow> json_schema \<Rightarrow> string list \<Rightarrow> bool \<Rightarrow> string list \<Rightarrow> field_descriptor"
  and walk_field_impl ::
    "walk_options \<Rightarrow> json_schema \<Rightarrow> string list \<Rightarrow> bool \<Rightarrow> string list \<Rightarrow> field_descriptor"
  and walk_typed ::
    "walk_options \<Rightarrow> json_schema \<Rightarrow> string list \<Rightarrow> field_core \<Rightarrow> string list \<Rightarrow> field_descriptor"
  and build_hinted ::
    "walk_options \<Rightarrow> json_schema \<Rightarrow> discriminator_hint \<Rightarrow> string list \<Rightarrow>
      (discriminator_branch list \<times> field_descriptor list option) option"
  and build_branches ::
    "walk_options \<Rightarrow> json_schema \<Rightarrow> string list \<Rightarrow> discriminator_branch list option"
  and walk_branch_schema ::
    "walk_options \<Rightarrow> json_schema \<Rightarrow> string list \<Rightarrow> string list \<Rightarrow> field_descriptor list" where
  "walk_object opts s path seen =
     map (\<lambda>(key, child). walk_field opts child (path @ [key])
            (key \<in> set (opt_list (sc_required (core s)))) seen)
       (opt_list (properties s))"
| "walk_field opts raw path required seen =
     stamp_section opts path (walk_field_impl opts raw path required seen)"
| "walk_field_impl opts raw path required parent_seen =
     (case deref (wo_components opts) raw parent_seen of
        (None, _) \<Rightarrow> unsupported_field raw path required (''recursive $ref'' @ yaml_mode)
      | (Some s, seen) \<Rightarrow>
          (case (case find_hint opts raw of
                   Some hint \<Rightarrow> (if properties s \<noteq> None then build_hinted opts s hint seen else None)
                 | None \<Rightarrow> None) of
             Some (bs, sh) \<Rightarrow>
               Field ((base_core opts s path required)\<lparr>fd_type := FtDiscriminator\<rparr>) None (Some bs) sh
           | None \<Rightarrow>
               (case (if wo_allow_one_of opts \<and> opt_list (one_of s) \<noteq> []
                      then build_branches opts s seen else None) of
                  Some (b # bs) \<Rightarrow>
                    Field ((base_core opts s path required)\<lparr>fd_type := FtDiscriminator\<rparr>) None
                      (Some (b # bs)) None
                | _ \<Rightarrow> walk_typed opts s path (base_core opts s path required) seen)))"
| "walk_typed opts s path base seen =
     (if sc_any_of (core s) \<or> one_of s \<noteq> None \<or> all_of s \<noteq> None \<or> sc_pattern_properties (core s)
      then unsupported base
             (''schema uses anyOf / oneOf / allOf / patternProperties'' @ yaml_mode)
      else if sc_ref (core s) \<noteq> None
      then unsupported base (''schema uses $ref'' @ yaml_mode)
      else let t = normalize_type (sc_type (core s)); c = core s
      in if t = ''string''
         then leaf (base\<lparr>fd_type := FtString, fd_enum := sc_enum c, fd_pattern := sc_pattern c,
                         fd_format := sc_format c, fd_min_length := sc_min_length c,
                         fd_max_length := sc_max_length c\<rparr>)
         else if t = ''number'' \<or> t = ''integer''
         then leaf (base\<lparr>fd_type := (if t = ''number'' then FtNumber else FtInteger),
                         fd_enum := sc_enum c, fd_minimum := sc_minimum c, fd_maximum := sc_maximum c\<rparr>)
         else if t = ''boolean'' then leaf (base\<lparr>fd_type := FtBoolean, fd_enum := sc_enum c\<rparr>)
         else if t = ''object''
         then (if wo_allow_kv_map opts \<and> opt_list (properties s) = []
                  \<and> is_primitive_additional_properties (additional s)
               then leaf (base\<lparr>fd_type := FtKvMap,
                               fd_kv_value_type :=
                                 (case additional s of
                                    Some (ApSchema a) \<Rightarrow> Some (normalize_type (sc_type (core a)))
                                  | _ \<Rightarrow> Some ''string'')\<rparr>)
               else Field (base\<lparr>fd_type := FtObject\<rparr>) (Some (walk_object opts s path seen)) None None)
         else if t = ''array''
         then (case items s of
                 None \<Rightarrow> unsupported base ''array without items schema''
               | Some its \<Rightarrow>
                   (let item_type = normalize_type (sc_type (core (row_schema opts its seen)))
                    in if item_type \<in> set primitive_types
                       then leaf (base\<lparr>fd_type := FtArrayOfPrimitives, fd_item_type := Some item_type\<rparr>)
                       else if wo_allow_array_of_objects opts \<and> item_type = ''object''
                       then let rows =
                                  (case (case find_hint opts its of
                                           Some hint \<Rightarrow>
                                             (if properties (row_schema opts its seen) \<noteq> None
                                              then build_hinted opts (row_schema opts its seen) hint
                                                     (row_seen opts its seen)
                                              else None)
                                         | None \<Rightarrow> None) of
                                     Some (bs, sh) \<Rightarrow>
                                       [Field ((plain_core []
                                          (case sc_title (core (row_schema opts its seen)) of
                                             Some ti \<Rightarrow> ti | None \<Rightarrow> []) FtDiscriminator)
                                          \<lparr>fd_description :=
                                             sc_description (core (row_schema opts its seen))\<rparr>)
                                          None (Some bs) sh]
                                   | None \<Rightarrow>
                                       walk_object opts (row_schema opts its seen) []
                                         (row_seen opts its seen))
                            in Field
                                 (base\<lparr>fd_type := FtArrayOfObjects,
                                       fd_row_sub_sections :=
                                         (case wo_sub_section_resolver opts of
                                            Some resolver \<Rightarrow> resolver path | None \<Rightarrow> None)\<rparr>)
                                 (Some (stamp_rows opts path rows)) None None
                       else unsupported base (''array of objects'' @ yaml_mode)))
         else unsupported base (default_reason s))"
| "build_hinted opts s hint parent_seen =
     (if filter (\<lambda>k. k \<in> fst ` set (opt_list (properties s))) (dh_branches hint) = [] then None
      else let bs = concat (map (\<lambda>key. case map_of (opt_list (properties s)) key of
                         None \<Rightarrow> []
                       | Some sub \<Rightarrow>
                           [Branch
                              (case map_of (dh_labels hint) key of
                                 Some l \<Rightarrow> l | None \<Rightarrow> branch_label_for sub (Some key) 0)
                              (sc_description (core sub)) sub (Some key)
                              (walk_branch_schema opts sub [key] parent_seen)])
                     (filter (\<lambda>k. k \<in> fst ` set (opt_list (properties s))) (dh_branches hint)));
                  sh = map (\<lambda>(key, child). walk_field opts child [key]
                         (key \<in> set (opt_list (sc_required (core s)))) parent_seen)
                     (filter (\<lambda>(key, child). key \<notin> set (dh_branches hint)) (opt_list (properties s)))
              in Some (bs, if sh \<noteq> [] then Some sh else None))"
| "build_branches opts s parent_seen =
     (if opt_list (one_of s) = [] then None
      else if properties s \<noteq> None \<and> list_all is_single_required_key_branch (opt_list (one_of s))
      then (if list_all (\<lambda>b. map_of (opt_list (properties s)) (hd (opt_list (sc_required (core b)))) \<noteq> None)
                 (opt_list (one_of s))
            then Some (concat (map (\<lambda>b.
                   case map_of (opt_list (properties s)) (hd (opt_list (sc_required (core b)))) of
                     None \<Rightarrow> []
                   | Some sub \<Rightarrow>
                       [Branch (branch_label_for sub (Some (hd (opt_list (sc_required (core b))))) 0)
                          (sc_description (core sub)) sub (Some (hd (opt_list (sc_required (core b)))))
                          (walk_branch_schema opts sub [hd (opt_list (sc_required (core b)))] parent_seen)])
                 (opt_list (one_of s))))
            else None)
      else if list_all (\<lambda>e. fst (deref (wo_components opts) e parent_seen) \<noteq> None) (opt_list (one_of s))
      then Some (concat (map (\<lambda>(i, e).
                   case deref (wo_components opts) e parent_seen of
                     (None, _) \<Rightarrow> []
                   | (Some r, seen) \<Rightarrow>
                       [Branch (branch_label_for r None i) (sc_description (core r)) r None
                          (walk_branch_schema opts r [] seen)])
                 (zip [0..<length (opt_list (one_of s))] (opt_list (one_of s)))))
      else None)"
| "walk_branch_schema opts s base_path seen =
     (if sc_type (core s) = Some (TypeName ''object'') \<or> properties s \<noteq> None
      then map (\<lambda>(key, child). walk_field opts child (base_path @ [key])
                  (key \<in> set (opt_list (sc_required (core s)))) seen)
             (opt_list (properties s))
      else [walk_field opts s base_path False seen])"
  by pat_completeness auto

termination
proof (relation "measures
    [\<lambda>x. case x of
          Inl (Inl (opts, s, path, seen)) \<Rightarrow> unseen (wo_components opts) seen
        | Inl (Inr (Inl (opts, s, path, req, seen))) \<Rightarrow> unseen (wo_components opts) seen
        | Inl (Inr (Inr (opts, s, path, req, seen))) \<Rightarrow> unseen (wo_components opts) seen
        | Inr (Inl (Inl (opts, s, path, base, seen))) \<Rightarrow> unseen (wo_components opts) seen
        | Inr (Inl (Inr (opts, s, hint, seen))) \<Rightarrow> unseen (wo_components opts) seen
        | Inr (Inr (Inl (opts, s, seen))) \<Rightarrow> unseen (wo_components opts) seen
        | Inr (Inr (Inr (opts, s, path, seen))) \<Rightarrow> unseen (wo_components opts) seen,
     \<lambda>x. case x of
          Inl (Inl (opts, s, path, seen)) \<Rightarrow> weight s
        | Inl (Inr (Inl (opts, s, path, req, seen))) \<Rightarrow> weight s
        | Inl (Inr (Inr (opts, s, path, req, seen))) \<Rightarrow> weight s
        | Inr (Inl (Inl (opts, s, path, base, seen))) \<Rightarrow> weight s
        | Inr (Inl (Inr (opts, s, hint, seen))) \<Rightarrow> weight s
        | Inr (Inr (Inl (opts, s, seen))) \<Rightarrow> weight s
        | Inr (Inr (Inr (opts, s, path, seen))) \<Rightarrow> weight s,
     \<lambda>x. case x of
          Inl (Inl (opts, s, path, seen)) \<Rightarrow> 0
        | Inl (Inr (Inl (opts, s, path, req, seen))) \<Rightarrow> 4
        | Inl (Inr (Inr (opts, s, path, req, seen))) \<Rightarrow> 3
        | Inr (Inl (Inl (opts, s, path, base, seen))) \<Rightarrow> 2
        | Inr (Inl (Inr (opts, s, hint, seen))) \<Rightarrow> 1
        | Inr (Inr (Inl (opts, s, seen))) \<Rightarrow> 1
        | Inr (Inr (Inr (opts, s, path, seen))) \<Rightarrow> 5]", goal_cases)
  case (4 opts raw path required parent_seen x y s hint)
  then show ?case using deref_Some_progress [of "wo_components opts" raw parent_seen s y] by auto
next
  case (5 opts raw path required parent_seen x y s)
  then show ?case using deref_Some_progress [of "wo_components opts" raw parent_seen s y] by auto
next
  case (6 opts raw path required parent_seen x y s)
  then show ?case using deref_Some_progress [of "wo_components opts" raw parent_seen s y] by auto
next
  case (7 opts raw path required parent_seen x y s bs)
  then show ?case using deref_Some_progress [of "wo_components opts" raw parent_seen s y] by auto
next
  case (9 opts s path base seen t c its)
  then show ?case using row_progress [of opts its seen] weight_items [of s its] by auto
next
  case (10 opts s path base seen t c its)
  then show ?case using row_progress [of opts its seen] weight_items [of s its] by auto
qed (auto dest: weight_property map_of_SomeD entry_progress)

declare walk_object.simps [simp del] walk_field.simps [simp del] walk_field_impl.simps [simp del]
  walk_typed.simps [simp del] build_hinted.simps [simp del] build_branches.simps [simp del]
  walk_branch_schema.simps [simp del]

definition build_field_descriptors :: "json_schema \<Rightarrow> walk_options \<Rightarrow> field_descriptor list" where
  "build_field_descriptors s opts =
     (case deref (wo_components opts) s [] of
        (None, _) \<Rightarrow> []
      | (Some root, _) \<Rightarrow>
          if sc_type (core root) \<noteq> Some (TypeName ''object'') \<and> properties root = None then []
          else walk_object opts root [] [])"

lemma size_branch_descriptor [termination_simp]:
  assumes "b \<in> set bs" "d \<in> set (br_descriptors b)"
  shows "size d < Suc (Suc (m + size_list size bs + n))"
proof -
  have "size d \<le> size_list size (br_descriptors b)"
    using assms(2) by (rule size_list_estimation') simp
  also have "\<dots> \<le> size b" by (cases b) simp
  also have "\<dots> \<le> size_list size bs" using assms(1) by (rule size_list_estimation') simp
  finally show ?thesis by simp
qed

fun walk_required_unsupported :: "field_descriptor \<Rightarrow> bool" where
  "walk_required_unsupported (Field c ch br sh) =
     (if fd_type c = FtUnsupported \<and> fd_required c then True
      else if (fd_type c = FtObject \<or> fd_type c = FtArrayOfObjects) \<and>
              (case ch of None \<Rightarrow> False | Some ds \<Rightarrow> list_ex walk_required_unsupported ds)
      then True
      else fd_type c = FtDiscriminator \<and>
           ((case sh of None \<Rightarrow> False | Some ds \<Rightarrow> list_ex walk_required_unsupported ds) \<or>
            (case br of None \<Rightarrow> False
             | Some bs \<Rightarrow> list_ex (\<lambda>b. list_ex walk_required_unsupported (br_descriptors b)) bs)))"

definition has_required_unsupported_field :: "json_schema \<Rightarrow> walk_options \<Rightarrow> bool" where
  "has_required_unsupported_field s opts =
     list_ex walk_required_unsupported (build_field_descriptors s opts)"

end
