(* ===== verification/AddonStub.thy ===== *)
theory AddonStub
  imports SchemaWalker
begin

text \<open>
  Model of the commented YAML stub that the add-on dialogs put into an empty configuration
  editor (\<open>generateAddonValuesYamlStub\<close> of \<open>web/src/lib/addonInstall.ts\<close>), with
  \<open>JSON.stringify\<close>. The stub shows the descriptors the schema walker builds; uncommenting a
  line is up to the operator.
\<close>

section \<open>JSON text\<close>

definition lower_hex :: "nat \<Rightarrow> char" where
  "lower_hex n = char_of (if n < 10 then 48 + n else 87 + n)"

definition escape_json_char :: "char \<Rightarrow> string" where
  "escape_json_char c =
     (let n = (of_char c :: nat); esc = CHR 0x5C
      in if n = 34 \<or> n = 92 then [esc, c]
         else if n = 8 then esc # ''b'' else if n = 9 then esc # ''t'' else if n = 10 then esc # ''n''
         else if n = 12 then esc # ''f'' else if n = 13 then esc # ''r''
         else if n < 32 then esc # ''u00'' @ [lower_hex (n div 16), lower_hex (n mod 16)]
         else [c])"

definition quote_json :: "string \<Rightarrow> string" where
  "quote_json s = CHR 0x22 # concat (map escape_json_char s) @ [CHR 0x22]"

text \<open>\<open>JSON.stringify\<close>; None is the result undefined.\<close>

fun json_text :: "jsval \<Rightarrow> string option" where
  "json_text JUndefined = None"
| "json_text JNull = Some ''null''"
| "json_text (JBool b) = Some (if b then ''true'' else ''false'')"
| "json_text (JNum n) = Some (show_int n)"
| "json_text (JStr s) = Some (quote_json s)"
| "json_text (JArr xs) =
     Some (''['' @ join_str '','' (map (\<lambda>x. case json_text x of Some t \<Rightarrow> t | None \<Rightarrow> ''null'') xs) @ '']'')"
| "json_text (JObj kvs) =
     Some (''{'' @ join_str '',''
        (concat (map (\<lambda>(k, v). case json_text v of Some t \<Rightarrow> [quote_json k @ '':'' @ t] | None \<Rightarrow> []) kvs))
        @ ''}'')"

section \<open>The stub\<close>

text \<open>The options of the Helm-style form: no references, no maps, no object rows.\<close>

definition helm_options :: walk_options where
  "helm_options =
     \<lparr>wo_components = None, wo_allow_kv_map = False, wo_allow_array_of_objects = False,
      wo_allow_one_of = False, wo_create_only_paths = [], wo_section_resolver = None,
      wo_sub_section_resolver = None, wo_hints = []\<rparr>"

text \<open>\<open>text.replace(/\s+/g, " ")\<close>: every run of white space becomes one space.\<close>

fun collapse_ws :: "string \<Rightarrow> string" where
  "collapse_ws [] = []"
| "collapse_ws (c # s) =
     (if is_ws c then
        (case s of d # _ \<Rightarrow> if is_ws d then collapse_ws s else CHR '' '' # collapse_ws s
         | [] \<Rightarrow> [CHR '' ''])
      else c # collapse_ws s)"

definition wrap_step :: "nat \<Rightarrow> string \<Rightarrow> string list \<times> string \<Rightarrow> string list \<times> string" where
  "wrap_step mx w st =
     (case st of (ls, cur) \<Rightarrow>
        if cur = [] then (ls, w)
        else if length cur + 1 + length w > mx then (ls @ [cur], w)
        else (ls, cur @ '' '' @ w))"

definition wrap_description :: "string \<Rightarrow> nat \<Rightarrow> string list" where
  "wrap_description txt mx =
     (let t = trim_str (collapse_ws txt)
      in if length t \<le> mx then [t]
         else case fold (wrap_step mx) (split_on (CHR '' '') t) ([], []) of
                (ls, cur) \<Rightarrow> if cur \<noteq> [] then ls @ [cur] else ls)"

definition format_default_literal :: "jsval option \<Rightarrow> field_type \<Rightarrow> string" where
  "format_default_literal v t =
     (case v of
        None \<Rightarrow>
          (case t of FtString \<Rightarrow> [CHR 0x22, CHR 0x22] | FtNumber \<Rightarrow> ''0'' | FtInteger \<Rightarrow> ''0''
           | FtBoolean \<Rightarrow> ''false'' | FtArrayOfPrimitives \<Rightarrow> ''[]'' | _ \<Rightarrow> [])
      | Some (JArr xs) \<Rightarrow>
          ''['' @ join_str '', '' (map (\<lambda>x. case json_text x of Some s \<Rightarrow> s | None \<Rightarrow> []) xs) @ '']''
      | Some w \<Rightarrow> (case json_text w of Some s \<Rightarrow> s | None \<Rightarrow> []))"

definition indent_of :: "nat \<Rightarrow> string" where
  "indent_of depth = concat (replicate depth ''  '')"

definition comment_line :: "nat \<Rightarrow> string \<Rightarrow> string" where
  "comment_line depth s = indent_of depth @ ''# '' @ s"

definition blank_at_root :: "nat \<Rightarrow> string list" where
  "blank_at_root depth = (if depth = 0 then [[]] else [])"

fun emit_stub_lines :: "nat \<Rightarrow> field_descriptor \<Rightarrow> string list" where
  "emit_stub_lines depth (Field c kids brs shared) =
     (let key = (if fd_path c = [] then [] else last (fd_path c));
          required_hint = (if fd_required c then ''  # required'' else []);
          description = (case fd_description c of
             Some d \<Rightarrow> if d \<noteq> [] then map (comment_line depth) (wrap_description d 70) else []
           | None \<Rightarrow> [])
      in description @
         (if fd_type c = FtObject \<and> kids \<noteq> None \<and> kids \<noteq> Some []
          then comment_line depth (key @ '':'' @ required_hint) #
               concat (map (emit_stub_lines (depth + 1)) (case kids of Some ks \<Rightarrow> ks | None \<Rightarrow> [])) @
               blank_at_root depth
          else if fd_type c = FtUnsupported
          then comment_line depth (key @ '':  # '' @
                (case fd_unsupported_reason c of Some r \<Rightarrow> r | None \<Rightarrow> ''edit in YAML'') @ required_hint) #
               blank_at_root depth
          else (let enum_hint = (case fd_enum c of
                      Some (e # es) \<Rightarrow> ''  # one of: '' @
                        join_str '', '' (map (\<lambda>v. format_default_literal (Some v) (fd_type c)) (e # es))
                    | _ \<Rightarrow> [])
                in comment_line depth (key @ '': '' @ format_default_literal (fd_default c) (fd_type c) @
                    enum_hint @ required_hint) # blank_at_root depth)))"

definition stub_header :: "string list" where
  "stub_header =
     [''# All fields below are commented for reference. Uncomment and'',
      ''# edit only what you want to override; to uncomment a nested'',
      ''# key, also uncomment its parent key(s) so the YAML structure'',
      ''# validates. Empty config = AWS uses all defaults.'', []]"

definition trim_blank_tail :: "string list \<Rightarrow> string list" where
  "trim_blank_tail ls = rev (dropWhile (\<lambda>l. l = []) (rev ls))"

definition stub_lines :: "field_descriptor list \<Rightarrow> string list" where
  "stub_lines ds = trim_blank_tail (stub_header @ concat (map (emit_stub_lines 0) ds))"

definition generate_addon_values_yaml_stub :: "json_schema \<Rightarrow> string" where
  "generate_addon_values_yaml_stub s =
     (let ds = build_field_descriptors s helm_options
      in if ds = [] then [] else join_str [newline] (stub_lines ds) @ [newline])"

section \<open>Wrapped descriptions\<close>

lemma not_ws_space: "\<not> is_ws c \<Longrightarrow> c \<noteq> CHR '' ''"
  by (auto simp: is_ws_def)

text \<open>White space is a single space between other characters.\<close>

definition tidy :: "string \<Rightarrow> bool" where
  "tidy s = (list_all (\<lambda>c. is_ws c \<longrightarrow> c = CHR '' '') s \<and>
             successively (\<lambda>a b. a \<noteq> CHR '' '' \<or> b \<noteq> CHR '' '') s)"

lemma collapse_chars: "c \<in> set (collapse_ws s) \<Longrightarrow> is_ws c \<Longrightarrow> c = CHR '' ''"
  by (induction s rule: collapse_ws.induct) (auto split: if_splits list.splits)

lemma collapse_head: "collapse_ws s = CHR '' '' # t \<Longrightarrow> (\<exists>d u. s = d # u \<and> is_ws d)"
  by (cases s) (auto simp: is_ws_def split: if_splits list.splits)

lemma collapse_hd: "collapse_ws s \<noteq> [] \<Longrightarrow> hd (collapse_ws s) = CHR '' '' \<Longrightarrow> s \<noteq> [] \<and> is_ws (hd s)"
  using collapse_head [of s "tl (collapse_ws s)"] by (cases "collapse_ws s") auto

lemma tidy_collapse: "tidy (collapse_ws s)"
proof -
  have "successively (\<lambda>a b. a \<noteq> CHR '' '' \<or> b \<noteq> CHR '' '') (collapse_ws s)"
  proof (induction s rule: collapse_ws.induct)
    case (2 c s)
    show ?case
    proof (cases s)
      case Nil
      then show ?thesis by simp
    next
      case (Cons d s')
      show ?thesis
      proof (cases "is_ws c")
        case True
        then show ?thesis
          using 2 Cons collapse_hd [of s]
          by (auto simp: successively_Cons)
      next
        case False
        then show ?thesis
          using 2 Cons not_ws_space [OF False] by (auto simp: successively_Cons)
      qed
    qed
  qed simp
  then show ?thesis by (auto simp: tidy_def list_all_iff collapse_chars)
qed

lemma tidy_append: "tidy (a @ b) \<Longrightarrow> tidy a \<and> tidy b"
  by (auto simp: tidy_def successively_append_iff)

lemma trim_middle: "\<exists>p q. s = p @ trim_str s @ q"
proof -
  let ?u = "dropWhile is_ws s"
  have "s = takeWhile is_ws s @ ?u" by simp
  moreover have "?u = trim_str s @ rev (takeWhile is_ws (rev ?u))"
    unfolding trim_str_def by (metis rev_append rev_rev_ident takeWhile_dropWhile_id)
  ultimately show ?thesis by metis
qed

lemma trim_ends:
  assumes "trim_str s \<noteq> []"
  shows "\<not> is_ws (hd (trim_str s)) \<and> \<not> is_ws (last (trim_str s))"
proof -
  let ?r = "rev (dropWhile is_ws s)"
  have ne: "dropWhile is_ws ?r \<noteq> []" using assms by (simp add: trim_str_def)
  then have "\<not> is_ws (hd (dropWhile is_ws ?r))" by (rule hd_dropWhile)
  then have l: "\<not> is_ws (last (trim_str s))" using ne by (simp add: trim_str_def last_rev)
  have "last (dropWhile is_ws ?r) = last ?r"
    using ne by (metis last_appendR takeWhile_dropWhile_id)
  then have "hd (trim_str s) = hd (dropWhile is_ws s)"
    using ne by (simp add: trim_str_def hd_rev last_rev)
  moreover have "dropWhile is_ws s \<noteq> []" using ne by (metis dropWhile.simps(1) rev.simps(1))
  ultimately show ?thesis using l hd_dropWhile by metis
qed

lemma split_words_nonempty:
  "successively (\<lambda>a b. a \<noteq> CHR '' '' \<or> b \<noteq> CHR '' '') t \<Longrightarrow> t \<noteq> [] \<Longrightarrow> last t \<noteq> CHR '' '' \<Longrightarrow>
     [] \<notin> set (tl (split_on (CHR '' '') t)) \<and>
     (hd t \<noteq> CHR '' '' \<longrightarrow> hd (split_on (CHR '' '') t) \<noteq> [])"
proof (induction t)
  case (Cons c t)
  show ?case
  proof (cases t)
    case Nil
    then show ?thesis using Cons by auto
  next
    case (Cons d u)
    obtain w ws where ws: "split_on (CHR '' '') t = w # ws"
      by (cases "split_on (CHR '' '') t") auto
    show ?thesis using Cons.IH Cons.prems Cons ws by (auto simp: successively_Cons)
  qed
qed simp

lemma words_nonempty:
  assumes "trim_str (collapse_ws s) \<noteq> []"
  shows "[] \<notin> set (split_on (CHR '' '') (trim_str (collapse_ws s)))"
proof -
  let ?t = "trim_str (collapse_ws s)"
  obtain p q where "collapse_ws s = p @ ?t @ q" using trim_middle by blast
  then have "tidy ?t" using tidy_collapse tidy_append by metis
  then have "successively (\<lambda>a b. a \<noteq> CHR '' '' \<or> b \<noteq> CHR '' '') ?t" by (simp add: tidy_def)
  from split_words_nonempty [OF this assms] trim_ends [OF assms]
  show ?thesis using not_ws_space by (cases "split_on (CHR '' '') ?t") auto
qed

lemma join_snoc: "xs \<noteq> [] \<Longrightarrow> join_str sep (xs @ [x]) = join_str sep xs @ sep @ x"
  by (induction sep xs rule: join_str.induct) auto

lemma join_snoc_last: "join_str sep (xs @ [x @ sep @ y]) = join_str sep (xs @ [x]) @ sep @ y"
  by (cases "xs = []") (simp_all add: join_snoc)

definition narrow :: "nat \<Rightarrow> string \<Rightarrow> bool" where
  "narrow mx l = (length l \<le> mx \<or> CHR '' '' \<notin> set l)"

lemma wrap_fold:
  "ws \<noteq> [] \<Longrightarrow> list_all (\<lambda>w. w \<noteq> [] \<and> CHR '' '' \<notin> set w) ws \<Longrightarrow>
     (case fold (wrap_step mx) ws ([], []) of (ls, cur) \<Rightarrow>
        cur \<noteq> [] \<and> join_str '' '' (ls @ [cur]) = join_str '' '' ws \<and> list_all (narrow mx) (ls @ [cur]))"
proof (induction ws rule: rev_induct)
  case (snoc w ws)
  show ?case
  proof (cases "ws = []")
    case True
    then show ?thesis using snoc.prems by (simp add: wrap_step_def narrow_def)
  next
    case False
    obtain ls cur where st: "fold (wrap_step mx) ws ([], []) = (ls, cur)" by (cases "fold (wrap_step mx) ws ([], [])")
    have ih: "cur \<noteq> []" "join_str '' '' (ls @ [cur]) = join_str '' '' ws" "list_all (narrow mx) (ls @ [cur])"
      using snoc False st by auto
    have joins: "join_str '' '' (ws @ [w]) = join_str '' '' ws @ '' '' @ w" using False by (rule join_snoc)
    have step: "fold (wrap_step mx) (ws @ [w]) ([], []) =
        (if length cur + 1 + length w > mx then (ls @ [cur], w) else (ls, cur @ '' '' @ w))"
      using ih(1) by (simp add: st wrap_step_def [of mx w])
    show ?thesis
    proof (cases "length cur + 1 + length w > mx")
      case True
      then show ?thesis
        using ih snoc.prems joins join_snoc [of "ls @ [cur]" "'' ''" w]
        unfolding step by (simp add: narrow_def [abs_def])
    next
      case False
      then show ?thesis
        using ih snoc.prems joins join_snoc_last [of "'' ''" ls cur w]
        unfolding step by (simp add: narrow_def [abs_def])
    qed
  qed
qed simp

lemma split_on_parts: "w \<in> set (split_on c s) \<Longrightarrow> c \<notin> set w \<and> set w \<subseteq> set s"
  using split_on_pieces split_on_infix by fastforce

text \<open>
  Wrapping a description keeps its words in order, and a line longer than the limit is a
  single word.
\<close>

theorem wrapping_keeps_words:
  "join_str '' '' (wrap_description descr mx) = trim_str (collapse_ws descr) \<and>
   list_all (narrow mx) (wrap_description descr mx)"
proof -
  let ?t = "trim_str (collapse_ws descr)"
  show ?thesis
  proof (cases "length ?t \<le> mx")
    case True
    then show ?thesis by (simp add: wrap_description_def narrow_def)
  next
    case False
    then have "list_all (\<lambda>w. w \<noteq> [] \<and> CHR '' '' \<notin> set w) (split_on (CHR '' '') ?t)"
      using words_nonempty [of descr] split_on_parts by (fastforce simp: list_all_iff)
    note folded = wrap_fold [OF split_on_nonempty this, of mx]
    show ?thesis
      using False folded by (auto simp: wrap_description_def Let_def join_split split: prod.splits)
  qed
qed

section \<open>Only comments\<close>

abbreviation one_line :: "string \<Rightarrow> bool" where
  "one_line s \<equiv> CHR 0x0A \<notin> set s"

lemma join_one_line: "one_line sep \<Longrightarrow> (\<And>x. x \<in> set xs \<Longrightarrow> one_line x) \<Longrightarrow> one_line (join_str sep xs)"
  by (induction sep xs rule: join_str.induct) auto

lemma lower_hex_code: "n < 16 \<Longrightarrow> of_char (lower_hex n) = (if n < 10 then 48 + n else 87 + n)" for n :: nat
  by (simp add: lower_hex_def)

lemma lower_hex_not_newline: "n < 16 \<Longrightarrow> lower_hex n \<noteq> CHR 0x0A"
  using lower_hex_code [of n] by (auto split: if_splits)

lemma hex_digits_not_newline:
  "n < 32 \<Longrightarrow> lower_hex (n div 16) \<noteq> CHR 0x0A \<and> lower_hex (n mod 16) \<noteq> CHR 0x0A"
  by (simp add: lower_hex_not_newline)

lemma escape_one_line: "one_line (escape_json_char c)"
  using hex_digits_not_newline [of "of_char c"]
  by (auto simp: escape_json_char_def Let_def)

lemma quote_one_line [simp]: "one_line (quote_json s)"
  by (auto simp: quote_json_def escape_one_line)

lemma show_int_one_line [simp]: "one_line (show_int i)"
  using show_nat_digits [of "CHR 0x0A"] by (auto simp: show_int_def)

lemma json_one_line: "json_text v = Some t \<Longrightarrow> one_line t"
proof (induction v arbitrary: t rule: json_text.induct)
  case (6 xs)
  have "one_line (join_str '','' (map (\<lambda>x. case json_text x of Some t \<Rightarrow> t | None \<Rightarrow> ''null'') xs))"
    using "6.IH" by (intro join_one_line) (auto split: option.splits)
  then show ?case using "6.prems" by auto
next
  case (7 kvs)
  have "one_line (join_str '','' (concat (map (\<lambda>(k, v). case json_text v of
      Some t \<Rightarrow> [quote_json k @ '':'' @ t] | None \<Rightarrow> []) kvs)))"
    using "7.IH" by (intro join_one_line) (fastforce split: option.splits)+
  then show ?case using "7.prems" by auto
qed auto

lemma literal_one_line [simp]: "one_line (format_default_literal v t)"
proof (cases v)
  case None
  then show ?thesis by (cases t) (auto simp: format_default_literal_def)
next
  case (Some w)
  have printed: "one_line (case json_text w of Some s \<Rightarrow> s | None \<Rightarrow> [])"
    using json_one_line by (auto split: option.splits)
  show ?thesis
  proof (cases w)
    case (JArr xs)
    have "one_line (join_str '', '' (map (\<lambda>x. case json_text x of Some s \<Rightarrow> s | None \<Rightarrow> []) xs))"
      using json_one_line by (intro join_one_line) (fastforce split: option.splits)+
    then show ?thesis by (simp add: Some JArr format_default_literal_def)
  qed (use printed in \<open>simp_all add: Some format_default_literal_def\<close>)
qed

lemma trim_subset: "set (trim_str s) \<subseteq> set s"
proof -
  obtain p q where "s = p @ trim_str s @ q" using trim_middle by blast
  then have "set s = set p \<union> (set (trim_str s) \<union> set q)" by (metis set_append)
  then show ?thesis by blast
qed

definition wrap_chars :: "string list \<times> string \<Rightarrow> char set" where
  "wrap_chars st = set (concat (fst st) @ snd st)"

lemma wrap_step_chars: "wrap_chars (wrap_step mx w st) \<subseteq> wrap_chars st \<union> set w \<union> {CHR '' ''}"
  by (cases st) (auto simp: wrap_step_def wrap_chars_def)

lemma wrap_fold_chars:
  "wrap_chars (fold (wrap_step mx) ws st) \<subseteq> wrap_chars st \<union> set (concat ws) \<union> {CHR '' ''}"
proof (induction ws arbitrary: st)
  case (Cons w ws)
  show ?case using Cons.IH [of "wrap_step mx w st"] wrap_step_chars [of mx w st] by auto
qed auto

lemma wrap_one_line: "l \<in> set (wrap_description descr mx) \<Longrightarrow> one_line l"
proof -
  let ?t = "trim_str (collapse_ws descr)"
  let ?r = "fold (wrap_step mx) (split_on (CHR '' '') ?t) ([], [])"
  assume l: "l \<in> set (wrap_description descr mx)"
  have t: "one_line ?t"
    using trim_subset [of "collapse_ws descr"] collapse_chars [of "CHR 0x0A" descr]
    by (auto simp: is_ws_def)
  have nil: "wrap_chars ([], []) = {}" by (simp add: wrap_chars_def)
  have "set (concat (split_on (CHR '' '') ?t)) \<subseteq> set ?t" using split_on_parts by fastforce
  with wrap_fold_chars [of mx "split_on (CHR '' '') ?t" "([], [])", unfolded nil]
  have "wrap_chars ?r \<subseteq> set ?t \<union> {CHR '' ''}" by blast
  moreover obtain ls cur where r: "?r = (ls, cur)" by (cases ?r)
  have "l = ?t \<or> set l \<subseteq> wrap_chars (ls, cur)"
    using l by (auto simp: wrap_description_def Let_def r wrap_chars_def split: if_splits)
  then have "l = ?t \<or> set l \<subseteq> wrap_chars ?r" unfolding r .
  ultimately show ?thesis using t by auto
qed

text \<open>A line of the stub: empty, or indented and commented out.\<close>

definition stub_line :: "string \<Rightarrow> bool" where
  "stub_line l = (l = [] \<or> starts_with ''#'' (dropWhile (\<lambda>c. c = CHR '' '') l))"

text \<open>The names and reasons that are printed as they are have no line break.\<close>

fun plain_names :: "field_descriptor \<Rightarrow> bool" where
  "plain_names (Field c kids brs shared) =
     (list_all one_line (fd_path c) \<and>
      (case fd_unsupported_reason c of Some r \<Rightarrow> one_line r | None \<Rightarrow> True) \<and>
      (case kids of Some ks \<Rightarrow> list_all plain_names ks | None \<Rightarrow> True))"

abbreviation stub_ok :: "string \<Rightarrow> bool" where
  "stub_ok l \<equiv> stub_line l \<and> one_line l"

lemma comment_line_ok: "one_line r \<Longrightarrow> stub_ok (comment_line n r)"
proof -
  assume r: "one_line r"
  have "dropWhile (\<lambda>c. c = CHR '' '') (indent_of n @ CHR ''#'' # s) = CHR ''#'' # s" for s
    by (induction n) (simp_all add: indent_of_def)
  moreover have "one_line (indent_of n)" by (auto simp: indent_of_def)
  ultimately show ?thesis using r by (simp add: stub_line_def comment_line_def)
qed

lemma blank_at_root_lines: "list_all stub_ok (blank_at_root n)"
  by (simp add: blank_at_root_def stub_line_def)

lemma last_one_line: "list_all one_line p \<Longrightarrow> one_line (if p = [] then [] else last p)"
  by (auto simp: list_all_iff)

lemma emitted_lines:
  "plain_names d \<Longrightarrow> list_all stub_ok (emit_stub_lines depth d)"
proof (induction depth d rule: emit_stub_lines.induct)
  case (1 depth c kids brs shared)
  have key: "one_line (if fd_path c = [] then [] else last (fd_path c))"
    using "1.prems" by (intro last_one_line) simp
  have description: "list_all stub_ok (map (comment_line depth) (wrap_description d 70))" for d
    using comment_line_ok wrap_one_line by (simp add: list_all_iff)
  have enum: "one_line (join_str '', '' (format_default_literal (Some e) (fd_type c) #
      map (\<lambda>v. format_default_literal (Some v) (fd_type c)) es))" for e es
    by (rule join_one_line) auto
  have kids: "list_all stub_ok (concat (map (emit_stub_lines (Suc depth)) ks))"
    if "kids = Some ks" "fd_type c = FtObject" for ks
    using 1 that by (fastforce simp: list_all_iff)
  have reason: "one_line (case fd_unsupported_reason c of Some r \<Rightarrow> r | None \<Rightarrow> ''edit in YAML'')"
    using "1.prems" by (auto split: option.splits)
  have described: "list_all stub_ok (case fd_description c of
      Some d \<Rightarrow> if d \<noteq> [] then map (comment_line depth) (wrap_description d 70) else [] | None \<Rightarrow> [])"
    using description by (simp split: option.split)
  have hint: "one_line (if fd_required c then ''  # required'' else [])" by simp
  consider (obj) ks where "fd_type c = FtObject" "kids = Some ks" "ks \<noteq> []"
    | (unsup) "\<not> (fd_type c = FtObject \<and> kids \<noteq> None \<and> kids \<noteq> Some [])" "fd_type c = FtUnsupported"
    | (scalar) "\<not> (fd_type c = FtObject \<and> kids \<noteq> None \<and> kids \<noteq> Some [])" "fd_type c \<noteq> FtUnsupported"
    by fastforce
  then show ?case
  proof cases
    case obj
    have "stub_ok (comment_line depth ((if fd_path c = [] then [] else last (fd_path c)) @ '':'' @
        (if fd_required c then ''  # required'' else [])))"
      using key by (intro comment_line_ok) simp
    with obj described kids [OF obj(2,1)] blank_at_root_lines [of depth] show ?thesis by (simp add: Let_def)
  next
    case unsup
    have "stub_ok (comment_line depth ((if fd_path c = [] then [] else last (fd_path c)) @ '':  # '' @
        (case fd_unsupported_reason c of Some r \<Rightarrow> r | None \<Rightarrow> ''edit in YAML'') @
        (if fd_required c then ''  # required'' else [])))"
      using key reason by (intro comment_line_ok) simp
    with unsup described blank_at_root_lines [of depth] show ?thesis
      by (simp only: emit_stub_lines.simps Let_def if_False if_True list_all_append list.pred_inject simp_thms)
  next
    case scalar
    have "one_line (case fd_enum c of
        Some (e # es) \<Rightarrow> ''  # one of: '' @
          join_str '', '' (map (\<lambda>v. format_default_literal (Some v) (fd_type c)) (e # es)) | _ \<Rightarrow> [])"
      using enum by (auto split: option.split list.split)
    then have "stub_ok (comment_line depth ((if fd_path c = [] then [] else last (fd_path c)) @ '': '' @
        format_default_literal (fd_default c) (fd_type c) @
        (case fd_enum c of
           Some (e # es) \<Rightarrow> ''  # one of: '' @
             join_str '', '' (map (\<lambda>v. format_default_literal (Some v) (fd_type c)) (e # es)) | _ \<Rightarrow> []) @
        (if fd_required c then ''  # required'' else [])))"
      using key by (intro comment_line_ok) simp
    with scalar described blank_at_root_lines [of depth] show ?thesis
      by (simp only: emit_stub_lines.simps Let_def if_False if_True list_all_append list.pred_inject simp_thms)
  qed
qed

text \<open>
  The stub is inert: every line of it is empty or a comment, whatever the schema, as long as its
  keys and type names have no line break. Saving the editor as it was opened sets no value.
\<close>

theorem stub_is_inert:
  assumes "list_all plain_names (build_field_descriptors s helm_options)"
  shows "list_all stub_line (split_on (CHR 0x0A) (generate_addon_values_yaml_stub s))"
proof (cases "build_field_descriptors s helm_options = []")
  case True
  then show ?thesis by (simp add: generate_addon_values_yaml_stub_def stub_line_def)
next
  case False
  let ?ds = "build_field_descriptors s helm_options"
  have "list_all stub_ok (concat (map (emit_stub_lines 0) ?ds))"
    using assms emitted_lines by (fastforce simp: list_all_iff)
  moreover have "list_all stub_ok stub_header" by (simp add: stub_header_def stub_line_def)
  ultimately have all: "list_all stub_ok (stub_header @ concat (map (emit_stub_lines 0) ?ds))" by simp
  have "set (trim_blank_tail ls) \<subseteq> set ls" for ls :: "string list"
    by (auto simp: trim_blank_tail_def dest: set_dropWhileD)
  with all have lines: "list_all stub_ok (stub_lines ?ds)" by (fastforce simp: stub_lines_def list_all_iff)
  let ?text = "join_str [newline] (stub_lines ?ds)"
  have "\<exists>l \<in> set (stub_header @ xs). l \<noteq> []" for xs :: "string list" by (simp add: stub_header_def)
  then have "stub_lines ?ds \<noteq> []" by (auto simp: stub_lines_def trim_blank_tail_def)
  then have "split_on (CHR 0x0A) ?text = stub_lines ?ds"
    using lines split_join [of "stub_lines ?ds" "CHR 0x0A"] by (auto simp: list_all_iff newline_def)
  moreover have "generate_addon_values_yaml_stub s = join_str [newline] (stub_lines ?ds @ [[]])"
    using False \<open>stub_lines ?ds \<noteq> []\<close> by (simp add: generate_addon_values_yaml_stub_def join_snoc)
  ultimately show ?thesis
    using split_join [of "stub_lines ?ds @ [[]]" "CHR 0x0A"] lines
    by (auto simp: list_all_iff newline_def stub_line_def)
qed

definition sample_addon_schema :: json_schema where
  "sample_addon_schema =
     Schema (blank\<lparr>sc_type := Some (TypeName ''object''), sc_required := Some [''replicaCount'']\<rparr>)
       (Some [(''replicaCount'', Schema (blank\<lparr>sc_type := Some (TypeName ''integer''),
                 sc_description := Some ''Number of pods'', sc_default := Some (JNum 2)\<rparr>) None None None None None),
              (''tolerations'', Schema (blank\<lparr>sc_type := Some (TypeName ''array'')\<rparr>) None None None None None)])
       None None None None"

lemma stub_is_inert_witness:
  "list_all stub_line (split_on (CHR 0x0A) (generate_addon_values_yaml_stub sample_addon_schema))"
proof (rule stub_is_inert)
  show "list_all plain_names (build_field_descriptors sample_addon_schema helm_options)" by code_simp
qed

end
