(* ===== verification/AddonVersions.thy ===== *)
theory AddonVersions
  imports Prelude "HOL-Library.Product_Lexorder"
begin

text \<open>
  Model of the version arithmetic and the catalog helpers of the EKS add-on pages:
  \<open>web/src/lib/addonInstall.ts\<close>, \<open>addonUpgrade.ts\<close>, \<open>addonCatalog.ts\<close>, the version rows of
  \<open>components/eks/AddonDetailBody.tsx\<close> and the filter of \<open>pages/EKSAddOnsCatalogPage.tsx\<close>. The
  numbers read from a version are natural numbers below the precision of a double; the literal
  \<open>Infinity\<close> is outside the model.
\<close>

section \<open>Numbers in strings\<close>

definition digit_value :: "char \<Rightarrow> int" where
  "digit_value c = int (of_char c) - 48"

definition decimal_value :: "string \<Rightarrow> int" where
  "decimal_value s = foldl (\<lambda>a c. 10 * a + digit_value c) 0 s"

definition all_digits :: "string \<Rightarrow> bool" where
  "all_digits s = (s \<noteq> [] \<and> list_all is_digit s)"

definition hex_value :: "char \<Rightarrow> int option" where
  "hex_value c =
     (let n = (of_char c :: nat)
      in if is_digit c then Some (digit_value c)
         else if 65 \<le> n \<and> n \<le> 70 then Some (int n - 55)
         else if 97 \<le> n \<and> n \<le> 102 then Some (int n - 87) else None)"

definition radix_value :: "int \<Rightarrow> string \<Rightarrow> int option" where
  "radix_value r s =
     (let ds = map hex_value s
      in if ds \<noteq> [] \<and> list_all (\<lambda>d. case d of Some v \<Rightarrow> v < r | None \<Rightarrow> False) ds
         then Some (foldl (\<lambda>a d. r * a + the d) 0 ds) else None)"

definition unsigned :: "string \<Rightarrow> string" where
  "unsigned s = (case s of c # r \<Rightarrow> if c = CHR ''+'' then r else s | [] \<Rightarrow> [])"

definition decimal_literal :: "string \<Rightarrow> int option" where
  "decimal_literal s =
     (let mantissa = takeWhile (\<lambda>c. lower_char c \<noteq> CHR ''e'') s;
          rest = drop (length mantissa) s
      in if all_digits mantissa then
           (case rest of [] \<Rightarrow> Some (decimal_value mantissa)
            | _ # e \<Rightarrow>
                if all_digits (unsigned e)
                then Some (decimal_value mantissa * 10 ^ nat (decimal_value (unsigned e))) else None)
         else None)"

text \<open>\<open>Number(s)\<close> of a string without a point and without a minus sign; None is NaN.\<close>

definition js_number :: "string \<Rightarrow> int option" where
  "js_number s =
     (let t = trim_str s
      in if t = [] then Some 0
         else if starts_with ''0x'' t \<or> starts_with ''0X'' t then radix_value 16 (drop 2 t)
         else if starts_with ''0o'' t \<or> starts_with ''0O'' t then radix_value 8 (drop 2 t)
         else if starts_with ''0b'' t \<or> starts_with ''0B'' t then radix_value 2 (drop 2 t)
         else decimal_literal (unsigned t))"

section \<open>Versions\<close>

text \<open>The number after the last point of a suffix that ends in one, else 0.\<close>

definition trailing_number :: "string \<Rightarrow> int" where
  "trailing_number s =
     (let r = rev s; ds = takeWhile is_digit r
      in if ds \<noteq> [] \<and> starts_with ''.'' (drop (length ds) r) then decimal_value (rev ds) else 0)"

definition parse_addon_version :: "string \<Rightarrow> int list" where
  "parse_addon_version v =
     (let stripped = (case v of c # r \<Rightarrow> if c = CHR ''v'' then r else v | [] \<Rightarrow> []);
          parts = split_on (CHR ''-'') stripped;
          nums = map js_number (split_on (CHR ''.'') (hd parts));
          suff = (if length parts > 1 then parts ! 1 else [])
      in if None \<in> set nums then []
         else if suff = [] then map the nums
         else map the nums @ [trailing_number suff])"

fun compare_parts :: "int list \<Rightarrow> int list \<Rightarrow> int" where
  "compare_parts [] [] = 0"
| "compare_parts (a # as) [] = (if a \<noteq> 0 then a else compare_parts as [])"
| "compare_parts [] (b # bs) = (if b \<noteq> 0 then - b else compare_parts [] bs)"
| "compare_parts (a # as) (b # bs) = (if a \<noteq> b then a - b else compare_parts as bs)"

definition compare_addon_versions :: "string \<Rightarrow> string \<Rightarrow> int" where
  "compare_addon_versions a b = compare_parts (parse_addon_version a) (parse_addon_version b)"

text \<open>
  A row of the version history offers the upgrade in one click; \<open>can_upgrade\<close> says whether the
  pane passed the handler.
\<close>

definition row_clickable :: "bool \<Rightarrow> string option \<Rightarrow> string \<Rightarrow> bool" where
  "row_clickable can_upgrade installed version =
     (let is_installed = (Some version = installed);
          is_newer = (case installed of
                        Some i \<Rightarrow> i \<noteq> [] \<and> compare_addon_versions version i > 0 | None \<Rightarrow> False)
      in can_upgrade \<and> \<not> is_installed \<and> is_newer)"

section \<open>Catalog\<close>

record catalog_version =
  av_version :: string
  av_k8s :: "string list"
  av_default :: bool

record catalog_installed =
  in_version :: string
  in_status :: "string option"

record catalog_addon =
  ca_name :: string
  ca_type :: "string option"
  ca_owner :: "string option"
  ca_versions :: "catalog_version list"
  ca_installed :: "catalog_installed option"

record addon_summary =
  as_name :: string
  as_version :: "string option"
  as_status :: string

abbreviation given :: "string option \<Rightarrow> bool" where
  "given v \<equiv> v \<noteq> None \<and> v \<noteq> Some []"

definition filter_compatible_versions ::
    "catalog_addon \<Rightarrow> string option \<Rightarrow> catalog_version list" where
  "filter_compatible_versions addon k8s =
     (if given k8s then filter (\<lambda>v. the k8s \<in> set (av_k8s v)) (ca_versions addon)
      else ca_versions addon)"

definition pick_default_version :: "catalog_version list \<Rightarrow> string" where
  "pick_default_version vs =
     (case find av_default vs of Some v \<Rightarrow> av_version v
      | None \<Rightarrow> (case vs of v # _ \<Rightarrow> av_version v | [] \<Rightarrow> []))"

definition filter_upgrade_targets :: "catalog_version list \<Rightarrow> string option \<Rightarrow> catalog_version list" where
  "filter_upgrade_targets vs installed =
     (if given installed then filter (\<lambda>v. Some (av_version v) \<noteq> installed) vs else vs)"

definition pick_upgrade_default :: "catalog_version list \<Rightarrow> string" where
  "pick_upgrade_default vs =
     (case find av_default vs of Some v \<Rightarrow> av_version v
      | None \<Rightarrow> (case vs of v # _ \<Rightarrow> av_version v | [] \<Rightarrow> []))"

definition pick_latest_for_k8s :: "catalog_version list \<Rightarrow> string option \<Rightarrow> catalog_version option" where
  "pick_latest_for_k8s vs k8s =
     (if given k8s then find (\<lambda>v. the k8s \<in> set (av_k8s v)) vs
      else (case vs of v # _ \<Rightarrow> Some v | [] \<Rightarrow> None))"

definition is_aws_owned :: "string option \<Rightarrow> bool" where
  "is_aws_owned owner =
     (\<not> given owner \<or> owner = Some ''aws'' \<or> owner = Some ''amazon-web-services'')"

text \<open>\<open>addons\<close> is None while the list of installed add-ons is loading.\<close>

definition installed_of :: "addon_summary \<Rightarrow> catalog_installed" where
  "installed_of a =
     \<lparr>in_version = (case as_version a of Some v \<Rightarrow> v | None \<Rightarrow> []), in_status = Some (as_status a)\<rparr>"

definition merge_installed :: "catalog_addon list \<Rightarrow> addon_summary list option \<Rightarrow> catalog_addon list" where
  "merge_installed catalog addons =
     (case addons of
        None \<Rightarrow> catalog
      | Some [] \<Rightarrow> catalog
      | Some as \<Rightarrow>
          let by_name = fold (\<lambda>a. AList.update (as_name a) (installed_of a)) as []
          in map (\<lambda>row. if ca_installed row \<noteq> None then row
                        else (case map_of by_name (ca_name row) of
                                Some i \<Rightarrow> row\<lparr>ca_installed := Some i\<rparr> | None \<Rightarrow> row)) catalog)"

datatype owner_filter = OwnerAll | OwnerAws | OwnerThirdParty

text \<open>The rows of the catalog page; a type filter of None is the choice "all".\<close>

definition filter_catalog :: "owner_filter \<Rightarrow> string option \<Rightarrow> catalog_addon list \<Rightarrow> catalog_addon list" where
  "filter_catalog owner kind rows =
     filter (\<lambda>r. (owner = OwnerAws \<longrightarrow> is_aws_owned (ca_owner r)) \<and>
                 (owner = OwnerThirdParty \<longrightarrow> \<not> is_aws_owned (ca_owner r)) \<and>
                 (kind \<noteq> None \<longrightarrow> ca_type r = kind)) rows"

definition transient_statuses :: "string list" where
  "transient_statuses = [''CREATING'', ''UPDATING'', ''DELETING'']"

text \<open>The polling interval of the installed add-ons in milliseconds; None stops polling.\<close>

definition addons_refetch_interval :: "addon_summary list option \<Rightarrow> nat option" where
  "addons_refetch_interval addons =
     (case addons of None \<Rightarrow> None
      | Some as \<Rightarrow> if list_ex (\<lambda>a. as_status a \<in> set transient_statuses) as then Some 4000 else None)"

definition addon_refetch_interval :: "string option \<Rightarrow> nat option" where
  "addon_refetch_interval status =
     (case status of None \<Rightarrow> None
      | Some s \<Rightarrow> if s \<in> set transient_statuses then Some 4000 else None)"

text \<open>Both retry rules take the number of failures so far and the status of the error, if it has one.\<close>

definition retry_unless_422 :: "nat \<Rightarrow> int option \<Rightarrow> bool" where
  "retry_unless_422 count status = (if status = Some 422 then False else count < 2)"

definition schema_retry :: "nat \<Rightarrow> int option \<Rightarrow> bool" where
  "schema_retry count status = (if status = Some 422 \<or> status = Some 400 then False else count < 1)"

section \<open>Compatibility range\<close>

record k8s_minor =
  km_raw :: string
  km_major :: int
  km_minor :: int

definition parse_k8s_minor :: "string \<Rightarrow> k8s_minor option" where
  "parse_k8s_minor v =
     (case index_of (CHR ''.'') v of
        None \<Rightarrow> None
      | Some dot \<Rightarrow>
          if dot = 0 then None
          else let major = js_number (take dot v);
                   digits = takeWhile is_digit (drop (dot + 1) v)
               in if digits = [] then None
                  else (case (major, js_number digits) of
                          (Some a, Some b) \<Rightarrow> Some \<lparr>km_raw = v, km_major = a, km_minor = b\<rparr>
                        | _ \<Rightarrow> None))"

definition en_dash :: string where
  "en_dash = map char_of [226, 128, 147 :: nat]"

definition compat_range_of :: "string list \<Rightarrow> string option" where
  "compat_range_of versions =
     (let parsed = sort_key (\<lambda>p. (km_major p, km_minor p)) (List.map_filter parse_k8s_minor versions)
      in if versions = [] \<or> parsed = [] then None
         else let lo = km_raw (hd parsed); hi = km_raw (last parsed)
              in Some (if lo = hi then lo else lo @ '' '' @ en_dash @ '' '' @ hi))"


section \<open>Reading printed versions\<close>

lemma show_nat_all_digits: "all_digits (show_nat n)"
  using show_nat_digits by (auto simp: all_digits_def list_all_iff is_digit_def)

lemma decimal_value_append: "decimal_value (s @ [c]) = 10 * decimal_value s + digit_value c"
  by (simp add: decimal_value_def)

lemma decimal_show_nat: "decimal_value (show_nat n) = int n"
proof (induction n rule: show_nat.induct)
  case (1 n)
  show ?case
  proof (cases "n < 10")
    case True
    then show ?thesis by (subst show_nat.simps) (simp add: decimal_value_def digit_value_def)
  next
    case False
    have "10 * int (n div 10) + int (n mod 10) = int n" by presburger
    with False 1 show ?thesis
      by (subst show_nat.simps) (simp add: decimal_value_append digit_value_def)
  qed
qed

lemma digit_not_special: "is_digit c \<Longrightarrow> \<not> is_ws c \<and> c \<noteq> CHR ''+'' \<and> c \<noteq> CHR ''.'' \<and> c \<noteq> CHR ''-'' \<and>
    lower_char c \<noteq> CHR ''e'' \<and> c \<noteq> CHR ''x'' \<and> c \<noteq> CHR ''X'' \<and> c \<noteq> CHR ''o'' \<and> c \<noteq> CHR ''O'' \<and>
    c \<noteq> CHR ''b'' \<and> c \<noteq> CHR ''B''"
  by (auto simp: is_digit_def is_ws_def lower_char_def Let_def)

lemma trim_digits: "all_digits s \<Longrightarrow> trim_str s = s"
proof -
  assume "all_digits s"
  then have nows: "\<forall>c \<in> set s. \<not> is_ws c" by (auto simp: all_digits_def list_all_iff digit_not_special)
  have dw: "dropWhile is_ws t = t" if "\<forall>c \<in> set t. \<not> is_ws c" for t
    using that by (cases t) auto
  show ?thesis using nows by (simp add: trim_str_def dw)
qed

lemma js_number_digits:
  assumes "all_digits s" shows "js_number s = Some (decimal_value s)"
proof -
  have ds: "\<forall>c \<in> set s. is_digit c" and ne: "s \<noteq> []" using assms by (auto simp: all_digits_def list_all_iff)
  have noprefix: "\<not> prefix (CHR ''0'' # x # []) s" if "\<not> is_digit x" for x
    using ds that by (auto simp: prefix_def)
  have mantissa: "takeWhile (\<lambda>c. lower_char c \<noteq> CHR ''e'') s = s" using ds by (auto simp: takeWhile_eq_all_conv digit_not_special)
  have "decimal_literal s = Some (decimal_value s)"
    using assms unfolding decimal_literal_def mantissa by simp
  moreover have "unsigned s = s"
    using ds ne by (cases s) (auto simp: unsigned_def digit_not_special)
  ultimately show ?thesis
    using ne by (simp add: js_number_def trim_digits [OF assms] noprefix is_digit_def)
qed

lemma js_number_show_nat: "js_number (show_nat n) = Some (int n)"
  by (simp add: js_number_digits show_nat_all_digits decimal_show_nat)

lemma show_nat_no_char: "\<not> is_digit c \<Longrightarrow> c \<notin> set (show_nat n)"
  using show_nat_all_digits [of n] by (auto simp: all_digits_def list_all_iff)

lemma trailing_number_show:
  "trailing_number (s @ ''.'' @ show_nat n) = int n"
proof -
  have digits: "\<forall>c \<in> set (rev (show_nat n)). is_digit c"
    using show_nat_all_digits [of n] by (auto simp: all_digits_def list_all_iff)
  have "takeWhile is_digit (rev (show_nat n) @ CHR ''.'' # rev s) = rev (show_nat n)"
    using digits by (simp add: takeWhile_append is_digit_def)
  then show ?thesis by (simp add: trailing_number_def Let_def decimal_show_nat)
qed

text \<open>The versions EKS publishes: \<open>v1.12.2-eksbuild.4\<close>.\<close>

definition eks_version :: "nat \<Rightarrow> nat \<Rightarrow> nat \<Rightarrow> nat \<Rightarrow> string" where
  "eks_version x y z n =
     ''v'' @ join_str ''.'' [show_nat x, show_nat y, show_nat z] @ ''-eksbuild.'' @ show_nat n"

lemma parse_eks_version: "parse_addon_version (eks_version x y z n) = [int x, int y, int z, int n]"
proof -
  let ?main = "join_str ''.'' [show_nat x, show_nat y, show_nat z]"
  have dash: "CHR ''-'' \<notin> set ?main" "CHR ''-'' \<notin> set (''eksbuild.'' @ show_nat n)"
    by (simp_all add: show_nat_no_char is_digit_def)
  have parts: "split_on (CHR ''-'') (?main @ CHR ''-'' # (''eksbuild.'' @ show_nat n)) =
      [?main, ''eksbuild.'' @ show_nat n]"
    by (simp only: split_on_no_sep [OF dash(1)] split_on_id [OF dash(2)])
  have nums: "split_on (CHR ''.'') ?main = [show_nat x, show_nat y, show_nat z]"
    by (rule split_join) (simp_all add: show_nat_no_char is_digit_def)
  have suff: "trailing_number (''eksbuild.'' @ show_nat n) = int n"
    using trailing_number_show [of "''eksbuild''" n] by simp
  have "eks_version x y z n = CHR ''v'' # ?main @ CHR ''-'' # (''eksbuild.'' @ show_nat n)"
    by (simp add: eks_version_def)
  then show ?thesis
    using parts nums suff
    by (simp add: parse_addon_version_def Let_def js_number_show_nat del: join_str.simps)
qed

section \<open>The order of versions\<close>

definition part0 :: "int list \<Rightarrow> int" where
  "part0 xs = (case xs of x # _ \<Rightarrow> x | [] \<Rightarrow> 0)"

lemma compare_parts_unroll:
  "compare_parts a b =
     (if part0 a \<noteq> part0 b then part0 a - part0 b else compare_parts (tl a) (tl b))"
  by (cases a; cases b) (simp_all add: part0_def)

lemma compare_parts_skew: "compare_parts b a = - compare_parts a b"
  by (induction a b rule: compare_parts.induct) simp_all

lemma compare_parts_trans:
  "compare_parts a b \<le> 0 \<Longrightarrow> compare_parts b c \<le> 0 \<Longrightarrow> compare_parts a c \<le> 0"
proof (induction "length a + length b + length c" arbitrary: a b c rule: less_induct)
  case less
  show ?case
  proof (cases "a = [] \<and> b = [] \<and> c = []")
    case True
    then show ?thesis by simp
  next
    case False
    then have shorter: "length (tl a) + length (tl b) + length (tl c) < length a + length b + length c"
      by (cases a; cases b; cases c) auto
    show ?thesis
      using less.prems less.hyps [OF shorter]
      by (subst (asm) (1 2) compare_parts_unroll, subst compare_parts_unroll) (auto split: if_splits)
  qed
qed

section \<open>Properties\<close>

text \<open>
  In the version history of an add-on with a published version, a row offers the upgrade exactly
  when its version is newer in the numeric order of the four parts.
\<close>

theorem newer_versions_get_the_button:
  "row_clickable can_upgrade (Some (eks_version x y z n)) (eks_version x' y' z' n') \<longleftrightarrow>
     can_upgrade \<and> (x, y, z, n) < (x', y', z', n')"
proof -
  have "Some (eks_version x' y' z' n') = Some (eks_version x y z n) \<longrightarrow> (x', y', z', n') = (x, y, z, n)"
    by (auto dest!: arg_cong [of _ _ parse_addon_version] simp: parse_eks_version)
  moreover have "eks_version x y z n \<noteq> []" by (simp add: eks_version_def)
  ultimately show ?thesis
    by (auto simp: row_clickable_def compare_addon_versions_def parse_eks_version split: if_splits)
qed

text \<open>
  On any strings the comparison is a total preorder, so a sort by it is well defined.
\<close>

theorem version_order_total:
  "compare_addon_versions a b = - compare_addon_versions b a \<and>
   compare_addon_versions a a = 0 \<and>
   (if compare_addon_versions a b \<le> 0 then
      (if compare_addon_versions b c \<le> 0 then compare_addon_versions a c \<le> 0 else True) else True)"
  using compare_parts_skew [of "parse_addon_version b" "parse_addon_version a"]
    compare_parts_skew [of "parse_addon_version a" "parse_addon_version a"]
  by (auto simp: compare_addon_versions_def intro: compare_parts_trans)

lemma merge_some:
  "merge_installed catalog (Some as) =
     map (\<lambda>row. if ca_installed row \<noteq> None then row
                else (case find (\<lambda>a. as_name a = ca_name row) (rev as) of
                        Some a \<Rightarrow> row\<lparr>ca_installed := Some (installed_of a)\<rparr>
                      | None \<Rightarrow> row)) catalog"
proof (cases as)
  case Nil
  then show ?thesis by (simp add: merge_installed_def map_idI)
next
  case (Cons a as')
  have "merge_installed catalog (Some as) =
      map (\<lambda>row. if ca_installed row \<noteq> None then row
                 else (case map_of (fold (\<lambda>a. AList.update (as_name a) (installed_of a)) as []) (ca_name row) of
                         Some i \<Rightarrow> row\<lparr>ca_installed := Some i\<rparr> | None \<Rightarrow> row)) catalog"
    by (simp only: Cons merge_installed_def list.case option.case Let_def)
  then show ?thesis
    unfolding map_of_fold_update by (auto split: option.splits)
qed

text \<open>
  Merging keeps the names and the order of the catalog. What the server merged in wins over the
  client's own list; otherwise the last add-on of that name in the list fills in.
\<close>

theorem server_merge_wins:
  "map ca_name (merge_installed catalog (Some as)) = map ca_name catalog \<and>
   map ca_installed (merge_installed catalog (Some as)) =
     map (\<lambda>row. case ca_installed row of
                  Some i \<Rightarrow> Some i
                | None \<Rightarrow> map_option installed_of (find (\<lambda>a. as_name a = ca_name row) (rev as))) catalog"
  unfolding merge_some by (auto split: option.splits)

text \<open>The default of a version list is one of its versions.\<close>

lemma pick_default_mem: "vs \<noteq> [] \<Longrightarrow> pick_default_version vs \<in> av_version ` set vs"
  by (auto simp: pick_default_version_def split: option.splits list.splits dest: find_Some_mem)

lemma pick_upgrade_default_eq: "pick_upgrade_default vs = pick_default_version vs"
  by (simp add: pick_upgrade_default_def pick_default_version_def)

lemma compatible_mem:
  "v \<in> set (filter_compatible_versions addon k8s) \<Longrightarrow>
     v \<in> set (ca_versions addon) \<and> (if given k8s then the k8s \<in> set (av_k8s v) else True)"
  by (auto simp: filter_compatible_versions_def split: if_splits)

lemma target_mem:
  "v \<in> set (filter_upgrade_targets vs installed) \<Longrightarrow>
     v \<in> set vs \<and> (if given installed then Some (av_version v) \<noteq> installed else True)"
  by (auto simp: filter_upgrade_targets_def split: if_splits)

text \<open>
  The comment promises 0 for a version that cannot be read; it counts as the oldest one, so
  every readable version is offered as an upgrade.
\<close>

theorem unreadable_version_is_oldest:
  "parse_addon_version ''v1.x'' = [] \<and>
   compare_addon_versions ''v1.x'' ''v1.12.2-eksbuild.1'' < 0 \<and>
   row_clickable True (Some ''v1.x'') ''v1.12.2-eksbuild.1''"
  by code_simp

end
