(* ===== verification/AddonDialogs.thy ===== *)
theory AddonDialogs
  imports AddonStub AddonVersions
begin

text \<open>
  Model of the dialogs that install and upgrade an EKS add-on:
  \<open>components/eks/InstallAddOnDialog.tsx\<close> and \<open>UpgradeAddOnDialog.tsx\<close> with the request builders of
  \<open>lib/addonInstall.ts\<close> and \<open>addonUpgrade.ts\<close>. An event is one commit of React: the handler's state
  updates, the reset effect when one of its dependencies changed, and the effect that seeds the
  editor with the commented stub. The requests sent are recorded with what the dialog showed.
\<close>

section \<open>The form both dialogs share\<close>

datatype resolve_conflicts = RcNone | RcOverwrite | RcPreserve

fun conflicts_text :: "resolve_conflicts \<Rightarrow> string" where
  "conflicts_text RcNone = ''NONE''"
| "conflicts_text RcOverwrite = ''OVERWRITE''"
| "conflicts_text RcPreserve = ''PRESERVE''"

datatype editor_mode = ModeForm | ModeYaml

record addon_form =
  fm_version :: string
  fm_yaml :: string
  fm_role :: string
  fm_conflicts :: resolve_conflicts
  fm_mode :: "editor_mode option"
  fm_seeded :: string

definition initial_form :: "resolve_conflicts \<Rightarrow> addon_form" where
  "initial_form rc =
     \<lparr>fm_version = [], fm_yaml = [], fm_role = [], fm_conflicts = rc, fm_mode = None, fm_seeded = []\<rparr>"

definition optional_field :: "string \<Rightarrow> string \<Rightarrow> entries" where
  "optional_field k s = (if trim_str s \<noteq> [] then [(k, JStr s)] else [])"

text \<open>The dialogs always pass a conflict mode; None is the empty string.\<close>

definition conflicts_field :: "resolve_conflicts option \<Rightarrow> entries" where
  "conflicts_field rc =
     (case rc of Some c \<Rightarrow> [(''resolveConflicts'', JStr (conflicts_text c))] | None \<Rightarrow> [])"

definition build_install_request ::
    "string \<Rightarrow> string \<Rightarrow> string \<Rightarrow> string \<Rightarrow> resolve_conflicts option \<Rightarrow> entries" where
  "build_install_request name version yaml role rc =
     [(''addonName'', JStr name), (''addonVersion'', JStr version)] @
     optional_field ''configurationValues'' yaml @
     optional_field ''serviceAccountRoleArn'' role @ conflicts_field rc"

definition build_upgrade_request ::
    "string \<Rightarrow> string \<Rightarrow> string \<Rightarrow> resolve_conflicts option \<Rightarrow> entries" where
  "build_upgrade_request version yaml role rc =
     [(''addonVersion'', JStr version)] @
     optional_field ''configurationValues'' yaml @
     optional_field ''serviceAccountRoleArn'' role @ conflicts_field rc"

text \<open>
  The seeding effect: \<open>yaml\<close> is the buffer of the render the effect belongs to, while the last
  stub is read from a ref.
\<close>

definition seed_effect :: "json_schema option \<Rightarrow> string \<Rightarrow> addon_form \<Rightarrow> addon_form" where
  "seed_effect schema yaml f =
     (case schema of
        None \<Rightarrow> f
      | Some s \<Rightarrow>
          let stub = generate_addon_values_yaml_stub s;
              has_edits = (yaml \<noteq> [] \<and> yaml \<noteq> fm_seeded f)
          in if has_edits then f else if yaml = stub then f
             else f\<lparr>fm_yaml := stub, fm_seeded := stub\<rparr>)"

definition operator_has_edits :: "addon_form \<Rightarrow> bool" where
  "operator_has_edits f = (fm_yaml f \<noteq> [] \<and> fm_yaml f \<noteq> fm_seeded f)"

text \<open>The controls of the form; the select and the radio buttons offer the listed versions only.\<close>

datatype form_event =
    PickVersion string
  | EditYaml string
  | EditRole string
  | PickConflicts resolve_conflicts
  | SetMode editor_mode

fun form_edit :: "catalog_version list \<Rightarrow> form_event \<Rightarrow> addon_form \<Rightarrow> addon_form" where
  "form_edit vs (PickVersion v) f = (if v \<in> set (map av_version vs) then f\<lparr>fm_version := v\<rparr> else f)"
| "form_edit vs (EditYaml s) f = f\<lparr>fm_yaml := s\<rparr>"
| "form_edit vs (EditRole s) f = f\<lparr>fm_role := s\<rparr>"
| "form_edit vs (PickConflicts rc) f = f\<lparr>fm_conflicts := rc\<rparr>"
| "form_edit vs (SetMode m) f = f\<lparr>fm_mode := Some m\<rparr>"

text \<open>Another version asks for another schema, which is there once it is loaded.\<close>

definition schema_after :: "addon_form \<Rightarrow> addon_form \<Rightarrow> json_schema option \<Rightarrow> json_schema option" where
  "schema_after old new schema = (if fm_version new = fm_version old then schema else None)"

section \<open>Installing\<close>

record install_dialog =
  nd_addon :: "catalog_addon option"
  nd_k8s :: "string option"
  nd_form :: addon_form
  nd_schema :: "json_schema option"
  nd_pending :: bool
  nd_sent :: "(catalog_addon \<times> string option \<times> entries) list"
  nd_toasts :: "(string \<times> string) list"

definition install_closed :: "string option \<Rightarrow> install_dialog" where
  "install_closed k8s =
     \<lparr>nd_addon = None, nd_k8s = k8s, nd_form = initial_form RcOverwrite, nd_schema = None,
      nd_pending = False, nd_sent = [], nd_toasts = []\<rparr>"

definition install_versions :: "install_dialog \<Rightarrow> catalog_version list" where
  "install_versions s =
     (case nd_addon s of Some a \<Rightarrow> filter_compatible_versions a (nd_k8s s) | None \<Rightarrow> [])"

datatype install_event =
    ShowInstall catalog_addon "json_schema option" "json_schema option"
  | HideInstall
  | ClusterVersion "string option"
  | InstallSchema "json_schema option"
  | InstallForm form_event
  | ClickInstall
  | InstallSettled "string option"

text \<open>
  The reset effect and the seeding effect of the same commit, then the render they cause:
  \<open>cached\<close> is the schema the cache holds for the version still shown, \<open>fresh\<close> the one for the
  version picked by the reset.
\<close>

definition reset_install ::
    "json_schema option \<Rightarrow> json_schema option \<Rightarrow> install_dialog \<Rightarrow> install_dialog" where
  "reset_install cached fresh s =
     (let f0 = (initial_form RcOverwrite)\<lparr>fm_version := pick_default_version (install_versions s)\<rparr>;
          f1 = seed_effect cached (fm_yaml (nd_form s)) f0
      in s\<lparr>nd_form := seed_effect fresh (fm_yaml f1) f1, nd_schema := fresh\<rparr>)"

definition render_install :: "install_dialog \<Rightarrow> install_dialog" where
  "render_install s =
     (if nd_addon s = None then s
      else s\<lparr>nd_form := seed_effect (nd_schema s) (fm_yaml (nd_form s)) (nd_form s)\<rparr>)"

fun install_step :: "install_dialog \<Rightarrow> install_event \<Rightarrow> install_dialog" where
  "install_step s (ShowInstall a cached fresh) =
     (if nd_addon s = None then reset_install cached fresh (s\<lparr>nd_addon := Some a\<rparr>) else s)"
| "install_step s HideInstall = (if nd_pending s then s else s\<lparr>nd_addon := None, nd_schema := None\<rparr>)"
| "install_step s (ClusterVersion k) =
     (if nd_k8s s = k then s
      else if nd_addon s = None then s\<lparr>nd_k8s := k\<rparr>
      else reset_install (nd_schema s) (nd_schema s) (s\<lparr>nd_k8s := k\<rparr>))"
| "install_step s (InstallSchema sc) =
     (if nd_addon s = None \<or> fm_version (nd_form s) = [] then s
      else render_install (s\<lparr>nd_schema := sc\<rparr>))"
| "install_step s (InstallForm e) =
     (if nd_addon s = None then s
      else let f = form_edit (install_versions s) e (nd_form s)
           in render_install (s\<lparr>nd_form := f, nd_schema := schema_after (nd_form s) f (nd_schema s)\<rparr>))"
| "install_step s ClickInstall =
     (case nd_addon s of
        None \<Rightarrow> s
      | Some a \<Rightarrow>
          let f = nd_form s
          in if nd_pending s \<or> fm_version f = [] \<or> install_versions s = [] then s
             else s\<lparr>nd_pending := True,
                    nd_sent := nd_sent s @ [(a, nd_k8s s,
                      build_install_request (ca_name a) (fm_version f) (fm_yaml f) (fm_role f)
                        (Some (fm_conflicts f)))]\<rparr>)"
| "install_step s (InstallSettled err) =
     (if \<not> nd_pending s then s
      else case err of
          None \<Rightarrow> s\<lparr>nd_pending := False, nd_addon := None, nd_schema := None,
                    nd_toasts := nd_toasts s @ [(''success'',
                      ''installing '' @ (case nd_addon s of Some a \<Rightarrow> ca_name a | None \<Rightarrow> []) @ '' '' @
                      fm_version (nd_form s) @ '' '' @ em_dash @ '' status will update as AWS provisions'')]\<rparr>
        | Some m \<Rightarrow> s\<lparr>nd_pending := False,
                      nd_toasts := nd_toasts s @ [(''error'', ''install failed: '' @ m)]\<rparr>)"

section \<open>Upgrading\<close>

record addon_detail =
  ad_version :: "string option"
  ad_status :: string
  ad_values :: "string option"
  ad_role :: "string option"

record upgrade_dialog =
  ud_addon :: "catalog_addon option"
  ud_detail :: "addon_detail option"
  ud_k8s :: "string option"
  ud_initial :: "string option"
  ud_form :: addon_form
  ud_schema :: "json_schema option"
  ud_pending :: bool
  ud_sent :: "(catalog_addon \<times> string option \<times> string option \<times> entries) list"

definition upgrade_closed :: "string option \<Rightarrow> upgrade_dialog" where
  "upgrade_closed k8s =
     \<lparr>ud_addon = None, ud_detail = None, ud_k8s = k8s, ud_initial = None,
      ud_form = initial_form RcPreserve, ud_schema = None, ud_pending = False, ud_sent = []\<rparr>"

definition installed_version :: "upgrade_dialog \<Rightarrow> string option" where
  "installed_version s = (case ud_detail s of Some d \<Rightarrow> ad_version d | None \<Rightarrow> None)"

definition upgrade_targets :: "upgrade_dialog \<Rightarrow> catalog_version list" where
  "upgrade_targets s =
     filter_upgrade_targets
       (case ud_addon s of Some a \<Rightarrow> filter_compatible_versions a (ud_k8s s) | None \<Rightarrow> [])
       (installed_version s)"

datatype upgrade_event =
    ShowUpgrade catalog_addon "string option" "addon_detail option" "json_schema option"
  | HideUpgrade
  | DetailArrives addon_detail "json_schema option"
  | UpgradeSchema "json_schema option"
  | UpgradeForm form_event
  | ClickUpgrade
  | UpgradeSettled bool

definition requested_version :: "upgrade_dialog \<Rightarrow> string" where
  "requested_version s =
     (case ud_initial s of
        Some v \<Rightarrow> if v \<noteq> [] \<and> v \<in> set (map av_version (upgrade_targets s)) then v
                  else pick_upgrade_default (upgrade_targets s)
      | None \<Rightarrow> pick_upgrade_default (upgrade_targets s))"

text \<open>The effects run only once both the catalog row and the detail are there.\<close>

definition reset_upgrade :: "json_schema option \<Rightarrow> upgrade_dialog \<Rightarrow> upgrade_dialog" where
  "reset_upgrade fresh s =
     (case (ud_addon s, ud_detail s) of
        (Some a, Some d) \<Rightarrow>
          let f0 = (initial_form RcPreserve)
                     \<lparr>fm_version := requested_version s,
                      fm_yaml := (case ad_values d of Some v \<Rightarrow> v | None \<Rightarrow> []),
                      fm_role := (case ad_role d of Some r \<Rightarrow> r | None \<Rightarrow> [])\<rparr>;
              f1 = seed_effect (ud_schema s) (fm_yaml (ud_form s)) f0
          in s\<lparr>ud_form := seed_effect fresh (fm_yaml f1) f1, ud_schema := fresh\<rparr>
      | _ \<Rightarrow> s)"

definition render_upgrade :: "upgrade_dialog \<Rightarrow> upgrade_dialog" where
  "render_upgrade s =
     (if ud_addon s = None then s
      else s\<lparr>ud_form := seed_effect (ud_schema s) (fm_yaml (ud_form s)) (ud_form s)\<rparr>)"

fun upgrade_step :: "upgrade_dialog \<Rightarrow> upgrade_event \<Rightarrow> upgrade_dialog" where
  "upgrade_step s (ShowUpgrade a initial d fresh) =
     (if ud_addon s = None
      then reset_upgrade fresh (s\<lparr>ud_addon := Some a, ud_initial := initial, ud_detail := d\<rparr>) else s)"
| "upgrade_step s HideUpgrade =
     (if ud_pending s then s
      else s\<lparr>ud_addon := None, ud_initial := None, ud_detail := None, ud_schema := None\<rparr>)"
| "upgrade_step s (DetailArrives d fresh) =
     (if ud_addon s = None \<or> ud_detail s = Some d then s
      else reset_upgrade fresh (s\<lparr>ud_detail := Some d\<rparr>))"
| "upgrade_step s (UpgradeSchema sc) =
     (if ud_addon s = None \<or> fm_version (ud_form s) = [] then s
      else render_upgrade (s\<lparr>ud_schema := sc\<rparr>))"
| "upgrade_step s (UpgradeForm e) =
     (if ud_addon s = None \<or> ud_detail s = None then s
      else let f = form_edit (upgrade_targets s) e (ud_form s)
           in render_upgrade (s\<lparr>ud_form := f, ud_schema := schema_after (ud_form s) f (ud_schema s)\<rparr>))"
| "upgrade_step s ClickUpgrade =
     (case (ud_addon s, ud_detail s) of
        (Some a, Some d) \<Rightarrow>
          let f = ud_form s
          in if ud_pending s \<or> fm_version f = [] \<or> upgrade_targets s = [] then s
             else s\<lparr>ud_pending := True,
                    ud_sent := ud_sent s @ [(a, ud_k8s s, ad_version d,
                      build_upgrade_request (fm_version f) (fm_yaml f) (fm_role f)
                        (Some (fm_conflicts f)))]\<rparr>
      | _ \<Rightarrow> s)"
| "upgrade_step s (UpgradeSettled ok) =
     (if \<not> ud_pending s then s
      else if ok then s\<lparr>ud_pending := False, ud_addon := None, ud_initial := None, ud_detail := None,
                        ud_schema := None\<rparr>
      else s\<lparr>ud_pending := False\<rparr>)"

section \<open>Requests\<close>

definition install_request_ok :: "catalog_addon \<times> string option \<times> entries \<Rightarrow> bool" where
  "install_request_ok r =
     (case r of (a, k8s, rq) \<Rightarrow>
        map_of rq ''addonName'' = Some (JStr (ca_name a)) \<and>
        list_ex (\<lambda>v. map_of rq ''addonVersion'' = Some (JStr (av_version v)))
          (filter_compatible_versions a k8s))"

definition upgrade_request_ok :: "catalog_addon \<times> string option \<times> string option \<times> entries \<Rightarrow> bool" where
  "upgrade_request_ok r =
     (case r of (a, k8s, installed, rq) \<Rightarrow>
        list_ex (\<lambda>v. map_of rq ''addonVersion'' = Some (JStr (av_version v)) \<and>
                     (if given installed then Some (av_version v) \<noteq> installed else True))
          (filter_compatible_versions a k8s))"

definition version_offered :: "catalog_version list \<Rightarrow> addon_form \<Rightarrow> bool" where
  "version_offered vs f = (fm_version f = [] \<or> fm_version f \<in> set (map av_version vs))"

definition install_inv :: "install_dialog \<Rightarrow> bool" where
  "install_inv s =
     ((nd_addon s = None \<or> version_offered (install_versions s) (nd_form s)) \<and>
      list_all install_request_ok (nd_sent s))"

definition upgrade_inv :: "upgrade_dialog \<Rightarrow> bool" where
  "upgrade_inv s =
     ((ud_addon s = None \<or> ud_detail s = None \<or> version_offered (upgrade_targets s) (ud_form s)) \<and>
      list_all upgrade_request_ok (ud_sent s))"

lemma seed_version [simp]: "fm_version (seed_effect sc y f) = fm_version f"
  by (simp add: seed_effect_def Let_def split: option.split)

lemma form_edit_offered: "version_offered vs f \<Longrightarrow> version_offered vs (form_edit vs e f)"
  by (cases e) (auto simp: version_offered_def)

lemma seed_offered [simp]: "version_offered vs (seed_effect sc y f) = version_offered vs f"
  by (simp add: version_offered_def)

lemma install_versions_simps [simp]:
  "install_versions (s\<lparr>nd_form := f\<rparr>) = install_versions s"
  "install_versions (s\<lparr>nd_schema := sc\<rparr>) = install_versions s"
  "install_versions (s\<lparr>nd_pending := b\<rparr>) = install_versions s"
  "install_versions (s\<lparr>nd_sent := q\<rparr>) = install_versions s"
  "install_versions (s\<lparr>nd_toasts := ts\<rparr>) = install_versions s"
  by (simp_all add: install_versions_def split: option.split)

lemma upgrade_targets_simps [simp]:
  "upgrade_targets (s\<lparr>ud_form := f\<rparr>) = upgrade_targets s"
  "upgrade_targets (s\<lparr>ud_schema := sc\<rparr>) = upgrade_targets s"
  "upgrade_targets (s\<lparr>ud_pending := b\<rparr>) = upgrade_targets s"
  "upgrade_targets (s\<lparr>ud_sent := q\<rparr>) = upgrade_targets s"
  by (simp_all add: upgrade_targets_def installed_version_def split: option.split)

lemma default_offered: "pick_default_version vs = [] \<or> pick_default_version vs \<in> set (map av_version vs)"
proof (cases "vs = []")
  case True
  then show ?thesis by (simp add: pick_default_version_def)
next
  case False
  then show ?thesis using pick_default_mem [OF False] by simp
qed

lemma reset_install_inv: "list_all install_request_ok (nd_sent s) \<Longrightarrow> install_inv (reset_install cached fresh s)"
  using default_offered by (simp add: install_inv_def reset_install_def Let_def version_offered_def)

lemma requested_offered: "requested_version s = [] \<or> requested_version s \<in> set (map av_version (upgrade_targets s))"
  using default_offered [of "upgrade_targets s"]
  by (auto simp: requested_version_def pick_upgrade_default_eq split: option.split)

lemma reset_upgrade_inv: "list_all upgrade_request_ok (ud_sent s) \<Longrightarrow> upgrade_inv (reset_upgrade fresh s)"
  using requested_offered [of s]
  by (auto simp: upgrade_inv_def reset_upgrade_def Let_def version_offered_def split: option.split)

lemma install_request_built:
  assumes "version_offered (install_versions s) f" "fm_version f \<noteq> []" "nd_addon s = Some a"
  shows "install_request_ok (a, nd_k8s s, build_install_request (ca_name a) (fm_version f) y r c)"
  using assms
  by (auto simp: install_request_ok_def build_install_request_def version_offered_def install_versions_def list_ex_iff)

lemma upgrade_request_built:
  assumes "version_offered (upgrade_targets s) f" "fm_version f \<noteq> []"
    "ud_addon s = Some a" "ud_detail s = Some d"
  shows "upgrade_request_ok (a, ud_k8s s, ad_version d, build_upgrade_request (fm_version f) y r c)"
proof -
  obtain v where "v \<in> set (upgrade_targets s)" and v: "fm_version f = av_version v"
    using assms by (auto simp: version_offered_def)
  then have "v \<in> set (filter_compatible_versions a (ud_k8s s))"
    "if given (ad_version d) then Some (av_version v) \<noteq> ad_version d else True"
    using assms target_mem [of v "filter_compatible_versions a (ud_k8s s)" "ad_version d"]
    by (simp_all add: upgrade_targets_def installed_version_def)
  with v show ?thesis
    by (auto simp: upgrade_request_ok_def build_upgrade_request_def list_ex_iff)
qed

lemma install_sent_ok: "install_inv s \<Longrightarrow> list_all install_request_ok (nd_sent s)"
  by (simp add: install_inv_def)

lemma upgrade_sent_ok: "upgrade_inv s \<Longrightarrow> list_all upgrade_request_ok (ud_sent s)"
  by (simp add: upgrade_inv_def)

lemma install_inv_step: "install_inv s \<Longrightarrow> install_inv (install_step s e)"
proof (induction s e rule: install_step.induct)
  case (1 s a cached fresh)
  then show ?case by (auto simp: reset_install_inv install_sent_ok)
next
  case (3 s k)
  then show ?case
    by (cases "nd_addon s = None") (auto simp: reset_install_inv install_sent_ok, simp add: install_inv_def)
next
  case (4 s sc)
  then show ?case by (simp add: install_inv_def render_install_def)
next
  case (5 s e)
  then show ?case by (auto simp: install_inv_def render_install_def Let_def form_edit_offered)
next
  case (6 s)
  then show ?case
    by (auto simp: install_inv_def Let_def intro!: install_request_built split: option.split)
qed (auto simp: install_inv_def split: option.split)

lemma upgrade_inv_step: "upgrade_inv s \<Longrightarrow> upgrade_inv (upgrade_step s e)"
proof (induction s e rule: upgrade_step.induct)
  case (1 s a initial d fresh)
  then show ?case by (auto simp: reset_upgrade_inv upgrade_sent_ok)
next
  case (3 s d fresh)
  then show ?case by (auto simp: reset_upgrade_inv upgrade_sent_ok)
next
  case (4 s sc)
  then show ?case by (auto simp: upgrade_inv_def render_upgrade_def)
next
  case (5 s e)
  then show ?case by (auto simp: upgrade_inv_def render_upgrade_def Let_def form_edit_offered)
next
  case (6 s)
  then show ?case
    by (auto simp: upgrade_inv_def Let_def intro!: upgrade_request_built split: option.split)
qed (auto simp: upgrade_inv_def)

interpretation install_machine: event_machine install_step install_inv
  by unfold_locales (rule install_inv_step)

interpretation upgrade_machine: event_machine upgrade_step upgrade_inv
  by unfold_locales (rule upgrade_inv_step)

text \<open>
  Whatever the operator and the network do, every install request names the add-on shown and one
  of its versions for the cluster's Kubernetes version, and every upgrade request such a version
  other than the installed one.
\<close>

theorem addon_requests_are_choices:
  "list_all install_request_ok (nd_sent (foldl install_step (install_closed k8s) es)) \<and>
   list_all upgrade_request_ok (ud_sent (foldl upgrade_step (upgrade_closed k8s) es'))"
proof -
  have "install_inv (install_closed k8s)" "upgrade_inv (upgrade_closed k8s)"
    by (simp_all add: install_inv_def install_closed_def upgrade_inv_def upgrade_closed_def)
  then show ?thesis
    using install_machine.inv_run upgrade_machine.inv_run unfolding install_inv_def upgrade_inv_def by blast
qed

section \<open>Typed values\<close>

fun keeps_text :: "install_event \<Rightarrow> bool" where
  "keeps_text (ShowInstall a c f) = False"
| "keeps_text (ClusterVersion k) = False"
| "keeps_text (InstallForm (EditYaml y)) = False"
| "keeps_text e = True"

lemma seed_keeps_edits: "operator_has_edits f \<Longrightarrow> y = fm_yaml f \<Longrightarrow> seed_effect sc y f = f"
  by (simp add: seed_effect_def operator_has_edits_def split: option.split)

lemma form_edit_keeps:
  "keeps_text (InstallForm e) \<Longrightarrow>
     fm_yaml (form_edit vs e f) = fm_yaml f \<and> fm_seeded (form_edit vs e f) = fm_seeded f"
  by (cases e) simp_all

lemma edits_kept_step:
  "operator_has_edits (nd_form s) \<Longrightarrow> keeps_text e \<Longrightarrow>
     fm_yaml (nd_form (install_step s e)) = fm_yaml (nd_form s) \<and>
     fm_seeded (nd_form (install_step s e)) = fm_seeded (nd_form s)"
proof (cases e)
  case (InstallForm fe)
  assume h: "operator_has_edits (nd_form s)" "keeps_text e"
  have "operator_has_edits (form_edit vs fe (nd_form s))" for vs
    using h form_edit_keeps [of fe] InstallForm by (simp add: operator_has_edits_def)
  then show ?thesis
    using h form_edit_keeps [of fe] InstallForm by (simp add: render_install_def Let_def seed_keeps_edits)
qed (auto simp: render_install_def seed_keeps_edits Let_def split: option.split)

text \<open>
  What the operator typed into the configuration editor survives another choice of version, a
  schema that arrives late, a failed installation and every other event short of reopening the
  dialog or a new version of the cluster.
\<close>

theorem typed_values_survive:
  assumes "operator_has_edits (nd_form s)" "list_all keeps_text es"
  shows "fm_yaml (nd_form (foldl install_step s es)) = fm_yaml (nd_form s)"
  using assms
proof (induction es arbitrary: s)
  case (Cons e es)
  have "operator_has_edits (nd_form (install_step s e))"
    using Cons.prems edits_kept_step [of s e] by (simp add: operator_has_edits_def)
  then show ?case using Cons.IH [of "install_step s e"] Cons.prems edits_kept_step [of s e] by simp
qed simp

text \<open>
  Opening the dialog starts afresh: the recommended version, no role, the default conflict mode
  and no text of an earlier session; what is in the editor is the generated stub or nothing.
\<close>

theorem reopening_starts_afresh:
  "let s' = install_step (s\<lparr>nd_addon := None\<rparr>) (ShowInstall a cached fresh); f = nd_form s'
   in nd_addon s' = Some a \<and>
      fm_version f = pick_default_version (filter_compatible_versions a (nd_k8s s)) \<and>
      fm_role f = [] \<and> fm_conflicts f = RcOverwrite \<and> fm_mode f = None \<and> \<not> operator_has_edits f"
  by (simp add: reset_install_def Let_def initial_form_def seed_effect_def operator_has_edits_def
      install_versions_def split: option.split)

definition sample_addon :: catalog_addon where
  "sample_addon =
     \<lparr>ca_name = ''coredns'', ca_type = None, ca_owner = Some ''aws'',
      ca_versions =
        [\<lparr>av_version = ''v1.12.2-eksbuild.4'', av_k8s = [''1.31'', ''1.30''], av_default = False\<rparr>,
         \<lparr>av_version = ''v1.11.4-eksbuild.1'', av_k8s = [''1.30''], av_default = True\<rparr>],
      ca_installed = None\<rparr>"

definition sample_install :: install_dialog where
  "sample_install =
     foldl install_step (install_closed (Some ''1.30''))
       [ShowInstall sample_addon None None, InstallSchema (Some sample_addon_schema)]"

lemma typed_values_survive_witness:
  "fm_yaml (nd_form (foldl install_step (install_step sample_install (InstallForm (EditYaml ''replicaCount: 3'')))
     [InstallForm (PickVersion ''v1.12.2-eksbuild.4''), InstallSchema (Some sample_addon_schema),
      ClickInstall, InstallSettled (Some ''denied'')])) = ''replicaCount: 3''"
proof -
  let ?s = "install_step sample_install (InstallForm (EditYaml ''replicaCount: 3''))"
  have "operator_has_edits (nd_form ?s)" "fm_yaml (nd_form ?s) = ''replicaCount: 3''" by code_simp+
  with typed_values_survive [of ?s "[InstallForm (PickVersion ''v1.12.2-eksbuild.4''),
      InstallSchema (Some sample_addon_schema), ClickInstall, InstallSettled (Some ''denied'')]"]
  show ?thesis by simp
qed

section \<open>Where the dialogs fall short\<close>

text \<open>
  An untouched install does not send the empty configuration the comments speak of: the stub is
  sent as \<open>configurationValues\<close>.
\<close>

theorem untouched_install_sends_stub:
  "map (\<lambda>(a, k, rq). map_of rq ''configurationValues'') (nd_sent (install_step sample_install ClickInstall)) =
     [Some (JStr (generate_addon_values_yaml_stub sample_addon_schema))]"
  by code_simp

text \<open>
  An operator who empties the editor to go back to the defaults gets the stub again.
\<close>

theorem emptied_editor_is_reseeded:
  "fm_yaml (nd_form (install_step (install_step sample_install (InstallForm (EditYaml ''replicaCount: 3'')))
     (InstallForm (EditYaml [])))) = generate_addon_values_yaml_stub sample_addon_schema"
  by code_simp

text \<open>
  The reset of the upgrade dialog depends on the detail object: a refetch that brings any change,
  such as another status, throws away the chosen version and the typed values.
\<close>

theorem refetch_discards_edits:
  "let detail = \<lparr>ad_version = Some ''v1.10.1-eksbuild.1'', ad_status = ''ACTIVE'',
                 ad_values = Some ''replicaCount: 2'', ad_role = None\<rparr>;
       s = foldl upgrade_step (upgrade_closed (Some ''1.30''))
             [ShowUpgrade sample_addon None (Some detail) None,
              UpgradeForm (EditYaml ''replicaCount: 5''), UpgradeForm (PickVersion ''v1.12.2-eksbuild.4'')];
       s' = upgrade_step s (DetailArrives (detail\<lparr>ad_status := ''DEGRADED''\<rparr>) None)
   in fm_yaml (ud_form s) = ''replicaCount: 5'' \<and> fm_version (ud_form s) = ''v1.12.2-eksbuild.4'' \<and>
      fm_yaml (ud_form s') = ''replicaCount: 2'' \<and> fm_version (ud_form s') = ''v1.11.4-eksbuild.1''"
  by code_simp

end
