(* ===== verification/UrlCodec.thy ===== *)
theory UrlCodec
  imports Prelude
begin

text \<open>
  The URL functions of the standard library that the console builds its requests with:
  \<open>encodeURIComponent\<close>, \<open>URLSearchParams\<close> and \<open>btoa\<close>, on the bytes of the UTF-8 form of a
  string (\<open>encodeURIComponent\<close> itself is in the prelude); and what makes an encoded segment safe inside a URL.
\<close>

section \<open>Percent encoding\<close>

text \<open>A byte of the UTF-8 form of a string, percent-encoded.\<close>

definition percent :: "char \<Rightarrow> string" where
  "percent c = (let n = (of_char c :: nat) in [CHR ''%'', hex_digit (n div 16), hex_digit (n mod 16)])"

section \<open>Query strings\<close>

definition form_plain :: "char \<Rightarrow> bool" where
  "form_plain c =
     (let n = (of_char c :: nat)
      in 48 \<le> n \<and> n \<le> 57 \<or> 65 \<le> n \<and> n \<le> 90 \<or> 97 \<le> n \<and> n \<le> 122
         \<or> n \<in> set [42, 45, 46, 95])"

definition form_char :: "char \<Rightarrow> string" where
  "form_char c =
     (if c = CHR '' '' then ''+'' else if form_plain c then [c] else percent c)"

definition form_encode :: "string \<Rightarrow> string" where
  "form_encode s = concat (map form_char s)"

type_synonym params = "(string \<times> string) list"

definition param_set :: "string \<Rightarrow> string \<Rightarrow> params \<Rightarrow> params" where
  "param_set k v ps = AList.update k v ps"

definition params_to_string :: "params \<Rightarrow> string" where
  "params_to_string ps = join_str ''&'' (map (\<lambda>(k, v). form_encode k @ ''='' @ form_encode v) ps)"

text \<open>\<open>qs ? "?" + qs : ""\<close>.\<close>

definition query_suffix :: "params \<Rightarrow> string" where
  "query_suffix ps = (let qs = params_to_string ps in if qs \<noteq> [] then ''?'' @ qs else [])"

section \<open>Paths\<close>

text \<open>A template of the form \<open>/a/b/c\<close>.\<close>

definition url_path :: "string list \<Rightarrow> string" where
  "url_path segs = concat (map (\<lambda>s. CHR ''/'' # s) segs)"

definition path_segments :: "string \<Rightarrow> string list" where
  "path_segments url = split_on CHR ''/'' (tl (takeWhile (\<lambda>c. c \<noteq> CHR ''?'') url))"

section \<open>Base64\<close>

definition base64_alphabet :: string where
  "base64_alphabet = ''ABCDEFGHIJKLMNOPQRSTUVWXYZabcdefghijklmnopqrstuvwxyz0123456789+/''"

fun base64_groups :: "nat list \<Rightarrow> string" where
  "base64_groups [] = []"
| "base64_groups [a] =
     [base64_alphabet ! (a div 4), base64_alphabet ! (a mod 4 * 16), CHR ''='', CHR ''='']"
| "base64_groups [a, b] =
     [base64_alphabet ! (a div 4), base64_alphabet ! (a mod 4 * 16 + b div 16),
      base64_alphabet ! (b mod 16 * 4), CHR ''='']"
| "base64_groups (a # b # c # rest) =
     base64_alphabet ! (a div 4) # base64_alphabet ! (a mod 4 * 16 + b div 16) #
     base64_alphabet ! (b mod 16 * 4 + c div 64) # base64_alphabet ! (c mod 64) # base64_groups rest"

definition btoa :: "string \<Rightarrow> string" where
  "btoa s = base64_groups (map of_char s)"

section \<open>Decoding\<close>

definition hex_value :: "char \<Rightarrow> nat" where
  "hex_value c = (let n = (of_char c :: nat) in if n < 58 then n - 48 else n - 55)"

fun decode_uri_component :: "string \<Rightarrow> string" where
  "decode_uri_component (c # a # b # rest) =
     (if c = CHR ''%'' then char_of (16 * hex_value a + hex_value b) # decode_uri_component rest
      else c # decode_uri_component (a # b # rest))"
| "decode_uri_component (c # rest) = c # decode_uri_component rest"
| "decode_uri_component [] = []"

lemma of_char_less: "(of_char c :: nat) < 256"
  by (metis mod_less_divisor of_char_mod_256 zero_less_numeral)

lemma hex_value_digit [simp]: "n < 16 \<Longrightarrow> hex_value (hex_digit n) = n"
  by (simp add: hex_value_def hex_digit_def of_char_of)

lemma decode_percent: "decode_uri_component (percent c @ rest) = c # decode_uri_component rest"
proof -
  have "16 * (of_char c div 16) + of_char c mod 16 = (of_char c :: nat)" by simp
  moreover have "(of_char c :: nat) div 16 < 16" using of_char_less [of c] by linarith
  ultimately show ?thesis by (simp add: percent_def Let_def)
qed

lemma encode_char_percent: "encode_uri_char c = (if uri_unreserved c then [c] else percent c)"
  by (simp add: encode_uri_char_def percent_def)

lemma decode_plain: "c \<noteq> CHR ''%'' \<Longrightarrow> decode_uri_component (c # rest) = c # decode_uri_component rest"
  by (cases rest rule: decode_uri_component.cases) auto

lemma decode_encode_char: "decode_uri_component (encode_uri_char c @ rest) = c # decode_uri_component rest"
proof -
  have "uri_unreserved c \<Longrightarrow> c \<noteq> CHR ''%''" by (auto simp: uri_unreserved_def Let_def)
  then show ?thesis by (auto simp: encode_char_percent decode_percent decode_plain)
qed

lemma decode_encode [simp]: "decode_uri_component (encode_uri_component s) = s"
  by (induction s) (simp_all add: encode_uri_component_def decode_encode_char)

lemma encode_inj [simp]: "encode_uri_component s = encode_uri_component t \<longleftrightarrow> s = t"
  by (metis decode_encode)

section \<open>Safe segments\<close>

definition plain_segment :: "string \<Rightarrow> bool" where
  "plain_segment s \<longleftrightarrow> CHR ''/'' \<notin> set s \<and> CHR ''?'' \<notin> set s \<and> CHR ''#'' \<notin> set s"

lemma hex_digit_plain: "n < 16 \<Longrightarrow> hex_digit n \<noteq> CHR ''/'' \<and> hex_digit n \<noteq> CHR ''?'' \<and> hex_digit n \<noteq> CHR ''#''"
  by (auto simp: hex_digit_def dest: arg_cong [where f = "of_char :: char \<Rightarrow> nat"])

lemma encode_char_plain: "plain_segment (encode_uri_char c)"
proof -
  have "(of_char c :: nat) div 16 < 16" using of_char_less [of c] by linarith
  then have "plain_segment (percent c)"
    using hex_digit_plain [of "of_char c div 16"] hex_digit_plain [of "of_char c mod 16"]
    by (auto simp: plain_segment_def percent_def Let_def)
  moreover have "uri_unreserved c \<Longrightarrow> plain_segment [c]"
    by (auto simp: uri_unreserved_def plain_segment_def Let_def)
  ultimately show ?thesis by (simp add: encode_char_percent)
qed

lemma encode_plain [simp]: "plain_segment (encode_uri_component s)"
  using encode_char_plain by (auto simp: encode_uri_component_def plain_segment_def)

lemma encode_empty [simp]: "encode_uri_component s = [] \<longleftrightarrow> s = []"
  by (metis decode_encode decode_uri_component.simps(3) encode_uri_component_def concat.simps(1) list.simps(8))

lemma takeWhile_path: "\<forall>s \<in> set segs. plain_segment s \<Longrightarrow> c \<in> set (url_path segs) \<Longrightarrow> c \<noteq> CHR ''?''"
  by (auto simp: url_path_def plain_segment_def split: if_splits)

lemma split_path:
  "\<forall>s \<in> set (s0 # segs). plain_segment s \<Longrightarrow>
     split_on CHR ''/'' (s0 @ url_path segs) = s0 # segs"
  by (induction segs arbitrary: s0)
     (auto simp: url_path_def plain_segment_def split_on_no_sep split_on_id)

text \<open>The server reads back the segments, whatever query string follows.\<close>

lemma path_segments_url:
  assumes "segs \<noteq> []" "\<forall>s \<in> set segs. plain_segment s" "q = [] \<or> hd q = CHR ''?''"
  shows "path_segments (url_path segs @ q) = segs"
proof -
  obtain s0 rest where segs: "segs = s0 # rest" using assms(1) by (cases segs) auto
  have "takeWhile (\<lambda>c. c \<noteq> CHR ''?'') q = []" using assms(3) by (cases q) auto
  then have "takeWhile (\<lambda>c. c \<noteq> CHR ''?'') (url_path segs @ q) = url_path segs"
    using takeWhile_path [OF assms(2)] by (subst takeWhile_append2) auto
  then show ?thesis
    using split_path [of s0 rest] assms(2) segs by (simp add: path_segments_def url_path_def)
qed

lemma query_suffix_start [simp]: "query_suffix ps = [] \<or> hd (query_suffix ps) = CHR ''?''"
  by (simp add: query_suffix_def Let_def)

end
