(* ===== verification/ApiError.thy ===== *)
theory ApiError
  imports Prelude
begin

text \<open>
  The error values of the client: the class \<open>ApiError\<close> of \<open>web/src/lib/api.ts\<close>, and what a
  \<open>catch\<close> clause can receive, told apart the way the \<open>instanceof\<close> tests of the callers do.
\<close>

record api_error =
  ae_message :: string
  ae_status :: int
  ae_body :: "string option"

datatype thrown =
    ThrownApi api_error
  | ThrownMultiDocument string
  | ThrownYamlParse string
  | ThrownError string
  | ThrownOther string

text \<open>\<open>a || b\<close> on strings that may be missing: the first non-empty one.\<close>

fun or_str :: "string option \<Rightarrow> string \<Rightarrow> string" where
  "or_str (Some s) t = (if s \<noteq> [] then s else t)"
| "or_str None t = t"

text \<open>Optional chaining \<open>v?.k\<close>.\<close>

definition opt_prop :: "jsval \<Rightarrow> string \<Rightarrow> jsval" where
  "opt_prop v k = (if v = JUndefined \<or> v = JNull then JUndefined else get_prop v k)"

end
