(* ===== verification/ApiClient.thy ===== *)
theory ApiClient
  imports UrlCodec ApiError
begin

text \<open>
  Model of \<open>web/src/lib/api.ts\<close>: the request each function of the \<open>api\<close> object sends, in the
  order of the file, and what its fetch helpers make of the answer. A function of the object is
  a constructor that holds its parameters (abort signals left out); the request is a value with
  method, URL, headers and body. Kinds and namespaces are strings as in the URLs; the lists of
  kinds that the types of the file name are given below. The URLs of the log stream and of the
  exec sockets are at the end.
\<close>

section \<open>Requests and answers\<close>

datatype http_method = GET | POST | PUT | PATCH | DELETE

datatype http_body = JsonBody jsval | TextBody string

record http_request =
  hr_method :: http_method
  hr_url :: string
  hr_headers :: "(string \<times> string) list"
  hr_body :: "http_body option"

definition accept_json :: "string \<times> string" where
  "accept_json = (''Accept'', ''application/json'')"

definition get_json_with :: "(string \<times> string) list \<Rightarrow> string \<Rightarrow> http_request" where
  "get_json_with extra url =
     \<lparr>hr_method = GET, hr_url = url, hr_headers = accept_json # extra, hr_body = None\<rparr>"

abbreviation get_json :: "string \<Rightarrow> http_request" where
  "get_json \<equiv> get_json_with []"

definition send_json :: "http_method \<Rightarrow> string \<Rightarrow> jsval \<Rightarrow> http_request" where
  "send_json m url body =
     \<lparr>hr_method = m, hr_url = url,
      hr_headers = accept_json #
        (if body \<noteq> JUndefined then [(''Content-Type'', ''application/json'')] else []),
      hr_body = (if body \<noteq> JUndefined then Some (JsonBody body) else None)\<rparr>"

abbreviation post_json :: "string \<Rightarrow> jsval \<Rightarrow> http_request" where
  "post_json \<equiv> send_json POST"

abbreviation put_json :: "string \<Rightarrow> jsval \<Rightarrow> http_request" where
  "put_json \<equiv> send_json PUT"

definition delete_json :: "string \<Rightarrow> http_request" where
  "delete_json url = \<lparr>hr_method = DELETE, hr_url = url, hr_headers = [accept_json], hr_body = None\<rparr>"

definition get_text :: "string \<Rightarrow> http_request" where
  "get_text url = \<lparr>hr_method = GET, hr_url = url, hr_headers = [], hr_body = None\<rparr>"

text \<open>
  An answer: \<open>rs_text\<close> and \<open>rs_json\<close> are what the promises of those names give, or None when they
  reject.
\<close>

record http_response =
  rs_status :: int
  rs_status_text :: string
  rs_text :: "string option"
  rs_json :: "jsval option"

definition response_ok :: "http_response \<Rightarrow> bool" where
  "response_ok r \<longleftrightarrow> 200 \<le> rs_status r \<and> rs_status r \<le> 299"

definition failed_response :: "string \<Rightarrow> http_response \<Rightarrow> thrown" where
  "failed_response path r =
     ThrownApi \<lparr>ae_message = show_int (rs_status r) @ '' '' @ rs_status_text r @ '' on '' @ path,
       ae_status = rs_status r,
       ae_body = Some (case rs_text r of None \<Rightarrow> [] | Some t \<Rightarrow> t)\<rparr>"

definition read_json :: "string \<Rightarrow> http_response \<Rightarrow> thrown + jsval" where
  "read_json path r =
     (if \<not> response_ok r then Inl (failed_response path r)
      else case rs_json r of None \<Rightarrow> Inl (ThrownError ''SyntaxError'') | Some j \<Rightarrow> Inr j)"

definition read_text :: "string \<Rightarrow> http_response \<Rightarrow> thrown + string" where
  "read_text path r =
     (if \<not> response_ok r then Inl (failed_response path r)
      else case rs_text r of None \<Rightarrow> Inl (ThrownError ''TypeError'') | Some t \<Rightarrow> Inr t)"

text \<open>The three structured failures of the AWS surfaces.\<close>

definition coded_failure :: "int \<Rightarrow> string \<Rightarrow> thrown \<Rightarrow> bool" where
  "coded_failure status code err =
     (case err of
        ThrownApi e \<Rightarrow> ae_status e = status \<and>
          str_contains (case ae_body e of None \<Rightarrow> [] | Some t \<Rightarrow> t) code
      | _ \<Rightarrow> False)"

definition is_backend_not_eks :: "thrown \<Rightarrow> bool" where
  "is_backend_not_eks = coded_failure 422 ''E_BACKEND_NOT_EKS''"

definition is_aws_forbidden :: "thrown \<Rightarrow> bool" where
  "is_aws_forbidden = coded_failure 403 ''E_AWS_FORBIDDEN''"

definition is_aws_throttled :: "thrown \<Rightarrow> bool" where
  "is_aws_throttled = coded_failure 429 ''E_AWS_THROTTLED''"

section \<open>Paths\<close>

abbreviation enc :: "string \<Rightarrow> string" where
  "enc \<equiv> encode_uri_component"

abbreviation cluster_url :: "string \<Rightarrow> string list \<Rightarrow> string" where
  "cluster_url c segs \<equiv> url_path ([''api'', ''clusters'', enc c] @ segs)"

definition ns_url :: "string \<Rightarrow> string \<Rightarrow> string \<Rightarrow> string \<Rightarrow> string list \<Rightarrow> string" where
  "ns_url c kind ns name rest = cluster_url c ([kind, enc ns, enc name] @ rest)"

definition cluster_scoped_url :: "string \<Rightarrow> string \<Rightarrow> string \<Rightarrow> string list \<Rightarrow> string" where
  "cluster_scoped_url c kind name rest = cluster_url c ([kind, enc name] @ rest)"

definition cluster_scoped_kinds :: "string list" where
  "cluster_scoped_kinds =
     [''namespaces'', ''pvs'', ''storageclasses'', ''clusterroles'', ''clusterrolebindings'',
      ''ingressclasses'', ''priorityclasses'', ''runtimeclasses'', ''nodes'']"

definition is_cluster_scoped_kind :: "string \<Rightarrow> bool" where
  "is_cluster_scoped_kind k \<longleftrightarrow> k \<in> set cluster_scoped_kinds"

definition yaml_kinds :: "string list" where
  "yaml_kinds =
     [''pods'', ''deployments'', ''statefulsets'', ''daemonsets'', ''services'', ''ingresses'',
      ''configmaps'', ''secrets'', ''jobs'', ''cronjobs'', ''namespaces'', ''pvcs'', ''pvs'',
      ''storageclasses'', ''roles'', ''clusterroles'', ''rolebindings'', ''clusterrolebindings'',
      ''serviceaccounts'', ''horizontalpodautoscalers'', ''poddisruptionbudgets'', ''replicasets'',
      ''networkpolicies'', ''endpointslices'', ''ingressclasses'', ''resourcequotas'',
      ''limitranges'', ''priorityclasses'', ''runtimeclasses'', ''nodes'']"

definition namespace_query :: "string option \<Rightarrow> string" where
  "namespace_query ns =
     (case ns of None \<Rightarrow> [] | Some n \<Rightarrow> if n \<noteq> [] then ''?namespace='' @ enc n else [])"

section \<open>Session, search, audit and custom resources\<close>

datatype core_call =
    Whoami
  | Features
  | ClusterSummary string
  | Search string string "string list option" "int option"
  | Clusters
  | Fleet
  | CanI string jsval
  | Audit entries
  | Crds string
  | CustomResources string string string string "string option"
  | GetCustomResource string string string string "string option" string
  | GetCustomResourceYaml string string string string "string option" string

definition search_params :: "string \<Rightarrow> string list option \<Rightarrow> int option \<Rightarrow> params" where
  "search_params query kinds limit =
     (let p0 = [(''q'', query)];
          p1 = (case kinds of Some ks \<Rightarrow> if ks \<noteq> [] then param_set ''kinds'' (join_str '','' ks) p0 else p0
                | None \<Rightarrow> p0)
      in case limit of Some n \<Rightarrow> if n \<noteq> 0 then param_set ''limit'' (show_int n) p1 else p1
         | None \<Rightarrow> p1)"

definition audit_params :: "entries \<Rightarrow> params" where
  "audit_params ps =
     fold (\<lambda>(k, v) q. if v \<in> {JUndefined, JNull, JStr []} then q else param_set k (js_to_string v) q)
       ps []"

definition cr_namespace :: "string option \<Rightarrow> string" where
  "cr_namespace ns = (case ns of None \<Rightarrow> ''_'' | Some n \<Rightarrow> if n \<noteq> [] then n else ''_'')"

fun core_request :: "core_call \<Rightarrow> http_request" where
  "core_request Whoami = get_json (url_path [''api'', ''whoami''])"
| "core_request Features = get_json (url_path [''api'', ''features''])"
| "core_request (ClusterSummary c) = get_json (cluster_url c [''dashboard''])"
| "core_request (Search c query kinds limit) =
     get_json (cluster_url c [''search''] @ ''?'' @ params_to_string (search_params query kinds limit))"
| "core_request Clusters = get_json (url_path [''api'', ''clusters''])"
| "core_request Fleet = get_json (url_path [''api'', ''fleet''])"
| "core_request (CanI c checks) = post_json (cluster_url c [''can-i'']) (JObj [(''checks'', checks)])"
| "core_request (Audit ps) = get_json (url_path [''api'', ''audit''] @ query_suffix (audit_params ps))"
| "core_request (Crds c) = get_json (cluster_url c [''crds''])"
| "core_request (CustomResources c g v p ns) =
     get_json (cluster_url c [''customresources'', enc g, enc v, enc p] @ namespace_query ns)"
| "core_request (GetCustomResource c g v p ns name) =
     get_json (cluster_url c [''customresources'', enc g, enc v, enc p, enc (cr_namespace ns), enc name])"
| "core_request (GetCustomResourceYaml c g v p ns name) =
     get_text (cluster_url c
       [''customresources'', enc g, enc v, enc p, enc (cr_namespace ns), enc name, ''yaml''])"

section \<open>Lists\<close>

text \<open>
  The functions that list a kind: each names its URL segment and whether it takes a namespace.
\<close>

datatype list_fn =
    FnNodes | FnNamespaces | FnPods | FnDeployments | FnStatefulSets | FnDaemonSets | FnServices
  | FnIngresses | FnConfigMaps | FnSecrets | FnJobs | FnCronJobs | FnClusterEvents | FnPVCs | FnPVs
  | FnStorageClasses

fun list_segment :: "list_fn \<Rightarrow> string" where
  "list_segment FnNodes = ''nodes''"
| "list_segment FnNamespaces = ''namespaces''"
| "list_segment FnPods = ''pods''"
| "list_segment FnDeployments = ''deployments''"
| "list_segment FnStatefulSets = ''statefulsets''"
| "list_segment FnDaemonSets = ''daemonsets''"
| "list_segment FnServices = ''services''"
| "list_segment FnIngresses = ''ingresses''"
| "list_segment FnConfigMaps = ''configmaps''"
| "list_segment FnSecrets = ''secrets''"
| "list_segment FnJobs = ''jobs''"
| "list_segment FnCronJobs = ''cronjobs''"
| "list_segment FnClusterEvents = ''events''"
| "list_segment FnPVCs = ''pvcs''"
| "list_segment FnPVs = ''pvs''"
| "list_segment FnStorageClasses = ''storageclasses''"

fun list_request :: "list_fn \<Rightarrow> string \<Rightarrow> string option \<Rightarrow> http_request" where
  "list_request FnNodes c ns = get_json (cluster_url c [''nodes''])"
| "list_request FnNamespaces c ns = get_json (cluster_url c [''namespaces''])"
| "list_request FnPVs c ns = get_json (cluster_url c [''pvs''])"
| "list_request FnStorageClasses c ns = get_json (cluster_url c [''storageclasses''])"
| "list_request fn c ns = get_json (cluster_url c [list_segment fn] @ namespace_query ns)"

section \<open>Details\<close>

text \<open>
  The functions that get one object: those of namespaced kinds take the namespace and the name,
  the others the name.
\<close>

datatype detail_call =
    GetPod string string string
  | GetDeployment string string string
  | GetStatefulSet string string string
  | GetDaemonSet string string string
  | GetService string string string
  | GetIngress string string string
  | GetConfigMap string string string
  | GetSecret string string string
  | GetJob string string string
  | GetCronJob string string string
  | GetNode string string
  | GetNodeMetrics string string
  | GetPodMetrics string string string
  | GetNamespace string string
  | GetPVC string string string
  | GetPV string string
  | GetStorageClass string string

fun detail_request :: "detail_call \<Rightarrow> http_request" where
  "detail_request (GetPod c ns name) = get_json (ns_url c ''pods'' ns name [])"
| "detail_request (GetDeployment c ns name) = get_json (ns_url c ''deployments'' ns name [])"
| "detail_request (GetStatefulSet c ns name) = get_json (ns_url c ''statefulsets'' ns name [])"
| "detail_request (GetDaemonSet c ns name) = get_json (ns_url c ''daemonsets'' ns name [])"
| "detail_request (GetService c ns name) = get_json (ns_url c ''services'' ns name [])"
| "detail_request (GetIngress c ns name) = get_json (ns_url c ''ingresses'' ns name [])"
| "detail_request (GetConfigMap c ns name) = get_json (ns_url c ''configmaps'' ns name [])"
| "detail_request (GetSecret c ns name) = get_json (ns_url c ''secrets'' ns name [])"
| "detail_request (GetJob c ns name) = get_json (ns_url c ''jobs'' ns name [])"
| "detail_request (GetCronJob c ns name) = get_json (ns_url c ''cronjobs'' ns name [])"
| "detail_request (GetNode c name) = get_json (cluster_scoped_url c ''nodes'' name [])"
| "detail_request (GetNodeMetrics c name) = get_json (cluster_scoped_url c ''nodes'' name [''metrics''])"
| "detail_request (GetPodMetrics c ns name) = get_json (ns_url c ''pods'' ns name [''metrics''])"
| "detail_request (GetNamespace c name) = get_json (cluster_scoped_url c ''namespaces'' name [])"
| "detail_request (GetPVC c ns name) = get_json (ns_url c ''pvcs'' ns name [])"
| "detail_request (GetPV c name) = get_json (cluster_scoped_url c ''pvs'' name [])"
| "detail_request (GetStorageClass c name) = get_json (cluster_scoped_url c ''storageclasses'' name [])"

section \<open>Access control\<close>

datatype access_call =
    Roles string "string option"
  | GetRoles string string string
  | ClusterRoles string
  | GetClusterRole string string
  | RoleBindings string "string option"
  | GetRoleBinding string string string
  | ClusterRoleBindings string
  | GetClusterRoleBinding string string
  | ServiceAccounts string "string option"
  | GetServiceAccount string string string

fun access_request :: "access_call \<Rightarrow> http_request" where
  "access_request (Roles c ns) = get_json (cluster_url c [''roles''] @ namespace_query ns)"
| "access_request (GetRoles c ns name) = get_json (ns_url c ''roles'' ns name [])"
| "access_request (ClusterRoles c) = get_json (cluster_url c [''clusterroles''])"
| "access_request (GetClusterRole c name) = get_json (cluster_scoped_url c ''clusterroles'' name [])"
| "access_request (RoleBindings c ns) = get_json (cluster_url c [''rolebindings''] @ namespace_query ns)"
| "access_request (GetRoleBinding c ns name) = get_json (ns_url c ''rolebindings'' ns name [])"
| "access_request (ClusterRoleBindings c) = get_json (cluster_url c [''clusterrolebindings''])"
| "access_request (GetClusterRoleBinding c name) =
     get_json (cluster_scoped_url c ''clusterrolebindings'' name [])"
| "access_request (ServiceAccounts c ns) =
     get_json (cluster_url c [''serviceaccounts''] @ namespace_query ns)"
| "access_request (GetServiceAccount c ns name) = get_json (ns_url c ''serviceaccounts'' ns name [])"

section \<open>Secret values, YAML and events of an object\<close>

datatype object_call =
    GetSecretValue string string string string
  | Yaml string string string string
  | NamespaceYaml string string
  | ClusterScopedYaml string string string
  | Events string string string string
  | NamespaceEvents string string
  | ClusterScopedEvents string string string

fun object_request :: "object_call \<Rightarrow> http_request" where
  "object_request (GetSecretValue c ns name key) =
     get_text (cluster_url c [''secrets'', enc ns, enc name, ''data'', enc key])"
| "object_request (Yaml c kind ns name) = get_text (ns_url c kind ns name [''yaml''])"
| "object_request (NamespaceYaml c name) =
     get_text (cluster_scoped_url c ''namespaces'' name [''yaml''])"
| "object_request (ClusterScopedYaml c kind name) =
     get_text (cluster_scoped_url c kind name [''yaml''])"
| "object_request (Events c kind ns name) = get_json (ns_url c kind ns name [''events''])"
| "object_request (NamespaceEvents c name) =
     get_json (cluster_scoped_url c ''namespaces'' name [''events''])"
| "object_request (ClusterScopedEvents c kind name) =
     get_json (cluster_scoped_url c kind name [''events''])"

text \<open>\<open>useObjectEvents\<close> picks the call by the scope of the kind.\<close>

definition object_events :: "string \<Rightarrow> string \<Rightarrow> string \<Rightarrow> string \<Rightarrow> object_call" where
  "object_events c kind ns name =
     (if is_cluster_scoped_kind kind then ClusterScopedEvents c kind name else Events c kind ns name)"

section \<open>Further kinds\<close>

datatype extra_call =
    HorizontalPodAutoscalers string "string option"
  | PodDisruptionBudgets string "string option"
  | ReplicaSets string "string option"
  | NetworkPolicies string "string option"
  | EndpointSlices string "string option"
  | ResourceQuotas string "string option"
  | LimitRanges string "string option"
  | IngressClasses string
  | PriorityClasses string
  | RuntimeClasses string
  | GetHPA string string string
  | GetPDB string string string
  | GetReplicaSet string string string
  | GetNetworkPolicy string string string
  | GetEndpointSlice string string string
  | GetResourceQuota string string string
  | GetLimitRange string string string
  | GetIngressClass string string
  | GetPriorityClass string string
  | GetRuntimeClass string string

fun extra_request :: "extra_call \<Rightarrow> http_request" where
  "extra_request (HorizontalPodAutoscalers c ns) =
     get_json (cluster_url c [''horizontalpodautoscalers''] @ namespace_query ns)"
| "extra_request (PodDisruptionBudgets c ns) =
     get_json (cluster_url c [''poddisruptionbudgets''] @ namespace_query ns)"
| "extra_request (ReplicaSets c ns) = get_json (cluster_url c [''replicasets''] @ namespace_query ns)"
| "extra_request (NetworkPolicies c ns) =
     get_json (cluster_url c [''networkpolicies''] @ namespace_query ns)"
| "extra_request (EndpointSlices c ns) =
     get_json (cluster_url c [''endpointslices''] @ namespace_query ns)"
| "extra_request (ResourceQuotas c ns) =
     get_json (cluster_url c [''resourcequotas''] @ namespace_query ns)"
| "extra_request (LimitRanges c ns) = get_json (cluster_url c [''limitranges''] @ namespace_query ns)"
| "extra_request (IngressClasses c) = get_json (cluster_url c [''ingressclasses''])"
| "extra_request (PriorityClasses c) = get_json (cluster_url c [''priorityclasses''])"
| "extra_request (RuntimeClasses c) = get_json (cluster_url c [''runtimeclasses''])"
| "extra_request (GetHPA c ns name) = get_json (ns_url c ''horizontalpodautoscalers'' ns name [])"
| "extra_request (GetPDB c ns name) = get_json (ns_url c ''poddisruptionbudgets'' ns name [])"
| "extra_request (GetReplicaSet c ns name) = get_json (ns_url c ''replicasets'' ns name [])"
| "extra_request (GetNetworkPolicy c ns name) = get_json (ns_url c ''networkpolicies'' ns name [])"
| "extra_request (GetEndpointSlice c ns name) = get_json (ns_url c ''endpointslices'' ns name [])"
| "extra_request (GetResourceQuota c ns name) = get_json (ns_url c ''resourcequotas'' ns name [])"
| "extra_request (GetLimitRange c ns name) = get_json (ns_url c ''limitranges'' ns name [])"
| "extra_request (GetIngressClass c name) = get_json (cluster_scoped_url c ''ingressclasses'' name [])"
| "extra_request (GetPriorityClass c name) = get_json (cluster_scoped_url c ''priorityclasses'' name [])"
| "extra_request (GetRuntimeClass c name) = get_json (cluster_scoped_url c ''runtimeclasses'' name [])"

section \<open>Writing objects\<close>

record resource_ref =
  rf_cluster :: string
  rf_group :: string
  rf_version :: string
  rf_resource :: string
  rf_namespace :: "string option"
  rf_name :: string

definition resource_segments :: "resource_ref \<Rightarrow> string list" where
  "resource_segments r =
     (let g = (if rf_group r = [] then ''core'' else rf_group r);
          base = [''resources'', enc g, enc (rf_version r), enc (rf_resource r)]
      in case rf_namespace r of
           None \<Rightarrow> base @ [enc (rf_name r)]
         | Some ns \<Rightarrow> if ns \<noteq> [] then base @ [enc ns, enc (rf_name r)] else base @ [enc (rf_name r)])"

definition resource_url :: "resource_ref \<Rightarrow> string" where
  "resource_url r = cluster_url (rf_cluster r) (resource_segments r)"

definition meta_url :: "resource_ref \<Rightarrow> string" where
  "meta_url r = resource_url r @ ''/meta''"

definition open_api_url :: "string \<Rightarrow> string \<Rightarrow> string \<Rightarrow> string" where
  "open_api_url c g v =
     (if g = [] then cluster_url c [''openapi'', ''v3'', ''api'', enc v]
      else cluster_url c [''openapi'', ''v3'', ''apis'', enc g, enc v])"

definition apply_params :: "bool \<Rightarrow> bool \<Rightarrow> params" where
  "apply_params dry_run force =
     (let p = (if dry_run then [(''dryRun'', ''true'')] else [])
      in if force then param_set ''force'' ''true'' p else p)"

definition apply_resource_fetch :: "resource_ref \<Rightarrow> string \<Rightarrow> bool \<Rightarrow> bool \<Rightarrow> http_request" where
  "apply_resource_fetch r yaml dry_run force =
     \<lparr>hr_method = PATCH, hr_url = resource_url r @ query_suffix (apply_params dry_run force),
      hr_headers = [(''Content-Type'', ''application/yaml''), accept_json],
      hr_body = Some (TextBody yaml)\<rparr>"

definition delete_resource_fetch :: "resource_ref \<Rightarrow> http_request" where
  "delete_resource_fetch r =
     \<lparr>hr_method = DELETE, hr_url = resource_url r, hr_headers = [accept_json], hr_body = None\<rparr>"

text \<open>A deletion succeeds with no value.\<close>

definition read_delete :: "string \<Rightarrow> http_response \<Rightarrow> thrown + unit" where
  "read_delete url r = (if \<not> response_ok r then Inl (failed_response url r) else Inr ())"

datatype write_call =
    ApplyResource resource_ref string bool bool
  | DeleteResource resource_ref
  | GetMeta resource_ref
  | GetOpenApiSchema string string string
  | RevealSecretKey string string string string
  | TriggerCronJob string string string

fun write_request :: "write_call \<Rightarrow> http_request" where
  "write_request (ApplyResource r yaml dry_run force) = apply_resource_fetch r yaml dry_run force"
| "write_request (DeleteResource r) = delete_resource_fetch r"
| "write_request (GetMeta r) = get_json (meta_url r)"
| "write_request (GetOpenApiSchema c g v) = get_json (open_api_url c g v)"
| "write_request (RevealSecretKey c ns name key) =
     get_text (ns_url c ''secrets'' ns name [''data'', enc key])"
| "write_request (TriggerCronJob c ns name) =
     post_json (cluster_url c [''cronjobs'', enc ns, enc name, ''trigger'']) JUndefined"

section \<open>Helm\<close>

abbreviation release_url :: "string \<Rightarrow> string \<Rightarrow> string \<Rightarrow> string list \<Rightarrow> string" where
  "release_url c ns name rest \<equiv> cluster_url c ([''helm'', ''releases'', enc ns, enc name] @ rest)"

datatype helm_call =
    HelmReleases string
  | HelmRelease string string string "int option"
  | HelmHistory string string string
  | HelmDiff string string string int int
  | ChartVersions string string string bool
  | ChartValues string jsval bool
  | HelmInstallPreview string jsval
  | HelmUpgradePreview string string string jsval

definition helm_diff_params :: "int \<Rightarrow> int \<Rightarrow> params" where
  "helm_diff_params from_rev to_rev =
     (let p = (if 0 < from_rev then [(''from'', show_int from_rev)] else [])
      in if 0 < to_rev then param_set ''to'' (show_int to_rev) p else p)"

definition chart_params :: "string \<Rightarrow> string \<Rightarrow> bool \<Rightarrow> params" where
  "chart_params ref chart nocache =
     (let p0 = [(''ref'', ref)];
          p1 = (if chart \<noteq> [] then param_set ''chart'' chart p0 else p0)
      in if nocache then param_set ''nocache'' ''true'' p1 else p1)"

fun helm_request :: "helm_call \<Rightarrow> http_request" where
  "helm_request (HelmReleases c) = get_json (cluster_url c [''helm'', ''releases''])"
| "helm_request (HelmRelease c ns name revision) =
     get_json (release_url c ns name [] @
       (case revision of None \<Rightarrow> []
        | Some n \<Rightarrow> if 0 < n then ''?revision='' @ show_int n else []))"
| "helm_request (HelmHistory c ns name) = get_json (release_url c ns name [''history''])"
| "helm_request (HelmDiff c ns name from_rev to_rev) =
     get_json (release_url c ns name [''diff''] @ ''?'' @
       params_to_string (helm_diff_params from_rev to_rev))"
| "helm_request (ChartVersions c ref chart nocache) =
     get_json (cluster_url c [''helm'', ''chart'', ''versions''] @ ''?'' @
       params_to_string (chart_params ref chart nocache))"
| "helm_request (ChartValues c body nocache) =
     post_json (cluster_url c [''helm'', ''chart'', ''values''] @
       (if nocache then ''?nocache=true'' else [])) body"
| "helm_request (HelmInstallPreview c body) =
     post_json (cluster_url c [''helm'', ''install-preview'']) body"
| "helm_request (HelmUpgradePreview c ns name body) =
     post_json (release_url c ns name [''upgrade-preview'']) body"

datatype helm_action =
    HelmInstall string jsval
  | HelmUpgrade string string string jsval
  | HelmUninstall string string string bool bool
  | HelmRollback string string string jsval

definition uninstall_params :: "bool \<Rightarrow> bool \<Rightarrow> params" where
  "uninstall_params keep_history disable_hooks =
     (let p = (if keep_history then [(''keepHistory'', ''true'')] else [])
      in if disable_hooks then param_set ''disableHooks'' ''true'' p else p)"

fun helm_action_request :: "helm_action \<Rightarrow> http_request" where
  "helm_action_request (HelmInstall c body) = post_json (cluster_url c [''helm'', ''install'']) body"
| "helm_action_request (HelmUpgrade c ns name body) = post_json (release_url c ns name [''upgrade'']) body"
| "helm_action_request (HelmUninstall c ns name keep_history disable_hooks) =
     delete_json (release_url c ns name [] @ query_suffix (uninstall_params keep_history disable_hooks))"
| "helm_action_request (HelmRollback c ns name body) =
     post_json (release_url c ns name [''rollback'']) body"

section \<open>Rollouts\<close>

definition rollbackable_kinds :: "string list" where
  "rollbackable_kinds = [''deployments'', ''statefulsets'', ''daemonsets'']"

definition is_rollbackable :: "string \<Rightarrow> bool" where
  "is_rollbackable kind \<longleftrightarrow> kind \<in> set rollbackable_kinds"

datatype rollout_call =
    Revisions string string string string
  | Rollback string string string string jsval

fun rollout_request :: "rollout_call \<Rightarrow> http_request" where
  "rollout_request (Revisions c kind ns name) =
     get_json (cluster_url c [enc kind, enc ns, enc name, ''revisions''])"
| "rollout_request (Rollback c kind ns name body) =
     post_json (cluster_url c [enc kind, enc ns, enc name, ''rollback'']) body"

section \<open>EKS and Karpenter\<close>

datatype eks_call =
    UpgradeInsights string
  | UpgradeInsight string string
  | Karpenter string
  | KarpenterAvailability string
  | Nodegroups string
  | Nodegroup string string
  | Addons string
  | Addon string string
  | AddonCatalog string
  | AddonConfigurationSchema string string string
  | InstallAddon string jsval
  | UpgradeAddon string string jsval
  | DeleteAddon string string bool

fun eks_request :: "eks_call \<Rightarrow> http_request" where
  "eks_request (UpgradeInsights c) = get_json (cluster_url c [''eks'', ''upgrade-insights''])"
| "eks_request (UpgradeInsight c i) = get_json (cluster_url c [''eks'', ''upgrade-insights'', enc i])"
| "eks_request (Karpenter c) = get_json (cluster_url c [''karpenter''])"
| "eks_request (KarpenterAvailability c) = get_json (cluster_url c [''karpenter'', ''availability''])"
| "eks_request (Nodegroups c) = get_json (cluster_url c [''eks'', ''nodegroups''])"
| "eks_request (Nodegroup c name) = get_json (cluster_url c [''eks'', ''nodegroups'', enc name])"
| "eks_request (Addons c) = get_json (cluster_url c [''eks'', ''addons''])"
| "eks_request (Addon c name) = get_json (cluster_url c [''eks'', ''addons'', enc name])"
| "eks_request (AddonCatalog c) = get_json (cluster_url c [''eks'', ''addons'', ''catalog''])"
| "eks_request (AddonConfigurationSchema c name version) =
     get_json (cluster_url c [''eks'', ''addons'', ''catalog'', enc name, ''configuration''] @
       ''?version='' @ enc version)"
| "eks_request (InstallAddon c req) = post_json (cluster_url c [''eks'', ''addons'']) req"
| "eks_request (UpgradeAddon c name req) = put_json (cluster_url c [''eks'', ''addons'', enc name]) req"
| "eks_request (DeleteAddon c name preserve) =
     delete_json (cluster_url c [''eks'', ''addons'', enc name] @ (if preserve then ''?preserve=true'' else []))"

section \<open>AWS identity\<close>

datatype identity_call =
    AccessEntries string
  | AwsAuthDiff string
  | SARoles string
  | PodIdentity string
  | WorkloadPermissions string string string string
  | ReverseLookup string string "string option" "string option"
  | SensitiveCatalog
  | Capabilities string bool

definition reverse_lookup_params :: "string \<Rightarrow> string option \<Rightarrow> string option \<Rightarrow> params" where
  "reverse_lookup_params act resource ns =
     (let put = (\<lambda>k v p. case v of None \<Rightarrow> p | Some x \<Rightarrow> if x \<noteq> [] then param_set k x p else p)
      in put ''namespace'' ns (put ''resource'' resource [(''action'', act)]))"

fun identity_request :: "identity_call \<Rightarrow> http_request" where
  "identity_request (AccessEntries c) = get_json (cluster_url c [''identity'', ''access-entries''])"
| "identity_request (AwsAuthDiff c) = get_json (cluster_url c [''identity'', ''aws-auth-diff''])"
| "identity_request (SARoles c) = get_json (cluster_url c [''identity'', ''sa-roles''])"
| "identity_request (PodIdentity c) = get_json (cluster_url c [''identity'', ''pod-identity''])"
| "identity_request (WorkloadPermissions c kind ns name) =
     get_json (cluster_url c [''identity'', ''workload-permissions''] @ ''?'' @
       params_to_string [(''kind'', kind), (''namespace'', ns), (''name'', name)])"
| "identity_request (ReverseLookup c act resource ns) =
     get_json (cluster_url c [''iam'', ''reverse-lookup''] @ ''?'' @
       params_to_string (reverse_lookup_params act resource ns))"
| "identity_request SensitiveCatalog = get_json (url_path [''api'', ''identity'', ''sensitive-catalog''])"
| "identity_request (Capabilities c bypass) =
     get_json_with (if bypass then [(''Cache-Control'', ''no-cache'')] else [])
       (cluster_url c [''identity'', ''capabilities''])"

section \<open>Vulnerabilities\<close>

datatype cve_call =
    CveStatus string
  | CveByInstance string
  | CveByInstanceOne string string
  | CveByDigest string string
  | CvePodsPage string "string option"
  | CvePodDetail string string string
  | CveByWorkload string string string string
  | CveRefresh string jsval

fun cve_request :: "cve_call \<Rightarrow> http_request" where
  "cve_request (CveStatus c) = get_json (cluster_url c [''cve'', ''status''])"
| "cve_request (CveByInstance c) = get_json (cluster_url c [''cve'', ''by-instance''])"
| "cve_request (CveByInstanceOne c i) = get_json (cluster_url c [''cve'', ''by-instance'', enc i])"
| "cve_request (CveByDigest c digest) = get_json (cluster_url c [''cve'', ''by-digest'', enc digest])"
| "cve_request (CvePodsPage c cursor) =
     get_json (cluster_url c [''cve'', ''pods''] @
       (case cursor of None \<Rightarrow> [] | Some k \<Rightarrow> if k \<noteq> [] then ''?cursor='' @ enc k else []))"
| "cve_request (CvePodDetail c ns name) = get_json (cluster_url c [''cve'', ''pods'', enc ns, enc name])"
| "cve_request (CveByWorkload c kind ns name) =
     get_json (cluster_url c [''cve'', ''by-workload'', enc kind, enc ns, enc name])"
| "cve_request (CveRefresh c body) = post_json (cluster_url c [''cve'', ''refresh'']) body"

section \<open>Agents and the download audit\<close>

definition mint_agent_token :: "string \<Rightarrow> http_request" where
  "mint_agent_token c =
     \<lparr>hr_method = POST, hr_url = url_path [''api'', ''agents'', ''tokens''],
      hr_headers = [accept_json, (''Content-Type'', ''application/json'')],
      hr_body = Some (JsonBody (JObj [(''cluster'', JStr c)]))\<rparr>"

record bulk_audit_body =
  ba_kind :: string
  ba_count :: int
  ba_ids :: "string list"
  ba_success :: bool
  ba_failures :: int

definition record_bulk_download :: "string \<Rightarrow> bulk_audit_body \<Rightarrow> http_request" where
  "record_bulk_download c b =
     \<lparr>hr_method = POST, hr_url = cluster_url c [''audit'', ''bulk-download''],
      hr_headers = [(''Content-Type'', ''application/json'')],
      hr_body = Some (JsonBody (JObj
        [(''kind'', JStr (ba_kind b)), (''count'', JNum (ba_count b)),
         (''ids'', JArr (map JStr (ba_ids b))),
         (''outcome'', JStr (if ba_success b then ''success'' else ''failure'')),
         (''failure_count'', JNum (ba_failures b))]))\<rparr>"

section \<open>Log streams and exec sockets\<close>

datatype log_source_kind = LogPod | LogDeployment | LogStatefulSet | LogDaemonSet | LogJob

fun source_path :: "log_source_kind \<Rightarrow> string" where
  "source_path LogPod = ''pods''"
| "source_path LogDeployment = ''deployments''"
| "source_path LogStatefulSet = ''statefulsets''"
| "source_path LogDaemonSet = ''daemonsets''"
| "source_path LogJob = ''jobs''"

definition log_url :: "log_source_kind \<Rightarrow> string \<Rightarrow> string \<Rightarrow> string \<Rightarrow> params \<Rightarrow> string" where
  "log_url kind c ns name ps =
     cluster_url c [source_path kind, enc ns, enc name, ''logs''] @ query_suffix ps"

definition ws_url :: "bool \<Rightarrow> string \<Rightarrow> string \<Rightarrow> params \<Rightarrow> string" where
  "ws_url https host path q = (if https then ''wss'' else ''ws'') @ ''://'' @ host @ path @ query_suffix q"

text \<open>
  The path and the parameters of the three exec sockets; \<open>JSON.stringify\<close> of the command is an
  argument.
\<close>

definition url_safe_base64 :: "string \<Rightarrow> string" where
  "url_safe_base64 b =
     rev (dropWhile (\<lambda>c. c = CHR ''='')
       (rev (map (\<lambda>c. if c = CHR ''+'' then CHR ''-'' else if c = CHR ''/'' then CHR ''_'' else c) b)))"

definition exec_path :: "string \<Rightarrow> string \<Rightarrow> string \<Rightarrow> string" where
  "exec_path c ns pod = cluster_url c [''pods'', enc ns, enc pod, ''exec'']"

definition exec_params ::
    "(string list \<Rightarrow> string) \<Rightarrow> string option \<Rightarrow> string list option \<Rightarrow> bool option \<Rightarrow> params" where
  "exec_params stringify container command tty =
     (let p0 = (case container of None \<Rightarrow> [] | Some k \<Rightarrow> if k \<noteq> [] then [(''container'', k)] else []);
          p1 = (case command of None \<Rightarrow> p0
                | Some cmd \<Rightarrow> if cmd \<noteq> []
                    then param_set ''command'' (url_safe_base64 (btoa (stringify cmd))) p0 else p0)
      in if tty = Some False then param_set ''tty'' ''false'' p1 else p1)"

definition cluster_shell_path :: "string \<Rightarrow> string" where
  "cluster_shell_path c = cluster_url c [''shell'']"

definition node_shell_path :: "string \<Rightarrow> string \<Rightarrow> string" where
  "node_shell_path c node = cluster_url c [''nodes'', enc node, ''shell'']"

definition build_exec_url ::
    "(string list \<Rightarrow> string) \<Rightarrow> bool \<Rightarrow> string \<Rightarrow> string \<Rightarrow> string \<Rightarrow> string \<Rightarrow> string option \<Rightarrow>
     string list option \<Rightarrow> bool option \<Rightarrow> string" where
  "build_exec_url stringify https host c ns pod container command tty =
     ws_url https host (exec_path c ns pod) (exec_params stringify container command tty)"

definition build_cluster_shell_url :: "bool \<Rightarrow> string \<Rightarrow> string \<Rightarrow> string \<Rightarrow> string" where
  "build_cluster_shell_url https host c mode =
     ws_url https host (cluster_shell_path c) [(''mode'', mode)]"

definition build_node_shell_url :: "bool \<Rightarrow> string \<Rightarrow> string \<Rightarrow> string \<Rightarrow> string" where
  "build_node_shell_url https host c node = ws_url https host (node_shell_path c node) []"

end
