(* ===== verification/ApiRoutes.thy ===== *)
theory ApiRoutes
  imports ApiClient
begin

text \<open>
  The route table of the server (\<open>cmd/periscope/main.go\<close>) and its contract with the console:
  which requests of the client are registered. A route is a method and a pattern, split at the
  slashes, of literals, parameters (one non-empty segment) and the wildcard of the OpenAPI proxy.
  Routes that differ only in the kind are listed by their kinds.
\<close>

section \<open>Patterns\<close>

datatype route_seg = Lit string | Param | Wildcard

fun fits :: "route_seg list \<Rightarrow> string list \<Rightarrow> bool" where
  "fits [] ss \<longleftrightarrow> ss = []"
| "fits (Wildcard # ps) ss \<longleftrightarrow> True"
| "fits (Lit l # ps) ss \<longleftrightarrow> (case ss of [] \<Rightarrow> False | s # rest \<Rightarrow> s = l \<and> fits ps rest)"
| "fits (Param # ps) ss \<longleftrightarrow> (case ss of [] \<Rightarrow> False | s # rest \<Rightarrow> s \<noteq> [] \<and> fits ps rest)"

type_synonym route = "http_method \<times> route_seg list"

section \<open>The table\<close>

definition global_routes :: "route list" where
  "global_routes =
     [(GET, [Lit ''api'', Lit ''whoami'']), (GET, [Lit ''api'', Lit ''clusters'']),
      (GET, [Lit ''api'', Lit ''features'']), (GET, [Lit ''api'', Lit ''audit'']),
      (GET, [Lit ''api'', Lit ''fleet'']),
      (GET, [Lit ''api'', Lit ''identity'', Lit ''sensitive-catalog'']),
      (POST, [Lit ''api'', Lit ''agents'', Lit ''tokens''])]"

text \<open>The patterns below \<open>/api/clusters/{cluster}\<close>.\<close>

definition listed_kinds :: "string list" where
  "listed_kinds =
     [''nodes'', ''namespaces'', ''pods'', ''deployments'', ''statefulsets'', ''daemonsets'',
      ''services'', ''ingresses'', ''configmaps'', ''secrets'', ''jobs'', ''cronjobs'',
      ''pvcs'', ''pvs'', ''storageclasses'', ''roles'', ''clusterroles'', ''rolebindings'',
      ''clusterrolebindings'', ''serviceaccounts'', ''horizontalpodautoscalers'',
      ''poddisruptionbudgets'', ''replicasets'', ''networkpolicies'', ''endpointslices'',
      ''resourcequotas'', ''limitranges'', ''ingressclasses'', ''priorityclasses'',
      ''runtimeclasses'']"

definition namespaced_kinds :: "string list" where
  "namespaced_kinds =
     [''pods'', ''deployments'', ''statefulsets'', ''daemonsets'', ''services'', ''ingresses'',
      ''configmaps'', ''secrets'', ''jobs'', ''cronjobs'', ''pvcs'', ''roles'',
      ''rolebindings'', ''serviceaccounts'', ''horizontalpodautoscalers'',
      ''poddisruptionbudgets'', ''replicasets'', ''networkpolicies'', ''endpointslices'',
      ''resourcequotas'', ''limitranges'']"

definition cluster_wide_kinds :: "string list" where
  "cluster_wide_kinds =
     [''namespaces'', ''pvs'', ''storageclasses'', ''clusterroles'', ''clusterrolebindings'',
      ''ingressclasses'', ''priorityclasses'', ''runtimeclasses'', ''nodes'']"

definition namespaced_event_kinds :: "string list" where
  "namespaced_event_kinds =
     [''pods'', ''deployments'', ''statefulsets'', ''daemonsets'', ''services'', ''ingresses'',
      ''configmaps'', ''secrets'', ''jobs'', ''cronjobs'', ''pvcs'',
      ''horizontalpodautoscalers'', ''poddisruptionbudgets'', ''replicasets'',
      ''networkpolicies'', ''endpointslices'', ''resourcequotas'', ''limitranges'']"

definition cluster_event_kinds :: "string list" where
  "cluster_event_kinds = [''namespaces'', ''pvs'', ''storageclasses'']"

definition log_kinds :: "string list" where
  "log_kinds = [''pods'', ''deployments'', ''statefulsets'', ''daemonsets'', ''jobs'']"

text \<open>The kinds of the watch registry; a kind is served unless the operator turned it off.\<close>

definition watch_kinds :: "string list" where
  "watch_kinds =
     [''pods'', ''events'', ''configmaps'', ''resourcequotas'', ''limitranges'', ''serviceaccounts'', ''secrets'',
      ''deployments'', ''statefulsets'', ''daemonsets'', ''replicasets'', ''jobs'', ''cronjobs'',
      ''horizontalpodautoscalers'', ''poddisruptionbudgets'', ''services'', ''ingresses'',
      ''networkpolicies'', ''endpointslices'', ''ingressclasses'', ''pvs'', ''pvcs'', ''storageclasses'',
      ''nodes'', ''namespaces'', ''priorityclasses'', ''runtimeclasses'', ''roles'', ''rolebindings'',
      ''clusterroles'', ''clusterrolebindings'']"

definition kind_routes :: "route list" where
  "kind_routes =
     map (\<lambda>k. (GET, [Lit k])) listed_kinds @
     map (\<lambda>k. (GET, [Lit k, Param, Param])) namespaced_kinds @
     map (\<lambda>k. (GET, [Lit k, Param])) cluster_wide_kinds @
     map (\<lambda>k. (GET, [Lit k, Param, Param, Lit ''yaml''])) namespaced_kinds @
     map (\<lambda>k. (GET, [Lit k, Param, Lit ''yaml''])) cluster_wide_kinds @
     map (\<lambda>k. (GET, [Lit k, Param, Param, Lit ''events''])) namespaced_event_kinds @
     map (\<lambda>k. (GET, [Lit k, Param, Lit ''events''])) cluster_event_kinds @
     map (\<lambda>k. (GET, [Lit k, Param, Param, Lit ''logs''])) log_kinds @
     map (\<lambda>k. (GET, [Lit k, Lit ''watch''])) watch_kinds"

definition helm_routes :: "route list" where
  "helm_routes =
     map (\<lambda>(m, segs). (m, Lit ''helm'' # segs))
       [(GET, [Lit ''releases'']), (GET, [Lit ''releases'', Param, Param]),
        (GET, [Lit ''releases'', Param, Param, Lit ''history'']),
        (GET, [Lit ''releases'', Param, Param, Lit ''diff'']),
        (GET, [Lit ''chart'', Lit ''versions'']), (POST, [Lit ''chart'', Lit ''values'']),
        (POST, [Lit ''install-preview'']),
        (POST, [Lit ''releases'', Param, Param, Lit ''upgrade-preview'']),
        (POST, [Lit ''install'']), (POST, [Lit ''releases'', Param, Param, Lit ''upgrade'']),
        (DELETE, [Lit ''releases'', Param, Param]),
        (POST, [Lit ''releases'', Param, Param, Lit ''rollback''])]"

definition aws_routes :: "route list" where
  "aws_routes =
     [(GET, [Lit ''eks'', Lit ''upgrade-insights'']), (GET, [Lit ''eks'', Lit ''upgrade-insights'', Param]),
      (GET, [Lit ''karpenter'']), (GET, [Lit ''karpenter'', Lit ''availability'']),
      (GET, [Lit ''eks'', Lit ''nodegroups'']), (GET, [Lit ''eks'', Lit ''nodegroups'', Param]),
      (GET, [Lit ''eks'', Lit ''addons'', Lit ''catalog'']),
      (GET, [Lit ''eks'', Lit ''addons'', Lit ''catalog'', Param, Lit ''configuration'']),
      (GET, [Lit ''eks'', Lit ''addons'']), (POST, [Lit ''eks'', Lit ''addons'']),
      (GET, [Lit ''eks'', Lit ''addons'', Param]), (PUT, [Lit ''eks'', Lit ''addons'', Param]),
      (DELETE, [Lit ''eks'', Lit ''addons'', Param]),
      (GET, [Lit ''identity'', Lit ''access-entries'']), (GET, [Lit ''identity'', Lit ''aws-auth-diff'']),
      (GET, [Lit ''identity'', Lit ''sa-roles'']), (GET, [Lit ''identity'', Lit ''pod-identity'']),
      (GET, [Lit ''iam'', Lit ''role-permissions'']), (GET, [Lit ''iam'', Lit ''reverse-lookup'']),
      (GET, [Lit ''identity'', Lit ''workload-permissions'']),
      (GET, [Lit ''identity'', Lit ''capabilities'']),
      (GET, [Lit ''cve'', Lit ''status'']), (GET, [Lit ''cve'', Lit ''by-instance'']),
      (GET, [Lit ''cve'', Lit ''by-instance'', Param]), (GET, [Lit ''cve'', Lit ''by-digest'', Param]),
      (GET, [Lit ''cve'', Lit ''pods'']), (GET, [Lit ''cve'', Lit ''pods'', Param, Param]),
      (GET, [Lit ''cve'', Lit ''by-workload'', Param, Param, Param]), (POST, [Lit ''cve'', Lit ''refresh''])]"

definition object_routes :: "route list" where
  "object_routes =
     [(POST, [Lit ''can-i'']), (GET, [Lit ''dashboard'']), (GET, [Lit ''search'']), (GET, [Lit ''crds'']),
      (GET, [Lit ''customresources'', Param, Param, Param]),
      (GET, [Lit ''customresources'', Param, Param, Param, Param, Param]),
      (GET, [Lit ''customresources'', Param, Param, Param, Param, Param, Lit ''yaml'']),
      (GET, [Lit ''customresources'', Param, Param, Param, Param, Param, Lit ''events'']),
      (POST, [Lit ''cronjobs'', Param, Param, Lit ''trigger'']),
      (GET, [Param, Param, Param, Lit ''revisions'']), (POST, [Param, Param, Param, Lit ''rollback'']),
      (GET, [Lit ''nodes'', Param, Lit ''metrics'']), (GET, [Lit ''pods'', Param, Param, Lit ''metrics'']),
      (GET, [Lit ''events'']), (GET, [Lit ''secrets'', Param, Param, Lit ''data'', Param]),
      (POST, [Lit ''audit'', Lit ''bulk-download'']),
      (PATCH, [Lit ''resources'', Param, Param, Param, Param, Param]),
      (PATCH, [Lit ''resources'', Param, Param, Param, Param]),
      (DELETE, [Lit ''resources'', Param, Param, Param, Param, Param]),
      (DELETE, [Lit ''resources'', Param, Param, Param, Param]),
      (GET, [Lit ''resources'', Param, Param, Param, Param, Param, Lit ''meta'']),
      (GET, [Lit ''resources'', Param, Param, Param, Param, Lit ''meta'']),
      (GET, [Lit ''openapi'', Lit ''v3'']), (GET, [Lit ''openapi'', Lit ''v3'', Wildcard]),
      (GET, [Lit ''pods'', Param, Param, Lit ''exec'']), (GET, [Lit ''shell'']),
      (GET, [Lit ''nodes'', Param, Lit ''shell'']),
      (GET, [Lit ''nodes'', Param, Lit ''shell'', Lit ''preflight''])]"

definition cluster_routes :: "route list" where
  "cluster_routes = helm_routes @ aws_routes @ object_routes @ kind_routes"

definition backend_routes :: "route list" where
  "backend_routes =
     global_routes @
     map (\<lambda>(m, segs). (m, Lit ''api'' # Lit ''clusters'' # Param # segs)) cluster_routes"

text \<open>The parameters that the audit query of \<open>audit_handler.go\<close> reads.\<close>

definition audit_query_fields :: "string list" where
  "audit_query_fields =
     [''actor'', ''verb'', ''outcome'', ''cluster'', ''namespace'', ''name'', ''request_id'',
      ''from'', ''to'', ''limit'', ''offset'']"

section \<open>What the client sends\<close>

datatype api_call =
    CoreCall core_call
  | ListCall list_fn string "string option"
  | DetailCall detail_call
  | AccessCall access_call
  | ObjectCall object_call
  | ExtraCall extra_call
  | WriteCall write_call
  | HelmCall helm_call
  | HelmAction helm_action
  | RolloutCall rollout_call
  | EksCall eks_call
  | IdentityCall identity_call
  | CveCall cve_call
  | MintAgentToken string
  | RecordBulkDownload string bulk_audit_body

fun api_request :: "api_call \<Rightarrow> http_request" where
  "api_request (CoreCall c) = core_request c"
| "api_request (ListCall fn c ns) = list_request fn c ns"
| "api_request (DetailCall c) = detail_request c"
| "api_request (AccessCall c) = access_request c"
| "api_request (ObjectCall c) = object_request c"
| "api_request (ExtraCall c) = extra_request c"
| "api_request (WriteCall c) = write_request c"
| "api_request (HelmCall c) = helm_request c"
| "api_request (HelmAction c) = helm_action_request c"
| "api_request (RolloutCall c) = rollout_request c"
| "api_request (EksCall c) = eks_request c"
| "api_request (IdentityCall c) = identity_request c"
| "api_request (CveCall c) = cve_request c"
| "api_request (MintAgentToken c) = mint_agent_token c"
| "api_request (RecordBulkDownload c b) = record_bulk_download c b"

text \<open>
  The kinds that the types of the four calls with a kind parameter admit:
  \<open>Exclude<YamlKind, ClusterScopedKind>\<close> for a namespaced object and \<open>ClusterScopedKind\<close> for
  another.
\<close>

fun kind_ok :: "api_call \<Rightarrow> bool" where
  "kind_ok (ObjectCall (Yaml c kind ns name)) \<longleftrightarrow>
     kind \<in> set yaml_kinds \<and> \<not> is_cluster_scoped_kind kind"
| "kind_ok (ObjectCall (ClusterScopedYaml c kind name)) \<longleftrightarrow> is_cluster_scoped_kind kind"
| "kind_ok (ObjectCall (Events c kind ns name)) \<longleftrightarrow>
     kind \<in> set yaml_kinds \<and> \<not> is_cluster_scoped_kind kind"
| "kind_ok (ObjectCall (ClusterScopedEvents c kind name)) \<longleftrightarrow> is_cluster_scoped_kind kind"
| "kind_ok _ \<longleftrightarrow> True"

definition served :: "http_method \<Rightarrow> string \<Rightarrow> bool" where
  "served m url \<longleftrightarrow> list_ex (\<lambda>(m', pat). m' = m \<and> fits pat (path_segments url)) backend_routes"

end
