(* ===== verification/YamlPatch.thy ===== *)
theory YamlPatch
  imports Prelude
begin

text \<open>
  Model of \<open>web/src/lib/yamlPatch.ts\<close> and \<open>web/src/lib/applyBodyBuilder.ts\<close>: the diff of two
  YAML documents into operations, and the assembly of these operations into the smallest
  server-side-apply payload. The YAML library (\<open>parseAllDocuments\<close>, \<open>stringify\<close>) is not part
  of the repository: it is the parameters \<open>parse\<close> and \<open>stringify\<close>. A parsed document is its
  JavaScript projection and the messages of its errors. Tree mutation is written as a function
  returning the new tree, and each \<open>throw\<close> is a left value.
\<close>

section \<open>Paths and operations\<close>

datatype path_segment =
    PKey string
  | PMerge string string
  | PIdx nat

type_synonym path = "path_segment list"

datatype patch_op =
    ReplaceOp (op_path: path) (op_value: jsval)
  | AddOp (op_path: path) (op_value: jsval)
  | RemoveOp (op_path: path)

record identity =
  id_apiVersion :: string
  id_kind :: string
  id_name :: string
  id_namespace :: "string option"

datatype yaml_error =
    MultiDocumentError nat
  | YamlParseError string
  | TreeError string

definition disallowed_at_metadata :: "string list" where
  "disallowed_at_metadata =
     [''uid'', ''creationTimestamp'', ''generation'', ''resourceVersion'', ''managedFields'',
      ''deletionTimestamp'', ''deletionGracePeriodSeconds'', ''selfLink'']"

text \<open>The loop body of \<open>stripServerManaged\<close> over the entries of the document root.\<close>

definition strip_entry :: "string \<times> jsval \<Rightarrow> entries" where
  "strip_entry kv =
     (let (k, v) = kv
      in if k = ''status'' then []
         else (case v of
                 JObj m \<Rightarrow>
                   if k = ''metadata''
                   then [(k, JObj (filter (\<lambda>(mk, mv). mk \<notin> set disallowed_at_metadata) m))]
                   else [(k, v)]
               | _ \<Rightarrow> [(k, v)]))"

fun strip_server_managed :: "jsval \<Rightarrow> jsval" where
  "strip_server_managed (JObj kvs) = JObj (concat (map strip_entry kvs))"
| "strip_server_managed v = v"

definition merge_keys :: "(string \<times> string) list" where
  "merge_keys =
     [(''spec.containers'', ''name''),
      (''spec.initContainers'', ''name''),
      (''spec.ephemeralContainers'', ''name''),
      (''spec.volumes'', ''name''),
      (''spec.tolerations'', ''key''),
      (''spec.imagePullSecrets'', ''name''),
      (''spec.hostAliases'', ''ip''),
      (''containers.env'', ''name''),
      (''containers.envFrom'', ''configMapRef.name''),
      (''containers.volumeMounts'', ''mountPath''),
      (''containers.volumeDevices'', ''devicePath'')]"

fun string_path :: "path \<Rightarrow> string list" where
  "string_path [] = []"
| "string_path (PKey s # p) = s # string_path p"
| "string_path (_ # p) = string_path p"

definition merge_key_for_array_at :: "path \<Rightarrow> string option" where
  "merge_key_for_array_at path =
     (let sp = string_path path
      in case map_of merge_keys (join_str ''.'' sp) of
           Some mk \<Rightarrow> Some mk
         | None \<Rightarrow>
             if 2 \<le> length sp
             then map_of merge_keys (join_str ''.'' (drop (length sp - 2) sp))
             else None)"

section \<open>Single-document gate\<close>

record yaml_document =
  doc_js :: jsval
  doc_errors :: "string list"

definition parse_or_throw ::
  "(string \<Rightarrow> yaml_document list) \<Rightarrow> string \<Rightarrow> yaml_error + (yaml_document \<times> jsval)" where
  "parse_or_throw parse yaml =
     (let docs = parse yaml;
          non_empty = filter (\<lambda>d. doc_js d \<noteq> JNull \<and> doc_js d \<noteq> JUndefined) docs
      in if 1 < length non_empty then Inl (MultiDocumentError (length non_empty))
         else (case non_empty of
                 [] \<Rightarrow> Inl (YamlParseError ''yaml: empty document'')
               | doc # _ \<Rightarrow>
                   (case doc_errors doc of
                      e # _ \<Rightarrow> Inl (YamlParseError e)
                    | [] \<Rightarrow> Inr (doc, doc_js doc))))"

section \<open>Structural equality\<close>

text \<open>
  \<open>deepEqual\<close>: identity first, then arrays against arrays of the same length, then any two
  values of JavaScript type object by their own keys (so an object may be compared with an
  array on the right), everything else by identity.
\<close>

definition own_key_count :: "jsval \<Rightarrow> nat" where
  "own_key_count v = length (own_entries v)"

function deep_equal :: "jsval \<Rightarrow> jsval \<Rightarrow> bool"
  and deep_equal_items :: "jsval list \<Rightarrow> jsval list \<Rightarrow> bool"
  and deep_equal_keys :: "entries \<Rightarrow> jsval \<Rightarrow> bool" where
  "deep_equal (JArr xs) b =
     (case b of JArr ys \<Rightarrow> length xs = length ys \<and> deep_equal_items xs ys | _ \<Rightarrow> False)"
| "deep_equal (JObj kvs) b =
     ((is_plain_object b \<or> is_array b) \<and> length kvs = own_key_count b \<and> deep_equal_keys kvs b)"
| "deep_equal JUndefined b = (b = JUndefined)"
| "deep_equal JNull b = (b = JNull)"
| "deep_equal (JBool x) b = (b = JBool x)"
| "deep_equal (JNum n) b = (b = JNum n)"
| "deep_equal (JStr s) b = (b = JStr s)"
| "deep_equal_items (x # xs) (y # ys) = (deep_equal x y \<and> deep_equal_items xs ys)"
| "deep_equal_items [] ys = True"
| "deep_equal_items (x # xs) [] = True"
| "deep_equal_keys [] b = True"
| "deep_equal_keys ((k, v) # kvs) b = (deep_equal v (get_prop b k) \<and> deep_equal_keys kvs b)"
  by pat_completeness auto
termination
  by (relation "measure (case_sum (\<lambda>(a, _). size a)
        (case_sum (\<lambda>(xs, _). size_list size xs) (\<lambda>(kvs, _). entries_size kvs)))") auto

section \<open>Diffing two documents\<close>

definition all_keys :: "('k \<times> 'v) list \<Rightarrow> ('k \<times> 'w) list \<Rightarrow> 'k list" where
  "all_keys before0 after0 =
     map fst before0 @ filter (\<lambda>k. k \<notin> fst ` set before0) (map fst after0)"

definition index_by :: "string \<Rightarrow> jsval list \<Rightarrow> (string \<times> entries) list" where
  "index_by mk items =
     fold (\<lambda>item m. case item of
             JObj o1 \<Rightarrow> (case entry_get o1 mk of JStr s \<Rightarrow> AList.update s o1 m | _ \<Rightarrow> m)
           | _ \<Rightarrow> m) items []"

lemma index_by_mem_aux:
  "(k, b) \<in> set (fold (\<lambda>item m. case item of
             JObj o1 \<Rightarrow> (case entry_get o1 mk of JStr s \<Rightarrow> AList.update s o1 m | _ \<Rightarrow> m)
           | _ \<Rightarrow> m) items acc) \<Longrightarrow> (k, b) \<in> set acc \<or> JObj b \<in> set items"
proof (induction items arbitrary: acc)
  case (Cons i items)
  from Cons.IH [OF Cons.prems [unfolded fold_Cons comp_def]] show ?case
    by (auto split: jsval.splits dest: update_memD)
qed simp

lemma index_by_size:
  assumes "map_of (index_by mk items) k = Some b"
  shows "entries_size b < size_list size items"
proof -
  from assms have "JObj b \<in> set items"
    by (auto simp: index_by_def dest!: map_of_SomeD index_by_mem_aux)
  then have "size (JObj b) \<le> size_list size items"
    by (rule size_list_estimation') simp
  then show ?thesis by simp
qed

function diff_map :: "entries \<Rightarrow> entries \<Rightarrow> path \<Rightarrow> patch_op list"
  and diff_array :: "jsval list \<Rightarrow> jsval list \<Rightarrow> path \<Rightarrow> patch_op list" where
  "diff_map before0 after0 path =
     concat (map (\<lambda>k.
       (let bv = entry_get before0 k; av = entry_get after0 k; child_path = path @ [PKey k]
        in if deep_equal bv av then []
           else if bv = JUndefined then [AddOp child_path av]
           else if av = JUndefined then [RemoveOp child_path]
           else (case bv of
                   JObj b \<Rightarrow> (case av of JObj a \<Rightarrow> diff_map b a child_path
                                      | _ \<Rightarrow> [ReplaceOp child_path av])
                 | JArr b \<Rightarrow> (case av of JArr a \<Rightarrow> diff_array b a child_path
                                      | _ \<Rightarrow> [ReplaceOp child_path av])
                 | _ \<Rightarrow> [ReplaceOp child_path av])))
       (all_keys before0 after0))"
| "diff_array before0 after0 path =
     (case merge_key_for_array_at path of
        None \<Rightarrow> [ReplaceOp path (JArr after0)]
      | Some mk \<Rightarrow>
          (let before_by_key = index_by mk before0; after_by_key = index_by mk after0
           in if length before_by_key \<noteq> length before0 \<or> length after_by_key \<noteq> length after0
              then [ReplaceOp path (JArr after0)]
              else concat (map (\<lambda>k.
                (let child_path = path @ [PMerge mk k]
                 in case map_of before_by_key k of
                      None \<Rightarrow> [AddOp child_path
                        (case map_of after_by_key k of None \<Rightarrow> JUndefined | Some a \<Rightarrow> JObj a)]
                    | Some b \<Rightarrow>
                        (case map_of after_by_key k of
                           None \<Rightarrow> [RemoveOp child_path]
                         | Some a \<Rightarrow> diff_map b a child_path)))
                (all_keys before_by_key after_by_key))))"
  by pat_completeness auto
termination
  by (relation "measure (case_sum (\<lambda>(b, _, _). entries_size b) (\<lambda>(b, _, _). size_list size b))")
     (auto dest: entry_get_obj_size [OF sym] entry_get_arr_size [OF sym] index_by_size)

declare diff_map.simps [simp del] diff_array.simps [simp del]

definition diff_node :: "jsval \<Rightarrow> jsval \<Rightarrow> path \<Rightarrow> patch_op list" where
  "diff_node before0 after0 path =
     (if deep_equal before0 after0 then []
      else if before0 = JUndefined then [AddOp path after0]
      else if after0 = JUndefined then [RemoveOp path]
      else (case before0 of
              JObj b \<Rightarrow> (case after0 of JObj a \<Rightarrow> diff_map b a path | _ \<Rightarrow> [ReplaceOp path after0])
            | JArr b \<Rightarrow> (case after0 of JArr a \<Rightarrow> diff_array b a path | _ \<Rightarrow> [ReplaceOp path after0])
            | _ \<Rightarrow> [ReplaceOp path after0]))"

definition compute_ops ::
  "(string \<Rightarrow> yaml_document list) \<Rightarrow> string \<Rightarrow> string \<Rightarrow> yaml_error + patch_op list" where
  "compute_ops parse before0 after0 =
     (case parse_or_throw parse before0 of
        Inl e \<Rightarrow> Inl e
      | Inr (_, before_js) \<Rightarrow>
          (case parse_or_throw parse after0 of
             Inl e \<Rightarrow> Inl e
           | Inr (_, after_js) \<Rightarrow>
               Inr (diff_node (strip_server_managed before_js)
                              (strip_server_managed after_js) [])))"

section \<open>Assembling the payload\<close>

text \<open>\<open>entryOf\<close>: the field and value that locate an array element.\<close>

fun entry_of :: "path_segment \<Rightarrow> string \<times> string" where
  "entry_of (PIdx i) = (''__idx'', show_nat i)"
| "entry_of (PMerge k v) = (if k = ''idx'' then (''__idx'', v) else (k, v))"
| "entry_of (PKey s) = (s, [])"

fun is_key :: "path_segment \<Rightarrow> bool" where
  "is_key (PKey _) = True"
| "is_key _ = False"

definition matches_item :: "string \<Rightarrow> string \<Rightarrow> jsval \<Rightarrow> bool" where
  "matches_item key_name key_value x =
     (case x of JObj o1 \<Rightarrow> js_to_string (entry_get o1 key_name) = key_value | _ \<Rightarrow> False)"

definition find_index :: "('a \<Rightarrow> bool) \<Rightarrow> 'a list \<Rightarrow> nat option" where
  "find_index p xs =
     (let n = length (takeWhile (\<lambda>x. \<not> p x) xs) in if n < length xs then Some n else None)"

text \<open>
  \<open>stepInto\<close>: the slot below \<open>node\<close> that \<open>seg\<close> denotes, created when absent. The result is
  the node with the slot present, the slot, and the value in it.
\<close>

datatype slot = SlotKey string | SlotIdx nat

fun step_into :: "jsval \<Rightarrow> path_segment \<Rightarrow> path_segment \<Rightarrow> string + (jsval \<times> slot \<times> jsval)" where
  "step_into node (PKey seg) next_seg =
     (case node of
        JObj kvs \<Rightarrow>
          (let kvs' = (if has_key kvs seg then kvs
                       else AList.update seg (if is_key next_seg then JObj [] else JArr []) kvs)
           in Inr (JObj kvs', SlotKey seg, entry_get kvs' seg))
      | _ \<Rightarrow> Inl ''stepInto: expected map'')"
| "step_into node seg next_seg =
     (case node of
        JArr items \<Rightarrow>
          (let (key_name, key_value) = entry_of seg
           in case find_index (matches_item key_name key_value) items of
                Some i \<Rightarrow> Inr (JArr items, SlotIdx i, items ! i)
              | None \<Rightarrow>
                  (let item = JObj [(key_name, JStr key_value)]
                   in Inr (JArr (items @ [item]), SlotIdx (length items), item)))
      | _ \<Rightarrow> Inl ''stepInto: expected array for merge-key segment'')"

fun put_slot :: "jsval \<Rightarrow> slot \<Rightarrow> jsval \<Rightarrow> jsval" where
  "put_slot (JObj kvs) (SlotKey k) v = JObj (AList.update k v kvs)"
| "put_slot (JArr xs) (SlotIdx i) v = JArr (xs[i := v])"
| "put_slot node _ _ = node"

text \<open>\<open>setLeaf\<close>, with \<open>None\<close> for the removal sentinel.\<close>

fun set_leaf :: "jsval \<Rightarrow> path_segment \<Rightarrow> jsval option \<Rightarrow> string + jsval" where
  "set_leaf node (PKey seg) value =
     (case node of
        JObj kvs \<Rightarrow>
          (case value of
             None \<Rightarrow> Inr (JObj (AList.delete seg kvs))
           | Some v \<Rightarrow> Inr (JObj (AList.update seg v kvs)))
      | _ \<Rightarrow> Inl ''setLeaf: expected map'')"
| "set_leaf node seg value =
     (case node of
        JArr items \<Rightarrow>
          (let (key_name, key_value) = entry_of seg;
               idx = find_index (matches_item key_name key_value) items
           in case value of
                None \<Rightarrow>
                  (case idx of
                     Some i \<Rightarrow> Inr (JArr (take i items @ drop (Suc i) items))
                   | None \<Rightarrow> Inr (JArr items))
              | Some v \<Rightarrow>
                  (case idx of
                     Some i \<Rightarrow>
                       Inr (JArr (items[i := JObj (spread (own_entries (items ! i)) (own_entries v))]))
                   | None \<Rightarrow>
                       Inr (JArr (items @
                         [JObj (spread [(key_name, JStr key_value)] (own_entries v))]))))
      | _ \<Rightarrow> Inl ''setLeaf: expected array for merge-key seg'')"

text \<open>The walk of \<open>applyOpToTree\<close> from \<open>node\<close> along the remaining path.\<close>

fun apply_at :: "jsval \<Rightarrow> path \<Rightarrow> jsval option \<Rightarrow> string + jsval" where
  "apply_at node [] value = Inr node"
| "apply_at node [seg] value = set_leaf node seg value"
| "apply_at node (seg # next_seg # rest) value =
     (case step_into node seg next_seg of
        Inl e \<Rightarrow> Inl e
      | Inr (node', slot, child) \<Rightarrow>
          (case apply_at child (next_seg # rest) value of
             Inl e \<Rightarrow> Inl e
           | Inr child' \<Rightarrow> Inr (put_slot node' slot child')))"

fun op_leaf :: "patch_op \<Rightarrow> jsval option" where
  "op_leaf (RemoveOp _) = None"
| "op_leaf (AddOp _ v) = Some v"
| "op_leaf (ReplaceOp _ v) = Some v"

definition apply_op_to_tree :: "jsval \<Rightarrow> patch_op \<Rightarrow> string + jsval" where
  "apply_op_to_tree root op = apply_at root (op_path op) (op_leaf op)"

fun apply_ops :: "jsval \<Rightarrow> patch_op list \<Rightarrow> string + jsval" where
  "apply_ops root [] = Inr root"
| "apply_ops root (op # ops) =
     (case apply_op_to_tree root op of Inl e \<Rightarrow> Inl e | Inr root' \<Rightarrow> apply_ops root' ops)"

definition identity_root :: "identity \<Rightarrow> jsval" where
  "identity_root idt =
     JObj [(''apiVersion'', JStr (id_apiVersion idt)),
           (''kind'', JStr (id_kind idt)),
           (''metadata'', JObj ((''name'', JStr (id_name idt)) #
              (case id_namespace idt of
                 Some ns \<Rightarrow> if ns \<noteq> [] then [(''namespace'', JStr ns)] else []
               | None \<Rightarrow> [])))]"

definition minimal_ssa_tree :: "patch_op list \<Rightarrow> identity \<Rightarrow> string + jsval" where
  "minimal_ssa_tree ops idt = apply_ops (identity_root idt) ops"

definition build_minimal_ssa ::
  "(jsval \<Rightarrow> string) \<Rightarrow> patch_op list \<Rightarrow> identity \<Rightarrow> yaml_error + string" where
  "build_minimal_ssa stringify ops idt =
     (case minimal_ssa_tree ops idt of
        Inl e \<Rightarrow> Inl (TreeError e)
      | Inr root \<Rightarrow> Inr (stringify root))"

definition build_apply_body ::
  "(string \<Rightarrow> yaml_document list) \<Rightarrow> (jsval \<Rightarrow> string) \<Rightarrow> string \<Rightarrow> string \<Rightarrow> identity
     \<Rightarrow> yaml_error + (string \<times> patch_op list)" where
  "build_apply_body parse stringify baseline draft idt =
     (case compute_ops parse baseline draft of
        Inl e \<Rightarrow> Inl e
      | Inr ops \<Rightarrow>
          (case build_minimal_ssa stringify ops idt of
             Inl e \<Rightarrow> Inl e
           | Inr yaml \<Rightarrow> Inr (yaml, ops)))"

end
