(* ===== verification/ListShape.thy ===== *)
theory ListShape
  imports YamlPatch
begin

text \<open>
  Model of \<open>web/src/lib/listShape.ts\<close> (row identity, and the cached list under add, patch and
  remove) and of the registry of \<open>web/src/lib/k8sKinds.ts\<close>. A list response is a JavaScript
  value; its rows are objects. Each updater works on the rows and puts them back under the
  kind's field.
\<close>

section \<open>Kinds\<close>

record kind_meta =
  km_group :: string
  km_version :: string
  km_resource :: string
  km_kind :: string

definition gvr :: "string \<Rightarrow> string \<Rightarrow> string \<Rightarrow> string \<Rightarrow> kind_meta" where
  "gvr g v r k = \<lparr>km_group = g, km_version = v, km_resource = r, km_kind = k\<rparr>"

definition kind_registry :: "(string \<times> kind_meta) list" where
  "kind_registry =
     [(''pods'', gvr '''' ''v1'' ''pods'' ''Pod''),
      (''services'', gvr '''' ''v1'' ''services'' ''Service''),
      (''configmaps'', gvr '''' ''v1'' ''configmaps'' ''ConfigMap''),
      (''secrets'', gvr '''' ''v1'' ''secrets'' ''Secret''),
      (''namespaces'', gvr '''' ''v1'' ''namespaces'' ''Namespace''),
      (''pvs'', gvr '''' ''v1'' ''persistentvolumes'' ''PersistentVolume''),
      (''pvcs'', gvr '''' ''v1'' ''persistentvolumeclaims'' ''PersistentVolumeClaim''),
      (''serviceaccounts'', gvr '''' ''v1'' ''serviceaccounts'' ''ServiceAccount''),
      (''resourcequotas'', gvr '''' ''v1'' ''resourcequotas'' ''ResourceQuota''),
      (''limitranges'', gvr '''' ''v1'' ''limitranges'' ''LimitRange''),
      (''deployments'', gvr ''apps'' ''v1'' ''deployments'' ''Deployment''),
      (''statefulsets'', gvr ''apps'' ''v1'' ''statefulsets'' ''StatefulSet''),
      (''daemonsets'', gvr ''apps'' ''v1'' ''daemonsets'' ''DaemonSet''),
      (''replicasets'', gvr ''apps'' ''v1'' ''replicasets'' ''ReplicaSet''),
      (''jobs'', gvr ''batch'' ''v1'' ''jobs'' ''Job''),
      (''cronjobs'', gvr ''batch'' ''v1'' ''cronjobs'' ''CronJob''),
      (''ingresses'', gvr ''networking.k8s.io'' ''v1'' ''ingresses'' ''Ingress''),
      (''ingressclasses'', gvr ''networking.k8s.io'' ''v1'' ''ingressclasses'' ''IngressClass''),
      (''networkpolicies'', gvr ''networking.k8s.io'' ''v1'' ''networkpolicies'' ''NetworkPolicy''),
      (''endpointslices'', gvr ''discovery.k8s.io'' ''v1'' ''endpointslices'' ''EndpointSlice''),
      (''roles'', gvr ''rbac.authorization.k8s.io'' ''v1'' ''roles'' ''Role''),
      (''rolebindings'', gvr ''rbac.authorization.k8s.io'' ''v1'' ''rolebindings'' ''RoleBinding''),
      (''clusterroles'', gvr ''rbac.authorization.k8s.io'' ''v1'' ''clusterroles'' ''ClusterRole''),
      (''clusterrolebindings'', gvr ''rbac.authorization.k8s.io'' ''v1'' ''clusterrolebindings'' ''ClusterRoleBinding''),
      (''storageclasses'', gvr ''storage.k8s.io'' ''v1'' ''storageclasses'' ''StorageClass''),
      (''horizontalpodautoscalers'', gvr ''autoscaling'' ''v2'' ''horizontalpodautoscalers'' ''HorizontalPodAutoscaler''),
      (''poddisruptionbudgets'', gvr ''policy'' ''v1'' ''poddisruptionbudgets'' ''PodDisruptionBudget''),
      (''priorityclasses'', gvr ''scheduling.k8s.io'' ''v1'' ''priorityclasses'' ''PriorityClass''),
      (''runtimeclasses'', gvr ''node.k8s.io'' ''v1'' ''runtimeclasses'' ''RuntimeClass''),
      (''nodes'', gvr '''' ''v1'' ''nodes'' ''Node'')]"

definition list_items_key :: "(string \<times> string) list" where
  "list_items_key =
     [(''pods'', ''pods''),
      (''services'', ''services''),
      (''configmaps'', ''configMaps''),
      (''secrets'', ''secrets''),
      (''namespaces'', ''namespaces''),
      (''pvs'', ''pvs''),
      (''pvcs'', ''pvcs''),
      (''serviceaccounts'', ''serviceAccounts''),
      (''resourcequotas'', ''resourceQuotas''),
      (''limitranges'', ''limitRanges''),
      (''nodes'', ''nodes''),
      (''events'', ''events''),
      (''deployments'', ''deployments''),
      (''statefulsets'', ''statefulSets''),
      (''daemonsets'', ''daemonSets''),
      (''replicasets'', ''replicaSets''),
      (''jobs'', ''jobs''),
      (''cronjobs'', ''cronJobs''),
      (''ingresses'', ''ingresses''),
      (''ingressclasses'', ''ingressClasses''),
      (''networkpolicies'', ''networkPolicies''),
      (''endpointslices'', ''endpointSlices''),
      (''roles'', ''roles''),
      (''rolebindings'', ''roleBindings''),
      (''clusterroles'', ''clusterRoles''),
      (''clusterrolebindings'', ''clusterRoleBindings''),
      (''storageclasses'', ''storageClasses''),
      (''horizontalpodautoscalers'', ''hpas''),
      (''poddisruptionbudgets'', ''pdbs''),
      (''priorityclasses'', ''priorityClasses''),
      (''runtimeclasses'', ''runtimeClasses'')]"

section \<open>Rows\<close>

text \<open>\<open>row.namespace ?? ""\<close>\<close>

definition row_namespace :: "jsval \<Rightarrow> string" where
  "row_namespace row =
     (let ns = get_prop row ''namespace''
      in if ns = JUndefined \<or> ns = JNull then [] else js_to_string ns)"

definition row_name :: "jsval \<Rightarrow> string" where
  "row_name row = js_to_string (get_prop row ''name'')"

definition default_identity :: "jsval \<Rightarrow> string" where
  "default_identity row = row_name row @ ''|'' @ row_namespace row"

definition events_identity :: "jsval \<Rightarrow> string" where
  "events_identity row =
     (let uid = get_prop row ''uid'' in if js_truthy uid then js_to_string uid else default_identity row)"

definition identity_for :: "string \<Rightarrow> jsval \<Rightarrow> string" where
  "identity_for kind row = (if kind = ''events'' then events_identity row else default_identity row)"

definition list_max_items :: "string \<Rightarrow> nat option" where
  "list_max_items kind = (if kind = ''events'' then Some 500 else None)"

section \<open>Updating the rows\<close>

definition drop_row :: "string \<Rightarrow> jsval \<Rightarrow> jsval list \<Rightarrow> jsval list" where
  "drop_row kind target items =
     filter (\<lambda>row. identity_for kind row \<noteq> identity_for kind target) items"

fun find_row :: "('a \<Rightarrow> bool) \<Rightarrow> 'a list \<Rightarrow> nat option" where
  "find_row P [] = None"
| "find_row P (x # xs) = (if P x then Some 0 else map_option Suc (find_row P xs))"

definition put_row :: "string \<Rightarrow> jsval \<Rightarrow> jsval list \<Rightarrow> jsval list" where
  "put_row kind row items =
     (case find_row (\<lambda>x. identity_for kind x = identity_for kind row) items of
        Some idx \<Rightarrow> items[idx := row]
      | None \<Rightarrow>
          (let nxt = items @ [row]
           in case list_max_items kind of
                Some cap \<Rightarrow> if cap < length nxt then drop (length nxt - cap) nxt else nxt
              | None \<Rightarrow> nxt))"

definition patch_rows :: "string \<Rightarrow> jsval \<Rightarrow> (jsval \<Rightarrow> jsval) \<Rightarrow> jsval list \<Rightarrow> jsval list" where
  "patch_rows kind target patch items =
     map (\<lambda>row. if identity_for kind row = identity_for kind target then patch row else row) items"

section \<open>Updating the response\<close>

text \<open>
  The common frame of the three updaters: an absent list, an unknown kind or a field that is
  not an array leave the list alone; \<open>None\<close> from the update means the original is returned.
\<close>

definition with_items ::
  "string \<Rightarrow> (jsval list \<Rightarrow> jsval list option) \<Rightarrow> jsval \<Rightarrow> jsval" where
  "with_items kind update lst =
     (if \<not> js_truthy lst then lst
      else (case map_of list_items_key kind of
              None \<Rightarrow> lst
            | Some field \<Rightarrow>
                (case get_prop lst field of
                   JArr items \<Rightarrow>
                     (case update items of
                        None \<Rightarrow> lst
                      | Some nxt \<Rightarrow> JObj (AList.update field (JArr nxt) (own_entries lst)))
                 | _ \<Rightarrow> lst)))"

definition remove_row_from_list :: "jsval \<Rightarrow> string \<Rightarrow> jsval \<Rightarrow> jsval" where
  "remove_row_from_list lst kind target =
     with_items kind
       (\<lambda>items. let nxt = drop_row kind target items
                in if length nxt = length items then None else Some nxt) lst"

definition add_row_to_list :: "jsval \<Rightarrow> string \<Rightarrow> jsval \<Rightarrow> jsval" where
  "add_row_to_list lst kind row = with_items kind (\<lambda>items. Some (put_row kind row items)) lst"

definition patch_row_in_list :: "jsval \<Rightarrow> string \<Rightarrow> jsval \<Rightarrow> (jsval \<Rightarrow> jsval) \<Rightarrow> jsval" where
  "patch_row_in_list lst kind target patch =
     with_items kind
       (\<lambda>items. if \<exists>row \<in> set items. identity_for kind row = identity_for kind target
                then Some (patch_rows kind target patch items) else None) lst"

section \<open>The contract of a row store\<close>

definition lookup_row :: "('r \<Rightarrow> 'k) \<Rightarrow> 'r list \<Rightarrow> 'k \<Rightarrow> 'r option" where
  "lookup_row ident xs k = find (\<lambda>r. ident r = k) xs"

definition has_room :: "nat option \<Rightarrow> nat \<Rightarrow> bool" where
  "has_room cap n = (case cap of None \<Rightarrow> True | Some c \<Rightarrow> n < c)"

text \<open>
  What the stream relies on: the three updates keep identities distinct, act on the row of
  their identity as the updates of a finite map do (an insertion as long as there is room),
  and an insertion never grows the list beyond the cap.
\<close>

locale row_store =
  fixes ident :: "'r \<Rightarrow> 'k"
    and put :: "'r \<Rightarrow> 'r list \<Rightarrow> 'r list"
    and replace :: "'r \<Rightarrow> 'r list \<Rightarrow> 'r list"
    and remove :: "'r \<Rightarrow> 'r list \<Rightarrow> 'r list"
    and cap :: "nat option"
  assumes put_distinct: "distinct (map ident xs) \<Longrightarrow> distinct (map ident (put r xs))"
    and put_lookup: "has_room cap (length xs) \<Longrightarrow>
          lookup_row ident (put r xs) = (lookup_row ident xs)(ident r \<mapsto> r)"
    and put_length: "length (put r xs) \<le> Suc (length xs)"
    and put_cap: "cap = Some c \<Longrightarrow> length xs \<le> c \<Longrightarrow> length (put r xs) \<le> c"
    and replace_idents: "map ident (replace r xs) = map ident xs"
    and replace_lookup: "lookup_row ident (replace r xs) =
          (if ident r \<in> dom (lookup_row ident xs) then (lookup_row ident xs)(ident r \<mapsto> r)
           else lookup_row ident xs)"
    and remove_distinct: "distinct (map ident xs) \<Longrightarrow> distinct (map ident (remove r xs))"
    and remove_lookup: "lookup_row ident (remove r xs) = (lookup_row ident xs)(ident r := None)"
    and remove_length: "length (remove r xs) \<le> length xs"
begin

lemma replace_distinct: "distinct (map ident xs) \<Longrightarrow> distinct (map ident (replace r xs))"
  by (simp only: replace_idents)

lemma replace_length: "length (replace r xs) = length xs"
  using arg_cong [OF replace_idents, of length] by simp

end

section \<open>The model keeps the contract\<close>

lemma lookup_row_Cons [simp]:
  "lookup_row ident (x # xs) k = (if ident x = k then Some x else lookup_row ident xs k)"
  by (simp add: lookup_row_def)

lemma lookup_row_Nil [simp]: "lookup_row ident [] k = None"
  by (simp add: lookup_row_def)

lemma lookup_row_append:
  "lookup_row ident (xs @ ys) k =
     (case lookup_row ident xs k of None \<Rightarrow> lookup_row ident ys k | Some r \<Rightarrow> Some r)"
  by (induction xs) auto

lemma lookup_row_None: "lookup_row ident xs k = None \<longleftrightarrow> k \<notin> ident ` set xs"
  by (induction xs) auto

lemma find_row_None: "find_row P xs = None \<longleftrightarrow> (\<forall>x \<in> set xs. \<not> P x)"
  by (induction xs) auto

lemma find_row_Some: "find_row P xs = Some i \<Longrightarrow> i < length xs \<and> P (xs ! i)"
  by (induction xs arbitrary: i) (auto split: if_splits)

lemma lookup_row_update_first:
  "find_row (\<lambda>x. ident x = ident r) xs = Some i \<Longrightarrow>
   lookup_row ident (xs[i := r]) = (lookup_row ident xs)(ident r \<mapsto> r)"
  by (induction xs arbitrary: i) (auto split: if_splits)

lemma map_ident_update:
  "i < length xs \<Longrightarrow> ident (xs ! i) = ident r \<Longrightarrow> map ident (xs[i := r]) = map ident xs"
  by (simp add: map_update list_update_same_conv)

lemma lookup_row_filter:
  "lookup_row ident (filter (\<lambda>x. ident x \<noteq> k) xs) = (lookup_row ident xs)(k := None)"
  by (induction xs) auto

lemma lookup_row_map:
  "lookup_row ident (map (\<lambda>x. if ident x = ident r then r else x) xs) =
     (if ident r \<in> dom (lookup_row ident xs) then (lookup_row ident xs)(ident r \<mapsto> r)
      else lookup_row ident xs)"
  by (induction xs) (auto simp: dom_def)

lemma lookup_row_snoc:
  "ident r \<notin> ident ` set xs \<Longrightarrow> lookup_row ident (xs @ [r]) = (lookup_row ident xs)(ident r \<mapsto> r)"
  by (induction xs) auto

lemma put_row_room:
  "has_room (list_max_items kind) (length xs) \<Longrightarrow>
   find_row (\<lambda>x. identity_for kind x = identity_for kind r) xs = None \<Longrightarrow> put_row kind r xs = xs @ [r]"
  by (simp add: put_row_def Let_def has_room_def split: option.splits)

lemma put_row_distinct:
  assumes "distinct (map (identity_for kind) xs)"
  shows "distinct (map (identity_for kind) (put_row kind r xs))"
proof (cases "find_row (\<lambda>x. identity_for kind x = identity_for kind r) xs")
  case None
  then have "distinct (map (identity_for kind) (xs @ [r]))"
    using assms by (auto simp: find_row_None)
  then show ?thesis using None
    using distinct_drop [of "map (identity_for kind) (xs @ [r])"]
    by (simp add: put_row_def Let_def drop_map del: map_append drop_append split: option.splits)
next
  case (Some i)
  then show ?thesis using assms find_row_Some [OF Some] by (simp add: put_row_def map_ident_update)
qed

lemma put_row_lookup:
  assumes "has_room (list_max_items kind) (length xs)"
  shows "lookup_row (identity_for kind) (put_row kind r xs) =
      (lookup_row (identity_for kind) xs)(identity_for kind r \<mapsto> r)"
proof (cases "find_row (\<lambda>x. identity_for kind x = identity_for kind r) xs")
  case None
  then have "identity_for kind r \<notin> identity_for kind ` set xs" by (auto simp: find_row_None)
  then show ?thesis using None assms by (simp add: put_row_room lookup_row_snoc)
qed (simp add: put_row_def lookup_row_update_first)

interpretation kind_rows: row_store "identity_for kind" "put_row kind"
  "\<lambda>r. patch_rows kind r (\<lambda>_. r)" "drop_row kind" "list_max_items kind"
proof
  fix xs r
  show "distinct (map (identity_for kind) xs) \<Longrightarrow>
      distinct (map (identity_for kind) (put_row kind r xs))" by (rule put_row_distinct)
  show "has_room (list_max_items kind) (length xs) \<Longrightarrow>
      lookup_row (identity_for kind) (put_row kind r xs) =
      (lookup_row (identity_for kind) xs)(identity_for kind r \<mapsto> r)"
    by (rule put_row_lookup)
  show "length (put_row kind r xs) \<le> Suc (length xs)"
    by (auto simp: put_row_def Let_def split: option.splits)
  show "list_max_items kind = Some c \<Longrightarrow> length xs \<le> c \<Longrightarrow> length (put_row kind r xs) \<le> c" for c
    by (auto simp: put_row_def Let_def split: option.splits)
  show "map (identity_for kind) (patch_rows kind r (\<lambda>_. r) xs) = map (identity_for kind) xs"
    by (simp add: patch_rows_def)
  show "lookup_row (identity_for kind) (patch_rows kind r (\<lambda>_. r) xs) =
      (if identity_for kind r \<in> dom (lookup_row (identity_for kind) xs)
       then (lookup_row (identity_for kind) xs)(identity_for kind r \<mapsto> r)
       else lookup_row (identity_for kind) xs)"
    unfolding patch_rows_def by (rule lookup_row_map)
  show "distinct (map (identity_for kind) xs) \<Longrightarrow> distinct (map (identity_for kind) (drop_row kind r xs))"
    by (simp add: drop_row_def distinct_map_filter)
  show "lookup_row (identity_for kind) (drop_row kind r xs) =
      (lookup_row (identity_for kind) xs)(identity_for kind r := None)"
    unfolding drop_row_def by (rule lookup_row_filter)
  show "length (drop_row kind r xs) \<le> length xs" by (simp add: drop_row_def)
qed

section \<open>Properties\<close>

lemma split_at_bar:
  "CHR ''|'' \<notin> set a \<Longrightarrow> CHR ''|'' \<notin> set b \<Longrightarrow>
   a @ CHR ''|'' # x = b @ CHR ''|'' # y \<longleftrightarrow> a = b \<and> x = y"
proof (induction a arbitrary: b)
  case (Cons c a)
  then show ?case by (cases b) auto
next
  case Nil
  then show ?case by (cases b) auto
qed

text \<open>
  rows are told apart by what Kubernetes tells them apart: for every kind but events, two
  rows with string names have the same identity exactly when they have the same name and the
  same namespace (an absent one counting as empty). Names contain no vertical bar.
\<close>

theorem row_identity_exact:
  assumes "kind \<noteq> ''events''"
    and "get_prop r ''name'' = JStr n" "get_prop q ''name'' = JStr m"
    and "CHR ''|'' \<notin> set n" "CHR ''|'' \<notin> set m"
  shows "identity_for kind r = identity_for kind q \<longleftrightarrow> n = m \<and> row_namespace r = row_namespace q"
  using assms by (simp add: identity_for_def default_identity_def row_name_def split_at_bar)

lemma row_identity_exact_witness:
  "identity_for ''pods'' (JObj [(''name'', JStr ''a'')]) =
   identity_for ''pods'' (JObj [(''name'', JStr ''a''), (''namespace'', JNull)])"
  by (subst row_identity_exact [where n = "''a''" and m = "''a''"])
     (simp_all add: get_prop_def row_namespace_def)

text \<open>
  the event list keeps the newest 500. An event that is not in a full list drops the
  oldest row and is appended; no insertion makes a list of at most 500 rows longer than 500.
\<close>

theorem events_cap_drops_oldest:
  assumes "length items \<le> 500"
  shows "length (put_row ''events'' row items) \<le> 500 \<and>
    (length items = 500 \<and> identity_for ''events'' row \<notin> identity_for ''events'' ` set items \<longrightarrow>
       put_row ''events'' row items = tl items @ [row])"
proof -
  have "put_row ''events'' row items = tl items @ [row]"
    if "length items = 500" "identity_for ''events'' row \<notin> identity_for ''events'' ` set items"
  proof -
    have "find_row (\<lambda>x. identity_for ''events'' x = identity_for ''events'' row) items = None"
      using that(2) unfolding find_row_None by (metis imageI)
    then show ?thesis using that(1)
      by (cases items) (simp_all add: put_row_def Let_def list_max_items_def)
  qed
  then show ?thesis
    using kind_rows.put_cap [of "''events''" 500 items row] assms by (simp add: list_max_items_def)
qed

lemma events_cap_drops_oldest_witness:
  "put_row ''events'' (JObj [(''uid'', JStr ''new'')]) (replicate 500 (JObj [(''uid'', JStr ''old'')])) =
     tl (replicate 500 (JObj [(''uid'', JStr ''old'')])) @ [JObj [(''uid'', JStr ''new'')]]"
  using events_cap_drops_oldest [of "replicate 500 (JObj [(''uid'', JStr ''old'')])"
      "JObj [(''uid'', JStr ''new'')]"]
  by (simp add: identity_for_def events_identity_def get_prop_def)

text \<open>
  the updaters change the rows of the kind and nothing else of the cached response: its
  other fields are kept, and the rows become what the row update gives (for a removal or a
  patch that touches no row the response itself is returned).
\<close>

theorem updaters_touch_only_rows:
  assumes "map_of list_items_key kind = Some field" "entry_get kvs field = JArr items"
  shows "get_prop (add_row_to_list (JObj kvs) kind row) k =
           (if k = field then JArr (put_row kind row items) else entry_get kvs k) \<and>
     get_prop (remove_row_from_list (JObj kvs) kind row) k =
           (if k = field then JArr (drop_row kind row items) else entry_get kvs k) \<and>
     get_prop (patch_row_in_list (JObj kvs) kind row f) k =
           (if k = field then JArr (patch_rows kind row f items) else entry_get kvs k)"
proof -
  have "drop_row kind row items = items" if "length (drop_row kind row items) = length items"
    using that unfolding drop_row_def filter_id_conv by (metis (mono_tags, lifting) length_filter_less less_irrefl)
  moreover have "patch_rows kind row f items = items"
    if "\<not> (\<exists>x \<in> set items. identity_for kind x = identity_for kind row)"
    using that by (auto simp: patch_rows_def intro!: map_idI)
  ultimately show ?thesis using assms
    by (auto simp: add_row_to_list_def remove_row_from_list_def patch_row_in_list_def with_items_def
        get_prop_obj Let_def)
qed

lemma updaters_touch_only_rows_witness:
  "get_prop (add_row_to_list (JObj [(''pods'', JArr []), (''rv'', JStr ''7'')]) ''pods''
      (JObj [(''name'', JStr ''a'')])) ''rv'' = JStr ''7''"
  using updaters_touch_only_rows [of "''pods''" "''pods''" "[(''pods'', JArr []), (''rv'', JStr ''7'')]"
      "[]" "JObj [(''name'', JStr ''a'')]" "''rv''"]
  by (simp add: list_items_key_def)

end
