(* ===== verification/QueryKeys.thy ===== *)
theory QueryKeys
  imports Prelude
begin

text \<open>
  The query-key factories of \<open>web/src/lib/queryKeys.ts\<close>. Each factory is a constructor with
  the factory's arguments; \<open>query_key\<close> is the array the factory returns. React Query stores
  one cache entry per key and invalidates by key prefix.
\<close>

datatype key_part = KStr string | KNum int

type_synonym query_key = "key_part list"

datatype kind_query =
    KAll
  | KList string
  | KDetail string string
  | KYaml string string
  | KEvents string string
  | KMeta string string
  | KMetrics string string
  | KYamlDrift string string
  | KRevisions string string

datatype helm_query =
    HList
  | HDetail string string int
  | HHistory string string
  | HDiff string string int int
  | HChartVersions string string
  | HChartValues string string string

datatype addons_query =
    AddonList
  | AddonDetail string
  | ACatalog
  | AConfigurationSchema string string

datatype identity_query =
    IAccessEntries
  | IAwsAuthDiff
  | ISaRoles
  | IPodIdentity
  | IWorkloadPermissions string string string
  | IReverseLookup string string string
  | ICapabilities

datatype cr_query =
    CrAll
  | CrList string
  | CrDetail string string
  | CrYaml string string
  | CrEvents string string
  | CrMeta string string
  | CrYamlDrift string string

datatype cve_query =
    VAll
  | VStatus
  | VPodSummariesAll
  | VPodDetail string string
  | VByInstance
  | VByInstanceOne string
  | VByDigest string
  | VByWorkload string string string

datatype cluster_query =
    CAll
  | CSummary
  | CNamespaces
  | CCrds
  | COpenapi string string
  | CSearch string
  | CCanI string
  | CKind string kind_query
  | CHelm helm_query
  | CInsightsList
  | CInsightsDetail string
  | CKarpenter
  | CKarpenterAvailability
  | CNodegroupsList
  | CNodegroupsDetail string
  | CAddons addons_query
  | CIdentity identity_query
  | CCr string string string cr_query
  | CCve cve_query

datatype query =
    QClusters
  | QFleet
  | QAudit
  | QCluster string cluster_query
  | QEdit string string string string
  | QSensitiveCatalog

fun kind_key :: "kind_query \<Rightarrow> query_key" where
  "kind_key KAll = []"
| "kind_key (KList ns) = [KStr ''list'', KStr ns]"
| "kind_key (KDetail ns name) = [KStr ''detail'', KStr ns, KStr name]"
| "kind_key (KYaml ns name) = [KStr ''yaml'', KStr ns, KStr name]"
| "kind_key (KEvents ns name) = [KStr ''events'', KStr ns, KStr name]"
| "kind_key (KMeta ns name) = [KStr ''meta'', KStr ns, KStr name]"
| "kind_key (KMetrics ns name) = [KStr ''metrics'', KStr ns, KStr name]"
| "kind_key (KYamlDrift ns name) = [KStr ''yaml-drift'', KStr ns, KStr name]"
| "kind_key (KRevisions ns name) = [KStr ''revisions'', KStr ns, KStr name]"

fun helm_key :: "helm_query \<Rightarrow> query_key" where
  "helm_key HList = [KStr ''list'']"
| "helm_key (HDetail ns name revision) = [KStr ''detail'', KStr ns, KStr name, KNum revision]"
| "helm_key (HHistory ns name) = [KStr ''history'', KStr ns, KStr name]"
| "helm_key (HDiff ns name f t) = [KStr ''diff'', KStr ns, KStr name, KNum f, KNum t]"
| "helm_key (HChartVersions ref chart) = [KStr ''chart'', KStr ''versions'', KStr ref, KStr chart]"
| "helm_key (HChartValues ref chart v) =
     [KStr ''chart'', KStr ''values'', KStr ref, KStr chart, KStr v]"

fun addons_key :: "addons_query \<Rightarrow> query_key" where
  "addons_key AddonList = [KStr ''list'']"
| "addons_key (AddonDetail name) = [KStr ''detail'', KStr name]"
| "addons_key ACatalog = [KStr ''catalog'']"
| "addons_key (AConfigurationSchema name v) = [KStr ''configSchema'', KStr name, KStr v]"

fun identity_key :: "identity_query \<Rightarrow> query_key" where
  "identity_key IAccessEntries = [KStr ''access-entries'']"
| "identity_key IAwsAuthDiff = [KStr ''aws-auth-diff'']"
| "identity_key ISaRoles = [KStr ''sa-roles'']"
| "identity_key IPodIdentity = [KStr ''pod-identity'']"
| "identity_key (IWorkloadPermissions kind ns name) =
     [KStr ''workload-permissions'', KStr kind, KStr ns, KStr name]"
| "identity_key (IReverseLookup action resource ns) =
     [KStr ''reverse-lookup'', KStr action, KStr resource, KStr ns]"
| "identity_key ICapabilities = [KStr ''capabilities'']"

fun cr_key :: "cr_query \<Rightarrow> query_key" where
  "cr_key CrAll = []"
| "cr_key (CrList ns) = [KStr ''list'', KStr ns]"
| "cr_key (CrDetail ns name) = [KStr ''detail'', KStr ns, KStr name]"
| "cr_key (CrYaml ns name) = [KStr ''yaml'', KStr ns, KStr name]"
| "cr_key (CrEvents ns name) = [KStr ''events'', KStr ns, KStr name]"
| "cr_key (CrMeta ns name) = [KStr ''meta'', KStr ns, KStr name]"
| "cr_key (CrYamlDrift ns name) = [KStr ''yaml-drift'', KStr ns, KStr name]"

fun cve_key :: "cve_query \<Rightarrow> query_key" where
  "cve_key VAll = []"
| "cve_key VStatus = [KStr ''status'']"
| "cve_key VPodSummariesAll = [KStr ''pods'', KStr ''summaries'']"
| "cve_key (VPodDetail ns name) = [KStr ''pod'', KStr ns, KStr name]"
| "cve_key VByInstance = [KStr ''instances'']"
| "cve_key (VByInstanceOne i) = [KStr ''instance'', KStr i]"
| "cve_key (VByDigest digest) = [KStr ''digest'', KStr digest]"
| "cve_key (VByWorkload kind ns name) = [KStr ''workload'', KStr kind, KStr ns, KStr name]"

fun cluster_key :: "cluster_query \<Rightarrow> query_key" where
  "cluster_key CAll = []"
| "cluster_key CSummary = [KStr ''summary'']"
| "cluster_key CNamespaces = [KStr ''namespaces'']"
| "cluster_key CCrds = [KStr ''crds'']"
| "cluster_key (COpenapi grp version) = [KStr ''openapi'', KStr grp, KStr version]"
| "cluster_key (CSearch text) = [KStr ''search'', KStr text]"
| "cluster_key (CCanI check) = [KStr ''canI'', KStr check]"
| "cluster_key (CKind kind k) = [KStr ''kind'', KStr kind] @ kind_key k"
| "cluster_key (CHelm h) = KStr ''helm'' # helm_key h"
| "cluster_key CInsightsList = [KStr ''upgradeInsights'', KStr ''list'']"
| "cluster_key (CInsightsDetail i) = [KStr ''upgradeInsights'', KStr ''detail'', KStr i]"
| "cluster_key CKarpenter = [KStr ''karpenter'']"
| "cluster_key CKarpenterAvailability = [KStr ''karpenter'', KStr ''availability'']"
| "cluster_key CNodegroupsList = [KStr ''nodegroups'', KStr ''list'']"
| "cluster_key (CNodegroupsDetail name) = [KStr ''nodegroups'', KStr ''detail'', KStr name]"
| "cluster_key (CAddons a) = KStr ''addons'' # addons_key a"
| "cluster_key (CIdentity i) = KStr ''identity'' # identity_key i"
| "cluster_key (CCr grp version plural r) =
     [KStr ''cr'', KStr grp, KStr version, KStr plural] @ cr_key r"
| "cluster_key (CCve v) = KStr ''cve'' # cve_key v"

fun query_key :: "query \<Rightarrow> query_key" where
  "query_key QClusters = [KStr ''clusters'']"
| "query_key QFleet = [KStr ''fleet'']"
| "query_key QAudit = [KStr ''audit'']"
| "query_key (QCluster c k) = [KStr ''cluster'', KStr c] @ cluster_key k"
| "query_key (QEdit cluster kind ns name) =
     [KStr ''edit'', KStr cluster, KStr kind, KStr ns, KStr name]"
| "query_key QSensitiveCatalog = [KStr ''identity'', KStr ''sensitive-catalog'']"

section \<open>Correctness\<close>

lemma kind_key_inj: "kind_key a = kind_key b \<longleftrightarrow> a = b"
  by (cases a; cases b) simp_all

lemma helm_key_inj: "helm_key a = helm_key b \<longleftrightarrow> a = b"
  by (cases a; cases b) simp_all

lemma addons_key_inj: "addons_key a = addons_key b \<longleftrightarrow> a = b"
  by (cases a; cases b) simp_all

lemma identity_key_inj: "identity_key a = identity_key b \<longleftrightarrow> a = b"
  by (cases a; cases b) simp_all

lemma cr_key_inj: "cr_key a = cr_key b \<longleftrightarrow> a = b"
  by (cases a; cases b) simp_all

lemma cve_key_inj: "cve_key a = cve_key b \<longleftrightarrow> a = b"
  by (cases a; cases b) simp_all

lemmas part_key_inj = kind_key_inj helm_key_inj addons_key_inj identity_key_inj cr_key_inj cve_key_inj

lemma cluster_key_inj: "cluster_key a = cluster_key b \<longleftrightarrow> a = b"
  by (cases a; cases b) (simp_all add: part_key_inj)

text \<open>
  two queries never share a cache entry: different factories, or one factory with
  different arguments, give different keys.
\<close>

theorem query_key_inj: "query_key p = query_key q \<longleftrightarrow> p = q"
  by (cases p; cases q) (simp_all add: cluster_key_inj)

text \<open>
  invalidating by the prefix of a kind reaches exactly the queries of that kind in that
  cluster; in particular neither another cluster, nor another kind, nor the dirty marks of an
  open editor.
\<close>

theorem kind_prefix_exact:
  "prefix (query_key (QCluster c (CKind kind KAll))) (query_key q) \<longleftrightarrow>
     (\<exists>k. q = QCluster c (CKind kind k))"
proof (cases q)
  case (QCluster d k)
  then show ?thesis by (cases k) auto
qed simp_all

end
