(* ===== verification/ResourceStream.thy ===== *)
theory ResourceStream
  imports ListShape QueryKeys
begin

text \<open>
  Model of \<open>web/src/hooks/useResourceStream.ts\<close>: the reduction of watch deltas onto the cached
  list, the related caches an event makes stale, and the hook itself as an event machine
  (server events, timers, tab visibility, unmount). The query client is not part of the
  repository: the list entry the hook writes is a field of the state, every other command to it
  is recorded in the order given. A closed event source delivers no more events.
\<close>

section \<open>Deltas\<close>

datatype stream_status = Connecting | Live | Reconnecting | PollingFallback

datatype delta_type = DAdded | DModified | DDeleted

datatype delta = Delta (delta_type: delta_type) (delta_row: jsval)

definition apply_delta :: "string \<Rightarrow> jsval \<Rightarrow> delta \<Rightarrow> jsval" where
  "apply_delta kind lst d =
     (case d of
        Delta DAdded row \<Rightarrow> add_row_to_list lst kind row
      | Delta DModified row \<Rightarrow> patch_row_in_list lst kind row (\<lambda>_. row)
      | Delta DDeleted row \<Rightarrow> remove_row_from_list lst kind row)"

definition apply_deltas :: "string \<Rightarrow> jsval \<Rightarrow> delta list \<Rightarrow> jsval" where
  "apply_deltas kind current deltas =
     (if \<not> js_truthy current then current else foldl (apply_delta kind) current deltas)"

definition wrap_snapshot :: "string \<Rightarrow> jsval \<Rightarrow> jsval option" where
  "wrap_snapshot kind items = map_option (\<lambda>field. JObj [(field, items)]) (map_of list_items_key kind)"

definition kind_to_plural :: "(string \<times> string) list" where
  "kind_to_plural = fold (\<lambda>(plural, m). AList.update (km_kind m) plural) kind_registry []"

definition pod_aggregating_parents :: "string list" where
  "pod_aggregating_parents =
     [''deployments'', ''statefulsets'', ''daemonsets'', ''replicasets'', ''jobs'', ''cronjobs'',
      ''services'']"

section \<open>Commands to the query client\<close>

datatype client_command =
    InvalidateKey query_key
  | InvalidateParents string string "string option"
  | InvalidatePanels
  | MergeDetail query_key jsval
  | CancelExact query_key
  | ShowToast string
  | SignIn

text \<open>The predicates the two sweeping invalidations hand to the client.\<close>

definition key_part_is :: "query_key \<Rightarrow> nat \<Rightarrow> string \<Rightarrow> bool" where
  "key_part_is key i s = (i < length key \<and> key ! i = KStr s)"

fun array_items :: "jsval \<Rightarrow> jsval list" where
  "array_items (JArr xs) = xs"
| "array_items _ = []"

definition parent_matches ::
  "string \<Rightarrow> string \<Rightarrow> string \<Rightarrow> string option \<Rightarrow> query_key \<Rightarrow> jsval \<Rightarrow> bool" where
  "parent_matches cluster parent ns owned key data =
     (if \<not> (key_part_is key 0 ''cluster'' \<and> key_part_is key 1 cluster \<and> key_part_is key 2 ''kind''
            \<and> key_part_is key 3 parent \<and> key_part_is key 4 ''detail'' \<and> key_part_is key 5 ns)
      then False
      else (case owned of
              None \<Rightarrow> True
            | Some pod \<Rightarrow>
                if \<not> js_truthy data \<or> \<not> js_truthy (get_prop data ''pods'') then False
                else \<exists>p \<in> set (array_items (get_prop data ''pods'')). get_prop p ''name'' = JStr pod))"

definition panel_matches :: "string \<Rightarrow> string \<Rightarrow> query_key \<Rightarrow> bool" where
  "panel_matches cluster resource key =
     (key_part_is key 0 ''cluster'' \<and> key_part_is key 1 cluster \<and> key_part_is key 2 ''kind''
      \<and> key_part_is key 3 resource
      \<and> (key_part_is key 4 ''detail'' \<or> key_part_is key 4 ''events'' \<or> key_part_is key 4 ''meta''))"

definition row_target :: "string \<Rightarrow> jsval \<Rightarrow> string option" where
  "row_target resource row =
     (if resource = ''events''
      then (case get_prop row ''kind'' of
              JStr k \<Rightarrow> if k \<noteq> [] then map_of kind_to_plural k else None
            | _ \<Rightarrow> None)
      else Some resource)"

text \<open>The first loop of \<open>invalidateRelated\<close>; \<open>seen\<close> holds the tags met so far.\<close>

fun invalidate_direct :: "string \<Rightarrow> string \<Rightarrow> string list \<Rightarrow> delta list \<Rightarrow> client_command list" where
  "invalidate_direct cluster resource seen [] = []"
| "invalidate_direct cluster resource seen (d # ds) =
     (case row_target resource (delta_row d) of
        None \<Rightarrow> invalidate_direct cluster resource seen ds
      | Some kind \<Rightarrow>
          (let ns = row_namespace (delta_row d);
               name = row_name (delta_row d);
               tag = kind @ '' '' @ ns @ '' '' @ name;
               key = (\<lambda>k. query_key (QCluster cluster (CKind kind k)))
           in if tag \<in> set seen then invalidate_direct cluster resource seen ds
              else [InvalidateKey (key (KDetail ns name)), InvalidateKey (key (KEvents ns name)),
                    InvalidateKey (key (KMeta ns name))]
                   @ invalidate_direct cluster resource (tag # seen) ds))"

definition invalidate_parents :: "string \<Rightarrow> delta list \<Rightarrow> client_command list" where
  "invalidate_parents resource deltas =
     (if resource = ''pods''
      then concat (map (\<lambda>d. map (\<lambda>parent. InvalidateParents parent (row_namespace (delta_row d))
                                  (if delta_type d \<noteq> DAdded then Some (row_name (delta_row d)) else None))
                            pod_aggregating_parents) deltas)
      else [])"

definition invalidate_related :: "string \<Rightarrow> string \<Rightarrow> delta list \<Rightarrow> client_command list" where
  "invalidate_related cluster resource deltas =
     invalidate_direct cluster resource [] deltas @ invalidate_parents resource deltas"

text \<open>The update \<open>patchDetailFromRows\<close> hands to the client for a cached detail.\<close>

definition merge_detail :: "jsval \<Rightarrow> jsval \<Rightarrow> jsval" where
  "merge_detail current row =
     (if is_plain_object current \<or> is_array current
      then JObj (spread (own_entries current) (own_entries row)) else current)"

fun patch_detail_rows :: "string \<Rightarrow> string \<Rightarrow> string list \<Rightarrow> jsval list \<Rightarrow> client_command list" where
  "patch_detail_rows cluster resource seen [] = []"
| "patch_detail_rows cluster resource seen (row # rows) =
     (let tag = row_namespace row @ '' '' @ row_name row;
          key = query_key (QCluster cluster (CKind resource
                  (KDetail (row_namespace row) (row_name row))))
      in if tag \<in> set seen then patch_detail_rows cluster resource seen rows
         else [MergeDetail key row, CancelExact key]
              @ patch_detail_rows cluster resource (tag # seen) rows)"

definition patch_detail_from_rows :: "string \<Rightarrow> string \<Rightarrow> jsval list \<Rightarrow> client_command list" where
  "patch_detail_from_rows cluster resource rows =
     (if resource = ''events'' then [] else patch_detail_rows cluster resource [] rows)"

definition build_watch_url :: "string \<Rightarrow> string \<Rightarrow> string option \<Rightarrow> string" where
  "build_watch_url cluster resource ns =
     (let base = ''/api/clusters/'' @ encode_uri_component cluster @ ''/'' @ resource @ ''/watch''
      in case ns of
           Some n \<Rightarrow> if n \<noteq> [] then base @ ''?namespace='' @ encode_uri_component n else base
         | None \<Rightarrow> base)"

section \<open>The hook\<close>

record stream_args =
  sa_cluster :: string
  sa_resource :: string
  sa_status :: stream_status

text \<open>\<open>sa_status\<close> is the status of the render whose effect this is (captured by the closure).\<close>

record stream =
  st_status :: stream_status
  st_closed :: bool
  st_open :: bool
  st_buffer :: "delta list"
  st_flush :: bool
  st_vis :: bool
  st_attempts :: nat
  st_last_error :: int
  st_list :: jsval
  st_commands :: "client_command list"

datatype stream_event =
    SvSnapshot "jsval option"
  | SvDelta delta_type "jsval option"
  | SvRelist
  | SvShutdown
  | SvBackpressure
  | SvAuthExpired
  | SvError int
  | TimerFlush
  | TimerHide
  | TabHidden
  | TabVisible
  | Unmount
  | ListFetched jsval

definition max_reconnect_attempts :: nat where
  "max_reconnect_attempts = 4"

definition initial_stream :: "jsval \<Rightarrow> stream" where
  "initial_stream cached =
     \<lparr>st_status = Connecting, st_closed = False, st_open = True, st_buffer = [], st_flush = False,
      st_vis = False, st_attempts = 0, st_last_error = 0, st_list = cached, st_commands = []\<rparr>"

definition flush :: "stream_args \<Rightarrow> stream \<Rightarrow> stream" where
  "flush a s =
     (let s1 = s\<lparr>st_flush := False\<rparr>
      in if st_closed s1 \<or> st_buffer s1 = [] then s1
         else let deltas = st_buffer s1
              in s1\<lparr>st_buffer := [],
                    st_list := apply_deltas (sa_resource a) (st_list s1) deltas,
                    st_commands := st_commands s1
                      @ patch_detail_from_rows (sa_cluster a) (sa_resource a)
                          (map delta_row (filter (\<lambda>d. delta_type d \<noteq> DDeleted) deltas))
                      @ invalidate_related (sa_cluster a) (sa_resource a) deltas,
                    st_status := Live, st_attempts := 0, st_last_error := 0\<rparr>)"

text \<open>The handlers; a JSON text that does not parse is \<open>None\<close>.\<close>

definition on_snapshot :: "stream_args \<Rightarrow> jsval option \<Rightarrow> stream \<Rightarrow> stream" where
  "on_snapshot a msg s =
     (if st_closed s then s
      else (case msg of
              None \<Rightarrow> s
            | Some body \<Rightarrow>
                if body = JNull \<or> body = JUndefined then s
                else s\<lparr>st_list := (case wrap_snapshot (sa_resource a) (get_prop body ''items'') of
                                    None \<Rightarrow> st_list s | Some v \<Rightarrow> v),
                       st_commands := st_commands s @ [InvalidatePanels],
                       st_attempts := 0, st_last_error := 0, st_status := Live\<rparr>))"

definition accepted_row :: "jsval option \<Rightarrow> jsval option" where
  "accepted_row msg =
     (case msg of
        None \<Rightarrow> None
      | Some body \<Rightarrow>
          (if body = JNull \<or> body = JUndefined then None
           else let obj = get_prop body ''object''
                in if \<not> js_truthy obj then None
                   else (case get_prop obj ''name'' of JStr _ \<Rightarrow> Some obj | _ \<Rightarrow> None)))"

definition enqueue_delta :: "delta_type \<Rightarrow> jsval option \<Rightarrow> stream \<Rightarrow> stream" where
  "enqueue_delta t msg s =
     (if st_closed s then s
      else (case accepted_row msg of
              None \<Rightarrow> s
            | Some row \<Rightarrow> s\<lparr>st_buffer := st_buffer s @ [Delta t row], st_flush := True\<rparr>))"

definition on_disruption :: "stream \<Rightarrow> stream" where
  "on_disruption s = (if st_closed s then s else s\<lparr>st_status := Reconnecting\<rparr>)"

definition on_auth_expired :: "stream \<Rightarrow> stream" where
  "on_auth_expired s =
     s\<lparr>st_closed := True, st_open := False,
       st_commands := st_commands s @ [ShowToast (''Session expired '' @ em_dash @ '' signing in again''),
                                       SignIn]\<rparr>"

definition on_error :: "int \<Rightarrow> stream \<Rightarrow> stream" where
  "on_error now s =
     (if st_closed s then s
      else let s1 = s\<lparr>st_status := Reconnecting\<rparr>
           in if now - st_last_error s1 < 1000 then s1
              else let s2 = s1\<lparr>st_last_error := now, st_attempts := st_attempts s1 + 1\<rparr>
                   in if max_reconnect_attempts \<le> st_attempts s2
                      then s2\<lparr>st_closed := True, st_open := False, st_status := PollingFallback\<rparr>
                      else s2)"

definition on_visible :: "stream_args \<Rightarrow> stream \<Rightarrow> stream" where
  "on_visible a s =
     (let s1 = s\<lparr>st_vis := False\<rparr>
      in if \<not> st_open s1 \<and> \<not> st_closed s1 \<and> sa_status a \<noteq> PollingFallback
         then s1\<lparr>st_attempts := 0, st_last_error := 0, st_status := Connecting, st_open := True\<rparr>
         else s1)"

fun stream_step :: "stream_args \<Rightarrow> stream \<Rightarrow> stream_event \<Rightarrow> stream" where
  "stream_step a s (SvSnapshot m) = (if st_open s then on_snapshot a m s else s)"
| "stream_step a s (SvDelta t m) = (if st_open s then enqueue_delta t m s else s)"
| "stream_step a s SvRelist = (if st_open s then on_disruption s else s)"
| "stream_step a s SvShutdown = (if st_open s then on_disruption s else s)"
| "stream_step a s SvBackpressure = (if st_open s then on_disruption s else s)"
| "stream_step a s SvAuthExpired = (if st_open s then on_auth_expired s else s)"
| "stream_step a s (SvError now) = (if st_open s then on_error now s else s)"
| "stream_step a s TimerFlush = (if st_flush s then flush a s else s)"
| "stream_step a s TimerHide = (if st_vis s then s\<lparr>st_vis := False, st_open := False\<rparr> else s)"
| "stream_step a s TabHidden = s\<lparr>st_vis := True\<rparr>"
| "stream_step a s TabVisible = on_visible a s"
| "stream_step a s Unmount =
     s\<lparr>st_closed := True, st_flush := False, st_vis := False, st_open := False\<rparr>"
| "stream_step a s (ListFetched v) = s\<lparr>st_list := v\<rparr>"

end
