(* ===== verification/ApiRoutesSafety.thy ===== *)
theory ApiRoutesSafety
  imports ApiRoutes ResourceStream
begin

text \<open>
  The contract between console and server: every request of the client has a registered route,
  and the URLs of objects and shells name exactly one object.
\<close>

section \<open>Requests as segments\<close>

lemma plain_literal_simps [simp]:
  "plain_segment [] \<longleftrightarrow> True"
  "plain_segment (c # s) \<longleftrightarrow> c \<noteq> CHR ''/'' \<and> c \<noteq> CHR ''?'' \<and> c \<noteq> CHR ''#'' \<and> plain_segment s"
  by (auto simp: plain_segment_def)

lemma namespace_query_start [simp]: "namespace_query ns = [] \<or> hd (namespace_query ns) = CHR ''?''"
  by (simp add: namespace_query_def split: option.split)

definition query_start :: "string \<Rightarrow> bool" where
  "query_start q \<longleftrightarrow> q = [] \<or> hd q = CHR ''?''"

lemma query_start_simps [simp]:
  "query_start []" "query_start (CHR ''?'' # q)" "query_start (namespace_query ns)"
  "query_start (query_suffix ps)" "query_start (if b then q1 else q2) = (if b then query_start q1 else query_start q2)"
  by (simp_all add: query_start_def)

lemma segments_query:
  "segs \<noteq> [] \<Longrightarrow> list_all plain_segment segs \<Longrightarrow> query_start q \<Longrightarrow>
     path_segments (url_path segs @ q) = segs"
  by (rule path_segments_url) (auto simp: query_start_def list_all_iff)

lemma segments_plain:
  "segs \<noteq> [] \<Longrightarrow> list_all plain_segment segs \<Longrightarrow> path_segments (url_path segs) = segs"
  using segments_query [of segs "[]"] by simp

lemmas segment_simps = segments_query segments_plain

lemma fits_cluster:
  "list_ex (\<lambda>(m', pat). m' = m \<and> fits pat (''api'' # ''clusters'' # c # segs))
     (map (\<lambda>(m, segs). (m, Lit ''api'' # Lit ''clusters'' # Param # segs)) rs) \<longleftrightarrow>
   c \<noteq> [] \<and> list_ex (\<lambda>(m', pat). m' = m \<and> fits pat segs) rs"
  by (induction rs) auto

definition routed :: "http_method \<Rightarrow> string list \<Rightarrow> route list \<Rightarrow> bool" where
  "routed m segs rs \<longleftrightarrow> list_ex (\<lambda>(m', pat). m' = m \<and> fits pat segs) rs"

lemma routed_simps [simp]:
  "\<not> routed m segs []"
  "routed m segs ((m', pat) # rs) \<longleftrightarrow> m' = m \<and> fits pat segs \<or> routed m segs rs"
  "routed m segs (rs @ rs') \<longleftrightarrow> routed m segs rs \<or> routed m segs rs'"
  by (auto simp: routed_def)

text \<open>A request below a cluster is served when its remaining segments are routed.\<close>

lemma served_cluster_query:
  assumes "routed m segs cluster_routes" "c \<noteq> []" "list_all plain_segment (c # segs)" "query_start q"
  shows "served m (url_path (''api'' # ''clusters'' # c # segs) @ q)"
proof -
  have "path_segments (url_path (''api'' # ''clusters'' # c # segs) @ q) =
      ''api'' # ''clusters'' # c # segs"
    by (rule segments_query) (use assms in simp_all)
  then show ?thesis
    using assms(1,2) fits_cluster [of m c segs cluster_routes]
    by (simp add: served_def backend_routes_def routed_def)
qed

lemma served_cluster:
  "routed m segs cluster_routes \<Longrightarrow> c \<noteq> [] \<Longrightarrow> list_all plain_segment (c # segs) \<Longrightarrow>
     served m (url_path (''api'' # ''clusters'' # c # segs))"
  using served_cluster_query [of m segs c "[]"] by simp

lemma empty_enc [simp]: "[] = enc s \<longleftrightarrow> s = []"
  using encode_empty by metis

lemmas request_simps = segment_simps get_json_with_def send_json_def delete_json_def get_text_def
  ns_url_def cluster_scoped_url_def served_cluster served_cluster_query

lemma routed_kind:
  "routed m segs (map (\<lambda>k. (GET, Lit k # pat)) ks) \<longleftrightarrow>
     m = GET \<and> (case segs of [] \<Rightarrow> False | s # rest \<Rightarrow> s \<in> set ks \<and> fits pat rest)"
  by (induction ks) (auto split: list.split)

lemmas route_tables = cluster_routes_def helm_routes_def aws_routes_def object_routes_def
  kind_routes_def routed_kind

lemma served_global:
  "routed m segs global_routes \<Longrightarrow> segs \<noteq> [] \<Longrightarrow> list_all plain_segment segs \<Longrightarrow> query_start q \<Longrightarrow>
     served m (url_path segs @ q)"
  using segments_query [of segs q]
  by (simp add: served_def backend_routes_def routed_def)

lemma served_global_plain:
  "routed m segs global_routes \<Longrightarrow> segs \<noteq> [] \<Longrightarrow> list_all plain_segment segs \<Longrightarrow>
     served m (url_path segs)"
  using served_global [of m segs "[]"] by simp

lemmas global_simps = served_global served_global_plain global_routes_def

lemmas kind_tables = listed_kinds_def namespaced_kinds_def cluster_wide_kinds_def
  namespaced_event_kinds_def cluster_event_kinds_def log_kinds_def

text \<open>Every segment of the path is non-empty: the caller gave a cluster and names.\<close>

abbreviation named :: "http_request \<Rightarrow> bool" where
  "named r \<equiv> [] \<notin> set (path_segments (hr_url r))"

abbreviation served_request :: "http_request \<Rightarrow> bool" where
  "served_request r \<equiv> served (hr_method r) (hr_url r)"

lemma served_eks: "named (eks_request call) \<Longrightarrow> served_request (eks_request call)"
  by (cases call) (simp_all add: request_simps route_tables)

lemma served_core: "named (core_request call) \<Longrightarrow> served_request (core_request call)"
  by (cases call) (simp_all add: request_simps route_tables global_simps)

lemma served_list: "named (list_request fn c ns) \<Longrightarrow> served_request (list_request fn c ns)"
  by (cases fn) (simp_all add: request_simps route_tables kind_tables)

lemma served_detail: "named (detail_request call) \<Longrightarrow> served_request (detail_request call)"
  by (cases call) (simp_all add: request_simps route_tables kind_tables)

lemma served_access: "named (access_request call) \<Longrightarrow> served_request (access_request call)"
  by (cases call) (simp_all add: request_simps route_tables kind_tables)

lemma served_extra: "named (extra_request call) \<Longrightarrow> served_request (extra_request call)"
  by (cases call) (simp_all add: request_simps route_tables kind_tables)

lemma served_helm: "named (helm_request call) \<Longrightarrow> served_request (helm_request call)"
  by (cases call) (simp_all add: request_simps route_tables split: option.split)

lemma served_helm_action: "named (helm_action_request call) \<Longrightarrow> served_request (helm_action_request call)"
  by (cases call) (simp_all add: request_simps route_tables)

lemma served_rollout: "named (rollout_request call) \<Longrightarrow> served_request (rollout_request call)"
  by (cases call) (simp_all add: request_simps route_tables)

lemma served_identity: "named (identity_request call) \<Longrightarrow> served_request (identity_request call)"
  by (cases call) (simp_all add: request_simps route_tables global_simps)

lemma served_cve: "named (cve_request call) \<Longrightarrow> served_request (cve_request call)"
  by (cases call) (simp_all add: request_simps route_tables split: option.split)

lemma kind_plain:
  "kind \<in> set namespaced_kinds \<Longrightarrow> plain_segment kind"
  "is_cluster_scoped_kind kind \<Longrightarrow> plain_segment kind"
  "kind \<in> set namespaced_event_kinds \<Longrightarrow> plain_segment kind"
  "kind \<in> set cluster_event_kinds \<Longrightarrow> plain_segment kind"
  by (auto simp: kind_tables is_cluster_scoped_kind_def cluster_scoped_kinds_def)

lemma namespaced_yaml_kind:
  "kind \<in> set yaml_kinds \<Longrightarrow> \<not> is_cluster_scoped_kind kind \<Longrightarrow> kind \<in> set namespaced_kinds"
  by (auto simp: yaml_kinds_def is_cluster_scoped_kind_def cluster_scoped_kinds_def namespaced_kinds_def)

lemma cluster_wide_kind: "is_cluster_scoped_kind kind \<Longrightarrow> kind \<in> set cluster_wide_kinds"
  by (auto simp: is_cluster_scoped_kind_def cluster_scoped_kinds_def cluster_wide_kinds_def)

text \<open>The kinds whose events the types let the client ask for while the server has no route.\<close>

fun unrouted_events :: "api_call \<Rightarrow> bool" where
  "unrouted_events (ObjectCall (Events c kind ns name)) \<longleftrightarrow>
     kind \<in> {''roles'', ''rolebindings'', ''serviceaccounts''}"
| "unrouted_events (ObjectCall (ClusterScopedEvents c kind name)) \<longleftrightarrow>
     kind \<in> {''clusterroles'', ''clusterrolebindings'', ''ingressclasses'', ''priorityclasses'',
       ''runtimeclasses'', ''nodes''}"
| "unrouted_events _ \<longleftrightarrow> False"

lemma event_kinds:
  "kind \<in> set yaml_kinds \<Longrightarrow> \<not> is_cluster_scoped_kind kind \<Longrightarrow>
     kind \<notin> {''roles'', ''rolebindings'', ''serviceaccounts''} \<Longrightarrow> kind \<in> set namespaced_event_kinds"
  "is_cluster_scoped_kind kind \<Longrightarrow>
     kind \<notin> {''clusterroles'', ''clusterrolebindings'', ''ingressclasses'', ''priorityclasses'',
       ''runtimeclasses'', ''nodes''} \<Longrightarrow> kind \<in> set cluster_event_kinds"
  by (auto simp: yaml_kinds_def is_cluster_scoped_kind_def cluster_scoped_kinds_def kind_tables)

lemma served_below_cluster:
  assumes "list_all plain_segment (c # segs)"
  shows "served m (url_path (''api'' # ''clusters'' # c # segs)) \<longleftrightarrow>
     routed m (''api'' # ''clusters'' # c # segs) global_routes \<or> c \<noteq> [] \<and> routed m segs cluster_routes"
proof -
  have "path_segments (url_path (''api'' # ''clusters'' # c # segs)) = ''api'' # ''clusters'' # c # segs"
    by (rule segments_plain) (use assms in simp_all)
  then show ?thesis
    using fits_cluster [of m c segs cluster_routes] by (simp add: served_def backend_routes_def routed_def)
qed

lemma no_events_route:
  "kind \<in> {''roles'', ''rolebindings'', ''serviceaccounts''} \<Longrightarrow>
     \<not> routed GET [kind, ns, name, ''events''] cluster_routes"
  "kind \<in> {''clusterroles'', ''clusterrolebindings'', ''ingressclasses'', ''priorityclasses'',
       ''runtimeclasses'', ''nodes''} \<Longrightarrow> \<not> routed GET [kind, name, ''events''] cluster_routes"
  by (auto simp: route_tables kind_tables watch_kinds_def)

lemma unrouted_not_served:
  assumes "unrouted_events call"
  shows "\<not> served (hr_method (api_request call)) (hr_url (api_request call))"
proof -
  have below: "\<not> served GET (url_path [''api'', ''clusters'', enc c, kind, enc ns, enc name, ''events''])"
    if "kind \<in> {''roles'', ''rolebindings'', ''serviceaccounts''}" for c kind ns name
    using that no_events_route(1) [OF that]
    by (subst served_below_cluster) (auto simp: global_routes_def)
  have wide: "\<not> served GET (url_path [''api'', ''clusters'', enc c, kind, enc name, ''events''])"
    if "kind \<in> {''clusterroles'', ''clusterrolebindings'', ''ingressclasses'', ''priorityclasses'',
       ''runtimeclasses'', ''nodes''}" for c kind name
    using that no_events_route(2) [OF that]
    by (subst served_below_cluster) (auto simp: global_routes_def)
  show ?thesis using assms
    by (cases call rule: unrouted_events.cases)
       (use below wide in \<open>auto simp: get_json_with_def ns_url_def cluster_scoped_url_def\<close>)
qed

lemma served_object:
  assumes "named (object_request call)" "kind_ok (ObjectCall call)" "\<not> unrouted_events (ObjectCall call)"
  shows "served_request (object_request call)"
proof (cases call)
  case (Yaml c kind ns name)
  then have "kind \<in> set namespaced_kinds" using assms(2) namespaced_yaml_kind by simp
  then show ?thesis
    using Yaml assms(1) by (simp add: request_simps route_tables kind_plain)
next
  case (ClusterScopedYaml c kind name)
  then have "is_cluster_scoped_kind kind" using assms(2) by simp
  then show ?thesis
    using ClusterScopedYaml assms(1) by (simp add: request_simps route_tables kind_plain cluster_wide_kind)
next
  case (Events c kind ns name)
  then have "kind \<in> set namespaced_event_kinds" using assms(2,3) event_kinds(1) by simp
  then show ?thesis using Events assms(1) by (simp add: request_simps route_tables kind_plain)
next
  case (ClusterScopedEvents c kind name)
  then have "kind \<in> set cluster_event_kinds" using assms(2,3) event_kinds(2) by simp
  then show ?thesis using ClusterScopedEvents assms(1) by (simp add: request_simps route_tables kind_plain)
qed (use assms(1) in \<open>simp_all add: request_simps route_tables kind_tables\<close>)

definition in_namespace :: "resource_ref \<Rightarrow> bool" where
  "in_namespace r \<longleftrightarrow> rf_namespace r \<notin> {None, Some []}"

lemma resource_segments_cases:
  "resource_segments r =
     ''resources'' # enc (if rf_group r = [] then ''core'' else rf_group r) # enc (rf_version r) #
       enc (rf_resource r) #
       (if in_namespace r then [enc (the (rf_namespace r)), enc (rf_name r)] else [enc (rf_name r)])"
  by (auto simp: in_namespace_def resource_segments_def Let_def split: option.split)

lemma meta_path: "url_path segs @ ''/meta'' = url_path (segs @ [''meta''])"
  by (simp add: url_path_def)

lemma served_write: "named (write_request call) \<Longrightarrow> served_request (write_request call)"
  by (cases call)
     (simp_all add: request_simps route_tables apply_resource_fetch_def delete_resource_fetch_def
       meta_url_def meta_path resource_url_def resource_segments_cases open_api_url_def split: if_splits)

text \<open>
  C30: The console's endpoints are the server's, but for the events of nine kinds. A request of the
  API client whose path names its objects and whose kind has the parameter's type is registered
  with its method in the server's route table, exactly unless it asks for the events of a role, a
  role binding, a service account or one of six cluster-scoped kinds.
\<close>

theorem every_request_has_a_route:
  assumes "[] \<notin> set (path_segments (hr_url (api_request call)))" "kind_ok call"
  shows "served (hr_method (api_request call)) (hr_url (api_request call)) \<longleftrightarrow> \<not> unrouted_events call"
proof (cases "unrouted_events call")
  case True
  then show ?thesis using unrouted_not_served by blast
next
  case False
  then have "served (hr_method (api_request call)) (hr_url (api_request call))"
    using assms
    by (cases call)
       (simp_all add: served_core served_list served_detail served_access served_object served_extra
         served_write served_helm served_helm_action served_rollout served_eks served_identity served_cve
         mint_agent_token_def record_bulk_download_def request_simps route_tables global_simps)
  then show ?thesis using False by simp
qed

theorem every_request_has_a_route_witness:
  "served DELETE (hr_url (api_request (HelmAction (HelmUninstall ''prod'' ''web'' ''shop'' True False))))"
  using every_request_has_a_route [of "HelmAction (HelmUninstall ''prod'' ''web'' ''shop'' True False)"]
  by (simp add: request_simps)

section \<open>Streams and sockets\<close>

lemma watch_url: "build_watch_url c kind ns = cluster_url c [kind, ''watch''] @ namespace_query ns"
  by (simp add: build_watch_url_def namespace_query_def url_path_def split: option.split)

lemma watch_kind_plain: "kind \<in> set watch_kinds \<Longrightarrow> plain_segment kind"
  by (auto simp: watch_kinds_def)

text \<open>
  The long-lived connections go to registered routes too: the log stream of every source, the
  watch of every kind of the server's registry, and the pod, cluster and node shells.
\<close>

theorem streams_have_routes:
  assumes "c \<noteq> []" "ns \<noteq> []" "name \<noteq> []" "kind \<in> set watch_kinds"
  shows "served GET (log_url source c ns name ps) \<and> served GET (build_watch_url c kind any_ns) \<and>
    served GET (exec_path c ns name) \<and> served GET (cluster_shell_path c) \<and>
    served GET (node_shell_path c name)"
proof (intro conjI)
  show "served GET (log_url source c ns name ps)"
    using assms by (cases source) (simp_all add: log_url_def request_simps route_tables kind_tables)
  show "served GET (build_watch_url c kind any_ns)"
    using assms by (simp add: watch_url request_simps route_tables watch_kind_plain)
qed (use assms in \<open>simp_all add: exec_path_def cluster_shell_path_def node_shell_path_def
       request_simps route_tables\<close>)

theorem streams_have_routes_witness:
  "served GET (log_url LogJob ''c'' ''ns'' ''backup'' [(''follow'', ''true'')]) \<and>
   served GET (node_shell_path ''c'' ''backup'')"
  using streams_have_routes [of "''c''" "''ns''" "''backup''" "''pods''"]
  by (simp add: watch_kinds_def)

section \<open>One URL, one object\<close>

text \<open>
  C31: A write never reaches another object: two object URLs are equal only when cluster, group,
  version, resource, namespace and name are, whatever characters they hold. An absent and an empty
  namespace count as the same, and no group is named core, which the URL writes for the empty group.
\<close>

theorem object_url_names_one_object:
  assumes "rf_group r \<noteq> ''core''" "rf_group r' \<noteq> ''core''" "resource_url r = resource_url r'"
  shows "rf_cluster r = rf_cluster r' \<and> rf_group r = rf_group r' \<and> rf_version r = rf_version r' \<and>
    rf_resource r = rf_resource r' \<and> rf_name r = rf_name r' \<and>
    (rf_namespace r = rf_namespace r' \<or>
     rf_namespace r \<in> {None, Some []} \<and> rf_namespace r' \<in> {None, Some []})"
proof -
  have "path_segments (resource_url r) = [''api'', ''clusters'', enc (rf_cluster r)] @ resource_segments r" for r
    unfolding resource_url_def by (rule segments_plain) (simp_all add: resource_segments_cases)
  then have "enc (rf_cluster r) # resource_segments r = enc (rf_cluster r') # resource_segments r'"
    using assms(3) by (metis append_Cons append_Nil list.inject)
  then show ?thesis
    using assms(1,2)
    by (cases "in_namespace r"; cases "in_namespace r'")
       (auto simp: resource_segments_cases in_namespace_def split: if_splits)
qed

definition sample_ref :: "string option \<Rightarrow> string \<Rightarrow> resource_ref" where
  "sample_ref ns name =
     \<lparr>rf_cluster = ''prod'', rf_group = [], rf_version = ''v1'', rf_resource = ''pods'',
      rf_namespace = ns, rf_name = name\<rparr>"

theorem object_url_names_one_object_witness:
  "resource_url (sample_ref None ''x/y'') = resource_url (sample_ref (Some []) ''x/y'')
   \<and> rf_name (sample_ref None ''x/y'') = rf_name (sample_ref (Some []) ''x/y'')
   \<and> resource_url (sample_ref None ''x/y'') \<noteq> resource_url (sample_ref (Some ''x'') ''y'')"
proof -
  have eq: "resource_url (sample_ref None ''x/y'') = resource_url (sample_ref (Some []) ''x/y'')"
    by (simp add: sample_ref_def resource_url_def resource_segments_def)
  have core: "rf_group (sample_ref ns name) \<noteq> ''core''" for ns name by (simp add: sample_ref_def)
  have "rf_name (sample_ref None ''x/y'') = rf_name (sample_ref (Some []) ''x/y'')"
    using object_url_names_one_object [OF core core eq] by blast
  moreover have "resource_url (sample_ref None ''x/y'') \<noteq> resource_url (sample_ref (Some ''x'') ''y'')"
    using object_url_names_one_object [OF core core, of None "''x/y''" "Some ''x''" "''y''"]
    by (auto simp: sample_ref_def)
  ultimately show ?thesis using eq by blast
qed

text \<open>
  A pod shell's socket URL determines cluster, namespace and pod.
\<close>

theorem exec_url_names_one_pod:
  assumes "build_exec_url stringify https host c ns pod container command tty =
    build_exec_url stringify https host c' ns' pod' container' command' tty'"
  shows "c = c' \<and> ns = ns' \<and> pod = pod'"
proof -
  have eq: "exec_path c ns pod @ query_suffix (exec_params stringify container command tty) =
      exec_path c' ns' pod' @ query_suffix (exec_params stringify container' command' tty')"
    using assms by (simp add: build_exec_url_def ws_url_def)
  have segs: "path_segments (exec_path c ns pod @ query_suffix ps) =
      [''api'', ''clusters'', enc c, ''pods'', enc ns, enc pod, ''exec'']" for c ns pod ps
    unfolding exec_path_def by (simp add: segments_query)
  show ?thesis
    using arg_cong [OF eq, of path_segments] unfolding segs by simp
qed

theorem exec_url_names_one_pod_witness:
  "''a/b'' = ''a'' @ ''/b'' \<and> ''n'' = ''n'' \<and> ''p?'' = ''p?''"
  using exec_url_names_one_pod [of concat True "''h''" "''a/b''" "''n''" "''p?''" None None None
      "''a'' @ ''/b''" "''n''" "''p?''" None None None]
  by simp

text \<open>
  The audit page's filter by request id is dropped: the client sends it as \<open>requestId\<close>, which
  the server's query does not read.
\<close>

theorem audit_request_id_unread:
  "api_request (CoreCall (Audit [(''requestId'', JStr ''42'')])) =
     get_json (url_path [''api'', ''audit''] @ ''?requestId=42'') \<and>
   ''requestId'' \<notin> set audit_query_fields \<and> ''request_id'' \<in> set audit_query_fields"
  by code_simp

end
