(* ===== verification/Managers.thy ===== *)
theory Managers
  imports Prelude
begin

text \<open>
  Model of \<open>web/src/lib/managers.ts\<close>: the registry of known field managers, split by the
  groups of the source, and the classification of a manager name, by exact match first and
  then by the regular expressions, in the source's order. The object literal is an association
  list; \<open>classify_manager\<close> looks up its own keys.
\<close>

datatype manager_category = GITOPS | CONTROLLER | HUMAN | HELM | PERISCOPE | UNKNOWN

record registry_info =
  ri_category :: manager_category
  ri_display :: string
  ri_source :: string
  ri_consequence :: string
  ri_prefer :: string

record manager_info = registry_info +
  mi_name :: string

abbreviation registry_entry ::
  "manager_category \<Rightarrow> string \<Rightarrow> string \<Rightarrow> string \<Rightarrow> string \<Rightarrow> registry_info" where
  "registry_entry c d s q p \<equiv>
     \<lparr>ri_category = c, ri_display = d, ri_source = s, ri_consequence = q, ri_prefer = p\<rparr>"

definition named :: "string \<Rightarrow> registry_info \<Rightarrow> manager_info" where
  "named name r = \<lparr>ri_category = ri_category r, ri_display = ri_display r, ri_source = ri_source r,
     ri_consequence = ri_consequence r, ri_prefer = ri_prefer r, mi_name = name\<rparr>"

section \<open>The registry\<close>

definition registry_gitops :: "(string \<times> registry_info) list" where
  "registry_gitops =
    [
     (''kustomize-controller'', registry_entry GITOPS ''kustomize-controller'' ''flux-system''
        ''Flux will revert your change on the next reconcile (typically <5 min).''
        ''Edit the source repo (the Kustomization in Git) instead of forcing here.''),
     (''helm-controller'', registry_entry HELM ''helm-controller'' ''flux-system''
        ''Helm will revert your change on the next chart upgrade or drift correction.''
        ''Update the HelmRelease values in Git, or `helm upgrade` against the source chart.''),
     (''source-controller'', registry_entry GITOPS ''source-controller'' ''flux-system''
        ''Flux source-controller manages this artifact metadata; force-applying will be reverted.''
        ''Update the Git/Helm repository source instead.''),
     (''notification-controller'', registry_entry CONTROLLER ''notification-controller'' ''flux-system''
        ''Managed by Flux's notification controller; will be reset on reconcile.''
        ''''),
     (''argocd-application-controller'', registry_entry GITOPS ''argocd-application-controller'' ''argo-cd''
        ''ArgoCD will revert your change on the next sync (auto-sync = 3 min default).''
        ''Edit the source repo, or temporarily disable auto-sync for this Application.''),
     (''argocd-server'', registry_entry GITOPS ''argocd-server'' ''argo-cd''
        ''ArgoCD's API server manages this; force-applying will desync the Application.''
        ''Edit via ArgoCD UI/CLI to keep the Application state coherent.''),
     (''argocd-applicationset-controller'', registry_entry GITOPS ''argocd-applicationset-controller'' ''argo-cd''
        ''ArgoCD's ApplicationSet controller regenerates Applications from the generator; force-applying on a generated Application desyncs the set.''
        ''Edit the ApplicationSet generator (Git/cluster/list) instead of the generated Application.''),
     (''image-reflector-controller'', registry_entry GITOPS ''image-reflector-controller'' ''flux-system''
        ''Flux's image-reflector-controller manages this; reverts on next reconcile.''
        ''Update the ImageRepository spec in Git instead.''),
     (''image-automation-controller'', registry_entry GITOPS ''image-automation-controller'' ''flux-system''
        ''Flux's image-automation-controller manages this; reverts on next reconcile.''
        ''Update the ImageUpdateAutomation spec in Git instead.'')]"

definition registry_controllers :: "(string \<times> registry_info) list" where
  "registry_controllers =
    [
     (''cert-manager'', registry_entry CONTROLLER ''cert-manager'' ''cert-manager''
        ''cert-manager continuously reconciles Issuer/Certificate state; status fields will be reset on the next pass.''
        (''Edit the spec '' @ em_dash @ '' status fields (issued certs, conditions) are managed by the controller.'')),
     (''external-secrets'', registry_entry CONTROLLER ''external-secrets'' ''external-secrets''
        ''external-secrets reconciles values from upstream stores; force-applied secret data is overwritten on next sync.''
        ''Update the value in the upstream store (AWS Secrets Manager, Vault, etc.).''),
     (''horizontal-pod-autoscaler'', registry_entry CONTROLLER ''horizontal-pod-autoscaler'' ''kube-system''
        (''The HPA continuously sets this based on current load '' @ em_dash @ '' your value will be overwritten within seconds.'')
        ''Edit the HPA's min/max replica bounds instead of the Deployment directly.''),
     (''vertical-pod-autoscaler'', registry_entry CONTROLLER ''vertical-pod-autoscaler'' ''kube-system''
        ''VPA will reset resource requests/limits based on its recommendations.''
        ''Edit the VPA policy or pause its recommendations.''),
     (''deployment-controller'', registry_entry CONTROLLER ''deployment-controller'' ''kube-system''
        ''The Deployment controller manages this status field; force-applying server-managed fields is unsafe.''
        (''These are server-managed fields (status, observed generation, etc.) '' @ em_dash @ '' don't write them.'')),
     (''replicaset-controller'', registry_entry CONTROLLER ''replicaset-controller'' ''kube-system''
        ''ReplicaSet controller manages pod lifecycle; force-applying may be reverted on next pod sync.''
        ''''),
     (''kube-controller-manager'', registry_entry CONTROLLER ''kube-controller-manager'' ''kube-system''
        ''A core K8s controller manages this field; force-applying is rarely safe.''
        '''')]"

definition registry_humans :: "(string \<times> registry_info) list" where
  "registry_humans =
    [
     (''kubectl-edit'', registry_entry HUMAN ''kubectl-edit'' ''another operator''
        ''Another operator wrote this field manually with `kubectl edit`. Forcing will overwrite their change.''
        ''Coordinate with whoever last edited this resource before forcing.''),
     (''kubectl-client-side-apply'', registry_entry HUMAN ''kubectl (client-side apply)'' ''legacy kubectl''
        ''Old client-side-apply ownership. Generally safe to take.''
        ''Take ownership and use server-side apply going forward (`kubectl apply --server-side`).''),
     (''kubectl-create'', registry_entry HUMAN ''kubectl create'' ''kubectl''
        ''Initial create marker; safe to take ownership.''
        ''''),
     (''kubectl-patch'', registry_entry HUMAN ''kubectl patch'' ''kubectl''
        ''Direct patch from kubectl; force-applying will overwrite.''
        ''''),
     (''kubectl-rollout'', registry_entry HUMAN ''kubectl rollout'' ''kubectl''
        ''Set by `kubectl rollout restart` (or similar). Generally safe to take, but you'll lose the restart marker for any controller watching for it.''
        ''''),
     (''kubectl-apply'', registry_entry HUMAN ''kubectl (server-side apply)'' ''kubectl''
        ''Another operator wrote this field with `kubectl apply --server-side`. Forcing will overwrite their change.''
        ''Coordinate with whoever last edited this resource before forcing.''),
     (''kubectl-annotate'', registry_entry HUMAN ''kubectl annotate'' ''kubectl''
        ''Set by `kubectl annotate`; force-applying will overwrite.''
        ''''),
     (''kubectl-label'', registry_entry HUMAN ''kubectl label'' ''kubectl''
        ''Set by `kubectl label`; force-applying will overwrite.''
        ''''),
     (''kubectl-scale'', registry_entry HUMAN ''kubectl scale'' ''kubectl''
        (''Set by `kubectl scale`. If an HPA is also active, forcing here is futile '' @ em_dash @ '' the HPA will reset within seconds.'')
        ''Edit the HPA's min/max instead, or check if HPA is enabled before forcing.''),
     (''kubectl-set'', registry_entry HUMAN ''kubectl set'' ''kubectl''
        ''Set by `kubectl set image/env/resources/...`; force-applying will overwrite.''
        '''')]"

definition registry_internal :: "(string \<times> registry_info) list" where
  "registry_internal =
    [
     (''kube-apiserver'', registry_entry CONTROLLER ''kube-apiserver'' ''kube-system''
        ''Set by the apiserver during admission. Force-applying server-managed fields is unsafe.''
        ''These fields are typically read-only.''),
     (''periscope-spa'', registry_entry PERISCOPE ''periscope-spa'' ''this app''
        ''Already managed by Periscope.''
        '''')]"

definition registry :: "(string \<times> registry_info) list" where
  "registry = registry_gitops @ registry_controllers @ registry_humans @ registry_internal"

lemmas registry_defs = registry_def registry_gitops_def registry_controllers_def
  registry_humans_def registry_internal_def

section \<open>Classification\<close>

definition classify_manager :: "string \<Rightarrow> manager_info" where
  "classify_manager name =
     (let lower = to_lower name
      in case map_of registry name of
           Some exact \<Rightarrow> named name exact
         | None \<Rightarrow>
             if starts_with ''flux'' lower then
               named name (registry_entry GITOPS name ''flux-system''
                 ''Flux manages this; reverts on next reconcile.''
                 ''Edit the source repo instead of forcing here.'')
             else if ends_with ''-controller'' lower then
               named name (registry_entry CONTROLLER name ''in-cluster controller''
                 ''An in-cluster controller manages this field; it may be reset by the control loop.''
                 [])
             else if ends_with ''-operator'' lower then
               named name (registry_entry GITOPS name ''operator''
                 ''An operator manages this resource; force-applying may be reverted on next reconcile.''
                 ''Edit the operator's CR/CRD instead of the managed resource.'')
             else if starts_with ''kubectl'' lower then
               named name (registry_entry HUMAN name ''kubectl''
                 ''Another operator wrote this field with kubectl. Forcing will overwrite their change.''
                 ''Coordinate with whoever last edited this resource before forcing.'')
             else if starts_with ''helm'' lower then
               named name (registry_entry HELM name ''helm''
                 ''Helm manages this field; reverts on next chart upgrade.'' [])
             else
               named name (registry_entry UNKNOWN name ''unknown''
                 (''Manager not classified '' @ em_dash @ '' outcome of force-applying is unclear.'')
                 []))"

record color_class =
  cc_text :: string
  cc_bg :: string
  cc_border :: string
  cc_glyph :: string

fun manager_color_class :: "manager_category \<Rightarrow> color_class" where
  "manager_color_class GITOPS = \<lparr>cc_text = ''text-violet'', cc_bg = ''bg-violet/10'',
     cc_border = ''border-violet/40'', cc_glyph = ''bg-violet''\<rparr>"
| "manager_color_class CONTROLLER = \<lparr>cc_text = ''text-blue'', cc_bg = ''bg-blue/10'',
     cc_border = ''border-blue/40'', cc_glyph = ''bg-blue''\<rparr>"
| "manager_color_class HUMAN = \<lparr>cc_text = ''text-green'', cc_bg = ''bg-green-soft'',
     cc_border = ''border-green/40'', cc_glyph = ''bg-green''\<rparr>"
| "manager_color_class HELM = \<lparr>cc_text = ''text-teal'', cc_bg = ''bg-teal/10'',
     cc_border = ''border-teal/40'', cc_glyph = ''bg-teal''\<rparr>"
| "manager_color_class PERISCOPE = \<lparr>cc_text = ''text-accent'', cc_bg = ''bg-accent-soft'',
     cc_border = ''border-accent/40'', cc_glyph = ''bg-accent''\<rparr>"
| "manager_color_class UNKNOWN = \<lparr>cc_text = ''text-ink-muted'', cc_bg = ''bg-surface-2'',
     cc_border = ''border-border'', cc_glyph = ''bg-ink-muted''\<rparr>"

section \<open>Facts\<close>

lemma named_simps [simp]:
  "mi_name (named n r) = n" "ri_category (named n r) = ri_category r"
  "ri_display (named n r) = ri_display r" "ri_source (named n r) = ri_source r"
  "ri_consequence (named n r) = ri_consequence r" "ri_prefer (named n r) = ri_prefer r"
  by (simp_all add: named_def)

lemma classify_name [simp]: "mi_name (classify_manager name) = name"
  by (simp add: classify_manager_def Let_def split: option.split)

lemma manager_color_class_inj: "manager_color_class c = manager_color_class d \<Longrightarrow> c = d"
  by (cases c; cases d) simp_all

text \<open>The category that the name alone decides, when the registry does not know it.\<close>

definition heuristic_category :: "string \<Rightarrow> manager_category" where
  "heuristic_category name =
     (let lower = to_lower name
      in if starts_with ''flux'' lower then GITOPS
         else if ends_with ''-controller'' lower then CONTROLLER
         else if ends_with ''-operator'' lower then GITOPS
         else if starts_with ''kubectl'' lower then HUMAN
         else if starts_with ''helm'' lower then HELM
         else UNKNOWN)"

lemma classify_category:
  "ri_category (classify_manager name) =
     (case map_of registry name of Some r \<Rightarrow> ri_category r | None \<Rightarrow> heuristic_category name)"
  by (simp add: classify_manager_def heuristic_category_def Let_def split: option.split)

lemma to_lower_idem [simp]: "to_lower (to_lower s) = to_lower s"
proof -
  have "lower_char (lower_char c) = lower_char c" for c
    by (simp add: lower_char_def Let_def)
  then show ?thesis by simp
qed

lemma registry_keys_distinct: "distinct (map fst registry)"
  by (simp add: registry_defs)

text \<open>a manager outside the registry is classified by its lower-cased name alone, so two
  unknown managers whose names differ in letter case only get the same category.\<close>

theorem classify_case_insensitive:
  assumes "map_of registry m = None" "map_of registry n = None" "to_lower m = to_lower n"
  shows "ri_category (classify_manager m) = ri_category (classify_manager n)"
  using assms by (simp add: classify_category heuristic_category_def Let_def)

theorem classify_case_insensitive_witness:
  "ri_category (classify_manager ''Flux-Thing-Controller'') =
     ri_category (classify_manager ''flux-thing-controller'')"
  by (rule classify_case_insensitive) code_simp+

text \<open>every name with the prefix \<open>flux\<close> that the registry lists or not is a manager whose
  writes are reverted (GitOps), never a plain controller, although it may end in -controller.\<close>

theorem flux_is_gitops:
  assumes "starts_with ''flux'' (to_lower name)"
  shows "ri_category (classify_manager name) = GITOPS"
proof (cases "map_of registry name")
  case None
  then show ?thesis using assms by (simp add: classify_category heuristic_category_def)
next
  case (Some r)
  then have "name \<in> set (map fst registry)" by (force dest: map_of_SomeD)
  then have False using assms by (auto simp: registry_defs lower_char_def)
  then show ?thesis ..
qed

theorem flux_is_gitops_witness:
  "ri_category (classify_manager ''flux-kustomize-controller'') = GITOPS"
  by (rule flux_is_gitops) (simp add: lower_char_def)

end
