(* ===== verification/ConflictPolicy.thy ===== *)
theory ConflictPolicy
  imports ApiError Managers
begin

text \<open>
  Model of \<open>web/src/lib/conflictPolicy.ts\<close> and of the mutation wrapper
  \<open>web/src/hooks/mutations/_applyWithLenientConflict.ts\<close>: reading the causes of a 409, deciding
  whether every conflicting manager may be overridden, the banner view of a conflict, and the
  single forced retry. \<open>JSON.parse\<close> is the parameter \<open>json_parse\<close> (\<open>None\<close> when it throws). The
  reads of a cause that throw in JavaScript (a null cause, a non-string message or field) are
  the left value \<open>TypeError\<close>.
\<close>

datatype js_exn = TypeError

record field_conflict_cause =
  fc_field :: string
  fc_manager :: manager_info

record conflict_analysis =
  ca_causes :: "field_conflict_cause list"
  ca_all_safe :: bool
  ca_first_blocking :: "field_conflict_cause option"

record conflict_manager =
  cm_name :: string
  cm_category :: "manager_category option"

record conflict_info =
  ci_managers :: "conflict_manager list"
  ci_fields :: "string list"

definition safe_categories :: "manager_category list" where
  "safe_categories = [HUMAN, UNKNOWN, PERISCOPE]"

section \<open>Field paths and manager names\<close>

definition is_word_char :: "char \<Rightarrow> bool" where
  "is_word_char c =
     (let n = (of_char c :: nat)
      in 48 \<le> n \<and> n \<le> 57 \<or> 65 \<le> n \<and> n \<le> 90 \<or> 97 \<le> n \<and> n \<le> 122 \<or> n = 95)"

definition is_quote :: "char \<Rightarrow> bool" where
  "is_quote c = (c = CHR 0x22 \<or> c = CHR 0x27)"

text \<open>
  A match of \<open>\[(\w+)=["']([^"']+)["']\]\<close> at the start of the text: key, value and what
  follows the match. Each character class stops where the next literal starts, so there is at
  most one way to match.
\<close>

definition match_selector :: "string \<Rightarrow> (string \<times> string \<times> string) option" where
  "match_selector s =
     (case s of
        [] \<Rightarrow> None
      | c # s1 \<Rightarrow>
          (if c \<noteq> CHR ''['' then None
           else let key = takeWhile is_word_char s1; s2 = dropWhile is_word_char s1
           in if key = [] then None
           else (case s2 of
              e # q # s3 \<Rightarrow>
                (if e \<noteq> CHR ''='' \<or> \<not> is_quote q then None
                 else let val = takeWhile (\<lambda>x. \<not> is_quote x) s3;
                          s4 = dropWhile (\<lambda>x. \<not> is_quote x) s3
                 in if val = [] then None
                 else (case s4 of
                    _ # r # rest \<Rightarrow> if r = CHR '']'' then Some (key, val, rest) else None
                  | _ \<Rightarrow> None))
            | _ \<Rightarrow> None)))"

lemma match_selector_shorter:
  "match_selector s = Some (k, v, rest) \<Longrightarrow> length rest < length s"
proof -
  assume m: "match_selector s = Some (k, v, rest)"
  then obtain c s1 e q s3 x r where s: "s = c # s1"
      "dropWhile is_word_char s1 = e # q # s3" "dropWhile (\<lambda>x. \<not> is_quote x) s3 = x # r # rest"
    by (auto simp: match_selector_def Let_def split: list.splits if_splits)
  have "length (e # q # s3) \<le> length s1" "length (x # r # rest) \<le> length s3"
    using length_dropWhile_le [of is_word_char s1] length_dropWhile_le [of "\<lambda>x. \<not> is_quote x" s3] s
    by simp_all
  then show ?thesis using s(1) by simp
qed

function unquote_selectors :: "string \<Rightarrow> string" where
  "unquote_selectors s =
     (case match_selector s of
        Some (key, val, rest) \<Rightarrow> ''['' @ key @ ''='' @ val @ '']'' @ unquote_selectors rest
      | None \<Rightarrow> (case s of [] \<Rightarrow> [] | c # cs \<Rightarrow> c # unquote_selectors cs))"
  by pat_completeness auto
termination
  by (relation "measure length") (auto dest: match_selector_shorter)

declare unquote_selectors.simps [simp del]

definition normalize_field_path :: "string \<Rightarrow> string" where
  "normalize_field_path field =
     (let p = trim_str field;
          p = (if starts_with ''.'' p then drop 1 p else p)
      in unquote_selectors p)"

text \<open>The leftmost match of \<open>conflict with "([^"]+)"\<close>.\<close>

definition conflict_prefix :: string where
  "conflict_prefix = ''conflict with '' @ [CHR 0x22]"

fun match_manager :: "string \<Rightarrow> string option" where
  "match_manager [] = None"
| "match_manager (c # cs) =
     (let rest = drop (length conflict_prefix) (c # cs);
          name = takeWhile (\<lambda>x. x \<noteq> CHR 0x22) rest
      in if starts_with conflict_prefix (c # cs) \<and> name \<noteq> [] \<and> length name < length rest
         then Some name else match_manager cs)"

section \<open>Causes\<close>

text \<open>\<open>cause.message ?? ""\<close>, then a string method on it.\<close>

definition string_or_empty :: "jsval \<Rightarrow> js_exn + string" where
  "string_or_empty v =
     (case v of JUndefined \<Rightarrow> Inr [] | JNull \<Rightarrow> Inr [] | JStr s \<Rightarrow> Inr s | _ \<Rightarrow> Inl TypeError)"

definition parse_cause :: "jsval \<Rightarrow> js_exn + field_conflict_cause option" where
  "parse_cause cause =
     (if cause = JUndefined \<or> cause = JNull then Inl TypeError
      else if get_prop cause ''reason'' \<noteq> JStr ''FieldManagerConflict'' then Inr None
      else (case string_or_empty (get_prop cause ''message'') of
              Inl e \<Rightarrow> Inl e
            | Inr message \<Rightarrow>
                (case match_manager message of
                   None \<Rightarrow> Inr None
                 | Some m \<Rightarrow>
                     (case string_or_empty (get_prop cause ''field'') of
                        Inl e \<Rightarrow> Inl e
                      | Inr field \<Rightarrow>
                          Inr (Some \<lparr>fc_field = normalize_field_path field,
                                     fc_manager = classify_manager m\<rparr>)))))"

fun parse_causes :: "jsval list \<Rightarrow> js_exn + field_conflict_cause list" where
  "parse_causes [] = Inr []"
| "parse_causes (c # cs) =
     (case parse_cause c of
        Inl e \<Rightarrow> Inl e
      | Inr r \<Rightarrow>
          (case parse_causes cs of
             Inl e \<Rightarrow> Inl e
           | Inr out \<Rightarrow> Inr (case r of None \<Rightarrow> out | Some x \<Rightarrow> x # out)))"

definition parse_field_manager_causes ::
  "(string \<Rightarrow> jsval option) \<Rightarrow> string option \<Rightarrow> js_exn + field_conflict_cause list" where
  "parse_field_manager_causes json_parse body =
     (case body of
        None \<Rightarrow> Inr []
      | Some text \<Rightarrow>
          (if text = [] then Inr []
           else (case json_parse text of
                   None \<Rightarrow> Inr []
                 | Some parsed \<Rightarrow>
                     (case opt_prop (opt_prop parsed ''details'') ''causes'' of
                        JArr raw \<Rightarrow> parse_causes raw
                      | _ \<Rightarrow> Inr []))))"

definition analyze_conflict ::
  "(string \<Rightarrow> jsval option) \<Rightarrow> thrown \<Rightarrow> js_exn + conflict_analysis option" where
  "analyze_conflict json_parse err =
     (case err of
        ThrownApi e \<Rightarrow>
          (if ae_status e \<noteq> 409 then Inr None
           else (case parse_field_manager_causes json_parse (ae_body e) of
                   Inl x \<Rightarrow> Inl x
                 | Inr causes \<Rightarrow>
                     (if causes = [] then Inr None
                      else let first_blocking =
                             find (\<lambda>c. ri_category (fc_manager c) \<notin> set safe_categories) causes
                      in Inr (Some \<lparr>ca_causes = causes, ca_all_safe = (first_blocking = None),
                                    ca_first_blocking = first_blocking\<rparr>))))
      | _ \<Rightarrow> Inr None)"

section \<open>The banner view\<close>

text \<open>The two loops of \<open>parseConflictForBanner\<close>: keep the first entry for each key.\<close>

fun first_by :: "('a \<Rightarrow> 'k) \<Rightarrow> 'k list \<Rightarrow> 'a list \<Rightarrow> 'a list" where
  "first_by key seen [] = []"
| "first_by key seen (x # xs) =
     (if key x \<in> set seen then first_by key seen xs
      else x # first_by key (key x # seen) xs)"

definition parse_conflict_for_banner ::
  "(string \<Rightarrow> jsval option) \<Rightarrow> thrown \<Rightarrow> js_exn + conflict_info option" where
  "parse_conflict_for_banner json_parse err =
     (case analyze_conflict json_parse err of
        Inl x \<Rightarrow> Inl x
      | Inr None \<Rightarrow> Inr None
      | Inr (Some analysis) \<Rightarrow>
          (if ca_causes analysis = [] then Inr None
           else Inr (Some
             \<lparr>ci_managers = map (\<lambda>c. \<lparr>cm_name = mi_name (fc_manager c),
                                      cm_category = Some (ri_category (fc_manager c))\<rparr>)
                              (first_by (\<lambda>c. mi_name (fc_manager c)) [] (ca_causes analysis)),
              ci_fields = map fc_field (first_by fc_field [] (ca_causes analysis))\<rparr>)))"

definition format_blocking_message :: "string \<Rightarrow> field_conflict_cause \<Rightarrow> string" where
  "format_blocking_message action_phrase cause =
     (let m = fc_manager cause;
          head = action_phrase @ '' blocked by '' @ ri_display m @ '' on '' @ fc_field cause;
          tail = (if ri_prefer m \<noteq> [] then ri_consequence m @ '' '' @ ri_prefer m
                  else ri_consequence m)
      in head @ '': '' @ tail)"

section \<open>The forced retry\<close>

text \<open>
  \<open>applyWithLenientConflict\<close>. \<open>apply_resource\<close> is the request to the backend as a function
  of the server state and the force flag. The result carries the force flags of the requests
  sent, in order. An exception of the conflict analysis replaces the original error.
\<close>

datatype 'r lenient_result = LenientOk 'r | LenientThrow thrown | LenientTypeError

definition apply_with_lenient_conflict ::
  "(string \<Rightarrow> jsval option) \<Rightarrow> ('s \<Rightarrow> bool \<Rightarrow> (thrown + 'r) \<times> 's) \<Rightarrow> string \<Rightarrow> 's
     \<Rightarrow> 'r lenient_result \<times> bool list \<times> 's" where
  "apply_with_lenient_conflict json_parse apply_resource action_phrase s =
     (case apply_resource s False of
        (Inr r, s1) \<Rightarrow> (LenientOk r, [False], s1)
      | (Inl err, s1) \<Rightarrow>
          (case analyze_conflict json_parse err of
             Inl _ \<Rightarrow> (LenientTypeError, [False], s1)
           | Inr None \<Rightarrow> (LenientThrow err, [False], s1)
           | Inr (Some analysis) \<Rightarrow>
               (if ca_all_safe analysis
                then (case apply_resource s1 True of
                        (Inr r, s2) \<Rightarrow> (LenientOk r, [False, True], s2)
                      | (Inl err2, s2) \<Rightarrow> (LenientThrow err2, [False, True], s2))
                else (case (ca_first_blocking analysis, err) of
                        (Some b, ThrownApi e) \<Rightarrow>
                          (LenientThrow (ThrownApi
                             (e\<lparr>ae_message := format_blocking_message action_phrase b\<rparr>)), [False], s1)
                      | _ \<Rightarrow> (LenientTypeError, [False], s1)))))"

section \<open>Correctness\<close>

lemma analyze_conflict_Some:
  "analyze_conflict jp err = Inr (Some a) \<longleftrightarrow>
     (\<exists>e causes. err = ThrownApi e \<and> ae_status e = 409
        \<and> parse_field_manager_causes jp (ae_body e) = Inr causes \<and> causes \<noteq> []
        \<and> a = \<lparr>ca_causes = causes,
               ca_all_safe = (\<forall>c \<in> set causes. ri_category (fc_manager c) \<in> set safe_categories),
               ca_first_blocking =
                 find (\<lambda>c. ri_category (fc_manager c) \<notin> set safe_categories) causes\<rparr>)"
  by (cases err) (auto simp: analyze_conflict_def Let_def find_None_iff split: sum.splits)

lemma find_exists: "x \<in> set xs \<Longrightarrow> P x \<Longrightarrow> \<exists>y. find P xs = Some y"
  by (induction xs) auto

lemma parse_cause_category:
  "parse_cause c = Inr (Some fc) \<Longrightarrow> \<exists>m. fc_manager fc = classify_manager m"
  by (auto simp: parse_cause_def split: if_splits sum.splits option.splits)

lemma set_first_by_keys: "key ` set (first_by key seen xs) = key ` set xs - set seen"
  by (induction key seen xs rule: first_by.induct) auto

lemma distinct_first_by: "distinct (map key (first_by key seen xs))"
proof (induction key seen xs rule: first_by.induct)
  case (2 key seen x xs)
  then show ?case using set_first_by_keys [of key "key x # seen" xs] by auto
qed simp

lemma first_by_subset: "set (first_by key seen xs) \<subseteq> set xs"
  by (induction key seen xs rule: first_by.induct) auto

lemma match_manager_unfold:
  "s \<noteq> [] \<Longrightarrow> match_manager s =
     (let rest = drop (length conflict_prefix) s; name = takeWhile (\<lambda>x. x \<noteq> CHR 0x22) rest
      in if prefix conflict_prefix s \<and> name \<noteq> [] \<and> length name < length rest
         then Some name else match_manager (tl s))"
  by (cases s) (simp_all add: Let_def)

lemma match_manager_here:
  assumes "name \<noteq> []" "CHR 0x22 \<notin> set name"
  shows "match_manager (conflict_prefix @ name @ CHR 0x22 # rest) = Some name"
proof -
  have "takeWhile (\<lambda>x. x \<noteq> CHR 0x22) (name @ CHR 0x22 # rest) = name"
    using assms(2) by (induction name) auto
  then show ?thesis using assms(1) by (subst match_manager_unfold) (auto simp: Let_def)
qed

lemma analyze_conflict_no_causes:
  "analyze_conflict jp (ThrownApi e) = Inr None \<Longrightarrow> ae_status e = 409 \<Longrightarrow>
   parse_field_manager_causes jp (ae_body e) = Inr causes \<Longrightarrow> causes = []"
  by (auto simp: analyze_conflict_def Let_def split: if_splits)

text \<open>A 409 body with one cause per manager, for the concrete instances below.\<close>

definition sample_cause :: "string \<Rightarrow> jsval" where
  "sample_cause m =
     JObj [(''reason'', JStr ''FieldManagerConflict''),
           (''message'', JStr (conflict_prefix @ m @ [CHR 0x22])),
           (''field'', JStr ''.spec.replicas'')]"

definition sample_body :: "string list \<Rightarrow> jsval" where
  "sample_body ms = JObj [(''details'', JObj [(''causes'', JArr (map sample_cause ms))])]"

definition sample_conflict :: api_error where
  "sample_conflict = \<lparr>ae_message = ''conflict'', ae_status = 409, ae_body = Some ''body''\<rparr>"

lemma sample_cause_parsed:
  "m \<noteq> [] \<Longrightarrow> CHR 0x22 \<notin> set m \<Longrightarrow>
   parse_cause (sample_cause m) =
     Inr (Some \<lparr>fc_field = ''spec.replicas'', fc_manager = classify_manager m\<rparr>)"
proof -
  assume m: "m \<noteq> []" "CHR 0x22 \<notin> set m"
  have "normalize_field_path ''.spec.replicas'' = ''spec.replicas''" by code_simp
  then show ?thesis using match_manager_here [OF m, of "[]"]
    by (simp add: parse_cause_def sample_cause_def string_or_empty_def get_prop_def)
qed

lemma sample_body_causes:
  "opt_prop (opt_prop (sample_body ms) ''details'') ''causes'' = JArr (map sample_cause ms)"
  by (simp add: sample_body_def opt_prop_def get_prop_def)

text \<open>
  C5: \<open>applyWithLenientConflict\<close> sends a forced request exactly when the plain one was
  refused with status 409, the body lists at least one field-manager conflict, and every
  manager in it belongs to a category that may be overridden (human, unknown, periscope); it
  never sends more than one.
\<close>

theorem forced_retry_iff_all_safe:
  "True \<in> set (fst (snd (apply_with_lenient_conflict jp ap phrase s))) \<longleftrightarrow>
     (\<exists>e s1 causes. ap s False = (Inl (ThrownApi e), s1) \<and> ae_status e = 409
        \<and> parse_field_manager_causes jp (ae_body e) = Inr causes \<and> causes \<noteq> []
        \<and> (\<forall>c \<in> set causes. ri_category (fc_manager c) \<in> set safe_categories))"
proof (cases "ap s False")
  case (Pair r s1)
  show ?thesis
  proof (cases r)
    case (Inl err)
    show ?thesis
    proof (cases "analyze_conflict jp err")
      case (Inr a)
      then show ?thesis
      proof (cases a)
        case None
        then show ?thesis using Pair Inl Inr
          by (auto simp: apply_with_lenient_conflict_def dest: analyze_conflict_no_causes)
      next
        case (Some an)
        note an = Inr [unfolded Some, unfolded analyze_conflict_Some]
        show ?thesis using Pair Inl Inr Some an
          by (auto simp: apply_with_lenient_conflict_def split: sum.splits prod.splits option.splits)
      qed
    next
      case (Inl x)
      then show ?thesis using Pair \<open>r = Inl err\<close>
        by (auto simp: apply_with_lenient_conflict_def)
          (auto simp: analyze_conflict_def Let_def split: if_splits)
    qed
  qed (use Pair in \<open>auto simp: apply_with_lenient_conflict_def\<close>)
qed

lemma forced_retry_iff_all_safe_witness:
  "True \<in> set (fst (snd (apply_with_lenient_conflict (\<lambda>_. Some (sample_body [''kubectl'']))
       (\<lambda>s f. ((if f then Inr () else Inl (ThrownApi sample_conflict)), s + 1)) ''Scale'' (0 :: nat))))"
proof -
  let ?jp = "\<lambda>_ :: string. Some (sample_body [''kubectl''])"
  have c: "ri_category (classify_manager ''kubectl'') \<in> set safe_categories" by code_simp
  have "parse_field_manager_causes ?jp (ae_body sample_conflict) =
      Inr [\<lparr>fc_field = ''spec.replicas'', fc_manager = classify_manager ''kubectl''\<rparr>]"
    by (simp add: parse_field_manager_causes_def sample_body_causes sample_cause_parsed sample_conflict_def)
  moreover have "ae_status sample_conflict = 409" by (simp add: sample_conflict_def)
  ultimately show ?thesis using c unfolding forced_retry_iff_all_safe by auto
qed

text \<open>
  a conflict that names a manager outside the safe categories is never forced: one
  request is sent, the server state is what that request left, and the caller gets the
  server's error with its status and body, its message rewritten to name a manager of the
  conflict that may not be overridden.
\<close>

theorem unsafe_conflict_blocks:
  assumes "ap s False = (Inl (ThrownApi e), t)" "ae_status e = 409"
    "parse_field_manager_causes jp (ae_body e) = Inr causes"
    "c \<in> set causes" "ri_category (fc_manager c) \<notin> set safe_categories"
  shows "\<exists>b \<in> set causes. ri_category (fc_manager b) \<notin> set safe_categories \<and>
     apply_with_lenient_conflict jp ap phrase s =
       (LenientThrow (ThrownApi \<lparr>ae_message = format_blocking_message phrase b,
                                 ae_status = 409, ae_body = ae_body e\<rparr>), [False], t)"
proof -
  obtain b where b: "find (\<lambda>c. ri_category (fc_manager c) \<notin> set safe_categories) causes = Some b"
    using find_exists [OF assms(4), of "\<lambda>c. ri_category (fc_manager c) \<notin> set safe_categories"]
      assms(5) by auto
  have "analyze_conflict jp (ThrownApi e) = Inr (Some \<lparr>ca_causes = causes, ca_all_safe = False,
      ca_first_blocking = Some b\<rparr>)"
    using assms b by (force simp: analyze_conflict_def)
  then have "apply_with_lenient_conflict jp ap phrase s =
      (LenientThrow (ThrownApi (e\<lparr>ae_message := format_blocking_message phrase b\<rparr>)), [False], t)"
    by (simp add: apply_with_lenient_conflict_def assms(1))
  then show ?thesis using find_Some_mem [OF b] assms(2) by (intro bexI [of _ b]) (cases e, auto)
qed

lemma unsafe_conflict_blocks_witness:
  "\<exists>b. apply_with_lenient_conflict (\<lambda>_. Some (sample_body [''kubectl'', ''argocd-controller'']))
         (\<lambda>s f. ((Inl (ThrownApi sample_conflict) :: thrown + unit), s + 1)) ''Scale'' (0 :: nat) =
       (LenientThrow (ThrownApi \<lparr>ae_message = b, ae_status = 409, ae_body = Some ''body''\<rparr>),
        [False], 1)"
proof -
  have p: "parse_field_manager_causes (\<lambda>_. Some (sample_body [''kubectl'', ''argocd-controller'']))
        (ae_body sample_conflict) =
      Inr [\<lparr>fc_field = ''spec.replicas'', fc_manager = classify_manager ''kubectl''\<rparr>,
           \<lparr>fc_field = ''spec.replicas'', fc_manager = classify_manager ''argocd-controller''\<rparr>]"
    by (simp add: parse_field_manager_causes_def sample_body_causes sample_cause_parsed sample_conflict_def)
  have c: "ri_category (classify_manager ''argocd-controller'') \<notin> set safe_categories"
    by code_simp
  from unsafe_conflict_blocks [where ap = "\<lambda>s f. ((Inl (ThrownApi sample_conflict) :: thrown + unit), s + 1)"
      and s = "0 :: nat" and e = sample_conflict and t = 1
      and jp = "\<lambda>_. Some (sample_body [''kubectl'', ''argocd-controller''])"
      and causes = "[\<lparr>fc_field = ''spec.replicas'', fc_manager = classify_manager ''kubectl''\<rparr>,
           \<lparr>fc_field = ''spec.replicas'', fc_manager = classify_manager ''argocd-controller''\<rparr>]"
      and c = "\<lparr>fc_field = ''spec.replicas'', fc_manager = classify_manager ''argocd-controller''\<rparr>"
      and phrase = "''Scale''"] p c
  show ?thesis by (auto simp: sample_conflict_def)
qed

text \<open>
  the banner view of a conflict repeats nothing and loses nothing: its manager names and
  its fields are pairwise different, and are exactly the names and fields of the causes.
\<close>

theorem banner_view_distinct_and_complete:
  assumes "parse_conflict_for_banner jp (ThrownApi e) = Inr (Some info)"
  shows "distinct (map cm_name (ci_managers info)) \<and> distinct (ci_fields info) \<and>
     (\<exists>causes. parse_field_manager_causes jp (ae_body e) = Inr causes \<and> causes \<noteq> []
        \<and> set (map cm_name (ci_managers info)) = (\<lambda>c. mi_name (fc_manager c)) ` set causes
        \<and> set (ci_fields info) = fc_field ` set causes)"
proof -
  obtain a where a: "analyze_conflict jp (ThrownApi e) = Inr (Some a)"
    and info: "info = \<lparr>ci_managers = map (\<lambda>c. \<lparr>cm_name = mi_name (fc_manager c),
                                      cm_category = Some (ri_category (fc_manager c))\<rparr>)
                              (first_by (\<lambda>c. mi_name (fc_manager c)) [] (ca_causes a)),
              ci_fields = map fc_field (first_by fc_field [] (ca_causes a))\<rparr>"
    using assms by (auto simp: parse_conflict_for_banner_def split: sum.splits option.splits if_splits)
  have "parse_field_manager_causes jp (ae_body e) = Inr (ca_causes a)" "ca_causes a \<noteq> []"
    using a by (auto simp: analyze_conflict_Some)
  moreover note distinct_first_by [of "\<lambda>c. mi_name (fc_manager c)" "[]" "ca_causes a"]
    distinct_first_by [of fc_field "[]" "ca_causes a"]
    set_first_by_keys [of "\<lambda>c. mi_name (fc_manager c)" "[]" "ca_causes a"]
    set_first_by_keys [of fc_field "[]" "ca_causes a"]
  ultimately show ?thesis by (auto simp: info image_image comp_def)
qed

lemma banner_view_distinct_and_complete_witness:
  "\<exists>info. parse_conflict_for_banner
        (\<lambda>_. Some (sample_body [''kubectl'', ''helm'', ''kubectl''])) (ThrownApi sample_conflict)
          = Inr (Some info)
     \<and> distinct (map cm_name (ci_managers info)) \<and> set (ci_fields info) = {''spec.replicas''}"
proof -
  let ?jp = "\<lambda>_ :: string. Some (sample_body [''kubectl'', ''helm'', ''kubectl''])"
  have p: "parse_field_manager_causes ?jp (ae_body sample_conflict) =
      Inr (map (\<lambda>m. \<lparr>fc_field = ''spec.replicas'', fc_manager = classify_manager m\<rparr>)
            [''kubectl'', ''helm'', ''kubectl''])"
    by (simp add: parse_field_manager_causes_def sample_body_causes sample_cause_parsed sample_conflict_def)
  then obtain info where i: "parse_conflict_for_banner ?jp (ThrownApi sample_conflict) = Inr (Some info)"
    by (simp add: parse_conflict_for_banner_def analyze_conflict_def Let_def
          sample_conflict_def [THEN arg_cong, of ae_status] del: find.simps)
  show ?thesis using banner_view_distinct_and_complete [OF i] i p by auto
qed

text \<open>
  the message the API server writes for a conflicting manager,
  \<open>conflict with "NAME" ...\<close>, is read back as NAME for every non-empty name without a double
  quote, and the cause carries that manager's classification.
\<close>

theorem cause_names_its_manager:
  assumes "name \<noteq> []" "CHR 0x22 \<notin> set name"
    "get_prop (JObj c) ''reason'' = JStr ''FieldManagerConflict''"
    "get_prop (JObj c) ''message'' = JStr (conflict_prefix @ name @ CHR 0x22 # rest)"
    "get_prop (JObj c) ''field'' = JStr field"
  shows "parse_cause (JObj c) = Inr (Some \<lparr>fc_field = normalize_field_path field,
           fc_manager = classify_manager name\<rparr>)"
  using assms match_manager_here [OF assms(1,2)]
  by (simp add: parse_cause_def string_or_empty_def)

lemma cause_names_its_manager_witness:
  "parse_cause (sample_cause ''helm'') =
     Inr (Some \<lparr>fc_field = normalize_field_path ''.spec.replicas'', fc_manager = classify_manager ''helm''\<rparr>)"
  unfolding sample_cause_def
  by (rule cause_names_its_manager [where rest = "[]"]) (simp_all add: get_prop_def)

end
