(* ===== verification/ApplyState.thy ===== *)
theory ApplyState
  imports ConflictPolicy
begin

text \<open>
  The apply state machine of \<open>web/src/hooks/useApplyState.ts\<close>, the two view models that render
  it (\<open>actionBarViewModel.ts\<close>, \<open>conflictBannerViewModel.ts\<close>) and the mapping of thrown errors
  into its results (\<open>toApplyResult\<close> of \<open>useApplyLifecycle.ts\<close>).
\<close>

section \<open>The reducer\<close>

record apply_error =
  err_status :: int
  err_message :: string

datatype apply_result =
    ResultOk
  | ResultFail (res_status: int) (res_message: string) (res_conflict: "conflict_info option")

datatype apply_state =
    Idle
  | DryRunning
  | Submitting
  | ForceRequired conflict_info
  | Forcing conflict_info
  | ErrorState apply_error
  | Success

datatype apply_action =
    ASubmit
  | ADryRun
  | AForce
  | ACancel
  | ARetry
  | ADismiss
  | AResolved apply_result

definition initial_apply_state :: apply_state where
  "initial_apply_state = Idle"

definition resolve_from :: "apply_result \<Rightarrow> apply_state" where
  "resolve_from result =
     (case result of
        ResultOk \<Rightarrow> Success
      | ResultFail status message conflict \<Rightarrow>
          (case conflict of
             Some c \<Rightarrow>
               if status = 409 then ForceRequired c
               else ErrorState \<lparr>err_status = status, err_message = message\<rparr>
           | None \<Rightarrow> ErrorState \<lparr>err_status = status, err_message = message\<rparr>))"

fun in_flight :: "apply_state \<Rightarrow> bool" where
  "in_flight Submitting = True"
| "in_flight DryRunning = True"
| "in_flight (Forcing _) = True"
| "in_flight _ = False"

definition settle :: "apply_state \<Rightarrow> apply_action \<Rightarrow> apply_state" where
  "settle state action = (case action of AResolved result \<Rightarrow> resolve_from result | _ \<Rightarrow> state)"

definition apply_state_reducer :: "apply_state \<Rightarrow> apply_action \<Rightarrow> apply_state" where
  "apply_state_reducer state action =
     (case state of
        Idle \<Rightarrow>
          if action = ASubmit then Submitting
          else if action = ADryRun then DryRunning
          else state
      | Submitting \<Rightarrow> settle state action
      | DryRunning \<Rightarrow> settle state action
      | Forcing _ \<Rightarrow> settle state action
      | ForceRequired conflict \<Rightarrow>
          if action = AForce then Forcing conflict
          else if action = ACancel then Idle
          else state
      | Success \<Rightarrow> if action = ADismiss \<or> action = ACancel then Idle else state
      | ErrorState _ \<Rightarrow>
          if action = ARetry then Submitting
          else if action = ADismiss \<or> action = ACancel then Idle
          else state)"

section \<open>The conflict banner\<close>

datatype banner_action = BForce | BCancel | BRetry | BDismiss

record banner_button =
  bb_label :: string
  bb_action :: banner_action
  bb_disabled :: bool
  bb_loading :: bool

datatype banner_variant = VForceRequired | VForcing | VError

datatype banner_view =
    BannerHidden
  | BannerShown (bv_variant: banner_variant) (bv_managers: "string list option")
      (bv_fields: "string list option") (bv_error: "apply_error option")
      (bv_primary: banner_button) (bv_secondary: banner_button)

text \<open>The names of the categories as the source's string literals.\<close>

fun category_name :: "manager_category \<Rightarrow> string" where
  "category_name GITOPS = ''GITOPS''"
| "category_name HELM = ''HELM''"
| "category_name CONTROLLER = ''CONTROLLER''"
| "category_name HUMAN = ''HUMAN''"
| "category_name PERISCOPE = ''PERISCOPE''"
| "category_name UNKNOWN = ''UNKNOWN''"

definition format_manager :: "conflict_manager \<Rightarrow> string" where
  "format_manager m =
     (case cm_category m of
        Some c \<Rightarrow> cm_name m @ '' ('' @ to_lower (category_name c) @ '')''
      | None \<Rightarrow> cm_name m)"

definition banner_view_model :: "apply_state \<Rightarrow> banner_view" where
  "banner_view_model state =
     (case state of
        ForceRequired c \<Rightarrow>
          BannerShown VForceRequired (Some (map format_manager (ci_managers c))) (Some (ci_fields c)) None
            \<lparr>bb_label = ''Force apply'', bb_action = BForce, bb_disabled = False, bb_loading = False\<rparr>
            \<lparr>bb_label = ''Cancel'', bb_action = BCancel, bb_disabled = False, bb_loading = False\<rparr>
      | Forcing c \<Rightarrow>
          BannerShown VForcing (Some (map format_manager (ci_managers c))) (Some (ci_fields c)) None
            \<lparr>bb_label = ''Force apply'', bb_action = BForce, bb_disabled = True, bb_loading = True\<rparr>
            \<lparr>bb_label = ''Cancel'', bb_action = BCancel, bb_disabled = True, bb_loading = False\<rparr>
      | ErrorState e \<Rightarrow>
          BannerShown VError None None (Some e)
            \<lparr>bb_label = ''Retry'', bb_action = BRetry, bb_disabled = False, bb_loading = False\<rparr>
            \<lparr>bb_label = ''Dismiss'', bb_action = BDismiss, bb_disabled = False, bb_loading = False\<rparr>
      | _ \<Rightarrow> BannerHidden)"

section \<open>The action bar\<close>

datatype apply_label = LApply | LApplying | LForcing
datatype dry_run_label = LDryRun | LDryRunning
datatype chip_label = CValidating | CApplying

datatype status_chip =
    ChipNone
  | ChipApplied
  | ChipInFlight chip_label
  | ChipError string

record action_bar_view =
  av_busy :: bool
  av_apply_label :: apply_label
  av_dry_run_label :: dry_run_label
  av_status_chip :: status_chip
  av_banner_owns_state :: bool

definition action_bar_view_model :: "apply_state \<Rightarrow> action_bar_view" where
  "action_bar_view_model state =
     (case state of
        Idle \<Rightarrow>
          \<lparr>av_busy = False, av_apply_label = LApply, av_dry_run_label = LDryRun,
           av_status_chip = ChipNone, av_banner_owns_state = False\<rparr>
      | DryRunning \<Rightarrow>
          \<lparr>av_busy = True, av_apply_label = LApply, av_dry_run_label = LDryRunning,
           av_status_chip = ChipInFlight CValidating, av_banner_owns_state = False\<rparr>
      | Submitting \<Rightarrow>
          \<lparr>av_busy = True, av_apply_label = LApplying, av_dry_run_label = LDryRun,
           av_status_chip = ChipInFlight CApplying, av_banner_owns_state = False\<rparr>
      | Forcing _ \<Rightarrow>
          \<lparr>av_busy = True, av_apply_label = LForcing, av_dry_run_label = LDryRun,
           av_status_chip = ChipInFlight CApplying, av_banner_owns_state = True\<rparr>
      | ForceRequired _ \<Rightarrow>
          \<lparr>av_busy = True, av_apply_label = LApply, av_dry_run_label = LDryRun,
           av_status_chip = ChipNone, av_banner_owns_state = True\<rparr>
      | Success \<Rightarrow>
          \<lparr>av_busy = False, av_apply_label = LApply, av_dry_run_label = LDryRun,
           av_status_chip = ChipApplied, av_banner_owns_state = False\<rparr>
      | ErrorState _ \<Rightarrow>
          \<lparr>av_busy = True, av_apply_label = LApply, av_dry_run_label = LDryRun,
           av_status_chip = ChipNone, av_banner_owns_state = True\<rparr>)"

section \<open>From thrown errors to results\<close>

definition extract_status_message ::
  "(string \<Rightarrow> jsval option) \<Rightarrow> string option \<Rightarrow> string option" where
  "extract_status_message json_parse body =
     (case body of
        None \<Rightarrow> None
      | Some text \<Rightarrow>
          (if text = [] then None
           else (case json_parse text of
                   None \<Rightarrow> None
                 | Some parsed \<Rightarrow>
                     (if \<not> js_truthy parsed then None
                      else (case get_prop parsed ''message'' of
                              JStr m \<Rightarrow> if 0 < length m then Some m else None
                            | _ \<Rightarrow> None)))))"

text \<open>
  \<open>friendly || body || message || dflt\<close>. An exception of the conflict parser escapes.
\<close>

definition fallback_message :: "string option \<Rightarrow> api_error \<Rightarrow> string \<Rightarrow> string" where
  "fallback_message friendly e dflt =
     or_str friendly (or_str (ae_body e) (or_str (Some (ae_message e)) dflt))"

definition to_apply_result ::
  "(string \<Rightarrow> jsval option) \<Rightarrow> (thrown \<Rightarrow> js_exn + conflict_info option) \<Rightarrow> thrown
     \<Rightarrow> js_exn + apply_result" where
  "to_apply_result json_parse parse_conflict err =
     (case err of
        ThrownApi e \<Rightarrow>
          (let friendly = extract_status_message json_parse (ae_body e)
           in if ae_status e = 409
              then (case parse_conflict err of
                      Inl x \<Rightarrow> Inl x
                    | Inr conflict \<Rightarrow>
                        Inr (ResultFail 409 (fallback_message friendly e ''Apply conflict'') conflict))
              else Inr (ResultFail (ae_status e) (fallback_message friendly e ''apply failed'') None))
      | ThrownMultiDocument m \<Rightarrow> Inr (ResultFail 0 m None)
      | ThrownYamlParse m \<Rightarrow> Inr (ResultFail 0 m None)
      | ThrownError m \<Rightarrow> Inr (ResultFail 0 m None)
      | ThrownOther _ \<Rightarrow> Inr (ResultFail 0 ''apply failed'' None))"

section \<open>Correctness\<close>

lemmas reducer_defs = apply_state_reducer_def settle_def resolve_from_def

lemmas view_defs = banner_view_model_def action_bar_view_model_def

lemma resolve_from_ForceRequired:
  "resolve_from r = ForceRequired c \<longleftrightarrow> (\<exists>m. r = ResultFail 409 m (Some c))"
  by (cases r) (auto simp: resolve_from_def split: option.splits)

lemma resolve_from_not_Forcing [simp]: "resolve_from r \<noteq> Forcing c"
  by (auto simp: resolve_from_def split: apply_result.splits option.splits)

lemma reducer_to_ForceRequired:
  "apply_state_reducer st a = ForceRequired c \<Longrightarrow>
     st = ForceRequired c \<or> (\<exists>m. a = AResolved (ResultFail 409 m (Some c)))"
  by (cases st; cases a)
     (auto simp: apply_state_reducer_def settle_def resolve_from_ForceRequired split: if_splits)

lemma reducer_to_Forcing:
  "apply_state_reducer st a = Forcing c \<Longrightarrow> st = Forcing c \<or> st = ForceRequired c \<and> a = AForce"
  by (cases st; cases a) (auto simp: apply_state_reducer_def settle_def split: if_splits)

fun action_of :: "banner_action \<Rightarrow> apply_action" where
  "action_of BForce = AForce"
| "action_of BCancel = ACancel"
| "action_of BRetry = ARetry"
| "action_of BDismiss = ADismiss"

text \<open>
  the operator sees a conflict or an error in exactly one place. The banner is shown
  exactly when the action bar leaves the state to it, and then the bar shows no error of its
  own and is busy, so its buttons are off.
\<close>

theorem banner_iff_bar_yields:
  "(banner_view_model st \<noteq> BannerHidden) = av_banner_owns_state (action_bar_view_model st) \<and>
   (av_banner_owns_state (action_bar_view_model st) \<longrightarrow>
      av_busy (action_bar_view_model st) \<and>
      (\<forall>m. av_status_chip (action_bar_view_model st) \<noteq> ChipError m)) \<and>
   (av_busy (action_bar_view_model st) = (in_flight st \<or> banner_view_model st \<noteq> BannerHidden))"
  by (cases st) (simp_all add: view_defs)

lemma banner_iff_bar_yields_witness:
  "banner_view_model (ErrorState \<lparr>err_status = 0, err_message = ''x''\<rparr>) \<noteq> BannerHidden
     \<and> av_busy (action_bar_view_model (ErrorState \<lparr>err_status = 0, err_message = ''x''\<rparr>))"
  using banner_iff_bar_yields [of "ErrorState \<lparr>err_status = 0, err_message = ''x''\<rparr>"]
  by (simp add: view_defs)

text \<open>
  no banner button is dead and none acts out of turn. A button of the banner is enabled
  exactly when the reducer moves on its action; while a forced request is in flight both are
  disabled.
\<close>

theorem banner_buttons_match_reducer:
  assumes "banner_view_model st = BannerShown v ms fs e p q" "b \<in> {p, q}"
  shows "bb_disabled b \<longleftrightarrow> apply_state_reducer st (action_of (bb_action b)) = st"
  using assms by (cases st) (auto simp: view_defs apply_state_reducer_def settle_def)

lemma banner_buttons_match_reducer_witness:
  "let st = ForceRequired \<lparr>ci_managers = [], ci_fields = [''spec.replicas'']\<rparr>
   in \<not> bb_disabled (bv_primary (banner_view_model st)) \<and> apply_state_reducer st AForce \<noteq> st"
proof -
  let ?st = "ForceRequired \<lparr>ci_managers = [], ci_fields = [''spec.replicas'']\<rparr>"
  have "banner_view_model ?st = BannerShown VForceRequired (Some []) (Some [''spec.replicas'']) None
            \<lparr>bb_label = ''Force apply'', bb_action = BForce, bb_disabled = False, bb_loading = False\<rparr>
            \<lparr>bb_label = ''Cancel'', bb_action = BCancel, bb_disabled = False, bb_loading = False\<rparr>"
    by (simp add: banner_view_model_def)
  from banner_buttons_match_reducer [OF this, of "bv_primary (banner_view_model ?st)"]
  show ?thesis by (simp add: banner_view_model_def)
qed

text \<open>
  C22: no forced apply without a conflict the operator was shown. In any sequence of actions
  from the initial state, a state that offers or runs a forced apply carries the conflict of a
  409 result received earlier in that sequence, and running it needs a force action after it.
\<close>

theorem forcing_needs_shown_conflict:
  assumes "foldl apply_state_reducer initial_apply_state acts \<in> {ForceRequired c, Forcing c}"
  shows "\<exists>pre m post. acts = pre @ AResolved (ResultFail 409 m (Some c)) # post \<and>
     (foldl apply_state_reducer initial_apply_state acts = Forcing c \<longrightarrow> AForce \<in> set post)"
  using assms
proof (induction acts rule: rev_induct)
  case (snoc a acts)
  let ?st = "foldl apply_state_reducer initial_apply_state acts"
  consider "?st = ForceRequired c" | "?st = Forcing c"
    | m where "a = AResolved (ResultFail 409 m (Some c))"
      "apply_state_reducer ?st a = ForceRequired c"
    using snoc.prems reducer_to_ForceRequired [of ?st a c] reducer_to_Forcing [of ?st a c] by auto
  then show ?case
  proof cases
    case 3
    then show ?thesis by auto
  next
    case 1
    then obtain pre m post where "acts = pre @ AResolved (ResultFail 409 m (Some c)) # post"
      using snoc.IH by auto
    moreover have "apply_state_reducer ?st a = Forcing c \<longrightarrow> a = AForce"
      using reducer_to_Forcing [of ?st a c] 1 by auto
    ultimately show ?thesis by (intro exI [of _ pre] exI [of _ m] exI [of _ "post @ [a]"]) auto
  next
    case 2
    then obtain pre m post where "acts = pre @ AResolved (ResultFail 409 m (Some c)) # post"
      "AForce \<in> set post" using snoc.IH by auto
    then show ?thesis by (intro exI [of _ pre] exI [of _ m] exI [of _ "post @ [a]"]) auto
  qed
qed (simp add: initial_apply_state_def)

lemma forcing_needs_shown_conflict_witness:
  "let c = \<lparr>ci_managers = [], ci_fields = [''spec.replicas'']\<rparr>;
       acts = [ASubmit, AResolved (ResultFail 409 ''m'' (Some c)), AForce]
   in \<exists>pre m post. acts = pre @ AResolved (ResultFail 409 m (Some c)) # post \<and> AForce \<in> set post"
proof -
  let ?c = "\<lparr>ci_managers = [], ci_fields = [''spec.replicas'']\<rparr> :: conflict_info"
  let ?acts = "[ASubmit, AResolved (ResultFail 409 ''m'' (Some ?c)), AForce]"
  have "foldl apply_state_reducer initial_apply_state ?acts = Forcing ?c"
    by (simp add: reducer_defs initial_apply_state_def)
  then show ?thesis using forcing_needs_shown_conflict [of ?acts ?c] by auto
qed

text \<open>
  what the operator is offered after a failed apply. Whatever was thrown, an in-flight
  state always leaves flight and never reports success; it offers the forced apply exactly for
  a 409 of the API whose body names at least one conflicting field, and reports an error
  with the error's own status otherwise.
\<close>

theorem thrown_error_routing:
  assumes "in_flight st" "to_apply_result jp (parse_conflict_for_banner jp) err = Inr r"
  shows "apply_state_reducer st (AResolved r) =
     (case parse_conflict_for_banner jp err of
        Inr (Some info) \<Rightarrow> ForceRequired info
      | _ \<Rightarrow> ErrorState \<lparr>err_status = (case err of ThrownApi e \<Rightarrow> ae_status e | _ \<Rightarrow> 0),
                         err_message = res_message r\<rparr>)"
proof -
  have "apply_state_reducer st (AResolved r) = resolve_from r"
    using assms(1) by (cases st) (simp_all add: apply_state_reducer_def settle_def)
  moreover have "resolve_from r =
     (case parse_conflict_for_banner jp err of
        Inr (Some info) \<Rightarrow> ForceRequired info
      | _ \<Rightarrow> ErrorState \<lparr>err_status = (case err of ThrownApi e \<Rightarrow> ae_status e | _ \<Rightarrow> 0),
                         err_message = res_message r\<rparr>)"
    using assms(2)
    by (auto simp: to_apply_result_def resolve_from_def Let_def parse_conflict_for_banner_def
        analyze_conflict_def split: thrown.splits sum.splits option.splits if_splits)
  ultimately show ?thesis by simp
qed

lemma thrown_error_routing_witness:
  "apply_state_reducer Submitting
     (AResolved (ResultFail 422 ''is invalid'' None)) =
   ErrorState \<lparr>err_status = 422, err_message = ''is invalid''\<rparr>"
proof -
  let ?e = "ThrownApi \<lparr>ae_message = ''HTTP 422'', ae_status = 422, ae_body = Some ''body''\<rparr>"
  let ?jp = "\<lambda>_ :: string. Some (JObj [(''message'', JStr ''is invalid'')])"
  have "to_apply_result ?jp (parse_conflict_for_banner ?jp) ?e = Inr (ResultFail 422 ''is invalid'' None)"
    by (simp add: to_apply_result_def extract_status_message_def fallback_message_def get_prop_def)
  from thrown_error_routing [OF _ this, of Submitting] show ?thesis
    by (simp add: parse_conflict_for_banner_def analyze_conflict_def)
qed

end
