(* ===== verification/ApplyLifecycle.thy ===== *)
theory ApplyLifecycle
  imports ApplyState YamlPatch
begin

text \<open>
  The hook \<open>web/src/hooks/useApplyLifecycle.ts\<close> as an event machine. Its state is the reducer
  state, the props of the latest render, the runs started so far (one per call of \<open>runApply\<close>
  that gets past building the body), the run whose \<open>AbortController\<close> is in \<open>abortRef\<close>, the
  dismiss timers, and the log of the requests sent. An asynchronous run stops at each \<open>await\<close>;
  the events \<open>EvAnswer\<close> and \<open>EvCallback\<close> resume it with what the awaited promise settled to,
  in any order between runs. A request whose signal is already aborted is not sent (the
  documented behaviour of \<open>fetch\<close>).
\<close>

section \<open>State\<close>

record resource_ref =
  rr_cluster :: string
  rr_group :: string
  rr_version :: string
  rr_resource :: string
  rr_namespace :: "string option"
  rr_name :: string

record apply_props =
  pr_resource :: resource_ref
  pr_baseline :: string
  pr_draft :: string
  pr_identity :: "identity option"

datatype apply_mode = ModeSubmit | ModeDryRun | ModeForce

datatype run_phase = AwaitDryRun | AwaitCommit | AwaitCallback | RunDone

record apply_run =
  run_mode :: apply_mode
  run_ref :: resource_ref
  run_yaml :: string
  run_phase :: run_phase
  run_aborted :: bool

record apply_request =
  rq_run :: nat
  rq_ref :: resource_ref
  rq_yaml :: string
  rq_dry_run :: bool
  rq_force :: bool

record lifecycle =
  lc_state :: apply_state
  lc_props :: apply_props
  lc_runs :: "apply_run list"
  lc_abort :: "nat option"
  lc_timers :: "nat list"
  lc_timer_ref :: "nat option"
  lc_requests :: "apply_request list"

datatype lifecycle_event =
    EvProps apply_props
  | EvSubmit
  | EvDryRun
  | EvForce
  | EvCancel
  | EvDismiss
  | EvRetry
  | EvAnswer nat "thrown + unit"
  | EvCallback nat "thrown + unit"
  | EvTimer nat
  | EvUnmount

text \<open>What the parameters of the hook's world are: the YAML library and the JSON parser.\<close>

record world =
  w_parse :: "string \<Rightarrow> yaml_document list"
  w_stringify :: "jsval \<Rightarrow> string"
  w_json :: "string \<Rightarrow> jsval option"

section \<open>The pieces of the hook\<close>

definition dispatch :: "apply_action \<Rightarrow> lifecycle \<Rightarrow> lifecycle" where
  "dispatch a s = s\<lparr>lc_state := apply_state_reducer (lc_state s) a\<rparr>"

definition clear_dismiss_timer :: "lifecycle \<Rightarrow> lifecycle" where
  "clear_dismiss_timer s =
     (case lc_timer_ref s of
        None \<Rightarrow> s
      | Some i \<Rightarrow> s\<lparr>lc_timers := removeAll i (lc_timers s), lc_timer_ref := None\<rparr>)"

definition abort_current :: "lifecycle \<Rightarrow> lifecycle" where
  "abort_current s =
     (case lc_abort s of
        None \<Rightarrow> s
      | Some i \<Rightarrow>
          if i < length (lc_runs s)
          then s\<lparr>lc_runs := (lc_runs s)[i := (lc_runs s ! i)\<lparr>run_aborted := True\<rparr>]\<rparr>
          else s)"

definition set_phase :: "nat \<Rightarrow> run_phase \<Rightarrow> lifecycle \<Rightarrow> lifecycle" where
  "set_phase i p s = s\<lparr>lc_runs := (lc_runs s)[i := (lc_runs s ! i)\<lparr>run_phase := p\<rparr>]\<rparr>"

definition send_request :: "nat \<Rightarrow> bool \<Rightarrow> bool \<Rightarrow> lifecycle \<Rightarrow> lifecycle" where
  "send_request i dry force s =
     (let r = lc_runs s ! i
      in if run_aborted r then s
         else s\<lparr>lc_requests := lc_requests s @
                  [\<lparr>rq_run = i, rq_ref = run_ref r, rq_yaml = run_yaml r,
                    rq_dry_run = dry, rq_force = force\<rparr>]\<rparr>)"

fun thrown_of_yaml :: "yaml_error \<Rightarrow> thrown" where
  "thrown_of_yaml (MultiDocumentError n) =
     ThrownMultiDocument (''multi-document YAML not supported (found '' @ show_nat n @
       '' documents). The inline editor edits one resource at a time.'')"
| "thrown_of_yaml (YamlParseError m) = ThrownYamlParse m"
| "thrown_of_yaml (TreeError m) = ThrownError m"

text \<open>A \<open>catch\<close> whose \<open>toApplyResult\<close> itself throws ends the run without a dispatch.\<close>

definition dispatch_failure :: "world \<Rightarrow> thrown \<Rightarrow> lifecycle \<Rightarrow> lifecycle" where
  "dispatch_failure w err s =
     (case to_apply_result (w_json w) (parse_conflict_for_banner (w_json w)) err of
        Inl _ \<Rightarrow> s
      | Inr r \<Rightarrow> dispatch (AResolved r) s)"

definition new_run :: "apply_mode \<Rightarrow> string \<Rightarrow> lifecycle \<Rightarrow> apply_run" where
  "new_run mode yaml s =
     \<lparr>run_mode = mode, run_ref = pr_resource (lc_props s), run_yaml = yaml,
      run_phase = (if mode = ModeForce then AwaitCommit else AwaitDryRun), run_aborted = False\<rparr>"

text \<open>\<open>runApply\<close> up to its first \<open>await\<close>.\<close>

definition run_apply :: "world \<Rightarrow> apply_mode \<Rightarrow> lifecycle \<Rightarrow> lifecycle" where
  "run_apply w mode s =
     (case pr_identity (lc_props s) of
        None \<Rightarrow> s
      | Some idt \<Rightarrow>
          (case build_apply_body (w_parse w) (w_stringify w)
                  (pr_baseline (lc_props s)) (pr_draft (lc_props s)) idt of
             Inl e \<Rightarrow>
               dispatch_failure w (thrown_of_yaml e)
                 (dispatch (if mode = ModeDryRun then ADryRun else ASubmit) s)
           | Inr (yaml, _) \<Rightarrow>
               (let s1 = abort_current s;
                    i = length (lc_runs s1);
                    s2 = s1\<lparr>lc_runs := lc_runs s1 @ [new_run mode yaml s], lc_abort := Some i\<rparr>;
                    s3 = clear_dismiss_timer s2;
                    s4 = (if mode = ModeSubmit then dispatch ASubmit s3
                          else if mode = ModeDryRun then dispatch ADryRun s3
                          else s3)
                in send_request i (mode \<noteq> ModeForce) (mode = ModeForce) s4)))"

text \<open>The rest of \<open>runApply\<close>, from the settling of the awaited request.\<close>

definition on_answer :: "world \<Rightarrow> nat \<Rightarrow> thrown + unit \<Rightarrow> lifecycle \<Rightarrow> lifecycle" where
  "on_answer w i result s =
     (if i < length (lc_runs s) \<and> run_phase (lc_runs s ! i) \<in> {AwaitDryRun, AwaitCommit}
      then (let r = lc_runs s ! i
            in case result of
                 Inl err \<Rightarrow>
                   (let s1 = set_phase i RunDone s
                    in if run_aborted r then s1 else dispatch_failure w err s1)
               | Inr _ \<Rightarrow>
                   (if run_mode r = ModeSubmit \<and> run_phase r = AwaitDryRun
                    then send_request i False False (set_phase i AwaitCommit s)
                    else if run_mode r = ModeDryRun
                    then (dispatch (AResolved ResultOk) (set_phase i RunDone s))
                           \<lparr>lc_timers := i # lc_timers s, lc_timer_ref := Some i\<rparr>
                    else dispatch (AResolved ResultOk) (set_phase i AwaitCallback s)))
      else s)"

text \<open>The settling of \<open>await onCommitSuccess()\<close>.\<close>

definition on_callback :: "world \<Rightarrow> nat \<Rightarrow> thrown + unit \<Rightarrow> lifecycle \<Rightarrow> lifecycle" where
  "on_callback w i result s =
     (if i < length (lc_runs s) \<and> run_phase (lc_runs s ! i) = AwaitCallback
      then (let s1 = set_phase i RunDone s
            in case result of
                 Inr _ \<Rightarrow> s1
               | Inl err \<Rightarrow> if run_aborted (lc_runs s ! i) then s1 else dispatch_failure w err s1)
      else s)"

definition on_timer :: "nat \<Rightarrow> lifecycle \<Rightarrow> lifecycle" where
  "on_timer i s =
     (if i \<in> set (lc_timers s)
      then (let s1 = s\<lparr>lc_timers := removeAll i (lc_timers s), lc_timer_ref := None\<rparr>
            in if i < length (lc_runs s) \<and> run_aborted (lc_runs s ! i) then s1
               else dispatch ADismiss s1)
      else s)"

section \<open>The machine\<close>

fun lifecycle_step :: "world \<Rightarrow> lifecycle \<Rightarrow> lifecycle_event \<Rightarrow> lifecycle" where
  "lifecycle_step w s (EvProps p) = s\<lparr>lc_props := p\<rparr>"
| "lifecycle_step w s EvSubmit = run_apply w ModeSubmit s"
| "lifecycle_step w s EvDryRun = run_apply w ModeDryRun s"
| "lifecycle_step w s EvForce = run_apply w ModeForce (dispatch AForce s)"
| "lifecycle_step w s EvCancel = dispatch ACancel (clear_dismiss_timer (abort_current s))"
| "lifecycle_step w s EvDismiss = dispatch ADismiss (clear_dismiss_timer s)"
| "lifecycle_step w s EvRetry = run_apply w ModeSubmit (dispatch ARetry s)"
| "lifecycle_step w s (EvAnswer i r) = on_answer w i r s"
| "lifecycle_step w s (EvCallback i r) = on_callback w i r s"
| "lifecycle_step w s (EvTimer i) = on_timer i s"
| "lifecycle_step w s EvUnmount = clear_dismiss_timer (abort_current s)"

definition initial_lifecycle :: "apply_props \<Rightarrow> lifecycle" where
  "initial_lifecycle p =
     \<lparr>lc_state = initial_apply_state, lc_props = p, lc_runs = [], lc_abort = None,
      lc_timers = [], lc_timer_ref = None, lc_requests = []\<rparr>"

definition lifecycle_run :: "world \<Rightarrow> apply_props \<Rightarrow> lifecycle_event list \<Rightarrow> lifecycle" where
  "lifecycle_run w p evs = foldl (lifecycle_step w) (initial_lifecycle p) evs"

end
