(* ===== verification/ApplySafety.thy ===== *)
theory ApplySafety
  imports ApplyLifecycle
begin

text \<open>
  Safety of the apply hook: which requests it may send, which of its runs may still act, and
  what an operator sees afterwards. The invariant speaks of the runs, the current abort
  controller and the request log; every event keeps it.
\<close>

section \<open>What each piece leaves alone\<close>

lemma dispatch_frame [simp]:
  "lc_runs (dispatch a s) = lc_runs s" "lc_abort (dispatch a s) = lc_abort s"
  "lc_requests (dispatch a s) = lc_requests s" "lc_props (dispatch a s) = lc_props s"
  "lc_timers (dispatch a s) = lc_timers s" "lc_timer_ref (dispatch a s) = lc_timer_ref s"
  by (simp_all add: dispatch_def)

lemma dispatch_failure_frame [simp]:
  "lc_runs (dispatch_failure w e s) = lc_runs s" "lc_abort (dispatch_failure w e s) = lc_abort s"
  "lc_requests (dispatch_failure w e s) = lc_requests s"
  "lc_props (dispatch_failure w e s) = lc_props s"
  by (simp_all add: dispatch_failure_def split: sum.splits)

lemma clear_timer_frame [simp]:
  "lc_runs (clear_dismiss_timer s) = lc_runs s" "lc_abort (clear_dismiss_timer s) = lc_abort s"
  "lc_requests (clear_dismiss_timer s) = lc_requests s"
  "lc_props (clear_dismiss_timer s) = lc_props s"
  "lc_state (clear_dismiss_timer s) = lc_state s"
  by (simp_all add: clear_dismiss_timer_def split: option.splits)

lemma abort_current_frame [simp]:
  "lc_abort (abort_current s) = lc_abort s" "lc_requests (abort_current s) = lc_requests s"
  "lc_props (abort_current s) = lc_props s" "length (lc_runs (abort_current s)) = length (lc_runs s)"
  "lc_state (abort_current s) = lc_state s"
  by (simp_all add: abort_current_def split: option.splits)

lemma abort_current_nth:
  "i < length (lc_runs s) \<Longrightarrow> lc_runs (abort_current s) ! i =
     (if lc_abort s = Some i then (lc_runs s ! i)\<lparr>run_aborted := True\<rparr> else lc_runs s ! i)"
  by (auto simp: abort_current_def nth_list_update split: option.splits)

lemma set_phase_frame [simp]:
  "lc_abort (set_phase i ph s) = lc_abort s" "lc_requests (set_phase i ph s) = lc_requests s"
  "length (lc_runs (set_phase i ph s)) = length (lc_runs s)"
  by (simp_all add: set_phase_def)

lemma set_phase_nth:
  "i < length (lc_runs s) \<Longrightarrow> j < length (lc_runs s) \<Longrightarrow> lc_runs (set_phase i ph s) ! j =
     (if i = j then (lc_runs s ! j)\<lparr>run_phase := ph\<rparr> else lc_runs s ! j)"
  by (auto simp: set_phase_def nth_list_update)

lemma send_request_frame [simp]:
  "lc_abort (send_request i d f s) = lc_abort s" "lc_runs (send_request i d f s) = lc_runs s"
  "lc_state (send_request i d f s) = lc_state s"
  by (simp_all add: send_request_def Let_def)

section \<open>The invariant\<close>

text \<open>A run's payload is a body the builder returned for props the hook was rendered with.\<close>

definition run_payload_ok :: "world \<Rightarrow> apply_run \<Rightarrow> bool" where
  "run_payload_ok w r \<longleftrightarrow>
     (\<exists>(p :: apply_props) idt ops. pr_identity p = Some idt \<and> run_ref r = pr_resource p \<and>
        build_apply_body (w_parse w) (w_stringify w) (pr_baseline p) (pr_draft p) idt
          = Inr (run_yaml r, ops))"

definition request_ok :: "apply_run list \<Rightarrow> apply_request \<Rightarrow> bool" where
  "request_ok runs rq \<longleftrightarrow>
     rq_run rq < length runs \<and>
     (let r = runs ! rq_run rq
      in rq_ref rq = run_ref r \<and> rq_yaml rq = run_yaml r \<and>
         (rq_force rq \<longleftrightarrow> run_mode r = ModeForce) \<and>
         (rq_dry_run rq \<longrightarrow> run_mode r \<noteq> ModeForce) \<and>
         (\<not> rq_dry_run rq \<and> \<not> rq_force rq \<longrightarrow> run_phase r \<noteq> AwaitDryRun))"

definition gate_request :: "apply_request \<Rightarrow> apply_request" where
  "gate_request rq = rq\<lparr>rq_dry_run := True\<rparr>"

definition log_gated :: "apply_request list \<Rightarrow> bool" where
  "log_gated log \<longleftrightarrow>
     (\<forall>k < length log. \<not> rq_dry_run (log ! k) \<and> \<not> rq_force (log ! k) \<longrightarrow>
        gate_request (log ! k) \<in> set (take k log))"

definition runs_inv :: "world \<Rightarrow> apply_run list \<Rightarrow> nat option \<Rightarrow> apply_request list \<Rightarrow> bool" where
  "runs_inv w runs ab log \<longleftrightarrow>
     (\<forall>i < length runs. \<not> run_aborted (runs ! i) \<longrightarrow> ab = Some i) \<and>
     (\<forall>r \<in> set runs. run_payload_ok w r) \<and>
     (\<forall>rq \<in> set log. request_ok runs rq) \<and>
     (\<forall>i < length runs. run_phase (runs ! i) = AwaitDryRun \<longrightarrow>
        run_mode (runs ! i) \<noteq> ModeForce \<and>
        \<lparr>rq_run = i, rq_ref = run_ref (runs ! i), rq_yaml = run_yaml (runs ! i),
         rq_dry_run = True, rq_force = False\<rparr> \<in> set log) \<and>
     distinct (map (\<lambda>rq. (rq_run rq, rq_dry_run rq)) log) \<and>
     log_gated log"

definition lifecycle_inv :: "world \<Rightarrow> lifecycle \<Rightarrow> bool" where
  "lifecycle_inv w s = runs_inv w (lc_runs s) (lc_abort s) (lc_requests s)"

lemma log_gated_snoc:
  "log_gated (log @ [rq]) \<longleftrightarrow> log_gated log \<and>
     (\<not> rq_dry_run rq \<and> \<not> rq_force rq \<longrightarrow> gate_request rq \<in> set log)"
  by (auto simp: log_gated_def nth_append less_Suc_eq)

lemma inv_abort_current: "lifecycle_inv w s \<Longrightarrow> lifecycle_inv w (abort_current s)"
proof (cases "\<exists>i. lc_abort s = Some i \<and> i < length (lc_runs s)")
  case True
  then obtain i where i: "lc_abort s = Some i" "i < length (lc_runs s)" by auto
  assume "lifecycle_inv w s"
  moreover have "\<forall>r \<in> set (lc_runs (abort_current s)). run_payload_ok w r"
    if "\<forall>r \<in> set (lc_runs s). run_payload_ok w r"
    using that i by (auto simp: abort_current_def run_payload_ok_def dest!: set_update_subset_insert [THEN subsetD])
  ultimately show ?thesis using i
    by (simp add: lifecycle_inv_def runs_inv_def request_ok_def Let_def abort_current_nth)
qed (auto simp: abort_current_def split: option.splits)

lemma inv_set_phase:
  assumes "lifecycle_inv w s" "i < length (lc_runs s)" "ph \<noteq> AwaitDryRun"
  shows "lifecycle_inv w (set_phase i ph s)"
proof -
  have "\<forall>r \<in> set (lc_runs (set_phase i ph s)). run_payload_ok w r"
    using assms by (auto simp: lifecycle_inv_def runs_inv_def set_phase_def run_payload_ok_def
        dest!: set_update_subset_insert [THEN subsetD])
  then show ?thesis using assms
    by (simp add: lifecycle_inv_def runs_inv_def request_ok_def Let_def set_phase_nth)
qed

lemma inv_frame:
  "lc_runs s' = lc_runs s \<Longrightarrow> lc_abort s' = lc_abort s \<Longrightarrow> lc_requests s' = lc_requests s \<Longrightarrow>
   lifecycle_inv w s' = lifecycle_inv w s"
  by (simp add: lifecycle_inv_def)

text \<open>Starting a run: every older run is aborted, then the new one sends its first request.\<close>

lemma runs_inv_start:
  assumes inv: "runs_inv w runs ab log" and old: "\<forall>r \<in> set runs. run_aborted r"
    and r: "run_payload_ok w r" "run_phase r = (if run_mode r = ModeForce then AwaitCommit else AwaitDryRun)"
    and rq: "rq = \<lparr>rq_run = length runs, rq_ref = run_ref r, rq_yaml = run_yaml r,
          rq_dry_run = (run_mode r \<noteq> ModeForce), rq_force = (run_mode r = ModeForce)\<rparr>"
  shows "runs_inv w (runs @ [r]) (Some (length runs)) (log @ [rq])"
proof -
  have old_ok: "request_ok (runs @ [r]) q \<and> rq_run q < length runs" if "q \<in> set log" for q
    using inv that by (auto simp: runs_inv_def request_ok_def Let_def nth_append)
  have "request_ok (runs @ [r]) rq" using r rq by (auto simp: request_ok_def Let_def)
  moreover have "log_gated (log @ [rq])"
    using inv rq by (simp add: runs_inv_def log_gated_snoc)
  moreover have "distinct (map (\<lambda>rq. (rq_run rq, rq_dry_run rq)) (log @ [rq]))"
    using inv rq old_ok by (fastforce simp: runs_inv_def)
  ultimately show ?thesis using inv old old_ok r rq
    by (auto simp: runs_inv_def nth_append less_Suc_eq)
qed

lemma inv_run_apply:
  assumes "lifecycle_inv w s"
  shows "lifecycle_inv w (run_apply w mode s)"
proof (cases "pr_identity (lc_props s)")
  case None
  then show ?thesis using assms by (simp add: run_apply_def)
next
  case (Some idt)
  show ?thesis
  proof (cases "build_apply_body (w_parse w) (w_stringify w)
      (pr_baseline (lc_props s)) (pr_draft (lc_props s)) idt")
    case (Inl e)
    then show ?thesis using assms Some
      by (simp add: run_apply_def lifecycle_inv_def)
  next
    case (Inr body)
    obtain yaml ops where body: "body = (yaml, ops)" by force
    let ?a = "abort_current s"
    have ok: "run_payload_ok w (new_run mode yaml s)"
      using Some Inr body by (auto simp: run_payload_ok_def new_run_def)
    have inv: "runs_inv w (lc_runs ?a) (lc_abort ?a) (lc_requests ?a)"
      using inv_abort_current [OF assms] by (simp add: lifecycle_inv_def)
    have "\<forall>i < length (lc_runs s). \<not> run_aborted (lc_runs s ! i) \<longrightarrow> lc_abort s = Some i"
      using assms by (simp add: lifecycle_inv_def runs_inv_def)
    then have old: "\<forall>r \<in> set (lc_runs ?a). run_aborted r"
      by (clarsimp simp: in_set_conv_nth abort_current_nth) blast
    note start = runs_inv_start [OF inv old ok _ refl]
    show ?thesis using start Some Inr body
      by (cases mode) (simp_all add: run_apply_def lifecycle_inv_def Let_def send_request_def new_run_def nth_append)
  qed
qed

lemma inv_commit:
  assumes "lifecycle_inv w s" "i < length (lc_runs s)"
    "run_mode (lc_runs s ! i) = ModeSubmit" "run_phase (lc_runs s ! i) = AwaitDryRun"
  shows "lifecycle_inv w (send_request i False False (set_phase i AwaitCommit s))"
proof -
  let ?t = "set_phase i AwaitCommit s" and ?r = "lc_runs s ! i"
  let ?rq = "\<lparr>rq_run = i, rq_ref = run_ref ?r, rq_yaml = run_yaml ?r, rq_dry_run = False, rq_force = False\<rparr>"
  have t: "runs_inv w (lc_runs ?t) (lc_abort ?t) (lc_requests s)"
    using inv_set_phase [OF assms(1,2), of AwaitCommit] by (simp add: lifecycle_inv_def)
  have gate: "gate_request ?rq \<in> set (lc_requests s)"
    using assms by (simp add: lifecycle_inv_def runs_inv_def gate_request_def)
  have none: "rq_run q \<noteq> i" if "q \<in> set (lc_requests s)" "\<not> rq_dry_run q" for q
    using that assms by (fastforce simp: lifecycle_inv_def runs_inv_def request_ok_def Let_def)
  have "runs_inv w (lc_runs ?t) (lc_abort ?t) (lc_requests s @ [?rq])"
    using t gate none assms
    by (auto simp: runs_inv_def log_gated_snoc request_ok_def Let_def set_phase_nth)
  then show ?thesis using assms t
    by (auto simp: lifecycle_inv_def send_request_def Let_def set_phase_nth)
qed

lemma inv_on_answer: "lifecycle_inv w s \<Longrightarrow> lifecycle_inv w (on_answer w i r s)"
proof -
  assume inv: "lifecycle_inv w s"
  show ?thesis
  proof (cases "i < length (lc_runs s) \<and> run_phase (lc_runs s ! i) \<in> {AwaitDryRun, AwaitCommit}")
    case True
    note fin = inv_set_phase [OF inv, of i RunDone] and cb = inv_set_phase [OF inv, of i AwaitCallback]
    show ?thesis
    proof (cases r)
      case (Inl e)
      then show ?thesis using True fin by (auto simp: on_answer_def Let_def lifecycle_inv_def)
    next
      case (Inr u)
      then show ?thesis using True fin cb inv_commit [OF inv, of i]
        by (auto simp: on_answer_def Let_def) (auto simp: lifecycle_inv_def)
    qed
  qed (use inv in \<open>auto simp: on_answer_def\<close>)
qed

lemma inv_on_callback: "lifecycle_inv w s \<Longrightarrow> lifecycle_inv w (on_callback w i r s)"
  using inv_set_phase [of w s i RunDone]
  by (auto simp: on_callback_def Let_def split: sum.splits) (auto simp: lifecycle_inv_def)

lemma inv_on_timer: "lifecycle_inv w s \<Longrightarrow> lifecycle_inv w (on_timer i s)"
  by (simp add: on_timer_def Let_def lifecycle_inv_def)

lemma inv_dispatch [simp]: "lifecycle_inv w (dispatch a s) = lifecycle_inv w s"
  by (simp add: lifecycle_inv_def)

lemma inv_lifecycle_step: "lifecycle_inv w s \<Longrightarrow> lifecycle_inv w (lifecycle_step w s e)"
proof (induction w s e rule: lifecycle_step.induct)
  case (5 w s)
  then show ?case using inv_abort_current [of w s] by (simp add: lifecycle_inv_def)
next
  case (11 w s)
  then show ?case using inv_abort_current [of w s] by (simp add: lifecycle_inv_def)
next
  case (1 w s p)
  then show ?case by (simp add: lifecycle_inv_def)
next
  case (6 w s)
  then show ?case by (simp add: lifecycle_inv_def)
qed (simp_all add: inv_run_apply inv_on_answer inv_on_callback inv_on_timer)

interpretation apply_hook: event_machine "lifecycle_step w" "lifecycle_inv w"
  by unfold_locales (rule inv_lifecycle_step)

lemma inv_initial: "lifecycle_inv w (initial_lifecycle p)"
  by (simp add: lifecycle_inv_def runs_inv_def initial_lifecycle_def log_gated_def)

lemma inv_lifecycle_run: "lifecycle_inv w (lifecycle_run w p evs)"
  unfolding lifecycle_run_def by (rule apply_hook.inv_run [OF inv_initial])

section \<open>What one event may send\<close>

definition start_event :: "lifecycle_event \<Rightarrow> bool" where
  "start_event e = (e \<in> {EvSubmit, EvDryRun, EvForce, EvRetry})"

definition sent_by :: "lifecycle \<Rightarrow> lifecycle_event \<Rightarrow> apply_request \<Rightarrow> bool" where
  "sent_by s e rq \<longleftrightarrow>
     (if rq_force rq then e = EvForce \<and> \<not> rq_dry_run rq
      else if rq_dry_run rq then e \<in> {EvSubmit, EvDryRun, EvRetry}
      else e = EvAnswer (rq_run rq) (Inr ()) \<and> rq_run rq < length (lc_runs s)
           \<and> \<not> run_aborted (lc_runs s ! rq_run rq))"

lemma run_apply_requests:
  "lc_requests (run_apply w mode s) = lc_requests s \<or>
   (\<exists>rq. lc_requests (run_apply w mode s) = lc_requests s @ [rq] \<and>
      rq_force rq = (mode = ModeForce) \<and> rq_dry_run rq = (mode \<noteq> ModeForce))"
  by (cases mode)
     (auto simp: run_apply_def Let_def send_request_def split: option.splits sum.splits)

lemma on_answer_requests:
  "lc_requests (on_answer w i r s) = lc_requests s \<or>
   (\<exists>rq. lc_requests (on_answer w i r s) = lc_requests s @ [rq] \<and> \<not> rq_force rq \<and>
      \<not> rq_dry_run rq \<and> rq_run rq = i \<and> r = Inr () \<and> i < length (lc_runs s)
      \<and> \<not> run_aborted (lc_runs s ! i))"
  by (cases r)
     (auto simp: on_answer_def Let_def send_request_def set_phase_nth)

lemma step_requests:
  "lc_requests (lifecycle_step w s e) = lc_requests s \<or>
   (\<exists>rq. lc_requests (lifecycle_step w s e) = lc_requests s @ [rq] \<and> sent_by s e rq)"
proof (cases e)
  case EvSubmit
  then show ?thesis using run_apply_requests [of w ModeSubmit s] by (auto simp: sent_by_def)
next
  case EvDryRun
  then show ?thesis using run_apply_requests [of w ModeDryRun s] by (auto simp: sent_by_def)
next
  case EvForce
  then show ?thesis using run_apply_requests [of w ModeForce "dispatch AForce s"]
    by (auto simp: sent_by_def)
next
  case EvRetry
  then show ?thesis using run_apply_requests [of w ModeSubmit "dispatch ARetry s"]
    by (auto simp: sent_by_def)
next
  case (EvAnswer i r)
  then show ?thesis using on_answer_requests [of w i r s] by (auto simp: sent_by_def)
qed (auto simp: on_callback_def on_timer_def Let_def split: sum.splits)

lemma lifecycle_run_snoc:
  "lifecycle_run w p (evs @ [e]) = lifecycle_step w (lifecycle_run w p evs) e"
  by (simp add: lifecycle_run_def)

lemma commit_answered:
  "rq \<in> set (lc_requests (lifecycle_run w p evs)) \<Longrightarrow> \<not> rq_dry_run rq \<Longrightarrow> \<not> rq_force rq \<Longrightarrow>
   EvAnswer (rq_run rq) (Inr ()) \<in> set evs"
proof (induction evs rule: rev_induct)
  case (snoc e evs)
  then show ?case using step_requests [of w "lifecycle_run w p evs" e]
    by (auto simp: lifecycle_run_snoc sent_by_def)
qed (simp add: lifecycle_run_def initial_lifecycle_def)

section \<open>Properties\<close>

text \<open>A concrete world, for the instances below.\<close>

definition sample_world :: world where
  "sample_world =
     \<lparr>w_parse = (\<lambda>t. [\<lparr>doc_js = JObj [(''spec'', JObj [(''replicas'',
                        if t = ''old'' then JNum 1 else JNum 2)])], doc_errors = []\<rparr>]),
      w_stringify = (\<lambda>_. ''body''),
      w_json = (\<lambda>_. Some (sample_body [''kubectl'']))\<rparr>"

definition sample_props :: apply_props where
  "sample_props =
     \<lparr>pr_resource = \<lparr>rr_cluster = ''c'', rr_group = ''apps'', rr_version = ''v1'',
        rr_resource = ''deployments'', rr_namespace = Some ''ns'', rr_name = ''web''\<rparr>,
      pr_baseline = ''old'', pr_draft = ''new'',
      pr_identity = Some \<lparr>id_apiVersion = ''apps/v1'', id_kind = ''Deployment'', id_name = ''web'',
        id_namespace = Some ''ns''\<rparr>\<rparr>"

lemma sample_builds:
  "pr_identity sample_props = Some \<lparr>id_apiVersion = ''apps/v1'', id_kind = ''Deployment'',
     id_name = ''web'', id_namespace = Some ''ns''\<rparr>"
  "build_apply_body (w_parse sample_world) (w_stringify sample_world) (pr_baseline sample_props)
     (pr_draft sample_props) \<lparr>id_apiVersion = ''apps/v1'', id_kind = ''Deployment'',
     id_name = ''web'', id_namespace = Some ''ns''\<rparr>
   = Inr (''body'', [ReplaceOp [PKey ''spec'', PKey ''replicas''] (JNum 2)])"
  by (simp add: sample_props_def) code_simp

text \<open>
  C2: the dry-run gate. In every run of the hook, a commit that is not forced is sent only
  after a dry-run request of the same apply (same target, same payload) that the server
  answered with success.
\<close>

theorem commit_only_after_dry_run:
  assumes "lc_requests (lifecycle_run w p evs) = pre @ rq # post"
    "\<not> rq_dry_run rq" "\<not> rq_force rq"
  shows "gate_request rq \<in> set pre \<and> EvAnswer (rq_run rq) (Inr ()) \<in> set evs"
proof -
  have "log_gated (pre @ rq # post)"
    using inv_lifecycle_run [of w p evs] assms(1) by (simp add: lifecycle_inv_def runs_inv_def)
  then have "gate_request rq \<in> set pre"
    using assms(2,3) unfolding log_gated_def
    by (elim allE [of _ "length pre"]) (auto simp: nth_append)
  then show ?thesis using assms commit_answered [of rq w p evs] by simp
qed

lemma commit_only_after_dry_run_witness:
  "\<exists>pre rq post. lc_requests (lifecycle_run sample_world sample_props
        [EvSubmit, EvAnswer 0 (Inr ())]) = pre @ rq # post \<and> gate_request rq \<in> set pre"
proof -
  let ?evs = "[EvSubmit, EvAnswer 0 (Inr ())]"
  let ?rq = "\<lparr>rq_run = 0, rq_ref = pr_resource sample_props, rq_yaml = ''body'', rq_dry_run = False,
      rq_force = False\<rparr>"
  have "lc_requests (lifecycle_run sample_world sample_props ?evs) = [gate_request ?rq] @ ?rq # []"
    by (simp add: lifecycle_run_def initial_lifecycle_def run_apply_def sample_builds Let_def
        on_answer_def send_request_def set_phase_def new_run_def gate_request_def
        abort_current_def clear_dismiss_timer_def dispatch_def)
  from commit_only_after_dry_run [OF this] this show ?thesis by (metis apply_request.select_convs(4,5))
qed

text \<open>
  forced applies are the operator's. The hook sends at most one forced request per press
  of the force button, and a forced request is never a dry run.
\<close>

theorem forced_requests_bounded:
  "length (filter rq_force (lc_requests (lifecycle_run w p evs))) \<le> length (filter ((=) EvForce) evs) \<and>
   (\<forall>rq \<in> set (lc_requests (lifecycle_run w p evs)). \<not> (rq_force rq \<and> rq_dry_run rq))"
proof (induction evs rule: rev_induct)
  case (snoc e evs)
  then show ?case using step_requests [of w "lifecycle_run w p evs" e]
    by (auto simp: lifecycle_run_snoc sent_by_def)
qed (simp add: lifecycle_run_def initial_lifecycle_def)

lemma all_aborted_update:
  "\<forall>r \<in> set rs. run_aborted r \<Longrightarrow> i < length rs \<Longrightarrow>
   \<forall>r \<in> set (rs[i := (rs ! i)\<lparr>run_phase := ph\<rparr>]). run_aborted r"
  "\<forall>r \<in> set rs. run_aborted r \<Longrightarrow> \<forall>r \<in> set (rs[i := x\<lparr>run_aborted := True\<rparr>]). run_aborted r"
  by (auto dest!: set_update_subset_insert [THEN subsetD])

lemma all_aborted_step:
  assumes "\<forall>r \<in> set (lc_runs s). run_aborted r" "\<not> start_event e"
  shows "\<forall>r \<in> set (lc_runs (lifecycle_step w s e)). run_aborted r"
proof (cases e)
  case (EvAnswer i r)
  show ?thesis
  proof (cases "i < length (lc_runs s)")
    case True
    then show ?thesis using assms(1) EvAnswer all_aborted_update(1) [OF assms(1) True]
      by (cases r) (simp_all add: on_answer_def Let_def set_phase_def)
  qed (use assms EvAnswer in \<open>simp add: on_answer_def\<close>)
next
  case (EvCallback i r)
  show ?thesis
  proof (cases "i < length (lc_runs s)")
    case True
    then show ?thesis using assms(1) EvCallback all_aborted_update(1) [OF assms(1) True]
      by (cases r) (simp_all add: on_callback_def Let_def set_phase_def)
  qed (use assms EvCallback in \<open>simp add: on_callback_def\<close>)
next
  case EvCancel
  then show ?thesis using assms(1) all_aborted_update(2) [OF assms(1)]
    by (simp add: abort_current_def split: option.splits)
next
  case EvUnmount
  then show ?thesis using assms(1) all_aborted_update(2) [OF assms(1)]
    by (simp add: abort_current_def split: option.splits)
qed (use assms in \<open>simp_all add: start_event_def on_timer_def Let_def\<close>)

lemma all_aborted_silent:
  "\<forall>r \<in> set (lc_runs s). run_aborted r \<Longrightarrow> \<forall>e \<in> set es. \<not> start_event e \<Longrightarrow>
   lc_requests (foldl (lifecycle_step w) s es) = lc_requests s"
proof (induction es arbitrary: s)
  case (Cons e es)
  have "lc_requests (lifecycle_step w s e) = lc_requests s"
    using step_requests [of w s e] Cons.prems
    by (auto simp: sent_by_def start_event_def split: if_splits)
  then show ?case using Cons.IH [OF all_aborted_step] Cons.prems by simp
qed simp

lemma cancel_aborts_all:
  assumes "lifecycle_inv w s" "e \<in> {EvCancel, EvUnmount}"
  shows "\<forall>r \<in> set (lc_runs (lifecycle_step w s e)). run_aborted r"
proof -
  have "\<forall>i < length (lc_runs s). \<not> run_aborted (lc_runs s ! i) \<longrightarrow> lc_abort s = Some i"
    using assms(1) by (simp add: lifecycle_inv_def runs_inv_def)
  then have "\<forall>r \<in> set (lc_runs (abort_current s)). run_aborted r"
    by (clarsimp simp: in_set_conv_nth abort_current_nth) blast
  then show ?thesis using assms(2) by auto
qed

lemma forced_requests_bounded_witness:
  "length (filter rq_force (lc_requests (lifecycle_run sample_world sample_props [EvForce, EvForce]))) = 2"
proof -
  have "filter rq_force (lc_requests (lifecycle_run sample_world sample_props [EvForce, EvForce])) \<noteq> []
      \<and> length (filter rq_force (lc_requests (lifecycle_run sample_world sample_props [EvForce, EvForce]))) \<ge> 2"
    by (simp add: lifecycle_run_def initial_lifecycle_def run_apply_def sample_builds Let_def
        abort_current_def send_request_def new_run_def clear_dismiss_timer_def dispatch_def nth_append)
  then show ?thesis
    using forced_requests_bounded [of sample_world sample_props "[EvForce, EvForce]"] by simp
qed

text \<open>
  C10: one apply at a time, nothing twice. In every reachable state at most one run is not
  aborted, every request goes to the target and carries the payload that the body builder
  returned for props the hook was rendered with, and no run sends two dry runs or two commits.
\<close>

theorem one_live_run_and_no_repeat:
  fixes w p evs
  defines "s \<equiv> lifecycle_run w p evs"
  shows "(\<forall>i < length (lc_runs s). \<forall>j < length (lc_runs s).
      \<not> run_aborted (lc_runs s ! i) \<and> \<not> run_aborted (lc_runs s ! j) \<longrightarrow> i = j) \<and>
   distinct (map (\<lambda>rq. (rq_run rq, rq_dry_run rq)) (lc_requests s)) \<and>
   (\<forall>rq \<in> set (lc_requests s). \<exists>(q :: apply_props) idt ops.
      pr_identity q = Some idt \<and> rq_ref rq = pr_resource q \<and>
      build_apply_body (w_parse w) (w_stringify w) (pr_baseline q) (pr_draft q) idt
        = Inr (rq_yaml rq, ops))"
proof -
  have inv: "runs_inv w (lc_runs s) (lc_abort s) (lc_requests s)"
    using inv_lifecycle_run [of w p evs] by (simp add: s_def lifecycle_inv_def)
  have payload: "\<exists>(q :: apply_props) idt ops. pr_identity q = Some idt \<and> rq_ref rq = pr_resource q \<and>
      build_apply_body (w_parse w) (w_stringify w) (pr_baseline q) (pr_draft q) idt
        = Inr (rq_yaml rq, ops)" if "rq \<in> set (lc_requests s)" for rq
  proof -
    have "run_payload_ok w (lc_runs s ! rq_run rq)" "rq_ref rq = run_ref (lc_runs s ! rq_run rq)"
      "rq_yaml rq = run_yaml (lc_runs s ! rq_run rq)"
      using inv that by (auto simp: runs_inv_def request_ok_def Let_def)
    then show ?thesis by (simp add: run_payload_ok_def)
  qed
  have one: "i = j" if "i < length (lc_runs s)" "j < length (lc_runs s)"
      "\<not> run_aborted (lc_runs s ! i)" "\<not> run_aborted (lc_runs s ! j)" for i j
  proof -
    have "\<forall>i < length (lc_runs s). \<not> run_aborted (lc_runs s ! i) \<longrightarrow> lc_abort s = Some i"
      using inv by (simp add: runs_inv_def)
    then show ?thesis using that by (metis option.inject)
  qed
  have "distinct (map (\<lambda>rq. (rq_run rq, rq_dry_run rq)) (lc_requests s))"
    using inv by (simp add: runs_inv_def)
  then show ?thesis using one payload by blast
qed

text \<open>
  cancelling works. After the cancel button or an unmount, whatever answers, timers and
  renders arrive, the hook sends nothing more until the operator starts another action.
\<close>

theorem nothing_sent_after_cancel:
  assumes "e \<in> {EvCancel, EvUnmount}" "\<forall>x \<in> set es. \<not> start_event x"
  shows "lc_requests (lifecycle_run w p (evs @ e # es)) = lc_requests (lifecycle_run w p evs)"
proof -
  let ?s = "lifecycle_run w p evs"
  have "lc_requests (lifecycle_step w ?s e) = lc_requests ?s" using assms(1) by auto
  then show ?thesis
    using all_aborted_silent [OF cancel_aborts_all [OF inv_lifecycle_run assms(1)] assms(2)]
    by (simp add: lifecycle_run_def)
qed

lemma one_live_run_and_no_repeat_witness:
  "let s = lifecycle_run sample_world sample_props [EvSubmit, EvDryRun]
   in length (lc_runs s) = 2 \<and> run_aborted (lc_runs s ! 0) \<and> \<not> run_aborted (lc_runs s ! 1)
      \<and> distinct (map (\<lambda>rq. (rq_run rq, rq_dry_run rq)) (lc_requests s))"
  using one_live_run_and_no_repeat [of sample_world sample_props "[EvSubmit, EvDryRun]"]
  by (simp add: lifecycle_run_def initial_lifecycle_def run_apply_def sample_builds Let_def
      abort_current_def send_request_def new_run_def clear_dismiss_timer_def)

lemma nothing_sent_after_cancel_witness:
  "lc_requests (lifecycle_run sample_world sample_props
      ([EvSubmit] @ EvCancel # [EvAnswer 0 (Inr ())])) =
   lc_requests (lifecycle_run sample_world sample_props [EvSubmit])"
  by (rule nothing_sent_after_cancel) (simp_all add: start_event_def)

text \<open>
  an apply that fails right after a dry run is lost. When the operator applies while the
  bar still shows the success of a dry run (its buttons are enabled then), the reducer ignores
  both the start and the outcome of that apply: whatever error the commit ends with, the bar
  goes on showing it as applied, no banner appears, and no timer is left to clear it.
\<close>

theorem failure_after_dry_run_is_lost:
  assumes "pr_identity p = Some idt"
    "build_apply_body (w_parse w) (w_stringify w) (pr_baseline p) (pr_draft p) idt = Inr (yaml, ops)"
  shows "\<not> av_busy (action_bar_view_model (lc_state (lifecycle_run w p [EvDryRun, EvAnswer 0 (Inr ())]))) \<and>
    (let s = lifecycle_run w p [EvDryRun, EvAnswer 0 (Inr ()),
               EvSubmit, EvAnswer 1 (Inr ()), EvAnswer 1 (Inl err)]
     in av_status_chip (action_bar_view_model (lc_state s)) = ChipApplied
        \<and> banner_view_model (lc_state s) = BannerHidden \<and> lc_timers s = [])"
proof -
  let ?r = "\<lambda>m ph ab. \<lparr>run_mode = m, run_ref = pr_resource p, run_yaml = yaml, run_phase = ph,
      run_aborted = ab\<rparr>"
  let ?q = "\<lambda>i dry. \<lparr>rq_run = i, rq_ref = pr_resource p, rq_yaml = yaml, rq_dry_run = dry,
      rq_force = False\<rparr>"
  let ?s = "\<lambda>st rs ab ts ref log. \<lparr>lc_state = st, lc_props = p, lc_runs = rs, lc_abort = ab,
      lc_timers = ts, lc_timer_ref = ref, lc_requests = log\<rparr>"
  let ?s1 = "?s DryRunning [?r ModeDryRun AwaitDryRun False] (Some 0) [] None [?q 0 True]"
  let ?s2 = "?s Success [?r ModeDryRun RunDone False] (Some 0) [0] (Some 0) [?q 0 True]"
  let ?rs = "\<lambda>ph. [?r ModeDryRun RunDone True, ?r ModeSubmit ph False]"
  let ?s3 = "?s Success (?rs AwaitDryRun) (Some 1) [] None [?q 0 True, ?q 1 True]"
  let ?s4 = "?s Success (?rs AwaitCommit) (Some 1) [] None [?q 0 True, ?q 1 True, ?q 1 False]"
  let ?s5 = "?s Success (?rs RunDone) (Some 1) [] None [?q 0 True, ?q 1 True, ?q 1 False]"
  note start_defs = run_apply_def assms Let_def new_run_def send_request_def dispatch_def
    abort_current_def clear_dismiss_timer_def
  have s1: "lifecycle_step w (initial_lifecycle p) EvDryRun = ?s1"
    by (simp add: initial_lifecycle_def initial_apply_state_def start_defs reducer_defs)
  have s2: "lifecycle_step w ?s1 (EvAnswer 0 (Inr ())) = ?s2"
    by (simp add: on_answer_def set_phase_def dispatch_def reducer_defs)
  have s3: "lifecycle_step w ?s2 EvSubmit = ?s3"
    by (simp add: start_defs reducer_defs nth_append)
  have s4: "lifecycle_step w ?s3 (EvAnswer 1 (Inr ())) = ?s4"
    by (simp add: on_answer_def set_phase_def send_request_def Let_def)
  have s5: "lifecycle_step w ?s4 (EvAnswer 1 (Inl err)) = ?s5"
    by (simp add: on_answer_def set_phase_def Let_def dispatch_failure_def dispatch_def reducer_defs
        split: sum.splits)
  have "lifecycle_run w p [EvDryRun, EvAnswer 0 (Inr ())] = ?s2"
    by (simp only: lifecycle_run_def foldl.simps s1 s2)
  moreover have "lifecycle_run w p [EvDryRun, EvAnswer 0 (Inr ()), EvSubmit, EvAnswer 1 (Inr ()),
      EvAnswer 1 (Inl err)] = ?s5"
    by (simp only: lifecycle_run_def foldl.simps s1 s2 s3 s4 s5)
  ultimately show ?thesis by (simp add: view_defs)
qed

lemma failure_after_dry_run_is_lost_witness:
  "let s = lifecycle_run sample_world sample_props [EvDryRun, EvAnswer 0 (Inr ()),
             EvSubmit, EvAnswer 1 (Inr ()), EvAnswer 1 (Inl (ThrownApi sample_conflict))]
   in av_status_chip (action_bar_view_model (lc_state s)) = ChipApplied"
  using failure_after_dry_run_is_lost [OF sample_builds] by (simp add: Let_def)

end
