(* ===== verification/WorkerPool.thy ===== *)
theory WorkerPool
  imports Prelude
begin

text \<open>
  The worker pool that \<open>bulkFetchYaml\<close> (\<open>web/src/lib/multiYaml.ts\<close>) and \<open>runBatch\<close>
  (\<open>web/src/hooks/useApplyYamlState.ts\<close>) share: each worker takes the next index off a cursor,
  awaits its task, and goes on until the indices are used up or the signal is aborted. Tasks
  settle in any order; what a settled task does to the caller's data is the parameter
  \<open>settle\<close>, told whether the signal was aborted by then.
\<close>

definition max_parallel :: nat where
  "max_parallel = 6"

record 'd pool =
  po_cursor :: nat
  po_running :: "nat list"
  po_aborted :: bool
  po_data :: 'd

datatype 'o pool_event = PoolSettle nat 'o | PoolAbort

text \<open>One turn of a worker's loop head.\<close>

definition pool_pull :: "nat \<Rightarrow> 'd pool \<Rightarrow> 'd pool" where
  "pool_pull tot s =
     (if po_aborted s then s
      else let idx = po_cursor s; s1 = s\<lparr>po_cursor := idx + 1\<rparr>
           in if tot \<le> idx then s1 else s1\<lparr>po_running := po_running s1 @ [idx]\<rparr>)"

definition pool_start :: "nat \<Rightarrow> nat \<Rightarrow> 'd \<Rightarrow> 'd pool" where
  "pool_start workers tot d =
     (pool_pull tot ^^ workers)
       \<lparr>po_cursor = 0, po_running = [], po_aborted = False, po_data = d\<rparr>"

fun pool_step ::
  "(bool \<Rightarrow> nat \<Rightarrow> 'o \<Rightarrow> 'd \<Rightarrow> 'd) \<Rightarrow> nat \<Rightarrow> 'd pool \<Rightarrow> 'o pool_event \<Rightarrow> 'd pool" where
  "pool_step settle tot s (PoolSettle i out) =
     (if i \<in> set (po_running s)
      then pool_pull tot
             (s\<lparr>po_running := removeAll i (po_running s),
                po_data := settle (po_aborted s) i out (po_data s)\<rparr>)
      else s)"
| "pool_step settle tot s PoolAbort = s\<lparr>po_aborted := True\<rparr>"

definition pool_run ::
  "(bool \<Rightarrow> nat \<Rightarrow> 'o \<Rightarrow> 'd \<Rightarrow> 'd) \<Rightarrow> nat \<Rightarrow> 'd \<Rightarrow> 'o pool_event list \<Rightarrow> 'd pool" where
  "pool_run settle tot d es =
     foldl (pool_step settle tot) (pool_start (min max_parallel tot) tot d) es"

section \<open>The contract\<close>

text \<open>
  The caller's data has a slot per index that is free until its task settles, and counts the
  tasks settled before an abort; settling a task touches no other slot.
\<close>

locale worker_pool =
  fixes settle :: "bool \<Rightarrow> nat \<Rightarrow> 'o \<Rightarrow> 'd \<Rightarrow> 'd"
    and slot_free :: "'d \<Rightarrow> nat \<Rightarrow> bool"
    and settled :: "'d \<Rightarrow> nat"
    and tot :: nat
  assumes settle_count: "i < tot \<Longrightarrow> slot_free d i \<Longrightarrow> settled (settle False i out d) = Suc (settled d)"
    and settle_other: "j \<noteq> i \<Longrightarrow> slot_free (settle a i out d) j = slot_free d j"
begin

definition pool_ok :: "nat \<Rightarrow> 'd pool \<Rightarrow> bool" where
  "pool_ok k s \<longleftrightarrow>
     distinct (po_running s) \<and> length (po_running s) \<le> k \<and>
     (\<forall>i \<in> set (po_running s). i < tot \<and> i < po_cursor s \<and> slot_free (po_data s) i) \<and>
     (\<forall>i. po_cursor s \<le> i \<and> i < tot \<longrightarrow> slot_free (po_data s) i) \<and>
     (\<not> po_aborted s \<longrightarrow>
        settled (po_data s) + length (po_running s) = min (po_cursor s) tot \<and>
        (length (po_running s) = k \<or> tot \<le> po_cursor s))"

lemma pull_ok:
  assumes "distinct (po_running s)" "length (po_running s) \<le> k"
    and "\<forall>i \<in> set (po_running s). i < tot \<and> i < po_cursor s \<and> slot_free (po_data s) i"
    and "\<forall>i. po_cursor s \<le> i \<and> i < tot \<longrightarrow> slot_free (po_data s) i"
    and "\<not> po_aborted s \<Longrightarrow> settled (po_data s) + length (po_running s) = min (po_cursor s) tot"
    and "\<not> po_aborted s \<Longrightarrow> length (po_running s) = k \<or> tot \<le> po_cursor s"
  shows "pool_ok (Suc k) (pool_pull tot s)"
  using assms by (auto simp: pool_ok_def pool_pull_def Let_def)

lemma pull_inv: "pool_ok k s \<Longrightarrow> pool_ok (Suc k) (pool_pull tot s)"
  by (rule pull_ok) (simp_all add: pool_ok_def)

lemma start_ok:
  assumes "settled d = 0" "\<forall>i < tot. slot_free d i"
  shows "pool_ok k (pool_start k tot d)"
  unfolding pool_start_def
proof (induction k)
  case (Suc k)
  then show ?case by (simp add: pull_inv)
qed (use assms in \<open>simp add: pool_ok_def\<close>)

lemma step_ok:
  assumes "pool_ok k s"
  shows "pool_ok k (pool_step settle tot s e)"
proof (cases e)
  case (PoolSettle i out)
  show ?thesis
  proof (cases "i \<in> set (po_running s)")
    case True
    let ?t = "s\<lparr>po_running := removeAll i (po_running s),
                po_data := settle (po_aborted s) i out (po_data s)\<rparr>"
    have i: "i < tot" "i < po_cursor s" "slot_free (po_data s) i" and d: "distinct (po_running s)"
      using assms True by (auto simp: pool_ok_def)
    have len: "length (po_running s) = Suc (length (removeAll i (po_running s)))"
      using True d by (metis One_nat_def Suc_pred distinct_remove1_removeAll length_pos_if_in_set length_remove1)
    obtain m where k: "k = Suc m" using assms len by (cases k) (auto simp: pool_ok_def)
    have "pool_ok (Suc m) (pool_pull tot ?t)"
    proof (rule pull_ok)
      show "\<not> po_aborted ?t \<Longrightarrow>
          settled (po_data ?t) + length (po_running ?t) = min (po_cursor ?t) tot"
        using assms len settle_count [OF i(1,3)] by (simp add: pool_ok_def)
      show "\<forall>j \<in> set (po_running ?t). j < tot \<and> j < po_cursor ?t \<and> slot_free (po_data ?t) j"
        using assms by (auto simp: pool_ok_def settle_other)
      show "\<forall>j. po_cursor ?t \<le> j \<and> j < tot \<longrightarrow> slot_free (po_data ?t) j"
        using assms i(2) by (auto simp: pool_ok_def settle_other)
    qed (use assms len k d in \<open>auto simp: pool_ok_def distinct_removeAll\<close>)
    then show ?thesis using PoolSettle True k by simp
  qed (use assms PoolSettle in simp)
next
  case PoolAbort
  then show ?thesis using assms by (simp add: pool_ok_def)
qed

lemma run_ok:
  assumes "settled d = 0" "\<forall>i < tot. slot_free d i"
  shows "pool_ok (min max_parallel tot) (pool_run settle tot d es)"
  unfolding pool_run_def
  by (induction es rule: rev_induct) (simp_all add: start_ok [OF assms] step_ok)

lemma run_bounded:
  assumes "settled d = 0" "\<forall>i < tot. slot_free d i"
  shows "length (po_running (pool_run settle tot d es)) \<le> max_parallel"
  using run_ok [OF assms, of es] by (simp add: pool_ok_def)

lemma run_complete:
  assumes "settled d = 0" "\<forall>i < tot. slot_free d i"
    and "\<not> po_aborted (pool_run settle tot d es)" "po_running (pool_run settle tot d es) = []"
  shows "settled (po_data (pool_run settle tot d es)) = tot"
  using run_ok [OF assms(1,2), of es] assms(3,4) by (auto simp: pool_ok_def max_parallel_def)

end

end
