(* ===== verification/ApplyYaml.thy ===== *)
theory ApplyYaml
  imports WorkerPool ListShape ApiError "HOL-Library.Word"
begin

text \<open>
  Model of the multi-document apply dialog: the parser \<open>web/src/lib/applyYamlParser.ts\<close>, the
  state hook \<open>web/src/hooks/useApplyYamlState.ts\<close> and the footer derivation
  \<open>web/src/components/apply/applyOutcome.ts\<close>. The YAML library is the parameter \<open>parse_all\<close>:
  per document its content range, whether it has contents, its errors and its JavaScript
  projection. \<open>JSON.stringify\<close> is the parameter \<open>show_json\<close>.
\<close>

unbundle bit_operations_syntax

section \<open>The parser\<close>

record library_doc =
  ld_range :: "(nat \<times> nat) option"
  ld_has_contents :: bool
  ld_errors :: "string list"
  ld_js :: jsval

record parsed_doc =
  pd_id :: string
  pd_raw :: string
  pd_valid :: bool
  pd_api_version :: "string option"
  pd_kind :: "string option"
  pd_name :: "string option"
  pd_namespace :: "string option"
  pd_parse_error :: "string option"

text \<open>FNV-1a on 32 bits; \<open>Math.imul\<close> and the final \<open>>>> 0\<close> are arithmetic modulo \<open>2^32\<close>.\<close>

definition hash_step :: "32 word \<Rightarrow> char \<Rightarrow> 32 word" where
  "hash_step h c = (h XOR word_of_nat (of_char c)) * 0x01000193"

function show_hex :: "int \<Rightarrow> string" where
  "show_hex n =
     (let digit = (\<lambda>d. char_of (if d < 10 then 48 + d else 87 + d))
      in if n < 16 then [digit n] else show_hex (n div 16) @ [digit (n mod 16)])"
  by auto
termination by (relation "measure nat") auto

declare show_hex.simps [simp del]

definition pad_start :: "nat \<Rightarrow> char \<Rightarrow> string \<Rightarrow> string" where
  "pad_start n c s = replicate (n - length s) c @ s"

definition stable_hash :: "string \<Rightarrow> string" where
  "stable_hash s = pad_start 8 (CHR ''0'') (show_hex (uint (foldl hash_step 0x811c9dc5 s)))"

definition string_prop :: "jsval \<Rightarrow> string option" where
  "string_prop v = (case v of JStr s \<Rightarrow> Some s | _ \<Rightarrow> None)"

definition filled :: "string option \<Rightarrow> bool" where
  "filled v = (case v of Some s \<Rightarrow> s \<noteq> [] | None \<Rightarrow> False)"

definition invalid_doc :: "string \<Rightarrow> string \<Rightarrow> string \<Rightarrow> parsed_doc" where
  "invalid_doc i raw err =
     \<lparr>pd_id = i, pd_raw = raw, pd_valid = False, pd_api_version = None, pd_kind = None,
      pd_name = None, pd_namespace = None, pd_parse_error = Some err\<rparr>"

definition checked_doc :: "string \<Rightarrow> string \<Rightarrow> jsval \<Rightarrow> parsed_doc" where
  "checked_doc i raw obj =
     (let meta = get_prop obj ''metadata'';
          api_version = string_prop (get_prop obj ''apiVersion'');
          kind = string_prop (get_prop obj ''kind'');
          name = string_prop (opt_prop meta ''name'');
          missing = (if filled api_version then [] else [''apiVersion''])
                    @ (if filled kind then [] else [''kind''])
                    @ (if filled name then [] else [''metadata.name''])
      in \<lparr>pd_id = i, pd_raw = raw, pd_valid = (missing = []), pd_api_version = api_version,
          pd_kind = kind, pd_name = name, pd_namespace = string_prop (opt_prop meta ''namespace''),
          pd_parse_error =
            (if missing = [] then None
             else Some (''missing required field(s): '' @ join_str '', '' missing))\<rparr>)"

definition checked_or_skip :: "string \<Rightarrow> string \<Rightarrow> nat \<Rightarrow> library_doc \<Rightarrow> parsed_doc list \<times> nat" where
  "checked_or_skip i raw idx doc =
     (let obj = ld_js doc
      in if obj = JUndefined \<or> obj = JNull then ([], idx + 1)
         else if \<not> (is_plain_object obj \<or> is_array obj)
         then ([invalid_doc i raw ''document is not a YAML mapping''], idx + 1)
         else ([checked_doc i raw obj], idx + 1))"

text \<open>The loop body: what it pushes, and whether it counts the document.\<close>

definition parse_one :: "string \<Rightarrow> nat \<Rightarrow> library_doc \<Rightarrow> parsed_doc list \<times> nat" where
  "parse_one text idx doc =
     (let (from0, to0) = (case ld_range doc of Some r \<Rightarrow> r | None \<Rightarrow> (0, length text));
          raw = trim_str (drop from0 (take to0 text));
          i = ''doc-'' @ show_nat idx @ ''-'' @ stable_hash raw
      in if raw = [] \<or> \<not> ld_has_contents doc then ([], idx)
         else (case ld_errors doc of
                 (e # es) \<Rightarrow>
                   if e \<noteq> [] then ([invalid_doc i raw e], idx + 1) else checked_or_skip i raw idx doc
               | [] \<Rightarrow> checked_or_skip i raw idx doc))"

fun parse_docs :: "string \<Rightarrow> nat \<Rightarrow> library_doc list \<Rightarrow> parsed_doc list" where
  "parse_docs text idx [] = []"
| "parse_docs text idx (doc # docs) =
     (let (out, idx') = parse_one text idx doc in out @ parse_docs text idx' docs)"

definition parse_multi_doc_yaml :: "(string \<Rightarrow> library_doc list) \<Rightarrow> string \<Rightarrow> parsed_doc list" where
  "parse_multi_doc_yaml parse_all text =
     (if length (trim_str text) = 0 then [] else parse_docs text 0 (parse_all text))"

record gvr =
  g_group :: string
  g_version :: string
  g_resource :: string

definition gvr_from_api_version_and_kind :: "string \<Rightarrow> string \<Rightarrow> gvr" where
  "gvr_from_api_version_and_kind api_version kind =
     (let slash = index_of (CHR ''/'') api_version;
          grp = (case slash of None \<Rightarrow> [] | Some i \<Rightarrow> take i api_version);
          version = (case slash of None \<Rightarrow> api_version | Some i \<Rightarrow> drop (i + 1) api_version)
      in case find (\<lambda>meta. km_kind meta = kind) (map snd kind_registry) of
           Some meta \<Rightarrow>
             \<lparr>g_group = km_group meta, g_version = km_version meta, g_resource = km_resource meta\<rparr>
         | None \<Rightarrow>
             \<lparr>g_group = grp, g_version = version,
              g_resource = to_lower kind @ (if ends_with ''s'' kind then [] else ''s'')\<rparr>)"

section \<open>The footer\<close>

datatype doc_result_state = RIdle | RPending | RSuccess | RFailure | RConflict

record doc_result =
  dr_state :: doc_result_state
  dr_diff :: "string option"
  dr_error_message :: "string option"
  dr_error :: "api_error option"

datatype dialog_busy = BusyIdle | BusyDryRun | BusyApply
datatype last_batch_kind = LastNone | LastDryRun | LastApply
datatype outcome_kind = OIdle | ORunning | OPreApply | OSuccess | OPartial

record apply_outcome =
  ao_kind :: outcome_kind
  ao_success :: nat
  ao_failure :: nat
  ao_conflict :: nat
  ao_pending :: nat
  ao_total :: nat

type_synonym results = "(string \<times> doc_result) list"

definition count_state :: "doc_result_state \<Rightarrow> results \<Rightarrow> nat" where
  "count_state st rs = length (filter (\<lambda>(_, r). dr_state r = st) rs)"

definition derive_apply_outcome ::
  "dialog_busy \<Rightarrow> last_batch_kind \<Rightarrow> results \<Rightarrow> nat \<Rightarrow> apply_outcome" where
  "derive_apply_outcome busy last0 rs valid_count =
     (let success = count_state RSuccess rs;
          failure = count_state RFailure rs;
          conflict = count_state RConflict rs;
          pending = count_state RPending rs;
          all_done = (success + failure + conflict = valid_count \<and> pending = 0 \<and> 0 < valid_count);
          all_success = (all_done \<and> failure = 0 \<and> conflict = 0);
          kind = (if busy \<noteq> BusyIdle then ORunning
                  else if last0 = LastApply \<and> all_success then OSuccess
                  else if last0 = LastApply \<and> 0 < success + failure + conflict then OPartial
                  else if 0 < valid_count then OPreApply
                  else OIdle)
      in \<lparr>ao_kind = kind, ao_success = success, ao_failure = failure, ao_conflict = conflict,
          ao_pending = pending, ao_total = valid_count\<rparr>)"

section \<open>The hook\<close>

text \<open>
  A batch keeps the documents it was started with and its worker pool; the pool's own data is
  the list of the indices settled so far. A forced apply of one document runs beside them.
\<close>

record apply_batch =
  ab_cluster :: string
  ab_dry_run :: bool
  ab_docs :: "parsed_doc list"
  ab_pool :: "nat list pool"
  ab_over :: bool

record dialog_request =
  dq_cluster :: string
  dq_gvr :: gvr
  dq_namespace :: "string option"
  dq_name :: string
  dq_yaml :: string
  dq_dry_run :: bool
  dq_force :: bool

record apply_dialog =
  ad_text :: string
  ad_busy :: dialog_busy
  ad_last :: last_batch_kind
  ad_results :: results
  ad_abort :: "nat option"
  ad_batches :: "apply_batch list"
  ad_forced :: "(parsed_doc \<times> bool) list"
  ad_requests :: "dialog_request list"

definition initial_dialog :: apply_dialog where
  "initial_dialog =
     \<lparr>ad_text = [], ad_busy = BusyIdle, ad_last = LastNone, ad_results = [], ad_abort = None,
      ad_batches = [], ad_forced = [], ad_requests = []\<rparr>"

datatype dialog_event =
    DlgSetText string
  | DlgReset
  | DlgCancel
  | DlgRun string bool
  | DlgSettle nat nat "thrown + jsval"
  | DlgForce parsed_doc string
  | DlgForceSettle nat "thrown + jsval"

definition update_result :: "string \<Rightarrow> doc_result \<Rightarrow> apply_dialog \<Rightarrow> apply_dialog" where
  "update_result i r s = s\<lparr>ad_results := AList.update i r (ad_results s)\<rparr>"

definition plain_result :: "doc_result_state \<Rightarrow> doc_result" where
  "plain_result st = \<lparr>dr_state = st, dr_diff = None, dr_error_message = None, dr_error = None\<rparr>"

text \<open>\<open>message.replace(/ on \/api\/.*$/, "")\<close> (an API message is one line).\<close>

fun cut_url :: "string \<Rightarrow> string" where
  "cut_url [] = []"
| "cut_url (c # cs) = (if starts_with '' on /api/'' (c # cs) then [] else c # cut_url cs)"

fun dialog_error_message :: "thrown \<Rightarrow> string" where
  "dialog_error_message (ThrownApi e) = cut_url (ae_message e)"
| "dialog_error_message (ThrownMultiDocument m) = m"
| "dialog_error_message (ThrownYamlParse m) = m"
| "dialog_error_message (ThrownError m) = m"
| "dialog_error_message (ThrownOther m) = m"

definition api_error_of :: "thrown \<Rightarrow> api_error option" where
  "api_error_of err = (case err of ThrownApi e \<Rightarrow> Some e | _ \<Rightarrow> None)"

definition failed_result :: "bool \<Rightarrow> thrown \<Rightarrow> doc_result" where
  "failed_result conflicts err =
     \<lparr>dr_state = (if conflicts \<and> (case err of ThrownApi e \<Rightarrow> ae_status e = 409 | _ \<Rightarrow> False)
                  then RConflict else RFailure),
      dr_diff = None, dr_error_message = Some (dialog_error_message err),
      dr_error = api_error_of err\<rparr>"

definition request_for :: "parsed_doc \<Rightarrow> string \<Rightarrow> bool \<Rightarrow> bool \<Rightarrow> dialog_request" where
  "request_for doc cluster dry force =
     \<lparr>dq_cluster = cluster,
      dq_gvr = gvr_from_api_version_and_kind (the (pd_api_version doc)) (the (pd_kind doc)),
      dq_namespace = pd_namespace doc, dq_name = the (pd_name doc), dq_yaml = pd_raw doc,
      dq_dry_run = dry, dq_force = force\<rparr>"

definition applicable :: "parsed_doc \<Rightarrow> bool" where
  "applicable doc = (pd_valid doc \<and> filled (pd_api_version doc) \<and> filled (pd_kind doc) \<and> filled (pd_name doc))"

text \<open>\<open>runOne\<close> up to its request.\<close>

definition begin_one :: "parsed_doc \<Rightarrow> string \<Rightarrow> bool \<Rightarrow> apply_dialog \<Rightarrow> apply_dialog" where
  "begin_one doc cluster dry s =
     (let s1 = update_result (pd_id doc) (plain_result RPending) s
      in s1\<lparr>ad_requests := ad_requests s1 @ [request_for doc cluster dry False]\<rparr>)"

text \<open>The tasks a pool has taken up between two states begin in the order of their indices.\<close>

definition begin_new :: "apply_batch \<Rightarrow> nat list \<Rightarrow> apply_dialog \<Rightarrow> apply_dialog" where
  "begin_new b before0 s =
     fold (\<lambda>i. begin_one (ab_docs b ! i) (ab_cluster b) (ab_dry_run b))
       (filter (\<lambda>i. i \<notin> set before0) (po_running (ab_pool b))) s"

definition batch_settle :: "bool \<Rightarrow> nat \<Rightarrow> thrown + jsval \<Rightarrow> nat list \<Rightarrow> nat list" where
  "batch_settle aborted i out d = i # d"

definition run_batch :: "(string \<Rightarrow> library_doc list) \<Rightarrow> string \<Rightarrow> bool \<Rightarrow> apply_dialog \<Rightarrow> apply_dialog" where
  "run_batch parse_all cluster dry s =
     (let valid = filter pd_valid (parse_multi_doc_yaml parse_all (ad_text s))
      in if ad_busy s \<noteq> BusyIdle \<or> valid = [] then s
         else let n = length valid;
                  b = \<lparr>ab_cluster = cluster, ab_dry_run = dry, ab_docs = valid,
                       ab_pool = pool_start (min max_parallel n) n [], ab_over = False\<rparr>;
                  s1 = s\<lparr>ad_abort := Some (length (ad_batches s)),
                         ad_busy := (if dry then BusyDryRun else BusyApply),
                         ad_batches := ad_batches s @ [b]\<rparr>
              in begin_new b [] s1)"

definition record_outcome ::
  "(jsval \<Rightarrow> string) \<Rightarrow> apply_batch \<Rightarrow> nat \<Rightarrow> thrown + jsval \<Rightarrow> apply_dialog \<Rightarrow> apply_dialog" where
  "record_outcome show_json b i out s =
     (let doc = ab_docs b ! i
      in case out of
           Inr response \<Rightarrow>
             update_result (pd_id doc)
               ((plain_result RSuccess)
                  \<lparr>dr_diff := (if ab_dry_run b then Some (show_json response) else None)\<rparr>) s
         | Inl err \<Rightarrow>
             (if po_aborted (ab_pool b) then s
              else update_result (pd_id doc) (failed_result True err) s))"

text \<open>The \<open>finally\<close> of \<open>runBatch\<close>, once every worker has returned.\<close>

definition finish_batch :: "nat \<Rightarrow> apply_batch \<Rightarrow> apply_dialog \<Rightarrow> apply_dialog" where
  "finish_batch k b s =
     s\<lparr>ad_abort := (if ad_abort s = Some k then None else ad_abort s), ad_busy := BusyIdle,
       ad_last := (if ab_dry_run b then LastDryRun else LastApply)\<rparr>"

definition settle_one ::
  "(jsval \<Rightarrow> string) \<Rightarrow> nat \<Rightarrow> nat \<Rightarrow> thrown + jsval \<Rightarrow> apply_dialog \<Rightarrow> apply_dialog" where
  "settle_one show_json k i out s =
     (if \<not> (k < length (ad_batches s) \<and> i \<in> set (po_running (ab_pool (ad_batches s ! k)))) then s
      else let b = ad_batches s ! k;
               pool' = pool_step batch_settle (length (ab_docs b)) (ab_pool b) (PoolSettle i out);
               over = (po_running pool' = []);
               b' = b\<lparr>ab_pool := pool', ab_over := over\<rparr>;
               s1 = (record_outcome show_json b i out s)\<lparr>ad_batches := (ad_batches s)[k := b']\<rparr>;
               s2 = begin_new b' (po_running (ab_pool b)) s1
           in if over then finish_batch k b' s2 else s2)"

definition abort_batch :: "apply_dialog \<Rightarrow> apply_dialog" where
  "abort_batch s =
     (case ad_abort s of
        None \<Rightarrow> s
      | Some k \<Rightarrow>
          (if k < length (ad_batches s)
           then let b = ad_batches s ! k
                in s\<lparr>ad_batches := (ad_batches s)[k := b\<lparr>ab_pool := (ab_pool b)\<lparr>po_aborted := True\<rparr>\<rparr>]\<rparr>
           else s))"

fun dialog_step ::
  "(string \<Rightarrow> library_doc list) \<Rightarrow> (jsval \<Rightarrow> string) \<Rightarrow> apply_dialog \<Rightarrow> dialog_event \<Rightarrow> apply_dialog" where
  "dialog_step parse_all show_json s (DlgSetText nxt) =
     (if ad_text s \<noteq> nxt then s\<lparr>ad_results := [], ad_last := LastNone, ad_text := nxt\<rparr> else s)"
| "dialog_step parse_all show_json s DlgReset =
     (abort_batch s)\<lparr>ad_abort := None, ad_text := [], ad_results := [], ad_busy := BusyIdle,
                     ad_last := LastNone\<rparr>"
| "dialog_step parse_all show_json s DlgCancel = abort_batch s"
| "dialog_step parse_all show_json s (DlgRun cluster dry) = run_batch parse_all cluster dry s"
| "dialog_step parse_all show_json s (DlgSettle k i out) = settle_one show_json k i out s"
| "dialog_step parse_all show_json s (DlgForce doc cluster) =
     (if \<not> applicable doc then s
      else let s1 = update_result (pd_id doc) (plain_result RPending) s
           in s1\<lparr>ad_requests := ad_requests s1 @ [request_for doc cluster False True],
                 ad_forced := ad_forced s1 @ [(doc, True)]\<rparr>)"
| "dialog_step parse_all show_json s (DlgForceSettle k out) =
     (if k < length (ad_forced s) \<and> snd (ad_forced s ! k)
      then let doc = fst (ad_forced s ! k);
               r = (case out of Inr _ \<Rightarrow> plain_result RSuccess | Inl err \<Rightarrow> failed_result False err)
           in (update_result (pd_id doc) r s)\<lparr>ad_forced := (ad_forced s)[k := (doc, False)]\<rparr>
      else s)"

definition dialog_run ::
  "(string \<Rightarrow> library_doc list) \<Rightarrow> (jsval \<Rightarrow> string) \<Rightarrow> dialog_event list \<Rightarrow> apply_dialog" where
  "dialog_run parse_all show_json es = foldl (dialog_step parse_all show_json) initial_dialog es"

definition dialog_outcome :: "(string \<Rightarrow> library_doc list) \<Rightarrow> apply_dialog \<Rightarrow> apply_outcome" where
  "dialog_outcome parse_all s =
     derive_apply_outcome (ad_busy s) (ad_last s) (ad_results s)
       (length (filter pd_valid (parse_multi_doc_yaml parse_all (ad_text s))))"

end
