(* ===== verification/ApplyYamlSafety.thy ===== *)
theory ApplyYamlSafety
  imports ApplyYaml
begin

text \<open>
  Correctness of the multi-document apply dialog: what the parser promises about its records,
  which requests are forced, what the success banner means, and the two ways it can mislead.
\<close>

section \<open>The parser's records\<close>

definition doc_ok :: "parsed_doc \<Rightarrow> bool" where
  "doc_ok d \<longleftrightarrow>
     pd_valid d = applicable d \<and> pd_valid d = (pd_parse_error d = None) \<and>
     pd_valid d = (filled (pd_api_version d) \<and> filled (pd_kind d) \<and> filled (pd_name d))"

definition id_at :: "nat \<Rightarrow> string \<Rightarrow> bool" where
  "id_at n i \<longleftrightarrow> (\<exists>h. i = ''doc-'' @ show_nat n @ ''-'' @ h)"

lemma id_at_inj:
  assumes "id_at m i" "id_at n i"
  shows "m = n"
proof -
  obtain g h where eq: "show_nat m @ CHR ''-'' # g = show_nat n @ CHR ''-'' # h"
    using assms by (auto simp: id_at_def)
  have dash: "\<forall>c \<in> set (show_nat k). c \<noteq> CHR ''-''" for k
    using show_nat_digits [of "CHR ''-''" k] by auto
  have "takeWhile (\<lambda>c. c \<noteq> CHR ''-'') (show_nat k @ CHR ''-'' # r) = show_nat k" for k r
    using dash [of k] by (simp add: takeWhile_append2)
  with eq have "show_nat m = show_nat n" by metis
  then show ?thesis by (rule show_nat_inj)
qed

lemma made_doc_ok [simp]:
  "doc_ok (invalid_doc i raw err)" "pd_id (invalid_doc i raw err) = i"
  "doc_ok (checked_doc i raw obj)" "pd_id (checked_doc i raw obj) = i"
  by (auto simp: doc_ok_def checked_doc_def invalid_doc_def applicable_def filled_def Let_def)

lemma checked_or_skip_cases:
  "(\<exists>k. checked_or_skip i raw n doc = ([], k) \<and> n \<le> k) \<or>
   (\<exists>d. checked_or_skip i raw n doc = ([d], Suc n) \<and> doc_ok d \<and> pd_id d = i)"
  by (simp add: checked_or_skip_def Let_def)

lemma parse_one_cases:
  "(\<exists>k. parse_one buf n doc = ([], k) \<and> n \<le> k) \<or>
   (\<exists>d. parse_one buf n doc = ([d], Suc n) \<and> doc_ok d \<and> id_at n (pd_id d))"
proof -
  obtain f t where r: "(case ld_range doc of Some r \<Rightarrow> r | None \<Rightarrow> (0, length buf)) = (f, t)"
    by (metis surj_pair)
  define raw where "raw = trim_str (drop f (take t buf))"
  define i where "i = ''doc-'' @ show_nat n @ ''-'' @ stable_hash raw"
  have at: "id_at n i" by (auto simp: id_at_def i_def)
  have eq: "parse_one buf n doc =
      (if raw = [] \<or> \<not> ld_has_contents doc then ([], n)
       else (case ld_errors doc of
               (e # es) \<Rightarrow> if e \<noteq> [] then ([invalid_doc i raw e], n + 1) else checked_or_skip i raw n doc
             | [] \<Rightarrow> checked_or_skip i raw n doc))"
    unfolding parse_one_def r Let_def raw_def i_def by simp
  show ?thesis
    using at checked_or_skip_cases [of i raw n doc] unfolding eq
    by (auto split: list.splits)
qed

lemma parse_docs_ok:
  "list_all doc_ok (parse_docs buf n docs) \<and> distinct (map pd_id (parse_docs buf n docs)) \<and>
   (\<forall>d \<in> set (parse_docs buf n docs). \<exists>m \<ge> n. id_at m (pd_id d))"
proof (induction docs arbitrary: n)
  case (Cons doc docs)
  from parse_one_cases [of buf n doc] show ?case
  proof (elim disjE exE conjE)
    fix k
    assume "parse_one buf n doc = ([], k)" "n \<le> k"
    then show ?case using Cons.IH [of k] by (auto intro: order_trans)
  next
    fix d
    assume d: "parse_one buf n doc = ([d], Suc n)" "doc_ok d" "id_at n (pd_id d)"
    have "pd_id d \<notin> pd_id ` set (parse_docs buf (Suc n) docs)"
      using Cons.IH [of "Suc n"] d(3) by (fastforce dest: id_at_inj)
    then show ?case using Cons.IH [of "Suc n"] d by simp (meson Suc_leD order_refl)
  qed
qed simp

lemma parse_multi_ok:
  "list_all doc_ok (parse_multi_doc_yaml parse_all buf)"
  "distinct (map pd_id (parse_multi_doc_yaml parse_all buf))"
  by (simp_all add: parse_multi_doc_yaml_def parse_docs_ok)

text \<open>
  The records of one paste have pairwise distinct ids (the results map is keyed by them), and a
  record is valid exactly when it carries no parse error and exactly when the three fields the
  apply request needs are there and not empty; so the guard \<open>runOne\<close> repeats never skips a
  valid document.
\<close>

theorem parsed_documents_well_formed:
  "distinct (map pd_id (parse_multi_doc_yaml parse_all buf)) \<and>
   list_all (\<lambda>d. pd_valid d = (pd_parse_error d = None) \<and>
                 pd_valid d = (filled (pd_api_version d) \<and> filled (pd_kind d) \<and> filled (pd_name d)) \<and>
                 applicable d = pd_valid d)
     (parse_multi_doc_yaml parse_all buf)"
  using parse_multi_ok [of parse_all buf] by (auto simp: list_all_iff doc_ok_def)

section \<open>The dialog's invariant\<close>

interpretation dialog_pool: worker_pool batch_settle "\<lambda>d i. i \<notin> set d" length n
  by unfold_locales (auto simp: batch_settle_def)

definition valid_docs :: "(string \<Rightarrow> library_doc list) \<Rightarrow> apply_dialog \<Rightarrow> parsed_doc list" where
  "valid_docs parse_all s = filter pd_valid (parse_multi_doc_yaml parse_all (ad_text s))"

definition batch_ok :: "apply_batch \<Rightarrow> bool" where
  "batch_ok b \<longleftrightarrow>
     dialog_pool.pool_ok (length (ab_docs b)) (min max_parallel (length (ab_docs b))) (ab_pool b) \<and>
     ab_over b = (po_running (ab_pool b) = [])"

definition results_ok :: "parsed_doc list \<Rightarrow> results \<Rightarrow> bool" where
  "results_ok docs rs \<longleftrightarrow> distinct (map fst rs) \<and> fst ` set rs \<subseteq> pd_id ` set docs"

definition dialog_inv :: "(string \<Rightarrow> library_doc list) \<Rightarrow> apply_dialog \<Rightarrow> bool" where
  "dialog_inv parse_all s \<longleftrightarrow>
     results_ok (valid_docs parse_all s) (ad_results s) \<and>
     (\<forall>b \<in> set (ad_batches s). batch_ok b \<and> (ab_over b \<or> ab_docs b = valid_docs parse_all s)) \<and>
     (\<forall>p \<in> set (ad_forced s). snd p \<longrightarrow> fst p \<in> set (valid_docs parse_all s)) \<and>
     list_all ab_over (butlast (ad_batches s)) \<and>
     (ad_busy s = BusyIdle \<longrightarrow> list_all ab_over (ad_batches s))"

text \<open>
  A calm sequence: the buffer is edited or reset only when nothing is in flight, and Force is
  pressed on a row of the list.
\<close>

definition quiet :: "apply_dialog \<Rightarrow> bool" where
  "quiet s \<longleftrightarrow> list_all ab_over (ad_batches s) \<and> list_all (\<lambda>p. \<not> snd p) (ad_forced s)"

fun calm_event :: "(string \<Rightarrow> library_doc list) \<Rightarrow> apply_dialog \<Rightarrow> dialog_event \<Rightarrow> bool" where
  "calm_event parse_all s (DlgSetText nxt) = (ad_text s = nxt \<or> quiet s)"
| "calm_event parse_all s DlgReset = quiet s"
| "calm_event parse_all s (DlgForce doc cluster) = (doc \<in> set (valid_docs parse_all s))"
| "calm_event parse_all s _ = True"

fun calm ::
  "(string \<Rightarrow> library_doc list) \<Rightarrow> (jsval \<Rightarrow> string) \<Rightarrow> apply_dialog \<Rightarrow> dialog_event list \<Rightarrow> bool" where
  "calm parse_all show_json s [] = True"
| "calm parse_all show_json s (e # es) =
     (calm_event parse_all s e \<and> calm parse_all show_json (dialog_step parse_all show_json s e) es)"

lemma results_ok_update:
  "results_ok docs rs \<Longrightarrow> d \<in> set docs \<Longrightarrow> results_ok docs (AList.update (pd_id d) r rs)"
  by (auto simp: results_ok_def distinct_update update_keys dom_update
      dest: update_memD split: prod.splits)

lemma begin_fold_frame [simp]:
  "ad_text (fold (\<lambda>i. begin_one (f i) c dry) is s) = ad_text s"
  "ad_busy (fold (\<lambda>i. begin_one (f i) c dry) is s) = ad_busy s"
  "ad_last (fold (\<lambda>i. begin_one (f i) c dry) is s) = ad_last s"
  "ad_abort (fold (\<lambda>i. begin_one (f i) c dry) is s) = ad_abort s"
  "ad_batches (fold (\<lambda>i. begin_one (f i) c dry) is s) = ad_batches s"
  "ad_forced (fold (\<lambda>i. begin_one (f i) c dry) is s) = ad_forced s"
  by (induction "is" arbitrary: s) (simp_all add: begin_one_def update_result_def Let_def)

lemma begin_new_frame [simp]:
  "ad_text (begin_new b run0 s) = ad_text s"
  "ad_busy (begin_new b run0 s) = ad_busy s"
  "ad_last (begin_new b run0 s) = ad_last s"
  "ad_abort (begin_new b run0 s) = ad_abort s"
  "ad_batches (begin_new b run0 s) = ad_batches s"
  "ad_forced (begin_new b run0 s) = ad_forced s"
  by (simp_all add: begin_new_def)

lemma begin_fold_results:
  "results_ok docs (ad_results s) \<Longrightarrow> (\<And>i. i \<in> set is \<Longrightarrow> f i \<in> set docs) \<Longrightarrow>
   results_ok docs (ad_results (fold (\<lambda>i. begin_one (f i) c dry) is s))"
proof (induction "is" arbitrary: s)
  case (Cons i "is")
  have "results_ok docs (ad_results (begin_one (f i) c dry s))"
    using Cons.prems by (simp add: begin_one_def update_result_def Let_def results_ok_update)
  then show ?case using Cons by simp
qed simp

lemma begin_new_results:
  assumes "results_ok (ab_docs b) (ad_results s)" "batch_ok b"
  shows "results_ok (ab_docs b) (ad_results (begin_new b run0 s))"
  unfolding begin_new_def
  by (rule begin_fold_results) (use assms in \<open>auto simp: batch_ok_def dialog_pool.pool_ok_def\<close>)

lemma record_outcome_frame [simp]:
  "ad_text (record_outcome show_json b i out s) = ad_text s"
  "ad_busy (record_outcome show_json b i out s) = ad_busy s"
  "ad_last (record_outcome show_json b i out s) = ad_last s"
  "ad_abort (record_outcome show_json b i out s) = ad_abort s"
  "ad_batches (record_outcome show_json b i out s) = ad_batches s"
  "ad_forced (record_outcome show_json b i out s) = ad_forced s"
  "ad_requests (record_outcome show_json b i out s) = ad_requests s"
  by (simp_all add: record_outcome_def update_result_def Let_def split: sum.splits)

lemma record_outcome_results:
  "results_ok (ab_docs b) (ad_results s) \<Longrightarrow> i < length (ab_docs b) \<Longrightarrow>
   results_ok (ab_docs b) (ad_results (record_outcome show_json b i out s))"
  by (simp add: record_outcome_def update_result_def Let_def results_ok_update split: sum.splits)

lemma abort_batch_frame [simp]:
  "ad_text (abort_batch s) = ad_text s" "ad_results (abort_batch s) = ad_results s"
  "ad_busy (abort_batch s) = ad_busy s" "ad_forced (abort_batch s) = ad_forced s"
  "ad_requests (abort_batch s) = ad_requests s"
  by (simp_all add: abort_batch_def Let_def split: option.splits)

section \<open>Every calm step keeps the invariant\<close>

lemma batch_ok_step:
  assumes "batch_ok b" "pool' = pool_step batch_settle (length (ab_docs b)) (ab_pool b) e"
  shows "batch_ok (b\<lparr>ab_pool := pool', ab_over := (po_running pool' = [])\<rparr>)"
  using assms by (simp add: batch_ok_def dialog_pool.step_ok)

lemma batch_ok_abort: "batch_ok b \<Longrightarrow> batch_ok (b\<lparr>ab_pool := (ab_pool b)\<lparr>po_aborted := True\<rparr>\<rparr>)"
  by (simp add: batch_ok_def dialog_pool.pool_ok_def)

lemma butlast_update_last: "xs \<noteq> [] \<Longrightarrow> butlast (xs[length xs - 1 := x]) = butlast xs"
  by (simp add: butlast_list_update)

lemma live_is_last:
  assumes "list_all ab_over (butlast bs)" "k < length bs" "\<not> ab_over (bs ! k)"
  shows "k = length bs - 1"
  using assms by (metis Suc_pred' length_butlast length_greater_0_conv less_SucE list.size(3)
      list_all_length not_less_zero nth_butlast One_nat_def Suc_pred)

lemma ball_update: "\<forall>b \<in> set bs. P b \<Longrightarrow> P x \<Longrightarrow> \<forall>b \<in> set (bs[k := x]). P b"
  using set_update_subset_insert [of bs k x] by auto

lemma pool_start_live [simp]: "\<not> po_aborted (pool_start w n d)"
  unfolding pool_start_def by (induction w) (simp_all add: pool_pull_def Let_def)

lemma pool_start_data [simp]: "po_data (pool_start w n d) = d"
  unfolding pool_start_def by (induction w) (simp_all add: pool_pull_def Let_def)

lemma list_all_over_update:
  assumes "list_all ab_over bs" "k < length bs" "ab_over b = ab_over (bs ! k)"
  shows "list_all ab_over (bs[k := b])"
  using assms by (auto simp: list_all_length nth_list_update)

lemma dialog_inv_abort:
  assumes "dialog_inv parse_all s"
  shows "dialog_inv parse_all (abort_batch s)"
proof (cases "\<exists>k. ad_abort s = Some k \<and> k < length (ad_batches s)")
  case True
  then obtain k where k: "ad_abort s = Some k" "k < length (ad_batches s)" by blast
  let ?b = "ad_batches s ! k"
  let ?b' = "?b\<lparr>ab_pool := (ab_pool ?b)\<lparr>po_aborted := True\<rparr>\<rparr>"
  have eq: "abort_batch s = s\<lparr>ad_batches := (ad_batches s)[k := ?b']\<rparr>"
    using k by (simp add: abort_batch_def Let_def)
  have b: "batch_ok ?b" "ab_over ?b \<or> ab_docs ?b = valid_docs parse_all s"
    using assms k by (auto simp: dialog_inv_def)
  have v: "valid_docs parse_all (s\<lparr>ad_batches := x\<rparr>) = valid_docs parse_all s" for x
    by (simp add: valid_docs_def)
  have "list_all ab_over (butlast ((ad_batches s)[k := ?b']))"
  proof (cases "k < length (ad_batches s) - 1")
    case True
    then have "list_all ab_over ((butlast (ad_batches s))[k := ?b'])"
      using assms by (auto intro!: list_all_over_update simp: dialog_inv_def nth_butlast)
    then show ?thesis using True by (simp add: butlast_list_update)
  next
    case False
    then have "k = length (ad_batches s) - 1" using k by simp
    then show ?thesis using assms by (simp add: dialog_inv_def butlast_list_update)
  qed
  moreover have "\<forall>c \<in> set ((ad_batches s)[k := ?b']).
      batch_ok c \<and> (ab_over c \<or> ab_docs c = valid_docs parse_all s)"
    by (rule ball_update) (use assms b batch_ok_abort [OF b(1)] in \<open>auto simp: dialog_inv_def\<close>)
  ultimately show ?thesis
    using assms k(2) unfolding eq by (simp add: dialog_inv_def v list_all_over_update)
next
  case False
  then have "abort_batch s = s" by (auto simp: abort_batch_def split: option.splits)
  then show ?thesis using assms by simp
qed

lemma dialog_inv_run:
  assumes inv: "dialog_inv parse_all s"
  shows "dialog_inv parse_all (run_batch parse_all cluster dry s)"
proof (cases "ad_busy s \<noteq> BusyIdle \<or> valid_docs parse_all s = []")
  case True
  then show ?thesis using inv by (simp add: run_batch_def valid_docs_def Let_def)
next
  case False
  define b where "b = \<lparr>ab_cluster = cluster, ab_dry_run = dry, ab_docs = valid_docs parse_all s,
     ab_pool = pool_start (min max_parallel (length (valid_docs parse_all s)))
       (length (valid_docs parse_all s)) [], ab_over = False\<rparr>"
  define s1 where "s1 = s\<lparr>ad_abort := Some (length (ad_batches s)),
     ad_busy := (if dry then BusyDryRun else BusyApply), ad_batches := ad_batches s @ [b]\<rparr>"
  have eq: "run_batch parse_all cluster dry s = begin_new b [] s1"
    using False by (simp add: run_batch_def valid_docs_def b_def s1_def Let_def)
  let ?n = "length (valid_docs parse_all s)"
  have pool: "dialog_pool.pool_ok ?n (min max_parallel ?n) (ab_pool b)"
    unfolding b_def by (simp add: dialog_pool.start_ok)
  have "0 < ?n" using False by simp
  then have "po_running (ab_pool b) \<noteq> []"
    using pool by (auto simp: dialog_pool.pool_ok_def b_def max_parallel_def min_def split: if_splits)
  with pool have ok: "batch_ok b" by (simp add: batch_ok_def b_def)
  have "results_ok (valid_docs parse_all s) (ad_results (begin_new b [] s1))"
    using begin_new_results [of b s1 "[]"] ok inv
    by (simp add: b_def s1_def dialog_inv_def)
  then show ?thesis
    using inv ok False unfolding eq by (auto simp: dialog_inv_def valid_docs_def s1_def b_def)
qed

lemma finish_batch_frame [simp]:
  "ad_text (finish_batch k b s) = ad_text s" "ad_results (finish_batch k b s) = ad_results s"
  "ad_batches (finish_batch k b s) = ad_batches s" "ad_forced (finish_batch k b s) = ad_forced s"
  "ad_requests (finish_batch k b s) = ad_requests s" "ad_busy (finish_batch k b s) = BusyIdle"
  by (simp_all add: finish_batch_def)

lemma dialog_inv_settle:
  assumes inv: "dialog_inv parse_all s"
  shows "dialog_inv parse_all (settle_one show_json k i out s)"
proof (cases "k < length (ad_batches s) \<and> i \<in> set (po_running (ab_pool (ad_batches s ! k)))")
  case True
  define b where "b = ad_batches s ! k"
  define pool' where "pool' = pool_step batch_settle (length (ab_docs b)) (ab_pool b) (PoolSettle i out)"
  define b' where "b' = b\<lparr>ab_pool := pool', ab_over := (po_running pool' = [])\<rparr>"
  define s1 where "s1 = (record_outcome show_json b i out s)\<lparr>ad_batches := (ad_batches s)[k := b']\<rparr>"
  define s2 where "s2 = begin_new b' (po_running (ab_pool b)) s1"
  have eq: "settle_one show_json k i out s = (if po_running pool' = [] then finish_batch k b' s2 else s2)"
    using True by (simp add: settle_one_def Let_def b_def pool'_def b'_def s1_def s2_def)
  have bok: "batch_ok b" "ab_over b \<or> ab_docs b = valid_docs parse_all s"
    using inv True by (auto simp: dialog_inv_def b_def)
  then have live: "\<not> ab_over b" and docs: "ab_docs b = valid_docs parse_all s"
    using True by (auto simp: batch_ok_def b_def)
  have ilt: "i < length (ab_docs b)"
    using bok True by (auto simp: batch_ok_def dialog_pool.pool_ok_def b_def)
  have ok': "batch_ok b'" unfolding b'_def by (rule batch_ok_step [OF bok(1) pool'_def])
  have docs': "ab_docs b' = valid_docs parse_all s" by (simp add: b'_def docs)
  have last: "k = length (ad_batches s) - 1"
    using live_is_last [of "ad_batches s" k] inv True live by (simp add: dialog_inv_def b_def)
  have busy: "ad_busy s \<noteq> BusyIdle"
    using inv True live by (auto simp: dialog_inv_def list_all_length b_def)
  have r1: "results_ok (ab_docs b') (ad_results s1)"
    using record_outcome_results [of b s i show_json out] inv ilt
    by (simp add: s1_def docs docs' dialog_inv_def)
  have r2: "results_ok (valid_docs parse_all s) (ad_results s2)"
    using begin_new_results [OF r1 ok'] by (simp add: s2_def docs')
  have bs: "\<forall>c \<in> set ((ad_batches s)[k := b']).
      batch_ok c \<and> (ab_over c \<or> ab_docs c = valid_docs parse_all s)"
    by (rule ball_update) (use inv ok' docs' in \<open>auto simp: dialog_inv_def\<close>)
  have rest: "list_all ab_over (butlast ((ad_batches s)[k := b']))"
    using inv last by (simp add: dialog_inv_def butlast_list_update)
  have every: "po_running pool' = [] \<Longrightarrow> list_all ab_over ((ad_batches s)[k := b'])"
    using inv last True by (auto simp: dialog_inv_def list_all_length nth_list_update nth_butlast b'_def)
  have "valid_docs parse_all (settle_one show_json k i out s) = valid_docs parse_all s"
    by (simp add: eq valid_docs_def s2_def s1_def)
  then show ?thesis
    using r2 bs rest every inv busy
    by (simp add: dialog_inv_def eq) (auto simp: s2_def s1_def)
next
  case False
  then have "settle_one show_json k i out s = s" by (auto simp: settle_one_def)
  then show ?thesis using inv by simp
qed

lemma dialog_inv_step:
  assumes inv: "dialog_inv parse_all s" and calm: "calm_event parse_all s e"
  shows "dialog_inv parse_all (dialog_step parse_all show_json s e)"
proof (cases e)
  case (DlgSetText nxt)
  show ?thesis
  proof (cases "ad_text s = nxt")
    case False
    then have "quiet s" using calm DlgSetText by simp
    then show ?thesis
      using inv False DlgSetText by (auto simp: dialog_inv_def results_ok_def quiet_def list_all_iff)
  qed (use inv DlgSetText in simp)
next
  case DlgReset
  have inv': "dialog_inv parse_all (abort_batch s)" by (rule dialog_inv_abort [OF inv])
  have q: "quiet s" using calm DlgReset by simp
  have "list_all ab_over (ad_batches (abort_batch s))"
    using q by (auto simp: quiet_def abort_batch_def Let_def list_all_over_update
        list_all_length nth_list_update split: option.splits)
  then show ?thesis
    using inv' q DlgReset
    by (auto simp: dialog_inv_def results_ok_def quiet_def list_all_iff dest: in_set_butlastD)
next
  case DlgCancel
  then show ?thesis using dialog_inv_abort [OF inv] by simp
next
  case (DlgRun cluster dry)
  then show ?thesis using dialog_inv_run [OF inv] by simp
next
  case (DlgSettle k i out)
  then show ?thesis using dialog_inv_settle [OF inv] by simp
next
  case (DlgForce doc cluster)
  then show ?thesis
    using inv calm
    by (auto simp: dialog_inv_def valid_docs_def update_result_def Let_def results_ok_update)
next
  case (DlgForceSettle k out)
  show ?thesis
  proof (cases "k < length (ad_forced s) \<and> snd (ad_forced s ! k)")
    case True
    let ?p = "ad_forced s ! k"
    have "fst ?p \<in> set (valid_docs parse_all s)" using inv True by (auto simp: dialog_inv_def)
    moreover have "\<forall>p \<in> set ((ad_forced s)[k := (fst ?p, False)]).
        snd p \<longrightarrow> fst p \<in> set (valid_docs parse_all s)"
      by (rule ball_update) (use inv in \<open>auto simp: dialog_inv_def\<close>)
    ultimately show ?thesis
      using inv DlgForceSettle True
      by (simp add: dialog_inv_def valid_docs_def update_result_def Let_def results_ok_update)
  qed (use inv DlgForceSettle in auto)
qed

lemma dialog_inv_calm:
  "dialog_inv parse_all s \<Longrightarrow> calm parse_all show_json s es \<Longrightarrow>
   dialog_inv parse_all (foldl (dialog_step parse_all show_json) s es)"
  by (induction es arbitrary: s) (auto simp: dialog_inv_step)

lemma dialog_inv_initial: "dialog_inv parse_all initial_dialog"
  by (simp add: dialog_inv_def initial_dialog_def results_ok_def)

lemmas dialog_inv_dialog_run =
  dialog_inv_calm [OF dialog_inv_initial, folded dialog_run_def]

definition in_flight :: "apply_dialog \<Rightarrow> nat" where
  "in_flight s = sum_list (map (\<lambda>b. length (po_running (ab_pool b))) (ad_batches s))"

lemma all_over_none_in_flight:
  "\<forall>b \<in> set bs. batch_ok b \<Longrightarrow> list_all ab_over bs \<Longrightarrow>
   sum_list (map (\<lambda>b. length (po_running (ab_pool b))) bs) = 0"
  by (auto simp: batch_ok_def list_all_iff)

text \<open>
  While the operator waits for the batch before editing, at most six of its requests are in
  flight at any time, whatever the order in which they settle and wherever Cancel falls.
\<close>

theorem batch_requests_bounded:
  assumes "calm parse_all show_json initial_dialog es"
  shows "in_flight (dialog_run parse_all show_json es) \<le> 6"
proof -
  let ?bs = "ad_batches (dialog_run parse_all show_json es)"
  have inv: "dialog_inv parse_all (dialog_run parse_all show_json es)"
    by (rule dialog_inv_dialog_run [OF assms])
  show ?thesis
  proof (cases ?bs rule: rev_cases)
    case (snoc bs b)
    have "length (po_running (ab_pool b)) \<le> 6"
      using inv snoc by (simp add: dialog_inv_def batch_ok_def dialog_pool.pool_ok_def max_parallel_def)
    moreover have "sum_list (map (\<lambda>b. length (po_running (ab_pool b))) bs) = 0"
      by (rule all_over_none_in_flight) (use inv snoc in \<open>auto simp: dialog_inv_def\<close>)
    ultimately show ?thesis by (simp only: in_flight_def snoc map_append sum_list_append) simp
  qed (simp add: in_flight_def)
qed

lemma count_all:
  assumes "results_ok docs rs" "distinct (map pd_id docs)" "count_state st rs = length docs"
    and d: "d \<in> set docs"
  shows "\<exists>r. map_of rs (pd_id d) = Some r \<and> dr_state r = st"
proof -
  have keys: "distinct (map fst rs)" "set (map fst rs) \<subseteq> set (map pd_id docs)"
    using assms(1) by (auto simp: results_ok_def)
  have sizes: "card (set (map fst rs)) = length rs" "card (set (map pd_id docs)) = length docs"
    using keys(1) assms(2) by (simp_all only: distinct_card length_map)
  have "length rs \<le> length docs"
    using card_mono [OF _ keys(2)] unfolding sizes by simp
  moreover have "length docs \<le> length rs"
    unfolding assms(3) [symmetric] count_state_def by (rule length_filter_le)
  ultimately have len: "length rs = length docs" by simp
  then have "set (map fst rs) = set (map pd_id docs)"
    using card_subset_eq [OF _ keys(2)] unfolding sizes by simp
  moreover have "pd_id d \<in> set (map pd_id docs)" using d by simp
  ultimately have "pd_id d \<in> set (map fst rs)" by (simp only:)
  then obtain r where r: "(pd_id d, r) \<in> set rs" by auto
  have "dr_state r = st"
  proof (rule ccontr)
    assume "dr_state r \<noteq> st"
    then have "count_state st rs < length rs"
      using r unfolding count_state_def by (auto intro: length_filter_less)
    then show False using assms(3) len by simp
  qed
  then show ?thesis using r keys(1) by (auto intro!: exI [of _ r] map_of_is_SomeI)
qed

section \<open>The success banner\<close>

text \<open>
  The documents whose apply, not their dry run, the server accepts in a history: a batch request
  that is no dry run, or a forced request, settles with an answer.
\<close>

fun accepted_at :: "apply_dialog \<Rightarrow> dialog_event \<Rightarrow> parsed_doc set" where
  "accepted_at s (DlgSettle k i (Inr v)) =
     (if k < length (ad_batches s) \<and> i \<in> set (po_running (ab_pool (ad_batches s ! k)))
         \<and> \<not> ab_dry_run (ad_batches s ! k)
      then {ab_docs (ad_batches s ! k) ! i} else {})"
| "accepted_at s (DlgForceSettle k (Inr v)) =
     (if k < length (ad_forced s) \<and> snd (ad_forced s ! k) then {fst (ad_forced s ! k)} else {})"
| "accepted_at s _ = {}"

fun accepted ::
  "(string \<Rightarrow> library_doc list) \<Rightarrow> (jsval \<Rightarrow> string) \<Rightarrow> apply_dialog \<Rightarrow> dialog_event list \<Rightarrow> parsed_doc set" where
  "accepted parse_all show_json s [] = {}"
| "accepted parse_all show_json s (e # es) =
     accepted_at s e \<union> accepted parse_all show_json (dialog_step parse_all show_json s e) es"

text \<open>No apply is cancelled; a dry run may be.\<close>

fun uncancelled ::
  "(string \<Rightarrow> library_doc list) \<Rightarrow> (jsval \<Rightarrow> string) \<Rightarrow> apply_dialog \<Rightarrow> dialog_event list \<Rightarrow> bool" where
  "uncancelled parse_all show_json s [] = True"
| "uncancelled parse_all show_json s (e # es) =
     ((e = DlgCancel \<longrightarrow> ad_busy s \<noteq> BusyApply)
      \<and> uncancelled parse_all show_json (dialog_step parse_all show_json s e) es)"

text \<open>The started documents of an apply that show success are accepted ones.\<close>

definition honest_batch :: "parsed_doc set \<Rightarrow> results \<Rightarrow> apply_batch \<Rightarrow> bool" where
  "honest_batch A rs b =
     (\<not> ab_dry_run b \<and> \<not> po_aborted (ab_pool b)
      \<and> (\<forall>i < length (ab_docs b). i < po_cursor (ab_pool b) \<longrightarrow>
           (\<forall>r. map_of rs (pd_id (ab_docs b ! i)) = Some r \<and> dr_state r = RSuccess \<longrightarrow> ab_docs b ! i \<in> A)))"

definition banner_inv :: "(string \<Rightarrow> library_doc list) \<Rightarrow> parsed_doc set \<Rightarrow> apply_dialog \<Rightarrow> bool" where
  "banner_inv parse_all A s =
     ((ad_busy s = BusyIdle \<longrightarrow> ad_abort s = None)
      \<and> (ad_busy s \<noteq> BusyIdle \<longrightarrow> ad_batches s \<noteq> [] \<and> ad_abort s = Some (length (ad_batches s) - 1)
           \<and> ab_dry_run (last (ad_batches s)) = (ad_busy s = BusyDryRun)
           \<and> \<not> ab_over (last (ad_batches s)))
      \<and> (ad_busy s = BusyApply \<longrightarrow> honest_batch A (ad_results s) (last (ad_batches s)))
      \<and> (ad_busy s = BusyIdle \<and> ad_last s = LastApply \<longrightarrow>
           ad_batches s \<noteq> [] \<and> ab_docs (last (ad_batches s)) = valid_docs parse_all s
           \<and> honest_batch A (ad_results s) (last (ad_batches s))))"

lemma honest_mono: "honest_batch A rs b \<Longrightarrow> A \<subseteq> A' \<Longrightarrow> honest_batch A' rs b"
  by (auto simp: honest_batch_def)

lemma honest_update:
  assumes "honest_batch A rs b" "dr_state r = RSuccess \<Longrightarrow> d \<in> A"
    and "distinct (map pd_id (ab_docs b))" "d \<in> set (ab_docs b)"
  shows "honest_batch A (AList.update (pd_id d) r rs) b"
proof -
  have "ab_docs b ! i = d" if "i < length (ab_docs b)" "pd_id (ab_docs b ! i) = pd_id d" for i
    using assms(3,4) that by (metis distinct_map inj_onD nth_mem)
  then show ?thesis using assms(1,2) by (auto simp: honest_batch_def update_conv')
qed

lemma begun_results:
  "map_of (ad_results (fold (\<lambda>i. begin_one (f i) c dry) is s)) x =
     (if \<exists>i \<in> set is. pd_id (f i) = x then Some (plain_result RPending) else map_of (ad_results s) x)"
  by (induction "is" arbitrary: s) (auto simp: begin_one_def update_result_def Let_def update_conv')

lemma started_running:
  "i < tot \<Longrightarrow> i < po_cursor (pool_start k tot d) \<Longrightarrow> i \<in> set (po_running (pool_start k tot d))"
proof -
  have "\<not> po_aborted ((pool_pull tot ^^ k) p)
      \<and> (\<forall>i < tot. i < po_cursor ((pool_pull tot ^^ k) p) \<longrightarrow> i \<in> set (po_running ((pool_pull tot ^^ k) p)))"
    if "p = \<lparr>po_cursor = 0, po_running = [], po_aborted = False, po_data = d\<rparr>" for p
    using that by (induction k) (auto simp: pool_pull_def Let_def less_Suc_eq)
  then show "i < tot \<Longrightarrow> i < po_cursor (pool_start k tot d) \<Longrightarrow> i \<in> set (po_running (pool_start k tot d))"
    unfolding pool_start_def by blast
qed

lemma valid_distinct: "distinct (map pd_id (valid_docs parse_all s))"
  using parse_multi_ok(2) unfolding valid_docs_def by (rule distinct_map_filter)

lemma banner_run:
  assumes "banner_inv parse_all A s"
  shows "banner_inv parse_all A (run_batch parse_all cluster dry s)"
proof (cases "ad_busy s \<noteq> BusyIdle \<or> valid_docs parse_all s = []")
  case True
  then show ?thesis using assms by (simp add: run_batch_def valid_docs_def Let_def)
next
  case False
  let ?n = "length (valid_docs parse_all s)"
  define b where "b = \<lparr>ab_cluster = cluster, ab_dry_run = dry, ab_docs = valid_docs parse_all s,
     ab_pool = pool_start (min max_parallel ?n) ?n [], ab_over = False\<rparr>"
  define s1 where "s1 = s\<lparr>ad_abort := Some (length (ad_batches s)),
     ad_busy := (if dry then BusyDryRun else BusyApply), ad_batches := ad_batches s @ [b]\<rparr>"
  have eq: "run_batch parse_all cluster dry s = begin_new b [] s1"
    using False by (simp add: run_batch_def valid_docs_def b_def s1_def Let_def)
  have "honest_batch A (ad_results (begin_new b [] s1)) b" if "\<not> dry"
    using that started_running [of _ ?n "min max_parallel ?n" "[]"]
    by (fastforce simp: honest_batch_def begin_new_def begun_results b_def plain_result_def)
  then show ?thesis unfolding eq by (simp add: banner_inv_def s1_def) (simp add: b_def)
qed

lemma banner_settle:
  assumes inv: "dialog_inv parse_all s" and ban: "banner_inv parse_all A s"
    and A: "A' = A \<union> accepted_at s (DlgSettle k i out)"
  shows "banner_inv parse_all A' (settle_one show_json k i out s)"
proof (cases "k < length (ad_batches s) \<and> i \<in> set (po_running (ab_pool (ad_batches s ! k)))")
  case True
  define b where "b = ad_batches s ! k"
  define pool' where "pool' = pool_step batch_settle (length (ab_docs b)) (ab_pool b) (PoolSettle i out)"
  define b' where "b' = b\<lparr>ab_pool := pool', ab_over := (po_running pool' = [])\<rparr>"
  define s1 where "s1 = (record_outcome show_json b i out s)\<lparr>ad_batches := (ad_batches s)[k := b']\<rparr>"
  define s2 where "s2 = begin_new b' (po_running (ab_pool b)) s1"
  have eq: "settle_one show_json k i out s = (if po_running pool' = [] then finish_batch k b' s2 else s2)"
    using True by (simp add: settle_one_def Let_def b_def pool'_def b'_def s1_def s2_def)
  have bok: "batch_ok b" "ab_over b \<or> ab_docs b = valid_docs parse_all s"
    using inv True by (auto simp: dialog_inv_def b_def)
  then have live: "\<not> ab_over b" and docs: "ab_docs b = valid_docs parse_all s"
    using True by (auto simp: batch_ok_def b_def)
  have run: "\<forall>j \<in> set (po_running (ab_pool b)). j < length (ab_docs b) \<and> j < po_cursor (ab_pool b)"
    using bok(1) by (auto simp: batch_ok_def dialog_pool.pool_ok_def)
  have ilt: "i < length (ab_docs b)" using run True by (simp add: b_def)
  have k: "k = length (ad_batches s) - 1"
    using live_is_last [of "ad_batches s" k] inv True live by (simp add: dialog_inv_def b_def)
  have ne: "ad_batches s \<noteq> []" using True by auto
  have lastb: "last (ad_batches s) = b" using k ne by (simp add: b_def last_conv_nth)
  have last': "last ((ad_batches s)[k := b']) = b'" using k ne by (simp add: last_conv_nth)
  have busy: "ad_busy s \<noteq> BusyIdle"
    using inv True live by (auto simp: dialog_inv_def list_all_length b_def)
  have abort: "ad_abort s = Some k" and dry: "ab_dry_run b = (ad_busy s = BusyDryRun)"
    using ban busy k lastb by (auto simp: banner_inv_def)
  have honest: "honest_batch A' (ad_results s2) b'" if appl: "ad_busy s = BusyApply"
  proof -
    have h: "honest_batch A (ad_results s) b" using ban appl lastb by (simp add: banner_inv_def)
    have nd: "\<not> ab_dry_run b" and na: "\<not> po_aborted (ab_pool b)" using h by (simp_all add: honest_batch_def)
    have acc: "out = Inr v \<Longrightarrow> ab_docs b ! i \<in> A'" for v
      using True nd by (simp add: A b_def)
    have dist: "distinct (map pd_id (ab_docs b))" using docs valid_distinct by simp
    have h1: "honest_batch A' (ad_results (record_outcome show_json b i out s)) b"
    proof (cases out)
      case (Inl err)
      have "dr_state (failed_result True err) \<noteq> RSuccess" by (simp add: failed_result_def)
      then show ?thesis
        using honest_update [OF honest_mono [OF h, of A'], of "failed_result True err" "ab_docs b ! i"]
          dist ilt na by (simp add: Inl record_outcome_def update_result_def A)
    next
      case (Inr v)
      show ?thesis unfolding Inr record_outcome_def update_result_def Let_def sum.case
        using honest_update [OF honest_mono [OF h, of A'] _ dist] acc [OF Inr] ilt by (simp add: A)
    qed
    have pool': "po_cursor pool' = po_cursor (ab_pool b) + 1" "\<not> po_aborted pool'"
      "po_cursor (ab_pool b) < length (ab_docs b) \<Longrightarrow> po_cursor (ab_pool b) \<in> set (po_running pool')"
      using True na by (auto simp: pool'_def pool_pull_def Let_def b_def)
    have fresh: "po_cursor (ab_pool b) \<notin> set (po_running (ab_pool b))" using run by blast
    show ?thesis unfolding honest_batch_def
    proof (intro conjI allI impI)
      show "\<not> ab_dry_run b'" "\<not> po_aborted (ab_pool b')" using nd pool' by (simp_all add: b'_def)
      fix j r
      assume j: "j < length (ab_docs b')" "j < po_cursor (ab_pool b')"
        and r: "map_of (ad_results s2) (pd_id (ab_docs b' ! j)) = Some r \<and> dr_state r = RSuccess"
      have old: "map_of (ad_results (record_outcome show_json b i out s)) (pd_id (ab_docs b ! j)) = Some r"
        using r by (auto simp: s2_def begin_new_def begun_results s1_def b'_def plain_result_def split: if_splits)
      have "j \<noteq> po_cursor (ab_pool b)"
      proof
        assume c: "j = po_cursor (ab_pool b)"
        then have "\<exists>x \<in> set (filter (\<lambda>x. x \<notin> set (po_running (ab_pool b))) (po_running (ab_pool b'))).
            pd_id (ab_docs b' ! x) = pd_id (ab_docs b' ! j)"
          using pool'(3) j fresh by (auto simp: b'_def)
        then show False using r by (auto simp: s2_def begin_new_def begun_results plain_result_def)
      qed
      then have "j < po_cursor (ab_pool b)" using j(2) pool'(1) by (simp add: b'_def)
      then show "ab_docs b' ! j \<in> A'" using h1 old r j(1) by (simp add: honest_batch_def b'_def)
    qed
  qed
  have v: "valid_docs parse_all (settle_one show_json k i out s) = valid_docs parse_all s"
    by (simp add: eq valid_docs_def s2_def s1_def)
  have frame: "ad_batches s2 = (ad_batches s)[k := b']" "ad_abort s2 = ad_abort s" "ad_busy s2 = ad_busy s"
    by (simp_all add: s2_def s1_def)
  show ?thesis
  proof (cases "po_running pool' = []")
    case over: True
    have e: "settle_one show_json k i out s = finish_batch k b' s2" using over eq by simp
    have "ab_docs b' = valid_docs parse_all s" "ab_dry_run b' = ab_dry_run b" by (simp_all add: b'_def docs)
    moreover have "ad_busy s = BusyApply" if "\<not> ab_dry_run b" using that dry busy by (cases "ad_busy s") auto
    ultimately show ?thesis using honest v ne abort last' frame unfolding e
      by (simp add: banner_inv_def finish_batch_def valid_docs_def)
  next
    case False
    then have e: "settle_one show_json k i out s = s2" using eq by simp
    have "\<not> ab_over b'" "ab_dry_run b' = ab_dry_run b" using False by (simp_all add: b'_def)
    then show ?thesis using honest ne abort last' frame busy dry k unfolding e by (simp add: banner_inv_def)
  qed
next
  case False
  then have "settle_one show_json k i out s = s" by (auto simp: settle_one_def)
  moreover have "accepted_at s (DlgSettle k i out) = {}" using False by (cases out) auto
  ultimately show ?thesis using ban A by simp
qed

lemma abort_idle: "ad_abort s = None \<Longrightarrow> abort_batch s = s"
  by (simp add: abort_batch_def)

lemma banner_cancel:
  assumes ban: "banner_inv parse_all A s" and "ad_busy s \<noteq> BusyApply"
  shows "banner_inv parse_all A (abort_batch s)"
proof (cases "ad_busy s = BusyIdle")
  case True
  then have "abort_batch s = s" using ban by (intro abort_idle) (simp add: banner_inv_def)
  then show ?thesis using ban by simp
next
  case False
  then show ?thesis
    using assms by (auto simp: banner_inv_def abort_batch_def Let_def last_conv_nth)
qed

lemma banner_results:
  assumes inv: "dialog_inv parse_all s" and ban: "banner_inv parse_all A s"
    and d: "d \<in> set (valid_docs parse_all s)" and r: "dr_state r = RSuccess \<Longrightarrow> d \<in> A'" and A: "A \<subseteq> A'"
    and s': "ad_results s' = AList.update (pd_id d) r (ad_results s)" "ad_text s' = ad_text s"
      "ad_busy s' = ad_busy s" "ad_last s' = ad_last s" "ad_abort s' = ad_abort s"
      "ad_batches s' = ad_batches s"
  shows "banner_inv parse_all A' s'"
proof -
  have "honest_batch A' (AList.update (pd_id d) r (ad_results s)) b"
    if "honest_batch A (ad_results s) b" "ab_docs b = valid_docs parse_all s" for b
    using honest_update [OF honest_mono [OF that(1) A] r] that(2) valid_distinct d by simp
  moreover have "ab_docs (last (ad_batches s)) = valid_docs parse_all s" if "ad_busy s = BusyApply"
    using inv ban that by (auto simp: dialog_inv_def banner_inv_def)
  ultimately show ?thesis using ban s' by (simp add: banner_inv_def valid_docs_def)
qed

lemma banner_step:
  assumes inv: "dialog_inv parse_all s" and ban: "banner_inv parse_all A s"
    and calm: "calm_event parse_all s e" and "e = DlgCancel \<longrightarrow> ad_busy s \<noteq> BusyApply"
  shows "banner_inv parse_all (A \<union> accepted_at s e) (dialog_step parse_all show_json s e)"
proof (cases e)
  case (DlgSetText nxt)
  show ?thesis
  proof (cases "ad_text s = nxt")
    case False
    then have "list_all ab_over (ad_batches s)" using calm DlgSetText by (simp add: quiet_def)
    then have "ad_busy s = BusyIdle" using ban by (auto simp: banner_inv_def list_all_iff)
    then show ?thesis using ban False DlgSetText by (simp add: banner_inv_def)
  qed (use ban DlgSetText in simp)
next
  case (DlgForce doc cluster)
  show ?thesis
  proof (cases "applicable doc")
    case True
    then show ?thesis
      using calm DlgForce
      by (intro banner_results [OF inv ban, of doc "plain_result RPending"])
         (simp_all add: update_result_def Let_def plain_result_def)
  qed (use ban DlgForce in simp)
next
  case (DlgForceSettle k out)
  show ?thesis
  proof (cases "k < length (ad_forced s) \<and> snd (ad_forced s ! k)")
    case True
    let ?d = "fst (ad_forced s ! k)"
    have "?d \<in> set (valid_docs parse_all s)" using inv True by (auto simp: dialog_inv_def)
    then show ?thesis
      using True DlgForceSettle
      by (intro banner_results [OF inv ban, of ?d
            "case out of Inr _ \<Rightarrow> plain_result RSuccess | Inl err \<Rightarrow> failed_result False err"])
         (auto simp: update_result_def failed_result_def plain_result_def Let_def split: sum.splits)
  qed (use ban DlgForceSettle in \<open>cases out; auto\<close>)
next
  case (DlgRun cluster dry)
  then show ?thesis using banner_run [OF ban] by simp
next
  case (DlgSettle k i out)
  then show ?thesis using banner_settle [OF inv ban] by simp
next
  case DlgReset
  then show ?thesis by (simp add: banner_inv_def)
next
  case DlgCancel
  then show ?thesis using banner_cancel [OF ban] assms(4) by simp
qed

lemma banner_calm:
  assumes "dialog_inv parse_all s" "banner_inv parse_all A s" "calm parse_all show_json s es"
    and "uncancelled parse_all show_json s es"
  shows "banner_inv parse_all (A \<union> accepted parse_all show_json s es)
           (foldl (dialog_step parse_all show_json) s es)"
  using assms
proof (induction es arbitrary: s A)
  case (Cons e es)
  have "banner_inv parse_all (A \<union> accepted_at s e) (dialog_step parse_all show_json s e)"
    by (rule banner_step) (use Cons.prems in simp_all)
  moreover have "dialog_inv parse_all (dialog_step parse_all show_json s e)"
    by (rule dialog_inv_step) (use Cons.prems in simp_all)
  ultimately show ?case
    using Cons.IH [of "dialog_step parse_all show_json s e" "A \<union> accepted_at s e"] Cons.prems
    by (simp add: Un_assoc)
qed simp

lemma banner_run_history:
  assumes "calm parse_all show_json initial_dialog es"
    and "uncancelled parse_all show_json initial_dialog es"
  shows "banner_inv parse_all (accepted parse_all show_json initial_dialog es)
           (dialog_run parse_all show_json es)"
  using banner_calm [OF dialog_inv_initial _ assms, of "{}"]
  by (simp add: banner_inv_def initial_dialog_def dialog_run_def)

text \<open>
  C6: The green banner is honest while the operator waits for the batch before editing and lets
  an apply run to its end: when the footer shows success, every valid document in the buffer has
  the result success, and the server has accepted it in a request that was no dry run.
\<close>

theorem success_banner_is_honest:
  assumes "calm parse_all show_json initial_dialog es"
    and "uncancelled parse_all show_json initial_dialog es"
    and "ao_kind (dialog_outcome parse_all (dialog_run parse_all show_json es)) = OSuccess"
  shows "list_all
      (\<lambda>d. (case map_of (ad_results (dialog_run parse_all show_json es)) (pd_id d) of
              Some r \<Rightarrow> dr_state r = RSuccess | None \<Rightarrow> False)
           \<and> d \<in> accepted parse_all show_json initial_dialog es)
    (filter pd_valid (parse_multi_doc_yaml parse_all (ad_text (dialog_run parse_all show_json es))))"
proof -
  let ?s = "dialog_run parse_all show_json es"
  let ?b = "last (ad_batches ?s)"
  let ?A = "accepted parse_all show_json initial_dialog es"
  have inv: "dialog_inv parse_all ?s" by (rule dialog_inv_dialog_run [OF assms(1)])
  have ok: "results_ok (valid_docs parse_all ?s) (ad_results ?s)"
    using inv by (simp add: dialog_inv_def)
  have "count_state RSuccess (ad_results ?s) = length (valid_docs parse_all ?s)"
    and idle: "ad_busy ?s = BusyIdle" "ad_last ?s = LastApply"
    using assms(3) unfolding dialog_outcome_def derive_apply_outcome_def Let_def valid_docs_def
    by (auto split: if_splits)
  then have all: "\<forall>d \<in> set (valid_docs parse_all ?s).
      \<exists>r. map_of (ad_results ?s) (pd_id d) = Some r \<and> dr_state r = RSuccess"
    using count_all [OF ok valid_distinct] by (fastforce split: option.splits)
  have b: "ad_batches ?s \<noteq> []" "ab_docs ?b = valid_docs parse_all ?s" "honest_batch ?A (ad_results ?s) ?b"
    using banner_run_history [OF assms(1,2)] idle by (simp_all add: banner_inv_def)
  have bok: "batch_ok ?b" "ab_over ?b"
    using inv idle b(1) by (auto simp: dialog_inv_def list_all_iff)
  moreover have "\<not> po_aborted (ab_pool ?b)" using b(3) by (simp add: honest_batch_def)
  ultimately have "length (ab_docs ?b) \<le> po_cursor (ab_pool ?b)"
    unfolding batch_ok_def dialog_pool.pool_ok_def by (auto simp: max_parallel_def)
  then have "\<forall>d \<in> set (valid_docs parse_all ?s). d \<in> ?A"
    using b(2,3) all by (fastforce simp: honest_batch_def in_set_conv_nth)
  then show ?thesis using all by (auto simp: list_all_iff valid_docs_def)
qed

section \<open>Forced requests\<close>

fun forced_of :: "dialog_event \<Rightarrow> dialog_request list" where
  "forced_of (DlgForce doc cluster) = (if applicable doc then [request_for doc cluster False True] else [])"
| "forced_of _ = []"

lemma begin_fold_forced [simp]:
  "filter dq_force (ad_requests (fold (\<lambda>i. begin_one (f i) c dry) is s)) = filter dq_force (ad_requests s)"
  by (induction "is" arbitrary: s) (simp_all add: begin_one_def update_result_def request_for_def Let_def)

lemma begin_new_forced [simp]:
  "filter dq_force (ad_requests (begin_new b run0 s)) = filter dq_force (ad_requests s)"
  by (simp add: begin_new_def)

lemma forced_step:
  "filter dq_force (ad_requests (dialog_step parse_all show_json s e)) =
   filter dq_force (ad_requests s) @ forced_of e"
proof (cases e)
  case (DlgRun cluster dry)
  then show ?thesis by (simp add: run_batch_def Let_def)
next
  case (DlgSettle k i out)
  then show ?thesis by (simp add: settle_one_def Let_def del: pool_step.simps)
qed (simp_all add: update_result_def request_for_def Let_def)

text \<open>
  Ownership is taken over only by the Force button: the forced requests of any run are, in
  order, exactly one per press on an applicable document, each for that document and never a
  dry run; no batch ever forces.
\<close>

theorem forced_requests_are_button_presses:
  "filter dq_force (ad_requests (dialog_run parse_all show_json es)) = concat (map forced_of es)"
  by (induction es rule: rev_induct)
     (simp_all add: dialog_run_def forced_step initial_dialog_def)

section \<open>Where the dialog misleads\<close>

text \<open>
  The group a manifest names is ignored for any kind whose name is also a built-in one: a
  Knative service is sent to the core services endpoint.
\<close>

theorem foreign_group_goes_to_builtin:
  "gvr_from_api_version_and_kind ''serving.knative.dev/v1'' ''Service'' =
   \<lparr>g_group = [], g_version = ''v1'', g_resource = ''services''\<rparr>"
  by code_simp

section \<open>Concrete runs\<close>

definition pod_doc :: "string \<Rightarrow> jsval" where
  "pod_doc name =
     JObj [(''apiVersion'', JStr ''v1''), (''kind'', JStr ''Pod''),
           (''metadata'', JObj [(''name'', JStr name)])]"

text \<open>A YAML library whose documents are the single letters of the buffer, each a pod of that name.\<close>

definition letters_yaml :: "string \<Rightarrow> library_doc list" where
  "letters_yaml s =
     map (\<lambda>i. \<lparr>ld_range = Some (i, i + 1), ld_has_contents = True, ld_errors = [],
               ld_js = pod_doc [s ! i]\<rparr>) [0..<length s]"

definition apply_two :: "dialog_event list" where
  "apply_two =
     [DlgSetText ''ab'', DlgRun ''prod'' False, DlgSettle 0 1 (Inr JNull), DlgSettle 0 0 (Inr JNull)]"

lemma apply_two_calm: "calm letters_yaml (\<lambda>_. []) initial_dialog apply_two"
  by code_simp

lemma apply_two_success:
  "ao_kind (dialog_outcome letters_yaml (dialog_run letters_yaml (\<lambda>_. []) apply_two)) = OSuccess"
  by code_simp

theorem batch_requests_bounded_witness:
  "in_flight (dialog_run letters_yaml (\<lambda>_. []) apply_two) \<le> 6"
  by (rule batch_requests_bounded [OF apply_two_calm])

lemma apply_two_uncancelled: "uncancelled letters_yaml (\<lambda>_. []) initial_dialog apply_two"
  by code_simp

theorem success_banner_is_honest_witness:
  "list_all
      (\<lambda>d. (case map_of (ad_results (dialog_run letters_yaml (\<lambda>_. []) apply_two)) (pd_id d) of
              Some r \<Rightarrow> dr_state r = RSuccess | None \<Rightarrow> False)
           \<and> d \<in> accepted letters_yaml (\<lambda>_. []) initial_dialog apply_two)
    (filter pd_valid
       (parse_multi_doc_yaml letters_yaml (ad_text (dialog_run letters_yaml (\<lambda>_. []) apply_two))))"
  by (rule success_banner_is_honest [OF apply_two_calm apply_two_uncancelled apply_two_success])

text \<open>
  Seven documents pass their dry run; the apply is cancelled while its first six requests are in
  flight, and these succeed. The seventh row keeps the success of its dry run, so the banner
  reports a complete apply although the seventh document was never sent but as a dry run.
\<close>

definition cancelled_after_dry_run :: "dialog_event list" where
  "cancelled_after_dry_run =
     [DlgSetText ''abcdefg'', DlgRun ''prod'' True]
     @ map (\<lambda>i. DlgSettle 0 i (Inr JNull)) [0, 1, 2, 3, 4, 5, 6]
     @ [DlgRun ''prod'' False, DlgCancel]
     @ map (\<lambda>i. DlgSettle 1 i (Inr JNull)) [0, 1, 2, 3, 4, 5]"

text \<open>The document a letter of the buffer stands for.\<close>

definition letter_doc :: "string \<Rightarrow> string \<Rightarrow> parsed_doc" where
  "letter_doc i name =
     \<lparr>pd_id = i, pd_raw = name, pd_valid = True, pd_api_version = Some ''v1'', pd_kind = Some ''Pod'',
      pd_name = Some name, pd_namespace = None, pd_parse_error = None\<rparr>"

lemma letter_doc_simps [simp]:
  "pd_id (letter_doc i name) = i" "pd_raw (letter_doc i name) = name" "pd_valid (letter_doc i name)"
  by (simp_all add: letter_doc_def)

lemma request_for_simps [simp]:
  "dq_yaml (request_for d c dry force) = pd_raw d" "dq_dry_run (request_for d c dry force) = dry"
  by (simp_all add: request_for_def)

lemma parse_seven:
  "parse_multi_doc_yaml letters_yaml ''abcdefg'' =
     [letter_doc ''doc-0-e40c292c'' ''a'',
      letter_doc ''doc-1-e70c2de5'' ''b'',
      letter_doc ''doc-2-e60c2c52'' ''c'',
      letter_doc ''doc-3-e10c2473'' ''d'',
      letter_doc ''doc-4-e00c22e0'' ''e'',
      letter_doc ''doc-5-e30c2799'' ''f'',
      letter_doc ''doc-6-e20c2606'' ''g'']"
  by code_simp

theorem cancelled_apply_shows_success:
  "ao_kind (dialog_outcome letters_yaml (dialog_run letters_yaml (\<lambda>_. []) cancelled_after_dry_run)) = OSuccess \<and>
   map dq_yaml (filter (\<lambda>q. \<not> dq_dry_run q)
     (ad_requests (dialog_run letters_yaml (\<lambda>_. []) cancelled_after_dry_run))) =
   [''a'', ''b'', ''c'', ''d'', ''e'', ''f'']"
  unfolding dialog_run_def cancelled_after_dry_run_def
  by (simp add: initial_dialog_def run_batch_def settle_one_def begin_new_def begin_one_def
      record_outcome_def update_result_def finish_batch_def abort_batch_def dialog_outcome_def
      pool_start_def pool_pull_def max_parallel_def batch_settle_def plain_result_def Let_def
      parse_seven derive_apply_outcome_def count_state_def numeral_eq_Suc)

definition edit_while_applying :: "dialog_event list" where
  "edit_while_applying =
     [DlgSetText ''a'', DlgRun ''prod'' False, DlgSetText ''b'', DlgSettle 0 0 (Inr JNull)]"

text \<open>
  The buffer stays editable while an apply runs. Edited then, the footer ends on success for a
  document that was never sent: the settled request is recorded under the old document's id and
  the batch's end marks the new buffer as applied.
\<close>

theorem edited_buffer_shows_success:
  "ao_kind (dialog_outcome letters_yaml (dialog_run letters_yaml (\<lambda>_. []) edit_while_applying)) = OSuccess \<and>
   ad_text (dialog_run letters_yaml (\<lambda>_. []) edit_while_applying) = ''b'' \<and>
   map dq_yaml (ad_requests (dialog_run letters_yaml (\<lambda>_. []) edit_while_applying)) = [''a'']"
  by code_simp

text \<open>
  A cancelled apply whose only document was in flight leaves the row pending for ever and the
  footer on pre-apply, not on partial.
\<close>

theorem cancelled_apply_stays_pending:
  "(let s = dialog_run letters_yaml (\<lambda>_. [])
              [DlgSetText ''a'', DlgRun ''prod'' False, DlgCancel, DlgSettle 0 0 (Inl (ThrownError ''aborted''))]
    in ao_kind (dialog_outcome letters_yaml s) = OPreApply \<and>
       ao_pending (dialog_outcome letters_yaml s) = 1 \<and> ad_busy s = BusyIdle)"
  by code_simp

end
