(* ===== verification/LogStream.thy ===== *)
theory LogStream
  imports ApiClient
begin

text \<open>
  Model of \<open>web/src/hooks/useLogStream.ts\<close>: the log stream of a pod or workload. The state is
  that of one subscription (the variables of the effect's closure) together with the React state
  it publishes.
  A message is what \<open>JSON.parse\<close> makes of it, None when it throws; \<open>LogJson None\<close> stands for a
  parsed null, whose fields cannot be read.
\<close>

record log_line =
  ll_id :: nat
  ll_ts :: string
  ll_text :: string
  ll_pod :: "string option"
  ll_container :: "string option"

record log_source =
  lo_kind :: log_source_kind
  lo_cluster :: string
  lo_namespace :: string
  lo_name :: string

record log_config =
  lc_source :: log_source
  lc_container :: "string option"
  lc_tail :: "int option"
  lc_since :: "int option"
  lc_previous :: bool
  lc_follow :: "bool option"

datatype log_status = LogIdle | LogConnecting | LogStreaming | LogClosed | LogError

record log_stream =
  lg_lines :: "log_line list"
  lg_status :: log_status
  lg_error :: "string option"
  lg_total :: nat
  lg_overflowed :: bool
  lg_pods :: "(string \<times> string) list"
  lg_buffer :: "log_line list"
  lg_pending :: "log_line list"
  lg_next_id :: nat
  lg_count :: nat
  lg_did_overflow :: bool
  lg_timer :: bool
  lg_closed_manually :: bool
  lg_open :: bool
  lg_url :: string

definition buffer_cap :: nat where
  "buffer_cap = 50000"

section \<open>Subscribing\<close>

definition positive_param :: "string \<Rightarrow> int option \<Rightarrow> params \<Rightarrow> params" where
  "positive_param k v ps =
     (case v of None \<Rightarrow> ps | Some n \<Rightarrow> if 0 < n then param_set k (show_int n) ps else ps)"

definition log_params :: "log_config \<Rightarrow> params" where
  "log_params cfg =
     (let p0 = (case lc_container cfg of None \<Rightarrow> []
                | Some c \<Rightarrow> if c \<noteq> [] then [(''container'', c)] else []);
          p1 = positive_param ''sinceSeconds'' (lc_since cfg) (positive_param ''tailLines'' (lc_tail cfg) p0);
          p2 = (if lc_previous cfg then param_set ''previous'' ''true'' p1 else p1)
      in case lc_follow cfg of None \<Rightarrow> p2
         | Some b \<Rightarrow> param_set ''follow'' (if b then ''true'' else ''false'') p2)"

definition subscribe :: "log_config \<Rightarrow> log_stream" where
  "subscribe cfg =
     \<lparr>lg_lines = [], lg_status = LogConnecting, lg_error = None, lg_total = 0, lg_overflowed = False,
      lg_pods = [], lg_buffer = [], lg_pending = [], lg_next_id = 0, lg_count = 0,
      lg_did_overflow = False, lg_timer = False, lg_closed_manually = False, lg_open = True,
      lg_url = log_url (lo_kind (lc_source cfg)) (lo_cluster (lc_source cfg))
        (lo_namespace (lc_source cfg)) (lo_name (lc_source cfg)) (log_params cfg)\<rparr>"

section \<open>Handlers\<close>

definition flush_lines :: "log_stream \<Rightarrow> log_stream" where
  "flush_lines s =
     (let s0 = s\<lparr>lg_timer := False\<rparr>
      in if lg_pending s0 = [] then s0
         else (let buf = lg_buffer s0 @ lg_pending s0;
                   over = buffer_cap < length buf;
                   s1 = s0\<lparr>lg_pending := [],
                           lg_buffer := (if over then drop (length buf - buffer_cap) buf else buf),
                           lg_did_overflow := lg_did_overflow s0 \<or> over,
                           lg_overflowed := lg_overflowed s0 \<or> over\<rparr>
               in s1\<lparr>lg_lines := lg_buffer s1, lg_total := lg_count s1\<rparr>))"

definition schedule_flush :: "log_stream \<Rightarrow> log_stream" where
  "schedule_flush s = s\<lparr>lg_timer := True\<rparr>"

record log_payload =
  lp_t :: "string option"
  lp_l :: "string option"
  lp_p :: "string option"
  lp_c :: "string option"

datatype log_message = LogMalformed | LogJson "log_payload option"

definition on_open :: "log_stream \<Rightarrow> log_stream" where
  "on_open s = (if lg_closed_manually s then s else s\<lparr>lg_status := LogStreaming\<rparr>)"

definition default_str :: "string option \<Rightarrow> string" where
  "default_str v = (case v of None \<Rightarrow> [] | Some s \<Rightarrow> s)"

definition line_of :: "nat \<Rightarrow> log_payload \<Rightarrow> log_line" where
  "line_of i p =
     \<lparr>ll_id = i, ll_ts = default_str (lp_t p), ll_text = default_str (lp_l p),
      ll_pod = lp_p p, ll_container = lp_c p\<rparr>"

fun on_log_message :: "log_message \<Rightarrow> log_stream \<Rightarrow> log_stream" where
  "on_log_message LogMalformed s = s"
| "on_log_message (LogJson None) s =
     s\<lparr>lg_count := lg_count s + 1, lg_next_id := lg_next_id s + 1\<rparr>"
| "on_log_message (LogJson (Some p)) s =
     (let line = line_of (lg_next_id s) p
      in schedule_flush
           (s\<lparr>lg_count := lg_count s + 1, lg_next_id := lg_next_id s + 1,
              lg_pending := lg_pending s @ [line]\<rparr>))"

text \<open>The \<open>meta\<close> event: the pods, when the parsed value has an array of them.\<close>

definition on_meta :: "(string option \<times> string option) list option \<Rightarrow> log_stream \<Rightarrow> log_stream" where
  "on_meta pods s =
     (case pods of None \<Rightarrow> s
      | Some ps \<Rightarrow> s\<lparr>lg_pods := map (\<lambda>(name, node). (default_str name, default_str node)) ps\<rparr>)"

definition close_source :: "log_stream \<Rightarrow> log_stream" where
  "close_source s = flush_lines (s\<lparr>lg_closed_manually := True, lg_open := False\<rparr>)"

definition on_done :: "log_stream \<Rightarrow> log_stream" where
  "on_done s = (close_source s)\<lparr>lg_status := LogClosed\<rparr>"

text \<open>A server error carries its decoded message, None when the body does not parse.\<close>

datatype log_error_event = ServerError "string option option" | NativeError

fun on_error_event :: "log_error_event \<Rightarrow> log_stream \<Rightarrow> log_stream" where
  "on_error_event (ServerError body) s =
     (let msg = (case body of Some (Some m) \<Rightarrow> m | _ \<Rightarrow> ''stream error'')
      in (close_source (s\<lparr>lg_error := Some msg\<rparr>))\<lparr>lg_status := LogError\<rparr>)"
| "on_error_event NativeError s =
     (if lg_closed_manually s then s
      else (close_source s)\<lparr>lg_status := LogError, lg_error := Some ''connection lost''\<rparr>)"

definition unsubscribe :: "log_stream \<Rightarrow> log_stream" where
  "unsubscribe s = s\<lparr>lg_closed_manually := True, lg_open := False, lg_timer := False\<rparr>"

text \<open>
  The events of a subscription. A closed event source delivers nothing more; the flush timer may
  still be pending when the server ends the stream.
\<close>

datatype log_event =
    EvOpen
  | EvMessage log_message
  | EvMeta "(string option \<times> string option) list option"
  | EvDone
  | EvError log_error_event
  | EvFlushTimer
  | EvUnmount

fun log_step :: "log_stream \<Rightarrow> log_event \<Rightarrow> log_stream" where
  "log_step s EvOpen = (if lg_open s then on_open s else s)"
| "log_step s (EvMessage m) = (if lg_open s then on_log_message m s else s)"
| "log_step s (EvMeta pods) = (if lg_open s then on_meta pods s else s)"
| "log_step s EvDone = (if lg_open s then on_done s else s)"
| "log_step s (EvError e) = (if lg_open s then on_error_event e s else s)"
| "log_step s EvFlushTimer = (if lg_timer s then flush_lines s else s)"
| "log_step s EvUnmount = unsubscribe s"

definition log_run :: "log_config \<Rightarrow> log_event list \<Rightarrow> log_stream" where
  "log_run cfg es = foldl log_step (subscribe cfg) es"

section \<open>What is delivered\<close>

text \<open>
  The specification: a stream delivers the parsed messages before the first event that ends it,
  and the screen shows an end piece of them.
\<close>

fun ends_stream :: "log_event \<Rightarrow> bool" where
  "ends_stream EvDone \<longleftrightarrow> True"
| "ends_stream (EvError e) \<longleftrightarrow> True"
| "ends_stream EvUnmount \<longleftrightarrow> True"
| "ends_stream _ \<longleftrightarrow> False"

type_synonym log_content = "string \<times> string \<times> string option \<times> string option"

fun payload_of :: "log_event \<Rightarrow> log_content list" where
  "payload_of (EvMessage (LogJson (Some p))) = [(default_str (lp_t p), default_str (lp_l p), lp_p p, lp_c p)]"
| "payload_of _ = []"

definition delivered :: "log_event list \<Rightarrow> log_content list" where
  "delivered es = concat (map payload_of (takeWhile (\<lambda>e. \<not> ends_stream e) es))"

definition content :: "log_line \<Rightarrow> log_content" where
  "content l = (ll_ts l, ll_text l, ll_pod l, ll_container l)"

definition last_n :: "nat \<Rightarrow> 'a list \<Rightarrow> 'a list" where
  "last_n n xs = drop (length xs - n) xs"

lemma last_n_trim: "(if n < length xs then drop (length xs - n) xs else xs) = last_n n xs"
  by (simp add: last_n_def)

lemma last_n_append: "last_n n (last_n n xs @ ys) = last_n n (xs @ ys)"
  by (cases "length xs \<le> n") (auto simp: last_n_def add.commute)

lemma last_n_over: "n < length xs \<or> n < length (last_n n xs @ ys) \<longleftrightarrow> n < length (xs @ ys)"
  by (cases "length xs \<le> n") (auto simp: last_n_def)

lemma length_last_n: "length (last_n n xs) \<le> n"
  by (simp add: last_n_def)

lemma map_last_n: "map f (last_n n xs) = last_n n (map f xs)"
  by (simp add: last_n_def drop_map)

lemma set_last_n: "x \<in> set (last_n n xs) \<Longrightarrow> x \<in> set xs"
  by (auto simp: last_n_def dest: in_set_dropD)

lemma sorted_last_n: "sorted_wrt R xs \<Longrightarrow> sorted_wrt R (last_n n xs)"
  by (simp add: last_n_def sorted_wrt_drop)

lemma delivered_nil [simp]: "delivered [] = []"
  by (simp add: delivered_def)

lemma delivered_snoc:
  "delivered (es @ [e]) =
     (if \<exists>x \<in> set es. ends_stream x then delivered es
      else if ends_stream e then delivered es else delivered es @ payload_of e)"
proof (cases "\<exists>x \<in> set es. ends_stream x")
  case True
  then show ?thesis by (auto simp: delivered_def takeWhile_append1)
next
  case False
  then have all: "takeWhile (\<lambda>e. \<not> ends_stream e) es = es" by (simp add: takeWhile_eq_all_conv)
  have more: "takeWhile (\<lambda>e. \<not> ends_stream e) (es @ [e]) = es @ (if ends_stream e then [] else [e])"
    using False by (subst takeWhile_append2) auto
  show ?thesis unfolding delivered_def all more using False by simp
qed

section \<open>The invariant\<close>

text \<open>
  \<open>ps\<close> are the deliveries so far and \<open>ids\<close> the lines made of them, oldest first.
\<close>

definition log_inv :: "log_stream \<Rightarrow> log_content list \<Rightarrow> log_line list \<Rightarrow> bool" where
  "log_inv s ps flushed \<longleftrightarrow>
     ps = map content (flushed @ lg_pending s) \<and> lg_buffer s = last_n buffer_cap flushed \<and>
     lg_lines s = lg_buffer s \<and>
     (lg_overflowed s \<longleftrightarrow> buffer_cap < length flushed) \<and> lg_did_overflow s = lg_overflowed s \<and>
     sorted_wrt (<) (map ll_id (flushed @ lg_pending s)) \<and>
     (\<forall>l \<in> set (flushed @ lg_pending s). ll_id l < lg_next_id s)"

text \<open>Fields the lines do not depend on.\<close>

lemma log_inv_frame:
  assumes "log_inv s ps fl" "lg_pending s' = lg_pending s" "lg_buffer s' = lg_buffer s"
    "lg_lines s' = lg_lines s" "lg_overflowed s' = lg_overflowed s"
    "lg_did_overflow s' = lg_did_overflow s" "lg_next_id s \<le> lg_next_id s'"
  shows "log_inv s' ps fl"
  using assms unfolding log_inv_def by (metis order_less_le_trans)

lemma flush_pending:
  assumes "lg_pending s \<noteq> []"
  shows "flush_lines s =
    (let buf = lg_buffer s @ lg_pending s; over = buffer_cap < length buf; keep = last_n buffer_cap buf
     in s\<lparr>lg_timer := False, lg_pending := [], lg_buffer := keep,
          lg_did_overflow := lg_did_overflow s \<or> over, lg_overflowed := lg_overflowed s \<or> over,
          lg_lines := keep, lg_total := lg_count s\<rparr>)"
  using assms by (simp add: flush_lines_def Let_def last_n_def)

lemma log_inv_flush:
  assumes "log_inv s ps fl"
  shows "log_inv (flush_lines s) ps (fl @ lg_pending s) \<and> lg_pending (flush_lines s) = []"
proof (cases "lg_pending s = []")
  case True
  then show ?thesis using assms by (auto simp: flush_lines_def log_inv_def)
next
  case False
  have buf: "lg_buffer s = last_n buffer_cap fl" and over: "lg_overflowed s = (buffer_cap < length fl)"
    "lg_did_overflow s = lg_overflowed s"
    using assms by (simp_all only: log_inv_def)
  show ?thesis
    using assms unfolding flush_pending [OF False] Let_def log_inv_def buf over last_n_append last_n_over
    by (simp del: length_append)
qed

lemma flush_frame [simp]:
  "lg_open (flush_lines s) = lg_open s" "lg_closed_manually (flush_lines s) = lg_closed_manually s"
  "lg_timer (flush_lines s) = False" "lg_next_id (flush_lines s) = lg_next_id s"
  "lg_status (flush_lines s) = lg_status s" "lg_error (flush_lines s) = lg_error s"
  by (simp_all add: flush_lines_def Let_def)

lemma log_inv_close:
  assumes "log_inv s ps fl"
  shows "\<exists>fl'. log_inv (close_source s) ps fl'" "lg_pending (close_source s) = []"
    "lg_open (close_source s) = False" "lg_closed_manually (close_source s) = True"
    "lg_timer (close_source s) = False"
proof -
  have "log_inv (s\<lparr>lg_closed_manually := True, lg_open := False\<rparr>) ps fl"
    using assms by (rule log_inv_frame) simp_all
  from log_inv_flush [OF this] show "\<exists>fl'. log_inv (close_source s) ps fl'" "lg_pending (close_source s) = []"
    by (auto simp: close_source_def)
qed (simp_all add: close_source_def)

lemma log_inv_message:
  assumes "log_inv s ps fl"
  shows "log_inv (on_log_message m s) (ps @ payload_of (EvMessage m)) fl"
proof (cases m)
  case LogMalformed
  then show ?thesis using assms by simp
next
  case (LogJson p)
  then show ?thesis
    using assms
    by (cases p) (fastforce simp: log_inv_def schedule_flush_def Let_def line_of_def content_def
      sorted_wrt_append less_Suc_eq)+
qed

text \<open>
  The control state: a timer is running for pending lines, an ended stream has flushed, and the
  status tells how it ended.
\<close>

definition log_ctl :: "log_event list \<Rightarrow> log_stream \<Rightarrow> bool" where
  "log_ctl es s \<longleftrightarrow>
     (lg_open s \<longleftrightarrow> \<not> (\<exists>e \<in> set es. ends_stream e)) \<and> (lg_open s \<longleftrightarrow> \<not> lg_closed_manually s) \<and>
     (lg_pending s \<noteq> [] \<longrightarrow> lg_timer s \<or> EvUnmount \<in> set es) \<and>
     (lg_status s \<in> {LogClosed, LogError} \<longrightarrow> \<not> lg_open s) \<and>
     (lg_status s = LogError \<longleftrightarrow> lg_error s \<noteq> None) \<and> lg_status s \<noteq> LogIdle"

lemma message_frame [simp]:
  "lg_open (on_log_message m s) = lg_open s" "lg_closed_manually (on_log_message m s) = lg_closed_manually s"
  "lg_status (on_log_message m s) = lg_status s" "lg_error (on_log_message m s) = lg_error s"
  "lg_pending (on_log_message m s) \<noteq> lg_pending s \<Longrightarrow> lg_timer (on_log_message m s)"
  "lg_timer s \<Longrightarrow> lg_timer (on_log_message m s)"
  by (cases "(m, s)" rule: on_log_message.cases; simp add: schedule_flush_def Let_def)+

lemma flush_pending_Nil [simp]: "lg_pending (flush_lines s) = []"
  by (simp add: flush_lines_def Let_def)

lemmas handler_defs = on_open_def on_meta_def on_done_def unsubscribe_def close_source_def

lemma log_ctl_step:
  assumes "log_ctl es s"
  shows "log_ctl (es @ [e]) (log_step s e)"
proof (cases e)
  case (EvMessage m)
  then show ?thesis
    using assms message_frame(5) [of m s] message_frame(6) [of s m] unfolding log_ctl_def
    by (cases "lg_pending (on_log_message m s) = lg_pending s") auto
next
  case (EvError r)
  then show ?thesis
    using assms by (cases r) (auto simp: log_ctl_def close_source_def split: option.splits)
qed (use assms in \<open>auto simp: log_ctl_def handler_defs split: option.splits\<close>)

lemma log_inv_fields [simp]:
  "log_inv (s\<lparr>lg_status := st\<rparr>) = log_inv s" "log_inv (s\<lparr>lg_error := err\<rparr>) = log_inv s"
  "log_inv (s\<lparr>lg_pods := pods\<rparr>) = log_inv s" "log_inv (unsubscribe s) = log_inv s"
  by (intro ext; simp add: log_inv_def unsubscribe_def)+

lemma log_inv_step:
  assumes "log_inv s ps fl" "lg_open s \<longleftrightarrow> \<not> over"
  shows "\<exists>fl'. log_inv (log_step s e)
    (if over then ps else if ends_stream e then ps else ps @ payload_of e) fl'"
proof -
  show ?thesis
  proof (cases e)
    case (EvMessage m)
    then show ?thesis using assms log_inv_message [OF assms(1), of m] by auto
  next
    case (EvError r)
    then show ?thesis
      using assms log_inv_close(1) [OF assms(1)] log_inv_close(1) [of "s\<lparr>lg_error := _\<rparr>"]
      by (cases r) (auto simp: Let_def)
  next
    case EvDone
    then show ?thesis
      using assms log_inv_close(1) [OF assms(1)] by (auto simp: on_done_def)
  next
    case EvFlushTimer
    then show ?thesis using assms log_inv_flush [OF assms(1)] by auto
  qed (use assms in \<open>auto simp: on_open_def on_meta_def split: option.splits\<close>)
qed

lemma log_run_snoc: "log_run cfg (es @ [e]) = log_step (log_run cfg es) e"
  by (simp add: log_run_def)

lemma log_ctl_run: "log_ctl es (log_run cfg es)"
proof (induction es rule: rev_induct)
  case Nil
  show ?case by (simp add: log_ctl_def log_run_def subscribe_def)
qed (simp add: log_run_snoc log_ctl_step)

lemma log_inv_run: "\<exists>fl. log_inv (log_run cfg es) (delivered es) fl"
proof (induction es rule: rev_induct)
  case Nil
  show ?case by (simp add: log_inv_def log_run_def subscribe_def last_n_def buffer_cap_def)
next
  case (snoc e es)
  then obtain fl where "log_inv (log_run cfg es) (delivered es) fl" ..
  from log_inv_step [OF this, of "\<exists>x \<in> set es. ends_stream x" e] log_ctl_run [of es cfg]
  show ?case by (simp add: log_run_snoc delivered_snoc log_ctl_def)
qed

section \<open>Properties\<close>

text \<open>
  C12: The log pane shows the newest lines and says when it dropped some: once no flush is due, its
  lines are exactly the newest 50,000 of the lines delivered before the stream ended, in order,
  and the overflow mark is set exactly when more were delivered.
\<close>

theorem log_shows_newest_lines:
  assumes "\<not> lg_timer (log_run cfg es)" "EvUnmount \<notin> set es"
  shows "map content (lg_lines (log_run cfg es)) = last_n buffer_cap (delivered es) \<and>
    (lg_overflowed (log_run cfg es) \<longleftrightarrow> buffer_cap < length (delivered es))"
proof -
  obtain fl where fl: "log_inv (log_run cfg es) (delivered es) fl" using log_inv_run by blast
  have "lg_pending (log_run cfg es) = []" using log_ctl_run [of es cfg] assms by (auto simp: log_ctl_def)
  then show ?thesis using fl by (auto simp: log_inv_def map_last_n)
qed

definition sample_log :: log_config where
  "sample_log =
     \<lparr>lc_source = \<lparr>lo_kind = LogPod, lo_cluster = ''c'', lo_namespace = ''ns'', lo_name = ''p''\<rparr>,
      lc_container = None, lc_tail = None, lc_since = None, lc_previous = False, lc_follow = None\<rparr>"

definition sample_log_events :: "log_event list" where
  "sample_log_events =
     [EvOpen, EvMessage (LogJson (Some \<lparr>lp_t = None, lp_l = Some ''hi'', lp_p = None, lp_c = None\<rparr>)),
      EvMessage LogMalformed, EvDone,
      EvMessage (LogJson (Some \<lparr>lp_t = None, lp_l = Some ''late'', lp_p = None, lp_c = None\<rparr>))]"

theorem log_shows_newest_lines_witness:
  "map content (lg_lines (log_run sample_log sample_log_events)) = [([], ''hi'', None, None)]"
  using log_shows_newest_lines [of sample_log sample_log_events]
  by (simp add: log_run_def sample_log_def sample_log_events_def subscribe_def handler_defs
      flush_lines_def schedule_flush_def Let_def delivered_def default_str_def last_n_def buffer_cap_def
      line_of_def content_def)

text \<open>
  A log stream is never stuck half-closed: it is open until the first event that ends it, lines
  waiting to be shown have a flush scheduled, an ended stream is off the wire with everything
  flushed, and the error message is there exactly in the error state. The lines shown are at most
  50,000 and have increasing keys.
\<close>

theorem log_stream_invariant:
  "(lg_open (log_run cfg es) \<longleftrightarrow> \<not> list_ex ends_stream es) \<and>
   (lg_pending (log_run cfg es) = [] \<or> lg_timer (log_run cfg es) \<or> EvUnmount \<in> set es) \<and>
   (lg_status (log_run cfg es) = LogError \<longleftrightarrow> lg_error (log_run cfg es) \<noteq> None) \<and>
   length (lg_lines (log_run cfg es)) \<le> buffer_cap \<and>
   sorted_wrt (<) (map ll_id (lg_lines (log_run cfg es)))"
proof -
  obtain fl where fl: "log_inv (log_run cfg es) (delivered es) fl" using log_inv_run by blast
  have "sorted_wrt (<) (map ll_id (last_n buffer_cap fl))"
    using fl unfolding map_last_n by (intro sorted_last_n) (auto simp: log_inv_def sorted_wrt_append)
  then show ?thesis
    using fl log_ctl_run [of es cfg] length_last_n [of buffer_cap fl]
    by (auto simp: log_inv_def log_ctl_def list_ex_iff)
qed

end
