(* ===== verification/Display.thy ===== *)
theory Display
  imports AddonVersions "HOL-Library.Multiset"
begin

text \<open>
  Model of the console's small formatters: \<open>web/src/lib/cron.ts\<close>, \<open>format.ts\<close>, \<open>tlsExpiry.ts\<close>,
  \<open>eosChip.ts\<close>, \<open>nodegroups.ts\<close> and \<open>upgradeInsights.ts\<close>, and the module state of the toasts,
  \<open>toastBus.ts\<close>. Times are milliseconds; the parser of \<open>Date\<close> is a parameter that returns None
  for an invalid date, and \<open>localeCompare\<close> is a parameter of the sort.
\<close>

section \<open>Cron schedules\<close>

definition cron_aliases :: "(string \<times> string) list" where
  "cron_aliases =
     [(''@yearly'', ''once a year (Jan 1, 00:00)''), (''@annually'', ''once a year (Jan 1, 00:00)''),
      (''@monthly'', ''once a month (day 1, 00:00)''), (''@weekly'', ''once a week (Sunday, 00:00)''),
      (''@daily'', ''once a day (00:00)''), (''@midnight'', ''once a day (00:00)''),
      (''@hourly'', ''every hour'')]"

text \<open>\<open>s.split(/\s+/)\<close> of a trimmed string.\<close>

function split_ws :: "string \<Rightarrow> string list" where
  "split_ws s =
     (let w = takeWhile (\<lambda>c. \<not> is_ws c) s; r = dropWhile (\<lambda>c. \<not> is_ws c) s
      in if r = [] then [w] else w # split_ws (dropWhile is_ws r))"
  by pat_completeness auto
termination
proof (relation "measure length", simp)
  fix s w r :: string
  assume r: "r = dropWhile (\<lambda>c. \<not> is_ws c) s" "r \<noteq> []"
  then have "is_ws (hd r)" using hd_dropWhile by metis
  then have "length (dropWhile is_ws r) < length r"
    using r(2) by (cases r) (auto intro: le_less_trans [OF length_dropWhile_le])
  also have "length r \<le> length s" using r(1) by (simp add: length_dropWhile_le)
  finally show "(dropWhile is_ws r, s) \<in> measure length" by simp
qed

declare split_ws.simps [simp del]

definition step_of :: "string \<Rightarrow> int option" where
  "step_of field =
     (case field of
        a # b # ds \<Rightarrow> if a = CHR ''*'' \<and> b = CHR ''/'' \<and> all_digits ds then Some (decimal_value ds) else None
      | _ \<Rightarrow> None)"

definition pad2 :: "string \<Rightarrow> string" where
  "pad2 s = replicate (2 - length s) (CHR ''0'') @ s"

definition day_name :: "int \<Rightarrow> string" where
  "day_name n =
     [''Sunday'', ''Monday'', ''Tuesday'', ''Wednesday'', ''Thursday'', ''Friday'', ''Saturday'']
       ! nat (n mod 7)"

definition plural :: "int \<Rightarrow> string" where
  "plural n = (if n = 1 then [] else ''s'')"

definition describe_fields :: "string \<Rightarrow> string \<Rightarrow> string \<Rightarrow> string \<Rightarrow> string \<Rightarrow> string option" where
  "describe_fields minute hour mday month dow =
     (let all_days = (mday = ''*'' \<and> month = ''*'' \<and> dow = ''*'');
          step = (\<lambda>f. case step_of f of Some n \<Rightarrow> if n \<noteq> 0 then Some n else None | None \<Rightarrow> None)
      in if step minute \<noteq> None \<and> hour = ''*'' \<and> all_days
         then let n = the (step minute) in Some (''every '' @ show_int n @ '' minute'' @ plural n)
         else if minute = ''0'' \<and> step hour \<noteq> None \<and> all_days
         then let n = the (step hour) in Some (''every '' @ show_int n @ '' hour'' @ plural n)
         else if all_digits minute \<and> all_digits hour \<and> all_days
         then Some (''daily at '' @ pad2 hour @ '':'' @ pad2 minute)
         else if all_digits minute \<and> all_digits hour \<and> mday = ''*'' \<and> month = ''*'' \<and> all_digits dow
         then Some (''weekly on '' @ day_name (decimal_value dow) @ '' at '' @ pad2 hour @ '':'' @ pad2 minute)
         else if all_digits minute \<and> hour = ''*'' \<and> all_days
         then Some (''hourly at :'' @ pad2 minute)
         else None)"

definition describe_cron :: "string \<Rightarrow> string" where
  "describe_cron expr =
     (if expr = [] then []
      else let trimmed = trim_str expr
           in case map_of cron_aliases trimmed of
                Some text \<Rightarrow> text
              | None \<Rightarrow>
                  (case split_ws trimmed of
                     [minute, hour, mday, month, dow] \<Rightarrow>
                       (case describe_fields minute hour mday month dow of Some t \<Rightarrow> t | None \<Rightarrow> trimmed)
                   | _ \<Rightarrow> trimmed))"

section \<open>Ages\<close>

definition format_seconds :: "int \<Rightarrow> string" where
  "format_seconds sec =
     (if sec < 60 then show_int sec @ ''s''
      else let mn = sec div 60
           in if mn < 60 then show_int mn @ ''m''
              else let hr = mn div 60
                   in if hr < 24 then show_int hr @ ''h'' else show_int (hr div 24) @ ''d'')"

definition format_duration_ms :: "int \<Rightarrow> string" where
  "format_duration_ms ms = format_seconds (max 0 (ms div 1000))"

definition age_from :: "(string \<Rightarrow> int option) \<Rightarrow> string \<Rightarrow> int \<Rightarrow> string" where
  "age_from parse iso8601 now =
     (case parse iso8601 of None \<Rightarrow> em_dash | Some t \<Rightarrow> format_seconds (max 0 ((now - t) div 1000)))"

definition name_matches :: "string \<Rightarrow> string \<Rightarrow> bool" where
  "name_matches name query = (query = [] \<or> str_contains (to_lower name) (to_lower query))"

section \<open>Expiry\<close>

datatype expiry_tone = Comfortable | Warning | Critical | Expired

record expiry_state =
  es_tone :: expiry_tone
  es_days :: int
  es_date :: string

definition day_ms :: int where
  "day_ms = 24 * 60 * 60 * 1000"

definition ceil_days :: "int \<Rightarrow> int" where
  "ceil_days ms = - ((- ms) div day_ms)"

definition tls_expiry_state :: "(string \<Rightarrow> int option) \<Rightarrow> int \<Rightarrow> string option \<Rightarrow> expiry_state option" where
  "tls_expiry_state parse now expires_at =
     (case expires_at of
        None \<Rightarrow> None
      | Some s \<Rightarrow>
          if s = [] then None
          else (case parse s of
                  None \<Rightarrow> None
                | Some ms \<Rightarrow>
                    let days = ceil_days (ms - now);
                        tone = (if now \<ge> ms then Expired else if days \<le> 7 then Critical
                                else if days \<le> 30 then Warning else Comfortable)
                    in Some \<lparr>es_tone = tone, es_days = days, es_date = take 10 s\<rparr>))"

datatype window_tone = WinComfortable | WinWarning | WinPast | WinEol

record window_state =
  ws_tone :: window_tone
  ws_days :: int
  ws_eos :: string
  ws_extended :: "string option"

definition support_window_state ::
    "(string \<Rightarrow> int option) \<Rightarrow> int \<Rightarrow> string option \<Rightarrow> string option \<Rightarrow> window_state option" where
  "support_window_state parse now eos extended =
     (case eos of
        None \<Rightarrow> None
      | Some s \<Rightarrow>
          if s = [] then None
          else (case parse s of
                  None \<Rightarrow> None
                | Some eos_ms \<Rightarrow>
                    let days = ceil_days (eos_ms - now);
                        ext_iso = (case extended of Some e \<Rightarrow> if e \<noteq> [] then Some (take 10 e) else None
                                   | None \<Rightarrow> None);
                        ext_over = (case extended of
                           Some e \<Rightarrow> e \<noteq> [] \<and> (case parse e of Some x \<Rightarrow> now \<ge> x | None \<Rightarrow> False)
                         | None \<Rightarrow> False);
                        tone = (if now \<ge> eos_ms then (if ext_over then WinEol else WinPast)
                                else if days \<le> 180 then WinWarning else WinComfortable)
                    in Some \<lparr>ws_tone = tone, ws_days = days, ws_eos = take 10 s, ws_extended = ext_iso\<rparr>))"

text \<open>\<open>/^v?(\d+\.\d+)/\<close>, else the input.\<close>

definition strip_git_version :: "string \<Rightarrow> string" where
  "strip_git_version g =
     (let s = (case g of c # r \<Rightarrow> if c = CHR ''v'' then r else g | [] \<Rightarrow> []);
          a = takeWhile is_digit s; r = dropWhile is_digit s; b = takeWhile is_digit (drop 1 r)
      in if a \<noteq> [] \<and> starts_with ''.'' r \<and> b \<noteq> [] then a @ ''.'' @ b else g)"

record nodegroup =
  ng_custom_ami :: bool
  ng_drift_computed :: bool
  ng_behind :: bool
  ng_days_behind :: "int option"
  ng_latest :: "string option"

datatype drift_label = DriftCustom | DriftUncomputed | DriftCurrent | DriftBehind int "string option"

definition classify_drift :: "nodegroup \<Rightarrow> drift_label" where
  "classify_drift ng =
     (if ng_custom_ami ng then DriftCustom
      else if \<not> ng_drift_computed ng then DriftUncomputed
      else if \<not> ng_behind ng then DriftCurrent
      else DriftBehind (case ng_days_behind ng of Some d \<Rightarrow> d | None \<Rightarrow> 0) (ng_latest ng))"

section \<open>Upgrade insights\<close>

record insight =
  ui_id :: string
  ui_name :: string
  ui_status :: string

definition status_rank :: "string \<Rightarrow> int" where
  "status_rank s =
     (if s = ''ERROR'' then 0 else if s = ''WARNING'' then 1 else if s = ''UNKNOWN'' then 2
      else if s = ''PASSING'' then 3 else 99)"

definition compare_insights :: "(string \<Rightarrow> string \<Rightarrow> int) \<Rightarrow> insight \<Rightarrow> insight \<Rightarrow> int" where
  "compare_insights locale_compare a b =
     (let da = status_rank (ui_status a); db = status_rank (ui_status b);
          shown = (\<lambda>r. if ui_name r \<noteq> [] then ui_name r else ui_id r)
      in if da \<noteq> db then da - db else locale_compare (shown a) (shown b))"

text \<open>\<open>Array.prototype.sort\<close>: the stable sort by a comparator that orders consistently.\<close>

fun insert_by :: "('a \<Rightarrow> 'a \<Rightarrow> int) \<Rightarrow> 'a \<Rightarrow> 'a list \<Rightarrow> 'a list" where
  "insert_by cmp x [] = [x]"
| "insert_by cmp x (y # ys) = (if cmp x y \<le> 0 then x # y # ys else y # insert_by cmp x ys)"

definition sort_by :: "('a \<Rightarrow> 'a \<Rightarrow> int) \<Rightarrow> 'a list \<Rightarrow> 'a list" where
  "sort_by cmp xs = foldr (insert_by cmp) xs []"

definition sort_insights_by_status :: "(string \<Rightarrow> string \<Rightarrow> int) \<Rightarrow> insight list \<Rightarrow> insight list" where
  "sort_insights_by_status locale_compare rows = sort_by (compare_insights locale_compare) rows"

section \<open>Toasts\<close>

datatype toast_tone = ToastInfo | ToastWarn | ToastError | ToastSuccess

record toast_entry =
  te_id :: nat
  te_message :: string
  te_tone :: toast_tone

text \<open>
  The module state with its pending timers, each with the toast it removes and its due time, and
  the clock. \<open>tb_seen\<close> is what every listener was last called with since it subscribed.
\<close>

record toast_bus =
  tb_next :: nat
  tb_toasts :: "toast_entry list"
  tb_listeners :: "nat list"
  tb_timers :: "(nat \<times> nat) list"
  tb_now :: nat
  tb_seen :: "(nat \<times> toast_entry list) list"

definition toast_init :: toast_bus where
  "toast_init =
     \<lparr>tb_next = 0, tb_toasts = [], tb_listeners = [], tb_timers = [], tb_now = 0, tb_seen = []\<rparr>"

definition notify_toasts :: "toast_bus \<Rightarrow> toast_bus" where
  "notify_toasts s = s\<lparr>tb_seen := fold (\<lambda>l. AList.update l (tb_toasts s)) (tb_listeners s) (tb_seen s)\<rparr>"

definition show_toast :: "string \<Rightarrow> toast_tone \<Rightarrow> nat \<Rightarrow> toast_bus \<Rightarrow> toast_bus" where
  "show_toast message tone duration s =
     (let i = tb_next s + 1; entry = \<lparr>te_id = i, te_message = message, te_tone = tone\<rparr>;
          s1 = notify_toasts (s\<lparr>tb_next := i, tb_toasts := tb_toasts s @ [entry]\<rparr>)
      in s1\<lparr>tb_timers := tb_timers s1 @ [(i, tb_now s + duration)]\<rparr>)"

definition expire_toast :: "nat \<Rightarrow> toast_bus \<Rightarrow> toast_bus" where
  "expire_toast i s =
     notify_toasts (s\<lparr>tb_toasts := filter (\<lambda>t. te_id t \<noteq> i) (tb_toasts s)\<rparr>)"

datatype toast_event =
    ShowToast string toast_tone nat
  | Subscribe nat
  | Unsubscribe nat
  | ToastTick nat

text \<open>The clock advances to a later time and the timers due by then run in their order.\<close>

fun toast_step :: "toast_bus \<Rightarrow> toast_event \<Rightarrow> toast_bus" where
  "toast_step s (ShowToast m t d) = show_toast m t d s"
| "toast_step s (Subscribe l) = s\<lparr>tb_listeners := tb_listeners s @ [l], tb_seen := AList.delete l (tb_seen s)\<rparr>"
| "toast_step s (Unsubscribe l) = s\<lparr>tb_listeners := filter (\<lambda>x. x \<noteq> l) (tb_listeners s)\<rparr>"
| "toast_step s (ToastTick d) =
     (let now = tb_now s + d; due = sort_key snd (filter (\<lambda>(i, t). t \<le> now) (tb_timers s));
          s1 = s\<lparr>tb_now := now, tb_timers := filter (\<lambda>(i, t). t > now) (tb_timers s)\<rparr>
      in fold (\<lambda>(i, t). expire_toast i) due s1)"

section \<open>Expiry only gets worse\<close>

fun expiry_rank :: "expiry_tone \<Rightarrow> nat" where
  "expiry_rank Comfortable = 0"
| "expiry_rank Warning = 1"
| "expiry_rank Critical = 2"
| "expiry_rank Expired = 3"

fun window_rank :: "window_tone \<Rightarrow> nat" where
  "window_rank WinComfortable = 0"
| "window_rank WinWarning = 1"
| "window_rank WinPast = 2"
| "window_rank WinEol = 3"

lemma ceil_days_mono: "a \<le> b \<Longrightarrow> ceil_days a \<le> ceil_days b"
  by (simp add: ceil_days_def day_ms_def zdiv_mono1)

text \<open>
  A chip never gets friendlier as time passes: neither the tone of a certificate nor the tone of
  a cluster's support window.
\<close>

theorem tones_only_escalate:
  assumes "now \<le> now'"
  shows "rel_option (\<lambda>a b. expiry_rank (es_tone a) \<le> expiry_rank (es_tone b))
       (tls_expiry_state parse now expires) (tls_expiry_state parse now' expires) \<and>
     rel_option (\<lambda>a b. window_rank (ws_tone a) \<le> window_rank (ws_tone b))
       (support_window_state parse now eos extended) (support_window_state parse now' eos extended)"
proof
  have mono: "ceil_days (t - now') \<le> ceil_days (t - now)" for t
    using assms by (simp add: ceil_days_mono)
  show "rel_option (\<lambda>a b. expiry_rank (es_tone a) \<le> expiry_rank (es_tone b))
       (tls_expiry_state parse now expires) (tls_expiry_state parse now' expires)"
    using assms order_trans [OF mono]
    by (auto simp: tls_expiry_state_def Let_def split: option.split)
  show "rel_option (\<lambda>a b. window_rank (ws_tone a) \<le> window_rank (ws_tone b))
       (support_window_state parse now eos extended) (support_window_state parse now' eos extended)"
    using assms order_trans [OF mono]
    by (auto simp: support_window_state_def Let_def split: option.splits)
qed

lemma tones_only_escalate_witness:
  "rel_option (\<lambda>a b. expiry_rank (es_tone a) \<le> expiry_rank (es_tone b))
     (tls_expiry_state (\<lambda>_. Some (40 * day_ms)) 0 (Some ''2026-02-10''))
     (tls_expiry_state (\<lambda>_. Some (40 * day_ms)) (35 * day_ms) (Some ''2026-02-10''))"
  using tones_only_escalate [of 0 "35 * day_ms" "\<lambda>_. Some (40 * day_ms)" "Some ''2026-02-10''" None None]
  by (simp add: day_ms_def)

section \<open>Insights\<close>

lemma mset_insert_by: "mset (insert_by cmp x ys) = add_mset x (mset ys)"
  by (induction ys) auto

lemma mset_sort_by: "mset (sort_by cmp xs) = mset xs"
  by (induction xs) (simp_all add: sort_by_def mset_insert_by)

lemma insert_sorted_rank:
  assumes "\<And>a b. rank a < rank b \<Longrightarrow> cmp a b \<le> 0" "\<And>a b. rank b < rank a \<Longrightarrow> cmp a b > 0"
  shows "sorted (map rank ys) \<Longrightarrow> sorted (map rank (insert_by cmp x ys))"
proof (induction ys)
  case (Cons y ys)
  have in_set: "set (insert_by cmp x ys) = insert x (set ys)"
    using mset_insert_by [of cmp x ys] by (metis set_mset_add_mset_insert set_mset_mset)
  show ?case
  proof (cases "cmp x y \<le> 0")
    case True
    then have "rank x \<le> rank y" using assms(2) [of y x] by (meson not_le)
    then show ?thesis using Cons True by auto
  next
    case False
    then have "rank y \<le> rank x" using assms(1) [of x y] by (meson not_le)
    then show ?thesis using Cons False in_set by auto
  qed
qed simp

lemma sorted_sort_by:
  assumes "\<And>a b. rank a < rank b \<Longrightarrow> cmp a b \<le> 0" "\<And>a b. rank b < rank a \<Longrightarrow> cmp a b > 0"
  shows "sorted (map rank (sort_by cmp xs))"
  unfolding sort_by_def by (induction xs) (simp_all add: insert_sorted_rank [OF assms])

text \<open>
  Whatever the locale, the page shows the same insights with the blockers first: errors, then
  warnings, unknown ones and passing ones.
\<close>

theorem blockers_come_first:
  "mset (sort_insights_by_status lc rows) = mset rows \<and>
   sorted (map (status_rank \<circ> ui_status) (sort_insights_by_status lc rows))"
proof -
  have "sorted (map (\<lambda>r. status_rank (ui_status r)) (sort_by (compare_insights lc) rows))"
    by (rule sorted_sort_by) (simp_all add: compare_insights_def Let_def)
  then show ?thesis by (simp add: sort_insights_by_status_def mset_sort_by comp_def)
qed

section \<open>Cron steps\<close>

text \<open>The minutes, counted from some midnight, at which a step of \<open>n\<close> in the minute field fires.\<close>

definition minute_step_fires :: "nat \<Rightarrow> nat \<Rightarrow> bool" where
  "minute_step_fires n t = ((t mod 60) mod n = 0)"

text \<open>Firing every \<open>n\<close> minutes.\<close>

definition every_minutes :: "(nat \<Rightarrow> bool) \<Rightarrow> nat \<Rightarrow> bool" where
  "every_minutes fires n =
     (\<forall>t. fires t \<longrightarrow> fires (t + n) \<and> (\<forall>k. 0 < k \<and> k < n \<longrightarrow> \<not> fires (t + k)))"

lemma even_steps_iff: "n > 0 \<Longrightarrow> every_minutes (minute_step_fires n) n \<longleftrightarrow> n dvd 60"
proof
  assume n: "n > 0" and e: "every_minutes (minute_step_fires n) n"
  have run: "minute_step_fires n (k * n)" for k
  proof (induction k)
    case (Suc k)
    then show ?case using e by (auto simp: every_minutes_def add.commute)
  qed (simp add: minute_step_fires_def)
  let ?k = "60 div n"
  show "n dvd 60"
  proof (rule ccontr)
    assume "\<not> n dvd 60"
    then have r: "60 mod n > 0" by (simp add: dvd_eq_mod_eq_0)
    have "?k * n + 60 mod n = 60" by simp
    then have "\<not> minute_step_fires n 60"
      using e run [of ?k] r n mod_less_divisor [of n 60] unfolding every_minutes_def by metis
    then show False by (simp add: minute_step_fires_def)
  qed
next
  assume n: "n > 0" and d: "n dvd 60"
  have fires: "minute_step_fires n t \<longleftrightarrow> n dvd t" for t
    using d by (simp add: minute_step_fires_def dvd_eq_mod_eq_0 mod_mod_cancel)
  show "every_minutes (minute_step_fires n) n"
    unfolding every_minutes_def fires using n by (auto simp: dvd_add_right_iff nat_dvd_not_less)
qed

section \<open>Toasts\<close>

definition seen_ok :: "toast_bus \<Rightarrow> bool" where
  "seen_ok s = list_all (\<lambda>l. case map_of (tb_seen s) l of Some ts \<Rightarrow> ts = tb_toasts s | None \<Rightarrow> True) (tb_listeners s)"

definition toast_inv :: "toast_bus \<Rightarrow> bool" where
  "toast_inv s =
     (distinct (map te_id (tb_toasts s)) \<and> te_id ` set (tb_toasts s) = fst ` set (tb_timers s) \<and>
      distinct (map fst (tb_timers s)) \<and>
      list_all (\<lambda>(i, t). i \<le> tb_next s \<and> tb_now s \<le> t) (tb_timers s) \<and> seen_ok s)"

lemma notify_fields [simp]:
  "tb_toasts (notify_toasts s) = tb_toasts s" "tb_next (notify_toasts s) = tb_next s"
  "tb_listeners (notify_toasts s) = tb_listeners s" "tb_timers (notify_toasts s) = tb_timers s"
  "tb_now (notify_toasts s) = tb_now s"
  by (simp_all add: notify_toasts_def)

lemma notify_lookup:
  "map_of (fold (\<lambda>l. AList.update l x) ls m) l = (if l \<in> set ls then Some x else map_of m l)"
  by (induction ls arbitrary: m) (auto simp: update_conv')

lemma notify_seen [simp]: "seen_ok (notify_toasts s)"
  by (simp add: seen_ok_def notify_toasts_def notify_lookup list_all_iff)

lemma seen_timers [simp]: "seen_ok (s\<lparr>tb_timers := t\<rparr>) = seen_ok s"
  by (simp add: seen_ok_def cong: option.case_cong)

lemma seen_clock [simp]: "seen_ok (s\<lparr>tb_now := n\<rparr>) = seen_ok s"
  by (simp add: seen_ok_def cong: option.case_cong)

lemma expire_all:
  "let s' = fold (\<lambda>(i, t). expire_toast i) due s
   in tb_toasts s' = filter (\<lambda>t. te_id t \<notin> fst ` set due) (tb_toasts s) \<and> tb_next s' = tb_next s \<and>
      tb_timers s' = tb_timers s \<and> tb_now s' = tb_now s \<and> (seen_ok s \<longrightarrow> seen_ok s')"
proof (induction due arbitrary: s)
  case (Cons d due)
  obtain i t where d: "d = (i, t)" by (cases d)
  show ?case
    using Cons [of "expire_toast i s"] d by (auto simp: Let_def expire_toast_def intro!: filter_cong)
qed simp

lemma toast_inv_step: "toast_inv s \<Longrightarrow> toast_inv (toast_step s e)"
proof (cases e)
  case (ShowToast m t d)
  assume inv: "toast_inv s"
  have fresh: "Suc (tb_next s) \<notin> fst ` set (tb_timers s)" "Suc (tb_next s) \<notin> te_id ` set (tb_toasts s)"
  proof -
    have same: "te_id ` set (tb_toasts s) = fst ` set (tb_timers s)"
      and le: "list_all (\<lambda>(i, t). i \<le> tb_next s \<and> tb_now s \<le> t) (tb_timers s)"
      using inv by (simp_all add: toast_inv_def)
    show "Suc (tb_next s) \<notin> fst ` set (tb_timers s)" using le by (auto simp: list_all_iff)
    then show "Suc (tb_next s) \<notin> te_id ` set (tb_toasts s)" unfolding same .
  qed
  let ?t = "\<lparr>te_id = Suc (tb_next s), te_message = m, te_tone = t\<rparr>"
  have after: "tb_toasts (toast_step s e) = tb_toasts s @ [?t]" "tb_next (toast_step s e) = Suc (tb_next s)"
    "tb_timers (toast_step s e) = tb_timers s @ [(Suc (tb_next s), tb_now s + d)]"
    "tb_now (toast_step s e) = tb_now s" "seen_ok (toast_step s e)"
    by (simp_all add: ShowToast show_toast_def Let_def)
  have "list_all (\<lambda>(i, t). i \<le> Suc (tb_next s) \<and> tb_now s \<le> t) (tb_timers s)"
    using inv unfolding toast_inv_def by (auto elim!: list.pred_mono_strong)
  with after fresh inv show ?thesis by (simp add: toast_inv_def)
next
  case (ToastTick d)
  assume inv: "toast_inv s"
  let ?now = "tb_now s + d"
  let ?due = "sort_key snd (filter (\<lambda>(i, t). t \<le> ?now) (tb_timers s))"
  let ?left = "filter (\<lambda>(i, t). t > ?now) (tb_timers s)"
  let ?s1 = "s\<lparr>tb_now := ?now, tb_timers := ?left\<rparr>"
  have step: "toast_step s e = fold (\<lambda>(i, t). expire_toast i) ?due ?s1"
    by (simp only: ToastTick toast_step.simps Let_def)
  have after: "tb_toasts (toast_step s e) = filter (\<lambda>t. te_id t \<notin> fst ` set ?due) (tb_toasts s)"
    "tb_next (toast_step s e) = tb_next s" "tb_timers (toast_step s e) = ?left"
    "tb_now (toast_step s e) = ?now" "seen_ok (toast_step s e)"
    using expire_all [of ?due ?s1] inv unfolding step Let_def by (simp_all add: toast_inv_def)
  have d: "distinct (map fst (tb_timers s))" using inv by (simp add: toast_inv_def)
  have left: "fst ` set ?left = fst ` set (tb_timers s) - fst ` set ?due"
    using d by (force simp: distinct_map inj_on_def)
  have same: "te_id ` set (tb_toasts s) = fst ` set (tb_timers s)" using inv by (simp add: toast_inv_def)
  have "te_id ` set (tb_toasts (toast_step s e)) = te_id ` set (tb_toasts s) - fst ` set ?due"
    unfolding after by auto
  then have "te_id ` set (tb_toasts (toast_step s e)) = fst ` set ?left" unfolding same left .
  moreover have "distinct (map fst ?left)" using d by (rule distinct_map_filter)
  moreover have "list_all (\<lambda>(i, t). i \<le> tb_next s \<and> ?now \<le> t) ?left"
    using inv by (auto simp: toast_inv_def list_all_iff)
  moreover have "distinct (map te_id (tb_toasts (toast_step s e)))"
    using inv unfolding after by (simp add: toast_inv_def distinct_map_filter)
  ultimately show ?thesis using after by (simp add: toast_inv_def)
qed (auto simp: toast_inv_def seen_ok_def list_all_iff delete_conv' map_of_filter_in split: option.splits)

interpretation toasts: event_machine toast_step toast_inv
  by unfold_locales (rule toast_inv_step)

lemma toast_inv_init: "toast_inv toast_init"
  by (simp add: toast_inv_def toast_init_def seen_ok_def)

lemma toast_reachable: "toast_inv (foldl toast_step toast_init es)"
  by (rule toasts.inv_run [OF toast_inv_init])

text \<open>The toast \<open>i\<close> is due at \<open>t\<close>: either its timer is pending or its time has come.\<close>

definition toast_life :: "nat \<Rightarrow> nat \<Rightarrow> toast_bus \<Rightarrow> bool" where
  "toast_life i due s =
     (toast_inv s \<and> i \<le> tb_next s \<and>
      ((i, due) \<in> set (tb_timers s) \<or> i \<notin> fst ` set (tb_timers s) \<and> due \<le> tb_now s))"

lemma tick_fields:
  "tb_next (toast_step s (ToastTick d)) = tb_next s" "tb_now (toast_step s (ToastTick d)) = tb_now s + d"
  "tb_timers (toast_step s (ToastTick d)) = filter (\<lambda>(i, t). t > tb_now s + d) (tb_timers s)"
proof -
  let ?due = "sort_key snd (filter (\<lambda>(i, t). t \<le> tb_now s + d) (tb_timers s))"
  let ?s1 = "s\<lparr>tb_now := tb_now s + d, tb_timers := filter (\<lambda>(i, t). t > tb_now s + d) (tb_timers s)\<rparr>"
  have "toast_step s (ToastTick d) = fold (\<lambda>(i, t). expire_toast i) ?due ?s1"
    by (simp only: toast_step.simps Let_def)
  then show "tb_next (toast_step s (ToastTick d)) = tb_next s"
    "tb_now (toast_step s (ToastTick d)) = tb_now s + d"
    "tb_timers (toast_step s (ToastTick d)) = filter (\<lambda>(i, t). t > tb_now s + d) (tb_timers s)"
    using expire_all [of ?due ?s1] unfolding Let_def by simp_all
qed

lemma toast_life_step: "toast_life i due s \<Longrightarrow> toast_life i due (toast_step s e)"
proof -
  assume life: "toast_life i due s"
  then have inv: "toast_inv (toast_step s e)" by (simp add: toast_life_def toast_inv_step)
  have d: "distinct (map fst (tb_timers s))" using life by (simp add: toast_life_def toast_inv_def)
  show ?thesis
  proof (cases e)
    case (ToastTick d')
    have "i \<notin> fst ` set (filter (\<lambda>(i, t). t > now) ts)"
      if "(i, due) \<in> set ts" "distinct (map fst ts)" "due \<le> now" for now and ts :: "(nat \<times> nat) list"
      using that by (auto dest: eq_key_imp_eq_value)
    moreover have "i \<notin> fst ` set (filter P ts)" if "i \<notin> fst ` set ts" for P and ts :: "(nat \<times> nat) list"
      using that by auto
    ultimately show ?thesis
      using life inv d unfolding ToastTick toast_life_def tick_fields
      by (cases "due \<le> tb_now s + d'") auto
  next
    case (ShowToast m t d')
    then show ?thesis
      using life inv by (auto simp: toast_life_def show_toast_def Let_def)
  qed (use life inv in \<open>auto simp: toast_life_def\<close>)
qed

interpretation toast_lifetime: event_machine toast_step "toast_life i due" for i due
  by unfold_locales (rule toast_life_step)

text \<open>
  Every toast is shown until its own time and no longer: at any later moment it is on the screen
  only if its time has not passed, and gone only if it has. No two toasts share an identity, and
  every listener that was called since it subscribed has the current list.
\<close>

theorem toasts_live_their_time:
  "let s = foldl toast_step toast_init es;
       s' = foldl toast_step (toast_step s (ShowToast m t d)) es';
       due = tb_now s + d
   in (if tb_next s + 1 \<in> te_id ` set (tb_toasts s') then tb_now s' \<le> due else due \<le> tb_now s') \<and>
      distinct (map te_id (tb_toasts s')) \<and> seen_ok s'"
proof -
  define s where "s = foldl toast_step toast_init es"
  define s' where "s' = foldl toast_step (toast_step s (ShowToast m t d)) es'"
  have "toast_inv s" unfolding s_def by (rule toast_reachable)
  then have "toast_inv (toast_step s (ShowToast m t d))" by (rule toast_inv_step)
  then have "toast_life (tb_next s + 1) (tb_now s + d) (toast_step s (ShowToast m t d))"
    by (simp add: toast_life_def show_toast_def Let_def)
  then have life: "toast_life (tb_next s + 1) (tb_now s + d) s'"
    unfolding s'_def by (rule toast_lifetime.inv_run)
  then have "toast_inv s'" by (simp add: toast_life_def)
  then have same: "te_id ` set (tb_toasts s') = fst ` set (tb_timers s')"
    and pending: "list_all (\<lambda>(i, t). i \<le> tb_next s' \<and> tb_now s' \<le> t) (tb_timers s')"
    and rest: "distinct (map te_id (tb_toasts s'))" "seen_ok s'"
    by (simp_all add: toast_inv_def)
  have "if tb_next s + 1 \<in> te_id ` set (tb_toasts s') then tb_now s' \<le> tb_now s + d else tb_now s + d \<le> tb_now s'"
  proof (cases "(tb_next s + 1, tb_now s + d) \<in> set (tb_timers s')")
    case True
    then have "tb_next s + 1 \<in> fst ` set (tb_timers s')" by force
    then show ?thesis using True pending unfolding same by (auto simp: list_all_iff)
  next
    case False
    then show ?thesis using life unfolding same by (simp add: toast_life_def)
  qed
  with rest show ?thesis unfolding Let_def s_def s'_def by simp
qed

section \<open>What the descriptions say\<close>

definition plain_word :: "string \<Rightarrow> bool" where
  "plain_word w = (w \<noteq> [] \<and> list_all (\<lambda>c. \<not> is_ws c) w)"

lemma split_ws_join:
  "ws \<noteq> [] \<Longrightarrow> list_all plain_word ws \<Longrightarrow> split_ws (join_str '' '' ws) = ws"
proof (induction "'' ''" ws rule: join_str.induct)
  case (2 w)
  then have "takeWhile (\<lambda>c. \<not> is_ws c) w = w" "dropWhile (\<lambda>c. \<not> is_ws c) w = []"
    by (simp_all add: plain_word_def list_all_iff)
  then show ?case by (simp add: split_ws.simps [of w])
next
  case (3 w v vs)
  let ?r = "join_str '' '' (v # vs)"
  have w: "\<forall>c \<in> set w. \<not> is_ws c" "plain_word v" using 3 by (auto simp: plain_word_def list_all_iff)
  have "is_ws (CHR '' '')" by (simp add: is_ws_def)
  then have parts: "takeWhile (\<lambda>c. \<not> is_ws c) (w @ '' '' @ ?r) = w"
    "dropWhile (\<lambda>c. \<not> is_ws c) (w @ '' '' @ ?r) = '' '' @ ?r"
    using w(1) by (simp_all add: takeWhile_append2 dropWhile_append2)
  have "dropWhile is_ws ('' '' @ ?r) = ?r"
  proof -
    obtain c v' where "v = c # v'" "\<not> is_ws c" using w(2) by (cases v) (auto simp: plain_word_def)
    then show ?thesis by (cases vs) (simp_all add: is_ws_def)
  qed
  moreover have "split_ws ?r = v # vs" using 3 by simp
  moreover have "split_ws (w @ '' '' @ ?r) = w # split_ws (dropWhile is_ws ('' '' @ ?r))"
    by (subst split_ws.simps) (simp only: parts Let_def, simp)
  ultimately show ?case by simp
qed simp

lemma describe_plain:
  assumes "list_all plain_word [minute, hour, mday, month, dow]" "hd minute \<noteq> CHR ''@''"
  shows "describe_cron (join_str '' '' [minute, hour, mday, month, dow]) =
     (case describe_fields minute hour mday month dow of Some t \<Rightarrow> t
      | None \<Rightarrow> join_str '' '' [minute, hour, mday, month, dow])"
proof -
  let ?s = "join_str '' '' [minute, hour, mday, month, dow]"
  obtain c m where m: "minute = c # m" "\<not> is_ws c" "c \<noteq> CHR ''@''"
    using assms by (cases minute) (auto simp: plain_word_def)
  have "last ?s = last dow" using assms by (simp add: plain_word_def)
  then have "\<not> is_ws (last ?s)" using assms by (auto simp: plain_word_def list_all_iff)
  then have "trim_str ?s = ?s" using m by (intro trim_id) simp_all
  moreover have "map_of cron_aliases ?s = None" using m by (simp add: cron_aliases_def)
  moreover have "split_ws ?s = [minute, hour, mday, month, dow]"
    using assms(1) by (intro split_ws_join) simp_all
  moreover have "?s \<noteq> []" using m by simp
  ultimately show ?thesis by (simp add: describe_cron_def Let_def del: join_str.simps)
qed

text \<open>
  The tooltip of a minute step is true only for a divisor of an hour: the schedule
  \<open>*/n * * * *\<close> is described as every n minutes, and it fires every n minutes exactly when n
  divides 60.
\<close>

theorem minute_step_truthful_iff:
  assumes "n > 0"
  shows "describe_cron (join_str '' '' [''*/'' @ show_nat n, ''*'', ''*'', ''*'', ''*'']) =
       ''every '' @ show_nat n @ '' minute'' @ plural (int n) \<and>
     (every_minutes (minute_step_fires n) n \<longleftrightarrow> n dvd 60)"
proof
  have "step_of (''*/'' @ show_nat n) = Some (int n)"
    by (simp add: step_of_def show_nat_all_digits decimal_show_nat)
  then have "describe_fields (''*/'' @ show_nat n) ''*'' ''*'' ''*'' ''*'' =
      Some (''every '' @ show_nat n @ '' minute'' @ plural (int n))"
    using assms by (simp add: describe_fields_def Let_def show_int_def)
  moreover have "list_all plain_word [''*/'' @ show_nat n, ''*'', ''*'', ''*'', ''*'']"
    using show_nat_all_digits [of n] digit_not_special
    by (auto simp: plain_word_def list_all_iff all_digits_def is_ws_def)
  ultimately show "describe_cron (join_str '' '' [''*/'' @ show_nat n, ''*'', ''*'', ''*'', ''*'']) =
       ''every '' @ show_nat n @ '' minute'' @ plural (int n)"
    by (subst describe_plain) simp_all
  show "every_minutes (minute_step_fires n) n \<longleftrightarrow> n dvd 60" using assms by (rule even_steps_iff)
qed

lemma minute_step_truthful_iff_witness:
  "describe_cron ''*/45 * * * *'' = ''every 45 minutes'' \<and> \<not> every_minutes (minute_step_fires 45) 45"
proof -
  have "show_nat 45 = ''45''" by code_simp
  then show ?thesis using minute_step_truthful_iff [of 45] by (simp add: plural_def)
qed

text \<open>A time that no clock shows is described as if it were one.\<close>

theorem impossible_time_is_described: "describe_cron ''99 99 * * *'' = ''daily at 99:99''"
  by code_simp

end
