(* ===== verification/LogView.thy ===== *)
theory LogView
  imports LogStream Display
begin

text \<open>
  Model of the log views, \<open>web/src/components/logs\<close>: the state of a view and its URL
  (\<open>logsState.ts\<close>), the pages and tabs that hold it, the rows that \<open>LogStream.tsx\<close> shows, the
  highlighted text and the copied context of a line, the legend of \<open>PodFilterStrip.tsx\<close> and the
  colours of \<open>podColor.ts\<close>. The parser and the printer of JSON and the comparison of the locale
  are parameters; scrolling and measuring are not modelled.
\<close>

section \<open>State of a view and its URL\<close>

record logs_view =
  lv_container :: string
  lv_tail :: int
  lv_since :: "int option"
  lv_previous :: bool
  lv_follow :: bool
  lv_timestamps :: bool
  lv_wrap :: bool
  lv_search :: string
  lv_pods :: "string list"

definition tail_default :: int where
  "tail_default = 1000"

definition default_logs_view :: logs_view where
  "default_logs_view =
     \<lparr>lv_container = [], lv_tail = tail_default, lv_since = None, lv_previous = False,
      lv_follow = True, lv_timestamps = True, lv_wrap = True, lv_search = [], lv_pods = []\<rparr>"

definition set_if :: "bool \<Rightarrow> string \<Rightarrow> string \<Rightarrow> params \<Rightarrow> params" where
  "set_if b k v ps = (if b then param_set k v ps else ps)"

definition state_to_params :: "logs_view \<Rightarrow> params" where
  "state_to_params s =
     (let p1 = set_if (lv_container s \<noteq> []) ''container'' (lv_container s) [];
          p2 = set_if (lv_tail s \<noteq> tail_default) ''tail'' (show_int (lv_tail s)) p1;
          p3 = (case lv_since s of None \<Rightarrow> p2 | Some n \<Rightarrow> param_set ''since'' (show_int n) p2);
          p4 = set_if (lv_previous s) ''previous'' ''true'' p3;
          p5 = set_if (\<not> lv_follow s) ''follow'' ''false'' p4;
          p6 = set_if (\<not> lv_timestamps s) ''ts'' ''false'' p5;
          p7 = set_if (\<not> lv_wrap s) ''wrap'' ''false'' p6;
          p8 = set_if (lv_search s \<noteq> []) ''q'' (lv_search s) p7
      in set_if (lv_pods s \<noteq> []) ''pf'' (join_str '','' (lv_pods s)) p8)"

text \<open>\<open>parseInt(s, 10)\<close>; None is NaN.\<close>

definition parse_int :: "string \<Rightarrow> int option" where
  "parse_int s =
     (let t = trim_start s;
          neg = starts_with ''-'' t;
          u = (if neg \<or> starts_with ''+'' t then tl t else t);
          ds = takeWhile is_digit u
      in if ds = [] then None
         else Some (if neg then - decimal_value ds else decimal_value ds))"

definition param_get :: "string \<Rightarrow> params \<Rightarrow> string option" where
  "param_get k ps = map_of ps k"

definition positive_or :: "'a \<Rightarrow> (int \<Rightarrow> 'a) \<Rightarrow> int option \<Rightarrow> 'a" where
  "positive_or d f v = (case v of Some n \<Rightarrow> if 0 < n then f n else d | None \<Rightarrow> d)"

definition params_to_state :: "params \<Rightarrow> logs_view" where
  "params_to_state ps =
     \<lparr>lv_container = default_str (param_get ''container'' ps),
      lv_tail = positive_or tail_default (\<lambda>n. n) (parse_int (default_str (param_get ''tail'' ps))),
      lv_since = positive_or None Some (parse_int (default_str (param_get ''since'' ps))),
      lv_previous = (param_get ''previous'' ps = Some ''true''),
      lv_follow = (param_get ''follow'' ps \<noteq> Some ''false''),
      lv_timestamps = (param_get ''ts'' ps \<noteq> Some ''false''),
      lv_wrap = (param_get ''wrap'' ps \<noteq> Some ''false''),
      lv_search = default_str (param_get ''q'' ps),
      lv_pods = filter (\<lambda>p. p \<noteq> []) (split_on (CHR '','') (default_str (param_get ''pf'' ps)))\<rparr>"

definition pod_logs_path :: "string \<Rightarrow> string \<Rightarrow> string \<Rightarrow> logs_view \<Rightarrow> string" where
  "pod_logs_path cluster ns name s =
     url_path [''clusters'', encode_uri_component cluster, ''pods'', encode_uri_component ns,
               encode_uri_component name, ''logs''] @ query_suffix (state_to_params s)"

datatype workload_kind = WkDeployment | WkStatefulSet | WkDaemonSet | WkJob

fun workload_segment :: "workload_kind \<Rightarrow> string" where
  "workload_segment WkDeployment = ''deployments''"
| "workload_segment WkStatefulSet = ''statefulsets''"
| "workload_segment WkDaemonSet = ''daemonsets''"
| "workload_segment WkJob = ''jobs''"

definition workload_logs_path :: "workload_kind \<Rightarrow> string \<Rightarrow> string \<Rightarrow> string \<Rightarrow> logs_view \<Rightarrow> string" where
  "workload_logs_path kind cluster ns name s =
     url_path [''clusters'', encode_uri_component cluster, workload_segment kind,
               encode_uri_component ns, encode_uri_component name, ''logs'']
       @ query_suffix (state_to_params s)"

text \<open>
  The parser of a query string: empty pieces are dropped, a piece splits at its first equals
  sign, a plus is a space and a percent sign before two hexadecimal digits is a byte.
\<close>

definition hex_pair :: "char \<Rightarrow> char \<Rightarrow> char option" where
  "hex_pair a b =
     (case (AddonVersions.hex_value a, AddonVersions.hex_value b) of
        (Some x, Some y) \<Rightarrow> Some (char_of (nat (16 * x + y)))
      | _ \<Rightarrow> None)"

definition plus_space :: "char \<Rightarrow> char" where
  "plus_space c = (if c = CHR ''+'' then CHR '' '' else c)"

fun form_decode :: "string \<Rightarrow> string" where
  "form_decode (c # a # b # rest) =
     (case (if c = CHR ''%'' then hex_pair a b else None) of
        Some d \<Rightarrow> d # form_decode rest
      | None \<Rightarrow> plus_space c # form_decode (a # b # rest))"
| "form_decode (c # rest) = plus_space c # form_decode rest"
| "form_decode [] = []"

definition parse_pair :: "string \<Rightarrow> string \<times> string" where
  "parse_pair p =
     (let k = takeWhile (\<lambda>c. c \<noteq> CHR ''='') p
      in (form_decode k, form_decode (drop (Suc (length k)) p)))"

definition parse_query :: "string \<Rightarrow> params" where
  "parse_query q = map parse_pair (filter (\<lambda>p. p \<noteq> []) (split_on (CHR ''&'') q))"

text \<open>The query string of a URL.\<close>

definition url_query :: "string \<Rightarrow> string" where
  "url_query u = drop 1 (dropWhile (\<lambda>c. c \<noteq> CHR ''?'') u)"

text \<open>
  The changes that the views make, one field each. The tabs keep the view as local state, the
  pages keep it in the query string.
\<close>

datatype view_change =
    SetContainer string
  | SetTail int
  | SetSince "int option"
  | SetPrevious bool
  | SetFollow bool
  | SetTimestamps bool
  | SetWrap bool
  | SetSearch string
  | SetPodFilter "string list"

fun tab_change :: "logs_view \<Rightarrow> view_change \<Rightarrow> logs_view" where
  "tab_change s (SetContainer c) = s\<lparr>lv_container := c\<rparr>"
| "tab_change s (SetTail n) = s\<lparr>lv_tail := n\<rparr>"
| "tab_change s (SetSince v) = s\<lparr>lv_since := v\<rparr>"
| "tab_change s (SetPrevious b) = s\<lparr>lv_previous := b\<rparr>"
| "tab_change s (SetFollow b) = s\<lparr>lv_follow := b\<rparr>"
| "tab_change s (SetTimestamps b) = s\<lparr>lv_timestamps := b\<rparr>"
| "tab_change s (SetWrap b) = s\<lparr>lv_wrap := b\<rparr>"
| "tab_change s (SetSearch q) = s\<lparr>lv_search := q\<rparr>"
| "tab_change s (SetPodFilter ps) = s\<lparr>lv_pods := ps\<rparr>"

definition page_change :: "params \<Rightarrow> view_change \<Rightarrow> params" where
  "page_change ps ch = state_to_params (tab_change (params_to_state ps) ch)"

section \<open>The views\<close>

definition first_or :: "string list \<Rightarrow> string \<Rightarrow> string" where
  "first_or xs d = (case xs of x # _ \<Rightarrow> if x \<noteq> [] then x else d | [] \<Rightarrow> d)"

definition resolve_container :: "logs_view \<Rightarrow> string list \<Rightarrow> string list \<Rightarrow> string" where
  "resolve_container s containers inits =
     (if lv_container s \<noteq> [] then lv_container s else first_or containers (first_or inits []))"

text \<open>The effect that writes the resolved container into the state.\<close>

definition container_effect :: "logs_view \<Rightarrow> string \<Rightarrow> view_change option" where
  "container_effect s resolved =
     (if lv_container s = [] \<and> resolved \<noteq> [] then Some (SetContainer resolved) else None)"

definition view_config :: "log_source \<Rightarrow> string \<Rightarrow> logs_view \<Rightarrow> log_config" where
  "view_config src resolved s =
     \<lparr>lc_source = src, lc_container = Some resolved, lc_tail = Some (lv_tail s),
      lc_since = lv_since s, lc_previous = lv_previous s, lc_follow = Some (lv_follow s)\<rparr>"

definition toggle_pod :: "string \<Rightarrow> logs_view \<Rightarrow> view_change" where
  "toggle_pod pod s =
     SetPodFilter (if pod \<in> set (lv_pods s) then filter (\<lambda>p. p \<noteq> pod) (lv_pods s) else lv_pods s @ [pod])"

section \<open>Rows\<close>

datatype log_row = RowLine log_line bool nat | RowDivider string | RowNoMatches

definition search_context :: nat where
  "search_context = 5"

definition filter_pods :: "string list \<Rightarrow> log_line list \<Rightarrow> log_line list" where
  "filter_pods pods ls =
     (if pods = [] then ls
      else filter (\<lambda>l. case ll_pod l of None \<Rightarrow> False | Some p \<Rightarrow> p \<in> set pods) ls)"

definition match_indices :: "log_line list \<Rightarrow> string \<Rightarrow> nat list" where
  "match_indices ls q = filter (\<lambda>i. str_contains (to_lower (ll_text (ls ! i))) q) [0..<length ls]"

definition include_set :: "nat \<Rightarrow> nat list \<Rightarrow> nat set" where
  "include_set n ms = (\<Union>m \<in> set ms. set [m - search_context..<Suc (min (n - 1) (m + search_context))])"

fun row_loop :: "log_line list \<Rightarrow> nat list \<Rightarrow> int \<Rightarrow> nat list \<Rightarrow> log_row list" where
  "row_loop ls ms prev [] = []"
| "row_loop ls ms prev (i # rest) =
     (if prev \<noteq> -2 \<and> int i \<noteq> prev + 1
      then [RowDivider (''d-'' @ show_int prev @ ''-'' @ show_nat i)] else [])
     @ RowLine (ls ! i) (i \<in> set ms) i # row_loop ls ms (int i) rest"

definition log_rows :: "log_line list \<Rightarrow> string \<Rightarrow> log_row list" where
  "log_rows ls search =
     (if search = [] then map (\<lambda>(l, i). RowLine l False i) (zip ls [0..<length ls])
      else (let ms = match_indices ls (to_lower search)
            in if ms = [] then [RowNoMatches]
               else row_loop ls ms (-2) (sorted_list_of_set (include_set (length ls) ms))))"

definition estimate_size :: "log_row list \<Rightarrow> bool \<Rightarrow> nat \<Rightarrow> nat" where
  "estimate_size rows wrap i =
     (if i < length rows \<and> (case rows ! i of RowDivider _ \<Rightarrow> True | _ \<Rightarrow> False) then 14
      else if wrap then 66 else 22)"

definition copy_line :: "log_line \<Rightarrow> string" where
  "copy_line l =
     (let head = (case ll_pod l of Some p \<Rightarrow> if p \<noteq> [] then ''['' @ p @ ''] '' else [] | None \<Rightarrow> [])
      in if ll_ts l \<noteq> [] then ll_ts l @ '' '' @ head @ ll_text l else head @ ll_text l)"

definition copy_text :: "log_line list \<Rightarrow> nat \<Rightarrow> string" where
  "copy_text ls i =
     (let lo = i - 5; hi = min (length ls - 1) (i + 5)
      in join_str [newline] (map copy_line (take (hi + 1 - lo) (drop lo ls))))"

definition toggle_expand :: "nat \<Rightarrow> nat set \<Rightarrow> nat set" where
  "toggle_expand i e = (if i \<in> e then e - {i} else insert i e)"

section \<open>One line\<close>

text \<open>A regular expression of the form \<open>(?:^|before)(words)(?:after|$)\<close>.\<close>

definition word_hit :: "(char \<Rightarrow> bool) \<Rightarrow> string list \<Rightarrow> (char \<Rightarrow> bool) \<Rightarrow> string \<Rightarrow> bool" where
  "word_hit bef ws aft s =
     list_ex (\<lambda>i. (i = 0 \<or> bef (s ! (i - 1))) \<and>
       list_ex (\<lambda>w. prefix w (drop i s) \<and> (length s = i + length w \<or> aft (s ! (i + length w)))) ws)
       [0..<length s]"

definition level_before :: "char \<Rightarrow> bool" where
  "level_before c = (is_ws c \<or> c = CHR ''['' \<or> c = CHR ''('')"

definition level_after :: "char \<Rightarrow> bool" where
  "level_after c = (is_ws c \<or> c = CHR '']'' \<or> c = CHR '')'' \<or> c = CHR '':'')"

definition quote_char :: char where
  "quote_char = CHR 0x22"

text \<open>The case-insensitive expressions on a JSON level, on the lowered text.\<close>

definition json_level_hit :: "string list \<Rightarrow> string \<Rightarrow> bool" where
  "json_level_hit ws s =
     (let key = [quote_char] @ ''level'' @ [quote_char]
      in list_ex (\<lambda>r. prefix key r \<and>
           (let a = dropWhile is_ws (drop (length key) r)
            in prefix '':'' a \<and>
               (let b = dropWhile is_ws (tl a)
                in list_ex (\<lambda>w. prefix ([quote_char] @ w @ [quote_char]) b) ws)))
         (suffixes (to_lower s)))"

datatype log_level = LevelHigh | LevelMid

definition infer_level :: "string \<Rightarrow> log_level option" where
  "infer_level t =
     (let head = take 120 t
      in if word_hit level_before [''ERROR'', ''FATAL'', ''PANIC'', ''CRITICAL''] level_after head
            \<or> json_level_hit [''error'', ''fatal'', ''panic'', ''critical''] head then Some LevelHigh
         else if word_hit level_before [''WARNING'', ''WARN''] level_after head
            \<or> json_level_hit [''warning'', ''warn''] head then Some LevelMid
         else None)"

text \<open>The JSON object inside a line; \<open>parse\<close> is None when \<open>JSON.parse\<close> throws.\<close>

definition find_json_object ::
  "(string \<Rightarrow> jsval option) \<Rightarrow> (jsval \<Rightarrow> string) \<Rightarrow> string \<Rightarrow> string option" where
  "find_json_object parse stringify t =
     (case (index_of (CHR ''{'') t, index_of (CHR ''}'') (rev t)) of
        (Some start, Some back) \<Rightarrow>
          (let fin = length t - 1 - back
           in if fin \<le> start then None
              else (case parse (take (fin + 1 - start) (drop start t)) of
                      Some v \<Rightarrow> if is_plain_object v \<or> is_array v then Some (stringify v) else None
                    | None \<Rightarrow> None))
      | _ \<Rightarrow> None)"

definition short_timestamp :: "string \<Rightarrow> string" where
  "short_timestamp t = (case index_of (CHR ''T'') t of None \<Rightarrow> t | Some i \<Rightarrow> take 8 (drop (i + 1) t))"

text \<open>\<open>s.indexOf(q, i)\<close>.\<close>

definition index_from :: "string \<Rightarrow> string \<Rightarrow> nat \<Rightarrow> nat option" where
  "index_from q s i = find (\<lambda>j. prefix q (drop j s)) [i..<Suc (length s)]"

partial_function (option) highlight_loop ::
  "string \<Rightarrow> string \<Rightarrow> string \<Rightarrow> nat \<Rightarrow> (string \<times> bool) list option" where
  "highlight_loop t lc q i =
     (if length t \<le> i then Some []
      else (case index_from q lc i of
              None \<Rightarrow> Some [(drop i t, False)]
            | Some f \<Rightarrow>
                Option.bind (highlight_loop t lc q (f + length q))
                  (\<lambda>rest. Some ((if i < f then [(take (f - i) (drop i t), False)] else [])
                               @ (take (length q) (drop f t), True) # rest))))"

definition highlighted :: "string \<Rightarrow> string \<Rightarrow> (string \<times> bool) list option" where
  "highlighted t query =
     (if query = [] then Some [(t, False)] else highlight_loop t (to_lower t) (to_lower query) 0)"

section \<open>Pod legend and colours\<close>

definition visible_limit :: nat where
  "visible_limit = 30"

definition unscheduled :: string where
  "unscheduled = ''(unscheduled)''"

text \<open>A pod is its name and its node.\<close>

definition pill_labels :: "string \<times> string \<Rightarrow> workload_kind \<Rightarrow> string \<times> string" where
  "pill_labels p kind =
     (let (name, node) = p
      in if kind = WkDaemonSet then (if node \<noteq> [] then node else unscheduled, ''pod: '' @ name)
         else (name, if node \<noteq> [] then ''node: '' @ node else ''node: '' @ unscheduled))"

definition compare_pods ::
  "(string \<Rightarrow> string \<Rightarrow> int) \<Rightarrow> workload_kind \<Rightarrow> string \<times> string \<Rightarrow> string \<times> string \<Rightarrow> int" where
  "compare_pods lc kind a b =
     (if kind = WkDaemonSet
      then (let d = lc (snd a) (snd b) in if d \<noteq> 0 then d else lc (fst a) (fst b))
      else lc (fst a) (fst b))"

definition legend ::
  "(string \<Rightarrow> string \<Rightarrow> int) \<Rightarrow> workload_kind \<Rightarrow> (string \<times> string) list
     \<Rightarrow> (string \<times> string) list \<times> (string \<times> string) list" where
  "legend lc kind pods =
     (let s = sort_by (compare_pods lc kind) pods in (take visible_limit s, drop visible_limit s))"

definition pod_dimmed :: "string list \<Rightarrow> string \<Rightarrow> bool" where
  "pod_dimmed selected pod = (selected \<noteq> [] \<and> pod \<notin> set selected)"

text \<open>\<open>x | 0\<close>: the signed 32-bit value of an integer.\<close>

definition to_int32 :: "int \<Rightarrow> int" where
  "to_int32 x = (x + 2 ^ 31) mod 2 ^ 32 - 2 ^ 31"

definition hash_sum :: "int \<Rightarrow> char \<Rightarrow> int" where
  "hash_sum h c = to_int32 (h * 2 ^ 5) - h + int (of_char c)"

definition pod_hash :: "string \<Rightarrow> int" where
  "pod_hash name = foldl (\<lambda>h c. to_int32 (hash_sum h c)) 0 name"

definition pod_hue :: "string \<Rightarrow> int" where
  "pod_hue name = 100 + \<bar>pod_hash name\<bar> mod 240"

definition pod_color :: "string \<Rightarrow> string" where
  "pod_color name = ''hsl('' @ show_int (pod_hue name) @ '' 55% 50%)''"

section \<open>Query strings read back\<close>

lemma hex_pair_percent:
  assumes "percent c = [p, a, b]" shows "p = CHR ''%'' \<and> hex_pair a b = Some c"
proof -
  let ?n = "of_char c :: nat"
  have n: "?n div 16 < 16" using of_char_less [of c] by linarith
  have hv: "AddonVersions.hex_value (hex_digit m) = Some (int m)" if "m < 16" for m
    using that by (auto simp: AddonVersions.hex_value_def hex_digit_def is_digit_def digit_value_def Let_def)
  have "16 * (?n div 16) + ?n mod 16 = ?n" by simp
  then have "16 * int (?n div 16) + int (?n mod 16) = int ?n"
    by (metis of_nat_add of_nat_mult of_nat_numeral)
  then have "nat (16 * int (?n div 16) + int (?n mod 16)) = ?n" by (simp only: nat_int)
  then show ?thesis using assms n by (auto simp: percent_def hex_pair_def hv Let_def)
qed

lemma form_decode_percent: "form_decode (percent c @ rest) = c # form_decode rest"
proof -
  obtain p a b where pc: "percent c = [p, a, b]" by (simp add: percent_def Let_def)
  with hex_pair_percent [OF pc] show ?thesis by simp
qed

lemma form_decode_plain: "c \<noteq> CHR ''%'' \<Longrightarrow> form_decode (c # rest) = plus_space c # form_decode rest"
  by (cases rest rule: form_decode.cases) auto

lemma form_decode_char: "form_decode (form_char c @ rest) = c # form_decode rest"
proof -
  have "form_plain c \<Longrightarrow> c \<noteq> CHR ''%'' \<and> c \<noteq> CHR ''+''" by (auto simp: form_plain_def Let_def)
  then show ?thesis
    by (auto simp: form_char_def form_decode_percent form_decode_plain plus_space_def)
qed

lemma form_decode_encode [simp]: "form_decode (form_encode s) = s"
  by (induction s) (simp_all add: form_encode_def form_decode_char)

lemma hex_digit_not: "n < 16 \<Longrightarrow> hex_digit n \<noteq> CHR ''&'' \<and> hex_digit n \<noteq> CHR ''=''"
  by (auto simp: hex_digit_def dest: arg_cong [where f = "of_char :: char \<Rightarrow> nat"])

lemma percent_no_sep: "CHR ''&'' \<notin> set (percent c)" "CHR ''='' \<notin> set (percent c)"
proof -
  have "(of_char c :: nat) div 16 < 16" using of_char_less [of c] by linarith
  then show "CHR ''&'' \<notin> set (percent c)" "CHR ''='' \<notin> set (percent c)"
    using hex_digit_not [of "of_char c div 16"] hex_digit_not [of "of_char c mod 16"]
    by (auto simp: percent_def Let_def)
qed

lemma form_char_no_sep: "CHR ''&'' \<notin> set (form_char c)" "CHR ''='' \<notin> set (form_char c)"
  using percent_no_sep [of c] by (auto simp: form_char_def form_plain_def Let_def)

lemma form_encode_no_sep: "CHR ''&'' \<notin> set (form_encode s)" "CHR ''='' \<notin> set (form_encode s)"
  using form_char_no_sep by (auto simp: form_encode_def)

lemma parse_pair_encoded: "parse_pair (form_encode k @ ''='' @ form_encode v) = (k, v)"
proof -
  have "takeWhile (\<lambda>c. c \<noteq> CHR ''='') (form_encode k @ ''='' @ form_encode v) = form_encode k"
    using form_encode_no_sep(2) [of k] by (subst takeWhile_append2) auto
  then show ?thesis by (simp add: parse_pair_def)
qed

lemma parse_query_printed: "parse_query (params_to_string ps) = ps"
proof (cases "ps = []")
  case True
  then show ?thesis by (simp add: parse_query_def params_to_string_def)
next
  case False
  let ?pieces = "map (\<lambda>(k, v). form_encode k @ ''='' @ form_encode v) ps"
  have "split_on (CHR ''&'') (params_to_string ps) = ?pieces"
    unfolding params_to_string_def using False form_encode_no_sep(1) by (intro split_join) auto
  moreover have "filter (\<lambda>p. p \<noteq> []) ?pieces = ?pieces" by (auto simp: filter_id_conv)
  moreover have "map parse_pair ?pieces = ps" using parse_pair_encoded by (induction ps) auto
  ultimately show ?thesis by (simp add: parse_query_def)
qed

lemma parse_query_suffix: "parse_query (drop 1 (query_suffix ps)) = ps"
  using parse_query_printed [of ps] by (auto simp: query_suffix_def Let_def)

lemma url_query_path:
  assumes "\<forall>s \<in> set segs. plain_segment s"
  shows "url_query (url_path segs @ query_suffix ps) = drop 1 (query_suffix ps)"
proof -
  have "dropWhile (\<lambda>c. c \<noteq> CHR ''?'') (url_path segs @ query_suffix ps) = query_suffix ps"
    using takeWhile_path [OF assms] by (subst dropWhile_append2) (auto simp: query_suffix_def Let_def)
  then show ?thesis by (simp add: url_query_def)
qed

section \<open>The state read back from its URL\<close>

lemma parse_int_show: "0 < n \<Longrightarrow> parse_int (show_int n) = Some n"
proof -
  assume n: "0 < n"
  have ds: "\<forall>c \<in> set (show_nat (nat n)). is_digit c" "show_nat (nat n) \<noteq> []"
    using show_nat_all_digits [of "nat n"] by (auto simp: all_digits_def list_all_iff)
  then obtain c r where cr: "show_nat (nat n) = c # r" by (cases "show_nat (nat n)") auto
  then have "is_digit c" using ds by simp
  then have c: "\<not> is_ws c" "c \<noteq> CHR ''-''" "c \<noteq> CHR ''+''" using digit_not_special [of c] by auto
  have "takeWhile is_digit (c # r) = c # r" using ds cr by (auto simp: takeWhile_eq_all_conv)
  then show ?thesis
    using n c cr decimal_show_nat [of "nat n"] by (simp add: parse_int_def trim_start_def show_int_def)
qed

lemma param_get_set_if [simp]:
  "param_get k (set_if b k' v ps) = (if b \<and> k = k' then Some v else param_get k ps)"
  by (simp add: set_if_def param_get_def param_set_def update_conv')

lemma param_get_set [simp]: "param_get k (param_set k' v ps) = (if k = k' then Some v else param_get k ps)"
  by (simp add: param_get_def param_set_def update_conv')

lemma param_get_Nil [simp]: "param_get k [] = None"
  by (simp add: param_get_def)

definition view_ok :: "logs_view \<Rightarrow> bool" where
  "view_ok s \<longleftrightarrow> 0 < lv_tail s \<and> (case lv_since s of None \<Rightarrow> True | Some n \<Rightarrow> 0 < n) \<and>
     list_all (\<lambda>p. p \<noteq> [] \<and> CHR '','' \<notin> set p) (lv_pods s)"

lemma pods_read_back:
  "list_all (\<lambda>p. p \<noteq> [] \<and> CHR '','' \<notin> set p) ps \<Longrightarrow> ps \<noteq> [] \<Longrightarrow>
     filter (\<lambda>p. p \<noteq> []) (split_on (CHR '','') (join_str '','' ps)) = ps"
  by (subst split_join) (auto simp: list_all_iff filter_id_conv)

lemma parse_int_Nil [simp]: "parse_int [] = None"
  by (simp add: parse_int_def trim_start_def)

lemma params_of_state:
  fixes s defines "ps \<equiv> state_to_params s"
  shows "param_get ''container'' ps = (if lv_container s \<noteq> [] then Some (lv_container s) else None)"
    and "param_get ''tail'' ps = (if lv_tail s \<noteq> tail_default then Some (show_int (lv_tail s)) else None)"
    and "param_get ''since'' ps = map_option show_int (lv_since s)"
    and "param_get ''previous'' ps = (if lv_previous s then Some ''true'' else None)"
    and "param_get ''follow'' ps = (if lv_follow s then None else Some ''false'')"
    and "param_get ''ts'' ps = (if lv_timestamps s then None else Some ''false'')"
    and "param_get ''wrap'' ps = (if lv_wrap s then None else Some ''false'')"
    and "param_get ''q'' ps = (if lv_search s \<noteq> [] then Some (lv_search s) else None)"
    and "param_get ''pf'' ps = (if lv_pods s \<noteq> [] then Some (join_str '','' (lv_pods s)) else None)"
  by (simp_all add: ps_def state_to_params_def Let_def split: option.split)

lemma state_read_back: "view_ok s \<Longrightarrow> params_to_state (state_to_params s) = s"
  by (rule logs_view.equality; simp only: params_to_state_def params_of_state logs_view.simps)
     (auto simp: view_ok_def default_str_def positive_or_def parse_int_show pods_read_back
        split: option.splits)

lemma params_state_ok: "view_ok (params_to_state ps)"
  by (auto simp: view_ok_def params_to_state_def positive_or_def tail_default_def list_all_iff
        split: option.splits dest: split_on_pieces)

section \<open>Rows of a search\<close>

definition near_match :: "nat list \<Rightarrow> nat \<Rightarrow> bool" where
  "near_match ms i \<longleftrightarrow> list_ex (\<lambda>m. i \<le> m + search_context \<and> m \<le> i + search_context) ms"

lemma include_set_near:
  assumes "\<forall>m \<in> set ms. m < n" shows "include_set n ms = set (filter (near_match ms) [0..<n])"
proof -
  have "(m - search_context \<le> i \<and> i < Suc (min (n - 1) (m + search_context))) \<longleftrightarrow>
      i < n \<and> i \<le> m + search_context \<and> m \<le> i + search_context" if "m \<in> set ms" for i m
    using assms that by auto
  then show ?thesis
    by (auto simp: include_set_def near_match_def list_ex_iff simp del: upt_Suc)
qed

lemma sorted_include:
  "\<forall>m \<in> set ms. m < n \<Longrightarrow> sorted_list_of_set (include_set n ms) = filter (near_match ms) [0..<n]"
  by (subst include_set_near) (simp_all add: sorted_list_of_set.idem_if_sorted_distinct sorted_wrt_filter del: set_filter)

definition line_row :: "log_line list \<Rightarrow> nat list \<Rightarrow> nat \<Rightarrow> log_row" where
  "line_row ls ms i = RowLine (ls ! i) (i \<in> set ms) i"

definition next_rows :: "log_line list \<Rightarrow> nat list \<Rightarrow> nat \<Rightarrow> nat \<Rightarrow> log_row list" where
  "next_rows ls ms i j =
     (if j = Suc i then [line_row ls ms j]
      else [RowDivider (''d-'' @ show_nat i @ ''-'' @ show_nat j), line_row ls ms j])"

lemma row_loop_next:
  "row_loop ls ms (int p) xs = concat (map (\<lambda>(i, j). next_rows ls ms i j) (zip (p # xs) xs))"
  by (induction xs arbitrary: p) (auto simp: next_rows_def line_row_def show_int_def)

lemma row_loop_start:
  "xs \<noteq> [] \<Longrightarrow> row_loop ls ms (-2) xs =
     line_row ls ms (hd xs) # concat (map (\<lambda>(i, j). next_rows ls ms i j) (zip xs (tl xs)))"
  by (cases xs) (auto simp: row_loop_next line_row_def)

lemma match_less: "\<forall>m \<in> set (match_indices ls q). m < length ls"
  by (simp add: match_indices_def)

lemma match_near: "m \<in> set ms \<Longrightarrow> near_match ms m"
  by (auto simp: near_match_def list_ex_iff intro!: bexI [of _ m])

section \<open>Highlighted parts\<close>

lemma index_from_Some:
  assumes "index_from q s i = Some f"
  shows "i \<le> f" "prefix q (drop f s)" "\<forall>j. i \<le> j \<and> j < f \<longrightarrow> \<not> prefix q (drop j s)"
proof -
  obtain k where k: "k < length [i..<Suc (length s)]" "[i..<Suc (length s)] ! k = f"
    "prefix q (drop f s)" "\<forall>j < k. \<not> prefix q (drop ([i..<Suc (length s)] ! j) s)"
    using assms by (auto simp: index_from_def find_Some_iff simp del: upt_Suc)
  then have f: "f = i + k" by (simp del: upt_Suc)
  show "i \<le> f" "prefix q (drop f s)" using f k by auto
  show "\<forall>j. i \<le> j \<and> j < f \<longrightarrow> \<not> prefix q (drop j s)"
  proof (intro allI impI)
    fix j assume j: "i \<le> j \<and> j < f"
    then have "j - i < k" "[i..<Suc (length s)] ! (j - i) = j"
      using f k(1) by (auto simp del: upt_Suc)
    then show "\<not> prefix q (drop j s)" using k(4) by metis
  qed
qed

lemma index_from_None: "index_from q s i = None \<Longrightarrow> i \<le> j \<Longrightarrow> j \<le> length s \<Longrightarrow> \<not> prefix q (drop j s)"
  by (auto simp: index_from_def find_None_iff)

lemma contains_drop:
  assumes "str_contains p q" obtains k where "k \<le> length p" "prefix q (drop k p)"
proof -
  obtain s where s: "suffix s p" "prefix q s" using assms by (auto simp: str_contains_def list_ex_iff)
  then obtain r where "p = r @ s" by (auto simp: suffix_def)
  then show thesis using s(2) that [of "length r"] by simp
qed

text \<open>A part of the text whose starting positions are all free of the query does not contain it.\<close>

lemma part_free:
  assumes "\<forall>j. i \<le> j \<and> j \<le> i + n \<longrightarrow> j < f \<longrightarrow> \<not> prefix q (drop j s)" "i + n \<le> f" "q \<noteq> []"
  shows "\<not> str_contains (take n (drop i s)) q"
proof
  assume "str_contains (take n (drop i s)) q"
  then obtain k where k: "k \<le> length (take n (drop i s))" "prefix q (drop k (take n (drop i s)))"
    by (rule contains_drop)
  then have "k < n" using assms(3) by (cases "k = n") (auto simp: less_le)
  have "prefix q (take (n - k) (drop (i + k) s))" using k(2) by (simp add: drop_take add.commute)
  then have "prefix q (drop (i + k) s)" using take_is_prefix prefix_order.trans by blast
  then show False using assms(1,2) \<open>k < n\<close> by auto
qed

definition part_ok :: "string \<Rightarrow> string \<times> bool \<Rightarrow> bool" where
  "part_ok query p \<longleftrightarrow>
     (if snd p then to_lower (fst p) = to_lower query
      else \<not> str_contains (to_lower (fst p)) (to_lower query))"

lemma highlight_loop_total:
  assumes "query \<noteq> []"
  shows "\<exists>ps. highlight_loop t (to_lower t) (to_lower query) i = Some ps \<and>
     concat (map fst ps) = drop i t \<and> list_all (part_ok query) ps"
proof (induction "length t - i" arbitrary: i rule: less_induct)
  case less
  let ?lc = "to_lower t" and ?q = "to_lower query"
  show ?case
  proof (cases "length t \<le> i")
    case True
    then show ?thesis by (subst highlight_loop.simps) simp
  next
    case inside: False
    show ?thesis
    proof (cases "index_from ?q ?lc i")
      case None
      have "\<not> str_contains (take (length t - i) (drop i ?lc)) ?q"
        using index_from_None [OF None] inside assms by (intro part_free [where f = "length t"]) auto
      then show ?thesis using None inside
        by (subst highlight_loop.simps) (simp add: part_ok_def drop_map)
    next
      case (Some f)
      note f = index_from_Some [OF Some]
      have fq: "f + length query \<le> length t"
        using prefix_length_le [OF f(2)] assms by (cases "f \<le> length t") auto
      then have "length t - (f + length query) < length t - i" using f(1) assms inside by (cases query) auto
      then obtain rest where rest: "highlight_loop t ?lc ?q (f + length query) = Some rest"
        "concat (map fst rest) = drop (f + length query) t" "list_all (part_ok query) rest"
        using less.hyps by blast
      have lowered: "to_lower (take (length query) (drop f t)) = ?q"
        using f(2) by (auto simp: prefix_def take_map [symmetric] drop_map [symmetric])
      have gap: "\<not> str_contains (take (f - i) (drop i ?lc)) ?q"
        using f assms by (intro part_free [where f = f]) auto
      have "take (f - i) (drop i t) @ take (length query) (drop f t) @ drop (f + length query) t = drop i t"
        using f(1) by (metis add.commute append_take_drop_id drop_drop le_add_diff_inverse)
      then show ?thesis using Some inside rest lowered gap f(1)
        by (subst highlight_loop.simps) (auto simp: part_ok_def take_map drop_map)
    qed
  qed
qed

section \<open>Hash of a pod name\<close>

lemma to_int32_bounds: "- (2 ^ 31) \<le> to_int32 x \<and> to_int32 x < 2 ^ 31"
  using pos_mod_sign [of "2 ^ 32" "x + 2 ^ 31"] pos_mod_bound [of "2 ^ 32" "x + 2 ^ 31"]
  by (simp add: to_int32_def)

lemma to_int32_cong: "x mod 2 ^ 32 = y mod 2 ^ 32 \<Longrightarrow> to_int32 x = to_int32 y"
  unfolding to_int32_def by (metis mod_add_cong)

lemma to_int32_mod: "to_int32 x mod 2 ^ 32 = x mod 2 ^ 32"
proof -
  have "to_int32 x mod 2 ^ 32 = (x + 2 ^ 31 - 2 ^ 31) mod 2 ^ 32"
    unfolding to_int32_def by (rule mod_diff_left_eq)
  then show ?thesis by simp
qed

text \<open>The polynomial that the loop computes, without wrapping.\<close>

definition hash_poly :: "string \<Rightarrow> int" where
  "hash_poly name = foldl (\<lambda>h c. 31 * h + int (of_char c)) 0 name"

lemma hash_sum_mod:
  assumes "h mod 2 ^ 32 = p mod 2 ^ 32"
  shows "hash_sum h c mod 2 ^ 32 = (31 * p + int (of_char c)) mod 2 ^ 32"
proof -
  have "hash_sum h c mod 2 ^ 32 = (h * 2 ^ 5 - h + int (of_char c)) mod 2 ^ 32"
    unfolding hash_sum_def by (intro mod_add_cong mod_diff_cong to_int32_mod refl)
  also have "h * 2 ^ 5 - h + int (of_char c) = 31 * h + int (of_char c)" by simp
  also have "(31 * h + int (of_char c)) mod 2 ^ 32 = (31 * p + int (of_char c)) mod 2 ^ 32"
    using assms by (intro mod_add_cong mod_mult_cong refl)
  finally show ?thesis .
qed

lemma pod_hash_poly: "pod_hash name = to_int32 (hash_poly name)"
proof (induction name rule: rev_induct)
  case Nil
  then show ?case by (simp add: pod_hash_def hash_poly_def to_int32_def)
next
  case (snoc c name)
  have "pod_hash (name @ [c]) = to_int32 (hash_sum (pod_hash name) c)" by (simp add: pod_hash_def)
  also have "\<dots> = to_int32 (31 * hash_poly name + int (of_char c))"
    using snoc to_int32_mod [of "hash_poly name"] by (intro to_int32_cong hash_sum_mod) simp
  finally show ?case by (simp add: hash_poly_def)
qed

lemma pod_hash_bounds: "- (2 ^ 31) \<le> pod_hash name \<and> pod_hash name < 2 ^ 31"
  by (simp only: pod_hash_poly to_int32_bounds)

lemma hash_sum_exact: "\<bar>hash_sum (pod_hash name) c\<bar> < 2 ^ 53"
proof -
  have small: "\<bar>a - h + b\<bar> < 2 ^ 53"
    if "- (2 ^ 31) \<le> a \<and> a < 2 ^ 31" "- (2 ^ 31) \<le> h \<and> h < 2 ^ 31" "0 \<le> b" "b < 256" for a h b :: int
    using that by (simp add: abs_less_iff)
  show ?thesis unfolding hash_sum_def
    using of_char_less [of c] to_int32_bounds pod_hash_bounds by (intro small) simp_all
qed

section \<open>Properties\<close>

lemma plain_segments [simp]: "plain_segment ''clusters''" "plain_segment ''pods''" "plain_segment ''logs''"
  "plain_segment (workload_segment k)"
  by (simp_all add: plain_segment_def) (cases k, simp_all add: plain_segment_def)

text \<open>
  a shared link opens the view that was shared. The URL of a pod's or a workload's
  log page addresses exactly that object, and the state the page reads from its query string is
  the state the link was made from, whatever characters the search and the names contain; hence
  the page subscribes to the same stream.
\<close>

theorem shared_link_reopens_view:
  fixes s kind cluster ns name
  defines "u \<equiv> pod_logs_path cluster ns name s" and "w \<equiv> workload_logs_path kind cluster ns name s"
  assumes "view_ok s"
  shows "path_segments u = [''clusters'', enc cluster, ''pods'', enc ns, enc name, ''logs''] \<and>
    params_to_state (parse_query (url_query u)) = s \<and>
    path_segments w = [''clusters'', enc cluster, workload_segment kind, enc ns, enc name, ''logs''] \<and>
    params_to_state (parse_query (url_query w)) = s \<and>
    subscribe (view_config src r (params_to_state (parse_query (url_query w)))) = subscribe (view_config src r s)"
proof -
  have q: "parse_query (url_query u) = state_to_params s" "parse_query (url_query w) = state_to_params s"
    unfolding u_def w_def pod_logs_path_def workload_logs_path_def
    by (subst url_query_path; simp add: parse_query_suffix del: One_nat_def)+
  have "path_segments u = [''clusters'', enc cluster, ''pods'', enc ns, enc name, ''logs'']"
    "path_segments w = [''clusters'', enc cluster, workload_segment kind, enc ns, enc name, ''logs'']"
    unfolding u_def w_def pod_logs_path_def workload_logs_path_def by (subst path_segments_url; simp)+
  then show ?thesis by (simp add: q state_read_back [OF assms(3)])
qed

definition sample_view :: logs_view where
  "sample_view = default_logs_view\<lparr>lv_search := ''a&b=c +%'', lv_tail := 500, lv_pods := [''api-0'', ''api-1'']\<rparr>"

lemma shared_link_reopens_view_witness:
  "params_to_state (parse_query (url_query (workload_logs_path WkStatefulSet ''eu/1'' ''shop'' ''api'' sample_view)))
     = sample_view"
  using shared_link_reopens_view [where s = sample_view and kind = WkStatefulSet and cluster = "''eu/1''"
      and ns = "''shop''" and name = "''api''"]
  by (simp add: sample_view_def view_ok_def default_logs_view_def)

fun change_ok :: "view_change \<Rightarrow> bool" where
  "change_ok (SetTail n) = (0 < n)"
| "change_ok (SetSince (Some n)) = (0 < n)"
| "change_ok (SetPodFilter ps) = list_all (\<lambda>p. p \<noteq> [] \<and> CHR '','' \<notin> set p) ps"
| "change_ok _ = True"

lemma change_keeps_ok: "view_ok s \<Longrightarrow> change_ok ch \<Longrightarrow> view_ok (tab_change s ch)"
  by (cases ch rule: change_ok.cases) (auto simp: view_ok_def)

text \<open>
  the full page and the tab behave alike. The page, whose only state is its query
  string, shows after any sequence of changes (positive tail and window, pod names without
  commas) the view that the tab's local state would hold, whatever the URL it was opened with.
\<close>

theorem page_refines_tab:
  "list_all change_ok chs \<Longrightarrow>
     params_to_state (foldl page_change ps chs) = foldl tab_change (params_to_state ps) chs"
proof (induction chs arbitrary: ps)
  case (Cons ch chs)
  then have "view_ok (tab_change (params_to_state ps) ch)"
    by (intro change_keeps_ok params_state_ok) simp
  then have "params_to_state (page_change ps ch) = tab_change (params_to_state ps) ch"
    by (simp add: page_change_def state_read_back)
  then show ?case using Cons by simp
qed simp

lemma page_refines_tab_witness:
  "lv_pods (params_to_state (foldl page_change [(''tail'', ''x''), (''pf'', '',,a'')]
     [SetPodFilter [''a'', ''b''], SetTail 100, SetSearch ''err''])) = [''a'', ''b'']"
  by (subst page_refines_tab) simp_all

text \<open>The legend's click: a pod of the filter leaves it, another joins it.\<close>

lemma toggle_pod_filter:
  "set (lv_pods (tab_change s (toggle_pod pod s))) =
     (if pod \<in> set (lv_pods s) then set (lv_pods s) - {pod} else insert pod (set (lv_pods s)))"
  by (auto simp: toggle_pod_def)

text \<open>
  a search shows its matches with their context. Without a search every line is a row;
  without a match the only row says so; otherwise the rows are, in order, exactly the lines
  within five positions of a match, the matches marked, and one divider stands exactly between
  two shown lines that are not neighbours in the buffer.
\<close>

theorem search_shows_context:
  fixes ls q
  defines "ms \<equiv> match_indices ls (to_lower q)"
  defines "shown \<equiv> filter (\<lambda>i. \<exists>m \<in> set ms. i \<le> m + 5 \<and> m \<le> i + 5) [0..<length ls]"
  shows "log_rows ls q =
     (if q = [] then map (\<lambda>i. RowLine (ls ! i) False i) [0..<length ls]
      else if ms = [] then [RowNoMatches]
      else line_row ls ms (hd shown) # concat (map (\<lambda>(i, j). next_rows ls ms i j) (zip shown (tl shown))))
    \<and> set ms \<subseteq> set shown"
proof -
  have shown: "shown = filter (near_match ms) [0..<length ls]"
    unfolding shown_def by (rule filter_cong) (simp_all add: near_match_def search_context_def list_ex_iff)
  have less: "\<forall>m \<in> set ms. m < length ls" by (simp add: ms_def match_less)
  have sub: "set ms \<subseteq> set shown" using less match_near by (auto simp: shown)
  have plain: "map (\<lambda>(l, i). RowLine l False i) (zip ls [0..<length ls])
      = map (\<lambda>i. RowLine (ls ! i) False i) [0..<length ls]"
    by (rule nth_equalityI) simp_all
  have "row_loop ls ms (-2) (sorted_list_of_set (include_set (length ls) ms)) =
      line_row ls ms (hd shown) # concat (map (\<lambda>(i, j). next_rows ls ms i j) (zip shown (tl shown)))"
    if "ms \<noteq> []"
    using that sub by (subst sorted_include [OF less], subst row_loop_start) (auto simp: shown [symmetric])
  then show ?thesis using sub by (simp add: log_rows_def ms_def [symmetric] plain Let_def)
qed

text \<open>
  highlighting changes nothing of a line. The parts of a highlighted text put together
  are the text; every marked part is the query up to case, no unmarked part contains it, and the
  loop ends for every text and every query.
\<close>

theorem highlighting_keeps_text:
  "\<exists>ps. highlighted t query = Some ps \<and> concat (map fst ps) = t \<and>
     (query = [] \<or> list_all (part_ok query) ps)"
  using highlight_loop_total [of query t 0] by (cases "query = []") (auto simp: highlighted_def)

text \<open>
  pod colours never look like a log level. The 32-bit hash of the loop is the
  polynomial hash of the name wrapped once, each sum before wrapping is exact in a double, and
  the hue lies between 100 and 339 degrees: off the red and the yellow of error and warning lines.
\<close>

theorem pod_hue_is_bounded:
  "pod_hash name = to_int32 (hash_poly name) \<and> \<bar>hash_sum (pod_hash name) c\<bar> < 2 ^ 53 \<and>
   - (2 ^ 31) \<le> pod_hash name \<and> pod_hash name < 2 ^ 31 \<and> 100 \<le> pod_hue name \<and> pod_hue name \<le> 339"
  using hash_sum_exact [of name c] pod_hash_bounds [of name] pos_mod_bound [of 240 "\<bar>pod_hash name\<bar>"]
    pos_mod_sign [of 240 "\<bar>pod_hash name\<bar>"]
  by (simp add: pod_hash_poly [symmetric] pod_hue_def)

text \<open>
  the copied context comes from the filtered lines, not from the whole buffer: with a pod
  filter, the neighbours of a line in the buffer that belong to other pods are not copied.
\<close>

theorem copy_skips_other_pods:
  fixes a b c :: log_line
  defines "a \<equiv> \<lparr>ll_id = 0, ll_ts = [], ll_text = ''one'', ll_pod = Some ''p'', ll_container = None\<rparr>"
    and "b \<equiv> \<lparr>ll_id = 1, ll_ts = [], ll_text = ''two'', ll_pod = Some ''q'', ll_container = None\<rparr>"
  shows "copy_text (filter_pods [''p''] [a, b]) 0 = ''[p] one'' \<and>
    copy_text [a, b] 0 = ''[p] one'' @ [newline] @ ''[q] two''"
  by (simp add: a_def b_def copy_text_def filter_pods_def copy_line_def Let_def)

text \<open>
  the copied text is that of at most eleven lines, among them the one whose button was
  clicked.
\<close>

theorem copy_is_bounded:
  assumes "i < length ls"
  defines "n \<equiv> min (length ls - 1) (i + 5) + 1 - (i - 5)"
  shows "copy_text ls i = join_str [newline] (map copy_line (take n (drop (i - 5) ls))) \<and> n \<le> 11 \<and>
     ls ! i \<in> set (take n (drop (i - 5) ls))"
proof -
  have "i - (i - 5) < n" "i - (i - 5) < length ls - (i - 5)" using assms by (auto simp: n_def)
  then have "take n (drop (i - 5) ls) ! (i - (i - 5)) = ls ! i" by simp
  then have "ls ! i \<in> set (take n (drop (i - 5) ls))"
    by (metis \<open>i - (i - 5) < n\<close> \<open>i - (i - 5) < length ls - (i - 5)\<close> length_drop length_take min_less_iff_conj nth_mem)
  moreover have "n \<le> 11" by (auto simp: n_def)
  ultimately show ?thesis by (simp add: copy_text_def n_def Let_def)
qed

lemma copy_is_bounded_witness:
  "length (filter (\<lambda>l. ll_id l = 2) (take 4 (drop 0 (map (\<lambda>i. line_of i \<lparr>lp_t = None, lp_l = None, lp_p = None, lp_c = None\<rparr>) [0..<4])))) \<ge> 1"
  using copy_is_bounded [of 2 "map (\<lambda>i. line_of i \<lparr>lp_t = None, lp_l = None, lp_p = None, lp_c = None\<rparr>) [0..<4]"]
  by (simp add: upt_rec line_of_def)

end
