(* ===== verification/AuditView.thy ===== *)
theory AuditView
  imports ApiClient LogView
begin

text \<open>
  Model of the audit page: \<open>web/src/pages/AuditPage.tsx\<close> with its filters in the address, its pages
  and its pagination, the controls of \<open>components/audit/AuditFilterStrip.tsx\<close> and
  \<open>TimeRangePicker.tsx\<close>, the density strip \<open>AuditTimelineStrip.tsx\<close>, and the window of rows the
  server answers with (\<open>internal/audit\<close> at the root of the repository). \<open>Date.parse\<close> and
  the clock are arguments; the division of the time range into slices is exact.
\<close>

section \<open>Filters and the address\<close>

record audit_filters =
  af_cluster :: "string option"
  af_from :: "string option"
  af_to :: "string option"
  af_actor :: "string option"
  af_verb :: "string option"
  af_outcome :: "string option"
  af_namespace :: "string option"
  af_name :: "string option"
  af_request_id :: "string option"
  af_limit :: "int option"
  af_offset :: "int option"

text \<open>\<open>sp.get(k) || undefined\<close>.\<close>

definition param_or_none :: "string \<Rightarrow> params \<Rightarrow> string option" where
  "param_or_none k ps = (case param_get k ps of Some v \<Rightarrow> if v = [] then None else Some v | None \<Rightarrow> None)"

definition params_from_search :: "params \<Rightarrow> string option \<Rightarrow> audit_filters" where
  "params_from_search ps cluster =
     \<lparr>af_cluster = cluster,
      af_from = param_or_none ''from'' ps,
      af_to = param_or_none ''to'' ps,
      af_actor = param_or_none ''actor'' ps,
      af_verb = param_or_none ''verb'' ps,
      af_outcome = param_or_none ''outcome'' ps,
      af_namespace = param_or_none ''namespace'' ps,
      af_name = param_or_none ''name'' ps,
      af_request_id = param_or_none ''requestId'' ps,
      af_limit = None, af_offset = None\<rparr>"

definition opt_js :: "('a \<Rightarrow> jsval) \<Rightarrow> 'a option \<Rightarrow> jsval" where
  "opt_js f v = (case v of None \<Rightarrow> JUndefined | Some x \<Rightarrow> f x)"

definition filter_entries :: "audit_filters \<Rightarrow> entries" where
  "filter_entries f =
     [(''cluster'', opt_js JStr (af_cluster f)), (''from'', opt_js JStr (af_from f)),
      (''to'', opt_js JStr (af_to f)), (''actor'', opt_js JStr (af_actor f)),
      (''verb'', opt_js JStr (af_verb f)), (''outcome'', opt_js JStr (af_outcome f)),
      (''namespace'', opt_js JStr (af_namespace f)), (''name'', opt_js JStr (af_name f)),
      (''requestId'', opt_js JStr (af_request_id f)), (''limit'', opt_js JNum (af_limit f)),
      (''offset'', opt_js JNum (af_offset f))]"

definition changed_params :: "audit_filters \<Rightarrow> params" where
  "changed_params f =
     fold (\<lambda>(k, v) q. if v = JUndefined \<or> v = JNull \<or> v = JStr [] \<or> k = ''cluster'' then q
                      else param_set k (js_to_string v) q) (filter_entries f) []"

definition cleared_params :: "audit_filters \<Rightarrow> params" where
  "cleared_params f =
     (let p = (case af_from f of Some v \<Rightarrow> param_set ''from'' v [] | None \<Rightarrow> [])
      in case af_to f of Some v \<Rightarrow> param_set ''to'' v p | None \<Rightarrow> p)"

text \<open>The effect of the first render; \<open>from\<close> and \<open>to\<close> are the last hour by the clock.\<close>

definition default_range :: "string \<Rightarrow> string \<Rightarrow> params \<Rightarrow> params" where
  "default_range from to ps =
     (if param_or_none ''from'' ps \<noteq> None then ps else param_set ''to'' to (param_set ''from'' from ps))"

definition has_filters :: "audit_filters \<Rightarrow> bool" where
  "has_filters f =
     (af_outcome f \<noteq> None \<or> af_verb f \<noteq> None \<or> af_actor f \<noteq> None \<or> af_namespace f \<noteq> None
      \<or> af_name f \<noteq> None \<or> af_request_id f \<noteq> None)"

section \<open>The controls\<close>

datatype audit_field = AfActor | AfVerb | AfOutcome | AfNamespace | AfName | AfRequestId

definition set_field :: "audit_field \<Rightarrow> string option \<Rightarrow> audit_filters \<Rightarrow> audit_filters" where
  "set_field k value f =
     (let v = (if value = Some [] then None else value);
          f = f\<lparr>af_offset := None\<rparr>
      in case k of
           AfActor \<Rightarrow> f\<lparr>af_actor := v\<rparr>
         | AfVerb \<Rightarrow> f\<lparr>af_verb := v\<rparr>
         | AfOutcome \<Rightarrow> f\<lparr>af_outcome := v\<rparr>
         | AfNamespace \<Rightarrow> f\<lparr>af_namespace := v\<rparr>
         | AfName \<Rightarrow> f\<lparr>af_name := v\<rparr>
         | AfRequestId \<Rightarrow> f\<lparr>af_request_id := v\<rparr>)"

definition set_outcome :: "string \<Rightarrow> audit_filters \<Rightarrow> audit_filters" where
  "set_outcome v f = set_field AfOutcome (if v = ''all'' then None else Some v) f"

definition set_verb :: "string \<Rightarrow> audit_filters \<Rightarrow> audit_filters" where
  "set_verb v f = set_field AfVerb (if af_verb f = Some v then None else Some v) f"

definition time_presets :: "(string \<times> int) list" where
  "time_presets = [(''15m'', 15), (''1h'', 60), (''6h'', 60 * 6), (''24h'', 60 * 24), (''7d'', 60 * 24 * 7)]"

text \<open>\<open>Math.round\<close> of a quotient by a positive number.\<close>

definition round_div :: "int \<Rightarrow> int \<Rightarrow> int" where
  "round_div a b = (2 * a + b) div (2 * b)"

definition active_preset :: "(string \<Rightarrow> int option) \<Rightarrow> audit_filters \<Rightarrow> string option" where
  "active_preset date f =
     (case (af_from f, af_to f) of
        (Some from, Some to) \<Rightarrow>
          (if from = [] \<or> to = [] then None
           else case (date from, date to) of
                  (Some a, Some b) \<Rightarrow> map_option fst (List.find (\<lambda>(l, m). m = round_div (b - a) 60000) time_presets)
                | _ \<Rightarrow> None)
      | _ \<Rightarrow> None)"

definition set_range :: "(int \<Rightarrow> string) \<Rightarrow> int \<Rightarrow> int \<Rightarrow> audit_filters \<Rightarrow> audit_filters" where
  "set_range stamp now minutes f =
     f\<lparr>af_from := Some (stamp (now - minutes * 60 * 1000)), af_to := Some (stamp now), af_offset := None\<rparr>"

section \<open>The rows of the server\<close>

record audit_row =
  au_id :: int
  au_timestamp :: string
  au_outcome :: string

record audit_result =
  ar_items :: "audit_row list"
  ar_total :: nat

text \<open>The rows that match are given newest first; a missing limit is the number 0 there.\<close>

definition read_audit :: "audit_row list \<Rightarrow> int \<Rightarrow> int \<Rightarrow> audit_result" where
  "read_audit rows limit0 offset0 =
     (let limit1 = (if limit0 \<le> 0 then 50 else limit0);
          limit2 = (if 500 < limit1 then 500 else limit1);
          offset1 = (if offset0 < 0 then 0 else offset0)
      in \<lparr>ar_items = take (nat limit2) (drop (nat offset1) rows), ar_total = length rows\<rparr>)"

definition page_size :: nat where
  "page_size = 50"

definition paged_filters :: "audit_filters \<Rightarrow> nat \<Rightarrow> audit_filters" where
  "paged_filters f page = f\<lparr>af_limit := Some (int page_size), af_offset := Some (int (page * page_size))\<rparr>"

definition asked :: "audit_row list \<Rightarrow> audit_filters \<Rightarrow> audit_result" where
  "asked rows f =
     read_audit rows (case af_limit f of Some n \<Rightarrow> n | None \<Rightarrow> 0) (case af_offset f of Some n \<Rightarrow> n | None \<Rightarrow> 0)"

section \<open>Pagination\<close>

definition total_pages :: "nat \<Rightarrow> nat" where
  "total_pages tot = max 1 ((tot + page_size - 1) div page_size)"

datatype page_button = Gap | PageNo int

definition page_range :: "int \<Rightarrow> int \<Rightarrow> page_button list" where
  "page_range current tot =
     (if tot \<le> 7 then map PageNo [0..tot - 1]
      else [PageNo 0, PageNo 1]
           @ (if 3 < current then [Gap] else [])
           @ map PageNo [max 2 (current - 1)..min (tot - 3) (current + 1)]
           @ (if current < tot - 4 then [Gap] else [])
           @ [PageNo (tot - 2), PageNo (tot - 1)])"

definition shown_range :: "nat \<Rightarrow> nat \<Rightarrow> nat \<times> nat" where
  "shown_range page tot = (page * page_size + 1, min tot ((page + 1) * page_size))"

datatype pager_click = PrevClick | NextClick | PageClick int

definition pager_target :: "nat \<Rightarrow> nat \<Rightarrow> pager_click \<Rightarrow> nat option" where
  "pager_target page page_count c =
     (case c of
        PrevClick \<Rightarrow> if page = 0 then None else Some (page - 1)
      | NextClick \<Rightarrow> if page_count \<le> page + 1 then None else Some (min (page_count - 1) (page + 1))
      | PageClick p \<Rightarrow> if PageNo p \<in> set (page_range (int page) (int page_count)) then Some (nat p) else None)"

section \<open>The page\<close>

datatype audit_answer = AuPending | AuFailed string | AuLoaded audit_result

record audit_results =
  as_rows :: "audit_row list"
  as_timeline :: "audit_row list"
  as_denied :: nat
  as_callout :: bool
  as_empty_filtered :: bool
  as_no_events :: bool
  as_pager :: bool

datatype audit_body = AbNotEnabled | AbLoading | AbError string | AbResults audit_results

definition denied_count :: "audit_row list \<Rightarrow> nat" where
  "denied_count rows = length (filter (\<lambda>r. au_outcome r = ''denied'') rows)"

definition audit_body :: "bool \<Rightarrow> audit_answer \<Rightarrow> audit_answer \<Rightarrow> audit_filters \<Rightarrow> audit_body" where
  "audit_body enabled whole paged f =
     (if \<not> enabled then AbNotEnabled
      else case paged of
        AuPending \<Rightarrow> AbLoading
      | AuFailed m \<Rightarrow> AbError m
      | AuLoaded r \<Rightarrow>
          (let in_range = (case whole of AuLoaded w \<Rightarrow> ar_items w | _ \<Rightarrow> ar_items r);
               denied = denied_count (case whole of AuLoaded w \<Rightarrow> ar_items w | _ \<Rightarrow> [])
           in AbResults
                \<lparr>as_rows = ar_items r, as_timeline = in_range, as_denied = denied,
                 as_callout = (af_outcome f = None \<and> 0 < denied \<and> 0 < length in_range),
                 as_empty_filtered = (ar_total r = 0 \<and> has_filters f),
                 as_no_events = (ar_total r = 0 \<and> \<not> has_filters f),
                 as_pager = (page_size < ar_total r)\<rparr>))"

text \<open>What the page shows when the server holds \<open>rows\<close> for the filters of the address.\<close>

definition audit_shows :: "audit_row list \<Rightarrow> audit_filters \<Rightarrow> nat \<Rightarrow> audit_body" where
  "audit_shows rows f page =
     audit_body True (AuLoaded (asked rows f)) (AuLoaded (asked rows (paged_filters f page))) f"

record audit_state =
  ad_params :: params
  ad_page :: nat

datatype audit_event =
    AeMount string string
  | AeFilters audit_filters
  | AeClear
  | AeDenials
  | AePager nat pager_click
  | AeAddress params

fun audit_step :: "string option \<Rightarrow> audit_state \<Rightarrow> audit_event \<Rightarrow> audit_state" where
  "audit_step c s (AeMount from to) = s\<lparr>ad_params := default_range from to (ad_params s)\<rparr>"
| "audit_step c s (AeFilters f) = s\<lparr>ad_params := changed_params f, ad_page := 0\<rparr>"
| "audit_step c s AeClear = s\<lparr>ad_params := cleared_params (params_from_search (ad_params s) c)\<rparr>"
| "audit_step c s AeDenials =
     s\<lparr>ad_params := changed_params ((params_from_search (ad_params s) c)\<lparr>af_outcome := Some ''denied''\<rparr>),
       ad_page := 0\<rparr>"
| "audit_step c s (AePager tot click) =
     (case pager_target (ad_page s) (total_pages tot) click of
        Some n \<Rightarrow> s\<lparr>ad_page := n\<rparr> | None \<Rightarrow> s)"
| "audit_step c s (AeAddress ps) = s\<lparr>ad_params := ps\<rparr>"

section \<open>The density strip\<close>

record density_bar =
  db_from :: int
  db_to :: int
  db_success :: nat
  db_failure :: nat
  db_denied :: nat
  db_total :: nat

record density =
  de_bars :: "density_bar list"
  de_max :: nat
  de_total :: nat
  de_from :: int
  de_to :: int

definition bucket_count :: nat where
  "bucket_count = 60"

text \<open>The slice a moment falls into.\<close>

definition bucket_index :: "int \<Rightarrow> int \<Rightarrow> nat \<Rightarrow> int \<Rightarrow> nat" where
  "bucket_index from to slices t =
     (let idx = (t - from) * int slices div (to - from)
      in nat (if idx < 0 then 0 else if int slices \<le> idx then int slices - 1 else idx))"

text \<open>The edges of a bar are kept as multiples of \<open>1 / slices\<close> milliseconds.\<close>

definition empty_bars :: "int \<Rightarrow> int \<Rightarrow> nat \<Rightarrow> density_bar list" where
  "empty_bars from to slices =
     map (\<lambda>i. \<lparr>db_from = int slices * from + int i * (to - from),
               db_to = int slices * from + (int i + 1) * (to - from),
               db_success = 0, db_failure = 0, db_denied = 0, db_total = 0\<rparr>) [0..<slices]"

definition count_in_bar :: "string \<Rightarrow> density_bar \<Rightarrow> density_bar" where
  "count_in_bar outcome b =
     (let b = (if outcome = ''success'' then b\<lparr>db_success := db_success b + 1\<rparr>
               else if outcome = ''failure'' then b\<lparr>db_failure := db_failure b + 1\<rparr>
               else if outcome = ''denied'' then b\<lparr>db_denied := db_denied b + 1\<rparr> else b)
      in b\<lparr>db_total := db_total b + 1\<rparr>)"

definition count_row ::
  "(string \<Rightarrow> int option) \<Rightarrow> int \<Rightarrow> int \<Rightarrow> nat \<Rightarrow> audit_row \<Rightarrow> density_bar list \<Rightarrow> density_bar list" where
  "count_row date from to slices r bars =
     (case date (au_timestamp r) of
        None \<Rightarrow> bars
      | Some t \<Rightarrow>
          (if t < from \<or> to < t then bars
           else bars[bucket_index from to slices t :=
                       count_in_bar (au_outcome r) (bars ! bucket_index from to slices t)]))"

definition time_window ::
  "(string \<Rightarrow> int option) \<Rightarrow> audit_row list \<Rightarrow> string option \<Rightarrow> string option \<Rightarrow> (int \<times> int) option" where
  "time_window date rows from_iso to_iso =
     (let parse = (\<lambda>v. case v of Some s \<Rightarrow> if s = [] then None else date s | None \<Rightarrow> None)
      in case (parse from_iso, parse to_iso) of
           (Some f, Some t) \<Rightarrow> Some (f, t)
         | _ \<Rightarrow> (let all = sort (List.map_filter (\<lambda>r. date (au_timestamp r)) rows)
                 in if all = [] then None else Some (hd all, last all)))"

definition bucketize ::
  "(string \<Rightarrow> int option) \<Rightarrow> audit_row list \<Rightarrow> string option \<Rightarrow> string option \<Rightarrow> nat \<Rightarrow> density option" where
  "bucketize date rows from_iso to_iso slices =
     (case time_window date rows from_iso to_iso of
        None \<Rightarrow> None
      | Some (from, to) \<Rightarrow>
          (if to \<le> from then None
           else let bars = fold (count_row date from to slices) rows (empty_bars from to slices)
                in Some \<lparr>de_bars = bars,
                         de_max = fold (\<lambda>b m. if m < db_total b then db_total b else m) bars 0,
                         de_total = fold (\<lambda>b n. n + db_total b) bars 0,
                         de_from = from, de_to = to\<rparr>))"

text \<open>The heights of the three bands of a bar, in pixels.\<close>

definition bar_pixels :: "nat \<Rightarrow> density_bar \<Rightarrow> int \<times> int \<times> int" where
  "bar_pixels max_total b =
     (let px = max (if 0 < db_total b then 2 else 0) (round_div (int (db_total b) * 44) (int max_total));
          success = (if db_total b \<noteq> 0 then round_div (int (db_success b) * px) (int (db_total b)) else 0);
          failure = (if db_total b \<noteq> 0 then round_div (int (db_failure b) * px) (int (db_total b)) else 0)
      in (success, failure, px - success - failure))"


section \<open>The address keeps the filters\<close>

lemma changed_params_lookup:
  "distinct (map fst es) \<Longrightarrow>
   map_of (fold (\<lambda>(k, v) q. if v = JUndefined \<or> v = JNull \<or> v = JStr [] \<or> k = ''cluster'' then q
                      else param_set k (js_to_string v) q) es acc) k =
     (case map_of es k of
        Some v \<Rightarrow> if v = JUndefined \<or> v = JNull \<or> v = JStr [] \<or> k = ''cluster'' then map_of acc k
                  else Some (js_to_string v)
      | None \<Rightarrow> map_of acc k)"
proof (induction es arbitrary: acc)
  case (Cons e es)
  obtain a v where e: "e = (a, v)" by fastforce
  have "map_of es a = None" using Cons.prems e by (simp add: map_of_eq_None_iff)
  then show ?case using Cons by (auto simp: e param_set_def update_conv' split: option.splits)
qed simp

definition drop_empty :: "string option \<Rightarrow> string option" where
  "drop_empty v = (if v = Some [] then None else v)"

text \<open>
  an address keeps the filters it was made from. After a change of filters the address
  describes the same filters again, for the cluster of the route, with empty ones left out and
  without the position of a page.
\<close>

theorem audit_link_reopens_filters:
  "params_from_search (changed_params f) c =
     \<lparr>af_cluster = c, af_from = drop_empty (af_from f), af_to = drop_empty (af_to f),
      af_actor = drop_empty (af_actor f), af_verb = drop_empty (af_verb f),
      af_outcome = drop_empty (af_outcome f), af_namespace = drop_empty (af_namespace f),
      af_name = drop_empty (af_name f), af_request_id = drop_empty (af_request_id f),
      af_limit = None, af_offset = None\<rparr>"
proof -
  have look: "param_or_none k (changed_params f) = drop_empty v"
    if "k \<noteq> ''cluster''" "map_of (filter_entries f) k = Some (opt_js JStr v)" for k v
  proof -
    have "distinct (map fst (filter_entries f))" by (simp add: filter_entries_def)
    from changed_params_lookup [OF this, of "[]" k] that show ?thesis
      by (auto simp: param_or_none_def param_get_def changed_params_def opt_js_def drop_empty_def
          split: option.splits)
  qed
  show ?thesis unfolding params_from_search_def
    by (simp add: look filter_entries_def)
qed

section \<open>Pages\<close>

lemma asked_page: "asked rows (paged_filters f p) = \<lparr>ar_items = take 50 (drop (p * 50) rows), ar_total = length rows\<rparr>"
  by (simp add: asked_def read_audit_def paged_filters_def page_size_def nat_mult_distrib)

lemma asked_whole:
  "asked rows (params_from_search ps c) = \<lparr>ar_items = take 50 rows, ar_total = length rows\<rparr>"
  by (simp add: asked_def read_audit_def params_from_search_def)

lemma concat_chunks: "0 < k \<Longrightarrow> length xs \<le> n * k \<Longrightarrow> concat (map (\<lambda>p. take k (drop (p * k) xs)) [0..<n]) = xs"
proof -
  assume k: "0 < k" and n: "length xs \<le> n * k"
  have "concat (map (\<lambda>p. take k (drop (p * k) xs)) [0..<m]) = take (m * k) xs" for m
  proof (induction m)
    case (Suc m)
    have "take (m * k + k) xs = take (m * k) xs @ take k (drop (m * k) xs)" by (rule take_add)
    then show ?case using Suc by (simp add: add.commute)
  qed simp
  then show ?thesis using n by simp
qed

lemma total_pages_enough: "n \<le> total_pages n * 50"
  by (simp add: total_pages_def page_size_def max_def) presburger

text \<open>
  paging loses no entry. The pages from the first to the last one offered hold the entries of
  the server in their order, each once, and the range printed under a page counts its rows.
\<close>

theorem pages_cover_the_log:
  "concat (map (\<lambda>p. ar_items (asked rows (paged_filters f p))) [0..<total_pages (length rows)]) = rows
   \<and> (p < total_pages (length rows) \<longrightarrow>
      (case shown_range p (length rows) of
         (a, b) \<Rightarrow> length (ar_items (asked rows (paged_filters f p))) = b + 1 - a))"
proof (intro conjI impI)
  show "concat (map (\<lambda>p. ar_items (asked rows (paged_filters f p))) [0..<total_pages (length rows)]) = rows"
    unfolding asked_page audit_result.simps by (rule concat_chunks) (simp_all add: total_pages_enough)
  show "case shown_range p (length rows) of (a, b) \<Rightarrow>
      length (ar_items (asked rows (paged_filters f p))) = b + 1 - a"
    unfolding asked_page audit_result.simps shown_range_def page_size_def by (auto simp: min_def)
qed

lemma pages_cover_the_log_witness:
  "case shown_range 0 (length [\<lparr>au_id = 1, au_timestamp = ''t'', au_outcome = ''denied''\<rparr>]) of (a, b) \<Rightarrow> b + 1 - a = 1"
  using pages_cover_the_log [of "[\<lparr>au_id = 1, au_timestamp = ''t'', au_outcome = ''denied''\<rparr>]" undefined 0]
  by (simp add: total_pages_def page_size_def asked_page shown_range_def)

text \<open>The buttons list the pages from \<open>e\<close> on, with a gap exactly where some are skipped.\<close>

fun well_paged :: "int \<Rightarrow> int \<Rightarrow> page_button list \<Rightarrow> bool" where
  "well_paged e n [] = (e = n)"
| "well_paged e n (PageNo p # bs) = (p = e \<and> well_paged (e + 1) n bs)"
| "well_paged e n (Gap # PageNo p # bs) = (e < p \<and> well_paged (p + 1) n bs)"
| "well_paged e n (Gap # bs) = False"

lemma well_paged_run:
  "e \<le> m + 1 \<Longrightarrow> well_paged e n (map PageNo [e..m] @ bs) = well_paged (m + 1) n bs"
proof (induction "nat (m + 1 - e)" arbitrary: e)
  case 0
  then have "e = m + 1" by simp
  then show ?case by simp
next
  case (Suc k)
  then have "e \<le> m" by simp
  moreover have "k = nat (m + 1 - (e + 1))" using Suc.hyps(2) by simp
  ultimately show ?case using Suc.hyps(1) [of "e + 1"] by (simp add: upto_rec1)
qed

lemma well_paged_gap_run:
  "e < p \<Longrightarrow> p \<le> m \<Longrightarrow> well_paged e n (Gap # map PageNo [p..m] @ bs) = well_paged (m + 1) n bs"
  using well_paged_run [of "p + 1" m n bs] by (simp add: upto_rec1)

lemma well_paged_tail:
  "well_paged e n ((if c < n - 4 then [Gap] else []) @ [PageNo (n - 2), PageNo (n - 1)])"
  if "if c < n - 4 then e < n - 2 else e = n - 2" for c
  using that by (auto split: if_splits)

text \<open>
  C38: the pagination bar tells the truth about the pages. From the first to the last page it
  lists them in order and marks exactly the places where pages are left out; the current page is
  always among at most nine buttons.
\<close>

theorem pager_lists_pages:
  assumes "0 \<le> current" "current < n"
  shows "well_paged 0 n (page_range current n) \<and> PageNo current \<in> set (page_range current n)
    \<and> length (page_range current n) \<le> 9"
proof (cases "n \<le> 7")
  case True
  have "well_paged 0 n (map PageNo [0..n - 1])"
    using well_paged_run [of 0 "n - 1" n "[]"] assms by simp
  then show ?thesis using True assms by (simp add: page_range_def)
next
  case False
  define s where "s = max 2 (current - 1)"
  define e where "e = min (n - 3) (current + 1)"
  let ?tail = "(if current < n - 4 then [Gap] else []) @ [PageNo (n - 2), PageNo (n - 1)]"
  have r: "page_range current n = [PageNo 0, PageNo 1] @ (if 3 < current then [Gap] else []) @ map PageNo [s..e] @ ?tail"
    using False by (simp add: page_range_def s_def e_def)
  have "well_paged 2 n ((if 3 < current then [Gap] else []) @ map PageNo [s..e] @ ?tail)"
  proof (cases "3 < current")
    case gap: True
    show ?thesis
    proof (cases "s \<le> e")
      case True
      have "well_paged (e + 1) n ?tail" by (rule well_paged_tail) (use gap True False assms in \<open>auto simp: s_def e_def\<close>)
      then show ?thesis using gap True well_paged_gap_run [of 2 s e n ?tail] by (simp add: s_def)
    next
      case none: False
      then show ?thesis using gap False assms by (auto simp: s_def e_def)
    qed
  next
    case no_gap: False
    have "s = 2" "2 \<le> e + 1" using no_gap False assms by (auto simp: s_def e_def)
    moreover have "well_paged (e + 1) n ?tail"
      by (rule well_paged_tail) (use no_gap False assms in \<open>auto simp: e_def\<close>)
    ultimately show ?thesis using no_gap well_paged_run [of 2 e n ?tail] by simp
  qed
  then have "well_paged 0 n (page_range current n)" unfolding r by simp
  moreover have "PageNo current \<in> set (page_range current n)"
    unfolding r using False assms by (auto simp: s_def e_def)
  moreover have "length (page_range current n) \<le> 9"
    unfolding r using False assms by (auto simp: s_def e_def)
  ultimately show ?thesis by blast
qed

lemma pager_lists_pages_witness: "well_paged 0 100 (page_range 5 100)"
  using pager_lists_pages [of 5 100] by simp

lemma page_range_inside: "PageNo p \<in> set (page_range (int page) (int n)) \<Longrightarrow> 0 < n \<Longrightarrow> 0 \<le> p \<and> p < int n"
  by (auto simp: page_range_def split: if_splits)

text \<open>
  the pagination bar never leads past the last page: from an existing page every button leads to
  an existing one.
\<close>

theorem pager_stays_inside:
  assumes "page < total_pages n" "pager_target page (total_pages n) click = Some p"
  shows "p < total_pages n"
proof (cases click)
  case (PageClick q)
  then have "PageNo q \<in> set (page_range (int page) (int (total_pages n)))" "p = nat q"
    using assms(2) by (auto simp: pager_target_def split: if_splits)
  then show ?thesis using page_range_inside [of q page "total_pages n"] assms(1) by auto
qed (use assms in \<open>auto simp: pager_target_def split: if_splits\<close>)

lemma pager_stays_inside_witness: "pager_target 1 (total_pages 120) NextClick = Some 2 \<and> 2 < total_pages 120"
proof -
  have t: "total_pages 120 = 3" by code_simp
  then have "pager_target 1 (total_pages 120) NextClick = Some 2" by (simp add: pager_target_def)
  with pager_stays_inside [OF _ this] show ?thesis by (simp add: t)
qed

section \<open>Where the page misleads\<close>

text \<open>
  the denials and the density speak of the newest page only: the query made for the whole time
  range has no limit, and the server answers such a query with fifty rows.
\<close>

theorem range_query_sees_newest_page:
  "audit_shows rows (params_from_search ps c) p = AbResults r \<Longrightarrow>
   as_timeline r = take 50 rows \<and> as_denied r = denied_count (take 50 rows)"
  by (auto simp: audit_shows_def audit_body_def asked_whole Let_def asked_page)

text \<open>
  the page can be left without a way out: when entries expire while a later page is shown, it has no
  rows, no note that there are none, and no pagination bar.
\<close>

theorem expired_page_is_blank:
  assumes "0 < length rows" "length rows \<le> 50" "0 < p"
  shows "case audit_shows rows f p of
      AbResults r \<Rightarrow> as_rows r = [] \<and> \<not> as_pager r \<and> \<not> as_empty_filtered r \<and> \<not> as_no_events r
    | _ \<Rightarrow> False"
proof -
  have "drop (p * 50) rows = []" using assms by simp
  then show ?thesis using assms unfolding audit_shows_def audit_body_def asked_page
    by (simp add: Let_def page_size_def)
qed

text \<open>
  a change of the address by the browser keeps the page, although the comment says it resets it.
\<close>

theorem address_keeps_page: "ad_page (audit_step c s (AeAddress ps)) = ad_page s"
  by simp

section \<open>The density strip counts the window\<close>

lemma length_count_rows: "length (fold (count_row date from to n) rows bars) = length bars"
  by (induction rows arbitrary: bars) (simp_all add: count_row_def split: option.splits)

definition in_window :: "(string \<Rightarrow> int option) \<Rightarrow> int \<Rightarrow> int \<Rightarrow> audit_row \<Rightarrow> bool" where
  "in_window date from to r = (case date (au_timestamp r) of None \<Rightarrow> False | Some t \<Rightarrow> from \<le> t \<and> t \<le> to)"

definition in_slot :: "(string \<Rightarrow> int option) \<Rightarrow> int \<Rightarrow> int \<Rightarrow> nat \<Rightarrow> nat \<Rightarrow> audit_row \<Rightarrow> bool" where
  "in_slot date from to n i r =
     (case date (au_timestamp r) of
        None \<Rightarrow> False | Some t \<Rightarrow> from \<le> t \<and> t \<le> to \<and> bucket_index from to n t = i)"

lemma bucket_index_less: "0 < n \<Longrightarrow> bucket_index from to n t < n"
  by (auto simp: bucket_index_def Let_def)

lemma count_rows_bar:
  assumes "i < length bars" "length bars = n"
  shows "db_total (fold (count_row date from to n) rows bars ! i)
      = db_total (bars ! i) + length (filter (in_slot date from to n i) rows)
    \<and> db_denied (fold (count_row date from to n) rows bars ! i)
      = db_denied (bars ! i) + denied_count (filter (in_slot date from to n i) rows)
    \<and> db_from (fold (count_row date from to n) rows bars ! i) = db_from (bars ! i)
    \<and> db_to (fold (count_row date from to n) rows bars ! i) = db_to (bars ! i)"
  using assms
proof (induction rows arbitrary: bars)
  case (Cons r rows)
  let ?b = "count_row date from to n r bars"
  have len: "length ?b = length bars" by (simp add: count_row_def split: option.splits)
  have one: "db_total (?b ! i) = db_total (bars ! i) + (if in_slot date from to n i r then 1 else 0)
    \<and> db_denied (?b ! i) = db_denied (bars ! i)
        + (if in_slot date from to n i r \<and> au_outcome r = ''denied'' then 1 else 0)
    \<and> db_from (?b ! i) = db_from (bars ! i) \<and> db_to (?b ! i) = db_to (bars ! i)"
    using Cons.prems by (auto simp: count_row_def in_slot_def count_in_bar_def Let_def nth_list_update split: option.splits)
  show ?case using Cons.IH [of ?b] Cons.prems len one by (simp add: denied_count_def)
qed (simp add: denied_count_def)

lemma count_rows_sum:
  "0 < n \<Longrightarrow> length bars = n \<Longrightarrow>
   sum_list (map db_total (fold (count_row date from to n) rows bars))
     = sum_list (map db_total bars) + length (filter (in_window date from to) rows)"
proof (induction rows arbitrary: bars)
  case (Cons r rows)
  let ?b = "count_row date from to n r bars"
  have len: "length ?b = length bars" by (simp add: count_row_def split: option.splits)
  have one: "sum_list (map db_total ?b) = sum_list (map db_total bars) + (if in_window date from to r then 1 else 0)"
  proof (cases "in_window date from to r")
    case True
    then obtain t where t: "date (au_timestamp r) = Some t" "from \<le> t" "t \<le> to"
      by (auto simp: in_window_def split: option.splits)
    let ?i = "bucket_index from to n t"
    have i: "?i < length bars" using bucket_index_less Cons.prems by simp
    have "db_total (bars ! ?i) \<le> sum_list (map db_total bars)" using i by (intro member_le_sum_list) auto
    then show ?thesis using t i True
      by (simp add: count_row_def map_update sum_list_update count_in_bar_def Let_def)
  qed (auto simp: count_row_def in_window_def split: option.splits)
  show ?case using Cons.IH [of ?b] Cons.prems len one by simp
qed simp

lemma int_le_div: "k \<le> m div q \<longleftrightarrow> k * q \<le> m" if "0 < q" for k m q :: int
proof
  assume "k \<le> m div q"
  then have "k * q \<le> m div q * q" using that by (intro mult_right_mono) auto
  also have "\<dots> \<le> m" using that by (simp add: minus_mod_eq_div_mult [symmetric])
  finally show "k * q \<le> m" .
next
  assume "k * q \<le> m"
  then have "k * q div q \<le> m div q" using that by (rule zdiv_mono1)
  then show "k \<le> m div q" using that by simp
qed

lemma slot_edges:
  assumes "from < to" "from \<le> t" "t \<le> to" "i < n"
  shows "bucket_index from to n t = i \<longleftrightarrow>
    int n * from + int i * (to - from) \<le> int n * t
    \<and> (int n * t < int n * from + (int i + 1) * (to - from) \<or> i = n - 1)"
proof -
  define d where "d = (t - from) * int n div (to - from)"
  have pos: "0 < to - from" using assms by simp
  have d0: "0 \<le> d" using assms by (simp add: d_def pos_imp_zdiv_nonneg_iff)
  have le: "int i \<le> d \<longleftrightarrow> int n * from + int i * (to - from) \<le> int n * t"
    unfolding d_def int_le_div [OF pos] by (simp add: algebra_simps)
  have lt: "int i + 1 \<le> d \<longleftrightarrow> int n * from + (int i + 1) * (to - from) \<le> int n * t"
    unfolding d_def int_le_div [OF pos] by (simp add: algebra_simps)
  have "bucket_index from to n t = i \<longleftrightarrow> int i \<le> d \<and> (\<not> int i + 1 \<le> d \<or> i = n - 1)"
  proof (cases "int n \<le> d")
    case True
    then show ?thesis using d0 assms(4) unfolding bucket_index_def d_def [symmetric] Let_def by auto
  next
    case False
    then show ?thesis using d0 assms(4) unfolding bucket_index_def d_def [symmetric] Let_def
      by (simp add: nat_eq_iff) linarith
  qed
  then show ?thesis unfolding le lt by (simp add: not_le)
qed

text \<open>The rows a bar's tooltip speaks of: from its left edge to before its right edge, which the last bar includes.\<close>

definition in_bar :: "(string \<Rightarrow> int option) \<Rightarrow> density \<Rightarrow> nat \<Rightarrow> audit_row \<Rightarrow> bool" where
  "in_bar date d i r =
     (case date (au_timestamp r) of
        None \<Rightarrow> False
      | Some t \<Rightarrow>
          (let n = length (de_bars d); b = de_bars d ! i
           in de_from d \<le> t \<and> t \<le> de_to d \<and> db_from b \<le> int n * t \<and> (int n * t < db_to b \<or> i = n - 1)))"

text \<open>
  C39: the density strip counts the entries of its window. It has sixty bars; the number it prints is
  the number of entries whose time lies in the window, and each bar counts exactly the entries, and
  the denied ones, between its edges.
\<close>

theorem density_counts_window:
  assumes "bucketize date rows f u bucket_count = Some d"
  shows "length (de_bars d) = 60
    \<and> de_total d = length (filter (in_window date (de_from d) (de_to d)) rows)
    \<and> (\<forall>i < 60. db_total (de_bars d ! i) = length (filter (in_bar date d i) rows)
         \<and> db_denied (de_bars d ! i) = denied_count (filter (in_bar date d i) rows))"
proof -
  obtain lo hi where w: "time_window date rows f u = Some (lo, hi)"
    using assms by (auto simp: bucketize_def split: option.splits)
  let ?b = "fold (count_row date lo hi 60) rows (empty_bars lo hi 60)"
  have lt: "lo < hi" and d: "de_bars d = ?b" "de_from d = lo" "de_to d = hi"
    "de_total d = fold (\<lambda>b n. n + db_total b) ?b 0"
    using assms by (auto simp: bucketize_def w bucket_count_def Let_def split: if_splits)
  have e: "length (empty_bars lo hi 60) = 60"
    "\<And>i. i < 60 \<Longrightarrow> db_total (empty_bars lo hi 60 ! i) = 0 \<and> db_denied (empty_bars lo hi 60 ! i) = 0
      \<and> db_from (empty_bars lo hi 60 ! i) = 60 * lo + int i * (hi - lo)
      \<and> db_to (empty_bars lo hi 60 ! i) = 60 * lo + (int i + 1) * (hi - lo)"
    by (simp_all add: empty_bars_def)
  have len: "length ?b = 60" by (simp add: length_count_rows e)
  have sum: "fold (\<lambda>b n. n + db_total b) bs k = k + sum_list (map db_total bs)" for bs k
    by (induction bs arbitrary: k) simp_all
  have zero: "sum_list (map db_total (empty_bars lo hi 60)) = 0"
    by (simp add: empty_bars_def comp_def)
  have bar: "in_slot date lo hi 60 i r = in_bar date d i r" if "i < 60" for i r
    using slot_edges [OF lt _ _ that] count_rows_bar [of i "empty_bars lo hi 60" 60 date lo hi rows] e that
    by (auto simp: in_slot_def in_bar_def d len Let_def split: option.splits)
  have "db_total (de_bars d ! i) = length (filter (in_bar date d i) rows)
      \<and> db_denied (de_bars d ! i) = denied_count (filter (in_bar date d i) rows)" if i: "i < 60" for i
  proof -
    have "in_slot date lo hi 60 i = in_bar date d i" using bar [OF i] by blast
    then show ?thesis using count_rows_bar [of i "empty_bars lo hi 60" 60 date lo hi rows] e i d by simp
  qed
  moreover have "de_total d = length (filter (in_window date lo hi) rows)"
    using count_rows_sum [of 60 "empty_bars lo hi 60" date lo hi rows] by (simp add: d sum zero e)
  ultimately show ?thesis using len d by simp
qed

lemma density_counts_window_witness:
  "de_total (the (bucketize (\<lambda>s. Some (int (length s))) [\<lparr>au_id = 1, au_timestamp = ''ab'', au_outcome = ''denied''\<rparr>]
     (Some ''a'') (Some ''abc'') bucket_count)) = 1"
proof -
  let ?d = "bucketize (\<lambda>s. Some (int (length s))) [\<lparr>au_id = 1, au_timestamp = ''ab'', au_outcome = ''denied''\<rparr>]
     (Some ''a'') (Some ''abc'') bucket_count"
  have w: "time_window (\<lambda>s. Some (int (length s))) [\<lparr>au_id = 1, au_timestamp = ''ab'', au_outcome = ''denied''\<rparr>]
     (Some ''a'') (Some ''abc'') = Some (1, 3)" by (simp add: time_window_def)
  obtain d where d: "?d = Some d" "de_from d = 1" "de_to d = 3" unfolding bucketize_def w by (simp add: Let_def)
  from density_counts_window [OF d(1)] show ?thesis by (simp add: d in_window_def)
qed

text \<open>
  a denial can be invisible: in a low bar with one entry of each outcome the rounded heights of the
  other two bands leave nothing for the red one.
\<close>

theorem denial_without_red:
  "bar_pixels 70 \<lparr>db_from = 0, db_to = 1, db_success = 1, db_failure = 1, db_denied = 1, db_total = 3\<rparr> = (1, 1, 0)"
  by (simp add: bar_pixels_def round_div_def Let_def)

end
