(* ===== verification/StripForEdit.thy ===== *)
theory StripForEdit
  imports Prelude
begin

text \<open>
  Model of \<open>web/src/lib/stripForEdit.ts\<close>: the line filter that drops server-managed blocks from
  a YAML text. The loop's two variables are the indent of the block being skipped and the
  indent of the metadata block the loop is in.
\<close>

definition meta_scalars :: "string list" where
  "meta_scalars = [''uid'', ''resourceVersion'', ''generation'', ''creationTimestamp'']"

text \<open>\<open>line.search(/\S/)\<close>, with \<open>None\<close> for -1.\<close>

definition indent_of :: "string \<Rightarrow> nat option" where
  "indent_of line =
     (let n = length (takeWhile is_ws line) in if n < length line then Some n else None)"

text \<open>\<open>/:\s*$/.test(s)\<close>\<close>

definition ends_with_colon :: "string \<Rightarrow> bool" where
  "ends_with_colon s = (case dropWhile is_ws (rev s) of c # _ \<Rightarrow> c = CHR '':'' | [] \<Rightarrow> False)"

definition opens_block :: "string \<Rightarrow> bool" where
  "opens_block trimmed = (\<not> str_contains trimmed '':'' \<or> ends_with_colon trimmed)"

definition server_block :: "string \<Rightarrow> bool" where
  "server_block trimmed = (starts_with ''status:'' trimmed \<or> starts_with ''managedFields:'' trimmed)"

definition scalar_key :: "string \<Rightarrow> string" where
  "scalar_key trimmed =
     (case index_of (CHR '':'') trimmed of
        Some i \<Rightarrow> if 0 < i then take i trimmed else trimmed
      | None \<Rightarrow> trimmed)"

definition still_inside :: "nat \<Rightarrow> string \<Rightarrow> bool" where
  "still_inside d line =
     (case indent_of line of
        None \<Rightarrow> True
      | Some i \<Rightarrow> d < i \<or> i = d \<and> starts_with ''- '' (trim_start line))"

text \<open>
  What the loop body does with a line once no block is being skipped: keep it or not, and the
  new values of the two variables.
\<close>

definition strip_line :: "nat option \<Rightarrow> string \<Rightarrow> bool \<times> nat option \<times> nat option" where
  "strip_line metadata_at line =
     (let indent = indent_of line;
          m = (case (metadata_at, indent) of
                 (Some a, Some i) \<Rightarrow> if i \<le> a then None else metadata_at
               | _ \<Rightarrow> metadata_at);
          trimmed = trim_start line
      in if server_block trimmed
         then (False, if opens_block trimmed then indent else None, m)
         else if (case (m, indent) of (Some a, Some i) \<Rightarrow> i = a + 2 | _ \<Rightarrow> False)
                 \<and> scalar_key trimmed \<in> set meta_scalars
         then (False, if ends_with_colon trimmed then indent else None, m)
         else (True, None,
               if starts_with ''metadata:'' trimmed \<and> indent \<noteq> None then indent else m))"

fun strip_lines :: "nat option \<Rightarrow> nat option \<Rightarrow> string list \<Rightarrow> string list" where
  "strip_lines skip metadata_at [] = []"
| "strip_lines skip metadata_at (line # lines) =
     (if (case skip of Some d \<Rightarrow> still_inside d line | None \<Rightarrow> False)
      then strip_lines skip metadata_at lines
      else (let (keep, skip', metadata') = strip_line metadata_at line
            in if keep then line # strip_lines skip' metadata' lines
               else strip_lines skip' metadata' lines))"

definition strip_for_edit :: "string \<Rightarrow> string" where
  "strip_for_edit yaml =
     (if \<not> str_contains yaml ''managedFields:'' \<and> \<not> str_contains yaml ''status:'' then yaml
      else join_str [newline] (strip_lines None None (split_on newline yaml)))"

section \<open>Correctness\<close>

lemma strip_lines_subseq: "subseq (strip_lines skip m lines) lines"
  by (induction skip m lines rule: strip_lines.induct) (auto split: prod.splits)

lemma strip_line_keeps: "strip_line m line = (True, s, m') \<Longrightarrow> \<not> server_block (trim_start line)"
  by (auto simp: strip_line_def Let_def split: if_splits)

lemma strip_lines_clean:
  "line \<in> set (strip_lines skip m lines) \<Longrightarrow> \<not> server_block (trim_start line)"
proof (induction lines arbitrary: skip m)
  case (Cons l lines)
  obtain keep s' m' where r: "strip_line m l = (keep, s', m')" by (cases "strip_line m l") auto
  show ?case
  proof (cases "line \<in> set (strip_lines skip m lines) \<or> line \<in> set (strip_lines s' m' lines)")
    case True
    then show ?thesis using Cons.IH by blast
  next
    case False
    then have "keep" "line = l" using Cons.prems r by (auto split: if_splits)
    then show ?thesis using r strip_line_keeps [of m l s' m'] by simp
  qed
qed simp

lemma str_contains_append: "str_contains (xs @ p @ ys) p"
  by (auto simp: str_contains_def list_ex_iff intro!: bexI [of _ "p @ ys"]) (simp add: suffix_def)

text \<open>
  The filter only removes whole lines. The result consists of lines of the text in their order,
  none of which starts a status or managed-fields block, whatever its indentation.
\<close>

theorem strip_removes_whole_lines:
  defines "kept \<equiv> \<lambda>yaml. split_on newline (strip_for_edit yaml)"
  assumes "strip_lines None None (split_on newline yaml) \<noteq> []"
  shows "subseq (kept yaml) (split_on newline yaml) \<and>
     (\<forall>line \<in> set (kept yaml). \<not> server_block (trim_start line))"
proof (cases "\<not> str_contains yaml ''managedFields:'' \<and> \<not> str_contains yaml ''status:''")
  case True
  have "\<not> server_block (trim_start line)" if l: "line \<in> set (split_on newline yaml)" for line
  proof
    assume "server_block (trim_start line)"
    then obtain p t where p: "p \<in> {''managedFields:'', ''status:''}" "trim_start line = p @ t"
      unfolding server_block_def prefix_def by blast
    have "line = takeWhile is_ws line @ p @ t" using p(2) by (metis takeWhile_dropWhile_id trim_start_def)
    moreover obtain xs ys where "yaml = xs @ line @ ys" using split_on_infix [OF l] by blast
    ultimately have "yaml = (xs @ takeWhile is_ws line) @ p @ (t @ ys)" by simp
    then have "str_contains yaml p" by (metis str_contains_append)
    then show False using True p(1) by auto
  qed
  then show ?thesis using True by (simp add: kept_def strip_for_edit_def)
next
  case False
  have sub: "subseq (strip_lines None None (split_on newline yaml)) (split_on newline yaml)"
    by (rule strip_lines_subseq)
  have "split_on newline (join_str [newline] (strip_lines None None (split_on newline yaml))) =
      strip_lines None None (split_on newline yaml)"
    using assms(2) list_emb_set [OF sub] split_on_pieces by (intro split_join) blast+
  then show ?thesis using False sub strip_lines_clean by (auto simp: kept_def strip_for_edit_def)
qed

lemma strip_removes_whole_lines_witness:
  "let yaml = join_str [newline] [''kind: Pod'', ''status:'', ''  phase: Running'']
   in strip_for_edit yaml = ''kind: Pod'' \<and> subseq (split_on newline (strip_for_edit yaml)) (split_on newline yaml)"
proof -
  let ?y = "join_str [newline] [''kind: Pod'', ''status:'', ''  phase: Running'']"
  have "strip_for_edit ?y = ''kind: Pod'' \<and> strip_lines None None (split_on newline ?y) = [''kind: Pod'']"
    by code_simp
  then show ?thesis using strip_removes_whole_lines [of ?y] by (simp add: Let_def)
qed

text \<open>
  The comment promises to strip the blocks at the top level only. The filter strips them at
  any depth: exporting a custom resource definition loses the line that enables its status
  subresource.
\<close>

theorem nested_status_is_stripped:
  "strip_for_edit (join_str [newline]
      [''kind: CustomResourceDefinition'', ''spec:'', ''  versions:'', ''  - name: v1'',
       ''    subresources:'', ''      status: {}'', ''    served: true'']) =
   join_str [newline]
      [''kind: CustomResourceDefinition'', ''spec:'', ''  versions:'', ''  - name: v1'',
       ''    subresources:'', ''    served: true'']"
  by code_simp

end
