(* ===== verification/BulkYaml.thy ===== *)
theory BulkYaml
  imports WorkerPool StripForEdit ApiError
begin

text \<open>
  Model of \<open>web/src/lib/multiYaml.ts\<close>: fetching the YAML of many rows through the worker pool,
  assembling the file with a header of failures, and its file name. A fetch settles to a text
  or a thrown value; the browser download itself is not modelled.
\<close>

record bulk_data =
  bd_docs :: "string option list"
  bd_failures :: "(string \<times> string) list"
  bd_done :: nat

record bulk_result =
  br_yaml :: string
  br_success_count :: nat
  br_failures :: "(string \<times> string) list"

definition bulk_initial :: "nat \<Rightarrow> bulk_data" where
  "bulk_initial n = \<lparr>bd_docs = replicate n None, bd_failures = [], bd_done = 0\<rparr>"

fun error_message :: "thrown \<Rightarrow> string" where
  "error_message (ThrownApi e) = ae_message e"
| "error_message (ThrownMultiDocument m) = m"
| "error_message (ThrownYamlParse m) = m"
| "error_message (ThrownError m) = m"
| "error_message (ThrownOther m) = m"

text \<open>What a worker does with a settled fetch; \<open>ids\<close> are the ids of the items.\<close>

definition bulk_settle ::
  "bool \<Rightarrow> string list \<Rightarrow> bool \<Rightarrow> nat \<Rightarrow> thrown + string \<Rightarrow> bulk_data \<Rightarrow> bulk_data" where
  "bulk_settle strip ids aborted i out d =
     (let d1 = (case out of
                  Inr raw \<Rightarrow> d\<lparr>bd_docs := (bd_docs d)[i := Some (if strip then strip_for_edit raw else raw)]\<rparr>
                | Inl err \<Rightarrow>
                    if aborted then d
                    else d\<lparr>bd_failures := bd_failures d @ [(ids ! i, error_message err)]\<rparr>)
      in if aborted then d1 else d1\<lparr>bd_done := bd_done d1 + 1\<rparr>)"

definition ensure_trailing_newline :: "string \<Rightarrow> string" where
  "ensure_trailing_newline s =
     (if length s = 0 then s else if ends_with [newline] s then s else s @ [newline])"

definition failures_header_lines :: "(string \<times> string) list \<Rightarrow> string list" where
  "failures_header_lines failures =
     [''# Bulk YAML download '' @ em_dash @ '' '' @ show_nat (length failures) @
        '' resource(s) failed to fetch:'']
     @ map (\<lambda>(i, reason). ''#   - '' @ i @ '': '' @ reason) failures
     @ [''#'', '''']"

definition build_failures_header :: "(string \<times> string) list \<Rightarrow> string" where
  "build_failures_header failures = join_str [newline] (failures_header_lines failures)"

text \<open>\<open>docs.filter((d) => d !== null)\<close>\<close>

primrec present :: "'a option list \<Rightarrow> 'a list" where
  "present [] = []"
| "present (x # xs) = (case x of None \<Rightarrow> present xs | Some y \<Rightarrow> y # present xs)"

definition assemble :: "bulk_data pool \<Rightarrow> bulk_result" where
  "assemble s =
     (if po_aborted s then \<lparr>br_yaml = [], br_success_count = 0, br_failures = []\<rparr>
      else let docs = present (bd_docs (po_data s));
               failures = bd_failures (po_data s);
               header = (if 0 < length failures then build_failures_header failures else []);
               body = join_str (''---'' @ [newline]) (map ensure_trailing_newline docs)
           in \<lparr>br_yaml = header @ body, br_success_count = length docs, br_failures = failures\<rparr>)"

definition bulk_fetch_yaml ::
  "bool \<Rightarrow> string list \<Rightarrow> (thrown + string) pool_event list \<Rightarrow> bulk_data pool" where
  "bulk_fetch_yaml strip ids es =
     pool_run (bulk_settle strip ids) (length ids) (bulk_initial (length ids)) es"

section \<open>File names\<close>

definition safe_char :: "char \<Rightarrow> bool" where
  "safe_char c =
     (let n = (of_char c :: nat)
      in 97 \<le> n \<and> n \<le> 122 \<or> 65 \<le> n \<and> n \<le> 90 \<or> 48 \<le> n \<and> n \<le> 57 \<or> c \<in> set ''._-'')"

fun squash_unsafe :: "bool \<Rightarrow> string \<Rightarrow> string" where
  "squash_unsafe in_run [] = []"
| "squash_unsafe in_run (c # cs) =
     (if safe_char c then c # squash_unsafe False cs
      else if in_run then squash_unsafe True cs
      else CHR ''_'' # squash_unsafe True cs)"

definition trim_edge :: "char \<Rightarrow> bool" where
  "trim_edge c = (c \<in> set ''-_.'')"

definition sanitize :: "string \<Rightarrow> string" where
  "sanitize s =
     (let t = take 64 (rev (dropWhile trim_edge (rev (dropWhile trim_edge (squash_unsafe False s)))))
      in if t \<noteq> [] then t else ''k8s'')"

definition pad2 :: "nat \<Rightarrow> string" where
  "pad2 n = (let t = show_nat n in if length t < 2 then ''0'' @ t else t)"

definition build_filename :: "string \<Rightarrow> string \<Rightarrow> nat \<Rightarrow> nat \<times> nat \<times> nat \<Rightarrow> string" where
  "build_filename cluster kind_label n date =
     (let (yyyy, month0, day) = date
      in sanitize cluster @ ''-'' @ sanitize kind_label @ ''-'' @ show_nat yyyy @ ''-'' @
         pad2 (month0 + 1) @ ''-'' @ pad2 day @ ''-'' @ show_nat n @ ''.yaml'')"

section \<open>The pool contract\<close>

definition doc_slot_free :: "nat \<Rightarrow> bulk_data \<Rightarrow> nat \<Rightarrow> bool" where
  "doc_slot_free n d i = (length (bd_docs d) = n \<and> i < n \<and> bd_docs d ! i = None)"

definition bulk_settled :: "bulk_data \<Rightarrow> nat" where
  "bulk_settled d = length (present (bd_docs d)) + length (bd_failures d)"

lemma present_append:
  "present (xs @ ys) = present xs @ present ys"
  by (induction xs) (auto split: option.splits)

lemma filled_update:
  assumes "i < length ds" "ds ! i = None"
  shows "length (present (ds[i := Some x])) = Suc (length (present ds))"
proof -
  have ds: "take i ds @ None # drop (Suc i) ds = ds" using assms by (metis id_take_nth_drop)
  have "present (take i ds @ None # drop (Suc i) ds) =
      present (take i ds) @ present (drop (Suc i) ds)"
    by (simp add: present_append)
  then have "length (present ds) =
      length (present (take i ds) @ present (drop (Suc i) ds))"
    unfolding ds by simp
  then show ?thesis
    by (simp add: upd_conv_take_nth_drop [OF assms(1)] present_append)
qed

interpretation bulk_pool: worker_pool "bulk_settle strip ids" "doc_slot_free (length ids)"
  bulk_settled "length ids"
proof
  fix d i out
  show "i < length ids \<Longrightarrow> doc_slot_free (length ids) d i \<Longrightarrow>
      bulk_settled (bulk_settle strip ids False i out d) = Suc (bulk_settled d)"
    by (cases out) (simp_all add: bulk_settled_def bulk_settle_def doc_slot_free_def filled_update)
  show "j \<noteq> i \<Longrightarrow> doc_slot_free (length ids) (bulk_settle strip ids a i out d) j =
      doc_slot_free (length ids) d j" for j a
    by (cases out) (auto simp: bulk_settle_def doc_slot_free_def Let_def)
qed

lemma bulk_initial_ok:
  "bulk_settled (bulk_initial n) = 0" "\<forall>i < n. doc_slot_free n (bulk_initial n) i"
proof -
  have "present (replicate n (None :: string option)) = []"
    by (induction n) (simp_all)
  then show "bulk_settled (bulk_initial n) = 0" by (simp add: bulk_settled_def bulk_initial_def)
qed (simp add: doc_slot_free_def bulk_initial_def)

text \<open>
  C23: No row is lost. However the fetches interleave, at most six are in flight; and when none is
  left and the download was not cancelled, the documents in the file and the reported failures
  together account for every selected row.
\<close>

theorem bulk_accounts_for_every_row:
  defines "s \<equiv> \<lambda>strip ids es. bulk_fetch_yaml strip ids es"
  shows "length (po_running (s strip ids es)) \<le> 6 \<and>
    (\<not> po_aborted (s strip ids es) \<and> po_running (s strip ids es) = [] \<longrightarrow>
       br_success_count (assemble (s strip ids es)) + length (br_failures (assemble (s strip ids es)))
         = length ids)"
proof -
  have "br_success_count (assemble t) + length (br_failures (assemble t)) = bulk_settled (po_data t)"
    if "\<not> po_aborted t" for t
    using that by (simp add: assemble_def bulk_settled_def Let_def)
  then show ?thesis
    using bulk_pool.run_bounded [OF bulk_initial_ok, of strip ids es]
      bulk_pool.run_complete [OF bulk_initial_ok, of strip ids es]
    by (simp add: s_def bulk_fetch_yaml_def max_parallel_def)
qed

lemma bulk_accounts_for_every_row_witness:
  "let t = bulk_fetch_yaml False [''a'', ''b''] [PoolSettle 1 (Inr ''y''), PoolSettle 0 (Inl (ThrownError ''no''))]
   in br_success_count (assemble t) + length (br_failures (assemble t)) = 2"
proof -
  have "\<not> po_aborted (bulk_fetch_yaml False [''a'', ''b'']
      [PoolSettle 1 (Inr ''y''), PoolSettle 0 (Inl (ThrownError ''no''))]) \<and>
     po_running (bulk_fetch_yaml False [''a'', ''b'']
      [PoolSettle 1 (Inr ''y''), PoolSettle 0 (Inl (ThrownError ''no''))]) = []"
    by code_simp
  then show ?thesis
    using bulk_accounts_for_every_row [of False "[''a'', ''b'']"
        "[PoolSettle 1 (Inr ''y''), PoolSettle 0 (Inl (ThrownError ''no''))]"]
    by (simp add: Let_def)
qed

text \<open>The document slots hold only what was fetched for their row.\<close>

lemma nth_update_if: "xs[j := v] ! i = (if i = j \<and> i < length xs then v else xs ! i)"
  by (cases "j < length xs") (auto simp: nth_list_update list_update_beyond)

lemma bulk_docs_step:
  assumes "\<forall>i < length ids. bd_docs (po_data s) ! i \<in> {None, Some (text i)}"
    "length (bd_docs (po_data s)) = length ids" "bd_failures (po_data s) = []"
    "\<forall>i out. e = PoolSettle i out \<longrightarrow> out = Inr (raw i) \<and> text i = (if strip then strip_for_edit (raw i) else raw i)"
  defines "t \<equiv> pool_step (bulk_settle strip ids) (length ids) s e"
  shows "(\<forall>i < length ids. bd_docs (po_data t) ! i \<in> {None, Some (text i)}) \<and>
    length (bd_docs (po_data t)) = length ids \<and> bd_failures (po_data t) = []"
  using assms(1-4) unfolding t_def
  by (cases e) (auto simp: pool_pull_def bulk_settle_def Let_def nth_update_if split: if_splits)

lemma map_filter_full:
  "length xs = n \<Longrightarrow> \<forall>i < n. xs ! i \<in> {None, Some (f i)} \<Longrightarrow> length (present xs) = n \<Longrightarrow>
   present xs = map f [0..<n]"
proof (induction xs arbitrary: n rule: rev_induct)
  case (snoc x xs)
  have bound: "length (present ys) \<le> length ys" for ys :: "'a option list"
    by (induction ys) (auto split: option.splits)
  obtain m where n: "n = Suc m" "length xs = m" using snoc.prems(1) by (cases n) auto
  have "x = Some (f m)" "length (present xs) = m"
    using snoc.prems(2,3) n bound [of xs]
    by (auto simp: nth_append present_append dest!: spec [of _ m] split: option.splits)
  moreover have "\<forall>i < m. xs ! i \<in> {None, Some (f i)}" using snoc.prems(2) n
    by (metis less_SucI nth_append)
  ultimately show ?case using snoc.IH [of m] n by (simp add: present_append)
qed (simp)

text \<open>
  The file does not depend on the order in which fetches finish. When every fetch succeeds, the
  finished download is the rows' texts (stripped if asked for) in the order of the rows,
  separated by document markers, without a failure header.
\<close>

theorem bulk_file_in_row_order:
  assumes "\<forall>i out. PoolSettle i out \<in> set es \<longrightarrow> out = Inr (raw i)"
    and "\<not> po_aborted (bulk_fetch_yaml strip ids es)" "po_running (bulk_fetch_yaml strip ids es) = []"
  shows "br_yaml (assemble (bulk_fetch_yaml strip ids es)) =
    join_str (''---'' @ [newline])
      (map (\<lambda>i. ensure_trailing_newline (if strip then strip_for_edit (raw i) else raw i))
         [0..<length ids])"
proof -
  let ?text = "\<lambda>i. if strip then strip_for_edit (raw i) else raw i"
  let ?run = "bulk_fetch_yaml strip ids"
  have start: "po_data (pool_start k n d) = d" for k n and d :: bulk_data
    unfolding pool_start_def by (induction k) (simp_all add: pool_pull_def Let_def)
  have "(\<forall>i < length ids. bd_docs (po_data (?run es)) ! i \<in> {None, Some (?text i)}) \<and>
      length (bd_docs (po_data (?run es))) = length ids \<and> bd_failures (po_data (?run es)) = []"
    using assms(1)
  proof (induction es rule: rev_induct)
    case Nil
    show ?case by (simp add: bulk_fetch_yaml_def pool_run_def start bulk_initial_def)
  next
    case (snoc e es)
    then show ?case
      using bulk_docs_step [of ids "?run es" ?text e raw strip]
      by (simp add: bulk_fetch_yaml_def pool_run_def)
  qed
  moreover have "bulk_settled (po_data (?run es)) = length ids"
    using bulk_pool.run_complete [OF bulk_initial_ok] assms(2,3) by (simp add: bulk_fetch_yaml_def)
  ultimately have "present (bd_docs (po_data (?run es))) = map ?text [0..<length ids]"
      "bd_failures (po_data (?run es)) = []"
    using map_filter_full [of "bd_docs (po_data (?run es))" "length ids" ?text]
    by (simp_all add: bulk_settled_def)
  then show ?thesis using assms(2) by (simp add: assemble_def Let_def comp_def)
qed

lemma bulk_file_in_row_order_witness:
  "br_yaml (assemble (bulk_fetch_yaml False [''a'', ''b''] [PoolSettle 1 (Inr ''y''), PoolSettle 0 (Inr ''x'')])) =
     ''x'' @ [newline] @ ''---'' @ [newline] @ ''y'' @ [newline]"
proof -
  let ?es = "[PoolSettle 1 (Inr ''y''), PoolSettle 0 (Inr ''x'')] :: (thrown + string) pool_event list"
  have "\<not> po_aborted (bulk_fetch_yaml False [''a'', ''b''] ?es) \<and>
      po_running (bulk_fetch_yaml False [''a'', ''b''] ?es) = []"
    by code_simp
  then show ?thesis
    using bulk_file_in_row_order [of ?es "\<lambda>i. if i = 0 then ''x'' else ''y''" False "[''a'', ''b'']"]
    by (simp add: ensure_trailing_newline_def newline_def suffix_def)
qed

text \<open>
  Every line of the failure header is a comment, provided no id and no reason contains a line
  break; a reason with a line break puts its later lines outside the comment, into the YAML.
\<close>

theorem failure_header_is_comment:
  "(\<forall>(i, reason) \<in> set failures. newline \<notin> set i \<and> newline \<notin> set reason) \<longrightarrow>
     (\<forall>line \<in> set (split_on newline (build_failures_header failures)).
        line = [] \<or> starts_with ''#'' line)"
proof
  assume a: "\<forall>(i, reason) \<in> set failures. newline \<notin> set i \<and> newline \<notin> set reason"
  have digits: "newline \<notin> set (show_nat n)" for n
    by (induction n rule: show_nat.induct)
       (subst show_nat.simps, auto simp: newline_def dest!: arg_cong [of _ _ "of_char :: char \<Rightarrow> nat"])
  have plain: "newline \<notin> set ''# Bulk YAML download ''" "newline \<notin> set '' resource(s) failed to fetch:''"
    "newline \<notin> set ''#   - ''" "newline \<notin> set '': ''" "newline \<notin> set em_dash" "newline \<noteq> CHR '' ''"
    "newline \<noteq> CHR ''#''"
    by code_simp+
  have "split_on newline (build_failures_header failures) = failures_header_lines failures"
    unfolding build_failures_header_def
    by (rule split_join) (use a digits plain in \<open>auto simp: failures_header_lines_def split: prod.splits\<close>)
  then show "\<forall>line \<in> set (split_on newline (build_failures_header failures)).
        line = [] \<or> starts_with ''#'' line"
    by (auto simp: failures_header_lines_def)
qed

lemma failure_header_is_comment_witness:
  "\<forall>line \<in> set (split_on newline (build_failures_header [(''ns/web'', ''403 Forbidden'')])).
     line = [] \<or> starts_with ''#'' line"
proof -
  have "newline \<notin> set ''ns/web''" "newline \<notin> set ''403 Forbidden''" by code_simp+
  then show ?thesis using failure_header_is_comment [of "[(''ns/web'', ''403 Forbidden'')]"] by simp
qed

text \<open>
  A reason is copied verbatim: a message of two lines puts its second line into the file as
  YAML content.
\<close>

theorem multiline_reason_leaves_comment:
  "''kind: Secret'' \<in> set (split_on newline
     (build_failures_header [(''ns/web'', ''denied'' @ [newline] @ ''kind: Secret'')]))"
  by code_simp

lemma squash_safe: "c \<in> set (squash_unsafe b s) \<Longrightarrow> safe_char c"
  by (induction b s rule: squash_unsafe.induct) (auto simp: safe_char_def split: if_splits)

text \<open>
  A file name segment is never empty, never longer than 64 characters, and made of letters,
  digits, dots, dashes and underscores only, whatever the cluster is called.
\<close>

theorem file_name_segment_safe:
  "sanitize s \<noteq> [] \<and> length (sanitize s) \<le> 64 \<and> list_all safe_char (sanitize s)"
proof -
  have "list_all safe_char (take 64 (rev (dropWhile trim_edge (rev (dropWhile trim_edge
          (squash_unsafe False s))))))"
    by (auto simp: list_all_iff dest!: in_set_takeD set_dropWhileD squash_safe)
  then show ?thesis by (auto simp: sanitize_def Let_def safe_char_def)
qed

end
