(* ===== verification/TableSelection.thy ===== *)
theory TableSelection
  imports Prelude
begin

text \<open>
  Model of \<open>web/src/hooks/useTableSelection.ts\<close>: the selected row ids (a set in insertion
  order), the anchor of range selection, and the cap. The toasts shown are counted.
\<close>

record selection =
  ts_ids :: "string list"
  ts_anchor :: "string option"
  ts_toasts :: nat

definition default_cap :: nat where
  "default_cap = 100"

definition empty_selection :: selection where
  "empty_selection = \<lparr>ts_ids = [], ts_anchor = None, ts_toasts = 0\<rparr>"

definition cap_warning :: "selection \<Rightarrow> selection" where
  "cap_warning s = s\<lparr>ts_toasts := ts_toasts s + 1\<rparr>"

definition toggle :: "nat \<Rightarrow> string \<Rightarrow> selection \<Rightarrow> selection" where
  "toggle cap i s =
     (if i \<in> set (ts_ids s) then s\<lparr>ts_ids := removeAll i (ts_ids s), ts_anchor := Some i\<rparr>
      else if cap \<le> length (ts_ids s) then cap_warning s
      else s\<lparr>ts_ids := ts_ids s @ [i], ts_anchor := Some i\<rparr>)"

text \<open>The loop shared by range selection and select-all: the new set and how many ids it dropped.\<close>

fun add_capped :: "nat \<Rightarrow> string list \<Rightarrow> string list \<Rightarrow> string list \<times> nat" where
  "add_capped cap ids [] = (ids, 0)"
| "add_capped cap ids (x # xs) =
     (if x \<in> set ids then add_capped cap ids xs
      else if cap \<le> length ids
      then (let (out, dropped) = add_capped cap ids xs in (out, dropped + 1))
      else add_capped cap (ids @ [x]) xs)"

fun position :: "string \<Rightarrow> string list \<Rightarrow> nat option" where
  "position x [] = None"
| "position x (y # ys) = (if x = y then Some 0 else map_option Suc (position x ys))"

definition toggle_range :: "nat \<Rightarrow> string \<Rightarrow> string list \<Rightarrow> selection \<Rightarrow> selection" where
  "toggle_range cap i visible s =
     (case ts_anchor s of
        None \<Rightarrow> toggle cap i s
      | Some anchor \<Rightarrow>
          (if anchor = i then toggle cap i s
           else (case (position anchor visible, position i visible) of
                   (Some a, Some b) \<Rightarrow>
                     (let lo = min a b; hi = max a b;
                          (nxt, dropped) = add_capped cap (ts_ids s) (drop lo (take (hi + 1) visible));
                          s1 = (if 0 < dropped then cap_warning s else s)
                      in s1\<lparr>ts_ids := nxt, ts_anchor := Some i\<rparr>)
                 | _ \<Rightarrow> toggle cap i s)))"

definition select_all :: "nat \<Rightarrow> string list \<Rightarrow> selection \<Rightarrow> selection" where
  "select_all cap visible s =
     (let (nxt, dropped) = add_capped cap (ts_ids s) visible;
          s1 = (if 0 < dropped then cap_warning s else s)
      in s1\<lparr>ts_ids := nxt\<rparr>)"

definition clear_selection :: "selection \<Rightarrow> selection" where
  "clear_selection s = s\<lparr>ts_ids := [], ts_anchor := None\<rparr>"

datatype selection_event =
    EToggle string
  | EToggleRange string "string list"
  | ESelectAll "string list"
  | EClear

fun selection_step :: "nat \<Rightarrow> selection \<Rightarrow> selection_event \<Rightarrow> selection" where
  "selection_step cap s (EToggle i) = toggle cap i s"
| "selection_step cap s (EToggleRange i visible) = toggle_range cap i visible s"
| "selection_step cap s (ESelectAll visible) = select_all cap visible s"
| "selection_step cap s EClear = clear_selection s"

section \<open>Correctness\<close>

definition selection_inv :: "nat \<Rightarrow> selection \<Rightarrow> bool" where
  "selection_inv cap s \<longleftrightarrow> distinct (ts_ids s) \<and> length (ts_ids s) \<le> cap"

lemma add_capped_inv:
  "distinct ids \<Longrightarrow> length ids \<le> cap \<Longrightarrow>
   distinct (fst (add_capped cap ids xs)) \<and> length (fst (add_capped cap ids xs)) \<le> cap"
  by (induction cap ids xs rule: add_capped.induct) (auto split: prod.splits)

lemma toggle_inv: "selection_inv cap s \<Longrightarrow> selection_inv cap (toggle cap i s)"
  by (auto simp: selection_inv_def toggle_def cap_warning_def distinct_removeAll
      intro: order_trans [OF length_removeAll_less_eq])

lemma cap_warning_ids [simp]: "ts_ids (cap_warning s) = ts_ids s"
  by (simp add: cap_warning_def)

lemma selection_inv_step: "selection_inv cap s \<Longrightarrow> selection_inv cap (selection_step cap s e)"
proof (cases e)
  case (EToggleRange i visible)
  assume inv: "selection_inv cap s"
  have "selection_inv cap (toggle_range cap i visible s)"
    using toggle_inv [OF inv, of i] add_capped_inv [of "ts_ids s" cap] inv
    by (auto simp: toggle_range_def selection_inv_def Let_def split: option.splits prod.splits)
       (metis fst_conv)+
  then show ?thesis using EToggleRange by simp
next
  case (ESelectAll visible)
  assume "selection_inv cap s"
  then show ?thesis using ESelectAll add_capped_inv [of "ts_ids s" cap visible]
    by (auto simp: select_all_def selection_inv_def Let_def split: prod.splits)
qed (simp_all add: toggle_inv, simp add: selection_inv_def clear_selection_def)

interpretation table: event_machine "selection_step cap" "selection_inv cap"
  by unfold_locales (rule selection_inv_step)

text \<open>
  The cap holds whatever the operator clicks: after any sequence of toggles, range selections,
  select-alls and clears, at most \<open>cap\<close> rows are selected, each once.
\<close>

theorem selection_never_exceeds_cap:
  "length (ts_ids (foldl (selection_step cap) empty_selection es)) \<le> cap \<and>
   distinct (ts_ids (foldl (selection_step cap) empty_selection es))"
  using table.inv_run [of cap empty_selection es]
  by (simp add: selection_inv_def empty_selection_def)

lemma add_capped_exact:
  "distinct xs \<Longrightarrow> length ids \<le> cap \<Longrightarrow>
   add_capped cap ids xs =
     (ids @ take (cap - length ids) (filter (\<lambda>x. x \<notin> set ids) xs),
      length (filter (\<lambda>x. x \<notin> set ids) xs) - (cap - length ids))"
proof (induction cap ids xs rule: add_capped.induct)
  case (2 cap ids x xs)
  show ?case
  proof (cases "x \<in> set ids \<or> cap \<le> length ids")
    case True
    then show ?thesis using 2 by (auto simp: Suc_diff_le)
  next
    case False
    have "filter (\<lambda>y. y \<notin> set (ids @ [x])) xs = filter (\<lambda>y. y \<notin> set ids) xs"
      using 2(4) by (intro filter_cong) auto
    moreover obtain k where "cap - length ids = Suc k" "cap - Suc (length ids) = k"
      using False by (cases "cap - length ids") auto
    ultimately show ?thesis using 2(3) 2(4,5) False by simp
  qed
qed simp

text \<open>
  Select-all keeps what was selected and adds the visible rows in the order shown, as many as
  the cap leaves room for, and warns exactly when some did not fit.
\<close>

theorem select_all_fills_in_order:
  assumes "distinct visible" "length (ts_ids s) \<le> cap"
  defines "fresh \<equiv> filter (\<lambda>x. x \<notin> set (ts_ids s)) visible"
  shows "ts_ids (select_all cap visible s) = ts_ids s @ take (cap - length (ts_ids s)) fresh \<and>
    (ts_toasts (select_all cap visible s) = ts_toasts s + 1 \<longleftrightarrow>
       cap < length (ts_ids s) + length fresh)"
  using assms by (auto simp: select_all_def add_capped_exact cap_warning_def fresh_def Let_def)

lemma select_all_fills_in_order_witness:
  "ts_ids (select_all 2 [''a'', ''b'', ''c''] \<lparr>ts_ids = [''b''], ts_anchor = None, ts_toasts = 0\<rparr>)
     = [''b'', ''a'']"
  using select_all_fills_in_order [of "[''a'', ''b'', ''c'']"
      "\<lparr>ts_ids = [''b''], ts_anchor = None, ts_toasts = 0\<rparr>" 2]
  by simp

end
