(* ===== verification/BulkToolbar.thy ===== *)
theory BulkToolbar
  imports BulkYaml TableSelection ApiClient
begin

text \<open>
  Model of \<open>web/src/components/table/BulkActionsToolbar.tsx\<close>: the toolbar that joins the row
  selection of a table, the bulk fetch and the audit record into one download, with the dialog
  that must be confirmed before anything sensitive is fetched. The dialog covers the page, so the
  buttons of the toolbar are out of reach while it is open.
\<close>

record 'r toolbar_props =
  tp_key :: "'r \<Rightarrow> string"
  tp_reveals :: "('r \<Rightarrow> bool) option"
  tp_cluster :: string
  tp_kind :: string

datatype toolbar_toast =
    NothingSelected
  | RowsGone
  | RowsMissing nat nat
  | DownloadCanceled
  | DownloadFailed nat
  | DownloadedSome nat nat
  | DownloadedAll nat

record 'r download =
  dl_rows :: "'r list"
  dl_strip :: bool
  dl_pool :: "bulk_data pool"

text \<open>
  \<open>bt_started\<close> is the trace of the downloads that were started, each with the mark whether a
  confirmation started it.
\<close>

record 'r toolbar =
  bt_selection :: selection
  bt_strip :: bool
  bt_run :: "'r download option"
  bt_confirm :: "('r list \<times> nat) option"
  bt_started :: "('r list \<times> bool) list"
  bt_audits :: "bulk_audit_body list"
  bt_files :: "(string \<times> string) list"
  bt_toasts :: "toolbar_toast list"

definition initial_toolbar :: "'r toolbar" where
  "initial_toolbar =
     \<lparr>bt_selection = empty_selection, bt_strip = True, bt_run = None, bt_confirm = None,
      bt_started = [], bt_audits = [], bt_files = [], bt_toasts = []\<rparr>"

definition say :: "toolbar_toast \<Rightarrow> 'r toolbar \<Rightarrow> 'r toolbar" where
  "say t s = s\<lparr>bt_toasts := bt_toasts s @ [t]\<rparr>"

text \<open>
  The rows of the selected ids, in the order of selection; of several rows with one id the last
  counts. The second component is the number of ids without a row.
\<close>

definition row_of :: "('r \<Rightarrow> string) \<Rightarrow> 'r list \<Rightarrow> string \<Rightarrow> 'r option" where
  "row_of key rows = map_of (rev (map (\<lambda>r. (key r, r)) rows))"

fun resolve_selected :: "('r \<Rightarrow> string) \<Rightarrow> 'r list \<Rightarrow> string list \<Rightarrow> 'r list \<times> nat" where
  "resolve_selected key rows [] = ([], 0)"
| "resolve_selected key rows (i # ids) =
     (let (found, missing) = resolve_selected key rows ids
      in case row_of key rows i of Some r \<Rightarrow> (r # found, missing) | None \<Rightarrow> (found, missing + 1))"

definition sensitive :: "'r toolbar_props \<Rightarrow> 'r \<Rightarrow> bool" where
  "sensitive p r = (case tp_reveals p of None \<Rightarrow> False | Some f \<Rightarrow> f r)"

definition run_ids :: "'r toolbar_props \<Rightarrow> 'r download \<Rightarrow> string list" where
  "run_ids p d = map (tp_key p) (dl_rows d)"

definition run_download :: "'r toolbar_props \<Rightarrow> bool \<Rightarrow> 'r list \<Rightarrow> 'r toolbar \<Rightarrow> 'r toolbar" where
  "run_download p confirmed rows s =
     s\<lparr>bt_run := Some \<lparr>dl_rows = rows, dl_strip = bt_strip s,
                      dl_pool = bulk_fetch_yaml (bt_strip s) (map (tp_key p) rows) []\<rparr>,
       bt_started := bt_started s @ [(rows, confirmed)]\<rparr>"

definition audit_of :: "'r toolbar_props \<Rightarrow> 'r download \<Rightarrow> bulk_result \<Rightarrow> bulk_audit_body" where
  "audit_of p d res =
     \<lparr>ba_kind = tp_kind p, ba_count = int (length (dl_rows d)),
      ba_ids = map (tp_key p) (take 50 (dl_rows d)),
      ba_success = (br_success_count res \<noteq> 0), ba_failures = int (length (br_failures res))\<rparr>"

text \<open>What follows the awaited bulk fetch.\<close>

definition finish_download ::
  "'r toolbar_props \<Rightarrow> nat \<times> nat \<times> nat \<Rightarrow> 'r download \<Rightarrow> 'r toolbar \<Rightarrow> 'r toolbar" where
  "finish_download p date d s =
     (let res = assemble (dl_pool d); s0 = s\<lparr>bt_run := None\<rparr>
      in if po_aborted (dl_pool d) then say DownloadCanceled s0
         else (let s1 = s0\<lparr>bt_audits := bt_audits s0 @ [audit_of p d res]\<rparr>
               in if br_success_count res = 0 then say (DownloadFailed (length (dl_rows d))) s1
                  else (let s2 = s1\<lparr>bt_files := bt_files s1 @
                             [(build_filename (tp_cluster p) (tp_kind p) (br_success_count res) date,
                               br_yaml res)]\<rparr>;
                            s3 = say (if br_failures res \<noteq> []
                                      then DownloadedSome (br_success_count res) (length (br_failures res))
                                      else DownloadedAll (br_success_count res)) s2
                        in s3\<lparr>bt_selection := clear_selection (bt_selection s3)\<rparr>)))"

definition on_download_click :: "'r toolbar_props \<Rightarrow> 'r list \<Rightarrow> 'r toolbar \<Rightarrow> 'r toolbar" where
  "on_download_click p rows s =
     (let (selected, missing) = resolve_selected (tp_key p) rows (ts_ids (bt_selection s))
      in if selected = [] then say (if 0 < missing then RowsGone else NothingSelected) s
         else (let s1 = (if 0 < missing then say (RowsMissing missing (length selected)) s else s);
                   n = length (filter (sensitive p) selected)
               in if 0 < n then s1\<lparr>bt_confirm := Some (selected, n)\<rparr>
                  else run_download p False selected s1))"

definition on_confirm_secrets :: "'r toolbar_props \<Rightarrow> 'r toolbar \<Rightarrow> 'r toolbar" where
  "on_confirm_secrets p s =
     (case bt_confirm s of
        None \<Rightarrow> s
      | Some (rows, n) \<Rightarrow> run_download p True rows (s\<lparr>bt_confirm := None\<rparr>))"

definition pool_event_of_run ::
  "'r toolbar_props \<Rightarrow> (thrown + string) pool_event \<Rightarrow> 'r download \<Rightarrow> 'r download" where
  "pool_event_of_run p e d =
     d\<lparr>dl_pool := pool_step (bulk_settle (dl_strip d) (run_ids p d)) (length (run_ids p d)) (dl_pool d) e\<rparr>"

definition on_pool_event ::
  "'r toolbar_props \<Rightarrow> nat \<times> nat \<times> nat \<Rightarrow> (thrown + string) pool_event \<Rightarrow> 'r toolbar \<Rightarrow> 'r toolbar" where
  "on_pool_event p date e s =
     (case bt_run s of
        None \<Rightarrow> s
      | Some d \<Rightarrow>
          (let d' = pool_event_of_run p e d
           in if po_running (dl_pool d') = [] then finish_download p date d' s
              else s\<lparr>bt_run := Some d'\<rparr>))"

definition toolbar_shown :: "'r toolbar \<Rightarrow> bool" where
  "toolbar_shown s = (ts_ids (bt_selection s) \<noteq> [] \<or> bt_run s \<noteq> None)"

definition buttons_idle :: "'r toolbar \<Rightarrow> bool" where
  "buttons_idle s = (toolbar_shown s \<and> bt_run s = None \<and> bt_confirm s = None)"

definition progress_of :: "'r toolbar \<Rightarrow> (nat \<times> nat) option" where
  "progress_of s =
     map_option (\<lambda>d. (bd_done (po_data (dl_pool d)), length (dl_rows d))) (bt_run s)"

definition count_visible :: "selection \<Rightarrow> string list \<Rightarrow> nat" where
  "count_visible sel visible = length (filter (\<lambda>i. i \<in> set (ts_ids sel)) visible)"

definition hidden_count :: "'r toolbar \<Rightarrow> string list \<Rightarrow> int" where
  "hidden_count s visible =
     int (length (ts_ids (bt_selection s))) - int (count_visible (bt_selection s) visible)"

datatype 'r toolbar_event =
    Selected selection_event
  | StripToggled bool
  | DownloadClick "'r list"
  | RevealConfirmed
  | RevealDismissed
  | FetchDone "nat \<times> nat \<times> nat" nat "thrown + string"
  | CancelDownload
  | ClearClicked

fun toolbar_step :: "'r toolbar_props \<Rightarrow> 'r toolbar \<Rightarrow> 'r toolbar_event \<Rightarrow> 'r toolbar" where
  "toolbar_step p s (Selected e) =
     s\<lparr>bt_selection := selection_step default_cap (bt_selection s) e\<rparr>"
| "toolbar_step p s (StripToggled b) = (if buttons_idle s then s\<lparr>bt_strip := b\<rparr> else s)"
| "toolbar_step p s (DownloadClick rows) = (if buttons_idle s then on_download_click p rows s else s)"
| "toolbar_step p s RevealConfirmed = (if toolbar_shown s then on_confirm_secrets p s else s)"
| "toolbar_step p s RevealDismissed = (if toolbar_shown s then s\<lparr>bt_confirm := None\<rparr> else s)"
| "toolbar_step p s (FetchDone date i out) = on_pool_event p date (PoolSettle i out) s"
| "toolbar_step p s CancelDownload =
     (case bt_run s of
        None \<Rightarrow> s
      | Some d \<Rightarrow> s\<lparr>bt_run := Some (pool_event_of_run p PoolAbort d)\<rparr>)"
| "toolbar_step p s ClearClicked =
     (if buttons_idle s then s\<lparr>bt_selection := clear_selection (bt_selection s)\<rparr> else s)"

section \<open>Which rows a selection means\<close>

lemma resolve_count:
  "length (fst (resolve_selected key rows ids)) + snd (resolve_selected key rows ids) = length ids"
  by (induction ids) (auto split: prod.splits option.splits)

lemma row_of_key: "row_of key rows i = Some r \<Longrightarrow> key r = i \<and> r \<in> set rows"
  unfolding row_of_def by (auto dest!: map_of_SomeD)

lemma row_of_None: "row_of key rows i = None \<longleftrightarrow> i \<notin> key ` set rows"
  unfolding row_of_def by (auto simp: map_of_eq_None_iff image_image)

lemma resolve_keys:
  "map key (fst (resolve_selected key rows ids)) = filter (\<lambda>i. i \<in> key ` set rows) ids"
proof (induction ids)
  case (Cons i ids)
  then show ?case using row_of_None [of key rows i] row_of_key [of key rows i]
    by (cases "row_of key rows i") (auto split: prod.splits)
qed simp

lemma resolve_rows: "r \<in> set (fst (resolve_selected key rows ids)) \<Longrightarrow> r \<in> set rows"
  by (induction ids) (auto split: prod.splits option.splits dest: row_of_key)

text \<open>
  a click downloads what is selected and present. The rows taken are the present ones among
  the selected, each once and in the order they were selected, and the ids counted as missing are
  exactly the others.
\<close>

theorem download_takes_selected_rows:
  "map key (fst (resolve_selected key rows ids)) = filter (\<lambda>i. i \<in> key ` set rows) ids
   \<and> snd (resolve_selected key rows ids) = length (filter (\<lambda>i. i \<notin> key ` set rows) ids)"
proof -
  have "length (filter (\<lambda>i. i \<in> key ` set rows) ids) + length (filter (\<lambda>i. i \<notin> key ` set rows) ids) = length ids"
    by (rule sum_length_filter_compl)
  then show ?thesis
    using resolve_count [of key rows ids] resolve_keys [of key rows ids]
    by (metis add_left_cancel length_map)
qed

section \<open>The invariant\<close>

definition run_from :: "'r toolbar_props \<Rightarrow> 'r download \<Rightarrow> bool" where
  "run_from p d = (\<exists>es. dl_pool d = bulk_fetch_yaml (dl_strip d) (run_ids p d) es)"

definition audit_ok :: "bulk_audit_body \<Rightarrow> bool" where
  "audit_ok a = (0 \<le> ba_failures a \<and> ba_failures a \<le> ba_count a
     \<and> ba_success a = (ba_failures a < ba_count a) \<and> length (ba_ids a) \<le> 50)"

definition started_ok :: "'r toolbar_props \<Rightarrow> 'r list \<times> bool \<Rightarrow> bool" where
  "started_ok p st =
     (0 < length (fst st) \<and> length (fst st) \<le> default_cap \<and> snd st = list_ex (sensitive p) (fst st))"

definition confirm_ok :: "'r toolbar_props \<Rightarrow> 'r list \<times> nat \<Rightarrow> bool" where
  "confirm_ok p c = (0 < snd c \<and> snd c = length (filter (sensitive p) (fst c)) \<and> length (fst c) \<le> default_cap)"

definition toolbar_inv :: "'r toolbar_props \<Rightarrow> 'r toolbar \<Rightarrow> bool" where
  "toolbar_inv p s =
     (selection_inv default_cap (bt_selection s)
      \<and> list_all (started_ok p) (bt_started s)
      \<and> pred_option (confirm_ok p) (bt_confirm s)
      \<and> pred_option (run_from p) (bt_run s)
      \<and> list_all audit_ok (bt_audits s)
      \<and> length (bt_files s) = length (filter ba_success (bt_audits s)))"

lemma inv_say [simp]: "toolbar_inv p (say t s) = toolbar_inv p s"
  by (simp add: toolbar_inv_def say_def)

lemma list_ex_filter: "list_ex P xs \<longleftrightarrow> 0 < length (filter P xs)"
  by (induction xs) auto

lemma inv_run_download:
  assumes "toolbar_inv p s" "started_ok p (rows, c)"
  shows "toolbar_inv p (run_download p c rows s)"
proof -
  have "run_from p \<lparr>dl_rows = rows, dl_strip = bt_strip s,
      dl_pool = bulk_fetch_yaml (bt_strip s) (map (tp_key p) rows) []\<rparr>"
    unfolding run_from_def run_ids_def by auto
  then show ?thesis using assms by (simp add: toolbar_inv_def run_download_def)
qed

lemma inv_click:
  assumes "toolbar_inv p s"
  shows "toolbar_inv p (on_download_click p rows s)"
proof -
  obtain sel m where r: "resolve_selected (tp_key p) rows (ts_ids (bt_selection s)) = (sel, m)"
    by fastforce
  have len: "length sel \<le> default_cap"
    using resolve_count [of "tp_key p" rows "ts_ids (bt_selection s)"] r assms
    by (simp add: toolbar_inv_def selection_inv_def)
  let ?s1 = "if 0 < m then say (RowsMissing m (length sel)) s else s"
  have s1: "toolbar_inv p ?s1" using assms by simp
  show ?thesis
  proof (cases "sel = [] \<or> 0 < length (filter (sensitive p) sel)")
    case True
    then show ?thesis using assms s1 len r
      by (auto simp: on_download_click_def Let_def confirm_ok_def toolbar_inv_def say_def)
  next
    case False
    then have "started_ok p (sel, False)" using len by (simp add: started_ok_def list_ex_filter)
    then show ?thesis using inv_run_download [OF s1] False r
      by (simp add: on_download_click_def Let_def)
  qed
qed

lemma inv_confirm:
  assumes "toolbar_inv p s"
  shows "toolbar_inv p (on_confirm_secrets p s)"
proof (cases "bt_confirm s")
  case (Some c)
  obtain rows n where c: "c = (rows, n)" by fastforce
  have ok: "confirm_ok p (rows, n)" using assms Some c by (simp add: toolbar_inv_def)
  then have "started_ok p (rows, True)"
    by (cases rows) (auto simp: confirm_ok_def started_ok_def list_ex_filter)
  moreover have "toolbar_inv p (s\<lparr>bt_confirm := None\<rparr>)" using assms by (simp add: toolbar_inv_def)
  ultimately show ?thesis using inv_run_download Some c by (simp add: on_confirm_secrets_def)
qed (use assms in \<open>simp add: on_confirm_secrets_def\<close>)

lemma run_from_event: "run_from p d \<Longrightarrow> run_from p (pool_event_of_run p e d)"
proof -
  assume "run_from p d"
  then obtain es where es: "dl_pool d = bulk_fetch_yaml (dl_strip d) (run_ids p d) es"
    by (auto simp: run_from_def)
  have "dl_pool (pool_event_of_run p e d) = bulk_fetch_yaml (dl_strip d) (run_ids p d) (es @ [e])"
    by (simp add: pool_event_of_run_def es bulk_fetch_yaml_def pool_run_def)
  moreover have "run_ids p (pool_event_of_run p e d) = run_ids p d"
    "dl_strip (pool_event_of_run p e d) = dl_strip d"
    by (simp_all add: pool_event_of_run_def run_ids_def)
  ultimately show ?thesis unfolding run_from_def by (intro exI [of _ "es @ [e]"]) simp
qed

lemma finished_counts:
  assumes "run_from p d" "po_running (dl_pool d) = []" "\<not> po_aborted (dl_pool d)"
  shows "br_success_count (assemble (dl_pool d)) + length (br_failures (assemble (dl_pool d)))
    = length (dl_rows d)"
proof -
  obtain es where "dl_pool d = bulk_fetch_yaml (dl_strip d) (run_ids p d) es"
    using assms(1) by (auto simp: run_from_def)
  then have "bulk_settled (po_data (dl_pool d)) = length (run_ids p d)"
    using bulk_pool.run_complete [OF bulk_initial_ok] assms(2,3) by (simp add: bulk_fetch_yaml_def)
  then show ?thesis using assms(3) by (simp add: assemble_def bulk_settled_def Let_def run_ids_def)
qed

lemma clear_inv: "selection_inv cap (clear_selection sel)"
  by (simp add: selection_inv_def clear_selection_def)

lemma inv_finish:
  assumes "toolbar_inv p s" "run_from p d" "po_running (dl_pool d) = []"
  shows "toolbar_inv p (finish_download p date d s)"
proof (cases "po_aborted (dl_pool d)")
  case True
  then show ?thesis using assms(1) by (simp add: finish_download_def Let_def) (simp add: toolbar_inv_def)
next
  case False
  have a: "audit_ok (audit_of p d (assemble (dl_pool d)))"
    using finished_counts [OF assms(2,3) False] by (auto simp: audit_ok_def audit_of_def)
  have "ba_success (audit_of p d res) = (br_success_count res \<noteq> 0)" for res
    by (simp add: audit_of_def)
  then show ?thesis using assms(1) False a
    by (simp add: finish_download_def Let_def toolbar_inv_def say_def clear_inv)
qed

lemma inv_pool_event:
  assumes "toolbar_inv p s"
  shows "toolbar_inv p (on_pool_event p date e s)"
proof (cases "bt_run s")
  case (Some d)
  then have d: "run_from p (pool_event_of_run p e d)"
    using assms by (simp add: toolbar_inv_def run_from_event)
  show ?thesis
  proof (cases "po_running (dl_pool (pool_event_of_run p e d)) = []")
    case True
    then show ?thesis using Some inv_finish [OF assms d] by (simp add: on_pool_event_def)
  next
    case False
    then show ?thesis using Some assms d by (simp add: on_pool_event_def toolbar_inv_def)
  qed
qed (use assms in \<open>simp add: on_pool_event_def\<close>)

lemma toolbar_inv_step: "toolbar_inv p s \<Longrightarrow> toolbar_inv p (toolbar_step p s e)"
proof (cases e)
  case CancelDownload
  assume "toolbar_inv p s"
  then show ?thesis using CancelDownload
    by (auto simp: toolbar_inv_def run_from_event split: option.splits)
next
  case (Selected e)
  assume "toolbar_inv p s"
  then show ?thesis using Selected by (simp add: toolbar_inv_def selection_inv_step)
next
  case ClearClicked
  assume "toolbar_inv p s"
  then show ?thesis using ClearClicked by (simp add: toolbar_inv_def clear_inv)
next
  case (StripToggled b)
  assume "toolbar_inv p s"
  then show ?thesis using StripToggled by (simp add: toolbar_inv_def)
next
  case RevealDismissed
  assume "toolbar_inv p s"
  then show ?thesis using RevealDismissed by (simp add: toolbar_inv_def)
qed (simp_all add: inv_click inv_confirm inv_pool_event)

interpretation toolbar: event_machine "toolbar_step p" "toolbar_inv p"
  by unfold_locales (rule toolbar_inv_step)

lemma initial_inv: "toolbar_inv p initial_toolbar"
  by (simp add: toolbar_inv_def initial_toolbar_def selection_inv_def empty_selection_def)

text \<open>
  C26: nothing sensitive is fetched without a confirmation. In every history of the toolbar each
  download that was started has between one and a hundred rows, and it was started by the
  confirmation of the reveal dialog exactly when one of its rows is sensitive; an open dialog
  names the exact number of sensitive rows, which is not zero.
\<close>

theorem sensitive_rows_need_confirmation:
  "let s = foldl (toolbar_step p) initial_toolbar es
   in list_all (\<lambda>(rows, confirmed). confirmed = list_ex (sensitive p) rows
          \<and> 0 < length rows \<and> length rows \<le> 100) (bt_started s)
      \<and> pred_option (\<lambda>(rows, n). 0 < n \<and> n = length (filter (sensitive p) rows)) (bt_confirm s)"
  using toolbar.inv_run [OF initial_inv, of p es]
  by (auto simp: Let_def toolbar_inv_def started_ok_def confirm_ok_def default_cap_def list_all_iff
      option.pred_set split: prod.splits)

text \<open>
  every file is on record. In every history there are as many files as audit records that
  say success; each record's failures are at most its rows, and it says success exactly when some
  row was fetched; and none carries more than fifty ids.
\<close>

theorem every_file_is_audited:
  "let s = foldl (toolbar_step p) initial_toolbar es
   in length (bt_files s) = length (filter ba_success (bt_audits s))
      \<and> list_all (\<lambda>a. 0 \<le> ba_failures a \<and> ba_failures a \<le> ba_count a
           \<and> ba_success a = (ba_failures a < ba_count a) \<and> length (ba_ids a) \<le> 50) (bt_audits s)"
  using toolbar.inv_run [OF initial_inv, of p es]
  by (simp add: Let_def toolbar_inv_def audit_ok_def list_all_iff)

text \<open>
  the number shown as hidden by the filter is the number of selected rows that are not on
  the screen, when no row is rendered twice.
\<close>

theorem hidden_counts_unseen:
  assumes "distinct visible" "distinct (ts_ids (bt_selection s))"
  shows "hidden_count s visible = int (card (set (ts_ids (bt_selection s)) - set visible))"
proof -
  let ?ids = "ts_ids (bt_selection s)"
  have "count_visible (bt_selection s) visible = card (set ?ids \<inter> set visible)"
    using assms(1) unfolding count_visible_def
    by (metis distinct_card distinct_filter inf_commute set_filter Int_def mem_Collect_eq)
  moreover have "card (set ?ids) = card (set ?ids \<inter> set visible) + card (set ?ids - set visible)"
    by (metis List.finite_set card_Diff_subset_Int card_mono finite_Int inf_le1 le_add_diff_inverse)
  ultimately show ?thesis using distinct_card [OF assms(2)] by (simp add: hidden_count_def)
qed

text \<open>
  rows picked while a download runs are lost: the table stays usable, and the end of the
  download clears the whole selection, not only what it fetched.
\<close>

theorem finish_drops_new_picks:
  assumes "br_success_count (assemble (dl_pool d)) \<noteq> 0" "\<not> po_aborted (dl_pool d)"
  shows "ts_ids (bt_selection (finish_download p date d s)) = []"
  using assms by (simp add: finish_download_def Let_def clear_selection_def)

end
