(* ===== verification/CanI.thy ===== *)
theory CanI
  imports ApplyYaml "HOL-Library.List_Lexorder" "HOL-Library.Char_ord"
    "HOL-Library.Multiset"
begin

text \<open>
  Model of the permission checks: \<open>web/src/hooks/useCanI.ts\<close> and \<open>web/src/lib/canIReason.ts\<close>
  (the decision and the tooltip of a gated action), their use by \<open>useApplyPreFlight.ts\<close>,
  \<open>useCanApply.ts\<close> and the action toolbar, and the limit of the server's endpoint
  (\<open>cani_handler.go\<close>). The query cache is an argument, from a cluster and a key to the state of
  the query; the apiserver's answer to a check is a function of the six strings that are sent.
\<close>

section \<open>Checks\<close>

datatype can_verb = VGet | VList | VWatch | VCreate | VUpdate | VPatch | VDelete

fun verb_name :: "can_verb \<Rightarrow> string" where
  "verb_name VGet = ''get''"
| "verb_name VList = ''list''"
| "verb_name VWatch = ''watch''"
| "verb_name VCreate = ''create''"
| "verb_name VUpdate = ''update''"
| "verb_name VPatch = ''patch''"
| "verb_name VDelete = ''delete''"

record can_i_check =
  cc_verb :: can_verb
  cc_group :: "string option"
  cc_resource :: string
  cc_subresource :: "string option"
  cc_namespace :: "string option"
  cc_name :: "string option"

record can_i_result =
  cr_allowed :: bool
  cr_reason :: string

text \<open>The fields as the server decodes them: an absent one is the empty string.\<close>

definition wire_check :: "can_i_check \<Rightarrow> string list" where
  "wire_check c =
     [verb_name (cc_verb c), or_str (cc_group c) [], cc_resource c, or_str (cc_subresource c) [],
      or_str (cc_namespace c) [], or_str (cc_name c) []]"

definition check_tuple_string :: "can_i_check \<Rightarrow> string" where
  "check_tuple_string c = join_str ''|'' (wire_check c)"

definition record_separator :: char where
  "record_separator = char_of (30 :: nat)"

definition canonical_key :: "can_i_check list \<Rightarrow> string" where
  "canonical_key checks = join_str [record_separator] (sort (map check_tuple_string checks))"

section \<open>The endpoint\<close>

definition cani_max_checks :: nat where
  "cani_max_checks = 64"

datatype query_state = QPending | QError thrown | QData "can_i_result list"

text \<open>What a fetch of the query leaves in the cache.\<close>

definition fetch_can_i :: "(string list \<Rightarrow> can_i_result) \<Rightarrow> can_i_check list \<Rightarrow> query_state" where
  "fetch_can_i answer checks =
     (if cani_max_checks < length checks
      then QError (ThrownApi \<lparr>ae_message = ''400 Bad Request'', ae_status = 400,
             ae_body = Some ''too many checks (limit 64)''\<rparr>)
      else QData (map (\<lambda>c. answer (wire_check c)) checks))"

section \<open>The tooltip\<close>

datatype authz_mode = AuthzShared | AuthzTier | AuthzRaw

fun verb_phrase :: "can_verb \<Rightarrow> string" where
  "verb_phrase VGet = ''view''"
| "verb_phrase VPatch = ''edit''"
| "verb_phrase v = verb_name v"

definition format_can_i_denied_reason ::
    "can_i_result \<Rightarrow> can_i_check \<Rightarrow> authz_mode option \<Rightarrow> string option \<Rightarrow> string" where
  "format_can_i_denied_reason result check mode tier =
     (if cr_allowed result then []
      else let r = trim_str (cr_reason result);
               what = verb_phrase (cc_verb check) @ '' '' @ cc_resource check;
               place = (case cc_namespace check of None \<Rightarrow> []
                        | Some n \<Rightarrow> if n \<noteq> [] then '' in '' @ n else [])
           in if r = ''apiserver_unreachable'' \<or> r = ''timeout''
              then ''Cannot check permission right now (cluster unreachable). Try again in a moment.''
              else if r = ''auth_failed''
              then ''Your session expired. Reload the page to sign in again.''
              else if r = ''unauthenticated'' then ''Sign in to perform this action.''
              else if r \<noteq> [] \<and> r \<noteq> ''denied'' then r
              else (case mode of
                      Some AuthzTier \<Rightarrow>
                        (let t = or_str tier []
                         in if t \<noteq> []
                            then ''Your tier ('' @ t @ '') cannot '' @ what @ place @
                                 ''. Contact your platform team.''
                            else ''Your tier doesn't allow you to '' @ what @ place @ ''.'')
                    | Some AuthzShared \<Rightarrow>
                        ''The dashboard's K8s role doesn't allow '' @ what @ place @ ''.''
                    | _ \<Rightarrow> ''You don't have permission to '' @ what @ place @ ''.''))"

section \<open>Decisions\<close>

record can_i_decision =
  cd_allowed :: bool
  cd_reason :: string
  cd_tooltip :: string
  cd_loading :: bool

definition map_api_error_to_reason :: "api_error \<Rightarrow> string" where
  "map_api_error_to_reason e =
     (if ae_status e = 401 then ''auth_failed''
      else if ae_status e = 403 then ''denied''
      else if ae_status e \<in> {504, 408} then ''timeout''
      else ''apiserver_unreachable'')"

definition build_can_i_decision ::
    "can_i_check \<Rightarrow> bool \<Rightarrow> query_state \<Rightarrow> can_i_result option \<Rightarrow> authz_mode option \<Rightarrow> string option \<Rightarrow>
     can_i_decision" where
  "build_can_i_decision check enabled q result mode tier =
     (let resolved = (\<lambda>r. \<lparr>cd_allowed = cr_allowed r, cd_reason = cr_reason r,
            cd_tooltip = format_can_i_denied_reason r check mode tier, cd_loading = False\<rparr>)
      in if \<not> enabled \<or> q = QPending
         then \<lparr>cd_allowed = True, cd_reason = [], cd_tooltip = [], cd_loading = True\<rparr>
         else (case q of
                 QError err \<Rightarrow>
                   resolved \<lparr>cr_allowed = False,
                     cr_reason = (case err of ThrownApi e \<Rightarrow> map_api_error_to_reason e
                                  | _ \<Rightarrow> ''apiserver_unreachable'')\<rparr>
               | _ \<Rightarrow> resolved (case result of Some r \<Rightarrow> r | None \<Rightarrow> \<lparr>cr_allowed = False, cr_reason = []\<rparr>)))"

definition result_at :: "query_state \<Rightarrow> nat \<Rightarrow> can_i_result option" where
  "result_at q i = (case q of QData rs \<Rightarrow> if i < length rs then Some (rs ! i) else None | _ \<Rightarrow> None)"

definition use_can_i_batch ::
    "(string \<Rightarrow> string \<Rightarrow> query_state) \<Rightarrow> authz_mode option \<Rightarrow> string option \<Rightarrow> string \<Rightarrow>
     can_i_check list \<Rightarrow> can_i_decision list" where
  "use_can_i_batch cache mode tier cluster checks =
     (let enabled = (cluster \<noteq> [] \<and> checks \<noteq> []);
          key = (if enabled then canonical_key checks else []);
          q = cache cluster key
      in map (\<lambda>(i, check). build_can_i_decision check enabled q (result_at q i) mode tier)
           (List.enumerate 0 checks))"

definition use_can_i ::
    "(string \<Rightarrow> string \<Rightarrow> query_state) \<Rightarrow> authz_mode option \<Rightarrow> string option \<Rightarrow> string \<Rightarrow>
     can_i_check \<Rightarrow> can_i_decision" where
  "use_can_i cache mode tier cluster check =
     (case use_can_i_batch cache mode tier cluster [check] of
        decision # _ \<Rightarrow> decision
      | [] \<Rightarrow> \<lparr>cd_allowed = False, cd_reason = [], cd_tooltip = [], cd_loading = False\<rparr>)"

section \<open>Pre-flight of the apply dialog\<close>

record doc_pre_flight =
  pf_allowed :: bool
  pf_reason :: string
  pf_loading :: bool

definition pre_flight_checks :: "parsed_doc list \<Rightarrow> can_i_check list" where
  "pre_flight_checks docs =
     concat (map (\<lambda>doc.
       let g = gvr_from_api_version_and_kind (the (pd_api_version doc)) (the (pd_kind doc));
           check = (\<lambda>verb. \<lparr>cc_verb = verb, cc_group = Some (g_group g), cc_resource = g_resource g,
                      cc_subresource = None, cc_namespace = pd_namespace doc, cc_name = None\<rparr>)
       in [check VCreate, check VUpdate]) docs)"

definition pre_flight_one :: "can_i_decision \<Rightarrow> can_i_decision \<Rightarrow> doc_pre_flight" where
  "pre_flight_one create update =
     (let allowed = (cd_allowed create \<or> cd_allowed update)
      in \<lparr>pf_allowed = allowed,
          pf_reason = (if \<not> allowed then or_str (Some (cd_tooltip update)) (cd_tooltip create) else []),
          pf_loading = (cd_loading create \<or> cd_loading update)\<rparr>)"

text \<open>The decisions by document id, whether something is loading, and how many are denied.\<close>

definition use_apply_pre_flight ::
    "(string \<Rightarrow> string \<Rightarrow> query_state) \<Rightarrow> authz_mode option \<Rightarrow> string option \<Rightarrow> string \<Rightarrow>
     parsed_doc list \<Rightarrow> (string \<times> doc_pre_flight) list \<times> bool \<times> nat" where
  "use_apply_pre_flight cache mode tier cluster docs =
     (let valid = filter applicable docs;
          ds = use_can_i_batch cache mode tier cluster (pre_flight_checks valid);
          flights = concat (map (\<lambda>(i, doc).
            if i * 2 + 1 < length ds
            then [(pd_id doc, pre_flight_one (ds ! (i * 2)) (ds ! (i * 2 + 1)))] else [])
            (List.enumerate 0 valid))
      in (fold (\<lambda>(i, p) m. AList.update i p m) flights [],
          list_ex (\<lambda>(_, p). pf_loading p) flights,
          length (filter (\<lambda>(_, p). \<not> pf_loading p \<and> \<not> pf_allowed p) flights)))"

text \<open>The button's guard (\<open>ApplyYamlDialog.tsx\<close>): \<open>validCount\<close> counts the valid documents.\<close>

definition apply_disabled :: "nat \<Rightarrow> nat \<Rightarrow> bool \<Rightarrow> bool" where
  "apply_disabled valid_count denied_count partial_outcome \<longleftrightarrow>
     valid_count = 0 \<or> 0 < denied_count \<or> partial_outcome"

definition plain_check :: "can_verb \<Rightarrow> string \<Rightarrow> can_i_check" where
  "plain_check verb resource =
     \<lparr>cc_verb = verb, cc_group = None, cc_resource = resource, cc_subresource = None,
      cc_namespace = None, cc_name = None\<rparr>"

definition apply_probes :: "can_i_check list" where
  "apply_probes =
     [plain_check VCreate ''configmaps'', (plain_check VCreate ''deployments'')\<lparr>cc_group := Some ''apps''\<rparr>,
      plain_check VCreate ''namespaces'']"

definition use_can_apply ::
    "(string \<Rightarrow> string \<Rightarrow> query_state) \<Rightarrow> authz_mode option \<Rightarrow> string option \<Rightarrow> string \<Rightarrow> bool \<times> bool" where
  "use_can_apply cache mode tier cluster =
     (let ds = use_can_i_batch cache mode tier cluster apply_probes
      in (list_ex cd_allowed ds, list_ex cd_loading ds))"

section \<open>The action toolbar\<close>

definition toolbar_checks :: "kind_meta \<Rightarrow> string option \<Rightarrow> can_i_check list" where
  "toolbar_checks meta ns =
     map (\<lambda>c. c\<lparr>cc_namespace := ns\<rparr>)
       [plain_check VPatch (km_resource meta), plain_check VDelete (km_resource meta),
        (plain_check VPatch (km_resource meta))\<lparr>cc_subresource := Some ''scale''\<rparr>,
        plain_check VCreate ''jobs'']"

definition custom_toolbar_checks :: "string \<Rightarrow> string option \<Rightarrow> can_i_check list" where
  "custom_toolbar_checks resource ns =
     [(plain_check VPatch resource)\<lparr>cc_namespace := ns\<rparr>, (plain_check VDelete resource)\<lparr>cc_namespace := ns\<rparr>]"

section \<open>Keys\<close>

definition key_safe :: "can_i_check \<Rightarrow> bool" where
  "key_safe c \<longleftrightarrow> list_all (\<lambda>s. CHR ''|'' \<notin> set s \<and> record_separator \<notin> set s) (wire_check c)"

lemma wire_check_nonempty [simp]: "wire_check c \<noteq> []"
  by (simp add: wire_check_def)

lemma tuple_string_inj:
  assumes "key_safe a" "key_safe b" "check_tuple_string a = check_tuple_string b"
  shows "wire_check a = wire_check b"
proof -
  have "split_on (CHR ''|'') (check_tuple_string c) = wire_check c" if "key_safe c" for c
    using that unfolding check_tuple_string_def by (intro split_join) (auto simp: key_safe_def list_all_iff)
  from this [OF assms(1)] this [OF assms(2)] show ?thesis using assms(3) by simp
qed

lemma set_join: "c \<in> set (join_str sep xs) \<Longrightarrow> c \<in> set sep \<or> (\<exists>x \<in> set xs. c \<in> set x)"
  by (induction sep xs rule: join_str.induct) auto

lemma separators_differ [simp]: "record_separator \<noteq> CHR ''|''"
  by code_simp

lemma tuple_no_separator: "key_safe c \<Longrightarrow> record_separator \<notin> set (check_tuple_string c)"
  by (auto simp: check_tuple_string_def key_safe_def list_all_iff dest!: set_join)

text \<open>The key determines the questions, as a multiset.\<close>

lemma canonical_key_mset:
  assumes "list_all key_safe xs" "list_all key_safe ys" "canonical_key xs = canonical_key ys" "xs \<noteq> []" "ys \<noteq> []"
  shows "mset (map check_tuple_string xs) = mset (map check_tuple_string ys)"
proof -
  have "split_on record_separator (canonical_key cs) = sort (map check_tuple_string cs)"
    if "list_all key_safe cs" "cs \<noteq> []" for cs
    unfolding canonical_key_def using that tuple_no_separator
    by (intro split_join) (auto simp: list_all_iff dest: arg_cong [where f = length])
  then have "sort (map check_tuple_string xs) = sort (map check_tuple_string ys)"
    using assms by metis
  then show ?thesis by (metis mset_sort)
qed

lemma length_batch [simp]: "length (use_can_i_batch cache mode tier cluster checks) = length checks"
  by (simp add: use_can_i_batch_def Let_def)

lemma batch_nth:
  assumes "i < length checks" "cluster \<noteq> []"
  shows "use_can_i_batch cache mode tier cluster checks ! i =
    build_can_i_decision (checks ! i) True (cache cluster (canonical_key checks))
      (result_at (cache cluster (canonical_key checks)) i) mode tier"
  using assms by (auto simp: use_can_i_batch_def Let_def nth_enumerate_eq)

section \<open>Properties\<close>

text \<open>
  A gated button shows the server's answer to its own question: whatever component filled the
  cache entry it reads, a single check is allowed exactly when the server allows that check.
\<close>

theorem single_check_exact:
  assumes safe: "list_all key_safe (check # checks0)" "checks0 \<noteq> []" "cluster \<noteq> []"
    and shared: "canonical_key checks0 = canonical_key [check]"
    and fetched: "cache cluster (canonical_key checks0) = fetch_can_i answer checks0"
  shows "cd_allowed (use_can_i cache mode tier cluster check) = cr_allowed (answer (wire_check check))"
proof -
  have "mset (map check_tuple_string checks0) = mset (map check_tuple_string [check])"
    using safe by (intro canonical_key_mset [OF _ _ shared]) simp_all
  then have one: "map check_tuple_string checks0 = [check_tuple_string check]"
    by (simp add: mset_single_iff_right [symmetric])
  then obtain c where c: "checks0 = [c]" "check_tuple_string c = check_tuple_string check"
    by (cases checks0) auto
  then have "wire_check c = wire_check check" using safe(1) by (intro tuple_string_inj) simp_all
  then have "cache cluster (canonical_key [check]) = QData [answer (wire_check check)]"
    using fetched shared c by (simp add: fetch_can_i_def cani_max_checks_def)
  then show ?thesis
    using safe(3) by (simp add: use_can_i_def use_can_i_batch_def result_at_def build_can_i_decision_def Let_def)
qed

lemma format_empty: "format_can_i_denied_reason r check mode tier = [] \<longleftrightarrow> cr_allowed r"
  by (auto simp: format_can_i_denied_reason_def Let_def split: option.splits authz_mode.splits)

text \<open>
  C37: Permissions fail closed and explain themselves. Let the cache entry of a batch of checks be
  pending, failed, or filled by a request for these checks in this order. Then each decision
  allows exactly while the answer is pending or when the server, asked at most 64 checks, said yes
  to that very check; never on an error. It has a tooltip exactly when it denies, and it says
  loading exactly while the answer is pending. An entry filled by the same checks in another order
  is outside this (see \<open>permuted_checks_swap_answers\<close>).
\<close>

theorem permissions_fail_closed:
  assumes "cluster \<noteq> []" "i < length checks"
    and "cache cluster (canonical_key checks) \<in> {QPending, QError err, fetch_can_i answer checks}"
  shows "let d = use_can_i_batch cache mode tier cluster checks ! i;
             q = cache cluster (canonical_key checks)
         in (cd_allowed d \<longleftrightarrow> q = QPending \<or>
              q = fetch_can_i answer checks \<and> length checks \<le> 64 \<and> cr_allowed (answer (wire_check (checks ! i))))
          \<and> (cd_tooltip d = [] \<longleftrightarrow> cd_allowed d) \<and> (cd_loading d \<longleftrightarrow> q = QPending)"
proof -
  have fetch: "fetch_can_i answer checks \<noteq> QPending" by (simp add: fetch_can_i_def)
  show ?thesis
  proof (cases "cache cluster (canonical_key checks)")
    case QPending
    then show ?thesis using assms(1,2) by (simp add: batch_nth build_can_i_decision_def Let_def)
  next
    case (QError e)
    then show ?thesis using assms(1,2)
      by (auto simp: batch_nth build_can_i_decision_def Let_def format_empty fetch_can_i_def
          cani_max_checks_def)
  next
    case (QData rs)
    then have rs: "fetch_can_i answer checks = QData rs" using assms(3) by auto
    then have "length checks \<le> 64" "rs = map (\<lambda>c. answer (wire_check c)) checks"
      by (auto simp: fetch_can_i_def cani_max_checks_def split: if_splits)
    then show ?thesis using assms(1,2) QData rs
      by (simp add: batch_nth build_can_i_decision_def Let_def format_empty result_at_def)
  qed
qed

lemma permissions_fail_closed_witness:
  "let checks = [plain_check VPatch ''pods'', plain_check VDelete ''pods''];
       answer = (\<lambda>ws. \<lparr>cr_allowed = (hd ws = ''patch''), cr_reason = []\<rparr>);
       ds = use_can_i_batch (\<lambda>c k. fetch_can_i answer checks) None None ''prod'' checks
   in cd_allowed (ds ! 0) \<and> \<not> cd_allowed (ds ! 1)"
proof -
  let ?checks = "[plain_check VPatch ''pods'', plain_check VDelete ''pods'']"
  let ?answer = "\<lambda>ws. \<lparr>cr_allowed = (hd ws = ''patch''), cr_reason = [] :: string\<rparr>"
  have "i < 2 \<Longrightarrow> cd_allowed (use_can_i_batch (\<lambda>c k. fetch_can_i ?answer ?checks) None None ''prod'' ?checks ! i)
      = (i = 0)" for i
    using permissions_fail_closed [of "''prod''" i ?checks "\<lambda>c k. fetch_can_i ?answer ?checks" "ThrownOther []" ?answer None None]
    by (auto simp: Let_def fetch_can_i_def cani_max_checks_def wire_check_def plain_check_def less_2_cases_iff)
  from this [of 0] this [of 1] show ?thesis by simp
qed

section \<open>Pre-flight\<close>

lemma length_pre_flight: "length (pre_flight_checks docs) = 2 * length docs"
  by (induction docs) (simp_all add: pre_flight_checks_def Let_def)

definition doc_check :: "can_verb \<Rightarrow> parsed_doc \<Rightarrow> can_i_check" where
  "doc_check verb doc =
     (let g = gvr_from_api_version_and_kind (the (pd_api_version doc)) (the (pd_kind doc))
      in \<lparr>cc_verb = verb, cc_group = Some (g_group g), cc_resource = g_resource g,
          cc_subresource = None, cc_namespace = pd_namespace doc, cc_name = None\<rparr>)"

lemma pre_flight_nth:
  "i < length docs \<Longrightarrow>
     pre_flight_checks docs ! (i * 2) = doc_check VCreate (docs ! i) \<and>
     pre_flight_checks docs ! (i * 2 + 1) = doc_check VUpdate (docs ! i)"
proof (induction docs arbitrary: i)
  case (Cons doc docs)
  have "pre_flight_checks (doc # docs) = doc_check VCreate doc # doc_check VUpdate doc # pre_flight_checks docs"
    by (simp add: pre_flight_checks_def doc_check_def Let_def)
  then show ?case using Cons by (cases i) (simp_all add: Cons.IH)
qed simp

text \<open>What the flight of a document is once the batch is answered.\<close>

lemma batch_answered:
  assumes "length checks \<le> cani_max_checks" "cluster \<noteq> []" "i < length checks"
    "cache cluster (canonical_key checks) = fetch_can_i answer checks"
  shows "cd_allowed (use_can_i_batch cache mode tier cluster checks ! i) \<longleftrightarrow>
      cr_allowed (answer (wire_check (checks ! i)))"
    "\<not> cd_loading (use_can_i_batch cache mode tier cluster checks ! i)"
  using assms by (auto simp: batch_nth fetch_can_i_def build_can_i_decision_def result_at_def Let_def)

lemma flights_each:
  assumes "length ds = 2 * length valid"
  shows "concat (map (\<lambda>(i, doc). if i * 2 + 1 < length ds
            then [(pd_id doc, pre_flight_one (ds ! (i * 2)) (ds ! (i * 2 + 1)))] else [])
            (List.enumerate 0 valid)) =
    map (\<lambda>(i, doc). (pd_id doc, pre_flight_one (ds ! (i * 2)) (ds ! (i * 2 + 1)))) (List.enumerate 0 valid)"
proof -
  have "i * 2 + 1 < length ds" if "(i, doc) \<in> set (List.enumerate 0 valid)" for i doc
    using that assms by (auto simp: in_set_enumerate_eq)
  then have "map (\<lambda>(i, doc). if i * 2 + 1 < length ds
            then [(pd_id doc, pre_flight_one (ds ! (i * 2)) (ds ! (i * 2 + 1)))] else [])
            (List.enumerate 0 valid) =
      map (\<lambda>p. [(\<lambda>(i, doc). (pd_id doc, pre_flight_one (ds ! (i * 2)) (ds ! (i * 2 + 1)))) p])
        (List.enumerate 0 valid)"
    by (intro map_cong) auto
  then show ?thesis by (simp only: concat_map_singleton)
qed

lemma denied_count:
  assumes "valid = filter applicable docs" "ds = use_can_i_batch cache mode tier cluster (pre_flight_checks valid)"
  shows "snd (snd (use_apply_pre_flight cache mode tier cluster docs)) =
    length (filter (\<lambda>(i, doc). \<not> pf_loading (pre_flight_one (ds ! (i * 2)) (ds ! (i * 2 + 1))) \<and>
      \<not> pf_allowed (pre_flight_one (ds ! (i * 2)) (ds ! (i * 2 + 1)))) (List.enumerate 0 valid))"
proof -
  have "length ds = 2 * length valid" by (simp add: assms(2) length_pre_flight)
  from flights_each [OF this] show ?thesis
    unfolding use_apply_pre_flight_def Let_def assms(1) [symmetric] assms(2) [symmetric]
    by (simp add: filter_map comp_def split_def)
qed

lemma count_enumerate:
  assumes "\<And>i. i < length xs \<Longrightarrow> P (i, xs ! i) \<longleftrightarrow> Q (xs ! i)"
  shows "length (filter P (List.enumerate 0 xs)) = length (filter Q xs)"
proof -
  have "filter P (List.enumerate 0 xs) = filter (Q \<circ> snd) (List.enumerate 0 xs)"
    using assms by (intro filter_cong) (auto simp: in_set_enumerate_eq)
  then have "length (filter P (List.enumerate 0 xs)) = length (filter Q (map snd (List.enumerate 0 xs)))"
    by (simp only: filter_map length_map)
  then show ?thesis by simp
qed

text \<open>
  The pre-flight denies exactly the documents the user may neither create nor update: with the
  batch answered, the number that disables the apply button is the number of those documents.
\<close>

theorem pre_flight_denies_exactly:
  assumes "cluster \<noteq> []" "valid = filter applicable docs"
    "2 * length valid \<le> cani_max_checks"
    "cache cluster (canonical_key (pre_flight_checks valid)) = fetch_can_i answer (pre_flight_checks valid)"
  shows "snd (snd (use_apply_pre_flight cache mode tier cluster docs)) =
    length (filter (\<lambda>doc. \<not> cr_allowed (answer (wire_check (doc_check VCreate doc))) \<and>
      \<not> cr_allowed (answer (wire_check (doc_check VUpdate doc)))) valid)"
proof -
  define ds where "ds = use_can_i_batch cache mode tier cluster (pre_flight_checks valid)"
  have "\<not> cd_loading (ds ! j) \<and>
      (cd_allowed (ds ! j) \<longleftrightarrow> cr_allowed (answer (wire_check (pre_flight_checks valid ! j))))"
    if "j < 2 * length valid" for j
    using batch_answered [of "pre_flight_checks valid" cluster j cache answer mode tier] assms that
    by (simp add: ds_def length_pre_flight)
  then have each: "\<not> cd_loading (ds ! (i * 2)) \<and> \<not> cd_loading (ds ! (i * 2 + 1)) \<and>
      (cd_allowed (ds ! (i * 2)) \<longleftrightarrow> cr_allowed (answer (wire_check (doc_check VCreate (valid ! i))))) \<and>
      (cd_allowed (ds ! (i * 2 + 1)) \<longleftrightarrow> cr_allowed (answer (wire_check (doc_check VUpdate (valid ! i)))))"
    if "i < length valid" for i
    using that pre_flight_nth [of i valid] by simp
  show ?thesis
    unfolding denied_count [OF assms(2) ds_def]
    using each by (intro count_enumerate) (auto simp: pre_flight_one_def Let_def)
qed

text \<open>
  The endpoint takes at most 64 checks and the pre-flight sends two per document: with more
  than 32 valid documents it fails as a whole and every document is denied, so the apply button
  stays disabled whatever the user may do.
\<close>

theorem long_buffer_is_denied:
  assumes "cluster \<noteq> []" "valid = filter applicable docs"
    "cani_max_checks < 2 * length valid"
    "cache cluster (canonical_key (pre_flight_checks valid)) = fetch_can_i answer (pre_flight_checks valid)"
  shows "snd (snd (use_apply_pre_flight cache mode tier cluster docs)) = length valid"
proof -
  define ds where "ds = use_can_i_batch cache mode tier cluster (pre_flight_checks valid)"
  have each: "\<not> cd_loading (ds ! j) \<and> \<not> cd_allowed (ds ! j)" if "j < 2 * length valid" for j
    using assms that
    by (simp add: ds_def batch_nth length_pre_flight fetch_can_i_def build_can_i_decision_def Let_def)
  have "snd (snd (use_apply_pre_flight cache mode tier cluster docs)) = length (filter (\<lambda>doc. True) valid)"
    unfolding denied_count [OF assms(2) ds_def]
    using each by (intro count_enumerate) (auto simp: pre_flight_one_def Let_def)
  then show ?thesis by simp
qed

section \<open>Concrete runs\<close>

text \<open>An apiserver that allows exactly the given checks.\<close>

definition allows_only :: "string list list \<Rightarrow> string list \<Rightarrow> can_i_result" where
  "allows_only ws w = \<lparr>cr_allowed = w \<in> set ws, cr_reason = []\<rparr>"

definition delete_pods :: can_i_check where
  "delete_pods = (plain_check VDelete ''pods'')\<lparr>cc_namespace := Some ''shop''\<rparr>"

definition patch_pods :: can_i_check where
  "patch_pods = (plain_check VPatch ''pods'')\<lparr>cc_namespace := Some ''shop''\<rparr>"

lemma single_check_exact_witness:
  "cd_allowed (use_can_i (\<lambda>_ _. fetch_can_i (allows_only [wire_check patch_pods]) [patch_pods])
     None None ''prod'' patch_pods)"
proof -
  have safe: "list_all key_safe [patch_pods, patch_pods]" by code_simp
  show ?thesis
    using single_check_exact [OF safe, of "''prod''" "\<lambda>_ _. fetch_can_i (allows_only [wire_check patch_pods]) [patch_pods]"
        "allows_only [wire_check patch_pods]" None None]
    by (simp add: allows_only_def)
qed

definition sample_doc :: parsed_doc where
  "sample_doc =
     \<lparr>pd_id = ''doc-0'', pd_raw = [], pd_valid = True, pd_api_version = Some ''v1'',
      pd_kind = Some ''ConfigMap'', pd_name = Some ''settings'', pd_namespace = Some ''shop'',
      pd_parse_error = None\<rparr>"

lemma sample_doc_applicable: "applicable sample_doc"
  by (simp add: sample_doc_def applicable_def filled_def)

lemma pre_flight_denies_exactly_witness:
  "snd (snd (use_apply_pre_flight (\<lambda>_ _. fetch_can_i (allows_only []) (pre_flight_checks [sample_doc]))
     None None ''prod'' [sample_doc])) = 1"
  using pre_flight_denies_exactly [of "''prod''" "[sample_doc]" "[sample_doc]"
      "\<lambda>_ _. fetch_can_i (allows_only []) (pre_flight_checks [sample_doc])" "allows_only []" None None]
  by (simp add: sample_doc_applicable cani_max_checks_def allows_only_def)

lemma long_buffer_is_denied_witness:
  "snd (snd (use_apply_pre_flight
     (\<lambda>_ _. fetch_can_i (\<lambda>_. \<lparr>cr_allowed = True, cr_reason = []\<rparr>) (pre_flight_checks (replicate 33 sample_doc)))
     None None ''prod'' (replicate 33 sample_doc))) = 33"
  using long_buffer_is_denied [of "''prod''" "replicate 33 sample_doc" "replicate 33 sample_doc"
      "\<lambda>_ _. fetch_can_i (\<lambda>_. \<lparr>cr_allowed = True, cr_reason = []\<rparr>) (pre_flight_checks (replicate 33 sample_doc))"
      "\<lambda>_. \<lparr>cr_allowed = True, cr_reason = []\<rparr>" None None]
  by (simp add: sample_doc_applicable cani_max_checks_def filter_replicate)

text \<open>
  The sorted key is shared by permuted batches while results are read by index: a caller that
  asks the same two questions in the other order is told the answers crosswise.
\<close>

theorem permuted_checks_swap_answers:
  "let answer = allows_only [wire_check patch_pods];
       cache = (\<lambda>_ key. if key = canonical_key [delete_pods, patch_pods]
                 then fetch_can_i answer [delete_pods, patch_pods] else QPending)
   in map (\<lambda>c. cr_allowed (answer (wire_check c))) [patch_pods, delete_pods] = [True, False] \<and>
      map cd_allowed (use_can_i_batch cache None None ''prod'' [patch_pods, delete_pods]) = [False, True]"
  by code_simp

text \<open>
  The toolbar asks about the core group whatever the kind: with an apiserver that lets the user
  patch and delete deployments, both buttons are disabled.
\<close>

theorem toolbar_asks_core_group:
  "let deployments = gvr ''apps'' ''v1'' ''deployments'' ''Deployment'';
       answer = allows_only [[''patch'', ''apps'', ''deployments'', [], ''shop'', []],
                             [''delete'', ''apps'', ''deployments'', [], ''shop'', []]];
       checks = toolbar_checks deployments (Some ''shop'')
   in map cd_allowed (use_can_i_batch (\<lambda>_ _. fetch_can_i answer checks) None None ''prod'' checks) =
      [False, False, False, False]"
  by code_simp

end
