(* ===== verification/Cve.thy ===== *)
theory Cve
  imports ApiError "HOL-Library.Multiset"
begin

text \<open>
  Model of the vulnerability views: the severity core (\<open>web/src/lib/severity.ts\<close>), the pod
  summaries, classification and deduplication (\<open>lib/cve.ts\<close>), the page walk and retry rule
  (\<open>hooks/useCve.ts\<close>), the filters (\<open>lib/findingFilters.ts\<close>), and from
  \<open>components/security\<close> the chip and the totals of the security tab.
\<close>

section \<open>Severities\<close>

record severity_counts =
  sc_critical :: int
  sc_high :: int
  sc_medium :: int
  sc_low :: int
  sc_informational :: int

datatype scan_state = Clean | HasFindings | Partial | Pending | NonEcr | Unscanned

definition zero_counts :: severity_counts where
  "zero_counts = \<lparr>sc_critical = 0, sc_high = 0, sc_medium = 0, sc_low = 0, sc_informational = 0\<rparr>"

definition severity_score :: "severity_counts \<Rightarrow> int" where
  "severity_score c = sc_critical c * 1000 + sc_high c * 100 + sc_medium c * 10 + sc_low c"

definition worst_severity :: "severity_counts \<Rightarrow> string option" where
  "worst_severity c =
     (if 0 < sc_critical c then Some ''critical''
      else if 0 < sc_high c then Some ''high''
      else if 0 < sc_medium c then Some ''medium''
      else if 0 < sc_low c then Some ''low''
      else None)"

definition add_counts :: "severity_counts \<Rightarrow> severity_counts \<Rightarrow> severity_counts" where
  "add_counts out s =
     \<lparr>sc_critical = sc_critical out + sc_critical s, sc_high = sc_high out + sc_high s,
      sc_medium = sc_medium out + sc_medium s, sc_low = sc_low out + sc_low s,
      sc_informational = sc_informational out + sc_informational s\<rparr>"

definition combine_counts :: "severity_counts list \<Rightarrow> severity_counts" where
  "combine_counts slices = foldl add_counts zero_counts slices"

definition dot_join :: "string list \<Rightarrow> string" where
  "dot_join parts = join_str ('' '' @ middle_dot @ '' '') parts"

definition count_part :: "int \<Rightarrow> string \<Rightarrow> string list" where
  "count_part n unit = (if 0 < n then [show_int n @ unit] else [])"

definition compact_label :: "severity_counts \<Rightarrow> string" where
  "compact_label c =
     dot_join (count_part (sc_critical c) ''C'' @ count_part (sc_high c) ''H'' @ count_part (sc_medium c) ''M'')"

definition verbose_parts :: "severity_counts \<Rightarrow> string list" where
  "verbose_parts c =
     count_part (sc_critical c) '' critical'' @ count_part (sc_high c) '' high'' @
     count_part (sc_medium c) '' medium'' @ count_part (sc_low c) '' low'' @
     count_part (sc_informational c) '' info''"

definition verbose_label :: "severity_counts \<Rightarrow> string" where
  "verbose_label c = dot_join (verbose_parts c)"

definition has_any_findings :: "severity_counts \<Rightarrow> bool" where
  "has_any_findings c \<longleftrightarrow>
     0 < sc_critical c \<or> 0 < sc_high c \<or> 0 < sc_medium c \<or> 0 < sc_low c \<or> 0 < sc_informational c"

fun state_label :: "scan_state \<Rightarrow> string" where
  "state_label Clean = ''clean''"
| "state_label Partial = ''partial scan''"
| "state_label Pending = ''scan pending''"
| "state_label NonEcr = ''not scanned (non-ECR)''"
| "state_label Unscanned = ''not scanned''"
| "state_label HasFindings = ''vulnerable''"

section \<open>The chip\<close>

datatype chip_mode = Compact | Verbose

text \<open>What the chip shows: a state with its tone, or the counts.\<close>

datatype chip =
    ChipState string bool
  | ChipVerbose "string list" "string option"
  | ChipCompact "string list" string

definition tooltip_body :: "severity_counts \<Rightarrow> string option \<Rightarrow> string" where
  "tooltip_body c scanned_at =
     dot_join ((if verbose_parts c = [] then [''clean''] else verbose_parts c) @
       (case scanned_at of Some t \<Rightarrow> if t \<noteq> [] then [''scanned '' @ t] else [] | None \<Rightarrow> []))"

definition severity_chip :: "chip_mode \<Rightarrow> severity_counts \<Rightarrow> scan_state \<Rightarrow> string option \<Rightarrow> chip" where
  "severity_chip mode c state scanned_at =
     (if state \<noteq> HasFindings \<or> \<not> has_any_findings c
      then ChipState (state_label state) (state \<in> {Clean, NonEcr, Unscanned, Pending})
      else (case mode of
              Verbose \<Rightarrow> ChipVerbose (verbose_parts c) scanned_at
            | Compact \<Rightarrow>
                (let top = count_part (sc_critical c) ''C'' @ count_part (sc_high c) ''H'' @
                           count_part (sc_medium c) ''M''
                 in ChipCompact
                      (if top = [] \<and> compact_label c = []
                       then [if verbose_label c \<noteq> [] then verbose_label c else em_dash] else top)
                      (tooltip_body c scanned_at))))"

section \<open>Findings, containers and pods\<close>

record finding =
  fi_id :: string
  fi_severity :: "string option"
  fi_exploit :: "string option"
  fi_fixed :: "string option"

record package_group =
  pg_name :: string
  pg_findings :: "finding list"

datatype container_scan = Scanned | ScanNonEcr | ScanPending

datatype scan_coverage = CoverFull | CoverPartial | CoverNone

record container_row =
  cn_name :: string
  cn_image :: string
  cn_digest :: "string option"
  cn_scan :: container_scan
  cn_counts :: "severity_counts option"
  cn_packages :: "package_group list option"

record pod_row =
  pr_namespace :: string
  pr_name :: string
  pr_containers :: "container_row list"
  pr_counts :: severity_counts
  pr_coverage :: scan_coverage

record pod_summary =
  ps_namespace :: string
  ps_name :: string
  ps_counts :: severity_counts
  ps_coverage :: scan_coverage

record pods_page =
  pp_pods :: "pod_row list"
  pp_next :: "string option"

section \<open>Instance ids\<close>

text \<open>The pattern \<open>/(i-[a-f0-9]+)$\<close>, matched at the leftmost slash where it holds.\<close>

definition is_lower_hex :: "char \<Rightarrow> bool" where
  "is_lower_hex c = (let n = (of_char c :: nat) in 48 \<le> n \<and> n \<le> 57 \<or> 97 \<le> n \<and> n \<le> 102)"

definition is_instance_id :: "string \<Rightarrow> bool" where
  "is_instance_id s \<longleftrightarrow> starts_with ''i-'' s \<and> drop 2 s \<noteq> [] \<and> list_all is_lower_hex (drop 2 s)"

fun match_instance :: "string \<Rightarrow> string option" where
  "match_instance [] = None"
| "match_instance (c # cs) = (if c = CHR ''/'' \<and> is_instance_id cs then Some cs else match_instance cs)"

definition extract_instance_id :: "string option \<Rightarrow> string" where
  "extract_instance_id provider = or_str (match_instance (or_str provider [])) []"

section \<open>Pod summaries\<close>

definition pod_key :: "string \<Rightarrow> string \<Rightarrow> string" where
  "pod_key ns name = ns @ ''/'' @ name"

definition summarize_pod_row :: "pod_row \<Rightarrow> pod_summary" where
  "summarize_pod_row p =
     \<lparr>ps_namespace = pr_namespace p, ps_name = pr_name p, ps_counts = pr_counts p,
      ps_coverage = pr_coverage p\<rparr>"

definition accumulate_pod_summaries :: "pods_page list \<Rightarrow> (string \<times> pod_summary) list" where
  "accumulate_pod_summaries pages =
     fold (\<lambda>page out. fold (\<lambda>p. AList.update (pod_key (pr_namespace p) (pr_name p)) (summarize_pod_row p))
             (pp_pods page) out) pages []"

text \<open>
  The page walk. \<open>fetch i cursor\<close> is the answer to the \<open>i\<close>-th request; the walk makes at most
  \<open>n\<close> requests.
\<close>

fun walk_pages :: "(nat \<Rightarrow> string option \<Rightarrow> thrown + pods_page) \<Rightarrow> nat \<Rightarrow> nat \<Rightarrow> string option \<Rightarrow>
    thrown + pods_page list" where
  "walk_pages fetch i 0 cursor = Inr []"
| "walk_pages fetch i (Suc n) cursor =
     (case fetch i cursor of
        Inl e \<Rightarrow> Inl e
      | Inr page \<Rightarrow>
          (if or_str (pp_next page) [] = [] then Inr [page]
           else (case walk_pages fetch (Suc i) n (pp_next page) of
                   Inl e \<Rightarrow> Inl e
                 | Inr pages \<Rightarrow> Inr (page # pages))))"

definition max_pages :: nat where
  "max_pages = 200"

definition pod_summaries ::
    "(nat \<Rightarrow> string option \<Rightarrow> thrown + pods_page) \<Rightarrow> thrown + (string \<times> pod_summary) list" where
  "pod_summaries fetch =
     (case walk_pages fetch 0 max_pages None of
        Inl e \<Rightarrow> Inl e | Inr pages \<Rightarrow> Inr (accumulate_pod_summaries pages))"

definition cve_retry :: "nat \<Rightarrow> thrown \<Rightarrow> bool" where
  "cve_retry n err =
     (case err of
        ThrownApi e \<Rightarrow> if 400 \<le> ae_status e \<and> ae_status e < 500 then False else n < 1
      | _ \<Rightarrow> n < 1)"

section \<open>Rollups\<close>

definition upper_severity :: "finding \<Rightarrow> string" where
  "upper_severity f = to_upper (or_str (fi_severity f) [])"

definition count_one :: "severity_counts \<Rightarrow> finding \<Rightarrow> severity_counts" where
  "count_one c f =
     (let s = upper_severity f
      in if s = ''CRITICAL'' then c\<lparr>sc_critical := sc_critical c + 1\<rparr>
         else if s = ''HIGH'' then c\<lparr>sc_high := sc_high c + 1\<rparr>
         else if s = ''MEDIUM'' then c\<lparr>sc_medium := sc_medium c + 1\<rparr>
         else if s = ''LOW'' then c\<lparr>sc_low := sc_low c + 1\<rparr>
         else if s = ''INFORMATIONAL'' \<or> s = ''INFO'' then c\<lparr>sc_informational := sc_informational c + 1\<rparr>
         else c)"

definition count_severities :: "finding list \<Rightarrow> severity_counts" where
  "count_severities findings = foldl count_one zero_counts findings"

text \<open>Pods by namespace and name; the map of summaries may not be loaded.\<close>

definition count_vulnerable :: "(string \<times> string) list \<Rightarrow> (string \<rightharpoonup> severity_counts) option \<Rightarrow> nat" where
  "count_vulnerable pods m =
     (case m of
        None \<Rightarrow> 0
      | Some counts \<Rightarrow>
          length (filter (\<lambda>(ns, name). case counts (pod_key ns name) of
              Some c \<Rightarrow> 0 < sc_critical c \<or> 0 < sc_high c | None \<Rightarrow> False) pods))"

definition aggregate_claim_severity ::
    "string option list \<Rightarrow> (string \<rightharpoonup> severity_counts) \<Rightarrow> severity_counts" where
  "aggregate_claim_severity provider_ids by_instance =
     combine_counts (List.map_filter (\<lambda>p. let i = extract_instance_id p
        in if i = [] then None else by_instance i) provider_ids)"

section \<open>Classification\<close>

fun coverage_to_state :: "scan_coverage \<Rightarrow> scan_state" where
  "coverage_to_state CoverFull = HasFindings"
| "coverage_to_state CoverPartial = Partial"
| "coverage_to_state CoverNone = NonEcr"

definition container_scan_state :: "container_row \<Rightarrow> scan_state" where
  "container_scan_state c =
     (case cn_scan c of
        ScanNonEcr \<Rightarrow> NonEcr
      | ScanPending \<Rightarrow> Pending
      | Scanned \<Rightarrow>
          (case cn_counts c of
             Some n \<Rightarrow> if 0 < sc_critical n + sc_high n + sc_medium n + sc_low n then HasFindings else Clean
           | None \<Rightarrow> Clean))"

section \<open>Digests\<close>

definition add_digest :: "container_row \<Rightarrow> string list \<Rightarrow> string list" where
  "add_digest c ds =
     (case cn_digest c of
        None \<Rightarrow> ds | Some d \<Rightarrow> if d = [] \<or> d \<in> set ds then ds else ds @ [d])"

definition collect_digests :: "container_row list \<Rightarrow> string list" where
  "collect_digests cs = fold add_digest cs []"

definition collect_digests_across_pods :: "pod_row list \<Rightarrow> string list" where
  "collect_digests_across_pods pods = fold (\<lambda>p. fold add_digest (pr_containers p)) pods []"

definition dedup_key :: "container_row \<Rightarrow> string" where
  "dedup_key c = cn_name c @ ''|'' @ (case cn_digest c of Some d \<Rightarrow> d | None \<Rightarrow> cn_image c)"

definition dedup_step ::
    "container_row \<Rightarrow> (string \<times> container_row \<times> nat) list \<Rightarrow> (string \<times> container_row \<times> nat) list" where
  "dedup_step c m =
     (case map_of m (dedup_key c) of
        Some (row, n) \<Rightarrow> AList.update (dedup_key c) (row, n + 1) m
      | None \<Rightarrow> AList.update (dedup_key c) (c, 1) m)"

record deduped_container =
  dd_row :: container_row
  dd_pod_count :: nat
  dd_name :: string
  dd_digest :: "string option"

definition dedup_containers_by_digest :: "pod_row list \<Rightarrow> deduped_container list" where
  "dedup_containers_by_digest pods =
     map (\<lambda>(_, row, n). \<lparr>dd_row = row, dd_pod_count = n, dd_name = cn_name row, dd_digest = cn_digest row\<rparr>)
       (fold (\<lambda>p. fold dedup_step (pr_containers p)) pods [])"

section \<open>Filters\<close>

datatype severity_name = SevCritical | SevHigh | SevMedium | SevLow | SevInformational

fun severity_text :: "severity_name \<Rightarrow> string" where
  "severity_text SevCritical = ''critical''"
| "severity_text SevHigh = ''high''"
| "severity_text SevMedium = ''medium''"
| "severity_text SevLow = ''low''"
| "severity_text SevInformational = ''informational''"

record finding_filters =
  ff_severity :: "severity_name option"
  ff_exploit_only :: bool
  ff_fixable_only :: bool

definition no_filters :: finding_filters where
  "no_filters = \<lparr>ff_severity = None, ff_exploit_only = False, ff_fixable_only = False\<rparr>"

definition is_exploit :: "finding \<Rightarrow> bool" where
  "is_exploit f = (to_upper (trim_str (or_str (fi_exploit f) [])) \<notin> {[], ''NO'', ''FALSE''})"

definition is_fixable :: "finding \<Rightarrow> bool" where
  "is_fixable f = (or_str (fi_fixed f) [] \<noteq> [])"

definition normal_severity :: "finding \<Rightarrow> string" where
  "normal_severity f = (if upper_severity f = ''INFO'' then ''INFORMATIONAL'' else upper_severity f)"

definition filter_finding :: "finding_filters \<Rightarrow> finding \<Rightarrow> bool" where
  "filter_finding fs f =
     (if (case ff_severity fs of Some s \<Rightarrow> normal_severity f \<noteq> to_upper (severity_text s) | None \<Rightarrow> False)
      then False
      else if ff_exploit_only fs \<and> \<not> is_exploit f then False
      else if ff_fixable_only fs \<and> \<not> is_fixable f then False
      else True)"

definition any_filter_active :: "finding_filters \<Rightarrow> bool" where
  "any_filter_active fs \<longleftrightarrow> ff_severity fs \<noteq> None \<or> ff_exploit_only fs \<or> ff_fixable_only fs"

definition filter_package_group :: "finding_filters \<Rightarrow> package_group \<Rightarrow> package_group" where
  "filter_package_group fs g =
     (if \<not> any_filter_active fs then g else g\<lparr>pg_findings := filter (filter_finding fs) (pg_findings g)\<rparr>)"

section \<open>Totals of the security tab\<close>

record filter_totals =
  ft_counts :: severity_counts
  ft_exploits :: nat
  ft_fixables :: nat
  ft_total :: nat

definition packages_of :: "container_row \<Rightarrow> package_group list" where
  "packages_of c = (case cn_packages c of Some gs \<Rightarrow> gs | None \<Rightarrow> [])"

definition total_one :: "filter_totals \<Rightarrow> finding \<Rightarrow> filter_totals" where
  "total_one t f =
     \<lparr>ft_counts = count_one (ft_counts t) f,
      ft_exploits = ft_exploits t + (if is_exploit f then 1 else 0),
      ft_fixables = ft_fixables t + (if is_fixable f then 1 else 0),
      ft_total = ft_total t + 1\<rparr>"

definition compute_filter_totals :: "container_row list \<Rightarrow> filter_totals" where
  "compute_filter_totals cs =
     foldl (\<lambda>t c. foldl (\<lambda>t g. foldl total_one t (pg_findings g)) t (packages_of c))
       \<lparr>ft_counts = zero_counts, ft_exploits = 0, ft_fixables = 0, ft_total = 0\<rparr> cs"

definition visible_one :: "finding_filters \<Rightarrow> finding \<Rightarrow> nat" where
  "visible_one fs f =
     (if (case ff_severity fs of Some s \<Rightarrow> normal_severity f \<noteq> to_upper (severity_text s) | None \<Rightarrow> False)
         \<or> ff_exploit_only fs \<and> \<not> is_exploit f \<or> ff_fixable_only fs \<and> \<not> is_fixable f
      then 0 else 1)"

definition count_visible_findings :: "container_row list \<Rightarrow> finding_filters \<Rightarrow> nat" where
  "count_visible_findings cs fs =
     (if \<not> any_filter_active fs then ft_total (compute_filter_totals cs)
      else foldl (\<lambda>n c. foldl (\<lambda>n g. foldl (\<lambda>n f. n + visible_one fs f) n (pg_findings g)) n (packages_of c))
             0 cs)"

text \<open>What a container block renders: the findings left in its filtered packages.\<close>

definition rendered_findings :: "finding_filters \<Rightarrow> container_row \<Rightarrow> finding list" where
  "rendered_findings fs c =
     (if cn_scan c = Scanned then concat (map (pg_findings \<circ> filter_package_group fs) (packages_of c)) else [])"

definition first_with_findings :: "finding_filters \<Rightarrow> container_row \<Rightarrow> int" where
  "first_with_findings fs c =
     (let gs = map (filter_package_group fs) (packages_of c);
          n = length (takeWhile (\<lambda>g. pg_findings g = []) gs)
      in if n < length gs then int n else - 1)"

text \<open>The state in the header of an instance.\<close>

definition instance_state :: "finding list \<Rightarrow> scan_state" where
  "instance_state findings =
     (let c = count_severities findings
      in if 0 < sc_critical c + sc_high c + sc_medium c + sc_low c then HasFindings else Clean)"

section \<open>The banner\<close>

definition is_banner_visible :: "string \<Rightarrow> bool option \<Rightarrow> bool \<Rightarrow> bool" where
  "is_banner_visible cluster inspector_enabled dismissed =
     (if cluster = [] then False
      else if dismissed then False
      else (case inspector_enabled of None \<Rightarrow> False | Some enabled \<Rightarrow> \<not> enabled))"

text \<open>\<open>then\<close> is the parsed time in milliseconds, None for a NaN.\<close>

definition humanize_age :: "string \<Rightarrow> int option \<Rightarrow> int \<Rightarrow> string" where
  "humanize_age stamp parsed now =
     (case parsed of
        None \<Rightarrow> stamp
      | Some t \<Rightarrow>
          (let d = max 0 ((now - t) div 1000)
           in if d < 60 then show_int d @ ''s ago''
              else if d < 3600 then show_int (d div 60) @ ''m ago''
              else if d < 86400 then show_int (d div 3600) @ ''h ago''
              else show_int (d div 86400) @ ''d ago''))"

section \<open>Flattening the loops\<close>

definition all_findings :: "container_row list \<Rightarrow> finding list" where
  "all_findings cs = concat (map (\<lambda>c. concat (map pg_findings (packages_of c))) cs)"

lemma foldl_concat_map: "foldl (\<lambda>t x. foldl f t (g x)) a xs = foldl f a (concat (map g xs))"
  by (induction xs arbitrary: a) simp_all

lemma totals_flat:
  "compute_filter_totals cs =
     foldl total_one \<lparr>ft_counts = zero_counts, ft_exploits = 0, ft_fixables = 0, ft_total = 0\<rparr>
       (all_findings cs)"
  by (simp add: compute_filter_totals_def all_findings_def foldl_concat_map)

lemma foldl_count: "foldl (\<lambda>n f. n + h f) a xs = a + sum_list (map h xs)" for a :: nat
  by (induction xs arbitrary: a) (simp_all add: add.assoc)

lemma visible_one_filter: "visible_one fs f = (if filter_finding fs f then 1 else 0)"
  by (auto simp: visible_one_def filter_finding_def split: option.splits)

lemma sum_indicator: "sum_list (map (\<lambda>x. if P x then 1 else 0) xs) = length (filter P xs)"
  by (induction xs) simp_all

lemma total_length:
  "ft_total (foldl total_one t fs) = ft_total t + length fs"
  "ft_exploits (foldl total_one t fs) = ft_exploits t + length (filter is_exploit fs)"
  "ft_fixables (foldl total_one t fs) = ft_fixables t + length (filter is_fixable fs)"
  "ft_counts (foldl total_one t fs) = foldl count_one (ft_counts t) fs"
  by (induction fs arbitrary: t) (simp_all add: total_one_def)

lemma inactive_filter: "\<not> any_filter_active fs \<Longrightarrow> filter_finding fs f"
  by (simp add: any_filter_active_def filter_finding_def)

lemma visible_length: "count_visible_findings cs fs = length (filter (filter_finding fs) (all_findings cs))"
proof (cases "any_filter_active fs")
  case True
  then have "count_visible_findings cs fs = foldl (\<lambda>n f. n + visible_one fs f) 0 (all_findings cs)"
    unfolding count_visible_findings_def all_findings_def foldl_concat_map by simp
  then show ?thesis by (simp add: foldl_count visible_one_filter sum_indicator)
next
  case False
  then have "filter (filter_finding fs) xs = xs" for xs by (simp add: inactive_filter)
  with False show ?thesis by (simp add: count_visible_findings_def totals_flat total_length)
qed

lemma counts_length:
  "sc_critical (foldl count_one c fs) = sc_critical c + int (length (filter (\<lambda>f. normal_severity f = ''CRITICAL'') fs))"
  "sc_high (foldl count_one c fs) = sc_high c + int (length (filter (\<lambda>f. normal_severity f = ''HIGH'') fs))"
  "sc_medium (foldl count_one c fs) = sc_medium c + int (length (filter (\<lambda>f. normal_severity f = ''MEDIUM'') fs))"
  "sc_low (foldl count_one c fs) = sc_low c + int (length (filter (\<lambda>f. normal_severity f = ''LOW'') fs))"
  "sc_informational (foldl count_one c fs) =
     sc_informational c + int (length (filter (\<lambda>f. normal_severity f = ''INFORMATIONAL'') fs))"
  by (induction fs arbitrary: c) (auto simp: count_one_def normal_severity_def Let_def)

lemma upper_texts:
  "to_upper (severity_text SevCritical) = ''CRITICAL''" "to_upper (severity_text SevHigh) = ''HIGH''"
  "to_upper (severity_text SevMedium) = ''MEDIUM''" "to_upper (severity_text SevLow) = ''LOW''"
  "to_upper (severity_text SevInformational) = ''INFORMATIONAL''"
  by code_simp+

section \<open>Deduplication\<close>

definition key_count :: "container_row list \<Rightarrow> string \<Rightarrow> nat" where
  "key_count cs k = length (filter (\<lambda>c. dedup_key c = k) cs)"

text \<open>The map of the loop after the containers \<open>cs\<close>.\<close>

definition dedup_inv :: "container_row list \<Rightarrow> (string \<times> container_row \<times> nat) list \<Rightarrow> bool" where
  "dedup_inv cs m \<longleftrightarrow>
     distinct (map fst m) \<and> (\<forall>(k, row, n) \<in> set m. dedup_key row = k \<and> n = key_count cs k \<and> row \<in> set cs) \<and>
     fst ` set m = dedup_key ` set cs"

lemma update_absent: "k \<notin> fst ` set m \<Longrightarrow> AList.update k v m = m @ [(k, v)]"
  by (induction m) auto

lemma fst_update: "fst ` set (AList.update k v m) = insert k (fst ` set m)"
  by (simp add: dom_map_of_conv_image_fst [symmetric] update_conv')

lemma dedup_inv_step:
  assumes "dedup_inv cs m"
  shows "dedup_inv (cs @ [c]) (dedup_step c m)"
proof (cases "map_of m (dedup_key c)")
  case None
  then have new: "dedup_key c \<notin> fst ` set m" by (simp add: map_of_eq_None_iff)
  have "\<forall>x \<in> set cs. dedup_key x \<noteq> dedup_key c"
    using assms new unfolding dedup_inv_def by (metis imageI)
  then have "key_count cs (dedup_key c) = 0" by (simp add: key_count_def)
  moreover have "dedup_step c m = m @ [(dedup_key c, c, 1)]"
    using None new by (simp add: dedup_step_def update_absent)
  ultimately show ?thesis
    using assms new by (fastforce simp: dedup_inv_def key_count_def)
next
  case (Some e)
  obtain row n where e: "e = (row, n)" by (cases e)
  with Some have mem: "(dedup_key c, row, n) \<in> set m" by (simp add: map_of_SomeD)
  have row: "dedup_key row = dedup_key c" "n = key_count cs (dedup_key c)" "row \<in> set cs"
    using assms mem by (auto simp: dedup_inv_def)
  have dist: "distinct (map fst m)" using assms by (simp add: dedup_inv_def)
  have step: "dedup_step c m = AList.update (dedup_key c) (row, n + 1) m"
    using Some e by (simp add: dedup_step_def)
  have entries: "(k, r, j) \<in> set (dedup_step c m) \<Longrightarrow>
      (if k = dedup_key c then r = row \<and> j = n + 1 else (k, r, j) \<in> set m)" for k r j
  proof -
    assume a: "(k, r, j) \<in> set (dedup_step c m)"
    have "distinct (map fst (dedup_step c m))" unfolding step by (rule distinct_update [OF dist])
    with a have "map_of (dedup_step c m) k = Some (r, j)" by simp
    then show ?thesis using dist unfolding step
      by (auto simp: update_conv' split: if_splits dest: map_of_SomeD)
  qed
  have keys: "fst ` set (dedup_step c m) = fst ` set m"
    using imageI [OF mem, of fst] unfolding step fst_update by auto
  have "distinct (map fst (dedup_step c m))" unfolding step by (rule distinct_update [OF dist])
  moreover have "dedup_key c \<in> dedup_key ` set cs" using row(1,3) by (metis imageI)
  ultimately show ?thesis
    using assms row keys by (auto simp: dedup_inv_def key_count_def dest!: entries split: if_splits)
qed

lemma dedup_inv_fold: "dedup_inv ds m \<Longrightarrow> dedup_inv (ds @ cs) (fold dedup_step cs m)"
proof (induction cs arbitrary: ds m)
  case (Cons c cs)
  from Cons.IH [OF dedup_inv_step [OF Cons.prems]] show ?case by simp
qed simp

lemma fold_concat_map: "fold (\<lambda>p. fold f (g p)) xs = fold f (concat (map g xs))"
  by (induction xs) (simp_all add: fun_eq_iff)

lemma dedup_inv_pods:
  "dedup_inv (concat (map pr_containers pods)) (fold (\<lambda>p. fold dedup_step (pr_containers p)) pods [])"
proof -
  have "dedup_inv [] []" by (simp add: dedup_inv_def)
  from dedup_inv_fold [OF this] show ?thesis by (simp only: fold_concat_map append_Nil)
qed

section \<open>Properties\<close>

text \<open>
  The workload tab shows every container shape once with its number of replicas: the rows have
  pairwise different name and image, each counts exactly the replicas with its key, and every
  container of every pod has a row.
\<close>

theorem dedup_counts_replicas:
  "distinct (map (dedup_key \<circ> dd_row) (dedup_containers_by_digest pods)) \<and>
   list_all (\<lambda>d. dd_pod_count d = key_count (concat (map pr_containers pods)) (dedup_key (dd_row d)))
     (dedup_containers_by_digest pods) \<and>
   dedup_key ` set (concat (map pr_containers pods)) =
     dedup_key ` dd_row ` set (dedup_containers_by_digest pods)"
proof -
  define m where "m = fold (\<lambda>p. fold dedup_step (pr_containers p)) pods []"
  have inv: "dedup_inv (concat (map pr_containers pods)) m" unfolding m_def by (rule dedup_inv_pods)
  have rows: "dedup_containers_by_digest pods =
      map (\<lambda>(_, row, n). \<lparr>dd_row = row, dd_pod_count = n, dd_name = cn_name row, dd_digest = cn_digest row\<rparr>) m"
    by (simp add: dedup_containers_by_digest_def m_def)
  have keys: "map (dedup_key \<circ> dd_row) (dedup_containers_by_digest pods) = map fst m"
    using inv unfolding rows by (auto simp: dedup_inv_def)
  have "dedup_key ` dd_row ` set (dedup_containers_by_digest pods) = fst ` set m"
    using arg_cong [OF keys, of set] by (simp add: image_comp)
  moreover have "list_all (\<lambda>d. dd_pod_count d = key_count (concat (map pr_containers pods)) (dedup_key (dd_row d)))
      (dedup_containers_by_digest pods)"
    using inv by (auto simp: dedup_inv_def rows list_all_iff)
  ultimately show ?thesis
    using inv unfolding keys dedup_inv_def by simp
qed

text \<open>
  The numbers on the filter chips are what the filters show: a severity's total is the number of
  findings visible under that filter, and so are the totals of exploits, fixables and all.
\<close>

theorem chip_totals_are_visible_counts:
  "let totals = compute_filter_totals cs;
       only = (\<lambda>s. int (count_visible_findings cs (no_filters\<lparr>ff_severity := Some s\<rparr>)))
   in sc_critical (ft_counts totals) = only SevCritical \<and> sc_high (ft_counts totals) = only SevHigh \<and>
      sc_medium (ft_counts totals) = only SevMedium \<and> sc_low (ft_counts totals) = only SevLow \<and>
      sc_informational (ft_counts totals) = only SevInformational \<and>
      ft_exploits totals = count_visible_findings cs (no_filters\<lparr>ff_exploit_only := True\<rparr>) \<and>
      ft_fixables totals = count_visible_findings cs (no_filters\<lparr>ff_fixable_only := True\<rparr>) \<and>
      ft_total totals = count_visible_findings cs no_filters"
proof -
  have "filter_finding (no_filters\<lparr>ff_exploit_only := True\<rparr>) = is_exploit"
    "filter_finding (no_filters\<lparr>ff_fixable_only := True\<rparr>) = is_fixable"
    "filter_finding no_filters = (\<lambda>_. True)"
    "filter_finding (no_filters\<lparr>ff_severity := Some s\<rparr>) = (\<lambda>f. normal_severity f = to_upper (severity_text s))"
    for s
    by (auto simp: fun_eq_iff filter_finding_def no_filters_def)
  note only = this
  show ?thesis
    unfolding Let_def visible_length only upper_texts totals_flat total_length counts_length zero_counts_def
    by simp
qed

text \<open>
  "X / Y shown" is true: the number of visible findings is the number of findings that the
  container blocks of the pod tab render under the same filters, for scanned containers.
\<close>

theorem visible_count_is_rendered:
  assumes "list_all (\<lambda>c. cn_scan c = Scanned) cs"
  shows "count_visible_findings cs fs = length (concat (map (rendered_findings fs) cs))"
proof -
  have group: "pg_findings (filter_package_group fs g) = filter (filter_finding fs) (pg_findings g)" for g
    by (simp add: filter_package_group_def inactive_filter)
  have "rendered_findings fs c = filter (filter_finding fs) (concat (map pg_findings (packages_of c)))"
    if "c \<in> set cs" for c
    using assms that by (simp add: rendered_findings_def list_all_iff group comp_def filter_concat)
  then have "concat (map (rendered_findings fs) cs) = filter (filter_finding fs) (all_findings cs)"
    by (simp add: all_findings_def filter_concat comp_def cong: map_cong)
  then show ?thesis by (simp add: visible_length)
qed

definition sample_finding :: "string \<Rightarrow> finding" where
  "sample_finding severity =
     \<lparr>fi_id = ''CVE-1'', fi_severity = Some severity, fi_exploit = None, fi_fixed = Some ''1.2''\<rparr>"

definition sample_container :: container_row where
  "sample_container =
     \<lparr>cn_name = ''app'', cn_image = ''shop'', cn_digest = Some ''sha256:1'', cn_scan = Scanned,
      cn_counts = Some zero_counts,
      cn_packages = Some [\<lparr>pg_name = ''openssl'', pg_findings = [sample_finding ''HIGH'', sample_finding ''LOW'']\<rparr>]\<rparr>"

lemma visible_count_is_rendered_witness:
  "length (concat (map (rendered_findings (no_filters\<lparr>ff_severity := Some SevHigh\<rparr>)) [sample_container])) = 1"
proof -
  have "count_visible_findings [sample_container] (no_filters\<lparr>ff_severity := Some SevHigh\<rparr>) = 1" by code_simp
  then show ?thesis
    using visible_count_is_rendered [of "[sample_container]" "no_filters\<lparr>ff_severity := Some SevHigh\<rparr>"]
    by (simp add: sample_container_def)
qed

lemma summaries_flat:
  "accumulate_pod_summaries pages =
     fold (\<lambda>p. AList.update (pod_key (pr_namespace p) (pr_name p)) (summarize_pod_row p))
       (concat (map pp_pods pages)) []"
  unfolding accumulate_pod_summaries_def by (simp only: fold_concat_map)

text \<open>
  In the summaries every pod of the pages has its newest row: the last one with its namespace
  and name in the order of the pages.
\<close>

theorem newest_row_wins:
  "map_of (accumulate_pod_summaries pages) k =
     map_option summarize_pod_row
       (find (\<lambda>p. pod_key (pr_namespace p) (pr_name p) = k) (rev (concat (map pp_pods pages))))"
  by (simp only: summaries_flat map_of_fold_update)

section \<open>What the views get wrong\<close>

text \<open>A pod that was fully scanned without a finding is labelled vulnerable.\<close>

theorem clean_pod_says_vulnerable:
  "severity_chip Compact zero_counts (coverage_to_state CoverFull) None = ChipState ''vulnerable'' False"
  by code_simp

text \<open>A partially scanned pod shows no count, whatever was found.\<close>

theorem partial_scan_hides_criticals:
  "severity_chip Compact c (coverage_to_state CoverPartial) t = ChipState ''partial scan'' False"
  by (simp add: severity_chip_def)

text \<open>Eleven high findings sort above a critical one.\<close>

theorem highs_outrank_critical:
  "severity_score (zero_counts\<lparr>sc_critical := 1\<rparr>) < severity_score (zero_counts\<lparr>sc_high := 11\<rparr>)"
  by (simp add: severity_score_def zero_counts_def)

text \<open>
  The workload tab counts a finding once per replica but renders each container once: with two
  replicas the hint says two of two where one finding is on the screen.
\<close>

theorem workload_counts_every_replica:
  "let pod = (\<lambda>name. \<lparr>pr_namespace = ''shop'', pr_name = name,
          pr_containers = [sample_container\<lparr>cn_packages := Some [\<lparr>pg_name = ''openssl'',
            pg_findings = [sample_finding ''HIGH'']\<rparr>]\<rparr>],
          pr_counts = zero_counts, pr_coverage = CoverFull\<rparr>);
       pods = [pod ''a'', pod ''b'']
   in count_visible_findings (concat (map pr_containers pods)) no_filters = 2 \<and>
      length (concat (map (rendered_findings no_filters \<circ> dd_row) (dedup_containers_by_digest pods))) = 1"
  by code_simp

end
