(* ===== verification/ManagedFields.thy ===== *)
theory ManagedFields
  imports ConflictPolicy YamlPatch "HOL-Library.Char_ord" "HOL-Library.List_Lexorder"
begin

text \<open>
  Model of \<open>web/src/lib/managedFields.ts\<close> and \<open>web/src/lib/drift.ts\<close>: the flattening of the
  field sets of \<open>metadata.managedFields\<close> into editor paths, and the detection of foreign writes.
  \<open>JSON.parse\<close> is a parameter. Time stamps are compared as strings, as the source does.
\<close>

datatype field_operation = OpApply | OpUpdate

record managed_entry =
  me_manager :: string
  me_operation :: field_operation
  me_time :: "string option"
  me_fields_type :: string
  me_fields :: jsval
  me_subresource :: "string option"

record resource_meta =
  rm_resource_version :: string
  rm_generation :: int
  rm_managed_fields :: "managed_entry list"

record field_owner =
  fo_path :: string
  fo_manager :: string
  fo_operation :: field_operation

section \<open>Flattening\<close>

datatype segment = SegSkip | SegSelf | Seg string

definition segment_of :: "(string \<Rightarrow> jsval option) \<Rightarrow> string \<Rightarrow> segment" where
  "segment_of json_parse key =
     (if starts_with ''f:'' key
      then (if drop 2 key = [] then SegSkip else Seg (drop 2 key))
      else if starts_with ''k:'' key
      then (case json_parse (drop 2 key) of
              None \<Rightarrow> SegSkip
            | Some key_obj \<Rightarrow>
                (case own_entries key_obj of
                   [] \<Rightarrow> SegSkip
                 | (k, v) # _ \<Rightarrow> Seg (''['' @ k @ ''='' @ js_to_string v @ '']'')))
      else if starts_with ''i:'' key then Seg (''['' @ drop 2 key @ '']'')
      else if key = ''.'' then SegSelf
      else SegSkip)"

definition child_path :: "string \<Rightarrow> string \<Rightarrow> string" where
  "child_path pre seg =
     (if starts_with ''['' seg then pre @ seg
      else if pre \<noteq> [] then pre @ ''.'' @ seg
      else seg)"

lemma array_entries_size:
  "(k, v) \<in> set (array_entries xs) \<Longrightarrow> size v < Suc (size_list size xs)"
  by (auto simp: array_entries_def dest!: set_zip_rightD) (simp add: less_Suc_eq_le size_list_estimation')

lemma own_entries_size: "is_plain_object v \<or> is_array v \<Longrightarrow> (k, x) \<in> set (own_entries v) \<Longrightarrow> size x < size v"
  by (cases v) (auto dest: size_entry_less array_entries_size)

function walk_fields :: "(string \<Rightarrow> jsval option) \<Rightarrow> jsval \<Rightarrow> string \<Rightarrow> string list" where
  "walk_fields json_parse node pre =
     (if \<not> (is_plain_object node \<or> is_array node) then []
      else concat (map (\<lambda>(key, value).
             case segment_of json_parse key of
               SegSelf \<Rightarrow> if pre \<noteq> [] then [pre] else []
             | SegSkip \<Rightarrow> []
             | Seg seg \<Rightarrow>
                 (if (is_plain_object value \<or> is_array value) \<and> 0 < own_key_count value
                  then walk_fields json_parse value (child_path pre seg)
                  else [child_path pre seg]))
           (own_entries node)))"
  by pat_completeness auto
termination
  by (relation "measure (\<lambda>(_, node, _). size node)") (auto intro: own_entries_size)

declare walk_fields.simps [simp del]

definition parse_managed_fields ::
  "(string \<Rightarrow> jsval option) \<Rightarrow> managed_entry list \<Rightarrow> field_owner list" where
  "parse_managed_fields json_parse entries =
     concat (map (\<lambda>entry.
       if \<not> js_truthy (me_fields entry) \<or> me_fields_type entry \<noteq> ''FieldsV1'' then []
       else map (\<lambda>p. \<lparr>fo_path = p, fo_manager = me_manager entry, fo_operation = me_operation entry\<rparr>)
              (walk_fields json_parse (me_fields entry) [])) entries)"

definition path_to_manager :: "field_owner list \<Rightarrow> (string \<times> string) list" where
  "path_to_manager owners = fold (\<lambda>o1. AList.update (fo_path o1) (fo_manager o1)) owners []"

definition normalize_status_field_path :: "string \<Rightarrow> string" where
  "normalize_status_field_path field =
     (let p = trim_str field;
          p = (if starts_with ''.'' p then drop 1 p else p)
      in unquote_selectors p)"

section \<open>Drift\<close>

record drift_info =
  di_manager :: string
  di_category :: manager_category
  di_paths :: "string list"
  di_at :: string
  di_generation_changed :: bool

definition periscope_manager :: string where
  "periscope_manager = ''periscope-spa''"

definition has_time :: "managed_entry \<Rightarrow> bool" where
  "has_time e = (case me_time e of Some t \<Rightarrow> t \<noteq> [] | None \<Rightarrow> False)"

definition time_of :: "managed_entry \<Rightarrow> string" where
  "time_of e = (case me_time e of Some t \<Rightarrow> t | None \<Rightarrow> [])"

text \<open>The loop bodies of \<open>newestEntry\<close> and \<open>youngestEntryTime\<close>.\<close>

definition newer :: "managed_entry \<Rightarrow> managed_entry option \<Rightarrow> managed_entry option" where
  "newer e best =
     (if \<not> has_time e then best
      else (case best of
              None \<Rightarrow> Some e
            | Some b \<Rightarrow> if has_time b \<and> time_of b < time_of e then Some e else best))"

definition later :: "managed_entry \<Rightarrow> string option \<Rightarrow> string option" where
  "later e mx =
     (if \<not> has_time e then mx
      else (case mx of
              None \<Rightarrow> Some (time_of e)
            | Some m \<Rightarrow> if m = [] \<or> m < time_of e then Some (time_of e) else mx))"

definition newest_entry :: "managed_entry list \<Rightarrow> managed_entry option" where
  "newest_entry entries = fold newer entries None"

definition youngest_entry_time :: "managed_entry list \<Rightarrow> string option" where
  "youngest_entry_time entries = fold later entries None"

definition describe_drift ::
  "(string \<Rightarrow> jsval option) \<Rightarrow> resource_meta \<Rightarrow> resource_meta \<Rightarrow> drift_info option" where
  "describe_drift json_parse pristine fresh =
     (if rm_resource_version fresh = rm_resource_version pristine then None
      else (case newest_entry (rm_managed_fields fresh) of
              None \<Rightarrow> None
            | Some newest \<Rightarrow>
                (if \<not> has_time newest then None
                 else if (case youngest_entry_time (rm_managed_fields pristine) of
                            Some y \<Rightarrow> time_of newest \<le> y | None \<Rightarrow> False) then None
                 else if me_manager newest = periscope_manager then None
                 else let owners = parse_managed_fields json_parse [newest]
                      in if owners = [] then None
                         else Some \<lparr>di_manager = me_manager newest,
                                    di_category = ri_category (classify_manager (me_manager newest)),
                                    di_paths = map fo_path owners,
                                    di_at = time_of newest,
                                    di_generation_changed =
                                      (rm_generation fresh \<noteq> rm_generation pristine)\<rparr>)))"

section \<open>Paths\<close>

text \<open>An editor path: field names and list-item selectors, as both notations write it.\<close>

datatype path_item = PField string | PSelector string string

fun editor_path :: "path_item list \<Rightarrow> string" where
  "editor_path [] = []"
| "editor_path (PField n # ps) = ''.'' @ n @ editor_path ps"
| "editor_path (PSelector k v # ps) = ''['' @ k @ ''='' @ v @ '']'' @ editor_path ps"

fun status_path :: "char \<Rightarrow> path_item list \<Rightarrow> string" where
  "status_path q [] = []"
| "status_path q (PField n # ps) = ''.'' @ n @ status_path q ps"
| "status_path q (PSelector k v # ps) = ''['' @ k @ ''='' @ [q] @ v @ [q] @ '']'' @ status_path q ps"

fun item_ok :: "path_item \<Rightarrow> bool" where
  "item_ok (PField n) = (n \<noteq> [] \<and> CHR ''['' \<notin> set n \<and> \<not> is_ws (last n))"
| "item_ok (PSelector k v) =
     (k \<noteq> [] \<and> (\<forall>c \<in> set k. is_word_char c) \<and> v \<noteq> [] \<and> (\<forall>c \<in> set v. \<not> is_quote c))"

lemma match_selector_none: "CHR ''['' \<noteq> c \<Longrightarrow> match_selector (c # s) = None"
  by (auto simp: match_selector_def)

lemma match_selector_Nil [simp]: "match_selector [] = None"
  by (simp add: match_selector_def)

lemma unquote_plain:
  "CHR ''['' \<notin> set n \<Longrightarrow> unquote_selectors (n @ s) = n @ unquote_selectors s"
  by (induction n) (simp_all add: unquote_selectors.simps [of "_ # _"] match_selector_none)

lemma takeWhile_stop: "\<forall>x \<in> set xs. P x \<Longrightarrow> \<not> P y \<Longrightarrow> takeWhile P (xs @ y # ys) = xs"
  by (induction xs) auto

lemma dropWhile_stop: "\<forall>x \<in> set xs. P x \<Longrightarrow> \<not> P y \<Longrightarrow> dropWhile P (xs @ y # ys) = y # ys"
  by (induction xs) auto

lemma equals_not_word: "\<not> is_word_char (CHR ''='')"
  by (simp add: is_word_char_def)

lemma unquote_selector:
  assumes "item_ok (PSelector k v)" "is_quote q"
  shows "unquote_selectors (''['' @ k @ ''='' @ [q] @ v @ [q] @ '']'' @ s) =
     ''['' @ k @ ''='' @ v @ '']'' @ unquote_selectors s"
proof -
  have "match_selector (''['' @ k @ ''='' @ [q] @ v @ [q] @ '']'' @ s) = Some (k, v, s)"
    using assms by (simp add: match_selector_def Let_def takeWhile_stop dropWhile_stop equals_not_word)
  then show ?thesis by (subst unquote_selectors.simps) simp
qed

lemma unquote_status_path:
  "\<forall>p \<in> set ps. item_ok p \<Longrightarrow> is_quote q \<Longrightarrow> unquote_selectors (status_path q ps) = editor_path ps"
proof (induction ps rule: editor_path.induct)
  case 1
  then show ?case by (simp add: unquote_selectors.simps)
next
  case (2 n ps)
  then have "CHR ''['' \<notin> set (CHR ''.'' # n)" by simp
  from unquote_plain [OF this, of "status_path q ps"] 2 show ?case by simp
next
  case (3 k v ps)
  then show ?case using unquote_selector [of k v q "status_path q ps"] by simp
qed

lemma last_status_path:
  "ps \<noteq> [] \<Longrightarrow> \<forall>p \<in> set ps. item_ok p \<Longrightarrow> status_path q ps \<noteq> [] \<and> \<not> is_ws (last (status_path q ps))"
proof (induction ps rule: editor_path.induct)
  case (2 n ps)
  then show ?case by (cases "ps = []") auto
next
  case (3 k v ps)
  then show ?case by (cases "ps = []") (auto simp: is_ws_def)
qed simp

text \<open>
  the conflict view and the ownership glyphs speak of the same path. The field reference
  of a 409, with quoted selectors and a leading dot, is normalised to the unquoted path the
  editor computes, by both copies of the normalisation.
\<close>

theorem conflict_path_is_editor_path:
  assumes "\<forall>p \<in> set (PField n # ps). item_ok p" "is_quote q"
  shows "normalize_status_field_path (status_path q (PField n # ps)) = n @ editor_path ps \<and>
     normalize_field_path (status_path q (PField n # ps)) = n @ editor_path ps"
proof -
  let ?s = "status_path q (PField n # ps)"
  have "trim_str ?s = ?s"
    using last_status_path [of "PField n # ps" q] assms(1) by (intro trim_id) (auto simp: is_ws_def)
  moreover have "unquote_selectors (n @ status_path q ps) = n @ editor_path ps"
    using assms unquote_plain [of n "status_path q ps"] unquote_status_path [of ps q] by simp
  ultimately show ?thesis
    by (simp add: normalize_status_field_path_def normalize_field_path_def)
qed

lemma conflict_path_is_editor_path_witness:
  "normalize_field_path (''.spec.containers[name='' @ [CHR 0x22] @ ''web'' @ [CHR 0x22] @ ''].image'') =
     ''spec.containers[name=web].image''"
  using conflict_path_is_editor_path [of "''spec''"
      "[PField ''containers'', PSelector ''name'' ''web'', PField ''image'']" "CHR 0x22"]
  by (simp add: is_ws_def is_word_char_def is_quote_def)

section \<open>Ownership\<close>

text \<open>A field set as a nest of field names down to one owned field.\<close>

fun nest_fields :: "string list \<Rightarrow> jsval" where
  "nest_fields [] = JObj []"
| "nest_fields (n # ns) = JObj [(''f:'' @ n, nest_fields ns)]"

lemma walk_nest:
  "\<forall>n \<in> set ns. n \<noteq> [] \<and> \<not> starts_with ''['' n \<Longrightarrow> ns \<noteq> [] \<Longrightarrow>
   walk_fields jp (nest_fields ns) pre =
     [if pre = [] then join_str ''.'' ns else pre @ ''.'' @ join_str ''.'' ns]"
proof (induction ns arbitrary: pre)
  case (Cons n ns)
  show ?case
  proof (cases ns)
    case Nil
    then show ?thesis using Cons.prems
      by (subst walk_fields.simps) (simp add: segment_of_def child_path_def own_key_count_def)
  next
    case (Cons m ms)
    then have "walk_fields jp (nest_fields ns) (child_path pre n) =
        [if child_path pre n = [] then join_str ''.'' ns else child_path pre n @ ''.'' @ join_str ''.'' ns]"
      using Cons.prems Cons.IH [of "child_path pre n"] by auto
    then show ?thesis using Cons \<open>\<forall>n \<in> set (n # ns). _ n\<close>
      by (subst walk_fields.simps) (simp add: segment_of_def child_path_def own_key_count_def)
  qed
qed simp

lemma update_fold_last:
  "map_of (fold (\<lambda>x. AList.update (f x) (g x)) xs m) k =
     (case find (\<lambda>x. f x = k) (rev xs) of Some x \<Rightarrow> Some (g x) | None \<Rightarrow> map_of m k)"
proof (induction xs arbitrary: m)
  case (Cons x xs)
  have snoc: "find P (ys @ [x]) = (case find P ys of None \<Rightarrow> if P x then Some x else None | Some y \<Rightarrow> Some y)"
    for P ys by (induction ys) auto
  show ?case using Cons.IH [of "AList.update (f x) (g x) m"]
    by (auto simp: snoc update_conv' split: option.splits)
qed simp

text \<open>
  the glyph of a line names a manager that owns it. The map from paths to managers gives
  exactly the paths that some managed-fields entry owns, each with the manager of the last such
  owner, which is the manager of one of the entries.
\<close>

theorem glyph_names_last_owner:
  "map_of (path_to_manager (parse_managed_fields jp entries)) path =
     map_option fo_manager (find (\<lambda>x. fo_path x = path) (rev (parse_managed_fields jp entries))) \<and>
   (\<forall>x \<in> set (parse_managed_fields jp entries). \<exists>e \<in> set entries.
      fo_manager x = me_manager e \<and> fo_operation x = me_operation e \<and>
      fo_path x \<in> set (walk_fields jp (me_fields e) []))"
proof -
  have "map_of (path_to_manager (parse_managed_fields jp entries)) path =
     map_option fo_manager (find (\<lambda>x. fo_path x = path) (rev (parse_managed_fields jp entries)))"
    unfolding path_to_manager_def update_fold_last by (simp split: option.splits)
  then show ?thesis by (auto simp: parse_managed_fields_def split: if_splits)
qed

definition sample_entry :: "string \<Rightarrow> string \<Rightarrow> string list \<Rightarrow> managed_entry" where
  "sample_entry m t ns =
     \<lparr>me_manager = m, me_operation = OpApply, me_time = Some t, me_fields_type = ''FieldsV1'',
      me_fields = nest_fields ns, me_subresource = None\<rparr>"

lemma owners_of_sample:
  "\<forall>n \<in> set ns. n \<noteq> [] \<and> \<not> starts_with ''['' n \<Longrightarrow> ns \<noteq> [] \<Longrightarrow>
   parse_managed_fields jp [sample_entry m t ns] =
     [\<lparr>fo_path = join_str ''.'' ns, fo_manager = m, fo_operation = OpApply\<rparr>]"
proof -
  assume a: "\<forall>n \<in> set ns. n \<noteq> [] \<and> \<not> starts_with ''['' n" "ns \<noteq> []"
  have "js_truthy (nest_fields ns)" by (cases ns) simp_all
  then show ?thesis using walk_nest [OF a, of jp "[]"]
    by (simp add: parse_managed_fields_def sample_entry_def)
qed

lemma glyph_names_last_owner_witness:
  "map_of (path_to_manager (parse_managed_fields (\<lambda>_. None)
      [sample_entry ''kubectl'' ''t'' [''spec'', ''replicas'']])) ''spec.replicas'' = Some ''kubectl''"
  using glyph_names_last_owner [of "\<lambda>_. None" "[sample_entry ''kubectl'' ''t'' [''spec'', ''replicas'']]"
      "''spec.replicas''"]
  by (simp add: owners_of_sample)

section \<open>Properties of the drift detector\<close>

lemma newer_result:
  assumes "newer e best = r'" "\<forall>b. best = Some b \<longrightarrow> has_time b"
  shows "(\<forall>b. r' = Some b \<longrightarrow> has_time b \<and> (b = e \<or> best = Some b)) \<and>
     (has_time e \<longrightarrow> (\<exists>b. r' = Some b \<and> time_of e \<le> time_of b)) \<and>
     (\<forall>b. best = Some b \<longrightarrow> (\<exists>c. r' = Some c \<and> time_of b \<le> time_of c))"
  using assms by (cases "has_time e"; cases best) (auto simp: newer_def split: if_splits)

lemma newest_fold:
  "fold newer es acc = Some r \<Longrightarrow> (\<forall>b. acc = Some b \<longrightarrow> has_time b) \<Longrightarrow>
   has_time r \<and> (r \<in> set es \<or> acc = Some r) \<and> (\<forall>e \<in> set es. has_time e \<longrightarrow> time_of e \<le> time_of r) \<and>
   (\<forall>b. acc = Some b \<longrightarrow> time_of b \<le> time_of r)"
proof (induction es arbitrary: acc)
  case (Cons e es)
  note n = newer_result [OF refl Cons.prems(2), of e]
  have ih: "has_time r \<and> (r \<in> set es \<or> newer e acc = Some r) \<and>
      (\<forall>x \<in> set es. has_time x \<longrightarrow> time_of x \<le> time_of r) \<and>
      (\<forall>b. newer e acc = Some b \<longrightarrow> time_of b \<le> time_of r)"
    using Cons.IH [of "newer e acc"] Cons.prems(1) n by simp
  have "has_time e \<longrightarrow> time_of e \<le> time_of r" using ih n by (metis order_trans)
  moreover have "\<forall>b. acc = Some b \<longrightarrow> time_of b \<le> time_of r" using ih n by (metis order_trans)
  moreover have "r \<in> set (e # es) \<or> acc = Some r" using ih n by auto
  ultimately show ?case using ih by auto
qed simp

lemma newest_entry_max:
  assumes "newest_entry es = Some r"
  shows "has_time r \<and> r \<in> set es \<and> (\<forall>e \<in> set es. has_time e \<longrightarrow> time_of e \<le> time_of r)"
  using newest_fold [OF assms [unfolded newest_entry_def]] by simp

lemma later_result:
  "(has_time e \<longrightarrow> (\<exists>y. later e mx = Some y \<and> time_of e \<le> y)) \<and>
   (\<forall>m. mx = Some m \<longrightarrow> (\<exists>y. later e mx = Some y \<and> m \<le> y))"
  by (cases "has_time e"; cases mx) (auto simp: later_def)

lemma youngest_fold:
  "(\<forall>e \<in> set es. has_time e \<longrightarrow> (\<exists>y. fold later es acc = Some y \<and> time_of e \<le> y)) \<and>
   (\<forall>m. acc = Some m \<longrightarrow> (\<exists>y. fold later es acc = Some y \<and> m \<le> y))"
proof (induction es arbitrary: acc)
  case (Cons e es)
  note l = later_result [of e acc] and ih = Cons.IH [of "later e acc"]
  have step: "\<exists>y. fold later es (later e acc) = Some y \<and> x \<le> y" if lz: "later e acc = Some z" "x \<le> z" for x z
  proof -
    obtain y where "fold later es (later e acc) = Some y" "z \<le> y" using ih lz(1) by blast
    then show ?thesis using order_trans [OF lz(2)] by blast
  qed
  have "has_time e \<longrightarrow> (\<exists>y. fold later es (later e acc) = Some y \<and> time_of e \<le> y)"
    using l step by blast
  moreover have "\<forall>m. acc = Some m \<longrightarrow> (\<exists>y. fold later es (later e acc) = Some y \<and> m \<le> y)"
    using l step by blast
  ultimately show ?case using ih by auto
qed simp

text \<open>
  a reported drift is a foreign write after mount. When the detector reports one, the
  resource version differs, the writer is not this console, its time stamp is the greatest of
  all stamped entries of the fresh object and greater than every stamp of the mounted one, and
  the reported paths are the non-empty set of fields that writer's entry owns.
\<close>

theorem drift_is_foreign_and_new:
  assumes "describe_drift jp pristine fresh = Some d"
  shows "rm_resource_version fresh \<noteq> rm_resource_version pristine \<and>
    di_manager d \<noteq> periscope_manager \<and> di_paths d \<noteq> [] \<and>
    (\<forall>e \<in> set (rm_managed_fields pristine). has_time e \<longrightarrow> time_of e < di_at d) \<and>
    (\<exists>w \<in> set (rm_managed_fields fresh). me_manager w = di_manager d \<and> time_of w = di_at d \<and>
       (\<forall>e \<in> set (rm_managed_fields fresh). has_time e \<longrightarrow> time_of e \<le> di_at d) \<and>
       di_paths d = walk_fields jp (me_fields w) [])"
proof -
  obtain w where w: "newest_entry (rm_managed_fields fresh) = Some w"
    and rv: "rm_resource_version fresh \<noteq> rm_resource_version pristine"
    and bar: "\<not> (case youngest_entry_time (rm_managed_fields pristine) of
                   Some y \<Rightarrow> time_of w \<le> y | None \<Rightarrow> False)"
    and foreign: "me_manager w \<noteq> periscope_manager"
    and owners: "parse_managed_fields jp [w] \<noteq> []"
    and d: "d = \<lparr>di_manager = me_manager w, di_category = ri_category (classify_manager (me_manager w)),
               di_paths = map fo_path (parse_managed_fields jp [w]), di_at = time_of w,
               di_generation_changed = (rm_generation fresh \<noteq> rm_generation pristine)\<rparr>"
    using assms by (auto simp: describe_drift_def Let_def split: if_splits option.splits)
  have "time_of e < time_of w" if e: "e \<in> set (rm_managed_fields pristine)" "has_time e" for e
  proof -
    obtain y where "youngest_entry_time (rm_managed_fields pristine) = Some y" "time_of e \<le> y"
      using youngest_fold [of "rm_managed_fields pristine" None] e by (auto simp: youngest_entry_time_def)
    with bar show ?thesis by (auto simp: not_le)
  qed
  moreover have "map fo_path (parse_managed_fields jp [w]) = walk_fields jp (me_fields w) []"
    using owners by (auto simp: parse_managed_fields_def comp_def split: if_splits)
  ultimately show ?thesis using newest_entry_max [OF w] rv foreign owners by (auto simp: d)
qed

lemma drift_is_foreign_and_new_witness:
  "\<exists>d. describe_drift (\<lambda>_. None)
      \<lparr>rm_resource_version = ''1'', rm_generation = 1,
       rm_managed_fields = [sample_entry ''periscope-spa'' ''2024'' [''spec'', ''replicas'']]\<rparr>
      \<lparr>rm_resource_version = ''2'', rm_generation = 2,
       rm_managed_fields = [sample_entry ''kubectl'' ''2025'' [''spec'', ''image'']]\<rparr> = Some d
    \<and> di_paths d \<noteq> [] \<and> di_manager d \<noteq> periscope_manager"
proof -
  let ?p = "\<lparr>rm_resource_version = ''1'', rm_generation = 1,
       rm_managed_fields = [sample_entry ''periscope-spa'' ''2024'' [''spec'', ''replicas'']]\<rparr>"
  let ?f = "\<lparr>rm_resource_version = ''2'', rm_generation = 2,
       rm_managed_fields = [sample_entry ''kubectl'' ''2025'' [''spec'', ''image'']]\<rparr>"
  have "has_time (sample_entry m ''2024'' ns)" "has_time (sample_entry m ''2025'' ns)"
    "time_of (sample_entry m t ns) = t" "me_manager (sample_entry m t ns) = m" for m t ns
    by (simp_all add: sample_entry_def has_time_def time_of_def)
  moreover have "\<not> ''2025'' \<le> (''2024'' :: string)" by code_simp
  ultimately obtain d where d: "describe_drift (\<lambda>_. None) ?p ?f = Some d"
    by (simp add: describe_drift_def newest_entry_def youngest_entry_time_def newer_def later_def periscope_manager_def
        owners_of_sample Let_def)
  show ?thesis using drift_is_foreign_and_new [OF d] d by blast
qed

text \<open>
  a status write is reported as drift. The detector looks at the newest entry only and
  does not tell the status subresource apart: a kubelet status update after mount is reported,
  with status paths only, and hides an earlier foreign write of the spec.
\<close>

theorem status_write_reported_as_drift:
  "\<exists>d. describe_drift (\<lambda>_. None)
      \<lparr>rm_resource_version = ''1'', rm_generation = 1,
       rm_managed_fields = [sample_entry ''periscope-spa'' ''2023'' [''spec'', ''replicas'']]\<rparr>
      \<lparr>rm_resource_version = ''2'', rm_generation = 2,
       rm_managed_fields = [sample_entry ''kubectl'' ''2024'' [''spec'', ''image''],
         (sample_entry ''kubelet'' ''2025'' [''status'', ''phase''])\<lparr>me_subresource := Some ''status''\<rparr>]\<rparr>
      = Some d \<and> di_manager d = ''kubelet'' \<and> di_paths d = [''status.phase'']"
proof -
  have t: "has_time (sample_entry m ''2023'' ns)" "has_time (sample_entry m ''2024'' ns)"
    "has_time (sample_entry m ''2025'' ns\<lparr>me_subresource := sr\<rparr>)"
    "time_of (sample_entry m t ns) = t" "time_of (sample_entry m t ns\<lparr>me_subresource := sr\<rparr>) = t"
    "me_manager (sample_entry m t ns\<lparr>me_subresource := sr\<rparr>) = m" for m t ns sr
    by (simp_all add: sample_entry_def has_time_def time_of_def)
  have "parse_managed_fields (\<lambda>_. None) [sample_entry ''kubelet'' ''2025'' [''status'', ''phase'']
        \<lparr>me_subresource := Some ''status''\<rparr>] =
      parse_managed_fields (\<lambda>_. None) [sample_entry ''kubelet'' ''2025'' [''status'', ''phase'']]"
    by (simp add: parse_managed_fields_def sample_entry_def)
  moreover have "''2024'' < (''2025'' :: string)" "\<not> ''2025'' \<le> (''2023'' :: string)" by code_simp+
  ultimately show ?thesis using t
    by (simp add: describe_drift_def newest_entry_def youngest_entry_time_def newer_def later_def
        periscope_manager_def owners_of_sample Let_def)
qed

end
