(* ===== verification/StreamSafety.thy ===== *)
theory StreamSafety
  imports ResourceStream
begin

text \<open>
  Correctness of the resource stream: the cached list follows the server's deltas as a finite
  map does, batching only delays the writes (what waits when the stream closes is dropped), the hook
  gives up at the fourth counted error, and a closed stream is inert.
\<close>

section \<open>The list follows the deltas\<close>

text \<open>What a delta means for the cluster state a list page shows.\<close>

definition delta_meaning :: "('r \<Rightarrow> 'k) \<Rightarrow> ('k \<Rightarrow> 'r option) \<Rightarrow> delta_type \<times> 'r \<Rightarrow> ('k \<Rightarrow> 'r option)" where
  "delta_meaning ident m d =
     (case d of
        (DAdded, r) \<Rightarrow> m(ident r \<mapsto> r)
      | (DModified, r) \<Rightarrow> if ident r \<in> dom m then m(ident r \<mapsto> r) else m
      | (DDeleted, r) \<Rightarrow> m(ident r := None))"

definition added_count :: "(delta_type \<times> 'r) list \<Rightarrow> nat" where
  "added_count ds = length (filter (\<lambda>d. fst d = DAdded) ds)"

context row_store begin

definition act :: "'r list \<Rightarrow> delta_type \<times> 'r \<Rightarrow> 'r list" where
  "act xs d = (case d of
     (DAdded, r) \<Rightarrow> put r xs | (DModified, r) \<Rightarrow> replace r xs | (DDeleted, r) \<Rightarrow> remove r xs)"

lemma act_distinct: "distinct (map ident xs) \<Longrightarrow> distinct (map ident (act xs d))"
  by (auto simp: act_def put_distinct replace_distinct remove_distinct
      split: prod.splits delta_type.splits)

lemma act_length: "length (act xs d) \<le> length xs + added_count [d]"
  using put_length remove_length
  by (auto simp: act_def added_count_def replace_length split: prod.splits delta_type.splits)

lemma act_lookup:
  "has_room cap (length xs) \<or> fst d \<noteq> DAdded \<Longrightarrow>
   lookup_row ident (act xs d) = delta_meaning ident (lookup_row ident xs) d"
  by (auto simp: act_def delta_meaning_def put_lookup replace_lookup remove_lookup
      split: prod.splits delta_type.splits)

lemma acts_refine:
  assumes "distinct (map ident xs)" "\<And>c. cap = Some c \<Longrightarrow> length xs + added_count ds \<le> c"
  shows "distinct (map ident (foldl act xs ds)) \<and>
     lookup_row ident (foldl act xs ds) = foldl (delta_meaning ident) (lookup_row ident xs) ds"
  using assms
proof (induction ds arbitrary: xs)
  case (Cons d ds)
  have len: "length (act xs d) + added_count ds \<le> length xs + added_count (d # ds)"
    using act_length [of xs d] by (auto simp: added_count_def split: if_splits)
  have room: "has_room cap (length xs) \<or> fst d \<noteq> DAdded"
    using Cons.prems(2) by (auto simp: has_room_def added_count_def split: option.splits)
  have "cap = Some c \<Longrightarrow> length (act xs d) + added_count ds \<le> c" for c
    using len Cons.prems(2) by force
  then show ?case
    using Cons.IH [of "act xs d"] act_distinct [OF Cons.prems(1)] act_lookup [OF room] by simp
qed simp

end

definition delta_pair :: "delta \<Rightarrow> delta_type \<times> jsval" where
  "delta_pair d = (delta_type d, delta_row d)"

lemma update_same_entry:
  "map_of kvs k = Some v \<Longrightarrow> AList.update k v kvs = kvs"
  by (induction kvs) auto

lemma with_items_rows:
  assumes "map_of list_items_key kind = Some field" "map_of kvs field = Some (JArr items)"
    and "\<And>nxt. upd items = Some nxt \<Longrightarrow> nxt = res" "upd items = None \<Longrightarrow> res = items"
  shows "with_items kind upd (JObj kvs) = JObj (AList.update field (JArr res) kvs)"
  using assms by (cases "upd items") (simp_all add: with_items_def get_prop_obj entry_get_def update_same_entry)

lemma apply_delta_rows:
  assumes "map_of list_items_key kind = Some field" "map_of kvs field = Some (JArr items)"
  shows "apply_delta kind (JObj kvs) d =
     JObj (AList.update field (JArr (kind_rows.act kind items (delta_pair d))) kvs)"
proof (cases d)
  case (Delta t row)
  have drop: "drop_row kind row items = items" if "length (drop_row kind row items) = length items"
    using that unfolding drop_row_def filter_id_conv
    by (metis (mono_tags, lifting) length_filter_less less_irrefl)
  have patch: "patch_rows kind row f items = items"
    if "\<not> (\<exists>x \<in> set items. identity_for kind x = identity_for kind row)" for f
    using that by (auto simp: patch_rows_def intro!: map_idI)
  show ?thesis
    using Delta drop patch
    by (cases t)
       (auto simp: apply_delta_def delta_pair_def kind_rows.act_def add_row_to_list_def
         remove_row_from_list_def patch_row_in_list_def Let_def
         intro!: with_items_rows [OF assms] split: if_splits)
qed

lemma apply_deltas_rows:
  assumes "map_of list_items_key kind = Some field" "map_of kvs field = Some (JArr items)"
  shows "apply_deltas kind (JObj kvs) ds =
     JObj (AList.update field (JArr (foldl (kind_rows.act kind) items (map delta_pair ds))) kvs)"
proof -
  have "foldl (apply_delta kind) (JObj kvs) ds =
     JObj (AList.update field (JArr (foldl (kind_rows.act kind) items (map delta_pair ds))) kvs)"
    using assms(2)
  proof (induction ds arbitrary: kvs items)
    case (Cons d ds)
    let ?items = "kind_rows.act kind items (delta_pair d)"
    have "map_of (AList.update field (JArr ?items) kvs) field = Some (JArr ?items)"
      by (simp add: update_conv')
    from Cons.IH [OF this] show ?case
      by (simp add: apply_delta_rows [OF assms(1) Cons.prems] update_Some_unfold)
  qed (simp add: update_same_entry)
  then show ?thesis by (simp add: apply_deltas_def)
qed

text \<open>
  C3: the cached list follows the server. Applying a batch of watch deltas to a cached
  response whose rows have distinct identities gives a response that differs only in the rows;
  the rows keep distinct identities, and looked up by identity they are what the deltas, read
  as insertions, replacements of present rows and deletions, make of the old rows. For events
  this holds as long as the batch fits under the cap of 500.
\<close>

theorem deltas_refine_map:
  assumes "map_of list_items_key kind = Some field" "map_of kvs field = Some (JArr items)"
    and "distinct (map (identity_for kind) items)"
    and "kind \<noteq> ''events'' \<or> length items + added_count (map delta_pair ds) \<le> 500"
  shows "\<exists>rows. apply_deltas kind (JObj kvs) ds = JObj (AList.update field (JArr rows) kvs) \<and>
     distinct (map (identity_for kind) rows) \<and>
     lookup_row (identity_for kind) rows =
       foldl (delta_meaning (identity_for kind)) (lookup_row (identity_for kind) items)
         (map delta_pair ds)"
proof -
  have "length items + added_count (map delta_pair ds) \<le> c" if "list_max_items kind = Some c" for c
    using that assms(4) by (auto simp: list_max_items_def split: if_splits)
  from kind_rows.acts_refine [OF assms(3) this] show ?thesis
    using apply_deltas_rows [OF assms(1,2), of ds] by blast
qed

lemma deltas_refine_map_witness:
  "\<exists>rows. apply_deltas ''pods'' (JObj [(''pods'', JArr [])])
       [Delta DAdded (JObj [(''name'', JStr ''a'')]), Delta DDeleted (JObj [(''name'', JStr ''a'')])]
     = JObj (AList.update ''pods'' (JArr rows) [(''pods'', JArr [])])"
  using deltas_refine_map [of "''pods''" "''pods''" "[(''pods'', JArr [])]" "[]"
      "[Delta DAdded (JObj [(''name'', JStr ''a'')]), Delta DDeleted (JObj [(''name'', JStr ''a'')])]"]
  by (simp add: list_items_key_def) blast

section \<open>Batching\<close>

text \<open>The list an unbuffered hook would hold: every delta is applied on its own, as it arrives.\<close>

definition one_by_one :: "string \<Rightarrow> jsval \<Rightarrow> delta list \<Rightarrow> jsval" where
  "one_by_one kind lst ds = foldl (\<lambda>l d. apply_deltas kind l [d]) lst ds"

text \<open>The deltas the hook takes in during a sequence of events.\<close>

fun received :: "stream_args \<Rightarrow> stream \<Rightarrow> stream_event list \<Rightarrow> delta list" where
  "received a s [] = []"
| "received a s (e # es) =
     (case e of
        SvDelta t m \<Rightarrow>
          (case accepted_row m of
             Some row \<Rightarrow> if st_open s \<and> \<not> st_closed s then [Delta t row] else []
           | None \<Rightarrow> [])
      | _ \<Rightarrow> []) @ received a (stream_step a s e) es"

definition replaces_list :: "stream_event \<Rightarrow> bool" where
  "replaces_list e = (case e of SvSnapshot _ \<Rightarrow> True | ListFetched _ \<Rightarrow> True | _ \<Rightarrow> False)"

lemma with_items_truthy: "js_truthy (with_items kind upd lst) = js_truthy lst"
  by (simp add: with_items_def split: option.splits jsval.splits)

lemma apply_delta_truthy: "js_truthy (apply_delta kind lst d) = js_truthy lst"
  by (auto simp: apply_delta_def add_row_to_list_def remove_row_from_list_def patch_row_in_list_def
      with_items_truthy split: delta.splits delta_type.splits)

lemma apply_deltas_append:
  "apply_deltas kind lst (xs @ ys) = apply_deltas kind (apply_deltas kind lst xs) ys"
proof -
  have "js_truthy (foldl (apply_delta kind) lst xs) = js_truthy lst"
    by (induction xs arbitrary: lst) (simp_all add: apply_delta_truthy)
  then show ?thesis by (simp add: apply_deltas_def)
qed

lemma apply_deltas_Nil [simp]: "apply_deltas kind lst [] = lst"
  by (simp add: apply_deltas_def)

lemma apply_deltas_one_by_one: "apply_deltas kind lst ds = one_by_one kind lst ds"
proof (induction ds rule: rev_induct)
  case (snoc d ds)
  then show ?case by (simp add: apply_deltas_append one_by_one_def)
qed (simp add: one_by_one_def)

lemma batching_step:
  assumes "\<not> replaces_list e"
  shows "\<exists>xs. st_buffer s @ received a s [e] = xs @ st_buffer (stream_step a s e) \<and>
     st_list (stream_step a s e) = apply_deltas (sa_resource a) (st_list s) xs"
proof (cases "e = TimerFlush \<and> st_flush s \<and> \<not> st_closed s")
  case True
  then show ?thesis by (intro exI [of _ "st_buffer s"]) (auto simp: flush_def Let_def)
next
  case False
  then have "st_buffer s @ received a s [e] = st_buffer (stream_step a s e) \<and>
      st_list (stream_step a s e) = st_list s"
    using assms by (cases e) (auto simp: replaces_list_def enqueue_delta_def on_disruption_def
        on_auth_expired_def on_error_def on_visible_def flush_def Let_def split: option.splits)
  then show ?thesis by (intro exI [of _ "[]"]) simp
qed

lemma batching_run:
  assumes "\<forall>e \<in> set es. \<not> replaces_list e"
  shows "\<exists>xs. st_buffer s @ received a s es = xs @ st_buffer (foldl (stream_step a) s es) \<and>
     st_list (foldl (stream_step a) s es) = apply_deltas (sa_resource a) (st_list s) xs"
  using assms
proof (induction es arbitrary: s)
  case (Cons e es)
  let ?t = "stream_step a s e"
  obtain xs where xs: "st_buffer s @ received a s [e] = xs @ st_buffer ?t"
    "st_list ?t = apply_deltas (sa_resource a) (st_list s) xs"
    using batching_step [of e s a] Cons.prems by auto
  obtain ys where ys: "st_buffer ?t @ received a ?t es = ys @ st_buffer (foldl (stream_step a) ?t es)"
    "st_list (foldl (stream_step a) ?t es) = apply_deltas (sa_resource a) (st_list ?t) ys"
    using Cons.IH [of ?t] Cons.prems by auto
  have "received a s (e # es) = received a s [e] @ received a ?t es" by simp
  then have "st_buffer s @ received a s (e # es) = (xs @ ys) @ st_buffer (foldl (stream_step a) ?t es)"
    using xs(1) ys(1) by (metis append.assoc)
  then show ?case using xs(2) ys(2) by (intro exI [of _ "xs @ ys"]) (simp add: apply_deltas_append)
qed simp

definition pods_stream :: stream_args where
  "pods_stream = \<lparr>sa_cluster = ''c'', sa_resource = ''pods'', sa_status = Connecting\<rparr>"

definition delta_msg :: "string \<Rightarrow> jsval option" where
  "delta_msg name = Some (JObj [(''object'', JObj [(''name'', JStr name)])])"

section \<open>The machine\<close>

definition stream_inv :: "stream \<Rightarrow> bool" where
  "stream_inv s \<longleftrightarrow>
     st_attempts s \<le> max_reconnect_attempts \<and>
     (st_attempts s = max_reconnect_attempts \<longrightarrow> st_closed s) \<and>
     (st_closed s \<longrightarrow> \<not> st_open s) \<and>
     (st_status s = PollingFallback \<longrightarrow> st_closed s) \<and>
     (st_buffer s \<noteq> [] \<and> \<not> st_closed s \<longrightarrow> st_flush s)"

lemmas handler_defs = on_snapshot_def enqueue_delta_def on_disruption_def on_auth_expired_def
  on_error_def on_visible_def flush_def Let_def max_reconnect_attempts_def

lemma stream_inv_step: "stream_inv s \<Longrightarrow> stream_inv (stream_step a s e)"
  by (cases e) (auto simp: stream_inv_def handler_defs split: option.splits)

lemma closed_step: "st_closed s \<Longrightarrow> st_closed (stream_step a s e)"
  by (cases e) (auto simp: handler_defs split: option.splits)

interpretation stream_hook: absorbing_machine "stream_step a" stream_inv st_closed
  by unfold_locales (auto intro: stream_inv_step closed_step)

lemma stream_inv_initial: "stream_inv (initial_stream v)"
  by (simp add: stream_inv_def initial_stream_def max_reconnect_attempts_def)

lemma reachable_stream_inv: "stream_inv (foldl (stream_step a) (initial_stream v) es)"
  by (rule stream_hook.inv_run [OF stream_inv_initial])

text \<open>
  C8: batching loses and reorders nothing. Take any history and, after it, events that bring no
  new list (deltas, timers, tab changes, errors, shutdowns). The cached list is at every moment
  the one it was, with a prefix of the waiting and accepted deltas applied one by one in the
  order received, and the rest is what waits in the buffer. On a stream that is not closed
  nothing waits without a scheduled flush, and that flush writes the list an unbuffered hook
  would hold; only what waits when the stream closes is never written.
\<close>

theorem batching_is_transparent:
  fixes a v es0 es
  defines "s \<equiv> foldl (stream_step a) (initial_stream v) es0"
  defines "t \<equiv> foldl (stream_step a) s es"
  assumes "\<forall>e \<in> set es. \<not> replaces_list e"
  shows "(\<exists>xs. st_buffer s @ received a s es = xs @ st_buffer t \<and>
            st_list t = one_by_one (sa_resource a) (st_list s) xs) \<and>
    (\<not> st_closed t \<and> \<not> st_flush t \<longrightarrow>
       st_list t = one_by_one (sa_resource a) (st_list s) (st_buffer s @ received a s es)) \<and>
    (\<not> st_closed t \<and> st_flush t \<longrightarrow>
       st_list (stream_step a t TimerFlush)
         = one_by_one (sa_resource a) (st_list s) (st_buffer s @ received a s es))"
proof -
  have "stream_inv t"
    unfolding t_def s_def foldl_append [symmetric] by (rule reachable_stream_inv)
  then have waits: "\<not> st_closed t \<and> \<not> st_flush t \<Longrightarrow> st_buffer t = []" by (auto simp: stream_inv_def)
  obtain xs where xs: "st_buffer s @ received a s es = xs @ st_buffer t"
    "st_list t = apply_deltas (sa_resource a) (st_list s) xs"
    using batching_run [OF assms(3), of s a] by (auto simp: t_def)
  have "st_list (stream_step a t TimerFlush) = apply_deltas (sa_resource a) (st_list t) (st_buffer t)"
    if "\<not> st_closed t \<and> st_flush t"
    using that by (auto simp: flush_def Let_def)
  then have "st_list (stream_step a t TimerFlush)
      = apply_deltas (sa_resource a) (st_list s) (xs @ st_buffer t)" if "\<not> st_closed t \<and> st_flush t"
    using that xs(2) by (simp add: apply_deltas_append)
  then show ?thesis
    using xs waits unfolding xs(1) apply_deltas_one_by_one [symmetric] by auto
qed

lemma accepted_delta_msg [simp]:
  "accepted_row (delta_msg name) = Some (JObj [(''name'', JStr name)])"
  by (simp add: accepted_row_def delta_msg_def get_prop_def Let_def)

lemma batching_is_transparent_witness:
  "st_list (stream_step pods_stream
       (foldl (stream_step pods_stream) (initial_stream (JObj [(''pods'', JArr [])]))
          [SvDelta DAdded (delta_msg ''a''), TimerFlush, SvDelta DDeleted (delta_msg ''a'')]) TimerFlush) =
   one_by_one ''pods'' (JObj [(''pods'', JArr [])])
      [Delta DAdded (JObj [(''name'', JStr ''a'')]), Delta DDeleted (JObj [(''name'', JStr ''a'')])]"
  using batching_is_transparent [of
      "[SvDelta DAdded (delta_msg ''a''), TimerFlush, SvDelta DDeleted (delta_msg ''a'')]" pods_stream
      "JObj [(''pods'', JArr [])]" "[]"]
  by (simp add: replaces_list_def initial_stream_def pods_stream_def enqueue_delta_def flush_def Let_def
      one_by_one_def)

text \<open>
  Giving up. Errors less than a second after the last counted one are not counted; a snapshot,
  a flush of deltas and the return of a hidden tab start the count afresh.
\<close>

fun counted_errors :: "int \<Rightarrow> stream_event list \<Rightarrow> nat" where
  "counted_errors last_at [] = 0"
| "counted_errors last_at (e # es) =
     (case e of
        SvError now \<Rightarrow> if now - last_at < 1000 then counted_errors last_at es else Suc (counted_errors now es)
      | _ \<Rightarrow> counted_errors last_at es)"

definition keeps_count :: "stream_event \<Rightarrow> bool" where
  "keeps_count e = (case e of SvError _ \<Rightarrow> True | SvDelta _ _ \<Rightarrow> True | SvRelist \<Rightarrow> True | SvShutdown \<Rightarrow> True
     | SvBackpressure \<Rightarrow> True | TabHidden \<Rightarrow> True | ListFetched _ \<Rightarrow> True | _ \<Rightarrow> False)"

definition given_up :: "stream \<Rightarrow> bool" where
  "given_up s \<longleftrightarrow> st_closed s \<and> \<not> st_open s \<and> st_status s = PollingFallback"

lemma given_up_run:
  "given_up s \<Longrightarrow> \<forall>e \<in> set es. keeps_count e \<Longrightarrow> given_up (foldl (stream_step a) s es)"
proof (induction es arbitrary: s)
  case (Cons e es)
  then have "given_up (stream_step a s e)"
    by (cases e) (auto simp: given_up_def keeps_count_def)
  then show ?case using Cons by simp
qed simp

lemma gives_up_iff:
  assumes "st_open s" "\<not> st_closed s" "st_attempts s < 4" "\<forall>e \<in> set es. keeps_count e"
  shows "if 4 \<le> st_attempts s + counted_errors (st_last_error s) es
    then given_up (foldl (stream_step a) s es)
    else st_open (foldl (stream_step a) s es) \<and> \<not> st_closed (foldl (stream_step a) s es)"
  using assms
proof (induction es arbitrary: s)
  case (Cons e es)
  show ?case
  proof (cases "\<exists>now. e = SvError now \<and> 1000 \<le> now - st_last_error s")
    case True
    then obtain now where e: "e = SvError now" "1000 \<le> now - st_last_error s" by blast
    show ?thesis
    proof (cases "st_attempts s = 3")
      case True
      then have "given_up (stream_step a s e)"
        using e Cons.prems by (auto simp: given_up_def on_error_def max_reconnect_attempts_def Let_def)
      then show ?thesis using given_up_run e True Cons.prems(4) by simp
    next
      case False
      let ?t = "stream_step a s e"
      have "st_open ?t \<and> \<not> st_closed ?t \<and> st_attempts ?t = Suc (st_attempts s) \<and> st_last_error ?t = now"
        and "counted_errors (st_last_error s) (e # es) = Suc (counted_errors now es)"
        and "Suc (st_attempts s) < 4"
        using False e Cons.prems by (simp_all add: on_error_def max_reconnect_attempts_def Let_def)
      then show ?thesis using Cons.IH [of ?t] Cons.prems by simp
    qed
  next
    case False
    let ?t = "stream_step a s e"
    have "st_open ?t \<and> \<not> st_closed ?t \<and> st_attempts ?t = st_attempts s \<and> st_last_error ?t = st_last_error s"
      and "counted_errors (st_last_error s) (e # es) = counted_errors (st_last_error s) es"
      using False Cons.prems
      by (cases e; auto simp: keeps_count_def enqueue_delta_def on_disruption_def on_error_def Let_def
          split: option.splits)+
    then show ?thesis using Cons.IH [of ?t] Cons.prems by simp
  qed
qed simp

text \<open>
  C18: the hook gives up exactly after four counted errors and strands no delta. In every
  reachable state a closed stream has no event source, polling takes over only on a closed
  stream, and a non-empty buffer of a stream that is not closed has a flush scheduled. If the
  source is open and only errors, deltas not yet flushed, disruption notices and refetches
  follow, the stream falls back to polling exactly when the errors counted before and those
  counted now (at least a second after the last counted one) reach four, and is open otherwise.
\<close>

theorem stream_invariant:
  fixes v a es fs
  defines "s \<equiv> foldl (stream_step a) (initial_stream v) es"
  defines "t \<equiv> foldl (stream_step a) s fs"
  shows "(st_closed s \<longrightarrow> \<not> st_open s) \<and> (st_status s = PollingFallback \<longrightarrow> st_closed s) \<and>
    (st_buffer s \<noteq> [] \<and> \<not> st_closed s \<longrightarrow> st_flush s) \<and>
    (st_open s \<and> (\<forall>e \<in> set fs. keeps_count e) \<longrightarrow>
       (if 4 \<le> st_attempts s + counted_errors (st_last_error s) fs
        then st_closed t \<and> \<not> st_open t \<and> st_status t = PollingFallback
        else st_open t \<and> \<not> st_closed t))"
proof -
  have inv: "stream_inv s" unfolding s_def by (rule reachable_stream_inv)
  then have "st_open s \<Longrightarrow> st_attempts s < 4"
    by (auto simp: stream_inv_def max_reconnect_attempts_def le_less)
  moreover have "st_open s \<Longrightarrow> \<not> st_closed s" using inv by (auto simp: stream_inv_def)
  ultimately have "st_open s \<and> (\<forall>e \<in> set fs. keeps_count e) \<Longrightarrow>
      if 4 \<le> st_attempts s + counted_errors (st_last_error s) fs then given_up t
      else st_open t \<and> \<not> st_closed t"
    using gives_up_iff [of s fs a] by (simp add: t_def)
  then show ?thesis using inv unfolding stream_inv_def given_up_def by blast
qed

lemma stream_invariant_witness:
  "let s = foldl (stream_step pods_stream) (initial_stream JUndefined)
             [SvError 5000, SvError 7000, SvError 9000, SvError 9500, SvError 11000]
   in st_status s = PollingFallback \<and> st_closed s \<and> \<not> st_open s"
  using stream_invariant [of pods_stream JUndefined "[]"
      "[SvError 5000, SvError 7000, SvError 9000, SvError 9500, SvError 11000]"]
  by (simp add: initial_stream_def keeps_count_def Let_def)

text \<open>
  a stream that gave up, lost its session or was unmounted stays inert. From a reachable
  closed state no sequence of events writes the list (other than the page's own fetch), sends
  a command to the query client, changes the status or opens an event source.
\<close>

theorem closed_stream_is_inert:
  assumes "st_closed (foldl (stream_step a) (initial_stream v) es)"
    and "\<forall>e \<in> set fs. \<forall>x. e \<noteq> ListFetched x"
  shows "let s = foldl (stream_step a) (initial_stream v) es; t = foldl (stream_step a) s fs
     in st_list t = st_list s \<and> st_commands t = st_commands s \<and> st_status t = st_status s \<and>
        \<not> st_open t"
proof -
  let ?s = "foldl (stream_step a) (initial_stream v) es"
  have inv: "stream_inv ?s" by (rule stream_hook.inv_run [OF stream_inv_initial])
  have "st_list (foldl (stream_step a) s fs) = st_list s \<and>
      st_commands (foldl (stream_step a) s fs) = st_commands s \<and>
      st_status (foldl (stream_step a) s fs) = st_status s \<and> \<not> st_open (foldl (stream_step a) s fs)"
    if "st_closed s" "\<not> st_open s" for s
    using that assms(2)
  proof (induction fs arbitrary: s)
    case (Cons e fs)
    let ?t = "stream_step a s e"
    have "st_closed ?t \<and> \<not> st_open ?t \<and> st_list ?t = st_list s \<and> st_commands ?t = st_commands s
        \<and> st_status ?t = st_status s"
      using Cons.prems by (cases e) (auto simp: handler_defs)
    then show ?case using Cons.IH [of ?t] Cons.prems(3) by simp
  qed simp
  then show ?thesis using inv assms(1) by (auto simp: stream_inv_def Let_def)
qed

lemma closed_stream_is_inert_witness:
  "let s = foldl (stream_step pods_stream) (initial_stream (JObj [])) [SvAuthExpired];
       t = foldl (stream_step pods_stream) s [TabHidden, TabVisible, SvSnapshot (Some (JObj []))]
   in st_list t = JObj [] \<and> \<not> st_open t"
  using closed_stream_is_inert [of pods_stream "JObj []" "[SvAuthExpired]"
      "[TabHidden, TabVisible, SvSnapshot (Some (JObj []))]"]
  by (simp add: initial_stream_def on_auth_expired_def on_visible_def Let_def)

text \<open>
  a snapshot does not clear the buffer. A delta that arrived just before a relist
  snapshot is applied after it, so a row the snapshot no longer contains comes back.
\<close>

theorem snapshot_keeps_stale_deltas:
  "st_list (foldl (stream_step pods_stream) (initial_stream (JObj [(''pods'', JArr [])]))
     [SvDelta DAdded (delta_msg ''a''), SvRelist,
      SvSnapshot (Some (JObj [(''items'', JArr [])])), TimerFlush])
   = JObj [(''pods'', JArr [JObj [(''name'', JStr ''a'')]])]"
  by (simp add: initial_stream_def pods_stream_def delta_msg_def enqueue_delta_def accepted_row_def
      get_prop_def Let_def on_disruption_def on_snapshot_def wrap_snapshot_def list_items_key_def
      flush_def apply_deltas_def apply_delta_def add_row_to_list_def with_items_def put_row_def
      list_max_items_def)

section \<open>Related caches\<close>

lemma split_at_space:
  "CHR '' '' \<notin> set a \<Longrightarrow> CHR '' '' \<notin> set b \<Longrightarrow>
   a @ CHR '' '' # x = b @ CHR '' '' # y \<longleftrightarrow> a = b \<and> x = y"
proof (induction a arbitrary: b)
  case (Cons c a)
  then show ?case by (cases b) auto
next
  case Nil
  then show ?case by (cases b) auto
qed

definition panel_keys :: "string \<Rightarrow> string \<Rightarrow> jsval \<Rightarrow> query_key list" where
  "panel_keys cluster kind row =
     map (\<lambda>k. query_key (QCluster cluster (CKind kind (k (row_namespace row) (row_name row)))))
       [KDetail, KEvents, KMeta]"

lemma invalidate_direct_covers:
  assumes "\<forall>d \<in> set ds. CHR '' '' \<notin> set (row_namespace (delta_row d))"
    and "CHR '' '' \<notin> set resource" "resource \<noteq> ''events''" "d \<in> set ds" "CHR '' '' \<notin> set (row_namespace (delta_row d))"
    and "resource @ '' '' @ row_namespace (delta_row d) @ '' '' @ row_name (delta_row d) \<notin> set seen"
    and "k \<in> set (panel_keys cluster resource (delta_row d))"
  shows "InvalidateKey k \<in> set (invalidate_direct cluster resource seen ds)"
  using assms
proof (induction ds arbitrary: seen)
  case (Cons e ds)
  have target: "row_target resource r = Some resource" for r
    using Cons.prems(3) by (simp add: row_target_def)
  let ?tag = "\<lambda>d. resource @ '' '' @ row_namespace (delta_row d) @ '' '' @ row_name (delta_row d)"
  show ?case
  proof (cases "?tag e = ?tag d")
    case True
    then have same: "row_namespace (delta_row e) = row_namespace (delta_row d)"
        "row_name (delta_row e) = row_name (delta_row d)"
      using Cons.prems(1,5) by (auto simp: split_at_space)
    have "?tag e \<notin> set seen" using Cons.prems(6) True by simp
    then show ?thesis using Cons.prems(7) same target by (auto simp: Let_def panel_keys_def)
  next
    case False
    then have "d \<in> set ds" using Cons.prems(4) by auto
    then show ?thesis
      using Cons.IH [of seen] Cons.IH [of "?tag e # seen"] Cons.prems target False
      by (simp add: Let_def)
  qed
qed simp

lemma parent_sweep_exact:
  "parent_matches cluster parent ns None (query_key q) data \<longleftrightarrow>
     (\<exists>name. q = QCluster cluster (CKind parent (KDetail ns name)))"
proof (cases q)
  case (QCluster c k)
  show ?thesis
  proof (cases k)
    case (CKind kind kq)
    then show ?thesis using QCluster
      by (cases kq) (auto simp: parent_matches_def key_part_is_def nth_Cons')
  qed (use QCluster in \<open>auto simp: parent_matches_def key_part_is_def nth_Cons'\<close>)
qed (auto simp: parent_matches_def key_part_is_def nth_Cons')

text \<open>
  no open panel is left stale. For every delta of a batch (outside the events stream) the
  detail, events and meta queries of its row are invalidated, although rows met twice are
  skipped; and for every pod delta each kind that embeds pods is swept in its namespace (for a
  new pod that sweep reaches exactly the details of that kind in that namespace). Namespaces
  contain no space.
\<close>

theorem related_panels_invalidated:
  assumes "\<forall>d \<in> set ds. CHR '' '' \<notin> set (row_namespace (delta_row d))"
    and "CHR '' '' \<notin> set resource" "resource \<noteq> ''events''" "d \<in> set ds"
  shows "(\<forall>k \<in> set (panel_keys cluster resource (delta_row d)).
            InvalidateKey k \<in> set (invalidate_related cluster resource ds)) \<and>
     (resource = ''pods'' \<longrightarrow> (\<forall>parent \<in> set pod_aggregating_parents.
        InvalidateParents parent (row_namespace (delta_row d))
          (if delta_type d = DAdded then None else Some (row_name (delta_row d)))
        \<in> set (invalidate_related cluster resource ds))) \<and>
     (parent_matches cluster parent ns None (query_key q) data \<longleftrightarrow>
        (\<exists>name. q = QCluster cluster (CKind parent (KDetail ns name))))"
  using parent_sweep_exact [of cluster parent ns q data] invalidate_direct_covers [OF assms, of "[]"] assms(1,4)
  by (force simp: invalidate_related_def invalidate_parents_def)

lemma related_panels_invalidated_witness:
  "InvalidateParents ''jobs'' ''ns'' (Some ''p'') \<in> set (invalidate_related ''c'' ''pods''
     [Delta DModified (JObj [(''name'', JStr ''p''), (''namespace'', JStr ''ns'')])])"
  using related_panels_invalidated [of
      "[Delta DModified (JObj [(''name'', JStr ''p''), (''namespace'', JStr ''ns'')])]" "''pods''"
      "Delta DModified (JObj [(''name'', JStr ''p''), (''namespace'', JStr ''ns'')])" "''c''"]
  by (simp add: row_namespace_def row_name_def get_prop_def pod_aggregating_parents_def)

end
