(* ===== verification/ResourceQueries.thy ===== *)
theory ResourceQueries
  imports ApiClient StreamSafety
begin

text \<open>
  Model of the query hooks, \<open>web/src/hooks/useResource.ts\<close>, with the feature flags of
  \<open>lib/features.ts\<close> and the editor sources of \<open>lib/customResources.ts\<close>. A hook is the cache key it
  reads under, the request its fetcher sends (None when the fetcher throws), and when it fetches
  and polls. The request is the one the fetcher would send; it is sent only while the query is
  enabled. An absent name or namespace is the empty string in the key, as in the code.
\<close>

section \<open>List queries\<close>

definition list_refetch_interval :: "(string \<times> nat) list" where
  "list_refetch_interval =
     [(''pods'', 15000), (''events'', 15000), (''configmaps'', 60000), (''resourcequotas'', 60000),
      (''limitranges'', 60000), (''serviceaccounts'', 60000), (''secrets'', 60000),
      (''deployments'', 30000), (''statefulsets'', 30000), (''daemonsets'', 30000),
      (''replicasets'', 30000), (''jobs'', 30000), (''cronjobs'', 30000),
      (''horizontalpodautoscalers'', 30000), (''poddisruptionbudgets'', 30000), (''services'', 30000),
      (''ingresses'', 30000), (''networkpolicies'', 30000), (''endpointslices'', 15000),
      (''ingressclasses'', 60000), (''pvs'', 60000), (''pvcs'', 30000), (''storageclasses'', 60000),
      (''nodes'', 30000), (''namespaces'', 60000), (''priorityclasses'', 60000),
      (''runtimeclasses'', 60000), (''roles'', 60000), (''rolebindings'', 60000),
      (''clusterroles'', 60000), (''clusterrolebindings'', 60000)]"

definition watch_stream_kinds :: "string list" where
  "watch_stream_kinds =
     [''pods'', ''events'', ''configmaps'', ''resourcequotas'', ''limitranges'', ''serviceaccounts'',
      ''secrets'', ''deployments'', ''statefulsets'', ''daemonsets'', ''replicasets'', ''jobs'',
      ''cronjobs'', ''horizontalpodautoscalers'', ''poddisruptionbudgets'', ''services'',
      ''ingresses'', ''networkpolicies'', ''endpointslices'', ''ingressclasses'', ''pvs'', ''pvcs'',
      ''storageclasses'', ''nodes'', ''namespaces'', ''priorityclasses'', ''runtimeclasses'',
      ''roles'', ''rolebindings'', ''clusterroles'', ''clusterrolebindings'']"

definition is_watch_stream_kind :: "string \<Rightarrow> bool" where
  "is_watch_stream_kind k = (k \<in> set watch_stream_kinds)"

text \<open>The flags are None until their fetch resolves.\<close>

definition is_watch_stream_enabled :: "string list option \<Rightarrow> string \<Rightarrow> bool" where
  "is_watch_stream_enabled features kind =
     (case features of None \<Rightarrow> False | Some streams \<Rightarrow> kind \<in> set streams)"

definition str_or_empty :: "string option \<Rightarrow> string" where
  "str_or_empty v = (case v of None \<Rightarrow> [] | Some s \<Rightarrow> s)"

text \<open>The dispatch of the fetcher; None is the error for an unknown kind.\<close>

definition list_fetchers :: "(string \<times> (string \<Rightarrow> string option \<Rightarrow> http_request)) list" where
  "list_fetchers =
     [(''nodes'', list_request FnNodes), (''namespaces'', list_request FnNamespaces),
      (''pods'', list_request FnPods), (''deployments'', list_request FnDeployments),
      (''statefulsets'', list_request FnStatefulSets), (''daemonsets'', list_request FnDaemonSets),
      (''services'', list_request FnServices), (''ingresses'', list_request FnIngresses),
      (''configmaps'', list_request FnConfigMaps), (''secrets'', list_request FnSecrets),
      (''jobs'', list_request FnJobs), (''cronjobs'', list_request FnCronJobs),
      (''events'', list_request FnClusterEvents), (''pvcs'', list_request FnPVCs),
      (''pvs'', list_request FnPVs), (''storageclasses'', list_request FnStorageClasses),
      (''roles'', \<lambda>c ns. access_request (Roles c ns)),
      (''clusterroles'', \<lambda>c ns. access_request (ClusterRoles c)),
      (''rolebindings'', \<lambda>c ns. access_request (RoleBindings c ns)),
      (''clusterrolebindings'', \<lambda>c ns. access_request (ClusterRoleBindings c)),
      (''serviceaccounts'', \<lambda>c ns. access_request (ServiceAccounts c ns)),
      (''horizontalpodautoscalers'', \<lambda>c ns. extra_request (HorizontalPodAutoscalers c ns)),
      (''poddisruptionbudgets'', \<lambda>c ns. extra_request (PodDisruptionBudgets c ns)),
      (''replicasets'', \<lambda>c ns. extra_request (ReplicaSets c ns)),
      (''networkpolicies'', \<lambda>c ns. extra_request (NetworkPolicies c ns)),
      (''endpointslices'', \<lambda>c ns. extra_request (EndpointSlices c ns)),
      (''ingressclasses'', \<lambda>c ns. extra_request (IngressClasses c)),
      (''resourcequotas'', \<lambda>c ns. extra_request (ResourceQuotas c ns)),
      (''limitranges'', \<lambda>c ns. extra_request (LimitRanges c ns)),
      (''priorityclasses'', \<lambda>c ns. extra_request (PriorityClasses c)),
      (''runtimeclasses'', \<lambda>c ns. extra_request (RuntimeClasses c))]"

record query_spec =
  qs_query :: query
  qs_request :: "http_request option"
  qs_enabled :: bool
  qs_interval :: "nat option"

record resource_result =
  rr_query :: query_spec
  rr_stream_kind :: string
  rr_stream_enabled :: bool
  rr_status :: "stream_status option"

text \<open>\<open>status\<close> is what the stream hook returns for the kind and the gate it is called with.\<close>

definition use_resource ::
  "string list option \<Rightarrow> stream_status \<Rightarrow> string option \<Rightarrow> string \<Rightarrow> string option \<Rightarrow> resource_result" where
  "use_resource features status cluster resource ns =
     (let watch = is_watch_stream_kind resource;
          kind = (if watch then resource else ''pods'');
          enabled = is_watch_stream_enabled features kind;
          streaming = (watch \<and> enabled \<and> status \<noteq> PollingFallback)
      in \<lparr>rr_query =
            \<lparr>qs_query = QCluster (str_or_empty cluster) (CKind resource (KList (str_or_empty ns))),
             qs_request = map_option (\<lambda>f. f (str_or_empty cluster) ns) (map_of list_fetchers resource),
             qs_enabled = (str_or_empty cluster \<noteq> [] \<and> \<not> streaming),
             qs_interval = (if streaming then None else map_of list_refetch_interval resource)\<rparr>,
          rr_stream_kind = kind,
          rr_stream_enabled = (watch \<and> enabled),
          rr_status = (if watch \<and> enabled then Some status else None)\<rparr>)"

definition use_cluster_events ::
  "string list option \<Rightarrow> stream_status \<Rightarrow> string \<Rightarrow> string option \<Rightarrow> resource_result" where
  "use_cluster_events features status cluster ns = use_resource features status (Some cluster) ''events'' ns"

section \<open>Detail queries\<close>

definition detail_spec :: "string \<Rightarrow> string \<Rightarrow> string \<Rightarrow> string option \<Rightarrow> http_request \<Rightarrow> query_spec" where
  "detail_spec c kind ns name req =
     \<lparr>qs_query = QCluster c (CKind kind (KDetail ns (str_or_empty name))), qs_request = Some req,
      qs_enabled = (str_or_empty name \<noteq> []), qs_interval = None\<rparr>"

datatype workload_hook =
    UsePodDetail | UseDeploymentDetail | UseStatefulSetDetail | UseDaemonSetDetail | UseServiceDetail
  | UseIngressDetail | UseConfigMapDetail | UseSecretDetail | UseJobDetail | UseCronJobDetail

fun workload_detail :: "workload_hook \<Rightarrow> string \<Rightarrow> string \<Rightarrow> string option \<Rightarrow> query_spec" where
  "workload_detail UsePodDetail c ns n =
     detail_spec c ''pods'' ns n (detail_request (GetPod c ns (str_or_empty n)))"
| "workload_detail UseDeploymentDetail c ns n =
     detail_spec c ''deployments'' ns n (detail_request (GetDeployment c ns (str_or_empty n)))"
| "workload_detail UseStatefulSetDetail c ns n =
     detail_spec c ''statefulsets'' ns n (detail_request (GetStatefulSet c ns (str_or_empty n)))"
| "workload_detail UseDaemonSetDetail c ns n =
     detail_spec c ''daemonsets'' ns n (detail_request (GetDaemonSet c ns (str_or_empty n)))"
| "workload_detail UseServiceDetail c ns n =
     detail_spec c ''services'' ns n (detail_request (GetService c ns (str_or_empty n)))"
| "workload_detail UseIngressDetail c ns n =
     detail_spec c ''ingresses'' ns n (detail_request (GetIngress c ns (str_or_empty n)))"
| "workload_detail UseConfigMapDetail c ns n =
     detail_spec c ''configmaps'' ns n (detail_request (GetConfigMap c ns (str_or_empty n)))"
| "workload_detail UseSecretDetail c ns n =
     detail_spec c ''secrets'' ns n (detail_request (GetSecret c ns (str_or_empty n)))"
| "workload_detail UseJobDetail c ns n =
     detail_spec c ''jobs'' ns n (detail_request (GetJob c ns (str_or_empty n)))"
| "workload_detail UseCronJobDetail c ns n =
     detail_spec c ''cronjobs'' ns n (detail_request (GetCronJob c ns (str_or_empty n)))"

text \<open>
  The hooks that also open the auxiliary stream of pods, which is gated on the panel being open,
  the flag of the pod stream and a namespace.
\<close>

fun watches_child_pods :: "workload_hook \<Rightarrow> bool" where
  "watches_child_pods UseDeploymentDetail = True"
| "watches_child_pods UseStatefulSetDetail = True"
| "watches_child_pods UseDaemonSetDetail = True"
| "watches_child_pods UseServiceDetail = True"
| "watches_child_pods UseJobDetail = True"
| "watches_child_pods UseCronJobDetail = True"
| "watches_child_pods _ = False"

definition child_pod_watch :: "string list option \<Rightarrow> string \<Rightarrow> bool \<Rightarrow> bool" where
  "child_pod_watch features ns opened =
     (opened \<and> is_watch_stream_enabled features ''pods'' \<and> ns \<noteq> [])"

datatype storage_hook =
    UsePVCDetail | UsePVDetail | UseStorageClassDetail | UseNamespaceDetail | UseNodeDetail

fun storage_detail :: "storage_hook \<Rightarrow> string \<Rightarrow> string \<Rightarrow> string option \<Rightarrow> query_spec" where
  "storage_detail UsePVCDetail c ns n =
     detail_spec c ''pvcs'' ns n (detail_request (GetPVC c ns (str_or_empty n)))"
| "storage_detail UsePVDetail c ns n =
     detail_spec c ''pvs'' [] n (detail_request (GetPV c (str_or_empty n)))"
| "storage_detail UseStorageClassDetail c ns n =
     detail_spec c ''storageclasses'' [] n (detail_request (GetStorageClass c (str_or_empty n)))"
| "storage_detail UseNamespaceDetail c ns n =
     detail_spec c ''namespaces'' [] n (detail_request (GetNamespace c (str_or_empty n)))"
| "storage_detail UseNodeDetail c ns n =
     detail_spec c ''nodes'' [] n (detail_request (GetNode c (str_or_empty n)))"

datatype rbac_hook =
    UseRoleDetail | UseClusterRoleDetail | UseRoleBindingDetail | UseClusterRoleBindingDetail
  | UseServiceAccountDetail

fun rbac_detail :: "rbac_hook \<Rightarrow> string \<Rightarrow> string \<Rightarrow> string option \<Rightarrow> query_spec" where
  "rbac_detail UseRoleDetail c ns n =
     detail_spec c ''roles'' ns n (access_request (GetRoles c ns (str_or_empty n)))"
| "rbac_detail UseClusterRoleDetail c ns n =
     detail_spec c ''clusterroles'' [] n (access_request (GetClusterRole c (str_or_empty n)))"
| "rbac_detail UseRoleBindingDetail c ns n =
     detail_spec c ''rolebindings'' ns n (access_request (GetRoleBinding c ns (str_or_empty n)))"
| "rbac_detail UseClusterRoleBindingDetail c ns n =
     detail_spec c ''clusterrolebindings'' [] n (access_request (GetClusterRoleBinding c (str_or_empty n)))"
| "rbac_detail UseServiceAccountDetail c ns n =
     detail_spec c ''serviceaccounts'' ns n (access_request (GetServiceAccount c ns (str_or_empty n)))"

datatype extra_hook =
    UseHPADetail | UsePDBDetail | UseReplicaSetDetail | UseNetworkPolicyDetail | UseEndpointSliceDetail
  | UseIngressClassDetail | UseResourceQuotaDetail | UseLimitRangeDetail | UsePriorityClassDetail
  | UseRuntimeClassDetail

fun extra_detail :: "extra_hook \<Rightarrow> string \<Rightarrow> string \<Rightarrow> string option \<Rightarrow> query_spec" where
  "extra_detail UseHPADetail c ns n =
     detail_spec c ''horizontalpodautoscalers'' ns n (extra_request (GetHPA c ns (str_or_empty n)))"
| "extra_detail UsePDBDetail c ns n =
     detail_spec c ''poddisruptionbudgets'' ns n (extra_request (GetPDB c ns (str_or_empty n)))"
| "extra_detail UseReplicaSetDetail c ns n =
     detail_spec c ''replicasets'' ns n (extra_request (GetReplicaSet c ns (str_or_empty n)))"
| "extra_detail UseNetworkPolicyDetail c ns n =
     detail_spec c ''networkpolicies'' ns n (extra_request (GetNetworkPolicy c ns (str_or_empty n)))"
| "extra_detail UseEndpointSliceDetail c ns n =
     detail_spec c ''endpointslices'' ns n (extra_request (GetEndpointSlice c ns (str_or_empty n)))"
| "extra_detail UseIngressClassDetail c ns n =
     detail_spec c ''ingressclasses'' [] n (extra_request (GetIngressClass c (str_or_empty n)))"
| "extra_detail UseResourceQuotaDetail c ns n =
     detail_spec c ''resourcequotas'' ns n (extra_request (GetResourceQuota c ns (str_or_empty n)))"
| "extra_detail UseLimitRangeDetail c ns n =
     detail_spec c ''limitranges'' ns n (extra_request (GetLimitRange c ns (str_or_empty n)))"
| "extra_detail UsePriorityClassDetail c ns n =
     detail_spec c ''priorityclasses'' [] n (extra_request (GetPriorityClass c (str_or_empty n)))"
| "extra_detail UseRuntimeClassDetail c ns n =
     detail_spec c ''runtimeclasses'' [] n (extra_request (GetRuntimeClass c (str_or_empty n)))"

definition extra_watches_child_pods :: "extra_hook \<Rightarrow> bool" where
  "extra_watches_child_pods h \<longleftrightarrow> h = UseReplicaSetDetail"

fun detail_kind :: "query \<Rightarrow> string" where
  "detail_kind (QCluster c (CKind k (KDetail ns n))) = k"
| "detail_kind _ = []"

lemma child_watchers:
  "{h. watches_child_pods h} = {UseDeploymentDetail, UseStatefulSetDetail, UseDaemonSetDetail,
     UseServiceDetail, UseJobDetail, UseCronJobDetail}"
proof -
  have "watches_child_pods h \<longleftrightarrow> h \<in> {UseDeploymentDetail, UseStatefulSetDetail, UseDaemonSetDetail,
     UseServiceDetail, UseJobDetail, UseCronJobDetail}" for h by (cases h) auto
  then show ?thesis by auto
qed

text \<open>The kinds whose detail hook watches pods are exactly the kinds that the pod stream refreshes.\<close>

lemma child_watch_parents:
  "set pod_aggregating_parents =
     (\<lambda>h. detail_kind (qs_query (workload_detail h c ns n))) ` {h. watches_child_pods h} \<union>
     (\<lambda>h. detail_kind (qs_query (extra_detail h c ns n))) ` {h. extra_watches_child_pods h}"
  unfolding child_watchers
  by (auto simp: extra_watches_child_pods_def detail_spec_def pod_aggregating_parents_def)

section \<open>Metrics, schema, summary, events and custom resources\<close>

definition node_metrics :: "string \<Rightarrow> string option \<Rightarrow> query_spec" where
  "node_metrics c n =
     \<lparr>qs_query = QCluster c (CKind ''nodes'' (KMetrics [] (str_or_empty n))),
      qs_request = Some (detail_request (GetNodeMetrics c (str_or_empty n))),
      qs_enabled = (str_or_empty n \<noteq> []), qs_interval = Some 30000\<rparr>"

definition pod_metrics :: "string \<Rightarrow> string \<Rightarrow> string option \<Rightarrow> query_spec" where
  "pod_metrics c ns n =
     \<lparr>qs_query = QCluster c (CKind ''pods'' (KMetrics ns (str_or_empty n))),
      qs_request = Some (detail_request (GetPodMetrics c ns (str_or_empty n))),
      qs_enabled = (str_or_empty n \<noteq> []), qs_interval = Some 30000\<rparr>"

text \<open>The reference is that of the hook; its cluster field is the hook's first argument.\<close>

definition meta_query :: "resource_ref \<Rightarrow> query" where
  "meta_query r =
     QCluster (rf_cluster r) (CKind (rf_resource r) (KMeta (str_or_empty (rf_namespace r)) (rf_name r)))"

definition resource_meta :: "resource_ref \<Rightarrow> bool \<Rightarrow> query_spec" where
  "resource_meta r enabled =
     \<lparr>qs_query = meta_query r, qs_request = Some (write_request (GetMeta r)),
      qs_enabled = (enabled \<and> rf_name r \<noteq> []), qs_interval = (if enabled then Some 15000 else None)\<rparr>"

definition open_api_schema :: "string \<Rightarrow> string \<Rightarrow> string \<Rightarrow> bool \<Rightarrow> query_spec" where
  "open_api_schema c grp version enabled =
     \<lparr>qs_query = QCluster c (COpenapi grp version),
      qs_request = Some (write_request (GetOpenApiSchema c grp version)),
      qs_enabled = (enabled \<and> c \<noteq> [] \<and> version \<noteq> []), qs_interval = None\<rparr>"

definition cluster_summary :: "string \<Rightarrow> query_spec" where
  "cluster_summary c =
     \<lparr>qs_query = QCluster c CSummary, qs_request = Some (core_request (ClusterSummary c)),
      qs_enabled = True, qs_interval = Some 30000\<rparr>"

definition use_object_events :: "string \<Rightarrow> string \<Rightarrow> string \<Rightarrow> string option \<Rightarrow> bool \<Rightarrow> query_spec" where
  "use_object_events c kind ns n enabled =
     \<lparr>qs_query = QCluster c (CKind kind (KEvents ns (str_or_empty n))),
      qs_request = Some (object_request (object_events c kind ns (str_or_empty n))),
      qs_enabled = (enabled \<and> str_or_empty n \<noteq> []), qs_interval = None\<rparr>"

definition use_crds :: "string \<Rightarrow> bool \<Rightarrow> query_spec" where
  "use_crds c enabled =
     \<lparr>qs_query = QCluster c CCrds, qs_request = Some (core_request (Crds c)),
      qs_enabled = (enabled \<and> 0 < length c), qs_interval = None\<rparr>"

definition use_custom_resources ::
  "string \<Rightarrow> string \<Rightarrow> string \<Rightarrow> string \<Rightarrow> string option \<Rightarrow> query_spec" where
  "use_custom_resources c grp version pl ns =
     \<lparr>qs_query = QCluster c (CCr grp version pl (CrList (str_or_empty ns))),
      qs_request = Some (core_request (CustomResources c grp version pl ns)),
      qs_enabled = (grp \<noteq> [] \<and> version \<noteq> [] \<and> pl \<noteq> []), qs_interval = None\<rparr>"

definition use_custom_resource_detail ::
  "string \<Rightarrow> string \<Rightarrow> string \<Rightarrow> string \<Rightarrow> string option \<Rightarrow> string option \<Rightarrow> query_spec" where
  "use_custom_resource_detail c grp version pl ns n =
     \<lparr>qs_query = QCluster c (CCr grp version pl (CrDetail (str_or_empty ns) (str_or_empty n))),
      qs_request = Some (core_request (GetCustomResource c grp version pl ns (str_or_empty n))),
      qs_enabled = (str_or_empty n \<noteq> [] \<and> grp \<noteq> [] \<and> version \<noteq> [] \<and> pl \<noteq> []), qs_interval = None\<rparr>"

section \<open>Editor sources\<close>

record custom_ref =
  cu_group :: string
  cu_version :: string
  cu_resource :: string
  cu_kind :: string
  cu_cluster_scope :: bool
  cu_short_names :: "string list option"

datatype editor_source = Builtin string | Custom custom_ref

record crd =
  cd_group :: string
  cd_kind :: string
  cd_plural :: string
  cd_short_names :: "string list option"
  cd_cluster_scope :: bool
  cd_versions :: "string list"
  cd_served :: string
  cd_storage :: string

text \<open>\<open>version || crd.storageVersion || crd.servedVersion || crd.versions[0]?.name\<close>.\<close>

definition crd_version :: "crd \<Rightarrow> string option \<Rightarrow> string option" where
  "crd_version d version =
     (if str_or_empty version \<noteq> [] then version
      else if cd_storage d \<noteq> [] then Some (cd_storage d)
      else if cd_served d \<noteq> [] then Some (cd_served d)
      else case cd_versions d of v # _ \<Rightarrow> Some v | [] \<Rightarrow> None)"

definition ref_from_crd :: "crd \<Rightarrow> string option \<Rightarrow> custom_ref" where
  "ref_from_crd d version =
     \<lparr>cu_group = cd_group d,
      cu_version = (case crd_version d version of None \<Rightarrow> ''v1'' | Some v \<Rightarrow> v),
      cu_resource = cd_plural d, cu_kind = cd_kind d, cu_cluster_scope = cd_cluster_scope d,
      cu_short_names = cd_short_names d\<rparr>"

fun source_cache_key :: "editor_source \<Rightarrow> string" where
  "source_cache_key (Builtin k) = ''builtin:'' @ k"
| "source_cache_key (Custom r) = ''cr:'' @ cu_group r @ ''/'' @ cu_version r @ ''/'' @ cu_resource r"

fun dirty_channel_key :: "editor_source \<Rightarrow> string" where
  "dirty_channel_key (Builtin k) = k"
| "dirty_channel_key (Custom r) = source_cache_key (Custom r)"

fun source_label :: "editor_source \<Rightarrow> string" where
  "source_label (Builtin k) = k"
| "source_label (Custom r) = cu_kind r"

fun is_cluster_scoped_source :: "editor_source \<Rightarrow> bool" where
  "is_cluster_scoped_source (Builtin k) = (k \<in> set cluster_scoped_kinds)"
| "is_cluster_scoped_source (Custom r) = cu_cluster_scope r"

text \<open>A built-in kind is a key of the registry.\<close>

fun gvrk_from_source :: "editor_source \<Rightarrow> kind_meta" where
  "gvrk_from_source (Builtin k) = the (map_of kind_registry k)"
| "gvrk_from_source (Custom r) =
     \<lparr>km_group = cu_group r, km_version = cu_version r, km_resource = cu_resource r, km_kind = cu_kind r\<rparr>"

text \<open>The reference and its kind; \<open>namespace || undefined\<close>.\<close>

definition source_to_ref :: "editor_source \<Rightarrow> string \<Rightarrow> string option \<Rightarrow> string \<Rightarrow> resource_ref \<times> string" where
  "source_to_ref s c ns name =
     (let m = gvrk_from_source s
      in (\<lparr>rf_cluster = c, rf_group = km_group m, rf_version = km_version m, rf_resource = km_resource m,
           rf_namespace = (if str_or_empty ns \<noteq> [] then ns else None), rf_name = name\<rparr>,
          km_kind m))"

fun editor_yaml_query :: "editor_source \<Rightarrow> string \<Rightarrow> string \<Rightarrow> string \<Rightarrow> query" where
  "editor_yaml_query (Builtin k) c ns name = QCluster c (CKind k (KYaml ns name))"
| "editor_yaml_query (Custom r) c ns name =
     QCluster c (CCr (cu_group r) (cu_version r) (cu_resource r) (CrYaml ns name))"

fun drift_yaml_query :: "editor_source \<Rightarrow> string \<Rightarrow> string \<Rightarrow> string \<Rightarrow> query" where
  "drift_yaml_query (Builtin k) c ns name = QCluster c (CKind k (KYamlDrift ns name))"
| "drift_yaml_query (Custom r) c ns name =
     QCluster c (CCr (cu_group r) (cu_version r) (cu_resource r) (CrYamlDrift ns name))"

fun yaml_fetch :: "editor_source \<Rightarrow> string \<Rightarrow> string \<Rightarrow> string \<Rightarrow> http_request" where
  "yaml_fetch (Custom r) c ns name =
     core_request (GetCustomResourceYaml c (cu_group r) (cu_version r) (cu_resource r)
       (if 0 < length ns then Some ns else None) name)"
| "yaml_fetch (Builtin k) c ns name =
     (if is_cluster_scoped_kind k then object_request (ClusterScopedYaml c k name)
      else object_request (Yaml c k ns name))"

definition use_editor_yaml :: "editor_source \<Rightarrow> string \<Rightarrow> string \<Rightarrow> string option \<Rightarrow> bool \<Rightarrow> query_spec" where
  "use_editor_yaml s c ns n enabled =
     \<lparr>qs_query = editor_yaml_query s c ns (str_or_empty n),
      qs_request = Some (yaml_fetch s c ns (str_or_empty n)),
      qs_enabled = (enabled \<and> str_or_empty n \<noteq> []), qs_interval = None\<rparr>"

text \<open>The prefixes that a client invalidates.\<close>

definition invalidate_editor_yaml :: "editor_source \<Rightarrow> string \<Rightarrow> string \<Rightarrow> string \<Rightarrow> query list" where
  "invalidate_editor_yaml s c ns name = [editor_yaml_query s c ns name]"

definition invalidate_after_apply :: "editor_source \<Rightarrow> resource_ref \<Rightarrow> query list" where
  "invalidate_after_apply s r =
     (let own = (case s of
                   Builtin k \<Rightarrow> QCluster (rf_cluster r) (CKind k KAll)
                 | Custom x \<Rightarrow> QCluster (rf_cluster r) (CCr (cu_group x) (cu_version x) (cu_resource x) CrAll))
      in if (case s of Custom _ \<Rightarrow> True | Builtin k \<Rightarrow> k \<noteq> rf_resource r)
         then [own, QCluster (rf_cluster r) (CKind (rf_resource r) KAll)] else [own])"

definition swept :: "query list \<Rightarrow> query \<Rightarrow> bool" where
  "swept ps q \<longleftrightarrow> list_ex (\<lambda>p. prefix (query_key p) (query_key q)) ps"

section \<open>A list is fed by its stream or polled\<close>

definition polls_within :: "string \<Rightarrow> bool" where
  "polls_within k =
     (case map_of list_refetch_interval k of Some n \<Rightarrow> 15000 \<le> n \<and> n \<le> 60000 | None \<Rightarrow> False)"

lemma interval_kinds: "map fst list_refetch_interval = watch_stream_kinds"
  by (simp add: watch_stream_kinds_def list_refetch_interval_def)

lemma every_watch_kind_polls: "k \<in> set watch_stream_kinds \<Longrightarrow> polls_within k"
proof -
  assume "k \<in> set watch_stream_kinds"
  then obtain n where n: "map_of list_refetch_interval k = Some n"
    by (metis interval_kinds map_of_eq_None_iff not_None_eq set_map)
  have "list_all (\<lambda>(k, n). 15000 \<le> n \<and> n \<le> 60000) list_refetch_interval"
    by (simp add: list_refetch_interval_def)
  then show ?thesis using map_of_SomeD [OF n] by (auto simp: polls_within_def n list_all_iff)
qed

text \<open>The tab is hidden when the last change of its visibility hid it.\<close>

definition tab_hidden :: "stream_event list \<Rightarrow> bool" where
  "tab_hidden es = foldl (\<lambda>h e. case e of TabHidden \<Rightarrow> True | TabVisible \<Rightarrow> False | _ \<Rightarrow> h) False es"

lemma tab_hidden_snoc:
  "tab_hidden (es @ [e]) = (case e of TabHidden \<Rightarrow> True | TabVisible \<Rightarrow> False | _ \<Rightarrow> tab_hidden es)"
  by (cases e) (simp_all add: tab_hidden_def)

definition attended_inv :: "bool \<Rightarrow> stream \<Rightarrow> bool" where
  "attended_inv h s \<longleftrightarrow>
     (\<not> st_closed s \<and> \<not> st_open s \<longrightarrow> h) \<and> (st_vis s \<longrightarrow> h) \<and> (st_closed s \<longrightarrow> \<not> st_open s) \<and>
     (st_closed s \<longrightarrow> st_status s = PollingFallback \<or> SignIn \<in> set (st_commands s))"

lemma attended_step:
  assumes "attended_inv h s" "e \<noteq> Unmount" "sa_status a \<noteq> PollingFallback"
  shows "attended_inv (case e of TabHidden \<Rightarrow> True | TabVisible \<Rightarrow> False | _ \<Rightarrow> h) (stream_step a s e)"
  using assms by (cases e) (auto simp: attended_inv_def handler_defs split: option.splits)

lemma attended_run:
  assumes "Unmount \<notin> set es" "sa_status a \<noteq> PollingFallback"
  shows "attended_inv (tab_hidden es) (foldl (stream_step a) (initial_stream v) es)"
  using assms(1)
proof (induction es rule: rev_induct)
  case (snoc e es)
  then show ?case
    using attended_step [OF _ _ assms(2), of "tab_hidden es" _ e] by (auto simp: tab_hidden_snoc)
qed (simp add: attended_inv_def tab_hidden_def initial_stream_def)

text \<open>
  C19: a mounted list page of a watched kind is either polled or streamed. It is fetched and
  polled every 15 to 60 seconds, with the kind's own interval, exactly when the server does not
  stream the kind or the stream has given up. Otherwise it is not polled and its event source is
  open, but for two cases: the tab is hidden, or the session expired and the sign-in was called.
  The effect was not started by a render that was itself in polling fallback.
\<close>

theorem list_is_never_unattended:
  assumes "kind \<in> set watch_stream_kinds" "c \<noteq> []" "Unmount \<notin> set es" "sa_status a \<noteq> PollingFallback"
  shows "let s = foldl (stream_step a) (initial_stream v) es;
             q = rr_query (use_resource features (st_status s) (Some c) kind ns)
         in if is_watch_stream_enabled features kind \<and> st_status s \<noteq> PollingFallback
            then \<not> qs_enabled q \<and> qs_interval q = None \<and>
                 (st_open s \<and> \<not> st_closed s \<or> tab_hidden es \<or> SignIn \<in> set (st_commands s))
            else qs_enabled q \<and> (\<exists>n. qs_interval q = Some n \<and> 15000 \<le> n \<and> n \<le> 60000)"
proof -
  have "polls_within kind" by (rule every_watch_kind_polls [OF assms(1)])
  then show ?thesis
    using assms(1,2) attended_run [OF assms(3,4), of v]
    by (auto simp: use_resource_def Let_def is_watch_stream_kind_def str_or_empty_def polls_within_def
          attended_inv_def split: option.splits)
qed

lemma list_is_never_unattended_witness:
  "let es = [TabHidden, TimerHide, TabVisible, SvError 5000];
       s = foldl (stream_step pods_stream) (initial_stream JUndefined) es;
       q = rr_query (use_resource (Some [''pods'']) (st_status s) (Some ''prod'') ''pods'' None)
   in \<not> qs_enabled q \<and> st_open s"
  using list_is_never_unattended [of "''pods''" "''prod''"
      "[TabHidden, TimerHide, TabVisible, SvError 5000]" pods_stream JUndefined "Some [''pods'']" None]
  by (simp add: watch_stream_kinds_def initial_stream_def on_error_def on_visible_def Let_def
      max_reconnect_attempts_def pods_stream_def tab_hidden_def is_watch_stream_enabled_def)

text \<open>
  The stream's effect keeps the status of the render that started it. Started while the page was
  in polling fallback (another namespace was picked then), it does not reopen its source when a
  hidden tab returns: the list is then neither streamed nor polled.
\<close>

theorem resumed_tab_is_unattended:
  "let a = pods_stream\<lparr>sa_status := PollingFallback\<rparr>;
       s = foldl (stream_step a) (initial_stream JUndefined) [TabHidden, TimerHide, TabVisible];
       q = rr_query (use_resource (Some [''pods'']) (st_status s) (Some ''prod'') ''pods'' None)
   in \<not> st_open s \<and> \<not> st_closed s \<and> \<not> qs_enabled q \<and> qs_interval q = None"
  by (simp add: initial_stream_def on_visible_def pods_stream_def use_resource_def
      is_watch_stream_kind_def watch_stream_kinds_def is_watch_stream_enabled_def Let_def)

section \<open>Equal keys, equal requests\<close>

text \<open>What a key asks for, read off the key alone.\<close>

definition object_url :: "string \<Rightarrow> string \<Rightarrow> string \<Rightarrow> string \<Rightarrow> string list \<Rightarrow> string" where
  "object_url c k ns name rest =
     (if k \<in> set cluster_scoped_kinds then cluster_scoped_url c k name rest else ns_url c k ns name rest)"

definition list_of_kind :: "string \<Rightarrow> string \<Rightarrow> string \<Rightarrow> http_request option" where
  "list_of_kind c k ns =
     (if k \<in> set watch_stream_kinds
      then Some (get_json (cluster_url c [k] @
             (if k \<in> set cluster_scoped_kinds then [] else namespace_query (Some ns))))
      else None)"

fun key_request :: "query \<Rightarrow> http_request option" where
  "key_request (QCluster c (CKind k (KList ns))) = list_of_kind c k ns"
| "key_request (QCluster c (CKind k (KDetail ns name))) = Some (get_json (object_url c k ns name []))"
| "key_request (QCluster c (CKind k (KMetrics ns name))) =
     Some (get_json (object_url c k ns name [''metrics'']))"
| "key_request (QCluster c (CKind k (KEvents ns name))) =
     Some (get_json (object_url c k ns name [''events'']))"
| "key_request (QCluster c (CKind k (KYaml ns name))) =
     Some (get_text (object_url c k ns name [''yaml'']))"
| "key_request (QCluster c (CCr g v p (CrList ns))) =
     Some (get_json (cluster_url c [''customresources'', enc g, enc v, enc p] @ namespace_query (Some ns)))"
| "key_request (QCluster c (CCr g v p (CrDetail ns name))) =
     Some (get_json (cluster_url c
       [''customresources'', enc g, enc v, enc p, enc (cr_namespace (Some ns)), enc name]))"
| "key_request (QCluster c (CCr g v p (CrYaml ns name))) =
     Some (get_text (cluster_url c
       [''customresources'', enc g, enc v, enc p, enc (cr_namespace (Some ns)), enc name, ''yaml'']))"
| "key_request (QCluster c (COpenapi g v)) = Some (get_json (open_api_url c g v))"
| "key_request (QCluster c CSummary) = Some (get_json (cluster_url c [''dashboard'']))"
| "key_request (QCluster c CCrds) = Some (get_json (cluster_url c [''crds'']))"
| "key_request _ = None"

lemma namespace_query_str: "namespace_query (Some (str_or_empty ns)) = namespace_query ns"
  by (simp add: namespace_query_def str_or_empty_def split: option.splits)

lemma cr_namespace_str: "cr_namespace (Some (str_or_empty ns)) = cr_namespace ns"
  by (simp add: cr_namespace_def str_or_empty_def split: option.splits)

lemma fetchers_watched: "list_all (\<lambda>k. k \<in> set watch_stream_kinds) (map fst list_fetchers)"
  by (simp add: list_fetchers_def watch_stream_kinds_def)

lemma watched_fetchers: "list_all (\<lambda>k. k \<in> set (map fst list_fetchers)) watch_stream_kinds"
  by (simp add: list_fetchers_def watch_stream_kinds_def)

lemma fetcher_sends:
  "list_all (\<lambda>(k, f). f c ns = get_json (cluster_url c [k] @
       (if k \<in> set cluster_scoped_kinds then [] else namespace_query ns))) list_fetchers"
  by (simp add: list_fetchers_def cluster_scoped_kinds_def)

lemma list_fetch_of_key:
  "map_option (\<lambda>f. f c ns) (map_of list_fetchers k) = list_of_kind c k (str_or_empty ns)"
proof (cases "map_of list_fetchers k")
  case None
  then have "k \<notin> set watch_stream_kinds"
    using watched_fetchers by (auto simp: map_of_eq_None_iff list_all_iff)
  then show ?thesis using None by (simp add: list_of_kind_def)
next
  case (Some f)
  have mem: "(k, f) \<in> set list_fetchers" by (rule map_of_SomeD [OF Some])
  then have "k \<in> set watch_stream_kinds" using fetchers_watched by (auto simp: list_all_iff)
  then show ?thesis
    using Some mem fetcher_sends [of c ns] by (auto simp: list_of_kind_def list_all_iff namespace_query_str)
qed

lemma workload_key_request: "qs_request (workload_detail h c ns n) = key_request (qs_query (workload_detail h c ns n))"
  by (cases h) (simp_all add: detail_spec_def object_url_def cluster_scoped_kinds_def)

lemma storage_key_request: "qs_request (storage_detail h c ns n) = key_request (qs_query (storage_detail h c ns n))"
  by (cases h) (simp_all add: detail_spec_def object_url_def cluster_scoped_kinds_def)

lemma rbac_key_request: "qs_request (rbac_detail h c ns n) = key_request (qs_query (rbac_detail h c ns n))"
  by (cases h) (simp_all add: detail_spec_def object_url_def cluster_scoped_kinds_def)

lemma extra_key_request: "qs_request (extra_detail h c ns n) = key_request (qs_query (extra_detail h c ns n))"
  by (cases h) (simp_all add: detail_spec_def object_url_def cluster_scoped_kinds_def)

lemma yaml_key_request: "Some (yaml_fetch s c ns name) = key_request (editor_yaml_query s c ns name)"
  by (cases s) (simp_all add: object_url_def is_cluster_scoped_kind_def cr_namespace_def)

text \<open>All query hooks of the file.\<close>

datatype query_hook =
    HkList "string list option" stream_status "string option" string "string option"
  | HkWorkload workload_hook string string "string option"
  | HkStorage storage_hook string string "string option"
  | HkRbac rbac_hook string string "string option"
  | HkExtra extra_hook string string "string option"
  | HkNodeMetrics string "string option"
  | HkPodMetrics string string "string option"
  | HkOpenApi string string string bool
  | HkSummary string
  | HkEvents string string string "string option" bool
  | HkCrds string bool
  | HkCustomList string string string string "string option"
  | HkCustomDetail string string string string "string option" "string option"
  | HkYaml editor_source string string "string option" bool
  | HkMeta resource_ref bool

fun hook_spec :: "query_hook \<Rightarrow> query_spec" where
  "hook_spec (HkList f st c k ns) = rr_query (use_resource f st c k ns)"
| "hook_spec (HkWorkload h c ns n) = workload_detail h c ns n"
| "hook_spec (HkStorage h c ns n) = storage_detail h c ns n"
| "hook_spec (HkRbac h c ns n) = rbac_detail h c ns n"
| "hook_spec (HkExtra h c ns n) = extra_detail h c ns n"
| "hook_spec (HkNodeMetrics c n) = node_metrics c n"
| "hook_spec (HkPodMetrics c ns n) = pod_metrics c ns n"
| "hook_spec (HkOpenApi c g v b) = open_api_schema c g v b"
| "hook_spec (HkSummary c) = cluster_summary c"
| "hook_spec (HkEvents c k ns n b) = use_object_events c k ns n b"
| "hook_spec (HkCrds c b) = use_crds c b"
| "hook_spec (HkCustomList c g v p ns) = use_custom_resources c g v p ns"
| "hook_spec (HkCustomDetail c g v p ns n) = use_custom_resource_detail c g v p ns n"
| "hook_spec (HkYaml s c ns n b) = use_editor_yaml s c ns n b"
| "hook_spec (HkMeta r b) = resource_meta r b"

text \<open>The metadata hook asks for a group and a version that its key does not hold.\<close>

definition is_meta_hook :: "query_hook \<Rightarrow> bool" where
  "is_meta_hook h = (case h of HkMeta _ _ \<Rightarrow> True | _ \<Rightarrow> False)"

fun asked_version :: "query_hook \<Rightarrow> (string \<times> string) option" where
  "asked_version (HkMeta r b) = Some (rf_group r, rf_version r)"
| "asked_version _ = None"

lemmas hook_defs = use_resource_def node_metrics_def pod_metrics_def open_api_schema_def
  cluster_summary_def use_object_events_def use_crds_def use_custom_resources_def
  use_custom_resource_detail_def use_editor_yaml_def

lemma hook_request_of_key:
  "\<not> is_meta_hook h \<Longrightarrow> qs_request (hook_spec h) = key_request (qs_query (hook_spec h))"
proof (cases h)
  case (HkList f st c k ns)
  then show ?thesis by (simp add: use_resource_def Let_def list_fetch_of_key)
next
  case (HkYaml s c ns n b)
  then show ?thesis by (simp add: use_editor_yaml_def yaml_key_request)
qed (simp_all add: hook_defs workload_key_request storage_key_request rbac_key_request
      extra_key_request object_url_def object_events_def is_cluster_scoped_kind_def
      cluster_scoped_kinds_def namespace_query_str cr_namespace_str is_meta_hook_def)

definition is_meta_query :: "query \<Rightarrow> bool" where
  "is_meta_query q = (case q of QCluster _ (CKind _ (KMeta _ _)) \<Rightarrow> True | _ \<Rightarrow> False)"

lemma detail_spec_not_meta: "\<not> is_meta_query (qs_query (detail_spec c k ns n r))"
  by (simp add: detail_spec_def is_meta_query_def)

lemma detail_not_meta:
  "\<not> is_meta_query (qs_query (workload_detail wh c ns n))" "\<not> is_meta_query (qs_query (storage_detail sh c ns n))"
  "\<not> is_meta_query (qs_query (rbac_detail rh c ns n))" "\<not> is_meta_query (qs_query (extra_detail xh c ns n))"
     apply (cases wh; simp add: detail_spec_not_meta)
    apply (cases sh; simp add: detail_spec_not_meta)
   apply (cases rh; simp add: detail_spec_not_meta)
  apply (cases xh; simp add: detail_spec_not_meta)
  done

lemma meta_hook_query: "is_meta_query (qs_query (hook_spec h)) = is_meta_hook h"
proof (cases h)
  case (HkYaml s c ns n b)
  then show ?thesis by (cases s) (simp_all add: is_meta_query_def is_meta_hook_def use_editor_yaml_def)
qed (simp_all add: detail_not_meta is_meta_hook_def, simp_all add: hook_defs is_meta_query_def
      resource_meta_def meta_query_def Let_def)

lemma meta_request_of_key:
  assumes "meta_query q = meta_query r" "rf_group q = rf_group r" "rf_version q = rf_version r"
  shows "meta_url q = meta_url r"
  using assms
  by (auto simp: meta_query_def meta_url_def resource_url_def resource_segments_def str_or_empty_def
      Let_def split: option.splits if_splits)

text \<open>
  C14: hooks that share a cache entry ask the server for the same thing. Whatever the hooks,
  their arguments and the state of the streams, two queries with the same cache key send the
  same request (method, URL, headers), unless both are metadata hooks whose references differ in
  group or version; those do share an entry and send different requests (see
  \<open>meta_keys_collide\<close>).
\<close>

theorem equal_keys_equal_requests:
  assumes "query_key (qs_query (hook_spec p)) = query_key (qs_query (hook_spec q))"
    and "asked_version p = asked_version q"
  shows "qs_request (hook_spec p) = qs_request (hook_spec q)"
proof -
  have eq: "qs_query (hook_spec p) = qs_query (hook_spec q)" using assms(1) by (simp add: query_key_inj)
  then have same: "is_meta_hook p = is_meta_hook q" by (metis meta_hook_query)
  show ?thesis
  proof (cases "is_meta_hook p")
    case True
    then obtain r b r' b' where pq: "p = HkMeta r b" "q = HkMeta r' b'"
      using same by (auto simp: is_meta_hook_def split: query_hook.splits)
    then have "meta_url r = meta_url r'"
      using eq assms(2) by (intro meta_request_of_key) (simp_all add: resource_meta_def)
    then show ?thesis using pq by (simp add: resource_meta_def)
  next
    case False
    then show ?thesis using same eq by (simp add: hook_request_of_key)
  qed
qed

lemma equal_keys_equal_requests_witness:
  "qs_request (hook_spec (HkCustomDetail ''prod'' ''g.io'' ''v1'' ''things'' None (Some ''a''))) =
   qs_request (hook_spec (HkCustomDetail ''prod'' ''g.io'' ''v1'' ''things'' (Some []) (Some ''a'')))"
  by (rule equal_keys_equal_requests) (simp_all add: use_custom_resource_detail_def str_or_empty_def)

text \<open>
  The metadata hook is the exception: its key leaves out the group and the version, so
  the metadata of a custom resource and of a built-in one with the same plural share an entry.
\<close>

theorem meta_keys_collide:
  fixes core_svc knative_svc :: resource_ref
  defines "core_svc \<equiv> \<lparr>rf_cluster = ''prod'', rf_group = [], rf_version = ''v1'', rf_resource = ''services'',
      rf_namespace = Some ''shop'', rf_name = ''cart''\<rparr>"
    and "knative_svc \<equiv> \<lparr>rf_cluster = ''prod'', rf_group = ''serving.knative.dev'', rf_version = ''v1'',
      rf_resource = ''services'', rf_namespace = Some ''shop'', rf_name = ''cart''\<rparr>"
  shows "query_key (qs_query (resource_meta core_svc b)) = query_key (qs_query (resource_meta knative_svc b)) \<and>
    qs_request (resource_meta core_svc b) \<noteq> qs_request (resource_meta knative_svc b)"
  by (simp add: core_svc_def knative_svc_def resource_meta_def meta_query_def meta_url_def resource_url_def
      resource_segments_def get_json_with_def url_path_def Let_def encode_uri_component_def encode_uri_char_def
      uri_unreserved_def)

section \<open>After an apply\<close>

text \<open>The queries that show an object of a source.\<close>

fun own_queries :: "editor_source \<Rightarrow> string \<Rightarrow> string \<Rightarrow> string \<Rightarrow> string \<Rightarrow> query list" where
  "own_queries (Builtin k) c ns name any_ns =
     [QCluster c (CKind k (KList any_ns)), QCluster c (CKind k (KDetail ns name)),
      QCluster c (CKind k (KEvents ns name)), QCluster c (CKind k (KRevisions ns name))]"
| "own_queries (Custom r) c ns name any_ns =
     [qs_query (use_custom_resources c (cu_group r) (cu_version r) (cu_resource r) (Some any_ns)),
      qs_query (use_custom_resource_detail c (cu_group r) (cu_version r) (cu_resource r) (Some ns) (Some name))]"

text \<open>
  What an apply through a source makes stale, read off the query: everything of the source's own
  kind (or custom resource) and of the resource of its reference, in the object's cluster.
\<close>

fun of_source :: "editor_source \<Rightarrow> string \<Rightarrow> query \<Rightarrow> bool" where
  "of_source s c (QCluster d (CKind k x)) =
     (d = c \<and> (k = km_resource (gvrk_from_source s) \<or> s = Builtin k))"
| "of_source s c (QCluster d (CCr g v p x)) =
     (d = c \<and> (case s of Custom r \<Rightarrow> g = cu_group r \<and> v = cu_version r \<and> p = cu_resource r | Builtin _ \<Rightarrow> False))"
| "of_source s c q = False"

lemma prefix_kind_all:
  "prefix (query_key (QCluster c (CKind k KAll))) (query_key q) \<longleftrightarrow> (\<exists>x. q = QCluster c (CKind k x))"
proof (cases q)
  case (QCluster d y)
  then show ?thesis by (cases y) auto
qed auto

lemma prefix_cr_all:
  "prefix (query_key (QCluster c (CCr g v p CrAll))) (query_key q) \<longleftrightarrow> (\<exists>x. q = QCluster c (CCr g v p x))"
proof (cases q)
  case (QCluster d y)
  then show ?thesis by (cases y) auto
qed auto

lemma swept_iff_of_source:
  "swept (invalidate_after_apply s (fst (source_to_ref s c ns name))) q = of_source s c q"
  unfolding swept_def
  by (cases s; cases "(s, c, q)" rule: of_source.cases)
     (auto simp: source_to_ref_def Let_def invalidate_after_apply_def prefix_kind_all prefix_cr_all
       simp del: query_key.simps)

text \<open>
  C16: after a successful apply the editor, the drift view and the object's own pages read
  again, and nothing else does. For a built-in or a custom source the two invalidations reach
  the editor's YAML, the YAML of the drift view, the metadata that drift detection polls, the
  list in any namespace, the detail and (for built-in kinds) the events and the revisions of the
  object; and the queries they reach are exactly those of the source's kind or resource in that
  cluster. What other kinds embed of the object is not
  invalidated (see \<open>embedding_detail_not_refreshed\<close>).
\<close>

theorem apply_refreshes_own_queries:
  fixes s c ns name
  defines "stale \<equiv> swept (invalidate_after_apply s (fst (source_to_ref s c ns name)))"
  shows "list_all stale
      (editor_yaml_query s c n name # drift_yaml_query s c n name
        # meta_query (fst (source_to_ref s c ns name)) # own_queries s c n name any)
    \<and> (\<forall>q. stale q = of_source s c q)"
  unfolding stale_def swept_iff_of_source
  by (cases s) (auto simp: source_to_ref_def Let_def meta_query_def use_custom_resources_def
      use_custom_resource_detail_def str_or_empty_def)

text \<open>
  After a pod was applied, the detail of the deployment that lists the pod and the cluster
  summary stay as they are.
\<close>

theorem embedding_detail_not_refreshed:
  "let stale = swept (invalidate_after_apply (Builtin ''pods'')
         (fst (source_to_ref (Builtin ''pods'') ''prod'' (Some ''shop'') ''cart-1'')))
   in \<not> stale (qs_query (workload_detail UseDeploymentDetail ''prod'' ''shop'' (Some ''cart'')))
      \<and> \<not> stale (qs_query (cluster_summary ''prod''))"
  by (simp add: swept_iff_of_source detail_spec_def cluster_summary_def kind_registry_def gvr_def)

text \<open>
  a resource's reference prefers the storage version even when the cluster does not serve it.
\<close>

theorem unserved_storage_version:
  "cd_storage d \<noteq> [] \<Longrightarrow> cu_version (ref_from_crd d None) = cd_storage d"
  by (simp add: ref_from_crd_def crd_version_def str_or_empty_def)

end
