(* ===== verification/EditorBuffer.thy ===== *)
theory EditorBuffer
  imports ManagedFields StripForEdit QueryKeys ApiClient ResourceQueries
begin

text \<open>
  Model of the buffers of the editors: the inline YAML editor
  \<open>web/src/components/detail/yaml/YamlEditor.tsx\<close> with its drift handling, the form and YAML
  router \<open>components/edit/KindEditRouter.tsx\<close>, the identity and schema lookup of
  \<open>lib/k8sSchema.ts\<close> and the dirty marks of \<open>hooks/useEditorDirty.ts\<close>. The parser of YAML and of
  JSON and the answers of the user to the browser's confirmation are parameters; the effects of a
  render run in the order of the file on the values of that render, and the component renders
  again until nothing changes. The two editors are only mounted while the query of the text has an
  answer and is not in error: the components above them, which unmount them otherwise, follow at
  the ends of their sections.
\<close>

section \<open>Identity and schema\<close>

record gvk =
  gk_group :: string
  gk_version :: string
  gk_kind :: string

text \<open>
  \<open>parse\<close> is the parsed document as a plain value, None when it has errors or converting it
  throws.
\<close>

definition string_prop :: "jsval \<Rightarrow> string \<Rightarrow> string option" where
  "string_prop v k = (case get_prop v k of JStr s \<Rightarrow> Some s | _ \<Rightarrow> None)"

definition parse_identity :: "(string \<Rightarrow> jsval option) \<Rightarrow> string \<Rightarrow> identity option" where
  "parse_identity parse yaml =
     (case parse yaml of
        None \<Rightarrow> None
      | Some obj \<Rightarrow>
          if \<not> (is_plain_object obj \<or> is_array obj) then None
          else (let meta = get_prop obj ''metadata''
                in case (string_prop obj ''apiVersion'', string_prop obj ''kind'') of
                     (Some api, Some kind) \<Rightarrow>
                       if \<not> js_truthy meta then None
                       else (case string_prop meta ''name'' of
                               None \<Rightarrow> None
                             | Some name \<Rightarrow>
                                 Some \<lparr>id_apiVersion = api, id_kind = kind, id_name = name,
                                       id_namespace = string_prop meta ''namespace''\<rparr>)
                   | _ \<Rightarrow> None))"

definition gvk_from_identity :: "identity \<Rightarrow> gvk" where
  "gvk_from_identity i =
     (let parts = split_on (CHR ''/'') (id_apiVersion i)
      in if length parts = 1 then \<lparr>gk_group = [], gk_version = parts ! 0, gk_kind = id_kind i\<rparr>
         else \<lparr>gk_group = parts ! 0, gk_version = parts ! 1, gk_kind = id_kind i\<rparr>)"

definition gvk_matches :: "gvk \<Rightarrow> jsval \<Rightarrow> bool" where
  "gvk_matches g cand =
     (get_prop cand ''group'' = JStr (gk_group g) \<and> get_prop cand ''version'' = JStr (gk_version g)
      \<and> get_prop cand ''kind'' = JStr (gk_kind g))"

definition find_schema_for_gvk :: "jsval \<Rightarrow> gvk \<Rightarrow> (string \<times> jsval) option" where
  "find_schema_for_gvk doc g =
     (let schemas = opt_prop (get_prop doc ''components'') ''schemas''
      in if \<not> js_truthy schemas then None
         else find (\<lambda>(name, schema).
                case get_prop schema ''x-kubernetes-group-version-kind'' of
                  JArr cands \<Rightarrow> list_ex (gvk_matches g) cands
                | _ \<Rightarrow> False) (own_entries schemas))"

definition model_uri :: "string \<Rightarrow> gvk \<Rightarrow> string option \<Rightarrow> string \<Rightarrow> string" where
  "model_uri cluster g ns name =
     ''kubernetes://'' @ cluster @ ''/'' @ (if gk_group g \<noteq> [] then gk_group g else ''core'') @ ''/'' @
       gk_version g @ ''/'' @ gk_kind g @ ''/'' @ (case ns of None \<Rightarrow> ''_cluster'' | Some n \<Rightarrow> n) @ ''/'' @
       name @ ''.yaml''"

definition schema_uri :: "gvk \<Rightarrow> string" where
  "schema_uri g =
     ''kubernetes-schema://'' @ (if gk_group g \<noteq> [] then gk_group g else ''core'') @ ''/'' @ gk_version g @
       ''/'' @ gk_kind g"

definition build_schema_config :: "jsval \<Rightarrow> gvk \<Rightarrow> string \<Rightarrow> (string \<times> string list \<times> jsval) option" where
  "build_schema_config doc g uri =
     map_option (\<lambda>(name, schema).
         (schema_uri g, [uri],
          JObj [(''$ref'', JStr (''#/components/schemas/'' @ name)),
                (''components'', get_prop doc ''components'')]))
       (find_schema_for_gvk doc g)"

datatype schema_status = SchemaLoading | SchemaLoaded | SchemaMissing | SchemaFailed

definition schema_status_of :: "gvk option \<Rightarrow> bool \<Rightarrow> jsval option \<Rightarrow> schema_status" where
  "schema_status_of g failed data =
     (case g of
        None \<Rightarrow> SchemaLoading
      | Some k \<Rightarrow>
          if failed then SchemaFailed
          else (case data of
                  None \<Rightarrow> SchemaLoading
                | Some doc \<Rightarrow> if find_schema_for_gvk doc k \<noteq> None then SchemaLoaded else SchemaMissing))"

section \<open>The YAML editor\<close>

record editor =
  ee_fetched :: string
  ee_override :: "string option"
  ee_locked :: string
  ee_current :: string
  ee_meta :: "resource_meta option"
  ee_pristine_meta :: "resource_meta option"
  ee_dismissed :: "string option"
  ee_diff :: bool
  ee_patch :: bool
  ee_overlay :: bool
  ee_multi :: bool
  ee_drift_key :: "string list"
  ee_toasts :: "string list"
  ee_refetches :: nat
  ee_left :: bool

definition pristine_of :: "editor \<Rightarrow> string" where
  "pristine_of s = (case ee_override s of Some b \<Rightarrow> b | None \<Rightarrow> strip_for_edit (ee_fetched s))"

definition open_editor :: "string \<Rightarrow> string option \<Rightarrow> string option \<Rightarrow> editor" where
  "open_editor fetched initial override =
     (let p = (case override of Some b \<Rightarrow> b | None \<Rightarrow> strip_for_edit fetched)
      in \<lparr>ee_fetched = fetched, ee_override = override, ee_locked = p,
          ee_current = (case initial of Some v \<Rightarrow> v | None \<Rightarrow> p), ee_meta = None,
          ee_pristine_meta = None, ee_dismissed = None, ee_diff = False, ee_patch = False,
          ee_overlay = False, ee_multi = False, ee_drift_key = [], ee_toasts = [],
          ee_refetches = 0, ee_left = False\<rparr>)"

definition dirty :: "editor \<Rightarrow> bool" where
  "dirty s = (ee_current s \<noteq> ee_locked s)"

definition drift_of :: "(string \<Rightarrow> jsval option) \<Rightarrow> editor \<Rightarrow> drift_info option" where
  "drift_of json s =
     (case (ee_meta s, ee_pristine_meta s) of
        (Some m, Some p) \<Rightarrow>
          if ee_dismissed s = Some (rm_resource_version m) then None else describe_drift json p m
      | _ \<Rightarrow> None)"

definition drift_banner :: "(string \<Rightarrow> jsval option) \<Rightarrow> editor \<Rightarrow> bool" where
  "drift_banner json s = (drift_of json s \<noteq> None \<and> dirty s)"

text \<open>The expression \<open>/\n---\s*\n/\<close>.\<close>

definition has_separator :: "string \<Rightarrow> bool" where
  "has_separator s =
     list_ex (\<lambda>r. prefix ([newline] @ ''---'') r \<and> newline \<in> set (takeWhile is_ws (drop 4 r))) (suffixes s)"

definition changed_fields :: "identity \<Rightarrow> identity \<Rightarrow> string list" where
  "changed_fields a b =
     (if id_apiVersion a \<noteq> id_apiVersion b then [''apiVersion''] else [])
     @ (if id_kind a \<noteq> id_kind b then [''kind''] else [])
     @ (if id_name a \<noteq> id_name b then [''metadata.name''] else [])
     @ (if str_or_empty (id_namespace a) \<noteq> str_or_empty (id_namespace b) then [''metadata.namespace''] else [])"

text \<open>The effect that warns about a second document or a changed identity, once per change.\<close>

definition identity_effect :: "(string \<Rightarrow> jsval option) \<Rightarrow> string \<Rightarrow> string \<Rightarrow> editor \<Rightarrow> editor" where
  "identity_effect parse pristine current s =
     (if current = pristine then s\<lparr>ee_multi := False, ee_drift_key := []\<rparr>
      else (let multi = has_separator current;
                s1 = s\<lparr>ee_multi := multi,
                       ee_toasts := ee_toasts s @
                         (if multi \<and> \<not> ee_multi s
                          then [''multi-document YAML isn't supported''] else [])\<rparr>
            in if multi then s1
               else (case (parse_identity parse pristine, parse_identity parse current) of
                       (Some before, Some after) \<Rightarrow>
                         (let changed = changed_fields before after
                          in if changed = ee_drift_key s1 then s1
                             else s1\<lparr>ee_drift_key := changed,
                                     ee_toasts := ee_toasts s1 @
                                       (if changed \<noteq> []
                                        then [''don't change '' @ join_str '', '' changed] else [])\<rparr>)
                     | _ \<Rightarrow> s1)))"

text \<open>
  The effects of one render: the capture of the first metadata, the silent refresh of a clean
  buffer, the swap of the baseline, and the warnings. Each reads the values of the render.
\<close>

definition capture_effect :: "editor \<Rightarrow> editor \<Rightarrow> editor" where
  "capture_effect r s =
     (if ee_meta r \<noteq> None \<and> ee_pristine_meta r = None then s\<lparr>ee_pristine_meta := ee_meta r\<rparr> else s)"

definition refresh_effect :: "(string \<Rightarrow> jsval option) \<Rightarrow> editor \<Rightarrow> editor \<Rightarrow> editor" where
  "refresh_effect json r s =
     (if drift_of json r \<noteq> None \<and> \<not> dirty r
      then s\<lparr>ee_pristine_meta := ee_meta r, ee_refetches := ee_refetches s + 1\<rparr> else s)"

definition swap_effect :: "editor \<Rightarrow> editor \<Rightarrow> editor" where
  "swap_effect r s =
     (if dirty r \<or> pristine_of r = ee_locked r then s
      else s\<lparr>ee_locked := pristine_of r, ee_current := pristine_of r,
             ee_pristine_meta := (if ee_meta r \<noteq> None then ee_meta r else ee_pristine_meta s)\<rparr>)"

definition render :: "(string \<Rightarrow> jsval option) \<Rightarrow> (string \<Rightarrow> jsval option) \<Rightarrow> editor \<Rightarrow> editor" where
  "render json parse r =
     identity_effect parse (pristine_of r) (ee_current r)
       (swap_effect r (refresh_effect json r (capture_effect r r)))"

definition settle :: "(string \<Rightarrow> jsval option) \<Rightarrow> (string \<Rightarrow> jsval option) \<Rightarrow> editor \<Rightarrow> editor" where
  "settle json parse s = render json parse (render json parse s)"

text \<open>
  What happens to a mounted editor. \<open>YamlFetched\<close> and \<open>BaselineChanged\<close> are changes of its
  properties; a failed fetch is no event here but a result of the query above it, for it unmounts the editor.
\<close>

datatype editor_event =
    YamlFetched string
  | MetaPolled resource_meta
  | BaselineChanged string
  | Typed string
  | DriftDismissed
  | DriftReload bool
  | ShowDriftDiff
  | CloseDriftDiff
  | ToggleDiff
  | TogglePatch
  | EscPressed bool
  | CancelClicked
  | Committed

definition drift_dismiss :: "editor \<Rightarrow> editor" where
  "drift_dismiss s =
     (case ee_meta s of None \<Rightarrow> s | Some m \<Rightarrow> s\<lparr>ee_dismissed := Some (rm_resource_version m)\<rparr>)"

definition drift_reload :: "bool \<Rightarrow> editor \<Rightarrow> editor" where
  "drift_reload ok s =
     (if dirty s \<and> \<not> ok then s
      else s\<lparr>ee_current := ee_locked s,
             ee_pristine_meta := (if ee_meta s \<noteq> None then ee_meta s else ee_pristine_meta s),
             ee_dismissed := None, ee_refetches := ee_refetches s + 1\<rparr>)"

definition on_cancel :: "editor \<Rightarrow> editor" where
  "on_cancel s = s\<lparr>ee_left := True\<rparr>"

definition on_escape :: "bool \<Rightarrow> editor \<Rightarrow> editor" where
  "on_escape busy s =
     (if busy then s
      else if ee_patch s then s\<lparr>ee_patch := False\<rparr>
      else if ee_diff s then s\<lparr>ee_diff := False\<rparr>
      else on_cancel s)"

text \<open>
  The handlers. The flag of the reload is the answer to the confirmation, that of the escape
  key says whether a request is running. A committed apply leaves the editor. Leaving drops the
  parameter \<open>edit\<close> of the address, so that the component above unmounts the editor with its text.
\<close>

fun editor_handler :: "editor \<Rightarrow> editor_event \<Rightarrow> editor" where
  "editor_handler s (YamlFetched y) = s\<lparr>ee_fetched := y\<rparr>"
| "editor_handler s (MetaPolled m) = s\<lparr>ee_meta := Some m\<rparr>"
| "editor_handler s (BaselineChanged b) = s\<lparr>ee_override := Some b\<rparr>"
| "editor_handler s (Typed t) = s\<lparr>ee_current := t\<rparr>"
| "editor_handler s DriftDismissed = drift_dismiss s"
| "editor_handler s (DriftReload ok) = drift_reload ok s"
| "editor_handler s ShowDriftDiff = s\<lparr>ee_overlay := True\<rparr>"
| "editor_handler s CloseDriftDiff = s\<lparr>ee_overlay := False\<rparr>"
| "editor_handler s ToggleDiff = s\<lparr>ee_diff := \<not> ee_diff s\<rparr>"
| "editor_handler s TogglePatch = s\<lparr>ee_patch := \<not> ee_patch s\<rparr>"
| "editor_handler s (EscPressed busy) = on_escape busy s"
| "editor_handler s CancelClicked = on_cancel s"
| "editor_handler s Committed = s\<lparr>ee_left := True\<rparr>"

definition editor_step ::
  "(string \<Rightarrow> jsval option) \<Rightarrow> (string \<Rightarrow> jsval option) \<Rightarrow> editor \<Rightarrow> editor_event \<Rightarrow> editor" where
  "editor_step json parse s e = (if ee_left s then s else settle json parse (editor_handler s e))"

text \<open>The guard on navigation to another page.\<close>

definition blocks_navigation :: "editor \<Rightarrow> string \<Rightarrow> string \<Rightarrow> bool" where
  "blocks_navigation s from_path to_path = (dirty s \<and> from_path \<noteq> to_path)"

definition confirm_discard :: "bool \<Rightarrow> bool \<Rightarrow> bool" where
  "confirm_discard is_dirty ok = (\<not> is_dirty \<or> ok)"

definition drawer_width :: "int option \<Rightarrow> int" where
  "drawer_width stored = (case stored of Some n \<Rightarrow> if 280 \<le> n \<and> n \<le> 800 then n else 420 | None \<Rightarrow> 420)"

definition drag_width :: "int \<Rightarrow> int \<Rightarrow> int \<Rightarrow> int" where
  "drag_width start_x start_width x = min 800 (max 280 (start_width + (start_x - x)))"

text \<open>Who else manages the object.\<close>

definition self_owned :: "field_owner list \<Rightarrow> nat" where
  "self_owned owners =
     length (filter (\<lambda>f. fo_manager f = periscope_manager \<and> fo_operation f = OpApply) owners)"

definition other_counts :: "field_owner list \<Rightarrow> (string \<times> nat) list" where
  "other_counts owners =
     fold (\<lambda>f m. if fo_manager f = periscope_manager then m
                 else AList.update (fo_manager f)
                        ((case map_of m (fo_manager f) of None \<Rightarrow> 0 | Some n \<Rightarrow> n) + 1) m) owners []"

definition other_owners :: "field_owner list \<Rightarrow> (string \<times> nat) list" where
  "other_owners owners = sort_key (\<lambda>p. - int (snd p)) (other_counts owners)"

definition co_management_shown :: "editor \<Rightarrow> bool \<Rightarrow> field_owner list \<Rightarrow> bool" where
  "co_management_shown s dismissed owners =
     (\<not> ee_diff s \<and> \<not> dismissed \<and> other_owners owners \<noteq> [])"

definition banner_managers :: "(string \<times> nat) list \<Rightarrow> string list \<times> nat" where
  "banner_managers owners = (let top = take 3 owners in (map fst top, length owners - length top))"

section \<open>The query above the editor\<close>

text \<open>
  A result of the query of the text: the text of the last answer, if there was one, and whether the
  query is in error. A failed refetch is a result that has both; the components look at the error
  first. Neither an error nor an empty text is edited.
\<close>

record yaml_query =
  yq_text :: "string option"
  yq_failed :: bool

definition editable_text :: "yaml_query \<Rightarrow> string option" where
  "editable_text q =
     (if yq_failed q then None
      else (case yq_text q of Some y \<Rightarrow> if y = [] then None else Some y | None \<Rightarrow> None))"

text \<open>
  The component \<open>YamlEditor\<close> with its two properties: it mounts the editor on the text of the
  query, passes later texts on to it, and unmounts it, with the text in its buffer, when the query
  fails. \<open>yv_left\<close> says that the parameter \<open>edit\<close> is gone.
\<close>

record yaml_view =
  yv_initial :: "string option"
  yv_override :: "string option"
  yv_editor :: "editor option"
  yv_left :: bool

definition open_view :: "string option \<Rightarrow> string option \<Rightarrow> yaml_view" where
  "open_view initial override =
     \<lparr>yv_initial = initial, yv_override = override, yv_editor = None, yv_left = False\<rparr>"

datatype view_event = FromQuery yaml_query | OnEditor editor_event

definition place_editor ::
  "(string \<Rightarrow> jsval option) \<Rightarrow> (string \<Rightarrow> jsval option) \<Rightarrow> yaml_query \<Rightarrow> yaml_view \<Rightarrow> yaml_view" where
  "place_editor json parse q s =
     s\<lparr>yv_editor :=
         (case editable_text q of
            None \<Rightarrow> None
          | Some y \<Rightarrow>
              Some (case yv_editor s of
                      Some ed \<Rightarrow> editor_step json parse ed (YamlFetched y)
                    | None \<Rightarrow> settle json parse (open_editor y (yv_initial s) (yv_override s))))\<rparr>"

definition in_view ::
  "(string \<Rightarrow> jsval option) \<Rightarrow> (string \<Rightarrow> jsval option) \<Rightarrow> editor_event \<Rightarrow> yaml_view \<Rightarrow> yaml_view" where
  "in_view json parse e s =
     (case yv_editor s of
        None \<Rightarrow> s
      | Some ed \<Rightarrow>
          (let ed' = editor_step json parse ed e
           in if ee_left ed' then s\<lparr>yv_editor := None, yv_left := True\<rparr>
              else s\<lparr>yv_editor := Some ed'\<rparr>))"

fun view_handler ::
  "(string \<Rightarrow> jsval option) \<Rightarrow> (string \<Rightarrow> jsval option) \<Rightarrow> yaml_view \<Rightarrow> view_event \<Rightarrow> yaml_view" where
  "view_handler json parse s (FromQuery q) = place_editor json parse q s"
| "view_handler json parse s (OnEditor e) =
     (case e of BaselineChanged b \<Rightarrow> s | YamlFetched y \<Rightarrow> s | _ \<Rightarrow> in_view json parse e s)"

definition view_step ::
  "(string \<Rightarrow> jsval option) \<Rightarrow> (string \<Rightarrow> jsval option) \<Rightarrow> yaml_view \<Rightarrow> view_event \<Rightarrow> yaml_view" where
  "view_step json parse s e = (if yv_left s then s else view_handler json parse s e)"

section \<open>Dirty marks\<close>

definition dirty_key :: "string \<Rightarrow> string \<Rightarrow> string option \<Rightarrow> string \<Rightarrow> query" where
  "dirty_key cluster kind ns name = QEdit cluster kind (str_or_empty ns) name"

text \<open>Publishing is suppressed for the empty kind; the cleanup clears the mark.\<close>

definition publish_dirty :: "string \<Rightarrow> query \<Rightarrow> bool \<Rightarrow> (query \<Rightarrow> bool) \<Rightarrow> (query \<Rightarrow> bool)" where
  "publish_dirty kind key d marks = (if kind = [] then marks else marks(key := d))"

section \<open>Form and YAML on one buffer\<close>

datatype edit_mode = FormMode | YamlMode

definition read_preferred :: "string option \<Rightarrow> edit_mode" where
  "read_preferred stored = (if stored = Some ''yaml'' then YamlMode else FormMode)"

record router =
  kr_fetched :: string
  kr_mode :: edit_mode
  kr_draft :: string
  kr_baseline :: string
  kr_editor :: "editor option"
  kr_left :: bool

definition mount_mode ::
  "(string \<Rightarrow> jsval option) \<Rightarrow> (string \<Rightarrow> jsval option) \<Rightarrow> edit_mode \<Rightarrow> router \<Rightarrow> router" where
  "mount_mode json parse m s =
     s\<lparr>kr_mode := m,
       kr_editor :=
         (case (m, kr_editor s) of
            (FormMode, _) \<Rightarrow> None
          | (YamlMode, Some ed) \<Rightarrow> Some ed
          | (YamlMode, None) \<Rightarrow>
              Some (settle json parse
                (open_editor (kr_fetched s) (Some (kr_draft s)) (Some (kr_baseline s)))))\<rparr>"

definition open_router ::
  "(string \<Rightarrow> jsval option) \<Rightarrow> (string \<Rightarrow> jsval option) \<Rightarrow> string \<Rightarrow> string option \<Rightarrow> router" where
  "open_router json parse fetched stored =
     mount_mode json parse (read_preferred stored)
       \<lparr>kr_fetched = fetched, kr_mode = FormMode, kr_draft = fetched, kr_baseline = fetched,
        kr_editor = None, kr_left = False\<rparr>"

datatype router_event =
    ModePicked edit_mode
  | FormEdited string
  | FormCommitted string
  | FormCancelled bool
  | InEditor editor_event
  | RouterFetched string

text \<open>
  A form commit carries the draft of the render that submitted it, which its callback's closure
  makes the baseline. The properties of the mounted editor change with the router's baseline and
  with the fetched text, never by an event of the editor. In YAML mode every change of Monaco's text is mirrored into the draft.
\<close>

definition in_editor ::
  "(string \<Rightarrow> jsval option) \<Rightarrow> (string \<Rightarrow> jsval option) \<Rightarrow> editor_event \<Rightarrow> router \<Rightarrow> router" where
  "in_editor json parse e s =
     (case kr_editor s of
        None \<Rightarrow> s
      | Some ed \<Rightarrow>
          (let ed' = editor_step json parse ed e
           in s\<lparr>kr_editor := Some ed', kr_draft := ee_current ed', kr_left := ee_left ed'\<rparr>))"

fun router_handler ::
  "(string \<Rightarrow> jsval option) \<Rightarrow> (string \<Rightarrow> jsval option) \<Rightarrow> router \<Rightarrow> router_event \<Rightarrow> router" where
  "router_handler json parse s (ModePicked m) = mount_mode json parse m s"
| "router_handler json parse s (FormEdited t) = (if kr_mode s = FormMode then s\<lparr>kr_draft := t\<rparr> else s)"
| "router_handler json parse s (FormCommitted submitted) =
     in_editor json parse (BaselineChanged submitted) (s\<lparr>kr_baseline := submitted\<rparr>)"
| "router_handler json parse s (FormCancelled ok) =
     (if kr_mode s = FormMode \<and> (kr_draft s = kr_baseline s \<or> ok) then s\<lparr>kr_left := True\<rparr> else s)"
| "router_handler json parse s (InEditor e) =
     (case e of BaselineChanged b \<Rightarrow> s | YamlFetched y \<Rightarrow> s | _ \<Rightarrow> in_editor json parse e s)"
| "router_handler json parse s (RouterFetched y) =
     in_editor json parse (YamlFetched y) (s\<lparr>kr_fetched := y\<rparr>)"

definition router_step ::
  "(string \<Rightarrow> jsval option) \<Rightarrow> (string \<Rightarrow> jsval option) \<Rightarrow> router \<Rightarrow> router_event \<Rightarrow> router" where
  "router_step json parse s e = (if kr_left s then s else router_handler json parse s e)"

text \<open>
  The component \<open>KindEditRouter\<close>, which mounts the router on the text of the same query and unmounts
  it, with its draft, when the query fails. Picking a mode stores the preference.
\<close>

record kind_view =
  kw_stored :: "string option"
  kw_router :: "router option"
  kw_left :: bool

datatype kind_event = KindQuery yaml_query | OnRouter router_event

definition place_router ::
  "(string \<Rightarrow> jsval option) \<Rightarrow> (string \<Rightarrow> jsval option) \<Rightarrow> yaml_query \<Rightarrow> kind_view \<Rightarrow> kind_view" where
  "place_router json parse q s =
     s\<lparr>kw_router :=
         (case editable_text q of
            None \<Rightarrow> None
          | Some y \<Rightarrow>
              Some (case kw_router s of
                      Some r \<Rightarrow> router_step json parse r (RouterFetched y)
                    | None \<Rightarrow> open_router json parse y (kw_stored s)))\<rparr>"

definition write_preferred :: "router_event \<Rightarrow> string option \<Rightarrow> string option" where
  "write_preferred e stored =
     (case e of
        ModePicked FormMode \<Rightarrow> Some ''form'' | ModePicked YamlMode \<Rightarrow> Some ''yaml'' | _ \<Rightarrow> stored)"

definition in_kind_view ::
  "(string \<Rightarrow> jsval option) \<Rightarrow> (string \<Rightarrow> jsval option) \<Rightarrow> router_event \<Rightarrow> kind_view \<Rightarrow> kind_view" where
  "in_kind_view json parse e s =
     (case kw_router s of
        None \<Rightarrow> s
      | Some r \<Rightarrow>
          (let r' = router_step json parse r e; s' = s\<lparr>kw_stored := write_preferred e (kw_stored s)\<rparr>
           in if kr_left r' then s'\<lparr>kw_router := None, kw_left := True\<rparr>
              else s'\<lparr>kw_router := Some r'\<rparr>))"

fun kind_handler ::
  "(string \<Rightarrow> jsval option) \<Rightarrow> (string \<Rightarrow> jsval option) \<Rightarrow> kind_view \<Rightarrow> kind_event \<Rightarrow> kind_view" where
  "kind_handler json parse s (KindQuery q) = place_router json parse q s"
| "kind_handler json parse s (OnRouter e) =
     (case e of RouterFetched y \<Rightarrow> s | _ \<Rightarrow> in_kind_view json parse e s)"

definition kind_step ::
  "(string \<Rightarrow> jsval option) \<Rightarrow> (string \<Rightarrow> jsval option) \<Rightarrow> kind_view \<Rightarrow> kind_event \<Rightarrow> kind_view" where
  "kind_step json parse s e = (if kw_left s then s else kind_handler json parse s e)"

end
