(* ===== verification/EditorSafety.thy ===== *)
theory EditorSafety
  imports EditorBuffer "HOL-Library.Multiset"
begin

text \<open>
  What the editors promise for the buffer: the effects of a render settle, nothing but the user
  replaces the unsaved text of a mounted editor, a clean buffer follows the server, the drift banner appears and hides as
  its texts say, and a change of mode carries the draft both ways; and where the code falls short
  of its comments.
\<close>

section \<open>The effects settle\<close>

lemma identity_effect_keeps [simp]:
  "ee_fetched (identity_effect parse p c s) = ee_fetched s"
  "ee_override (identity_effect parse p c s) = ee_override s"
  "ee_locked (identity_effect parse p c s) = ee_locked s"
  "ee_current (identity_effect parse p c s) = ee_current s"
  "ee_meta (identity_effect parse p c s) = ee_meta s"
  "ee_pristine_meta (identity_effect parse p c s) = ee_pristine_meta s"
  "ee_dismissed (identity_effect parse p c s) = ee_dismissed s"
  "ee_diff (identity_effect parse p c s) = ee_diff s"
  "ee_patch (identity_effect parse p c s) = ee_patch s"
  "ee_left (identity_effect parse p c s) = ee_left s"
  by (auto simp: identity_effect_def Let_def split: option.splits)

lemma identity_effect_twice:
  "identity_effect parse p c (identity_effect parse p c s) = identity_effect parse p c s"
  by (auto simp: identity_effect_def Let_def split: option.splits)

lemma pristine_of_identity [simp]: "pristine_of (identity_effect parse p c s) = pristine_of s"
  by (simp add: pristine_of_def split: option.splits)

lemma drift_of_identity [simp]: "drift_of json (identity_effect parse p c s) = drift_of json s"
  by (simp add: drift_of_def split: option.splits)

lemma dirty_identity [simp]: "dirty (identity_effect parse p c s) = dirty s"
  by (simp add: dirty_def)

text \<open>The state in which none of the effects on the metadata and the baseline has work left.\<close>

definition quiet :: "(string \<Rightarrow> jsval option) \<Rightarrow> editor \<Rightarrow> bool" where
  "quiet json s =
     ((ee_meta s \<noteq> None \<longrightarrow> ee_pristine_meta s \<noteq> None)
      \<and> (dirty s \<or> drift_of json s = None \<and> pristine_of s = ee_locked s))"

lemma describe_drift_same [simp]: "describe_drift json m m = None"
  by (simp add: describe_drift_def)

lemma quiet_identity [simp]: "quiet json (identity_effect parse p c s) = quiet json s"
  by (simp add: quiet_def)

lemma render_quiet_id:
  "quiet json s \<Longrightarrow> render json parse s = identity_effect parse (pristine_of s) (ee_current s) s"
  by (auto simp: render_def quiet_def capture_effect_def refresh_effect_def swap_effect_def)

lemma quiet_render: "quiet json (render json parse s)"
  by (auto simp: render_def quiet_def capture_effect_def refresh_effect_def swap_effect_def dirty_def
        drift_of_def pristine_of_def split: option.splits)

lemma settle_eq:
  "settle json parse s =
     (let r = render json parse s in identity_effect parse (pristine_of r) (ee_current r) r)"
  by (simp add: settle_def render_quiet_id quiet_render Let_def)

lemma quiet_settle: "quiet json (settle json parse s)"
  by (simp add: settle_eq Let_def quiet_render)

lemma settle_quiet_fields:
  assumes "quiet json s"
  shows "ee_current (settle json parse s) = ee_current s" "ee_locked (settle json parse s) = ee_locked s"
    "ee_pristine_meta (settle json parse s) = ee_pristine_meta s"
  using assms by (simp_all add: settle_eq Let_def render_quiet_id)

lemma render_keeps [simp]:
  "ee_fetched (render json parse s) = ee_fetched s"
  "ee_override (render json parse s) = ee_override s"
  "ee_meta (render json parse s) = ee_meta s"
  "ee_dismissed (render json parse s) = ee_dismissed s"
  "ee_diff (render json parse s) = ee_diff s"
  "ee_patch (render json parse s) = ee_patch s"
  "ee_left (render json parse s) = ee_left s"
  by (simp_all add: render_def capture_effect_def refresh_effect_def swap_effect_def)

lemma settle_keeps [simp]:
  "ee_fetched (settle json parse s) = ee_fetched s"
  "ee_override (settle json parse s) = ee_override s"
  "ee_meta (settle json parse s) = ee_meta s"
  "ee_dismissed (settle json parse s) = ee_dismissed s"
  "ee_diff (settle json parse s) = ee_diff s"
  "ee_patch (settle json parse s) = ee_patch s"
  "ee_left (settle json parse s) = ee_left s"
  by (simp_all add: settle_def)

lemma render_buffer:
  "ee_current (render json parse s) = (if dirty s then ee_current s else pristine_of s)"
  "ee_locked (render json parse s) = (if dirty s then ee_locked s else pristine_of s)"
  by (auto simp: render_def capture_effect_def refresh_effect_def swap_effect_def dirty_def)

lemma settle_buffer:
  "ee_current (settle json parse s) = (if dirty s then ee_current s else pristine_of s)"
  "ee_locked (settle json parse s) = (if dirty s then ee_locked s else pristine_of s)"
  by (simp_all add: settle_eq Let_def render_buffer)

lemma dirty_settle [simp]: "dirty (settle json parse s) = dirty s"
  unfolding dirty_def [of "settle json parse s"] by (auto simp: settle_buffer dirty_def)

text \<open>
  C36: the effects of the editor settle. After two renders a further render changes nothing, so
  the chain of effects that set state ends, and no toast is shown twice for one change.
\<close>

theorem editor_effects_settle:
  "render json parse (settle json parse s) = settle json parse s"
proof -
  let ?r = "render json parse s"
  let ?i = "identity_effect parse (pristine_of ?r) (ee_current ?r) ?r"
  have "render json parse ?i = identity_effect parse (pristine_of ?i) (ee_current ?i) ?i"
    by (rule render_quiet_id) (simp add: quiet_render)
  then show ?thesis by (simp add: settle_eq Let_def identity_effect_twice)
qed

section \<open>Unsaved text\<close>

lemma open_editor_left [simp]: "\<not> ee_left (open_editor f i b)"
  by (simp add: open_editor_def Let_def)

lemmas handler_defs = drift_dismiss_def drift_reload_def on_cancel_def on_escape_def


text \<open>
  The events that unmount an editor: a result of the query that is in error or has no
  text, the cancel button, a
  committed apply, and the escape key when no request runs and neither panel is open.
\<close>

fun unmounts :: "editor \<Rightarrow> view_event \<Rightarrow> bool" where
  "unmounts ed (FromQuery q) = (yq_failed q \<or> yq_text q = None \<or> yq_text q = Some [])"
| "unmounts ed (OnEditor CancelClicked) = True"
| "unmounts ed (OnEditor Committed) = True"
| "unmounts ed (OnEditor (EscPressed busy)) = (\<not> busy \<and> \<not> ee_patch ed \<and> \<not> ee_diff ed)"
| "unmounts ed (OnEditor e) = False"

definition answered :: "string \<Rightarrow> yaml_query" where
  "answered y = \<lparr>yq_text = Some y, yq_failed = False\<rparr>"

definition view_inv :: "yaml_view \<Rightarrow> bool" where
  "view_inv s = (case yv_editor s of None \<Rightarrow> True | Some ed \<Rightarrow> \<not> ee_left ed \<and> \<not> yv_left s)"


lemma editor_step_leaves:
  "\<not> ee_left ed \<Longrightarrow> ee_left (editor_step json parse ed e) = unmounts ed (OnEditor e)"
  by (cases e) (simp_all add: editor_step_def handler_defs split: option.splits)


lemma view_inv_step: "view_inv s \<Longrightarrow> view_inv (view_step json parse s e)"
proof (cases "yv_left s")
  case False
  assume inv: "view_inv s"
  show ?thesis
  proof (cases e)
    case (FromQuery q)
    then show ?thesis using inv False
      by (cases "yv_editor s")
         (simp_all add: view_step_def place_editor_def view_inv_def editor_step_leaves open_editor_left
           split: option.splits)
  next
    case (OnEditor ee)
    then show ?thesis using inv False
      by (cases ee) (auto simp: view_step_def in_view_def view_inv_def Let_def split: option.splits)
  qed
qed (simp add: view_step_def)

interpretation yaml_view: event_machine "view_step json parse" view_inv
  by unfold_locales (rule view_inv_step)





lemma sample_pristine: "strip_for_edit ''a: 1'' = ''a: 1''" "strip_for_edit ''a: 2'' = ''a: 2''"
  by code_simp+


text \<open>
  a failed refetch loses unsaved text. It unmounts the editor; when a later one succeeds, the
  editor opens anew on the text it was first given or on the fetched one, whatever had been typed,
  and nobody was asked.
\<close>

theorem failed_refetch_drops_unsaved_text:
  assumes "\<not> yv_left s" "y \<noteq> []"
  shows "let u = view_step json parse s (FromQuery \<lparr>yq_text = old, yq_failed = True\<rparr>)
    in yv_editor u = None
       \<and> yv_editor (view_step json parse u (FromQuery (answered y)))
           = Some (settle json parse (open_editor y (yv_initial s) (yv_override s)))"
  using assms by (simp add: view_step_def place_editor_def editable_text_def answered_def Let_def)

text \<open>
  and so does one under the form: it unmounts the router with its draft, and a later success
  opens it anew on the fetched text.
\<close>

theorem failed_refetch_drops_draft:
  assumes "\<not> kw_left s" "y \<noteq> []"
  shows "let u = kind_step json parse s (KindQuery \<lparr>yq_text = old, yq_failed = True\<rparr>)
    in kw_router u = None
       \<and> kw_router (kind_step json parse u (KindQuery (answered y)))
           = Some (open_router json parse y (kw_stored s))"
  using assms by (simp add: kind_step_def place_router_def editable_text_def answered_def Let_def)

fun fetched_last :: "string \<Rightarrow> editor_event list \<Rightarrow> string" where
  "fetched_last y [] = y"
| "fetched_last y (YamlFetched z # es) = fetched_last z es"
| "fetched_last y (e # es) = fetched_last y es"

fun from_server :: "editor_event \<Rightarrow> bool" where
  "from_server (YamlFetched y) = True"
| "from_server (MetaPolled m) = True"
| "from_server e = False"

text \<open>
  a clean editor follows the server. When a refetch answers, an editor without a baseline of
  its own shows the new text as its text and its baseline, stays clean and shows no banner; and
  so it does for every list of refetches and polls, ending on the last text fetched.
\<close>

theorem clean_editor_follows_server:
  assumes "\<not> dirty s" "ee_override s = None" "\<not> ee_left s" "pristine_of s = ee_locked s"
    "\<forall>e \<in> set es. from_server e"
  shows "let s' = foldl (editor_step json parse) s es
    in ee_current s' = strip_for_edit (fetched_last (ee_fetched s) es)
       \<and> ee_locked s' = ee_current s' \<and> \<not> drift_banner json s'"
  using assms
proof (induction es arbitrary: s)
  case Nil
  then show ?case by (auto simp: dirty_def pristine_of_def drift_banner_def)
next
  case (Cons e es)
  let ?t = "editor_step json parse s e"
  have t: "\<not> dirty ?t" "ee_override ?t = None" "\<not> ee_left ?t" "pristine_of ?t = ee_locked ?t"
    using Cons.prems by (cases e; simp add: editor_step_def settle_buffer dirty_def pristine_of_def)+
  have "fetched_last (ee_fetched ?t) es = fetched_last (ee_fetched s) (e # es)"
    using Cons.prems by (cases e) (simp_all add: editor_step_def)
  then show ?case using Cons.IH [OF t] Cons.prems by simp
qed

lemma clean_editor_follows_server_witness:
  "let s = open_editor ''a: 1'' None None;
       t = foldl (editor_step (\<lambda>_. None) (\<lambda>_. None)) s [YamlFetched ''a: 7'', YamlFetched ''a: 2'']
   in ee_current t = ''a: 2'' \<and> ee_locked t = ''a: 2''"
proof -
  let ?s = "open_editor ''a: 1'' None None"
  have "\<not> dirty ?s" "ee_override ?s = None" "\<not> ee_left ?s" "pristine_of ?s = ee_locked ?s"
    by (simp_all add: open_editor_def dirty_def pristine_of_def Let_def)
  from clean_editor_follows_server [OF this, of "[YamlFetched ''a: 7'', YamlFetched ''a: 2'']"]
  show ?thesis by (simp add: Let_def sample_pristine)
qed

section \<open>The drift banner\<close>

lemma dirty_quiet: "dirty s \<Longrightarrow> ee_pristine_meta s \<noteq> None \<Longrightarrow> quiet json s"
  by (simp add: quiet_def)

text \<open>
  a dismissed banner stays away until something newer happens. Dismissing it hides it and
  touches neither the text nor the baseline; it stays hidden through every poll that answers the
  same resource version, and a poll with another version in which the detector sees a drift brings
  it back.
\<close>

theorem dismissed_banner_returns_on_newer_write:
  assumes "drift_banner json s" "\<not> ee_left s" "ee_meta s = Some m" "ee_pristine_meta s = Some p"
  shows "let t = editor_step json parse s DriftDismissed;
      u = editor_step json parse t (MetaPolled m')
    in \<not> drift_banner json t \<and> ee_current t = ee_current s \<and> ee_locked t = ee_locked s
       \<and> drift_banner json u =
           (rm_resource_version m' \<noteq> rm_resource_version m \<and> describe_drift json p m' \<noteq> None)"
proof -
  let ?h = "s\<lparr>ee_dismissed := Some (rm_resource_version m)\<rparr>"
  let ?t = "settle json parse ?h"
  let ?g = "?t\<lparr>ee_meta := Some m'\<rparr>"
  have d: "dirty s" using assms(1) by (simp add: drift_banner_def)
  then have dt: "dirty ?t" by (simp add: dirty_def settle_buffer)
  have qh: "quiet json ?h" using d assms(4) by (simp add: quiet_def dirty_def)
  have pt: "ee_pristine_meta ?t = Some p" using settle_quiet_fields(3) [OF qh] assms(4) by simp
  have dg: "dirty ?g" using dt by (simp add: dirty_def)
  have "quiet json ?g" using dt pt by (simp add: quiet_def dirty_def)
  then have pu: "ee_pristine_meta (settle json parse ?g) = Some p"
    using settle_quiet_fields(3) pt by simp
  have t: "editor_step json parse s DriftDismissed = ?t"
    using assms(2,3) by (simp add: editor_step_def drift_dismiss_def)
  have u: "editor_step json parse ?t (MetaPolled m') = settle json parse ?g"
    using assms(2) by (simp add: editor_step_def)
  have "\<not> drift_banner json ?t" using assms(3) pt by (simp add: drift_banner_def drift_of_def)
  moreover have "drift_banner json (settle json parse ?g) =
      (rm_resource_version m' \<noteq> rm_resource_version m \<and> describe_drift json p m' \<noteq> None)"
    using pu dg by (auto simp: drift_banner_def drift_of_def)
  moreover have "ee_current ?t = ee_current s \<and> ee_locked ?t = ee_locked s"
    using settle_quiet_fields(1,2) [OF qh] by simp
  ultimately show ?thesis by (simp add: t u Let_def)
qed

text \<open>
  a refetch that the router's editor ignores. With a baseline of its own, as the router always
  gives one, a clean editor never shows the newer text: the drift is counted as handled and the
  refetch runs, but text and baseline stay, and no banner appears.
\<close>

theorem override_swallows_drift:
  assumes "\<not> dirty s" "ee_override s = Some (ee_locked s)" "\<not> ee_left s"
    "\<forall>e \<in> set es. from_server e"
  shows "let t = foldl (editor_step json parse) s es
    in ee_current t = ee_current s \<and> ee_locked t = ee_locked s \<and> \<not> drift_banner json t"
  using assms
proof (induction es arbitrary: s)
  case Nil
  then show ?case by (simp add: drift_banner_def)
next
  case (Cons e es)
  let ?t = "editor_step json parse s e"
  have t: "\<not> dirty ?t" "ee_override ?t = Some (ee_locked ?t)" "\<not> ee_left ?t"
    "ee_current ?t = ee_current s" "ee_locked ?t = ee_locked s"
    using Cons.prems by (cases e; simp add: editor_step_def settle_buffer dirty_def pristine_of_def)+
  then show ?case using Cons.IH [OF t(1-3)] Cons.prems by simp
qed

text \<open>
  the first metadata hides what happened before it. A write between the fetch of the text and
  the first answer of the metadata is part of the reference the detector compares with: no drift
  is seen, though the text is older.
\<close>

theorem first_metadata_is_the_reference:
  assumes "ee_meta s = None" "ee_pristine_meta s = None" "\<not> ee_left s"
  shows "drift_of json (editor_step json parse s (MetaPolled m)) = None"
proof -
  let ?g = "s\<lparr>ee_meta := Some m\<rparr>"
  have "ee_pristine_meta (render json parse ?g) = Some m"
    using assms by (simp add: render_def capture_effect_def refresh_effect_def swap_effect_def)
  then show ?thesis using assms
    by (simp add: editor_step_def settle_eq Let_def drift_of_def)
qed

section \<open>Leaving\<close>

text \<open>
  the escape key closes what is open, one thing per press, and never interrupts a request.
  While a request runs it changes nothing; otherwise the first press closes the patch drawer, the
  next the diff, and only when both are closed the editor is left.
\<close>

definition open_panels :: "editor \<Rightarrow> nat" where
  "open_panels s = of_bool (ee_patch s) + of_bool (ee_diff s)"

theorem escape_closes_one_thing:
  assumes "\<not> ee_left s" "quiet json s"
  shows "let t = editor_step json parse s (EscPressed busy)
    in ee_left t = (\<not> busy \<and> open_panels s = 0)
       \<and> open_panels t = (if busy then open_panels s else open_panels s - 1)
       \<and> (ee_diff s \<and> ee_patch s \<longrightarrow> ee_diff t) \<and> ee_current t = ee_current s"
proof -
  let ?h = "editor_handler s (EscPressed busy)"
  have p: "pristine_of ?h = pristine_of s" "dirty ?h = dirty s" "ee_current ?h = ee_current s"
    by (simp_all add: pristine_of_def dirty_def handler_defs split: option.splits)
  have "ee_current (settle json parse ?h) = ee_current s"
    unfolding settle_buffer(1) p using assms(2) by (auto simp: quiet_def dirty_def)
  then have "ee_current (editor_step json parse s (EscPressed busy)) = ee_current s"
    using assms(1) by (simp add: editor_step_def)
  then show ?thesis using assms(1) by (auto simp: editor_step_def open_panels_def Let_def handler_defs)
qed

text \<open>
  leaving needs no confirmation. Escape and the cancel button of the YAML editor drop unsaved
  text without a question, also where the router's comment says that cancelling still confirms.
\<close>

theorem escape_drops_unsaved_text:
  assumes "\<not> ee_left s" "dirty s" "\<not> ee_patch s" "\<not> ee_diff s"
  shows "ee_left (editor_step json parse s (EscPressed False))
    \<and> ee_left (editor_step json parse s CancelClicked)"
  using assms by (simp add: editor_step_def handler_defs)

section \<open>One buffer for two modes\<close>

definition router_ok :: "router \<Rightarrow> bool" where
  "router_ok s =
     (case kr_mode s of
        FormMode \<Rightarrow> kr_editor s = None
      | YamlMode \<Rightarrow>
          (\<exists>ed. kr_editor s = Some ed \<and> ee_current ed = kr_draft s
             \<and> ee_override ed = Some (kr_baseline s) \<and> ee_left ed = kr_left s))"

lemma open_editor_fields [simp]:
  "ee_override (open_editor f i b) = b" "ee_left (open_editor f i b) = False"
  "ee_current (open_editor f (Some v) b) = v"
  "ee_locked (open_editor f i (Some w)) = w" "ee_meta (open_editor f i b) = None"
  "pristine_of (open_editor f i (Some w)) = w"
  by (simp_all add: open_editor_def Let_def pristine_of_def)

lemma opened_on_draft:
  "ee_current (settle json parse (open_editor f (Some v) (Some w))) = v"
  by (simp add: settle_buffer dirty_def)

lemma mount_ok: "router_ok s \<Longrightarrow> \<not> kr_left s \<Longrightarrow> router_ok (mount_mode json parse m s)"
  by (cases m; cases "kr_mode s") (auto simp: mount_mode_def router_ok_def opened_on_draft)

lemma mount_keeps [simp]:
  "kr_draft (mount_mode json parse m s) = kr_draft s"
  "kr_baseline (mount_mode json parse m s) = kr_baseline s"
  "kr_left (mount_mode json parse m s) = kr_left s"
  "kr_mode (mount_mode json parse m s) = m"
  by (simp_all add: mount_mode_def)

lemma handler_override:
  "(case e of BaselineChanged b \<Rightarrow> False | _ \<Rightarrow> True) \<Longrightarrow> ee_override (editor_handler s e) = ee_override s"
  by (cases e) (auto simp: handler_defs split: option.splits)

lemma in_editor_ok:
  assumes "router_ok s" "\<not> kr_left s" "case e of BaselineChanged b \<Rightarrow> False | _ \<Rightarrow> True"
  shows "router_ok (in_editor json parse e s)"
  using assms handler_override [OF assms(3)]
  by (cases "kr_mode s") (auto simp: in_editor_def router_ok_def Let_def editor_step_def)

lemma baseline_ok:
  assumes "router_ok s" "\<not> kr_left s"
  shows "router_ok (in_editor json parse (BaselineChanged b) (s\<lparr>kr_baseline := b\<rparr>))"
  using assms by (cases "kr_mode s") (auto simp: in_editor_def router_ok_def Let_def editor_step_def)

lemma router_step_ok: "router_ok s \<Longrightarrow> router_ok (router_step json parse s e)"
proof (cases "kr_left s")
  case False
  assume ok: "router_ok s"
  have "router_ok (router_handler json parse s e)"
  proof (cases e)
    case (ModePicked m)
    then show ?thesis using mount_ok [OF ok False] by simp
  next
    case (FormEdited t)
    then show ?thesis using ok by (auto simp: router_ok_def split: edit_mode.splits)
  next
    case (FormCommitted b)
    then show ?thesis using baseline_ok [OF ok False] by simp
  next
    case (FormCancelled c)
    then show ?thesis using ok by (auto simp: router_ok_def split: edit_mode.splits)
  next
    case (InEditor ee)
    then show ?thesis using ok in_editor_ok [OF ok False] by (cases ee) simp_all
  next
    case (RouterFetched y)
    have "router_ok (s\<lparr>kr_fetched := y\<rparr>)" using ok by (simp add: router_ok_def split: edit_mode.splits)
    then show ?thesis using in_editor_ok [of "s\<lparr>kr_fetched := y\<rparr>" "YamlFetched y"] False RouterFetched by simp
  qed
  then show ?thesis using False by (simp add: router_step_def)
qed (simp add: router_step_def)

lemma router_reach: "router_ok (foldl (router_step json parse) (open_router json parse f stored) es)"
proof (induction es rule: rev_induct)
  case Nil
  have "router_ok \<lparr>kr_fetched = f, kr_mode = FormMode, kr_draft = f, kr_baseline = f, kr_editor = None, kr_left = False\<rparr>"
    by (simp add: router_ok_def)
  then show ?case unfolding open_router_def using mount_ok by simp
qed (simp add: router_step_ok)

lemma toggles_keep:
  "router_ok s \<Longrightarrow> kr_draft (foldl (router_step json parse) s (map ModePicked ms)) = kr_draft s
    \<and> kr_baseline (foldl (router_step json parse) s (map ModePicked ms)) = kr_baseline s
    \<and> router_ok (foldl (router_step json parse) s (map ModePicked ms))"
proof (induction ms arbitrary: s)
  case (Cons m ms)
  have "router_ok (router_step json parse s (ModePicked m))" by (rule router_step_ok [OF Cons.prems])
  then show ?case using Cons.IH by (simp add: router_step_def)
qed simp

lemma router_ok_editor:
  "router_ok s \<Longrightarrow> map_option ee_current (kr_editor s) = (if kr_mode s = YamlMode then Some (kr_draft s) else None)"
  by (cases "kr_mode s") (auto simp: router_ok_def)

text \<open>
  C35: a change of mode loses nothing. Whatever happened since the router opened, picking modes any
  number of times leaves the draft and the baseline as they were, and exactly the YAML mode has a
  text editor, which shows the draft.
\<close>

theorem mode_toggles_carry_the_draft:
  "let s = foldl (router_step json parse) (open_router json parse f stored) es;
       t = foldl (router_step json parse) s (map ModePicked ms)
   in kr_draft t = kr_draft s \<and> kr_baseline t = kr_baseline s
      \<and> map_option ee_current (kr_editor t) = (if kr_mode t = YamlMode then Some (kr_draft t) else None)"
  using toggles_keep [OF router_reach] router_ok_editor by (simp add: Let_def)

section \<open>Identity and schema\<close>

definition plain_address :: "string \<Rightarrow> gvk \<Rightarrow> string option \<Rightarrow> string \<Rightarrow> bool" where
  "plain_address cluster g ns name =
     (list_all (\<lambda>s. CHR ''/'' \<notin> set s) [cluster, gk_group g, gk_version g, gk_kind g, str_or_empty ns, name]
      \<and> gk_group g \<noteq> ''core'' \<and> ns \<noteq> Some ''_cluster'')"

lemma model_uri_pieces:
  assumes "plain_address cluster g ns name"
  shows "split_on (CHR ''/'') (drop 13 (model_uri cluster g ns name)) =
    [cluster, if gk_group g \<noteq> [] then gk_group g else ''core'', gk_version g, gk_kind g,
     case ns of None \<Rightarrow> ''_cluster'' | Some n \<Rightarrow> n, name @ ''.yaml'']"
proof -
  have sl: "CHR ''/'' \<notin> set cluster" "CHR ''/'' \<notin> set (gk_group g)" "CHR ''/'' \<notin> set (gk_version g)"
    "CHR ''/'' \<notin> set (gk_kind g)" "CHR ''/'' \<notin> set (str_or_empty ns)" "CHR ''/'' \<notin> set name"
    using assms by (simp_all add: plain_address_def)
  then have ns: "CHR ''/'' \<notin> set (case ns of None \<Rightarrow> ''_cluster'' | Some n \<Rightarrow> n)"
    by (cases ns) (simp_all add: str_or_empty_def)
  have "drop 13 (model_uri cluster g ns name) =
      cluster @ CHR ''/'' # (if gk_group g \<noteq> [] then gk_group g else ''core'') @ CHR ''/'' #
      gk_version g @ CHR ''/'' # gk_kind g @ CHR ''/'' #
      (case ns of None \<Rightarrow> ''_cluster'' | Some n \<Rightarrow> n) @ CHR ''/'' # (name @ ''.yaml'')"
    by (simp add: model_uri_def)
  then show ?thesis using sl ns by (simp add: split_on_no_sep split_on_id)
qed

text \<open>
  the model of an editor is its own. Two resources whose names hold no slash, whose group is
  not literally ``core'' and whose namespace is not the mark of the cluster scope have the same
  model address exactly when they are the same resource of the same cluster.
\<close>

theorem model_address_is_unique:
  assumes "plain_address c g ns n" "plain_address c' g' ns' n'"
  shows "(model_uri c g ns n = model_uri c' g' ns' n') = (c = c' \<and> g = g' \<and> ns = ns' \<and> n = n')"
proof
  assume "model_uri c g ns n = model_uri c' g' ns' n'"
  then have e: "c = c'" "gk_version g = gk_version g'" "gk_kind g = gk_kind g'" "n = n'"
    "(if gk_group g \<noteq> [] then gk_group g else ''core'') = (if gk_group g' \<noteq> [] then gk_group g' else ''core'')"
    "(case ns of None \<Rightarrow> ''_cluster'' | Some n \<Rightarrow> n) = (case ns' of None \<Rightarrow> ''_cluster'' | Some n \<Rightarrow> n)"
    using model_uri_pieces [OF assms(1)] model_uri_pieces [OF assms(2)] by simp_all
  have "gk_group g = gk_group g'" using e(5) assms(1,2) by (auto simp: plain_address_def split: if_splits)
  moreover have "ns = ns'" using e(6) assms(1,2) by (auto simp: plain_address_def split: option.splits)
  ultimately show "c = c' \<and> g = g' \<and> ns = ns' \<and> n = n'" using e(1-4) by (simp add: gvk.equality)
qed simp

lemma model_address_is_unique_witness:
  "let g = \<lparr>gk_group = ''apps'', gk_version = ''v1'', gk_kind = ''Deployment''\<rparr>
   in model_uri ''prod'' g (Some ''web'') ''api'' \<noteq> model_uri ''prod'' g (Some ''web'') ''api2''"
proof -
  let ?g = "\<lparr>gk_group = ''apps'', gk_version = ''v1'', gk_kind = ''Deployment''\<rparr>"
  have p: "plain_address ''prod'' ?g (Some ''web'') ''api''" "plain_address ''prod'' ?g (Some ''web'') ''api2''"
    by (simp_all add: plain_address_def str_or_empty_def)
  show ?thesis using model_address_is_unique [OF p] by (simp add: Let_def)
qed

text \<open>
  the schema registered for an editor is one of its document and binds its model only. The
  reference of the configuration names an entry of the schemas whose extension lists exactly the
  editor's group, version and kind, no earlier entry lists it, and the only model matched is the
  editor's.
\<close>

theorem schema_config_resolves:
  assumes "build_schema_config doc g uri = Some (u, files, schema)"
  shows "files = [uri] \<and>
    (\<exists>pre name entry post cands.
       own_entries (opt_prop (get_prop doc ''components'') ''schemas'') = pre @ (name, entry) # post
       \<and> get_prop schema ''$ref'' = JStr (''#/components/schemas/'' @ name)
       \<and> get_prop entry ''x-kubernetes-group-version-kind'' = JArr cands \<and> list_ex (gvk_matches g) cands
       \<and> list_all (\<lambda>(n, e). case get_prop e ''x-kubernetes-group-version-kind'' of
             JArr cs \<Rightarrow> \<not> list_ex (gvk_matches g) cs | _ \<Rightarrow> True) pre)"
proof -
  obtain name entry where f: "find_schema_for_gvk doc g = Some (name, entry)" and fs: "files = [uri]"
    and sc: "schema = JObj [(''$ref'', JStr (''#/components/schemas/'' @ name)),
                (''components'', get_prop doc ''components'')]"
    using assms by (auto simp: build_schema_config_def)
  let ?P = "\<lambda>(n, e). case get_prop e ''x-kubernetes-group-version-kind'' of
      JArr cs \<Rightarrow> list_ex (gvk_matches g) cs | _ \<Rightarrow> False"
  let ?es = "own_entries (opt_prop (get_prop doc ''components'') ''schemas'')"
  have find: "find ?P ?es = Some (name, entry)"
    using f by (simp add: find_schema_for_gvk_def Let_def split: if_splits)
  then obtain i where i: "i < length ?es" "?P (?es ! i)" "(name, entry) = ?es ! i" "\<forall>j<i. \<not> ?P (?es ! j)"
    by (auto simp: find_Some_iff)
  have split: "?es = take i ?es @ (name, entry) # drop (Suc i) ?es"
    using i(1,3) by (metis id_take_nth_drop)
  have pre: "list_all (\<lambda>(n, e). case get_prop e ''x-kubernetes-group-version-kind'' of
             JArr cs \<Rightarrow> \<not> list_ex (gvk_matches g) cs | _ \<Rightarrow> True) (take i ?es)"
    using i(1,4) by (auto simp: list_all_length split: prod.splits jsval.splits)
  have "?P (name, entry)" using i(2,3) by simp
  then obtain cands where "get_prop entry ''x-kubernetes-group-version-kind'' = JArr cands"
    "list_ex (gvk_matches g) cands" by (auto split: jsval.splits)
  moreover have "get_prop schema ''$ref'' = JStr (''#/components/schemas/'' @ name)"
    by (simp add: sc get_prop_def)
  ultimately show ?thesis using fs split pre by blast
qed

section \<open>Who else manages the object\<close>

definition paths_of :: "string \<Rightarrow> field_owner list \<Rightarrow> nat" where
  "paths_of m owners = length (filter (\<lambda>f. fo_manager f = m) owners)"

lemma other_counts_snoc:
  "other_counts (owners @ [f]) =
     (if fo_manager f = periscope_manager then other_counts owners
      else AList.update (fo_manager f)
             ((case map_of (other_counts owners) (fo_manager f) of None \<Rightarrow> 0 | Some n \<Rightarrow> n) + 1)
             (other_counts owners))"
  by (simp add: other_counts_def)

lemma distinct_other_counts: "distinct (map fst (other_counts owners))"
  by (induction owners rule: rev_induct) (simp add: other_counts_def, simp add: other_counts_snoc distinct_update)

lemma map_of_other_counts:
  "map_of (other_counts owners) m =
     (if m = periscope_manager \<or> paths_of m owners = 0 then None else Some (paths_of m owners))"
proof (induction owners rule: rev_induct)
  case Nil
  then show ?case by (simp add: other_counts_def paths_of_def)
next
  case (snoc f owners)
  then show ?case by (auto simp: other_counts_snoc update_conv paths_of_def)
qed

text \<open>
  the banner of co-managers counts right. Each foreign manager that owns a field is listed
  once, with the number of the fields it owns, and this console's own manager never; the list is
  in descending order of those counts, and the banner names its first three and the number of the
  others.
\<close>

theorem co_managers_are_counted:
  "map_of (other_owners owners) m =
     (if m = periscope_manager \<or> paths_of m owners = 0 then None else Some (paths_of m owners))
   \<and> distinct (map fst (other_owners owners))
   \<and> sorted (map (\<lambda>p. - int (snd p)) (other_owners owners))
   \<and> length (fst (banner_managers (other_owners owners))) + snd (banner_managers (other_owners owners))
       = length (other_owners owners)
   \<and> length (fst (banner_managers (other_owners owners))) \<le> 3"
proof -
  have d: "distinct (map fst (other_owners owners))"
  proof -
    have "mset (map fst (other_owners owners)) = mset (map fst (other_counts owners))"
      by (simp add: other_owners_def)
    then show ?thesis using distinct_other_counts mset_eq_imp_distinct_iff by blast
  qed
  have "map_of (other_owners owners) m = map_of (other_counts owners) m"
    using map_of_eq_Some_iff [OF d] map_of_eq_Some_iff [OF distinct_other_counts [of owners]]
    by (intro option.expand) (auto simp: other_owners_def, (metis not_None_eq set_sort)+)
  then show ?thesis using d
    by (simp add: map_of_other_counts other_owners_def banner_managers_def Let_def)
qed

end
