(* ===== verification/ExecClient.thy ===== *)
theory ExecClient
  imports Prelude
begin

text \<open>
  Model of \<open>web/src/exec/ExecClient.ts\<close>: the client of the pod-exec WebSocket with its
  reconnect supervisor. Every socket the client has opened stays wired to its handlers, so the
  state keeps them all, oldest first; the last one is \<open>this.ws\<close>. The browser delivers messages
  only to an open socket and one close event per socket. Calls of the registered listeners are
  kept as a log. Control frames are decoded to the shapes declared in \<open>exec/types.ts\<close>.
\<close>

section \<open>Wire types\<close>

datatype session_status = SConnecting | SConnected | SReconnecting | SClosed | SError

record hello_frame =
  hf_sessionId :: string
  hf_container :: string

record closed_frame =
  cf_reason :: "string option"
  cf_exitCode :: "int option"

record error_frame =
  ef_code :: string
  ef_message :: string
  ef_retryable :: "bool option"
  ef_category :: "string option"
  ef_cluster :: "string option"
  ef_traceId :: "string option"
  ef_detail :: "string option"

datatype inbound_frame =
    FHello hello_frame
  | FClosed closed_frame
  | FError error_frame
  | FIdleWarn int
  | FUnknown

datatype outbound_frame =
    OResize int int
  | OClose
  | OStdin string

datatype ready_state = WsConnecting | WsOpen | WsClosing | WsClosed

datatype message = MBinary string | MText "inbound_frame option"

text \<open>What the listeners are told.\<close>

datatype exec_note =
    NStatus session_status
  | NStdout string
  | NHello hello_frame
  | NClosed closed_frame
  | NError error_frame
  | NIdleWarn int
  | NReconnect nat nat

section \<open>State\<close>

definition reconnect_backoff_ms :: "nat list" where
  "reconnect_backoff_ms = [0, 1000, 3000, 8000]"

definition max_attempts :: nat where
  "max_attempts = length reconnect_backoff_ms"

record exec_client =
  ex_sockets :: "ready_state list"
  ex_status :: session_status
  ex_session :: string
  ex_container :: string
  ex_exit_code :: "int option"
  ex_close_reason :: "string option"
  ex_error_code :: "string option"
  ex_error_message :: "string option"
  ex_user_close :: bool
  ex_terminal :: bool
  ex_attempt :: nat
  ex_count :: nat
  ex_timer :: "nat option"
  ex_resize_timer :: bool
  ex_pending_resize :: "(int \<times> int) option"
  ex_sent :: "(nat \<times> outbound_frame) list"
  ex_log :: "exec_note list"

text \<open>\<open>ex_timer\<close> is the delay of the pending reconnect timer.\<close>

definition new_exec_client :: exec_client where
  "new_exec_client =
     \<lparr>ex_sockets = [WsConnecting], ex_status = SConnecting, ex_session = [], ex_container = [],
      ex_exit_code = None, ex_close_reason = None, ex_error_code = None, ex_error_message = None,
      ex_user_close = False, ex_terminal = False, ex_attempt = 0, ex_count = 0, ex_timer = None,
      ex_resize_timer = False, ex_pending_resize = None, ex_sent = [], ex_log = []\<rparr>"

definition current_socket :: "exec_client \<Rightarrow> nat" where
  "current_socket s = length (ex_sockets s) - 1"

definition ready_state :: "exec_client \<Rightarrow> ready_state" where
  "ready_state s = (if ex_sockets s = [] then WsClosed else last (ex_sockets s))"

definition note_that :: "exec_note \<Rightarrow> exec_client \<Rightarrow> exec_client" where
  "note_that n s = s\<lparr>ex_log := ex_log s @ [n]\<rparr>"

definition transition :: "session_status \<Rightarrow> exec_client \<Rightarrow> exec_client" where
  "transition nxt s =
     (if ex_status s = nxt then s else note_that (NStatus nxt) (s\<lparr>ex_status := nxt\<rparr>))"

section \<open>Outgoing\<close>

definition send_frame :: "outbound_frame \<Rightarrow> exec_client \<Rightarrow> exec_client" where
  "send_frame f s = s\<lparr>ex_sent := ex_sent s @ [(current_socket s, f)]\<rparr>"

definition send_stdin :: "string \<Rightarrow> exec_client \<Rightarrow> exec_client" where
  "send_stdin bytes s = (if ready_state s \<noteq> WsOpen then s else send_frame (OStdin bytes) s)"

definition send_resize :: "int \<Rightarrow> int \<Rightarrow> exec_client \<Rightarrow> exec_client" where
  "send_resize cols rows s =
     (if cols \<le> 0 \<or> rows \<le> 0 then s
      else s\<lparr>ex_pending_resize := Some (cols, rows), ex_resize_timer := True\<rparr>)"

definition on_resize_timer :: "exec_client \<Rightarrow> exec_client" where
  "on_resize_timer s =
     (let r = ex_pending_resize s;
          s1 = s\<lparr>ex_resize_timer := False, ex_pending_resize := None\<rparr>
      in case r of
           None \<Rightarrow> s1
         | Some (cols, rows) \<Rightarrow>
             if ready_state s1 \<noteq> WsOpen then s1 else send_frame (OResize cols rows) s1)"

definition cancel_reconnect_timer :: "exec_client \<Rightarrow> exec_client" where
  "cancel_reconnect_timer s = s\<lparr>ex_timer := None\<rparr>"

definition closing_socket :: "exec_client \<Rightarrow> exec_client" where
  "closing_socket s = s\<lparr>ex_sockets := (ex_sockets s)[current_socket s := WsClosing]\<rparr>"

definition close_client :: "exec_client \<Rightarrow> exec_client" where
  "close_client s =
     (let s1 = cancel_reconnect_timer (s\<lparr>ex_user_close := True, ex_terminal := True\<rparr>);
          s2 = (if ready_state s1 = WsOpen then closing_socket (send_frame OClose s1)
                else if ready_state s1 = WsConnecting then closing_socket s1
                else s1)
      in transition SClosed s2)"

section \<open>Reconnect\<close>

definition attempt_reconnect :: "exec_client \<Rightarrow> exec_client" where
  "attempt_reconnect s =
     transition SConnecting
       (s\<lparr>ex_attempt := ex_attempt s + 1, ex_sockets := ex_sockets s @ [WsConnecting]\<rparr>)"

definition schedule_reconnect :: "exec_client \<Rightarrow> exec_client" where
  "schedule_reconnect s =
     (if max_attempts \<le> ex_attempt s
      then transition SError
             (s\<lparr>ex_terminal := True, ex_error_code := Some ''E_RECONNECT_FAILED'',
                ex_error_message :=
                  Some (''couldn't reconnect after '' @ show_nat max_attempts @ '' attempts'')\<rparr>)
      else let delay = reconnect_backoff_ms ! ex_attempt s;
               s1 = note_that (NReconnect (ex_attempt s + 1) max_attempts) (transition SReconnecting s)
           in s1\<lparr>ex_timer := Some delay\<rparr>)"

definition reconnect_now :: "exec_client \<Rightarrow> exec_client" where
  "reconnect_now s =
     (if ex_status s \<noteq> SReconnecting then s else attempt_reconnect (cancel_reconnect_timer s))"

definition or_else :: "'a option \<Rightarrow> 'a \<Rightarrow> 'a option" where
  "or_else a b = (case a of None \<Rightarrow> Some b | Some x \<Rightarrow> Some x)"

definition give_up :: "exec_client \<Rightarrow> exec_client" where
  "give_up s =
     (let s1 = cancel_reconnect_timer s
      in transition SError
           (s1\<lparr>ex_terminal := True,
               ex_error_code := or_else (ex_error_code s1) ''E_RECONNECT_GAVE_UP'',
               ex_error_message := or_else (ex_error_message s1) ''you stopped reconnect attempts''\<rparr>))"

section \<open>Socket events\<close>

definition on_hello :: "hello_frame \<Rightarrow> exec_client \<Rightarrow> exec_client" where
  "on_hello f s =
     (let s1 = s\<lparr>ex_session := hf_sessionId f, ex_container := hf_container f\<rparr>;
          s2 = (if 0 < ex_attempt s1 then s1\<lparr>ex_count := ex_count s1 + 1, ex_attempt := 0\<rparr> else s1)
      in note_that (NHello f) (transition SConnected s2))"

definition on_frame :: "inbound_frame \<Rightarrow> exec_client \<Rightarrow> exec_client" where
  "on_frame frame s =
     (case frame of
        FHello f \<Rightarrow> on_hello f s
      | FClosed f \<Rightarrow>
          note_that (NClosed f)
            (transition SClosed
               (s\<lparr>ex_exit_code := cf_exitCode f, ex_close_reason := cf_reason f, ex_terminal := True\<rparr>))
      | FError f \<Rightarrow>
          (let s1 = s\<lparr>ex_error_code := Some (ef_code f), ex_error_message := Some (ef_message f)\<rparr>;
               s2 = (if ef_retryable f \<noteq> Some True then s1\<lparr>ex_terminal := True\<rparr> else s1)
           in note_that (NError f) (transition SError s2))
      | FIdleWarn n \<Rightarrow> note_that (NIdleWarn n) s
      | FUnknown \<Rightarrow> s)"

definition on_message :: "message \<Rightarrow> exec_client \<Rightarrow> exec_client" where
  "on_message m s =
     (case m of
        MBinary bytes \<Rightarrow> note_that (NStdout bytes) s
      | MText None \<Rightarrow> s
      | MText (Some frame) \<Rightarrow> on_frame frame s)"

definition on_close :: "string \<Rightarrow> exec_client \<Rightarrow> exec_client" where
  "on_close reason s =
     (if ex_terminal s
      then (if ex_status s \<noteq> SClosed \<and> ex_status s \<noteq> SError then transition SClosed s else s)
      else if ex_user_close s then transition SClosed s
      else schedule_reconnect
             (s\<lparr>ex_close_reason := Some (if reason \<noteq> [] then reason else ''transport_close'')\<rparr>))"

definition on_transport_error :: "exec_client \<Rightarrow> exec_client" where
  "on_transport_error s =
     (if ex_status s = SConnecting \<and> ex_attempt s = 0
      then s\<lparr>ex_error_code := or_else (ex_error_code s) ''E_TRANSPORT'',
             ex_error_message := or_else (ex_error_message s) ''couldn't reach the backend''\<rparr>
      else s)"

section \<open>The machine\<close>

datatype exec_event =
    WsOpened nat
  | WsMessage nat message
  | WsClosedEv nat string
  | WsErrorEv nat
  | ReconnectTimer
  | ResizeTimer
  | CallStdin string
  | CallResize int int
  | CallClose
  | CallReconnectNow
  | CallGiveUp

definition set_socket :: "nat \<Rightarrow> ready_state \<Rightarrow> exec_client \<Rightarrow> exec_client" where
  "set_socket i r s = s\<lparr>ex_sockets := (ex_sockets s)[i := r]\<rparr>"

definition socket_is :: "nat \<Rightarrow> ready_state set \<Rightarrow> exec_client \<Rightarrow> bool" where
  "socket_is i rs s = (i < length (ex_sockets s) \<and> ex_sockets s ! i \<in> rs)"

fun exec_step :: "exec_client \<Rightarrow> exec_event \<Rightarrow> exec_client" where
  "exec_step s (WsOpened i) = (if socket_is i {WsConnecting} s then set_socket i WsOpen s else s)"
| "exec_step s (WsMessage i m) = (if socket_is i {WsOpen} s then on_message m s else s)"
| "exec_step s (WsClosedEv i reason) =
     (if socket_is i {WsConnecting, WsOpen, WsClosing} s
      then on_close reason (set_socket i WsClosed s) else s)"
| "exec_step s (WsErrorEv i) =
     (if socket_is i {WsConnecting, WsOpen, WsClosing} s then on_transport_error s else s)"
| "exec_step s ReconnectTimer =
     (if ex_timer s \<noteq> None then attempt_reconnect (s\<lparr>ex_timer := None\<rparr>) else s)"
| "exec_step s ResizeTimer = (if ex_resize_timer s then on_resize_timer s else s)"
| "exec_step s (CallStdin bytes) = send_stdin bytes s"
| "exec_step s (CallResize cols rows) = send_resize cols rows s"
| "exec_step s CallClose = close_client s"
| "exec_step s CallReconnectNow = reconnect_now s"
| "exec_step s CallGiveUp = give_up s"

definition exec_run :: "exec_event list \<Rightarrow> exec_client" where
  "exec_run es = foldl exec_step new_exec_client es"

end
