(* ===== verification/ExecSafety.thy ===== *)
theory ExecSafety
  imports ExecClient
begin

text \<open>
  Correctness of the exec client: the invariant of its sockets, timer and status, the bound on
  reconnects, and what closing a session guarantees.
\<close>

section \<open>The invariant\<close>

text \<open>
  All sockets but the last are closed. While reconnecting, the session is not terminal, the
  last socket is closed too and the timer with the delay of the attempt is pending; otherwise
  no timer is pending, and a closed last socket means the session is over.
\<close>

definition sockets_ok :: "ready_state list \<Rightarrow> bool" where
  "sockets_ok ss \<longleftrightarrow> ss \<noteq> [] \<and> set (butlast ss) \<subseteq> {WsClosed}"

definition supervisor_ok ::
  "session_status \<Rightarrow> bool \<Rightarrow> nat option \<Rightarrow> nat \<Rightarrow> bool \<Rightarrow> ready_state \<Rightarrow> bool" where
  "supervisor_ok st terminal timer attempt uclose l \<longleftrightarrow>
     attempt \<le> 4 \<and> (uclose \<longrightarrow> terminal) \<and> (l = WsClosing \<longrightarrow> terminal) \<and>
     (if st = SReconnecting
      then \<not> terminal \<and> l = WsClosed \<and> attempt < 4 \<and> timer = Some (reconnect_backoff_ms ! attempt)
      else timer = None \<and> (l = WsClosed \<longrightarrow> terminal))"

definition exec_inv :: "exec_client \<Rightarrow> bool" where
  "exec_inv s \<longleftrightarrow> sockets_ok (ex_sockets s) \<and>
     supervisor_ok (ex_status s) (ex_terminal s) (ex_timer s) (ex_attempt s) (ex_user_close s)
       (last (ex_sockets s))"

lemma max_attempts_4 [simp]: "max_attempts = 4"
  by (simp add: max_attempts_def reconnect_backoff_ms_def)

lemma transition_fields [simp]:
  "ex_status (transition n s) = n" "ex_sockets (transition n s) = ex_sockets s"
  "ex_terminal (transition n s) = ex_terminal s" "ex_timer (transition n s) = ex_timer s"
  "ex_attempt (transition n s) = ex_attempt s" "ex_user_close (transition n s) = ex_user_close s"
  "ex_sent (transition n s) = ex_sent s" "ex_count (transition n s) = ex_count s"
  "ex_error_code (transition n s) = ex_error_code s"
  by (auto simp: transition_def note_that_def)

lemma note_fields [simp]:
  "ex_status (note_that n s) = ex_status s" "ex_sockets (note_that n s) = ex_sockets s"
  "ex_terminal (note_that n s) = ex_terminal s" "ex_timer (note_that n s) = ex_timer s"
  "ex_attempt (note_that n s) = ex_attempt s" "ex_user_close (note_that n s) = ex_user_close s"
  "ex_sent (note_that n s) = ex_sent s" "ex_error_code (note_that n s) = ex_error_code s"
  by (simp_all add: note_that_def)

lemma live_socket_last:
  assumes "sockets_ok ss" "i < length ss" "ss ! i \<noteq> WsClosed"
  shows "i = length ss - 1"
proof (rule ccontr)
  assume "i \<noteq> length ss - 1"
  then have "ss ! i \<in> set (butlast ss)" using assms(2)
    by (metis (no_types, lifting) Suc_pred diff_Suc_1 length_butlast less_Suc_eq nth_butlast nth_mem
        length_greater_0_conv list.size(3) not_less0)
  then show False using assms(1,3) by (auto simp: sockets_ok_def)
qed

lemma update_last: "ss \<noteq> [] \<Longrightarrow> ss[length ss - Suc 0 := r] = butlast ss @ [r]"
  by (metis One_nat_def append_butlast_last_id length_butlast list_update_length)

lemma live_socket:
  assumes "exec_inv s" "socket_is i rs s" "WsClosed \<notin> rs"
  shows "last (ex_sockets s) \<in> rs \<and> ex_sockets (set_socket i r s) = butlast (ex_sockets s) @ [r]"
proof -
  have ok: "sockets_ok (ex_sockets s)" and i: "i < length (ex_sockets s)" "ex_sockets s ! i \<in> rs"
    using assms(1,2) by (auto simp: exec_inv_def socket_is_def)
  then have "i = length (ex_sockets s) - 1"
    using live_socket_last [OF ok i(1)] assms(3) i(2) by metis
  moreover have "ex_sockets s \<noteq> []" using ok by (simp add: sockets_ok_def)
  ultimately show ?thesis using i(2) by (simp add: set_socket_def update_last last_conv_nth)
qed

lemma set_socket_fields [simp]:
  "ex_status (set_socket i r s) = ex_status s" "ex_terminal (set_socket i r s) = ex_terminal s"
  "ex_timer (set_socket i r s) = ex_timer s" "ex_attempt (set_socket i r s) = ex_attempt s"
  "ex_user_close (set_socket i r s) = ex_user_close s" "ex_sent (set_socket i r s) = ex_sent s"
  by (simp_all add: set_socket_def)

lemma sockets_ok_replace: "sockets_ok ss \<Longrightarrow> sockets_ok (butlast ss @ [r])"
  by (simp add: sockets_ok_def)

lemma sockets_ok_new: "sockets_ok ss \<Longrightarrow> last ss = WsClosed \<Longrightarrow> sockets_ok (ss @ [WsConnecting])"
  unfolding sockets_ok_def
  by (metis append_butlast_last_id append_is_Nil_conv butlast_snoc empty_subsetI insert_subset
      list.simps(15) set_append Un_subset_iff list.set(1) insertI1)

lemmas exec_handlers = on_message_def on_frame_def on_hello_def on_close_def schedule_reconnect_def
  on_transport_error_def attempt_reconnect_def on_resize_timer_def send_stdin_def send_resize_def
  close_client_def reconnect_now_def give_up_def cancel_reconnect_timer_def send_frame_def
  closing_socket_def current_socket_def ready_state_def set_socket_def Let_def

lemma inv_opened: "exec_inv s \<Longrightarrow> exec_inv (exec_step s (WsOpened i))"
  using live_socket [of s i "{WsConnecting}" WsOpen]
  by (auto simp: exec_inv_def supervisor_ok_def sockets_ok_replace)

lemma supervisor_open:
  "supervisor_ok st terminal timer attempt uclose WsOpen \<Longrightarrow> st \<noteq> SReconnecting \<and> timer = None"
  by (auto simp: supervisor_ok_def split: if_splits)

lemma inv_on_frame: "exec_inv s \<Longrightarrow> last (ex_sockets s) = WsOpen \<Longrightarrow> exec_inv (on_frame f s)"
  by (cases f)
     (auto simp: exec_inv_def on_frame_def on_hello_def Let_def supervisor_ok_def split: if_splits)

lemma inv_message: "exec_inv s \<Longrightarrow> exec_inv (exec_step s (WsMessage i m))"
proof (cases "socket_is i {WsOpen} s")
  case True
  assume inv: "exec_inv s"
  have l: "last (ex_sockets s) = WsOpen" using live_socket [OF inv True] by simp
  have "exec_inv (on_message m s)"
  proof (cases m)
    case (MText f)
    then show ?thesis using inv inv_on_frame [OF inv l] by (cases f) (simp_all add: on_message_def)
  qed (use inv in \<open>simp add: on_message_def exec_inv_def\<close>)
  then show ?thesis using True by simp
qed simp

lemma inv_closed: "exec_inv s \<Longrightarrow> exec_inv (exec_step s (WsClosedEv i r))"
proof (cases "socket_is i {WsConnecting, WsOpen, WsClosing} s")
  case True
  assume inv: "exec_inv s"
  have l: "last (ex_sockets s) \<noteq> WsClosed"
      "ex_sockets (set_socket i WsClosed s) = butlast (ex_sockets s) @ [WsClosed]"
    using live_socket [OF inv True] by auto
  have "exec_inv (on_close r (set_socket i WsClosed s))"
    using inv l
    by (simp add: exec_inv_def on_close_def schedule_reconnect_def Let_def supervisor_ok_def
        sockets_ok_replace split: if_splits)
  then show ?thesis using True by simp
qed simp

lemma inv_attempt:
  "exec_inv s \<Longrightarrow> ex_status s = SReconnecting \<Longrightarrow>
   exec_inv (attempt_reconnect (s\<lparr>ex_timer := None\<rparr>))"
  by (auto simp: exec_inv_def attempt_reconnect_def supervisor_ok_def sockets_ok_new)

lemma inv_close_client: "exec_inv s \<Longrightarrow> exec_inv (close_client s)"
proof -
  assume inv: "exec_inv s"
  then have "ex_sockets s \<noteq> []" by (simp add: exec_inv_def sockets_ok_def)
  then show ?thesis using inv
    by (cases "last (ex_sockets s)")
       (auto simp: exec_inv_def close_client_def closing_socket_def send_frame_def ready_state_def
         cancel_reconnect_timer_def current_socket_def Let_def update_last sockets_ok_replace
         supervisor_ok_def)
qed

lemma inv_give_up: "exec_inv s \<Longrightarrow> exec_inv (give_up s)"
  by (simp add: exec_inv_def give_up_def cancel_reconnect_timer_def Let_def supervisor_ok_def
      split: if_splits)

lemma inv_exec_step: "exec_inv s \<Longrightarrow> exec_inv (exec_step s e)"
proof (cases e)
  case ReconnectTimer
  assume inv: "exec_inv s"
  have "ex_timer s \<noteq> None \<Longrightarrow> ex_status s = SReconnecting"
    using inv by (auto simp: exec_inv_def supervisor_ok_def split: if_splits)
  then show ?thesis using inv_attempt [OF inv] inv ReconnectTimer by auto
next
  case CallReconnectNow
  assume inv: "exec_inv s"
  then show ?thesis using inv_attempt [OF inv] CallReconnectNow
    by (simp add: reconnect_now_def cancel_reconnect_timer_def)
next
  case (WsErrorEv i)
  assume "exec_inv s"
  then show ?thesis using WsErrorEv by (auto simp: on_transport_error_def exec_inv_def)
next
  case (CallStdin b)
  assume "exec_inv s"
  then show ?thesis using CallStdin
    by (auto simp: send_stdin_def send_frame_def exec_inv_def)
next
  case (CallResize c r)
  assume "exec_inv s"
  then show ?thesis using CallResize by (auto simp: send_resize_def exec_inv_def)
next
  case ResizeTimer
  assume "exec_inv s"
  then show ?thesis using ResizeTimer
    by (auto simp: on_resize_timer_def send_frame_def exec_inv_def Let_def split: option.splits)
next
  case (WsOpened i)
  then show "exec_inv s \<Longrightarrow> ?thesis" using inv_opened by metis
next
  case (WsMessage i m)
  then show "exec_inv s \<Longrightarrow> ?thesis" using inv_message by metis
next
  case (WsClosedEv i r)
  then show "exec_inv s \<Longrightarrow> ?thesis" using inv_closed by metis
qed (simp_all add: inv_close_client inv_give_up)

lemma terminal_step: "ex_terminal s \<Longrightarrow> ex_terminal (exec_step s e)"
  by (cases e) (auto simp: exec_handlers split: message.splits option.splits inbound_frame.splits)

interpretation exec_machine: absorbing_machine exec_step exec_inv ex_terminal
  by unfold_locales (auto intro: inv_exec_step terminal_step)

lemma exec_inv_new: "exec_inv new_exec_client"
  by (simp add: exec_inv_def new_exec_client_def sockets_ok_def supervisor_ok_def)

lemma exec_inv_run: "exec_inv (exec_run es)"
  unfolding exec_run_def by (rule exec_machine.inv_run [OF exec_inv_new])

section \<open>Properties\<close>

lemma session_never_hangs_aux: "ex_attempt (exec_run es) \<le> 4"
  using exec_inv_run [of es] by (simp add: exec_inv_def supervisor_ok_def)

text \<open>
  C4: a dropped session is never left hanging. In every reachable state the only live socket
  is the newest one; at most four attempts have been made since the last greeting; and when
  that socket is closed the session either is over or is reconnecting with the timer of the
  attempt pending, at that attempt's delay of 0, 1, 3 or 8 seconds.
\<close>

theorem session_never_hangs:
  fixes es
  defines "s \<equiv> exec_run es"
  shows "set (butlast (ex_sockets s)) \<subseteq> {WsClosed} \<and> ex_attempt s \<le> 4 \<and>
    (last (ex_sockets s) = WsClosed \<and> \<not> ex_terminal s \<longrightarrow>
       ex_status s = SReconnecting \<and> ex_attempt s < 4 \<and>
       ex_timer s = Some ([0, 1000, 3000, 8000] ! ex_attempt s))"
  using exec_inv_run [of es]
  by (auto simp: s_def exec_inv_def sockets_ok_def supervisor_ok_def reconnect_backoff_ms_def
      split: if_splits)

lemma session_never_hangs_witness:
  "ex_timer (exec_run [WsClosedEv 0 [], ReconnectTimer, WsClosedEv 1 []]) = Some 1000"
  using session_never_hangs [of "[WsClosedEv 0 [], ReconnectTimer, WsClosedEv 1 []]"]
  by (simp add: exec_run_def new_exec_client_def socket_is_def set_socket_def on_close_def
      schedule_reconnect_def attempt_reconnect_def Let_def transition_def note_that_def
      reconnect_backoff_ms_def)

lemma terminal_opens_nothing:
  assumes "exec_inv s" "ex_terminal s"
  shows "length (ex_sockets (exec_step s e)) = length (ex_sockets s)"
proof -
  have "ex_status s \<noteq> SReconnecting" "ex_timer s = None"
    using assms by (auto simp: exec_inv_def supervisor_ok_def split: if_splits)
  then show ?thesis using assms(2)
    by (cases e) (auto simp: exec_handlers split: message.splits option.splits inbound_frame.splits)
qed

text \<open>
  a session that is over stays over: once it is terminal (closed by the user, by the
  server, by a fatal error or after the last attempt), no event opens another socket.
\<close>

theorem terminal_session_opens_nothing:
  assumes "ex_terminal (exec_run es)"
  shows "length (ex_sockets (exec_run (es @ fs))) = length (ex_sockets (exec_run es))"
proof -
  have "length (ex_sockets (foldl exec_step s fs)) = length (ex_sockets s)"
    if "exec_inv s" "ex_terminal s" for s
    using that
  proof (induction fs arbitrary: s)
    case (Cons f fs)
    then show ?case using terminal_opens_nothing [of s f] inv_exec_step [of s f] terminal_step [of s f] by simp
  qed simp
  from this [OF exec_inv_run assms] show ?thesis by (simp add: exec_run_def)
qed

lemma terminal_session_opens_nothing_witness:
  "length (ex_sockets (exec_run ([CallClose] @ [WsClosedEv 0 [], ReconnectTimer, CallReconnectNow]))) = 1"
proof -
  have "ex_terminal (exec_run [CallClose]) \<and> length (ex_sockets (exec_run [CallClose])) = 1"
    by (simp add: exec_run_def new_exec_client_def exec_handlers)
  then show ?thesis using terminal_session_opens_nothing [of "[CallClose]"] by simp
qed

definition is_hello :: "exec_event \<Rightarrow> bool" where
  "is_hello e = (case e of WsMessage _ (MText (Some (FHello _))) \<Rightarrow> True | _ \<Rightarrow> False)"

lemma sockets_step:
  "length (ex_sockets (exec_step s e)) + ex_attempt s \<le>
     length (ex_sockets s) + ex_attempt (exec_step s e) + (if is_hello e then ex_attempt s else 0)"
  by (cases e)
     (auto simp: is_hello_def exec_handlers split: message.splits option.splits inbound_frame.splits)

text \<open>
  reconnecting is bounded. In any run the client opens at most one socket, plus four for
  each greeting it has received and four more.
\<close>

theorem reconnects_bounded:
  "length (ex_sockets (exec_run es)) \<le> 1 + 4 * (length (filter is_hello es) + 1)"
proof -
  have "length (ex_sockets (exec_run es)) \<le> 1 + 4 * length (filter is_hello es) + ex_attempt (exec_run es)"
  proof (induction es rule: rev_induct)
    case (snoc e es)
    have "ex_attempt (exec_run es) \<le> 4" using session_never_hangs_aux [of es] .
    then show ?case using snoc sockets_step [of "exec_run es" e]
      by (simp add: exec_run_def split: if_splits)
  qed (simp add: exec_run_def new_exec_client_def)
  then show ?thesis using session_never_hangs_aux [of es] by simp
qed

definition dropped :: "string \<Rightarrow> nat \<Rightarrow> exec_event list" where
  "dropped reason n = concat (map (\<lambda>i. [WsClosedEv i reason, ReconnectTimer]) [0..<n])"

definition retrying :: "nat \<Rightarrow> exec_client \<Rightarrow> bool" where
  "retrying n s \<longleftrightarrow> ex_sockets s = replicate n WsClosed @ [WsConnecting] \<and> ex_attempt s = n \<and>
     \<not> ex_terminal s \<and> \<not> ex_user_close s"

lemma drop_step:
  assumes "retrying n s" "n < 4"
  shows "retrying (Suc n) (exec_step (exec_step s (WsClosedEv n reason)) ReconnectTimer)"
proof -
  have "(replicate n WsClosed @ [WsConnecting])[n := WsClosed] = replicate (Suc n) WsClosed"
    by (simp add: list_update_append replicate_append_same)
  then show ?thesis using assms
    by (simp add: retrying_def socket_is_def set_socket_def on_close_def schedule_reconnect_def
        attempt_reconnect_def Let_def nth_append)
qed

lemma dropped_Suc: "dropped reason (Suc n) = dropped reason n @ [WsClosedEv n reason, ReconnectTimer]"
  by (simp add: dropped_def)

lemma retrying_dropped: "n \<le> 4 \<Longrightarrow> retrying n (exec_run (dropped reason n))"
proof (induction n)
  case 0
  show ?case by (simp add: dropped_def exec_run_def new_exec_client_def retrying_def)
next
  case (Suc n)
  then show ?case using drop_step [of n "exec_run (dropped reason n)" reason]
    by (simp add: exec_run_def dropped_Suc del: exec_step.simps)
qed

lemma last_drop:
  assumes "retrying 4 s" "ex_timer s = None"
  shows "ex_status (exec_step s (WsClosedEv 4 reason)) = SError \<and>
     ex_error_code (exec_step s (WsClosedEv 4 reason)) = Some ''E_RECONNECT_FAILED'' \<and>
     ex_terminal (exec_step s (WsClosedEv 4 reason)) \<and>
     ex_timer (exec_step s (WsClosedEv 4 reason)) = None \<and>
     length (ex_sockets (exec_step s (WsClosedEv 4 reason))) = 5"
proof -
  have "socket_is 4 {WsConnecting, WsOpen, WsClosing} s"
    using assms(1) by (simp add: retrying_def socket_is_def nth_append)
  moreover have "length (ex_sockets s) = 5" using assms(1) by (simp add: retrying_def)
  ultimately show ?thesis using assms
    by (simp add: retrying_def on_close_def schedule_reconnect_def) (simp add: set_socket_def)
qed

text \<open>
  four failed attempts end the session with an error. When the first connection and four
  reconnects in a row are dropped without a greeting, the client reports
  \<open>E_RECONNECT_FAILED\<close>, is terminal and has no timer pending.
\<close>

theorem four_failures_end_the_session:
  "let s = exec_run (dropped reason 5)
   in ex_status s = SError \<and> ex_error_code s = Some ''E_RECONNECT_FAILED'' \<and> ex_terminal s \<and>
      ex_timer s = None \<and> length (ex_sockets s) = 5"
proof -
  let ?s = "exec_run (dropped reason 4)"
  have r: "retrying 4 ?s" by (rule retrying_dropped) simp
  have "ex_timer ?s = None"
    using exec_inv_run [of "dropped reason 4"] r
    by (auto simp: exec_inv_def supervisor_ok_def retrying_def split: if_splits)
  note t = last_drop [OF r this, of reason]
  then have "exec_run (dropped reason 5) = exec_step ?s (WsClosedEv 4 reason)"
    using dropped_Suc [of reason 4] by (simp add: exec_run_def del: exec_step.simps(3))
  then show ?thesis using t by (simp only: Let_def)
qed

lemma resize_calls:
  "\<forall>r \<in> set rs. 0 < fst r \<and> 0 < snd r \<Longrightarrow> rs \<noteq> [] \<Longrightarrow>
   foldl exec_step s (map (\<lambda>(c, r). CallResize c r) rs) =
     s\<lparr>ex_pending_resize := Some (last rs), ex_resize_timer := True\<rparr>"
proof (induction rs arbitrary: s)
  case (Cons r rs)
  let ?s = "s\<lparr>ex_pending_resize := Some r, ex_resize_timer := True\<rparr>"
  have one: "exec_step s (CallResize (fst r) (snd r)) = ?s"
    using Cons.prems(1) by (simp add: send_resize_def)
  show ?case
  proof (cases "rs = []")
    case True
    then show ?thesis using one by (cases r) (simp del: exec_step.simps)
  next
    case False
    then have "foldl exec_step ?s (map (\<lambda>(c, r). CallResize c r) rs) =
        ?s\<lparr>ex_pending_resize := Some (last rs), ex_resize_timer := True\<rparr>"
      using Cons.prems(1) by (intro Cons.IH) auto
    then show ?thesis using one False by (cases r) (simp del: exec_step.simps)
  qed
qed simp

lemma resize_sends_pending:
  assumes "ex_pending_resize s = Some (c, r)" "ready_state s = WsOpen" "ex_resize_timer s"
  shows "ex_sent (exec_step s ResizeTimer) = ex_sent s @ [(current_socket s, OResize c r)]"
proof -
  have "ready_state (s\<lparr>ex_resize_timer := False, ex_pending_resize := None\<rparr>) = WsOpen"
    using assms(2) by (simp add: ready_state_def split: if_splits)
  then show ?thesis using assms(1,3)
    by (simp add: on_resize_timer_def Let_def send_frame_def current_socket_def)
qed

text \<open>
  the resize debounce keeps the last size. Any number of valid resizes before the timer
  fires on an open socket put one frame on the wire, with the size of the last call.
\<close>

theorem resize_debounce_keeps_last:
  assumes "rs \<noteq> []" "\<forall>r \<in> set rs. 0 < fst r \<and> 0 < snd r" "ready_state s = WsOpen"
  shows "ex_sent (exec_step (foldl exec_step s (map (\<lambda>(c, r). CallResize c r) rs)) ResizeTimer) =
     ex_sent s @ [(current_socket s, OResize (fst (last rs)) (snd (last rs)))]"
proof -
  let ?t = "s\<lparr>ex_pending_resize := Some (last rs), ex_resize_timer := True\<rparr>"
  have "ready_state ?t = WsOpen" "current_socket ?t = current_socket s"
    using assms(3) by (simp_all add: ready_state_def current_socket_def split: if_splits)
  then have "ex_sent (exec_step ?t ResizeTimer) =
      ex_sent s @ [(current_socket s, OResize (fst (last rs)) (snd (last rs)))]"
    using resize_sends_pending [of ?t "fst (last rs)" "snd (last rs)"] by simp
  then show ?thesis by (simp only: resize_calls [OF assms(2,1)])
qed

lemma resize_debounce_keeps_last_witness:
  "ex_sent (exec_step (foldl exec_step (exec_run [WsOpened 0])
       (map (\<lambda>(c, r). CallResize c r) [(80, 24), (120, 40)])) ResizeTimer) = [(0, OResize 120 40)]"
proof -
  have "ready_state (exec_run [WsOpened 0]) = WsOpen" "ex_sent (exec_run [WsOpened 0]) = []"
    "current_socket (exec_run [WsOpened 0]) = 0"
    by (simp_all add: exec_run_def new_exec_client_def socket_is_def set_socket_def ready_state_def
        current_socket_def)
  then show ?thesis
    using resize_debounce_keeps_last [of "[(80, 24), (120, 40)]" "exec_run [WsOpened 0]"] by simp
qed

text \<open>
  giving up does not close the socket. A client that gives up while a reconnect attempt
  is connecting is terminal and in error, and still returns to connected when that attempt's
  greeting arrives.
\<close>

theorem give_up_is_undone_by_hello:
  "let s = exec_run [WsClosedEv 0 [], ReconnectTimer, CallGiveUp];
       t = exec_run [WsClosedEv 0 [], ReconnectTimer, CallGiveUp, WsOpened 1,
                     WsMessage 1 (MText (Some (FHello h)))]
   in ex_status s = SError \<and> ex_terminal s \<and> ex_status t = SConnected \<and> ex_terminal t"
  by (simp add: exec_run_def new_exec_client_def socket_is_def set_socket_def on_close_def
      schedule_reconnect_def attempt_reconnect_def Let_def transition_def note_that_def
      give_up_def cancel_reconnect_timer_def on_message_def on_frame_def on_hello_def
      reconnect_backoff_ms_def)

end
