(* ===== verification/ExecSessions.thy ===== *)
theory ExecSessions
  imports ExecClient "HOL-Library.AList"
begin

text \<open>
  Model of \<open>web/src/exec/ExecSessionsContext.tsx\<close>: the provider that owns the shell sessions of
  the page. The state keeps the \<open>sessions\<close> as React has queued them, the \<open>sessions\<close> of the last
  commit (what \<open>openSession\<close> and the visibility listener read), the client of every session ever
  opened together with the ids still in the \<open>clients\<close> map, the drawer and what is stored of it,
  and the pending timers. A client is the machine of the theory \<open>ExecClient\<close>; what it tells its
  listeners during one of its steps is mirrored into the sessions in the order of the calls.
  \<open>crypto.randomUUID\<close> is the argument \<open>uuid\<close>: its \<open>n\<close>-th answer.
\<close>

section \<open>Data\<close>

datatype shell_mode = ModeBash | ModeKubectlOnly

datatype session_kind = PodExec | ClusterShell | NodeShell

datatype open_input =
    OpenPod (in_cluster: string) (in_namespace: string) (in_pod: string)
      (in_container: "string option") (in_command: "string list option") (in_tty: "bool option")
  | OpenCluster (in_cluster: string) (in_mode: shell_mode)
  | OpenNode (in_cluster: string) (in_node: string)

record session_meta =
  sm_id :: string
  sm_kind :: session_kind
  sm_server_id :: string
  sm_cluster :: string
  sm_namespace :: string
  sm_pod :: string
  sm_container :: string
  sm_requested :: string
  sm_mode :: "shell_mode option"
  sm_node :: "string option"
  sm_status :: session_status
  sm_created :: int
  sm_closed_at :: "int option"
  sm_close_reason :: "string option"
  sm_exit_code :: "int option"
  sm_error_code :: "string option"
  sm_error_message :: "string option"
  sm_error_category :: "string option"
  sm_error_cluster :: "string option"
  sm_error_trace :: "string option"
  sm_error_detail :: "string option"
  sm_last_activity :: int
  sm_idle_warn_at :: "int option"
  sm_idle_warn_seconds :: "int option"
  sm_reconnect_attempt :: "nat option"

datatype open_result =
    Opened session_meta
  | CapReached
  | AlreadyOpen string

definition session_cap :: nat where
  "session_cap = 5"

definition auto_restart_window_ms :: int where
  "auto_restart_window_ms = 60000"

record exec_sessions =
  xs_sessions :: "session_meta list"
  xs_rendered :: "session_meta list"
  xs_active :: "string option"
  xs_open :: bool
  xs_height :: int
  xs_clients :: "(string \<times> exec_client) list"
  xs_registered :: "string list"
  xs_removals :: "string list"
  xs_recents :: "(open_input \<times> int) list"
  xs_hidden_since :: "int option"
  xs_hidden_timer :: bool
  xs_stored_open :: "bool option"
  xs_stored_height :: "int option"
  xs_made :: nat

section \<open>The drawer\<close>

text \<open>\<open>viewport\<close> is the 70 percent of the window's height, as computed by the code.\<close>

definition clamp_height :: "int \<Rightarrow> int \<Rightarrow> int" where
  "clamp_height viewport h = max 160 (min viewport h)"

definition load_drawer_state :: "int \<Rightarrow> int option \<Rightarrow> bool option \<Rightarrow> bool \<times> int" where
  "load_drawer_state viewport stored_height stored_open =
     (stored_open \<noteq> Some False,
      case stored_height of None \<Rightarrow> 320 | Some n \<Rightarrow> clamp_height viewport n)"

definition initial_exec_sessions :: "int \<Rightarrow> int option \<Rightarrow> bool option \<Rightarrow> exec_sessions" where
  "initial_exec_sessions viewport stored_height stored_open =
     \<lparr>xs_sessions = [], xs_rendered = [], xs_active = None,
      xs_open = fst (load_drawer_state viewport stored_height stored_open),
      xs_height = snd (load_drawer_state viewport stored_height stored_open),
      xs_clients = [], xs_registered = [], xs_removals = [], xs_recents = [],
      xs_hidden_since = None, xs_hidden_timer = False,
      xs_stored_open = stored_open, xs_stored_height = stored_height, xs_made = 0\<rparr>"

definition set_drawer_open :: "bool \<Rightarrow> exec_sessions \<Rightarrow> exec_sessions" where
  "set_drawer_open opn s = s\<lparr>xs_open := opn, xs_stored_open := Some opn\<rparr>"

definition set_drawer_height :: "int \<Rightarrow> int \<Rightarrow> exec_sessions \<Rightarrow> exec_sessions" where
  "set_drawer_height viewport h s =
     s\<lparr>xs_height := clamp_height viewport h, xs_stored_height := Some (clamp_height viewport h)\<rparr>"

definition toggle_drawer :: "exec_sessions \<Rightarrow> exec_sessions" where
  "toggle_drawer s = set_drawer_open (\<not> xs_open s) s"

definition on_viewport_resize :: "int \<Rightarrow> exec_sessions \<Rightarrow> exec_sessions" where
  "on_viewport_resize viewport s = s\<lparr>xs_height := clamp_height viewport (xs_height s)\<rparr>"

record key_event =
  ke_meta :: bool
  ke_ctrl :: bool
  ke_shift :: bool
  ke_alt :: bool
  ke_key :: string
  ke_code :: string

definition on_key :: "key_event \<Rightarrow> exec_sessions \<Rightarrow> exec_sessions" where
  "on_key e s =
     (if \<not> (ke_meta e \<or> ke_ctrl e) then s
      else if ke_key e \<noteq> ''`'' \<and> ke_code e \<noteq> ''Backquote'' then s
      else if ke_shift e \<or> ke_alt e then s
      else toggle_drawer s)"

section \<open>Mirroring a client\<close>

definition update_session ::
    "string \<Rightarrow> (session_meta \<Rightarrow> session_meta) \<Rightarrow> exec_sessions \<Rightarrow> exec_sessions" where
  "update_session i patch s =
     s\<lparr>xs_sessions := map (\<lambda>m. if sm_id m = i then patch m else m) (xs_sessions s)\<rparr>"

definition patch_hello :: "hello_frame \<Rightarrow> session_meta \<Rightarrow> session_meta" where
  "patch_hello f m =
     m\<lparr>sm_server_id := hf_sessionId f,
       sm_container := (if hf_container f \<noteq> [] then hf_container f else sm_requested m),
       sm_status := SConnected\<rparr>"

definition patch_closed :: "int \<Rightarrow> closed_frame \<Rightarrow> session_meta \<Rightarrow> session_meta" where
  "patch_closed now f m =
     m\<lparr>sm_status := SClosed, sm_closed_at := Some now,
       sm_close_reason := cf_reason f, sm_exit_code := cf_exitCode f\<rparr>"

definition patch_error :: "int \<Rightarrow> error_frame \<Rightarrow> session_meta \<Rightarrow> session_meta" where
  "patch_error now f m =
     m\<lparr>sm_status := SError, sm_closed_at := Some now, sm_error_code := Some (ef_code f),
       sm_error_message := Some (ef_message f), sm_error_category := ef_category f,
       sm_error_cluster := ef_cluster f, sm_error_trace := ef_traceId f,
       sm_error_detail := ef_detail f\<rparr>"

definition patch_activity :: "int \<Rightarrow> session_meta \<Rightarrow> session_meta" where
  "patch_activity now m =
     (if now - sm_last_activity m < 200 then m else m\<lparr>sm_last_activity := now\<rparr>)"

fun mirror_note :: "string \<Rightarrow> int \<Rightarrow> exec_note \<Rightarrow> exec_sessions \<Rightarrow> exec_sessions" where
  "mirror_note i now (NStatus st) s = update_session i (\<lambda>m. m\<lparr>sm_status := st\<rparr>) s"
| "mirror_note i now (NHello f) s = update_session i (patch_hello f) s"
| "mirror_note i now (NClosed f) s =
     (let s1 = update_session i (patch_closed now f) s
      in s1\<lparr>xs_removals := xs_removals s1 @ [i]\<rparr>)"
| "mirror_note i now (NError f) s = update_session i (patch_error now f) s"
| "mirror_note i now (NStdout bytes) s = update_session i (patch_activity now) s"
| "mirror_note i now (NIdleWarn n) s =
     update_session i (\<lambda>m. m\<lparr>sm_idle_warn_at := Some now, sm_idle_warn_seconds := Some n\<rparr>) s"
| "mirror_note i now (NReconnect attempt limit) s =
     update_session i (\<lambda>m. m\<lparr>sm_reconnect_attempt := Some attempt\<rparr>) s"

definition client_event ::
    "string \<Rightarrow> exec_event \<Rightarrow> int \<Rightarrow> exec_sessions \<Rightarrow> exec_sessions" where
  "client_event i e now s =
     (case map_of (xs_clients s) i of
        None \<Rightarrow> s
      | Some c \<Rightarrow>
          (let c' = exec_step c e;
               told = drop (length (ex_log c)) (ex_log c');
               s1 = s\<lparr>xs_clients := AList.update i c' (xs_clients s)\<rparr>
           in fold (mirror_note i now) told s1))"

section \<open>Opening\<close>

definition session_over :: "session_meta \<Rightarrow> bool" where
  "session_over m \<longleftrightarrow> sm_status m = SClosed \<or> sm_status m = SError"

definition session_live :: "session_meta \<Rightarrow> bool" where
  "session_live m \<longleftrightarrow> sm_status m = SConnecting \<or> sm_status m = SConnected"

fun same_target :: "open_input \<Rightarrow> session_meta \<Rightarrow> bool" where
  "same_target (OpenCluster cluster mode) m \<longleftrightarrow>
     sm_kind m = ClusterShell \<and> sm_cluster m = cluster \<and> sm_mode m = Some mode"
| "same_target (OpenNode cluster node) m \<longleftrightarrow>
     sm_kind m = NodeShell \<and> sm_cluster m = cluster \<and> sm_node m = Some node"
| "same_target (OpenPod cluster ns pod container command tty) m \<longleftrightarrow>
     sm_kind m = PodExec \<and> sm_cluster m = cluster \<and> sm_namespace m = ns \<and> sm_pod m = pod \<and>
     (case container of None \<Rightarrow> [] | Some c \<Rightarrow> c) = sm_requested m"

definition find_existing_for :: "session_meta list \<Rightarrow> open_input \<Rightarrow> session_meta option" where
  "find_existing_for sessions input = find (\<lambda>m. \<not> session_over m \<and> same_target input m) sessions"

definition blank_meta :: "string \<Rightarrow> session_kind \<Rightarrow> string \<Rightarrow> int \<Rightarrow> session_meta" where
  "blank_meta i kind cluster now =
     \<lparr>sm_id = i, sm_kind = kind, sm_server_id = [], sm_cluster = cluster, sm_namespace = [],
      sm_pod = [], sm_container = [], sm_requested = [], sm_mode = None, sm_node = None,
      sm_status = SConnecting, sm_created = now, sm_closed_at = None, sm_close_reason = None,
      sm_exit_code = None, sm_error_code = None, sm_error_message = None,
      sm_error_category = None, sm_error_cluster = None, sm_error_trace = None,
      sm_error_detail = None, sm_last_activity = now, sm_idle_warn_at = None,
      sm_idle_warn_seconds = None, sm_reconnect_attempt = None\<rparr>"

fun new_meta :: "string \<Rightarrow> int \<Rightarrow> open_input \<Rightarrow> session_meta" where
  "new_meta i now (OpenCluster cluster mode) =
     (blank_meta i ClusterShell cluster now)\<lparr>sm_mode := Some mode\<rparr>"
| "new_meta i now (OpenNode cluster node) =
     (blank_meta i NodeShell cluster now)\<lparr>sm_node := Some node\<rparr>"
| "new_meta i now (OpenPod cluster ns pod container command tty) =
     (let asked = (case container of None \<Rightarrow> [] | Some c \<Rightarrow> c)
      in (blank_meta i PodExec cluster now)
           \<lparr>sm_namespace := ns, sm_pod := pod, sm_container := asked, sm_requested := asked\<rparr>)"

definition open_session ::
    "(nat \<Rightarrow> string) \<Rightarrow> open_input \<Rightarrow> int \<Rightarrow> exec_sessions \<Rightarrow> open_result \<times> exec_sessions" where
  "open_session uuid input now s =
     (case find_existing_for (xs_rendered s) input of
        Some m \<Rightarrow> (AlreadyOpen (sm_id m), s\<lparr>xs_active := Some (sm_id m), xs_open := True\<rparr>)
      | None \<Rightarrow>
          (if session_cap \<le> length (filter session_live (xs_rendered s)) then (CapReached, s)
           else (let i = uuid (xs_made s); m = new_meta i now input
                 in (Opened m,
                     s\<lparr>xs_made := xs_made s + 1,
                       xs_clients := xs_clients s @ [(i, new_exec_client)],
                       xs_registered := xs_registered s @ [i],
                       xs_sessions := xs_sessions s @ [m],
                       xs_active := Some i, xs_open := True\<rparr>))))"

section \<open>Closing\<close>

definition fallback_active :: "session_meta list \<Rightarrow> string option" where
  "fallback_active nxt =
     (case find session_live nxt of
        Some m \<Rightarrow> Some (sm_id m)
      | None \<Rightarrow> (case nxt of [] \<Rightarrow> None | m # _ \<Rightarrow> Some (sm_id m)))"

definition close_session :: "string \<Rightarrow> int \<Rightarrow> exec_sessions \<Rightarrow> exec_sessions" where
  "close_session i now s =
     (let s1 = (if i \<in> set (xs_registered s) then client_event i CallClose now s else s);
          nxt = filter (\<lambda>m. sm_id m \<noteq> i) (xs_sessions s1)
      in s1\<lparr>xs_registered := removeAll i (xs_registered s1),
            xs_sessions := nxt,
            xs_active := (if xs_active s1 \<noteq> Some i then xs_active s1 else fallback_active nxt)\<rparr>)"

text \<open>The two-second timer that a closed frame starts.\<close>

definition on_removal_timer :: "string \<Rightarrow> int \<Rightarrow> exec_sessions \<Rightarrow> exec_sessions" where
  "on_removal_timer i now s =
     (if i \<notin> set (xs_removals s) then s
      else let s1 = s\<lparr>xs_removals := remove1 i (xs_removals s)\<rparr>
           in if i \<in> set (xs_registered s1) then close_session i now s1 else s1)"

section \<open>The hidden page\<close>

definition restart_params :: "session_meta \<Rightarrow> open_input" where
  "restart_params m =
     (if sm_kind m = ClusterShell
      then OpenCluster (sm_cluster m) (case sm_mode m of None \<Rightarrow> ModeBash | Some b \<Rightarrow> b)
      else OpenPod (sm_cluster m) (sm_namespace m) (sm_pod m)
             (if sm_requested m = [] then None else Some (sm_requested m)) None None)"

definition hide_close :: "int \<Rightarrow> session_meta \<Rightarrow> exec_sessions \<Rightarrow> exec_sessions" where
  "hide_close now m s =
     (let s1 = s\<lparr>xs_recents := xs_recents s @ [(restart_params m, now)]\<rparr>
      in if sm_id m \<in> set (xs_registered s1) then client_event (sm_id m) CallClose now s1 else s1)"

definition fire_hidden_close :: "int \<Rightarrow> exec_sessions \<Rightarrow> exec_sessions" where
  "fire_hidden_close now s =
     (let s1 = fold (hide_close now) (filter session_live (xs_rendered s)) s
      in s1\<lparr>xs_recents := filter (\<lambda>(_, at). now - at < auto_restart_window_ms) (xs_recents s1)\<rparr>)"

definition on_hidden :: "int \<Rightarrow> exec_sessions \<Rightarrow> exec_sessions" where
  "on_hidden now s = s\<lparr>xs_hidden_since := Some now, xs_hidden_timer := True\<rparr>"

definition on_hidden_timer :: "int \<Rightarrow> exec_sessions \<Rightarrow> exec_sessions" where
  "on_hidden_timer now s =
     (if xs_hidden_timer s then fire_hidden_close now (s\<lparr>xs_hidden_timer := False\<rparr>) else s)"

definition on_visible :: "(nat \<Rightarrow> string) \<Rightarrow> int \<Rightarrow> exec_sessions \<Rightarrow> exec_sessions" where
  "on_visible uuid now s =
     (let fresh = filter (\<lambda>(_, at). now - at < auto_restart_window_ms) (xs_recents s);
          s1 = s\<lparr>xs_hidden_since := None, xs_hidden_timer := False, xs_recents := []\<rparr>
      in fold (\<lambda>(params, _) s. snd (open_session uuid params now s)) fresh s1)"

section \<open>The provider\<close>

text \<open>
  A commit shows the queued sessions to the callbacks; its effect folds the drawer when the last
  session went away.
\<close>

definition on_render :: "exec_sessions \<Rightarrow> exec_sessions" where
  "on_render s =
     (let s1 = s\<lparr>xs_rendered := xs_sessions s\<rparr>
      in if xs_rendered s \<noteq> [] \<and> xs_sessions s = []
         then s1\<lparr>xs_open := False, xs_stored_open := Some False\<rparr> else s1)"

datatype sessions_event =
    SeOpen open_input
  | SeFocus string
  | SeClose string
  | SeClient string exec_event
  | SeReconnectNow string
  | SeGiveUp string
  | SeRemovalTimer string
  | SeHidden
  | SeHiddenTimer
  | SeVisible
  | SeRender
  | SeDrawerOpen bool
  | SeDrawerHeight int int
  | SeDrawerToggle
  | SeKey key_event
  | SeResize int

definition registered_call ::
    "string \<Rightarrow> exec_event \<Rightarrow> int \<Rightarrow> exec_sessions \<Rightarrow> exec_sessions" where
  "registered_call i e now s = (if i \<in> set (xs_registered s) then client_event i e now s else s)"

text \<open>
  One event at the time \<open>now\<close>. \<open>SeClient\<close> is what reaches a client from its sockets, its timers
  and the terminal bound to it.
\<close>

fun sessions_step ::
    "(nat \<Rightarrow> string) \<Rightarrow> exec_sessions \<Rightarrow> sessions_event \<times> int \<Rightarrow> exec_sessions" where
  "sessions_step uuid s (SeOpen input, now) = snd (open_session uuid input now s)"
| "sessions_step uuid s (SeFocus i, now) = s\<lparr>xs_active := Some i, xs_open := True\<rparr>"
| "sessions_step uuid s (SeClose i, now) = close_session i now s"
| "sessions_step uuid s (SeClient i e, now) = client_event i e now s"
| "sessions_step uuid s (SeReconnectNow i, now) = registered_call i CallReconnectNow now s"
| "sessions_step uuid s (SeGiveUp i, now) = registered_call i CallGiveUp now s"
| "sessions_step uuid s (SeRemovalTimer i, now) = on_removal_timer i now s"
| "sessions_step uuid s (SeHidden, now) = on_hidden now s"
| "sessions_step uuid s (SeHiddenTimer, now) = on_hidden_timer now s"
| "sessions_step uuid s (SeVisible, now) = on_visible uuid now s"
| "sessions_step uuid s (SeRender, now) = on_render s"
| "sessions_step uuid s (SeDrawerOpen opn, now) = set_drawer_open opn s"
| "sessions_step uuid s (SeDrawerHeight viewport h, now) = set_drawer_height viewport h s"
| "sessions_step uuid s (SeDrawerToggle, now) = toggle_drawer s"
| "sessions_step uuid s (SeKey e, now) = on_key e s"
| "sessions_step uuid s (SeResize viewport, now) = on_viewport_resize viewport s"

definition sessions_run ::
    "(nat \<Rightarrow> string) \<Rightarrow> exec_sessions \<Rightarrow> (sessions_event \<times> int) list \<Rightarrow> exec_sessions" where
  "sessions_run uuid s0 es = foldl (sessions_step uuid) s0 es"

end
