(* ===== verification/ExecSessionsSafety.thy ===== *)
theory ExecSessionsSafety
  imports ExecSessions ExecSafety
begin

text \<open>
  The session provider: every tab mirrors its client, a closed tab never comes back and opens no
  socket again, and the shells a hidden page gives up are opened again when it returns.
\<close>

section \<open>What a client tells its listeners\<close>

fun note_status :: "exec_note \<Rightarrow> session_status \<Rightarrow> session_status" where
  "note_status (NStatus st) old = st"
| "note_status (NHello f) old = SConnected"
| "note_status (NClosed f) old = SClosed"
| "note_status (NError f) old = SError"
| "note_status _ old = old"

definition tells :: "exec_client \<Rightarrow> exec_client \<Rightarrow> bool" where
  "tells c c' \<longleftrightarrow> (\<exists>told. ex_log c' = ex_log c @ told \<and> fold note_status told (ex_status c) = ex_status c')"

lemma tells_same [intro]: "ex_log c' = ex_log c \<Longrightarrow> ex_status c' = ex_status c \<Longrightarrow> tells c c'"
  by (auto simp: tells_def)

lemma tells_trans: "tells a b \<Longrightarrow> tells b c \<Longrightarrow> tells a c"
  unfolding tells_def by (metis append.assoc comp_apply fold_append)

lemma tells_note: "note_status n (ex_status c) = ex_status c \<Longrightarrow> tells c (note_that n c)"
  by (auto simp: tells_def note_that_def)

lemma tells_transition: "tells c (transition st c)"
  by (auto simp: tells_def transition_def note_that_def)

lemma transition_status [simp]: "ex_status (transition st c) = st"
  by (simp add: transition_def note_that_def)

text \<open>A change of other fields before or after what is told does not matter.\<close>

lemma tells_before:
  "tells b c \<Longrightarrow> ex_log b = ex_log a \<Longrightarrow> ex_status b = ex_status a \<Longrightarrow> tells a c"
  by (simp add: tells_def)

lemma tells_after:
  "tells a b \<Longrightarrow> ex_log c = ex_log b \<Longrightarrow> ex_status c = ex_status b \<Longrightarrow> tells a c"
  by (simp add: tells_def)

lemma tells_attempt: "tells c (attempt_reconnect c)"
  unfolding attempt_reconnect_def by (rule tells_before [OF tells_transition]) simp_all

lemma tells_schedule: "tells c (schedule_reconnect c)"
proof (cases "max_attempts \<le> ex_attempt c")
  case True
  then show ?thesis
    unfolding schedule_reconnect_def by (auto intro: tells_before [OF tells_transition])
next
  case False
  let ?n = "NReconnect (ex_attempt c + 1) max_attempts"
  have "tells c (note_that ?n (transition SReconnecting c))"
    by (rule tells_trans [OF tells_transition tells_note]) simp
  then show ?thesis
    using False unfolding schedule_reconnect_def by (auto simp: Let_def intro: tells_after)
qed

lemma tells_hello: "tells c (on_hello f c)"
  unfolding on_hello_def Let_def
  by (rule tells_before [OF tells_trans [OF tells_transition tells_note]]) simp_all

lemma tells_frame: "tells c (on_frame f c)"
proof (cases f)
  case (FClosed g)
  then show ?thesis
    unfolding on_frame_def
    by (simp, intro tells_before [OF tells_trans [OF tells_transition tells_note]]) simp_all
next
  case (FError g)
  then show ?thesis
    unfolding on_frame_def Let_def
    by (simp, intro conjI impI tells_before [OF tells_trans [OF tells_transition tells_note]]) simp_all
qed (auto simp: on_frame_def tells_hello intro: tells_note)

lemma tells_close: "tells c (on_close reason c)"
  unfolding on_close_def by (auto intro: tells_transition tells_before [OF tells_schedule])

lemma tells_close_client: "tells c (close_client c)"
  unfolding close_client_def Let_def
  by (rule tells_before [OF tells_transition])
     (simp_all add: cancel_reconnect_timer_def closing_socket_def send_frame_def)

lemma tells_step: "tells c (exec_step c e)"
proof (cases e)
  case (WsClosedEv i reason)
  then show ?thesis by (auto simp: set_socket_def intro: tells_before [OF tells_close])
next
  case (WsMessage i m)
  then show ?thesis
    by (auto simp: on_message_def tells_frame split: message.split option.split intro: tells_note)
next
  case CallGiveUp
  then show ?thesis
    unfolding give_up_def Let_def exec_step.simps
    by (auto simp: cancel_reconnect_timer_def give_up_def Let_def intro: tells_before [OF tells_transition])
next
  case CallReconnectNow
  then show ?thesis
    by (auto simp: reconnect_now_def cancel_reconnect_timer_def intro: tells_before [OF tells_attempt])
next
  case ReconnectTimer
  then show ?thesis by (auto intro: tells_before [OF tells_attempt])
qed (auto simp: set_socket_def on_transport_error_def on_resize_timer_def send_frame_def send_stdin_def
      send_resize_def Let_def tells_close_client split: option.split)

section \<open>Mirroring\<close>

lemma mirror_note_frame [simp]:
  "xs_clients (mirror_note i now n s) = xs_clients s"
  "xs_registered (mirror_note i now n s) = xs_registered s"
  "xs_rendered (mirror_note i now n s) = xs_rendered s"
  "xs_recents (mirror_note i now n s) = xs_recents s"
  "xs_made (mirror_note i now n s) = xs_made s"
  "xs_hidden_timer (mirror_note i now n s) = xs_hidden_timer s"
  by (cases n; simp add: update_session_def)+

lemma fold_mirror_frame [simp]:
  "xs_clients (fold (mirror_note i now) told s) = xs_clients s"
  "xs_registered (fold (mirror_note i now) told s) = xs_registered s"
  "xs_rendered (fold (mirror_note i now) told s) = xs_rendered s"
  "xs_recents (fold (mirror_note i now) told s) = xs_recents s"
  "xs_made (fold (mirror_note i now) told s) = xs_made s"
  "xs_hidden_timer (fold (mirror_note i now) told s) = xs_hidden_timer s"
  by (induction told arbitrary: s) simp_all

text \<open>What identifies a session and what its shell is bound to.\<close>

definition session_target ::
    "session_meta \<Rightarrow> session_kind \<times> string \<times> string \<times> string \<times> string \<times> shell_mode option \<times> string option" where
  "session_target m =
     (sm_kind m, sm_cluster m, sm_namespace m, sm_pod m, sm_requested m, sm_mode m, sm_node m)"

definition session_key where
  "session_key m = (sm_id m, session_target m)"

definition mirrored ::
    "string \<Rightarrow> (session_status \<Rightarrow> session_status) \<Rightarrow> session_meta \<Rightarrow> session_meta \<Rightarrow> bool" where
  "mirrored i f m m' \<longleftrightarrow>
     session_key m' = session_key m \<and> sm_status m' = (if sm_id m = i then f (sm_status m) else sm_status m)"

lemma list_all2_map_left: "list_all2 P xs (map f xs) \<longleftrightarrow> (\<forall>x \<in> set xs. P x (f x))"
  by (simp add: list_all2_map2 list.rel_eq list_all2_same)

lemma mirror_note_sessions:
  "list_all2 (mirrored i (note_status n)) (xs_sessions s) (xs_sessions (mirror_note i now n s))"
  by (cases n) (auto simp: update_session_def list_all2_map_left mirrored_def session_key_def
      session_target_def patch_hello_def patch_closed_def patch_error_def patch_activity_def)

lemma mirrored_trans:
  "mirrored i f a b \<Longrightarrow> mirrored i g b c \<Longrightarrow> mirrored i (g \<circ> f) a c"
  by (auto simp: mirrored_def session_key_def)

lemma fold_mirror_sessions:
  "list_all2 (mirrored i (fold note_status told)) (xs_sessions s)
     (xs_sessions (fold (mirror_note i now) told s))"
proof (induction told arbitrary: s)
  case Nil
  then show ?case by (simp add: mirrored_def list_all2_same)
next
  case (Cons n told)
  have "list_all2 (mirrored i (fold note_status told \<circ> note_status n)) (xs_sessions s)
      (xs_sessions (fold (mirror_note i now) told (mirror_note i now n s)))"
    by (rule list_all2_trans [OF mirrored_trans mirror_note_sessions Cons.IH])
  then show ?case by (simp add: comp_def)
qed

text \<open>One step of a client, as the provider sees it.\<close>

lemma client_event_none: "map_of (xs_clients s) i = None \<Longrightarrow> client_event i e now s = s"
  by (simp add: client_event_def)

lemma client_event_frame [simp]:
  "xs_registered (client_event i e now s) = xs_registered s"
  "xs_rendered (client_event i e now s) = xs_rendered s"
  "xs_recents (client_event i e now s) = xs_recents s"
  "xs_made (client_event i e now s) = xs_made s"
  "xs_hidden_timer (client_event i e now s) = xs_hidden_timer s"
  by (simp_all add: client_event_def Let_def split: option.split)

lemma client_event_clients:
  "map_of (xs_clients (client_event i e now s)) j =
     (if j = i then map_option (\<lambda>c. exec_step c e) (map_of (xs_clients s) i)
      else map_of (xs_clients s) j)"
  by (simp add: client_event_def Let_def update_conv' split: option.split)

lemma client_event_domain [simp]:
  "fst ` set (xs_clients (client_event i e now s)) = fst ` set (xs_clients s)"
proof (cases "map_of (xs_clients s) i")
  case (Some c)
  then have "i \<in> fst ` set (xs_clients s)"
    by (metis domI dom_map_of_conv_image_fst)
  then show ?thesis using Some by (auto simp: client_event_def Let_def dom_update insert_absorb)
qed (simp add: client_event_none)

lemma client_event_sessions:
  assumes "map_of (xs_clients s) i = Some c"
  shows "\<exists>f. f (ex_status c) = ex_status (exec_step c e) \<and>
    list_all2 (mirrored i f) (xs_sessions s) (xs_sessions (client_event i e now s))"
proof -
  obtain told where told: "ex_log (exec_step c e) = ex_log c @ told"
    "fold note_status told (ex_status c) = ex_status (exec_step c e)"
    using tells_step [of c e] by (auto simp: tells_def)
  have "list_all2 (mirrored i (fold note_status told)) (xs_sessions s)
      (xs_sessions (client_event i e now s))"
    using fold_mirror_sessions [of i told "s\<lparr>xs_clients := AList.update i (exec_step c e) (xs_clients s)\<rparr>" now]
      assms told(1) by (simp add: client_event_def Let_def)
  then show ?thesis using told(2) by blast
qed

section \<open>The invariant\<close>

definition meta_wf :: "session_meta \<Rightarrow> bool" where
  "meta_wf m \<longleftrightarrow>
     (case sm_kind m of
        PodExec \<Rightarrow> sm_mode m = None \<and> sm_node m = None
      | ClusterShell \<Rightarrow> sm_namespace m = [] \<and> sm_pod m = [] \<and> sm_requested m = [] \<and>
          sm_mode m \<noteq> None \<and> sm_node m = None
      | NodeShell \<Rightarrow> sm_namespace m = [] \<and> sm_pod m = [] \<and> sm_requested m = [] \<and>
          sm_mode m = None \<and> sm_node m \<noteq> None)"

definition follows_client :: "exec_sessions \<Rightarrow> session_meta \<Rightarrow> bool" where
  "follows_client s m \<longleftrightarrow> meta_wf m \<and>
     (\<exists>c. map_of (xs_clients s) (sm_id m) = Some c \<and> ex_status c = sm_status m)"

definition sessions_inv :: "(nat \<Rightarrow> string) \<Rightarrow> exec_sessions \<Rightarrow> bool" where
  "sessions_inv uuid s \<longleftrightarrow>
     fst ` set (xs_clients s) \<subseteq> uuid ` {..< xs_made s} \<and>
     map sm_id (xs_sessions s) = xs_registered s \<and> distinct (xs_registered s) \<and>
     (\<forall>m \<in> set (xs_sessions s). follows_client s m) \<and>
     (\<forall>i c. map_of (xs_clients s) i = Some c \<longrightarrow> exec_inv c)"

lemma meta_wf_key: "session_key m' = session_key m \<Longrightarrow> meta_wf m' = meta_wf m"
  by (auto simp: meta_wf_def session_key_def session_target_def split: session_kind.split)

lemma mirrored_ids: "list_all2 (mirrored i f) ms ms' \<Longrightarrow> map sm_id ms' = map sm_id ms"
  by (induction rule: list_all2_induct) (auto simp: mirrored_def session_key_def)

lemma list_all2_mem_right: "list_all2 P xs ys \<Longrightarrow> y \<in> set ys \<Longrightarrow> \<exists>x \<in> set xs. P x y"
  by (metis in_set_conv_nth list_all2_conv_all_nth)

lemma inv_client_event:
  assumes "sessions_inv uuid s"
  shows "sessions_inv uuid (client_event i e now s)"
proof (cases "map_of (xs_clients s) i")
  case (Some c)
  obtain f where f: "f (ex_status c) = ex_status (exec_step c e)"
    "list_all2 (mirrored i f) (xs_sessions s) (xs_sessions (client_event i e now s))"
    using client_event_sessions [OF Some] by blast
  have "follows_client (client_event i e now s) m'"
    if m': "m' \<in> set (xs_sessions (client_event i e now s))" for m'
  proof -
    obtain m where m: "m \<in> set (xs_sessions s)" "mirrored i f m m'"
      using list_all2_mem_right [OF f(2) m'] by blast
    then have "follows_client s m" using assms by (simp add: sessions_inv_def)
    then obtain d where d: "map_of (xs_clients s) (sm_id m) = Some d" "ex_status d = sm_status m"
      "meta_wf m" by (auto simp: follows_client_def)
    have "session_key m' = session_key m" "sm_id m' = sm_id m"
      using m(2) by (auto simp: mirrored_def session_key_def)
    then show ?thesis
      using d m(2) f(1) Some meta_wf_key [of m' m]
      by (auto simp: follows_client_def mirrored_def client_event_clients)
  qed
  moreover have "exec_inv d" if "map_of (xs_clients (client_event i e now s)) j = Some d" for j d
    using that assms by (auto simp: client_event_clients sessions_inv_def inv_exec_step split: if_splits)
  ultimately show ?thesis
    using assms mirrored_ids [OF f(2)] by (simp add: sessions_inv_def)
qed (use assms in \<open>simp add: client_event_none\<close>)

lemma map_filter_ids: "map f (filter (\<lambda>x. f x \<noteq> a) xs) = removeAll a (map f xs)"
  by (induction xs) auto

lemma inv_close_session:
  assumes "sessions_inv uuid s"
  shows "sessions_inv uuid (close_session i now s)"
proof -
  let ?s = "if i \<in> set (xs_registered s) then client_event i CallClose now s else s"
  have inv: "sessions_inv uuid ?s" using assms by (simp add: inv_client_event)
  then have "map sm_id (filter (\<lambda>m. sm_id m \<noteq> i) (xs_sessions ?s)) = removeAll i (xs_registered ?s)"
    by (simp add: sessions_inv_def map_filter_ids)
  then show ?thesis
    using inv by (simp add: close_session_def Let_def sessions_inv_def follows_client_def distinct_removeAll)
qed

lemma fresh_uuid: "inj uuid \<Longrightarrow> sessions_inv uuid s \<Longrightarrow> uuid (xs_made s) \<notin> fst ` set (xs_clients s)"
proof
  assume "inj uuid" "sessions_inv uuid s" "uuid (xs_made s) \<in> fst ` set (xs_clients s)"
  then obtain k where "k < xs_made s" "uuid (xs_made s) = uuid k" by (auto simp: sessions_inv_def)
  then show False using \<open>inj uuid\<close> by (simp add: inj_eq)
qed

lemma inv_registered_client:
  assumes "sessions_inv uuid s" "i \<in> set (xs_registered s)"
  shows "i \<in> fst ` set (xs_clients s)"
proof -
  have "i \<in> sm_id ` set (xs_sessions s)"
    using assms by (metis (no_types) list.set_map sessions_inv_def)
  then obtain m where "m \<in> set (xs_sessions s)" "sm_id m = i" by blast
  then show ?thesis
    using assms(1) map_of_SomeD by (force simp: sessions_inv_def follows_client_def)
qed

lemma new_meta_simps [simp]:
  "sm_id (new_meta i now input) = i"
  "sm_status (new_meta i now input) = SConnecting"
  "meta_wf (new_meta i now input)"
  by (cases input; simp add: blank_meta_def meta_wf_def Let_def)+

lemma new_client_status [simp]: "ex_status new_exec_client = SConnecting"
  by (simp add: new_exec_client_def)

lemma inv_open_session:
  assumes "inj uuid" "sessions_inv uuid s"
  shows "sessions_inv uuid (snd (open_session uuid input now s))"
proof (cases "find_existing_for (xs_rendered s) input = None \<and>
    \<not> session_cap \<le> length (filter session_live (xs_rendered s))")
  case True
  let ?i = "uuid (xs_made s)"
  have new: "?i \<notin> fst ` set (xs_clients s)" using fresh_uuid assms by blast
  then have "?i \<notin> set (xs_registered s)" using inv_registered_client assms(2) by blast
  moreover have "map_of (xs_clients s) ?i = None" using new by (simp add: map_of_eq_None_iff)
  ultimately show ?thesis
    using True assms(2)
    by (auto simp: open_session_def Let_def sessions_inv_def follows_client_def map_add_def
        lessThan_Suc exec_inv_new split: option.split if_splits)
qed (use assms(2) in \<open>auto simp: open_session_def sessions_inv_def follows_client_def split: option.split\<close>)

lemma inv_hide_close: "sessions_inv uuid s \<Longrightarrow> sessions_inv uuid (hide_close now m s)"
proof -
  assume "sessions_inv uuid s"
  then have "sessions_inv uuid (s\<lparr>xs_recents := xs_recents s @ [(restart_params m, now)]\<rparr>)"
    by (simp add: sessions_inv_def follows_client_def)
  then show ?thesis by (simp add: hide_close_def Let_def inv_client_event)
qed

lemma fold_invariant: "(\<And>x s. P s \<Longrightarrow> P (f x s)) \<Longrightarrow> P s \<Longrightarrow> P (fold f xs s)"
  by (induction xs arbitrary: s) auto

section \<open>What every operation of the provider preserves\<close>

text \<open>The operations that touch neither sessions nor clients.\<close>

definition same_core :: "exec_sessions \<Rightarrow> exec_sessions \<Rightarrow> bool" where
  "same_core s s' \<longleftrightarrow> xs_sessions s' = xs_sessions s \<and> xs_clients s' = xs_clients s \<and>
     xs_registered s' = xs_registered s \<and> xs_made s' = xs_made s"

lemmas drawer_defs = set_drawer_open_def set_drawer_height_def toggle_drawer_def on_key_def
  on_viewport_resize_def on_render_def on_hidden_def

text \<open>
  A property of the provider's core holds in every later state when the client steps, closing
  and opening keep it.
\<close>

locale provider_property =
  fixes uuid :: "nat \<Rightarrow> string" and P :: "exec_sessions \<Rightarrow> bool"
  assumes core: "P s \<Longrightarrow> same_core s s' \<Longrightarrow> P s'"
    and client: "P s \<Longrightarrow> P (client_event i e now s)"
    and closes: "P s \<Longrightarrow> P (close_session i now s)"
    and opens: "P s \<Longrightarrow> P (snd (open_session uuid input now s))"
begin

lemma hidden_close: "P s \<Longrightarrow> P (fire_hidden_close now s)"
proof -
  assume "P s"
  have "P (hide_close now m t)" if "P t" for m t
    using client [of "t\<lparr>xs_recents := xs_recents t @ [(restart_params m, now)]\<rparr>"]
      core [OF that, of "t\<lparr>xs_recents := xs_recents t @ [(restart_params m, now)]\<rparr>"]
    by (simp add: hide_close_def Let_def same_core_def)
  then have "P (fold (hide_close now) (filter session_live (xs_rendered s)) s)"
    using \<open>P s\<close> by (rule fold_invariant)
  then show ?thesis by (rule core) (simp add: fire_hidden_close_def Let_def same_core_def)
qed

lemma visible: "P s \<Longrightarrow> P (on_visible uuid now s)"
  unfolding on_visible_def Let_def case_prod_beta
  by (rule fold_invariant [where P = P], rule opens, assumption)
     (rule core [of s], assumption, simp add: same_core_def)

lemma removal_timer: "P s \<Longrightarrow> P (on_removal_timer i now s)"
  using closes [of "s\<lparr>xs_removals := remove1 i (xs_removals s)\<rparr>"]
    core [of s "s\<lparr>xs_removals := remove1 i (xs_removals s)\<rparr>"]
  by (simp add: on_removal_timer_def Let_def same_core_def)

lemma step: "P s \<Longrightarrow> P (sessions_step uuid s (e, now))"
proof (cases e)
  case SeHiddenTimer
  assume "P s"
  then have "P (s\<lparr>xs_hidden_timer := False\<rparr>)" by (rule core) (simp add: same_core_def)
  then show ?thesis using SeHiddenTimer \<open>P s\<close> by (simp add: on_hidden_timer_def hidden_close)
qed (auto simp: registered_call_def client closes opens visible removal_timer
      drawer_defs Let_def same_core_def elim!: core)

lemma run: "P s \<Longrightarrow> P (foldl (sessions_step uuid) s es)"
  by (induction es arbitrary: s) (auto simp: step)

end

interpretation mirror: provider_property uuid "\<lambda>s. inj uuid \<longrightarrow> sessions_inv uuid s" for uuid
proof
  fix s s'
  assume "inj uuid \<longrightarrow> sessions_inv uuid s" "same_core s s'"
  then show "inj uuid \<longrightarrow> sessions_inv uuid s'"
    by (simp add: sessions_inv_def same_core_def follows_client_def)
qed (auto intro: inv_client_event inv_close_session inv_open_session)

lemma sessions_inv_initial: "sessions_inv uuid (initial_exec_sessions viewport h opn)"
  by (simp add: sessions_inv_def initial_exec_sessions_def)

lemma inv_sessions_run:
  "inj uuid \<Longrightarrow> sessions_inv uuid (sessions_run uuid (initial_exec_sessions viewport h opn) es)"
  using mirror.run sessions_inv_initial by (simp add: sessions_run_def)

text \<open>A closed session: its id is used up, it is off the map and its client is over.\<close>

definition gone :: "(nat \<Rightarrow> string) \<Rightarrow> string \<Rightarrow> nat \<Rightarrow> exec_sessions \<Rightarrow> bool" where
  "gone uuid i n s \<longleftrightarrow> i \<in> uuid ` {..< xs_made s} \<and> i \<notin> set (xs_registered s) \<and>
     (\<exists>c. map_of (xs_clients s) i = Some c \<and> ex_terminal c \<and> length (ex_sockets c) = n)"

lemma gone_client_event:
  assumes "sessions_inv uuid s" "gone uuid i n s"
  shows "gone uuid i n (client_event j e now s)"
proof -
  obtain c where "map_of (xs_clients s) i = Some c" "ex_terminal c" "length (ex_sockets c) = n"
    "exec_inv c" using assms by (auto simp: gone_def sessions_inv_def)
  then show ?thesis
    using assms(2)
    by (auto simp: gone_def client_event_clients terminal_step terminal_opens_nothing)
qed

lemma gone_close_session:
  assumes "sessions_inv uuid s" "gone uuid i n s"
  shows "gone uuid i n (close_session j now s)"
  using gone_client_event [OF assms] assms(2)
  by (auto simp: close_session_def Let_def gone_def)

lemma gone_open_session:
  assumes "inj uuid" "gone uuid i n s"
  shows "gone uuid i n (snd (open_session uuid input now s))"
proof -
  have "i \<noteq> uuid (xs_made s)"
    using assms by (auto simp: gone_def inj_eq)
  then show ?thesis
    using assms(2)
    by (auto simp: open_session_def Let_def gone_def map_add_def lessThan_Suc split: option.split)
qed

interpretation closed: provider_property uuid
  "\<lambda>s. inj uuid \<and> sessions_inv uuid s \<and> gone uuid i n s" for uuid i n
proof
  fix s s'
  assume "inj uuid \<and> sessions_inv uuid s \<and> gone uuid i n s" "same_core s s'"
  then show "inj uuid \<and> sessions_inv uuid s' \<and> gone uuid i n s'"
    using mirror.core [of uuid s s'] by (simp add: gone_def same_core_def)
qed (simp_all add: inv_client_event inv_close_session inv_open_session gone_client_event
      gone_close_session gone_open_session)

lemma close_makes_gone:
  assumes "inj uuid" "sessions_inv uuid s" "i \<in> sm_id ` set (xs_sessions s)"
  shows "\<exists>c. map_of (xs_clients (close_session i now s)) i = Some c \<and>
    gone uuid i (length (ex_sockets c)) (close_session i now s)"
proof -
  have reg: "i \<in> set (xs_registered s)"
    using assms(2,3) by (metis list.set_map sessions_inv_def)
  then obtain c where c: "map_of (xs_clients s) i = Some c"
    using inv_registered_client [OF assms(2)] by (metis map_of_eq_None_iff not_None_eq)
  have "i \<in> uuid ` {..< xs_made s}"
    using inv_registered_client [OF assms(2) reg] assms(2) by (auto simp: sessions_inv_def)
  moreover have "ex_terminal (close_client c)"
    by (simp add: close_client_def Let_def closing_socket_def send_frame_def cancel_reconnect_timer_def)
  ultimately show ?thesis
    using reg c by (auto simp: close_session_def Let_def gone_def client_event_clients)
qed

section \<open>The hidden page\<close>

text \<open>Closing the given sessions one after the other.\<close>

definition only_closed :: "session_meta \<Rightarrow> session_meta \<Rightarrow> bool" where
  "only_closed m m' \<longleftrightarrow>
     session_key m' = session_key m \<and> (sm_status m' = sm_status m \<or> sm_status m' = SClosed)"

lemma only_closed_refl: "list_all2 only_closed ms ms"
  by (simp add: only_closed_def list_all2_same)

lemma only_closed_trans: "only_closed a b \<Longrightarrow> only_closed b c \<Longrightarrow> only_closed a c"
  by (auto simp: only_closed_def)

lemma close_client_status [simp]: "ex_status (close_client c) = SClosed"
  by (simp add: close_client_def Let_def)

lemma hide_close_sessions:
  assumes "sessions_inv uuid s" "sm_id m \<in> set (xs_registered s)"
  shows "list_all2 only_closed (xs_sessions s) (xs_sessions (hide_close now m s)) \<and>
    (\<forall>m' \<in> set (xs_sessions (hide_close now m s)). sm_id m' = sm_id m \<longrightarrow> sm_status m' = SClosed)"
proof -
  let ?s = "s\<lparr>xs_recents := xs_recents s @ [(restart_params m, now)]\<rparr>"
  let ?t = "client_event (sm_id m) CallClose now ?s"
  have t: "hide_close now m s = ?t" using assms(2) by (simp add: hide_close_def Let_def)
  obtain c where c: "map_of (xs_clients ?s) (sm_id m) = Some c"
    using inv_registered_client [OF assms] by (cases "map_of (xs_clients s) (sm_id m)") (auto simp: map_of_eq_None_iff)
  obtain f where f: "f (ex_status c) = SClosed"
    "list_all2 (mirrored (sm_id m) f) (xs_sessions ?s) (xs_sessions ?t)"
    using client_event_sessions [OF c, of CallClose now] by auto
  have st: "sm_status x = ex_status c" if "x \<in> set (xs_sessions s)" "sm_id x = sm_id m" for x
    using assms(1) that c by (force simp: sessions_inv_def follows_client_def)
  have "list_all2 only_closed (xs_sessions ?s) (xs_sessions ?t)"
    using f(2) by (rule list.rel_mono_strong)
      (use f(1) st in \<open>auto simp: mirrored_def only_closed_def\<close>)
  moreover have "sm_status m' = SClosed" if m': "m' \<in> set (xs_sessions ?t)" "sm_id m' = sm_id m" for m'
  proof -
    obtain x where "x \<in> set (xs_sessions s)" "mirrored (sm_id m) f x m'"
      using list_all2_mem_right [OF f(2) m'(1)] by auto
    then show ?thesis using st [of x] f(1) m'(2) by (auto simp: mirrored_def session_key_def)
  qed
  ultimately show ?thesis by (simp add: t)
qed

lemma hide_close_frame [simp]:
  "xs_registered (hide_close now m s) = xs_registered s"
  "xs_rendered (hide_close now m s) = xs_rendered s"
  "xs_recents (hide_close now m s) = xs_recents s @ [(restart_params m, now)]"
  by (simp_all add: hide_close_def Let_def)

lemma fold_hide_close:
  assumes "sessions_inv uuid s" "sm_id ` set ms \<subseteq> set (xs_registered s)"
  shows "list_all2 only_closed (xs_sessions s) (xs_sessions (fold (hide_close now) ms s)) \<and>
    (\<forall>m' \<in> set (xs_sessions (fold (hide_close now) ms s)). sm_id m' \<in> sm_id ` set ms \<longrightarrow>
       sm_status m' = SClosed) \<and>
    xs_registered (fold (hide_close now) ms s) = xs_registered s \<and>
    xs_recents (fold (hide_close now) ms s) =
      xs_recents s @ map (\<lambda>m. (restart_params m, now)) ms"
  using assms
proof (induction ms rule: rev_induct)
  case (snoc m ms)
  let ?t = "fold (hide_close now) ms s"
  have inv: "sessions_inv uuid ?t"
    by (rule fold_invariant [where P = "sessions_inv uuid"]) (auto intro: inv_hide_close snoc.prems)
  have IH: "list_all2 only_closed (xs_sessions s) (xs_sessions ?t)"
    "\<forall>m' \<in> set (xs_sessions ?t). sm_id m' \<in> sm_id ` set ms \<longrightarrow> sm_status m' = SClosed"
    "xs_registered ?t = xs_registered s"
    "xs_recents ?t = xs_recents s @ map (\<lambda>m. (restart_params m, now)) ms"
    using snoc by auto
  have one: "list_all2 only_closed (xs_sessions ?t) (xs_sessions (hide_close now m ?t))"
    "\<forall>m' \<in> set (xs_sessions (hide_close now m ?t)). sm_id m' = sm_id m \<longrightarrow> sm_status m' = SClosed"
    using hide_close_sessions [OF inv, of m now] snoc.prems(2) IH(3) by auto
  have "sm_status m' = SClosed"
    if m': "m' \<in> set (xs_sessions (hide_close now m ?t))" "sm_id m' \<in> sm_id ` set ms" for m'
  proof -
    obtain x where "x \<in> set (xs_sessions ?t)" "only_closed x m'"
      using list_all2_mem_right [OF one(1) m'(1)] by blast
    then show ?thesis using IH(2) m'(2) by (auto simp: only_closed_def session_key_def)
  qed
  then show ?case
    using list_all2_trans [OF only_closed_trans IH(1) one(1)] one(2) IH(3,4) by auto
qed (simp add: only_closed_refl)

lemma open_session_grows:
  "set (xs_sessions s) \<subseteq> set (xs_sessions (snd (open_session uuid input now s)))"
  "xs_rendered (snd (open_session uuid input now s)) = xs_rendered s"
  by (auto simp: open_session_def Let_def split: option.split)

lemma same_target_new: "same_target input (new_meta i now input)"
  by (cases input) (auto simp: blank_meta_def Let_def split: option.split)

lemma open_session_holds:
  assumes "set (xs_rendered s) \<subseteq> set (xs_sessions s)" "filter session_live (xs_rendered s) = []"
  shows "\<exists>m \<in> set (xs_sessions (snd (open_session uuid input now s))).
    \<not> session_over m \<and> same_target input m"
proof (cases "find_existing_for (xs_rendered s) input")
  case None
  then show ?thesis
    using assms(2) same_target_new
    by (auto simp: open_session_def Let_def session_cap_def session_over_def)
next
  case (Some m)
  then have "m \<in> set (xs_rendered s)" "\<not> session_over m" "same_target input m"
    by (auto simp: find_existing_for_def find_Some_iff)
  then show ?thesis using assms(1) open_session_grows(1) by blast
qed

lemma fold_open_holds:
  assumes "set (xs_rendered s) \<subseteq> set (xs_sessions s)" "filter session_live (xs_rendered s) = []"
    and "(input, at) \<in> set rs"
  shows "\<exists>m \<in> set (xs_sessions (fold (\<lambda>(params, _) s. snd (open_session uuid params now s)) rs s)).
    \<not> session_over m \<and> same_target input m"
  using assms
proof (induction rs arbitrary: s)
  case (Cons r rs)
  let ?t = "snd (open_session uuid (fst r) now s)"
  have t: "set (xs_rendered ?t) \<subseteq> set (xs_sessions ?t)" "filter session_live (xs_rendered ?t) = []"
    using Cons.prems(1,2) open_session_grows [where s = s and input = "fst r"] by auto
  show ?case
  proof (cases "r = (input, at)")
    case True
    have grows: "set (xs_sessions u) \<subseteq>
        set (xs_sessions (fold (\<lambda>(params, _) s. snd (open_session uuid params now s)) rs u))" for u
      by (induction rs arbitrary: u)
         (auto simp: case_prod_beta dest: subsetD [OF open_session_grows(1)])
    show ?thesis
      using True open_session_holds [OF Cons.prems(1,2), of uuid input now] grows [of ?t] by auto
  next
    case False
    then show ?thesis using Cons.IH [OF t] Cons.prems(3) by (cases r) auto
  qed
qed simp

lemma same_target_restart:
  assumes "sm_kind m \<noteq> NodeShell" "meta_wf m" "meta_wf m'" "same_target (restart_params m) m'"
  shows "session_target m' = session_target m"
  using assms
  by (cases "sm_kind m")
     (auto simp: restart_params_def meta_wf_def session_target_def split: if_splits option.splits)

section \<open>Properties\<close>

text \<open>A client that is over and holds no connection: no timer pending, every socket closed or closing.\<close>

definition shut :: "exec_client \<Rightarrow> bool" where
  "shut c \<longleftrightarrow> ex_terminal c \<and> ex_timer c = None \<and> set (ex_sockets c) \<subseteq> {WsClosing, WsClosed}"

lemma inv_not_reconnecting:
  "exec_inv c \<Longrightarrow> ex_terminal c \<Longrightarrow> ex_status c \<noteq> SReconnecting \<and> ex_timer c = None"
  by (auto simp: exec_inv_def supervisor_ok_def split: if_splits)

lemma shut_close:
  assumes "exec_inv c"
  shows "shut (close_client c)"
proof -
  obtain ss r where ss: "ex_sockets c = ss @ [r]" "set ss \<subseteq> {WsClosed}"
    using assms by (cases "ex_sockets c" rule: rev_cases) (auto simp: exec_inv_def sockets_ok_def)
  then show ?thesis
    by (cases r) (auto simp: shut_def close_client_def Let_def cancel_reconnect_timer_def
        ready_state_def closing_socket_def current_socket_def send_frame_def)
qed

lemma shut_step:
  assumes inv: "exec_inv c" and shut: "shut c"
  shows "shut (exec_step c e)"
proof -
  have dead: "r \<in> {WsClosing, WsClosed}" if "i < length (ex_sockets c)" "r = ex_sockets c ! i" for i r
    using shut that nth_mem by (fastforce simp: shut_def)
  have over: "ex_terminal c" using shut by (simp add: shut_def)
  then have st: "ex_status c \<noteq> SReconnecting" "ex_timer c = None"
    using inv_not_reconnecting [OF inv] by auto
  have "set (ex_sockets (exec_step c e)) \<subseteq> {WsClosing, WsClosed}"
  proof (cases e)
    case (WsClosedEv i reason)
    then show ?thesis
      using shut over set_update_subset_insert [of "ex_sockets c" i WsClosed]
      by (auto simp: shut_def set_socket_def on_close_def)
  next
    case CallClose
    then show ?thesis using shut_close [OF inv] by (simp add: shut_def)
  next
    case (WsOpened i)
    then show ?thesis using shut dead [of i] by (auto simp: socket_is_def shut_def)
  next
    case (WsMessage i m)
    then show ?thesis using shut dead [of i] by (auto simp: socket_is_def shut_def)
  qed (use shut st in \<open>auto simp: exec_handlers shut_def split: option.splits\<close>)
  moreover have "ex_terminal (exec_step c e)" by (rule terminal_step [OF over])
  ultimately show ?thesis
    using inv_not_reconnecting [OF inv_exec_step [OF inv]] by (simp add: shut_def)
qed

definition unlisted_shut :: "exec_sessions \<Rightarrow> bool" where
  "unlisted_shut s \<longleftrightarrow> (\<forall>i c. map_of (xs_clients s) i = Some c \<and> i \<notin> set (xs_registered s) \<longrightarrow> shut c)"

lemma unlisted_client_event:
  "sessions_inv uuid s \<Longrightarrow> unlisted_shut s \<Longrightarrow> unlisted_shut (client_event i e now s)"
  by (auto simp: unlisted_shut_def client_event_clients sessions_inv_def intro: shut_step split: if_splits)

lemma unlisted_close_session:
  assumes "sessions_inv uuid s" "unlisted_shut s"
  shows "unlisted_shut (close_session i now s)"
  using assms
  by (auto simp: unlisted_shut_def close_session_def Let_def client_event_clients sessions_inv_def
      intro: shut_close split: if_splits)

lemma unlisted_open_session:
  assumes "unlisted_shut s"
  shows "unlisted_shut (snd (open_session uuid input now s))"
  using assms
  by (auto simp: unlisted_shut_def open_session_def Let_def map_add_def split: option.splits if_splits)

interpretation no_leak: provider_property uuid
  "\<lambda>s. inj uuid \<longrightarrow> sessions_inv uuid s \<and> unlisted_shut s" for uuid
proof
  fix s s'
  assume "inj uuid \<longrightarrow> sessions_inv uuid s \<and> unlisted_shut s" "same_core s s'"
  then show "inj uuid \<longrightarrow> sessions_inv uuid s' \<and> unlisted_shut s'"
    using mirror.core [of uuid s s'] by (simp add: unlisted_shut_def same_core_def)
qed (auto intro: inv_client_event inv_close_session inv_open_session unlisted_client_event
      unlisted_close_session unlisted_open_session)

text \<open>
  C27: The tabs and the clients never drift apart: at any moment the tabs are, in order, exactly the
  registered clients, with different ids, every tab shows the status of its client, and no
  client without a tab is left behind alive: it is over, no reconnect is scheduled, and each
  of its sockets is closed or closing.
\<close>

theorem sessions_mirror_clients:
  fixes es viewport h opn
  assumes "inj uuid"
  defines "s \<equiv> sessions_run uuid (initial_exec_sessions viewport h opn) es"
  shows "map sm_id (xs_sessions s) = xs_registered s \<and> distinct (xs_registered s) \<and>
    (\<forall>m \<in> set (xs_sessions s). \<exists>c. map_of (xs_clients s) (sm_id m) = Some c \<and> ex_status c = sm_status m) \<and>
    (\<forall>i c. map_of (xs_clients s) i = Some c \<and> i \<notin> sm_id ` set (xs_sessions s) \<longrightarrow>
       ex_terminal c \<and> ex_timer c = None \<and> set (ex_sockets c) \<subseteq> {WsClosing, WsClosed})"
proof -
  have start: "unlisted_shut (initial_exec_sessions viewport h opn)"
    by (simp add: unlisted_shut_def initial_exec_sessions_def)
  have "sessions_inv uuid s \<and> unlisted_shut s"
    using no_leak.run [of uuid "initial_exec_sessions viewport h opn" es] sessions_inv_initial start assms(1)
    by (simp add: s_def sessions_run_def)
  moreover from this have "sm_id ` set (xs_sessions s) = set (xs_registered s)"
    by (metis list.set_map sessions_inv_def)
  ultimately show ?thesis by (simp add: sessions_inv_def follows_client_def unlisted_shut_def shut_def)
qed

text \<open>Ids for concrete runs.\<close>

definition sample_uuid :: "nat \<Rightarrow> string" where
  "sample_uuid n = replicate (Suc n) CHR ''i''"

lemma sample_uuid_inj: "inj sample_uuid"
  by (rule injI) (metis length_replicate nat.inject sample_uuid_def)

definition sample_pod :: "string \<Rightarrow> open_input" where
  "sample_pod pod = OpenPod ''c'' ''ns'' pod None None None"

lemma sessions_mirror_clients_witness:
  "map sm_id (xs_sessions (sessions_run sample_uuid (initial_exec_sessions 700 None None)
     [(SeOpen (sample_pod ''a''), 1), (SeClient ''i'' (WsClosedEv 0 []), 2)])) = [''i'']"
proof -
  let ?s = "sessions_run sample_uuid (initial_exec_sessions 700 None None)
     [(SeOpen (sample_pod ''a''), 1), (SeClient ''i'' (WsClosedEv 0 []), 2)]"
  have "xs_registered ?s = [''i'']" by code_simp
  then show ?thesis using sessions_mirror_clients [OF sample_uuid_inj] by metis
qed

text \<open>
  C28: A closed tab is gone for good: whatever happens later it never reappears, its client stays
  over, and no event makes that client open another socket.
\<close>

theorem closed_tab_stays_closed:
  fixes es fs now
  assumes "inj uuid" and "i \<in> sm_id ` set (xs_sessions s)"
    and s: "s = sessions_run uuid (initial_exec_sessions viewport h opn) es"
  defines "after \<equiv> sessions_step uuid s (SeClose i, now)"
  defines "later \<equiv> foldl (sessions_step uuid) after fs"
  shows "i \<notin> sm_id ` set (xs_sessions later) \<and>
    (\<exists>c d. map_of (xs_clients after) i = Some c \<and> map_of (xs_clients later) i = Some d \<and>
       ex_terminal d \<and> length (ex_sockets d) = length (ex_sockets c))"
proof -
  have inv: "sessions_inv uuid s" using inv_sessions_run [OF assms(1)] s by simp
  obtain c where c: "map_of (xs_clients after) i = Some c"
    "gone uuid i (length (ex_sockets c)) after"
    using close_makes_gone [OF assms(1) inv assms(2)] by (auto simp: after_def)
  have "sessions_inv uuid after" using inv inv_close_session by (simp add: after_def)
  then have "sessions_inv uuid later \<and> gone uuid i (length (ex_sockets c)) later"
    using closed.run [of uuid after i "length (ex_sockets c)" fs] assms(1) c(2)
    by (simp add: later_def)
  then show ?thesis
    using c(1) by (auto simp: gone_def sessions_inv_def simp flip: set_map)
qed

lemma closed_tab_stays_closed_witness:
  "''i'' \<notin> sm_id ` set (xs_sessions (foldl (sessions_step sample_uuid)
     (sessions_step sample_uuid
        (sessions_run sample_uuid (initial_exec_sessions 700 None None) [(SeOpen (sample_pod ''a''), 1)])
        (SeClose ''i'', 2))
     [(SeOpen (sample_pod ''a''), 3), (SeClient ''i'' (WsOpened 0), 4)]))"
proof -
  let ?s = "sessions_run sample_uuid (initial_exec_sessions 700 None None) [(SeOpen (sample_pod ''a''), 1)]"
  have "map sm_id (xs_sessions ?s) = [''i'']" by code_simp
  then have "''i'' \<in> sm_id ` set (xs_sessions ?s)" by (metis list.set_intros(1) list.set_map)
  then show ?thesis using closed_tab_stays_closed [OF sample_uuid_inj _ refl] by blast
qed

text \<open>While the page is hidden, renders and the closing of sockets; neither brings a session to life.\<close>

fun while_hidden :: "sessions_event \<times> int \<Rightarrow> bool" where
  "while_hidden (SeRender, now) = True"
| "while_hidden (SeClient i (WsClosedEv k reason), now) = True"
| "while_hidden _ = False"

definition none_live :: "exec_sessions \<Rightarrow> bool" where
  "none_live s \<longleftrightarrow> (\<forall>m \<in> set (xs_sessions s). \<not> session_live m)"

lemma closed_socket_not_live:
  "ex_status c \<notin> {SConnecting, SConnected} \<Longrightarrow>
   ex_status (exec_step c (WsClosedEv k reason)) \<notin> {SConnecting, SConnected}"
  by (auto simp: on_close_def schedule_reconnect_def Let_def)

lemma none_live_step:
  assumes inv: "sessions_inv uuid s" and "none_live s" and e: "while_hidden e"
  shows "none_live (sessions_step uuid s e) \<and> xs_recents (sessions_step uuid s e) = xs_recents s"
proof (cases "\<exists>now. e = (SeRender, now)")
  case True
  then show ?thesis using assms(2) by (auto simp: none_live_def on_render_def Let_def split: if_splits)
next
  case False
  then obtain i k reason now where e: "e = (SeClient i (WsClosedEv k reason), now)"
    using e by (cases e rule: while_hidden.cases) auto
  let ?e = "WsClosedEv k reason"
  have "none_live (client_event i ?e now s)"
  proof (cases "map_of (xs_clients s) i")
    case (Some c)
    obtain f where f: "f (ex_status c) = ex_status (exec_step c ?e)"
      "list_all2 (mirrored i f) (xs_sessions s) (xs_sessions (client_event i ?e now s))"
      using client_event_sessions [OF Some] by blast
    have "\<not> session_live m'" if m': "m' \<in> set (xs_sessions (client_event i ?e now s))" for m'
    proof -
      obtain m where m: "m \<in> set (xs_sessions s)" "mirrored i f m m'"
        using list_all2_mem_right [OF f(2) m'] by blast
      have "\<not> session_live m" "follows_client s m"
        using m(1) assms(2) inv by (auto simp: none_live_def sessions_inv_def)
      then have "sm_id m = i \<Longrightarrow> sm_status m = ex_status c \<and> ex_status c \<notin> {SConnecting, SConnected}"
        using Some by (auto simp: follows_client_def session_live_def)
      then show ?thesis
        using m(2) \<open>\<not> session_live m\<close> closed_socket_not_live [of c k reason] f(1)
        by (auto simp: mirrored_def session_live_def)
    qed
    then show ?thesis by (simp add: none_live_def)
  qed (use assms(2) in \<open>simp add: client_event_none\<close>)
  then show ?thesis by (simp add: e)
qed

lemma none_live_run:
  assumes "inj uuid" "sessions_inv uuid s" "none_live s" "\<forall>e \<in> set fs. while_hidden e"
  shows "none_live (foldl (sessions_step uuid) s fs) \<and>
    xs_recents (foldl (sessions_step uuid) s fs) = xs_recents s"
  using assms(2-4)
proof (induction fs arbitrary: s)
  case (Cons e fs)
  have "sessions_inv uuid (sessions_step uuid s e)"
    using mirror.step [of uuid s] Cons.prems(1) assms(1) by (cases e) auto
  then show ?case using Cons none_live_step [OF Cons.prems(1,2), of e] by simp
qed simp

text \<open>
  C29: A pod or cluster shell lost to a hidden page comes back. Let every queued change be
  rendered when the timer of the hidden page fires and closes the live sessions. Whatever
  sockets then close and however often the page renders, if after a render the page becomes
  visible within the restart window, every pod and cluster shell that was live when the timer
  fired has a running session of the same target again. Node shells do not (see
  \<open>node_shell_restarts_as_pod\<close>).
\<close>

theorem hidden_shells_come_back:
  fixes es t2
  assumes "inj uuid" and s: "s = sessions_run uuid (initial_exec_sessions viewport h opn) es"
    and "xs_rendered s = xs_sessions s" "xs_hidden_timer s"
    and m: "m \<in> set (xs_sessions s)" "session_live m" "sm_kind m \<noteq> NodeShell"
    and "t3 - t1 < auto_restart_window_ms" and hid: "\<forall>e \<in> set fs. while_hidden e"
  shows "\<exists>m' \<in> set (xs_sessions (foldl (sessions_step uuid) s
      ((SeHiddenTimer, t1) # fs @ [(SeRender, t2), (SeVisible, t3)]))).
    \<not> session_over m' \<and> session_target m' = session_target m"
proof -
  define live where "live = filter session_live (xs_sessions s)"
  define s1 where "s1 = sessions_step uuid s (SeHiddenTimer, t1)"
  define r where "r = foldl (sessions_step uuid) s1 fs"
  define s2 where "s2 = sessions_step uuid r (SeRender, t2)"
  define s3 where "s3 = sessions_step uuid s2 (SeVisible, t3)"
  have inv: "sessions_inv uuid s" using inv_sessions_run [OF assms(1)] s by simp
  then have "sessions_inv uuid (s\<lparr>xs_hidden_timer := False\<rparr>)"
    by (simp add: sessions_inv_def follows_client_def)
  moreover have "sm_id ` set live \<subseteq> set (xs_registered (s\<lparr>xs_hidden_timer := False\<rparr>))"
  proof -
    have "set (xs_registered s) = sm_id ` set (xs_sessions s)"
      using inv by (metis list.set_map sessions_inv_def)
    then show ?thesis by (auto simp: live_def)
  qed
  ultimately have closed: "list_all2 only_closed (xs_sessions s) (xs_sessions s1)"
    "\<forall>m' \<in> set (xs_sessions s1). sm_id m' \<in> sm_id ` set live \<longrightarrow> sm_status m' = SClosed"
    "(restart_params m, t1) \<in> set (xs_recents s1)"
    using fold_hide_close [of uuid "s\<lparr>xs_hidden_timer := False\<rparr>" live t1] assms(3,4) m(1,2)
    by (auto simp: s1_def on_hidden_timer_def fire_hidden_close_def Let_def live_def
        auto_restart_window_ms_def)
  have "\<not> session_live x" if x: "x \<in> set (xs_sessions s1)" for x
  proof -
    obtain y where y: "y \<in> set (xs_sessions s)" "only_closed y x"
      using list_all2_mem_right [OF closed(1) x] by blast
    then have key: "sm_id x = sm_id y" "sm_status x = sm_status y \<or> sm_status x = SClosed"
      by (auto simp: only_closed_def session_key_def)
    show ?thesis
    proof (cases "session_live y")
      case True
      then have "sm_id x \<in> sm_id ` set live" using y(1) key(1) by (simp add: live_def)
      then show ?thesis using closed(2) x by (simp add: session_live_def)
    qed (use key(2) in \<open>auto simp: session_live_def\<close>)
  qed
  moreover have "sessions_inv uuid s1"
    using mirror.step [of uuid s SeHiddenTimer t1] inv assms(1) by (simp add: s1_def)
  ultimately have "none_live r \<and> xs_recents r = xs_recents s1"
    using none_live_run [OF assms(1) _ _ hid, of s1] by (simp add: r_def none_live_def)
  then have none: "filter session_live (xs_sessions s2) = []" "xs_rendered s2 = xs_sessions s2"
    "xs_recents s2 = xs_recents s1"
    by (auto simp: s2_def on_render_def Let_def none_live_def)
  have "\<exists>m' \<in> set (xs_sessions s3). \<not> session_over m' \<and> same_target (restart_params m) m'"
    using fold_open_holds [of "s2\<lparr>xs_hidden_since := None, xs_hidden_timer := False, xs_recents := []\<rparr>"
        "restart_params m" t1 "filter (\<lambda>(_, at). t3 - at < auto_restart_window_ms) (xs_recents s2)" uuid t3]
      none closed(3) assms(8)
    by (simp add: s3_def on_visible_def Let_def)
  then obtain m' where m': "m' \<in> set (xs_sessions s3)" "\<not> session_over m'"
    "same_target (restart_params m) m'" by blast
  have run: "foldl (sessions_step uuid) s ((SeHiddenTimer, t1) # fs @ [(SeRender, t2), (SeVisible, t3)]) = s3"
    by (simp only: s1_def s2_def s3_def r_def foldl.simps foldl_append)
  have "sessions_inv uuid s3"
    using mirror.run [of uuid s "(SeHiddenTimer, t1) # fs @ [(SeRender, t2), (SeVisible, t3)]"] inv assms(1)
    unfolding run by blast
  then have "meta_wf m'" using m'(1) by (simp add: sessions_inv_def follows_client_def)
  moreover have "meta_wf m" using inv m(1) by (simp add: sessions_inv_def follows_client_def)
  ultimately have "session_target m' = session_target m"
    using same_target_restart [OF m(3)] m'(3) by blast
  then show ?thesis using m'(1,2) run by auto
qed

lemma hidden_shells_come_back_witness:
  "\<exists>m' \<in> set (xs_sessions (foldl (sessions_step sample_uuid)
      (sessions_run sample_uuid (initial_exec_sessions 700 None None)
        [(SeOpen (sample_pod ''a''), 1), (SeRender, 2), (SeHidden, 3)])
      [(SeHiddenTimer, 300003), (SeClient ''i'' (WsClosedEv 0 []), 300003), (SeRender, 300004), (SeVisible, 310000)])).
    \<not> session_over m' \<and> session_target m' = (PodExec, ''c'', ''ns'', ''a'', [], None, None)"
proof -
  let ?s = "sessions_run sample_uuid (initial_exec_sessions 700 None None)
        [(SeOpen (sample_pod ''a''), 1), (SeRender, 2), (SeHidden, 3)]"
  let ?m = "new_meta ''i'' 1 (sample_pod ''a'')"
  have s: "xs_rendered ?s = [?m]" "xs_sessions ?s = [?m]" "xs_hidden_timer ?s"
    "session_target ?m = (PodExec, ''c'', ''ns'', ''a'', [], None, None)" "session_live ?m"
    "sm_kind ?m \<noteq> NodeShell"
    by code_simp+
  then have "\<exists>m' \<in> set (xs_sessions (foldl (sessions_step sample_uuid) ?s
      ((SeHiddenTimer, 300003) # [(SeClient ''i'' (WsClosedEv 0 []), 300003)] @ [(SeRender, 300004), (SeVisible, 310000)]))).
    \<not> session_over m' \<and> session_target m' = session_target ?m"
    by (intro hidden_shells_come_back [OF sample_uuid_inj refl]) (simp_all add: auto_restart_window_ms_def)
  then show ?thesis by (simp only: s(4) append_Cons append_Nil)
qed

section \<open>Where the provider surprises\<close>

text \<open>
  A node shell closed by a hidden page comes back as a pod shell without namespace and pod,
  because the snapshot of the live sessions knows only two kinds.
\<close>

theorem node_shell_restarts_as_pod:
  "map session_target (xs_sessions (sessions_run sample_uuid (initial_exec_sessions 700 None None)
     [(SeOpen (OpenNode ''c'' ''node-1''), 1), (SeRender, 2), (SeHidden, 3), (SeHiddenTimer, 300003),
      (SeRender, 300004), (SeVisible, 310000)])) =
   [(NodeShell, ''c'', [], [], [], None, Some ''node-1''), (PodExec, ''c'', [], [], [], None, None)]"
  by code_simp

text \<open>
  Sessions that are reconnecting do not count toward the cap, so it can be exceeded: with five
  sessions open, one drops, a sixth is opened, and the dropped one reconnects.
\<close>

theorem cap_exceeded_by_reconnect:
  "length (filter session_live (xs_sessions (sessions_run sample_uuid (initial_exec_sessions 700 None None)
     [(SeOpen (sample_pod ''a''), 1), (SeRender, 2), (SeOpen (sample_pod ''b''), 3), (SeRender, 4),
      (SeOpen (sample_pod ''c''), 5), (SeRender, 6), (SeOpen (sample_pod ''d''), 7), (SeRender, 8),
      (SeOpen (sample_pod ''e''), 9), (SeRender, 10), (SeClient ''i'' (WsClosedEv 0 []), 11), (SeRender, 12),
      (SeOpen (sample_pod ''f''), 13), (SeClient ''i'' ReconnectTimer, 14)]))) = 6"
  by code_simp

end
