(* ===== verification/FormValues.thy ===== *)
theory FormValues
  imports SchemaWalker
begin

text \<open>
  Model of the values side of the schema form: reading and writing a value at a path
  (\<open>pathOps.ts\<close>), the discriminator's active branch, its switch and the seed of the picked
  branch (\<open>SchemaForm.tsx\<close>, \<open>discriminatorSeed.ts\<close>), the key-value editor's projection, the
  one-line summary of a row (\<open>arrayRowSummary.ts\<close>) and the open state of the form's sections
  (\<open>useFormOpen.ts\<close>).
\<close>

section \<open>Paths\<close>

fun get_at_path :: "jsval \<Rightarrow> string list \<Rightarrow> jsval" where
  "get_at_path cur [] = cur"
| "get_at_path cur (seg # path) =
     (if is_plain_object cur \<or> is_array cur then get_at_path (get_prop cur seg) path
      else JUndefined)"

fun set_at_path :: "entries \<Rightarrow> string list \<Rightarrow> jsval \<Rightarrow> entries" where
  "set_at_path obj [] value = obj"
| "set_at_path obj [head] value = AList.update head value obj"
| "set_at_path obj (head # rest) value =
     AList.update head
       (JObj (set_at_path (case entry_get obj head of JObj kvs \<Rightarrow> kvs | _ \<Rightarrow> []) rest value)) obj"

text \<open>The update a \<open>FieldRow\<close> hands to its parent.\<close>

definition field_row_update :: "field_descriptor \<Rightarrow> entries \<Rightarrow> jsval \<Rightarrow> entries" where
  "field_row_update d values nxt = set_at_path values (fd_path (fcore d)) nxt"

section \<open>Discriminators\<close>

definition primitive_empty_for :: "type_decl option \<Rightarrow> jsval option" where
  "primitive_empty_for t =
     (if t = Some (TypeName ''string'') then Some (JStr [])
      else if t = Some (TypeName ''integer'') \<or> t = Some (TypeName ''number'') then Some (JNum 0)
      else if t = Some (TypeName ''boolean'') then Some (JBool False)
      else None)"

definition empty_for_descriptor :: "field_descriptor \<Rightarrow> jsval" where
  "empty_for_descriptor d =
     (let c = fcore d
      in case fd_default c of
           Some v \<Rightarrow> v
         | None \<Rightarrow>
             (case fd_enum c of
                Some (v # vs) \<Rightarrow> v
              | _ \<Rightarrow>
                  (case fd_type c of
                     FtString \<Rightarrow> JStr [] | FtNumber \<Rightarrow> JNum 0 | FtInteger \<Rightarrow> JNum 0
                   | FtBoolean \<Rightarrow> JBool False | FtArrayOfPrimitives \<Rightarrow> JArr []
                   | FtArrayOfObjects \<Rightarrow> JArr [] | FtKvMap \<Rightarrow> JObj [] | FtObject \<Rightarrow> JObj []
                   | FtDiscriminator \<Rightarrow> JObj [] | FtUnsupported \<Rightarrow> JNull)))"

definition seed_required_keys :: "discriminator_branch \<Rightarrow> entries" where
  "seed_required_keys b =
     (let top_level = rev (concat (map (\<lambda>d. case fd_path (fcore d) of [k] \<Rightarrow> [(k, d)] | _ \<Rightarrow> [])
                                    (br_descriptors b)))
      in fold (\<lambda>key. AList.update key
                 (case map_of top_level key of
                    Some d \<Rightarrow> empty_for_descriptor d | None \<Rightarrow> JNull))
           (opt_list (sc_required (core (br_schema b)))) [])"

definition seed_branch_value :: "discriminator_branch \<Rightarrow> jsval" where
  "seed_branch_value b =
     (case primitive_empty_for (sc_type (core (br_schema b))) of
        Some v \<Rightarrow> v
      | None \<Rightarrow>
          (if nonempty (br_key b) then JObj [(the (br_key b), JObj (seed_required_keys b))]
           else JObj (seed_required_keys b)))"

text \<open>The index of the first element with a property.\<close>

fun first_index :: "('a \<Rightarrow> bool) \<Rightarrow> 'a list \<Rightarrow> nat option" where
  "first_index P [] = None"
| "first_index P (x # xs) = (if P x then Some 0 else map_option Suc (first_index P xs))"

definition key_active :: "entries \<Rightarrow> discriminator_branch \<Rightarrow> bool" where
  "key_active obj b = (nonempty (br_key b) \<and> has_key obj (the (br_key b)))"

definition required_active :: "entries \<Rightarrow> discriminator_branch \<Rightarrow> bool" where
  "required_active obj b =
     (let req = opt_list (sc_required (core (br_schema b)))
      in req \<noteq> [] \<and> list_all (has_key obj) req)"

definition primitive_active :: "jsval \<Rightarrow> discriminator_branch \<Rightarrow> bool" where
  "primitive_active v b =
     (case sc_type (core (br_schema b)) of
        Some (TypeName t) \<Rightarrow>
          (case v of
             JStr s \<Rightarrow> t = ''string'' | JNum n \<Rightarrow> t = ''integer'' \<or> t = ''number''
           | JBool x \<Rightarrow> t = ''boolean'' | _ \<Rightarrow> False)
      | _ \<Rightarrow> False)"

definition active_branch :: "discriminator_branch list \<Rightarrow> jsval \<Rightarrow> nat option" where
  "active_branch bs v =
     (let obj = (case v of JObj kvs \<Rightarrow> kvs | _ \<Rightarrow> [])
      in case first_index (key_active obj) bs of
           Some i \<Rightarrow> Some i
         | None \<Rightarrow>
             (case first_index (required_active obj) bs of
                Some i \<Rightarrow> Some i
              | None \<Rightarrow>
                  (if \<not> is_plain_object v \<and> v \<noteq> JUndefined \<and> v \<noteq> JNull
                   then first_index (primitive_active v) bs else None)))"

text \<open>\<open>switchBranch\<close>; \<open>confirmed\<close> is the answer to the warning. \<open>None\<close> leaves the value alone.\<close>

definition switch_branch ::
  "discriminator_branch list \<Rightarrow> jsval \<Rightarrow> nat \<Rightarrow> bool \<Rightarrow> jsval option" where
  "switch_branch bs v idx confirmed =
     (let active = active_branch bs v;
          value_is_empty = (\<not> js_truthy v \<or> v = JObj [])
      in if active = Some idx then None
         else if active \<noteq> None \<and> \<not> value_is_empty \<and> \<not> confirmed then None
         else Some (seed_branch_value (bs ! idx)))"

section \<open>Key-value rows\<close>

definition obj_to_entries :: "jsval \<Rightarrow> entries" where
  "obj_to_entries v = (case v of JObj kvs \<Rightarrow> kvs | _ \<Rightarrow> [])"

definition to_record :: "entries \<Rightarrow> entries" where
  "to_record es = foldl (\<lambda>out (k, v). if k = [] \<or> has_key out k then out else out @ [(k, v)]) [] es"

datatype row_state = RowOk | RowEmpty | RowDuplicate

fun row_states :: "string list \<Rightarrow> entries \<Rightarrow> row_state list" where
  "row_states seen [] = []"
| "row_states seen ((k, v) # es) =
     (if k = [] then RowEmpty # row_states seen es
      else if k \<in> set seen then RowDuplicate # row_states seen es
      else RowOk # row_states (k # seen) es)"

section \<open>Array rows\<close>

definition update_row :: "jsval list \<Rightarrow> nat \<Rightarrow> jsval \<Rightarrow> jsval list" where
  "update_row arr idx nxt = arr[idx := nxt]"

definition remove_row :: "jsval list \<Rightarrow> nat \<Rightarrow> jsval list" where
  "remove_row arr idx = take idx arr @ drop (idx + 1) arr"

definition add_row :: "jsval list \<Rightarrow> jsval list" where
  "add_row arr = arr @ [JObj []]"

definition initial_open_set :: "nat \<Rightarrow> nat list" where
  "initial_open_set n = (if n = 1 then [0] else [])"

definition shift_open_on_remove :: "nat list \<Rightarrow> nat \<Rightarrow> nat list" where
  "shift_open_on_remove prev removed =
     remdups (map (\<lambda>i. if removed < i then i - 1 else i) (filter (\<lambda>i. i \<noteq> removed) prev))"

definition identifier_keys :: "string list" where
  "identifier_keys = [''name'', ''key'', ''host'', ''secretName'', ''topologyKey'']"

definition secondary_keys :: "string list" where
  "secondary_keys =
     [''image'', ''value'', ''mountPath'', ''operator'', ''port'', ''containerPort'', ''path'']"

definition truncate_str :: "string \<Rightarrow> nat \<Rightarrow> string" where
  "truncate_str s n = (if n < length s then take (n - 1) s @ ellipsis_char else s)"

definition identifier_text :: "jsval \<Rightarrow> string option" where
  "identifier_text v =
     (case v of JStr s \<Rightarrow> (if s \<noteq> [] then Some s else None) | JNum n \<Rightarrow> Some (js_to_string v)
      | _ \<Rightarrow> None)"

definition secondary_text :: "jsval \<Rightarrow> string option" where
  "secondary_text v =
     (if v = JUndefined \<or> v = JNull \<or> v = JStr [] \<or> is_plain_object v \<or> is_array v then None
      else Some (js_to_string v))"

fun first_text :: "(jsval \<Rightarrow> string option) \<Rightarrow> entries \<Rightarrow> string list \<Rightarrow> (string \<times> string) option" where
  "first_text f obj [] = None"
| "first_text f obj (k # ks) =
     (case f (entry_get obj k) of Some t \<Rightarrow> Some (k, t) | None \<Rightarrow> first_text f obj ks)"

definition summary_part :: "(string \<times> string) option \<Rightarrow> string list" where
  "summary_part p =
     (case p of Some (k, t) \<Rightarrow> if t \<noteq> [] then [k @ '': '' @ truncate_str t 40] else [] | None \<Rightarrow> [])"

definition row_summary :: "jsval \<Rightarrow> string" where
  "row_summary row =
     (case row of
        JObj obj \<Rightarrow>
          (let primary = first_text identifier_text obj identifier_keys;
               secondary = first_text secondary_text obj
                 (filter (\<lambda>k. primary = None \<or> k \<noteq> fst (the primary)) secondary_keys)
           in join_str ('' '' @ middle_dot @ '' '') (summary_part primary @ summary_part secondary))
      | _ \<Rightarrow> [])"

definition discriminator_row_summary :: "jsval \<Rightarrow> discriminator_branch list \<Rightarrow> string" where
  "discriminator_row_summary row bs =
     (case row of
        JObj obj \<Rightarrow>
          (case find (key_active obj) bs of
             None \<Rightarrow> row_summary row
           | Some b \<Rightarrow>
               join_str ('' '' @ middle_dot @ '' '')
                 (br_label b # summary_part
                    (first_text (\<lambda>v. case v of JStr (c # cs) \<Rightarrow> Some (c # cs) | _ \<Rightarrow> None)
                       obj identifier_keys)))
      | _ \<Rightarrow> [])"

section \<open>Open state\<close>

record form_open =
  fo_default_open :: bool
  fo_overrides :: "string list"

definition is_open :: "form_open \<Rightarrow> string \<Rightarrow> bool" where
  "is_open s i = (if fo_default_open s then i \<notin> set (fo_overrides s) else i \<in> set (fo_overrides s))"

definition toggle_open :: "string \<Rightarrow> form_open \<Rightarrow> form_open" where
  "toggle_open i s =
     s\<lparr>fo_overrides := (if i \<in> set (fo_overrides s) then removeAll i (fo_overrides s)
                        else fo_overrides s @ [i])\<rparr>"

definition expand_all :: "form_open \<Rightarrow> form_open" where
  "expand_all s = \<lparr>fo_default_open = True, fo_overrides = []\<rparr>"

definition collapse_all :: "form_open \<Rightarrow> form_open" where
  "collapse_all s = \<lparr>fo_default_open = False, fo_overrides = []\<rparr>"

end
