(* ===== verification/FormValueSafety.thy ===== *)
theory FormValueSafety
  imports FormValues
begin

text \<open>
  Correctness of the values side of the form: edits are local, a picked branch becomes the
  active one, the key-value projection, the open state; and three ways the form loses input.
\<close>

section \<open>Edits are local\<close>

text \<open>No step of the path but the last leads to an array (the form never goes through one).\<close>

fun no_array_on :: "entries \<Rightarrow> string list \<Rightarrow> bool" where
  "no_array_on obj (head # q # rest) =
     (\<not> is_array (entry_get obj head) \<and>
      no_array_on (case entry_get obj head of JObj kvs \<Rightarrow> kvs | _ \<Rightarrow> []) (q # rest))"
| "no_array_on obj _ = True"

lemma get_at_path_not_container [simp]:
  "\<not> is_plain_object v \<Longrightarrow> \<not> is_array v \<Longrightarrow> q \<noteq> [] \<Longrightarrow> get_at_path v q = JUndefined"
  by (cases q) simp_all

lemma get_at_path_empty_obj [simp]: "q \<noteq> [] \<Longrightarrow> get_at_path (JObj []) q = JUndefined"
  by (cases q; cases "tl q") (simp_all add: get_prop_obj)

lemma get_at_path_child:
  "\<not> is_array v \<Longrightarrow> q \<noteq> [] \<Longrightarrow> get_at_path (JObj (case v of JObj kvs \<Rightarrow> kvs | _ \<Rightarrow> [])) q = get_at_path v q"
  by (cases v) simp_all

lemma get_set_same:
  "path \<noteq> [] \<Longrightarrow> get_at_path (JObj (set_at_path obj path v)) path = v"
  by (induction obj path v rule: set_at_path.induct) (simp_all add: get_prop_obj)

lemma get_set_other:
  "no_array_on obj path \<Longrightarrow> \<not> prefix path q \<Longrightarrow> \<not> prefix q path \<Longrightarrow>
   get_at_path (JObj (set_at_path obj path v)) q = get_at_path (JObj obj) q"
proof (induction obj path v arbitrary: q rule: set_at_path.induct)
  case (2 obj head v)
  then show ?case by (cases q) (auto simp: get_prop_obj)
next
  case (3 obj head p rest v)
  obtain k q' where q: "q = k # q'" using "3.prems"(3) by (cases q) auto
  show ?case
  proof (cases "k = head")
    case True
    then have "q' \<noteq> []" "\<not> prefix (p # rest) q'" "\<not> prefix q' (p # rest)"
      using "3.prems" q by auto
    then show ?thesis
      using "3.IH" [of q'] "3.prems"(1) True q get_at_path_child [of "entry_get obj head" q']
      by (simp add: get_prop_obj)
  qed (simp add: q get_prop_obj)
qed auto

text \<open>
  Writing a field writes that field and nothing else: the value reads back at its path, and
  every path that neither contains it nor lies below it reads as it did.
\<close>

theorem form_edit_is_local:
  assumes "path \<noteq> []" "no_array_on obj path" "\<not> prefix path q" "\<not> prefix q path"
  shows "get_at_path (JObj (set_at_path obj path v)) path = v \<and>
    get_at_path (JObj (set_at_path obj path v)) q = get_at_path (JObj obj) q"
  using assms by (simp add: get_set_same get_set_other)

theorem form_edit_is_local_witness:
  "get_at_path (JObj (set_at_path [(''spec'', JObj [(''a'', JNum 1)])] [''spec'', ''b''] (JNum 2)))
     [''spec'', ''b''] = JNum 2 \<and>
   get_at_path (JObj (set_at_path [(''spec'', JObj [(''a'', JNum 1)])] [''spec'', ''b''] (JNum 2)))
     [''spec'', ''a'']
   = get_at_path (JObj [(''spec'', JObj [(''a'', JNum 1)])]) [''spec'', ''a'']"
  by (rule form_edit_is_local) (simp_all add: entry_get_def)

section \<open>Picking a branch\<close>

lemma first_index_SomeI:
  "i < length xs \<Longrightarrow> P (xs ! i) \<Longrightarrow> (\<And>j. j < i \<Longrightarrow> \<not> P (xs ! j)) \<Longrightarrow> first_index P xs = Some i"
proof (induction P xs arbitrary: i rule: first_index.induct)
  case (2 P x xs)
  show ?case
  proof (cases i)
    case 0
    then show ?thesis using 2 by simp
  next
    case (Suc m)
    have "\<not> P x" using "2.prems"(3) [of 0] Suc by simp
    moreover have "first_index P xs = Some m"
    proof (rule "2.IH")
      show "\<not> P x" by fact
      show "m < length xs" "P (xs ! m)" using "2.prems"(1,2) Suc by simp_all
      show "\<not> P (xs ! j)" if "j < m" for j using "2.prems"(3) [of "Suc j"] that Suc by simp
    qed
    ultimately show ?thesis using Suc by simp
  qed
qed simp

lemma first_index_None: "(\<And>x. x \<in> set xs \<Longrightarrow> \<not> P x) \<Longrightarrow> first_index P xs = None"
  by (induction xs) auto

lemma has_key_seeded:
  "has_key (fold (\<lambda>key. AList.update key (f key)) ks out) k \<longleftrightarrow> k \<in> set ks \<or> has_key out k"
  by (induction ks arbitrary: out) (auto simp: dom_update)

lemma has_key_seed:
  "has_key (seed_required_keys b) k \<longleftrightarrow> k \<in> set (opt_list (sc_required (core (br_schema b))))"
  by (simp add: seed_required_keys_def Let_def has_key_seeded)

definition required_of :: "discriminator_branch \<Rightarrow> string list" where
  "required_of b = opt_list (sc_required (core (br_schema b)))"

definition keyed_branches :: "discriminator_branch list \<Rightarrow> bool" where
  "keyed_branches bs \<longleftrightarrow> list_all (\<lambda>b. nonempty (br_key b)) bs \<and> distinct (map br_key bs)"

text \<open>
  The branch an operator picks becomes the active one, so its fields appear. Keyed branches
  with distinct keys always do; branches told apart by their required fields do when the picked
  one has some and no earlier branch asks for a part of them only. (The picked schema is not a
  scalar.)
\<close>

theorem picked_branch_is_active:
  assumes "i < length bs" "primitive_empty_for (sc_type (core (br_schema (bs ! i)))) = None"
    and "keyed_branches bs \<or>
      list_all (\<lambda>b. br_key b = None) bs \<and> required_of (bs ! i) \<noteq> [] \<and>
      (\<forall>j < i. required_of (bs ! j) = [] \<or> \<not> set (required_of (bs ! j)) \<subseteq> set (required_of (bs ! i)))"
  shows "active_branch bs (seed_branch_value (bs ! i)) = Some i"
proof (cases "keyed_branches bs")
  case True
  then have key: "nonempty (br_key (bs ! j))" if "j < length bs" for j
    using that by (simp add: keyed_branches_def list_all_length)
  let ?obj = "[(the (br_key (bs ! i)), JObj (seed_required_keys (bs ! i)))]"
  have seed: "seed_branch_value (bs ! i) = JObj ?obj"
    using assms(1,2) key by (simp add: seed_branch_value_def)
  have other: "br_key (bs ! j) \<noteq> br_key (bs ! i)" if "j < i" for j
    using True that assms(1) by (auto simp: keyed_branches_def distinct_conv_nth)
  have "first_index (key_active ?obj) bs = Some i"
  proof (rule first_index_SomeI)
    show "key_active ?obj (bs ! i)" using key [OF assms(1)] by (simp add: key_active_def)
    show "\<not> key_active ?obj (bs ! j)" if "j < i" for j
      using other [OF that] key [of j] key [OF assms(1)] that assms(1)
      by (auto simp: key_active_def nonempty_def split: option.splits)
  qed (rule assms(1))
  then show ?thesis by (simp add: active_branch_def seed)
next
  case False
  with assms(3) have free: "list_all (\<lambda>b. br_key b = None) bs" and req: "required_of (bs ! i) \<noteq> []"
    and least: "\<forall>j < i. required_of (bs ! j) = [] \<or>
      \<not> set (required_of (bs ! j)) \<subseteq> set (required_of (bs ! i))" by auto
  let ?obj = "seed_required_keys (bs ! i)"
  have seed: "seed_branch_value (bs ! i) = JObj ?obj"
    using assms(1,2) free by (simp add: seed_branch_value_def nonempty_def list_all_length)
  have active: "required_active ?obj b \<longleftrightarrow>
      required_of b \<noteq> [] \<and> set (required_of b) \<subseteq> set (required_of (bs ! i))" for b
    by (auto simp: required_active_def required_of_def Let_def list_all_iff has_key_seed)
  have "first_index (key_active ?obj) bs = None"
    using free by (intro first_index_None) (auto simp: key_active_def nonempty_def list_all_iff)
  moreover have "first_index (required_active ?obj) bs = Some i"
    by (rule first_index_SomeI) (use assms(1) req least active in auto)
  ultimately show ?thesis by (simp add: active_branch_def seed)
qed

definition sample_branch :: "string \<Rightarrow> discriminator_branch" where
  "sample_branch k =
     Branch k None (Schema (blank\<lparr>sc_type := Some (TypeName ''object'')\<rparr>) None None None None None)
       (Some k) []"

theorem picked_branch_is_active_witness:
  "active_branch [sample_branch ''ca'', sample_branch ''vault'']
     (seed_branch_value ([sample_branch ''ca'', sample_branch ''vault''] ! 1)) = Some 1"
  by (rule picked_branch_is_active)
     (simp_all add: sample_branch_def primitive_empty_for_def keyed_branches_def nonempty_def)

section \<open>Where the form loses input\<close>

text \<open>
  A keyed branch whose schema is a scalar is seeded with the bare scalar: picking it replaces
  the whole object by that scalar instead of storing it under the branch's key.
\<close>

theorem scalar_branch_replaces_object:
  assumes "br_key b = Some k" "primitive_empty_for (sc_type (core (br_schema b))) = Some v"
  shows "seed_branch_value b = v \<and> \<not> is_plain_object (seed_branch_value b)"
  using assms by (auto simp: seed_branch_value_def primitive_empty_for_def split: if_splits)

text \<open>
  Switching the branch of a keyed discriminator drops every property that is not the picked
  key, so the shared fields (the thresholds of a probe) do not survive the switch the hint
  table promises they survive.
\<close>

theorem switch_drops_shared_fields:
  assumes "switch_branch bs v idx ok = Some nxt" "idx < length bs" "nonempty (br_key (bs ! idx))"
    and "primitive_empty_for (sc_type (core (br_schema (bs ! idx)))) = None"
    and "x \<noteq> the (br_key (bs ! idx))"
  shows "get_at_path nxt [x] = JUndefined"
  using assms
  by (auto simp: switch_branch_def seed_branch_value_def Let_def get_prop_obj split: if_splits)

theorem switch_drops_shared_fields_witness:
  "get_at_path
     (JObj [(''exec'', JObj [])]) [''periodSeconds''] = JUndefined"
proof (rule switch_drops_shared_fields
    [of "[sample_branch ''httpGet'', sample_branch ''exec'']"
        "JObj [(''httpGet'', JObj []), (''periodSeconds'', JNum 5)]" 1 True])
  show "switch_branch [sample_branch ''httpGet'', sample_branch ''exec'']
      (JObj [(''httpGet'', JObj []), (''periodSeconds'', JNum 5)]) 1 True = Some (JObj [(''exec'', JObj [])])"
    by code_simp
qed (simp_all add: sample_branch_def nonempty_def primitive_empty_for_def)

text \<open>
  The rows of an array whose items are a hinted type (volumes, environment sources) get a
  single discriminator at the empty path, and an update at the empty path returns the row
  unchanged: whatever the operator picks or types in such a row is dropped.
\<close>

theorem hinted_rows_ignore_edits:
  assumes "items s = Some its" "find_hint opts its = Some hint"
    and "normalize_type (sc_type (core s)) = ''array''"
    and "normalize_type (sc_type (core (row_schema opts its seen))) = ''object''"
    and "wo_allow_array_of_objects opts" "properties (row_schema opts its seen) \<noteq> None"
    and "build_hinted opts (row_schema opts its seen) hint (row_seen opts its seen) \<noteq> None"
    and "\<not> sc_any_of (core s)" "one_of s = None" "all_of s = None" "\<not> sc_pattern_properties (core s)"
      "sc_ref (core s) = None" "wo_section_resolver opts = None"
  shows "\<exists>d. children (walk_typed opts s path base seen) = Some [d] \<and>
    fd_type (fcore d) = FtDiscriminator \<and> field_row_update d row nxt = row"
  using assms
  by (auto simp: walk_typed.simps Let_def primitive_types_def stamp_rows_def field_row_update_def
      plain_core_def)

definition row_options :: walk_options where
  "row_options =
     \<lparr>wo_components =
        Some [(''Volume'', Schema (blank\<lparr>sc_type := Some (TypeName ''object'')\<rparr>)
                (Some [(''name'', Schema (blank\<lparr>sc_type := Some (TypeName ''string'')\<rparr>) None None None None None),
                       (''emptyDir'', Schema (blank\<lparr>sc_type := Some (TypeName ''object'')\<rparr>) None None None None None)])
                None None None None)],
      wo_allow_kv_map = True, wo_allow_array_of_objects = True, wo_allow_one_of = True,
      wo_create_only_paths = [], wo_section_resolver = None, wo_sub_section_resolver = None,
      wo_hints = [(ref_prefix @ ''Volume'', \<lparr>dh_branches = [''emptyDir''], dh_labels = []\<rparr>)]\<rparr>"

definition volume_ref :: json_schema where
  "volume_ref = Schema (blank\<lparr>sc_ref := Some (ref_prefix @ ''Volume'')\<rparr>) None None None None None"

definition volumes_schema :: json_schema where
  "volumes_schema =
     Schema (blank\<lparr>sc_type := Some (TypeName ''array'')\<rparr>) None None (Some volume_ref) None None"

theorem hinted_rows_ignore_edits_witness:
  "\<exists>d. children (walk_typed row_options volumes_schema [''volumes''] (plain_core [''volumes''] [] FtUnsupported) [])
       = Some [d] \<and> fd_type (fcore d) = FtDiscriminator \<and>
     field_row_update d [(''name'', JStr ''v'')] (JObj [(''emptyDir'', JObj [])]) = [(''name'', JStr ''v'')]"
proof (rule hinted_rows_ignore_edits)
  show "items volumes_schema = Some volume_ref" by (simp add: volumes_schema_def)
  show "find_hint row_options volume_ref = Some \<lparr>dh_branches = [''emptyDir''], dh_labels = []\<rparr>"
    by code_simp
  show "normalize_type (sc_type (core volumes_schema)) = ''array''" by code_simp
  show "normalize_type (sc_type (core (row_schema row_options volume_ref []))) = ''object''" by code_simp
  show "properties (row_schema row_options volume_ref []) \<noteq> None" by code_simp
  show "build_hinted row_options (row_schema row_options volume_ref [])
      \<lparr>dh_branches = [''emptyDir''], dh_labels = []\<rparr> (row_seen row_options volume_ref []) \<noteq> None"
    by (simp add: build_hinted.simps Let_def) code_simp
qed (simp_all add: row_options_def volumes_schema_def blank_def)

theorem scalar_branch_replaces_object_witness:
  "let b = Branch ''size'' None
         (Schema (blank\<lparr>sc_type := Some (TypeName ''string'')\<rparr>) None None None None None) (Some ''size'') []
   in seed_branch_value b = JStr [] \<and> \<not> is_plain_object (seed_branch_value b)"
  unfolding Let_def
  by (rule scalar_branch_replaces_object) (simp_all add: primitive_empty_for_def blank_def)

section \<open>Key-value rows\<close>

lemma to_record_snoc:
  "to_record (es @ [(k, v)]) =
     (if k = [] \<or> has_key (to_record es) k then to_record es else to_record es @ [(k, v)])"
  by (simp add: to_record_def)

lemma saved_rows:
  "set (map fst out) = set seen \<Longrightarrow> [] \<notin> set seen \<Longrightarrow>
   foldl (\<lambda>out (k, v). if k = [] \<or> has_key out k then out else out @ [(k, v)]) out es =
     out @ map fst (filter (\<lambda>p. snd p = RowOk) (zip es (row_states seen es)))"
proof (induction seen es arbitrary: out rule: row_states.induct)
  case (2 seen k v es)
  show ?case
  proof (cases "k = []")
    case True
    then show ?thesis using "2.IH"(1) [OF True "2.prems"] by simp
  next
    case ne: False
    show ?thesis
    proof (cases "k \<in> set seen")
      case True
      then have "has_key out k" using "2.prems"(1) by auto
      then show ?thesis using "2.IH"(2) [OF ne True "2.prems"] ne True by simp
    next
      case False
      then have "\<not> has_key out k" using "2.prems"(1) by auto
      then show ?thesis
        using "2.IH"(3) [OF ne False, of "out @ [(k, v)]"] "2.prems" ne False by simp
    qed
  qed
qed simp

text \<open>
  The key-value editor saves exactly the rows it does not flag: those with an empty key or with
  the key of an earlier row are left out, the others are kept in order.
\<close>

theorem kv_saves_unflagged_rows:
  "to_record es = map fst (filter (\<lambda>p. snd p = RowOk) (zip es (row_states [] es)))"
  using saved_rows [of "[]" "[]" es] by (simp add: to_record_def)

section \<open>Open state\<close>

text \<open>
  A toggle flips the element clicked and no other, in either mode; expanding or collapsing all
  reaches every element.
\<close>

theorem toggle_flips_one:
  "is_open (toggle_open i s) j = (if j = i then \<not> is_open s i else is_open s j) \<and>
   is_open (expand_all s) j \<and> \<not> is_open (collapse_all s) j"
  by (auto simp: is_open_def toggle_open_def expand_all_def collapse_all_def)

text \<open>
  After a row is removed the open rows are the ones that were open: position \<open>i\<close> is open exactly
  when the row now at \<open>i\<close> was.
\<close>

theorem open_rows_follow_removal:
  assumes "removed < length arr" "i < length arr - 1"
  defines "old \<equiv> if i < removed then i else i + 1"
  shows "remove_row arr removed ! i = arr ! old \<and>
    (i \<in> set (shift_open_on_remove prev removed) \<longleftrightarrow> old \<in> set prev)"
proof
  show "remove_row arr removed ! i = arr ! old"
    using assms by (simp add: remove_row_def nth_append)
  show "i \<in> set (shift_open_on_remove prev removed) \<longleftrightarrow> old \<in> set prev"
    unfolding old_def shift_open_on_remove_def by (force split: if_splits)
qed

theorem open_rows_follow_removal_witness:
  "remove_row [JNum 0, JNum 1, JNum 2] 0 ! 1 = [JNum 0, JNum 1, JNum 2] ! 2 \<and>
   (1 \<in> set (shift_open_on_remove [2] 0) \<longleftrightarrow> 2 \<in> set [2 :: nat])"
  using open_rows_follow_removal [of 0 "[JNum 0, JNum 1, JNum 2]" 1 "[2]"] by simp

end
