(* ===== verification/Helm.thy ===== *)
theory Helm
  imports ResourceQueries LogView "HOL-Library.List_Lexorder" "HOL-Library.Char_ord"
begin

text \<open>
  Model of the Helm browser: the hooks \<open>web/src/hooks/useHelm.ts\<close> and \<open>useChartFetch.ts\<close>, the pages
  \<open>HelmReleasesPage\<close>, \<open>HelmReleasePage\<close> and \<open>HelmDiffPage\<close>, and the dialogs of
  \<open>components/helm\<close>: \<open>ChartActionDialog\<close> (install and upgrade), \<open>RollbackModal\<close> and
  \<open>UninstallReleaseModal\<close>. A mutation runs the callbacks of its latest call only, as the query
  library documents.
\<close>

section \<open>Hooks\<close>

definition helm_releases_query :: "string \<Rightarrow> query_spec" where
  "helm_releases_query c =
     \<lparr>qs_query = QCluster c (CHelm HList), qs_request = Some (helm_request (HelmReleases c)),
      qs_enabled = (c \<noteq> []), qs_interval = None\<rparr>"

definition helm_release_query :: "string \<Rightarrow> string \<Rightarrow> string \<Rightarrow> int \<Rightarrow> query_spec" where
  "helm_release_query c ns name revision =
     \<lparr>qs_query = QCluster c (CHelm (HDetail ns name revision)),
      qs_request = Some (helm_request (HelmRelease c ns name (if revision = 0 then None else Some revision))),
      qs_enabled = (c \<noteq> [] \<and> ns \<noteq> [] \<and> name \<noteq> []), qs_interval = None\<rparr>"

definition helm_history_query :: "string \<Rightarrow> string \<Rightarrow> string \<Rightarrow> query_spec" where
  "helm_history_query c ns name =
     \<lparr>qs_query = QCluster c (CHelm (HHistory ns name)),
      qs_request = Some (helm_request (HelmHistory c ns name)),
      qs_enabled = (c \<noteq> [] \<and> ns \<noteq> [] \<and> name \<noteq> []), qs_interval = None\<rparr>"

definition helm_diff_query :: "string \<Rightarrow> string \<Rightarrow> string \<Rightarrow> int \<Rightarrow> int \<Rightarrow> query_spec" where
  "helm_diff_query c ns name from_rev to_rev =
     \<lparr>qs_query = QCluster c (CHelm (HDiff ns name from_rev to_rev)),
      qs_request = Some (helm_request (HelmDiff c ns name from_rev to_rev)),
      qs_enabled = (c \<noteq> [] \<and> ns \<noteq> [] \<and> name \<noteq> [] \<and> (0 < from_rev \<or> 0 < to_rev)), qs_interval = None\<rparr>"

definition chart_versions_query :: "string \<Rightarrow> string \<Rightarrow> string \<Rightarrow> bool \<Rightarrow> query_spec" where
  "chart_versions_query c ref chart enabled =
     \<lparr>qs_query = QCluster c (CHelm (HChartVersions ref chart)),
      qs_request = Some (helm_request (ChartVersions c ref chart False)),
      qs_enabled = (enabled \<and> 0 < length ref), qs_interval = None\<rparr>"

text \<open>What the mutations invalidate on success, as key prefixes.\<close>

definition helm_detail_prefix :: "string \<Rightarrow> string \<Rightarrow> string \<Rightarrow> query_key" where
  "helm_detail_prefix c ns name =
     [KStr ''cluster'', KStr c, KStr ''helm'', KStr ''detail'', KStr ns, KStr name]"

definition after_install :: "string \<Rightarrow> query_key list" where
  "after_install c = [query_key (QCluster c (CHelm HList))]"

definition after_upgrade :: "string \<Rightarrow> string \<Rightarrow> string \<Rightarrow> query_key list" where
  "after_upgrade c ns name =
     [helm_detail_prefix c ns name, query_key (QCluster c (CHelm (HHistory ns name)))]"

definition after_uninstall :: "string \<Rightarrow> query_key list" where
  "after_uninstall c = [query_key (QCluster c (CHelm HList))]"

definition after_rollback :: "string \<Rightarrow> string \<Rightarrow> string \<Rightarrow> query_key list" where
  "after_rollback c ns name =
     [query_key (QCluster c (CHelm HList)), query_key (QCluster c (CHelm (HHistory ns name))),
      helm_detail_prefix c ns name]"

definition key_swept :: "query_key list \<Rightarrow> query \<Rightarrow> bool" where
  "key_swept ks q \<longleftrightarrow> list_ex (\<lambda>k. prefix k (query_key q)) ks"

section \<open>List of releases\<close>

record helm_release =
  hl_name :: string
  hl_namespace :: string
  hl_revision :: int
  hl_status :: string

definition release_statuses :: "helm_release list \<Rightarrow> string list" where
  "release_statuses rs = sort (remdups (filter (\<lambda>s. s \<noteq> []) (map hl_status rs)))"

definition filter_releases :: "string \<Rightarrow> string option \<Rightarrow> helm_release list \<Rightarrow> helm_release list" where
  "filter_releases search status rs =
     (let a = (if search \<noteq> [] then filter (\<lambda>r. name_matches (hl_name r) search) rs else rs)
      in case status of None \<Rightarrow> a
         | Some s \<Rightarrow> if s \<noteq> [] then filter (\<lambda>r. hl_status r = s) a else a)"

datatype status_tone = ToneGreen | ToneYellow | ToneRed | ToneMuted

definition release_tone :: "string \<Rightarrow> status_tone" where
  "release_tone s =
     (if s = ''deployed'' then ToneGreen
      else if s \<in> {''pending-install'', ''pending-upgrade'', ''pending-rollback'', ''uninstalling''} then ToneYellow
      else if s = ''failed'' then ToneRed else ToneMuted)"

definition change_tone :: "string \<Rightarrow> status_tone" where
  "change_tone k =
     (if k = ''modify'' then ToneYellow else if k = ''add'' then ToneGreen
      else if k = ''remove'' then ToneRed else ToneMuted)"

text \<open>A parameter of the page's query string; an absent or empty value removes it.\<close>

definition set_page_param :: "string \<Rightarrow> string option \<Rightarrow> params \<Rightarrow> params" where
  "set_page_param k v ps =
     (case v of None \<Rightarrow> AList.delete k ps
      | Some s \<Rightarrow> if s = [] then AList.delete k ps else param_set k s ps)"

text \<open>\<open>parseInt(params.get(k) ?? "0", 10) || 0\<close>.\<close>

definition revision_param :: "string \<Rightarrow> params \<Rightarrow> int" where
  "revision_param k ps =
     (case parse_int (case param_get k ps of None \<Rightarrow> ''0'' | Some s \<Rightarrow> s) of None \<Rightarrow> 0 | Some n \<Rightarrow> n)"

definition helm_release_path :: "string \<Rightarrow> string \<Rightarrow> string \<Rightarrow> string" where
  "helm_release_path c ns name = url_path [''clusters'', enc c, ''helm'', enc ns, enc name]"

definition compare_path :: "string \<Rightarrow> string \<Rightarrow> string \<Rightarrow> int \<Rightarrow> int \<Rightarrow> string" where
  "compare_path c ns name from_rev to_rev =
     url_path [''clusters'', enc c, ''helm'', enc ns, enc name, ''diff''] @
       ''?from='' @ show_int from_rev @ ''&to='' @ show_int to_rev"

text \<open>The filter of the changes beside a diff.\<close>

record diff_item =
  di_path :: string
  di_kind :: string
  di_before :: "string option"
  di_after :: "string option"

definition filter_changes :: "string \<Rightarrow> diff_item list \<Rightarrow> diff_item list" where
  "filter_changes flt cs =
     (if flt = [] then cs
      else (let f = to_lower flt
            in filter (\<lambda>c. str_contains (to_lower (di_path c)) f \<or> str_contains (to_lower (di_kind c)) f
                        \<or> str_contains (to_lower (str_or_empty (di_before c))) f
                        \<or> str_contains (to_lower (str_or_empty (di_after c))) f) cs))"

section \<open>Rendered objects\<close>

record helm_object =
  ho_api :: string
  ho_kind :: string
  ho_namespace :: string
  ho_name :: string

definition count_kinds :: "string list \<Rightarrow> (string \<times> nat) list" where
  "count_kinds ks =
     fold (\<lambda>k m. AList.update k ((case map_of m k of None \<Rightarrow> 0 | Some n \<Rightarrow> n) + 1) m) ks []"

text \<open>The four most frequent kinds, and how many further kinds there are.\<close>

definition resource_summary :: "helm_object list \<Rightarrow> (string \<times> nat) list \<times> nat" where
  "resource_summary rs =
     (let counts = sort_by (\<lambda>a b. int (snd b) - int (snd a)) (count_kinds (map ho_kind rs));
          top = take 4 counts
      in (top, length counts - length top))"

definition object_kind :: "helm_object \<Rightarrow> string" where
  "object_kind m = (if ho_kind m \<noteq> [] then ho_kind m else ''Unknown'')"

definition group_objects :: "helm_object list \<Rightarrow> (string \<times> helm_object list) list" where
  "group_objects ms =
     fold (\<lambda>m acc. AList.update (object_kind m)
             ((case map_of acc (object_kind m) of None \<Rightarrow> [] | Some xs \<Rightarrow> xs) @ [m]) acc) ms []"

definition resources_tab :: "helm_object list \<Rightarrow> (string \<times> helm_object list) list" where
  "resources_tab ms =
     (let g = group_objects ms in map (\<lambda>k. (k, the (map_of g k))) (sort (map fst g)))"

section \<open>History, comparison and rollback\<close>

text \<open>\<open>Array.prototype.sort()\<close> without a comparator compares numbers by their decimal strings.\<close>

definition compare_as_strings :: "int \<Rightarrow> int \<Rightarrow> int" where
  "compare_as_strings a b =
     (if show_int a < show_int b then -1 else if show_int b < show_int a then 1 else 0)"

definition toggle_revision :: "int \<Rightarrow> int list \<Rightarrow> int list" where
  "toggle_revision rv sel =
     (if rv \<in> set sel then filter (\<lambda>r. r \<noteq> rv) sel
      else if 2 \<le> length sel
      then filter (\<lambda>r. r \<noteq> hd (sort_by compare_as_strings sel)) sel @ [rv]
      else sel @ [rv])"

definition compare_enabled :: "int list \<Rightarrow> bool" where
  "compare_enabled sel = (length sel = 2)"

definition compare_selected :: "string \<Rightarrow> string \<Rightarrow> string \<Rightarrow> int list \<Rightarrow> string option" where
  "compare_selected c ns name sel =
     (let s = sort sel in if compare_enabled sel then Some (compare_path c ns name (s ! 0) (s ! 1)) else None)"

record rollback_error =
  re_status :: "int option"
  re_message :: string
  re_denied :: "jsval list option"

text \<open>
  The error shown in the dialog: \<open>parse\<close> is \<open>JSON.parse\<close>, None when it throws; reading a field of
  a parsed null throws as well. A message that is not a string is shown by \<open>String\<close>.
\<close>

definition to_rollback_error :: "(string \<Rightarrow> jsval option) \<Rightarrow> thrown \<Rightarrow> rollback_error" where
  "to_rollback_error parse err =
     (case err of
        ThrownApi e \<Rightarrow>
          (case ae_body e of
             Some t \<Rightarrow>
               if t = [] then \<lparr>re_status = Some (ae_status e), re_message = ae_message e, re_denied = None\<rparr>
               else (case parse t of
                       Some v \<Rightarrow>
                         if v = JNull
                         then \<lparr>re_status = Some (ae_status e), re_message = t, re_denied = None\<rparr>
                         else \<lparr>re_status = Some (ae_status e),
                               re_message = (let m = get_prop v ''message''
                                 in if m = JUndefined \<or> m = JNull then ae_message e else js_to_string m),
                               re_denied = (case get_prop v ''denied'' of JArr ds \<Rightarrow> Some ds | _ \<Rightarrow> None)\<rparr>
                     | None \<Rightarrow> \<lparr>re_status = Some (ae_status e), re_message = t, re_denied = None\<rparr>)
           | None \<Rightarrow> \<lparr>re_status = Some (ae_status e), re_message = ae_message e, re_denied = None\<rparr>)
      | ThrownMultiDocument m \<Rightarrow> \<lparr>re_status = None, re_message = m, re_denied = None\<rparr>
      | ThrownYamlParse m \<Rightarrow> \<lparr>re_status = None, re_message = m, re_denied = None\<rparr>
      | ThrownError m \<Rightarrow> \<lparr>re_status = None, re_message = m, re_denied = None\<rparr>
      | ThrownOther m \<Rightarrow> \<lparr>re_status = None, re_message = ''unknown error'', re_denied = None\<rparr>)"

definition blocked_by_denial :: "rollback_error option \<Rightarrow> bool" where
  "blocked_by_denial err =
     (case err of None \<Rightarrow> False
      | Some e \<Rightarrow> (case re_denied e of None \<Rightarrow> False | Some ds \<Rightarrow> ds \<noteq> []))"

record history_tab =
  ht_selected :: "int list"
  ht_target :: "int option"
  ht_pending :: bool
  ht_error :: "rollback_error option"
  ht_wait :: bool
  ht_cleanup :: bool
  ht_no_hooks :: bool
  ht_sent :: "http_request list"
  ht_swept :: "query_key list"

definition initial_history :: history_tab where
  "initial_history =
     \<lparr>ht_selected = [], ht_target = None, ht_pending = False, ht_error = None, ht_wait = True,
      ht_cleanup = False, ht_no_hooks = False, ht_sent = [], ht_swept = []\<rparr>"

text \<open>
  The tab of a page that shows the revision \<open>hp_viewed\<close>; \<open>hp_diff\<close> says whether the diff of the
  dialog has arrived. An open dialog covers the rows.
\<close>

record history_props =
  hp_cluster :: string
  hp_ns :: string
  hp_name :: string
  hp_viewed :: int
  hp_diff :: bool

definition is_current_row :: "history_props \<Rightarrow> int \<Rightarrow> bool" where
  "is_current_row p rv = (rv = hp_viewed p)"

definition rollback_diff :: "history_props \<Rightarrow> history_tab \<Rightarrow> query_spec" where
  "rollback_diff p s =
     helm_diff_query (hp_cluster p) (hp_ns p) (hp_name p) (hp_viewed p)
       (case ht_target s of None \<Rightarrow> 0 | Some r \<Rightarrow> r)"

definition can_submit_rollback :: "history_props \<Rightarrow> history_tab \<Rightarrow> bool" where
  "can_submit_rollback p s = (\<not> ht_pending s \<and> hp_diff p \<and> \<not> blocked_by_denial (ht_error s))"

definition rollback_body :: "history_tab \<Rightarrow> int \<Rightarrow> jsval" where
  "rollback_body s rv =
     JObj [(''revision'', JNum rv), (''wait'', JBool (ht_wait s)),
           (''cleanupOnFail'', JBool (ht_cleanup s)), (''disableHooks'', JBool (ht_no_hooks s))]"

datatype history_event =
    ToggleRevision int
  | RollbackClicked int
  | SetWait bool
  | SetCleanup bool
  | SetNoHooks bool
  | RollbackConfirmed
  | RollbackDone
  | RollbackFailed rollback_error
  | RollbackClosed

fun history_step :: "history_props \<Rightarrow> history_tab \<Rightarrow> history_event \<Rightarrow> history_tab" where
  "history_step p s (ToggleRevision rv) = s\<lparr>ht_selected := toggle_revision rv (ht_selected s)\<rparr>"
| "history_step p s (RollbackClicked rv) =
     (if is_current_row p rv \<or> ht_target s \<noteq> None then s else s\<lparr>ht_target := Some rv\<rparr>)"
| "history_step p s (SetWait b) = (if ht_pending s then s else s\<lparr>ht_wait := b\<rparr>)"
| "history_step p s (SetCleanup b) = (if ht_pending s then s else s\<lparr>ht_cleanup := b\<rparr>)"
| "history_step p s (SetNoHooks b) = (if ht_pending s then s else s\<lparr>ht_no_hooks := b\<rparr>)"
| "history_step p s RollbackConfirmed =
     (case ht_target s of
        None \<Rightarrow> s
      | Some rv \<Rightarrow>
          if can_submit_rollback p s
          then s\<lparr>ht_pending := True, ht_error := None,
                 ht_sent := ht_sent s @ [helm_action_request
                   (HelmRollback (hp_cluster p) (hp_ns p) (hp_name p) (rollback_body s rv))]\<rparr>
          else s)"
| "history_step p s RollbackDone =
     (if ht_pending s
      then s\<lparr>ht_pending := False, ht_error := None, ht_target := None,
             ht_swept := ht_swept s @ after_rollback (hp_cluster p) (hp_ns p) (hp_name p)\<rparr>
      else s)"
| "history_step p s (RollbackFailed err) =
     (if ht_pending s then s\<lparr>ht_pending := False, ht_error := Some err\<rparr> else s)"
| "history_step p s RollbackClosed =
     (if ht_pending s then s else s\<lparr>ht_target := None, ht_error := None\<rparr>)"

section \<open>Uninstall\<close>

record uninstall_modal =
  un_open :: bool
  un_confirm :: string
  un_keep :: bool
  un_no_hooks :: bool
  un_pending :: bool
  un_error :: bool
  un_sent :: "http_request list"
  un_left :: bool

definition initial_uninstall :: uninstall_modal where
  "initial_uninstall =
     \<lparr>un_open = False, un_confirm = [], un_keep = False, un_no_hooks = False, un_pending = False,
      un_error = False, un_sent = [], un_left = False\<rparr>"

datatype uninstall_event =
    UninstallClicked
  | TypeName string
  | SetKeepHistory bool
  | SetDisableHooks bool
  | UninstallConfirmed
  | UninstallDone
  | UninstallFailed
  | UninstallClosed

fun uninstall_step :: "string \<Rightarrow> string \<Rightarrow> string \<Rightarrow> uninstall_modal \<Rightarrow> uninstall_event \<Rightarrow> uninstall_modal" where
  "uninstall_step c ns name s UninstallClicked = s\<lparr>un_open := True\<rparr>"
| "uninstall_step c ns name s (TypeName t) = (if un_open s \<and> \<not> un_pending s then s\<lparr>un_confirm := t\<rparr> else s)"
| "uninstall_step c ns name s (SetKeepHistory b) = (if un_open s \<and> \<not> un_pending s then s\<lparr>un_keep := b\<rparr> else s)"
| "uninstall_step c ns name s (SetDisableHooks b) =
     (if un_open s \<and> \<not> un_pending s then s\<lparr>un_no_hooks := b\<rparr> else s)"
| "uninstall_step c ns name s UninstallConfirmed =
     (if un_open s \<and> un_confirm s = name \<and> \<not> un_pending s
      then s\<lparr>un_pending := True, un_error := False,
             un_sent := un_sent s @ [helm_action_request (HelmUninstall c ns name (un_keep s) (un_no_hooks s))]\<rparr>
      else s)"
| "uninstall_step c ns name s UninstallDone =
     (if un_pending s then s\<lparr>un_pending := False, un_open := False, un_left := True\<rparr> else s)"
| "uninstall_step c ns name s UninstallFailed =
     (if un_pending s then s\<lparr>un_pending := False, un_error := True\<rparr> else s)"
| "uninstall_step c ns name s UninstallClosed =
     (if un_open s \<and> \<not> un_pending s then s\<lparr>un_open := False, un_error := False\<rparr> else s)"

section \<open>The chart dialog\<close>

text \<open>
  The props of the dialog: install, or the upgrade of a release with what its form starts from
  (an absent value is the empty string). The status of the form is the state; the answers of the
  server arrive as events.
\<close>

record chart_props =
  cp_install :: bool
  cp_cluster :: string
  cp_namespace :: string
  cp_release :: string
  cp_ref :: string
  cp_chart :: string
  cp_values :: string

record chart_result =
  ch_name :: string
  ch_version :: string
  ch_values :: string

record chart_preview =
  pv_manifests :: "helm_object list"
  pv_yaml :: string
  pv_diff :: "diff_item list option"
  pv_denied :: "string list option"

datatype rendered_tab = TabManifest | TabDiff | TabResources

record chart_dialog =
  cd_props :: chart_props
  cd_open :: bool
  cd_ref :: string
  cd_name :: string
  cd_version :: string
  cd_values :: string
  cd_chart :: "chart_result option"
  cd_namespace :: string
  cd_release :: string
  cd_preview :: "chart_preview option"
  cd_tab :: rendered_tab
  cd_fetch :: "bool option"
  cd_asked :: "http_request option"
  cd_previewing :: bool
  cd_acting :: "chart_props option"
  cd_resets :: "chart_props list"
  cd_sent :: "http_request list"
  cd_swept :: "query_key list"
  cd_toasts :: "string list"
  cd_path :: "string option"

text \<open>
  \<open>cd_fetch\<close> is the fetch of values under way, with what its callback's closure saw: whether the
  editor was empty. \<open>cd_asked\<close> is the request of the last preview; \<open>cd_acting\<close> the install or
  upgrade under way with the props its callback's closure holds; \<open>cd_resets\<close> the timers that
  restore the form, each with the props of the render that set it.
\<close>

definition default_tab :: "chart_props \<Rightarrow> rendered_tab" where
  "default_tab p = (if cp_install p then TabManifest else TabDiff)"

definition reset_form :: "chart_props \<Rightarrow> chart_dialog \<Rightarrow> chart_dialog" where
  "reset_form p s =
     s\<lparr>cd_ref := (if cp_install p then [] else cp_ref p),
       cd_name := (if cp_install p then [] else cp_chart p),
       cd_version := [], cd_values := (if cp_install p then [] else cp_values p), cd_chart := None,
       cd_namespace := ''default'', cd_release := [], cd_preview := None, cd_tab := default_tab p\<rparr>"

definition initial_dialog :: "chart_props \<Rightarrow> chart_dialog" where
  "initial_dialog p =
     \<lparr>cd_props = p, cd_open = False, cd_ref = (if cp_install p then [] else cp_ref p),
      cd_name = (if cp_install p then [] else cp_chart p), cd_version = [],
      cd_values = (if cp_install p then [] else cp_values p), cd_chart = None,
      cd_namespace = ''default'', cd_release = [], cd_preview = None, cd_tab = default_tab p,
      cd_fetch = None, cd_asked = None, cd_previewing = False, cd_acting = None, cd_resets = [],
      cd_sent = [], cd_swept = [], cd_toasts = [], cd_path = None\<rparr>"

definition target_namespace :: "chart_dialog \<Rightarrow> string" where
  "target_namespace s = (if cp_install (cd_props s) then cd_namespace s else cp_namespace (cd_props s))"

definition target_release :: "chart_dialog \<Rightarrow> string" where
  "target_release s = (if cp_install (cd_props s) then cd_release s else cp_release (cd_props s))"

definition is_oci :: "string \<Rightarrow> bool" where
  "is_oci ref = starts_with ''oci://'' ref"

definition versions_enabled :: "chart_dialog \<Rightarrow> bool" where
  "versions_enabled s = (0 < length (cd_ref s) \<and> (is_oci (cd_ref s) \<or> 0 < length (cd_name s)))"

definition str_or_undefined :: "string \<Rightarrow> jsval" where
  "str_or_undefined s = (if s \<noteq> [] then JStr s else JUndefined)"

definition values_body :: "chart_dialog \<Rightarrow> jsval" where
  "values_body s =
     JObj [(''ref'', JStr (cd_ref s)), (''chart'', str_or_undefined (cd_name s)),
           (''version'', JStr (cd_version s))]"

definition install_body :: "chart_dialog \<Rightarrow> jsval" where
  "install_body s =
     JObj [(''ref'', JStr (cd_ref s)), (''chartName'', str_or_undefined (cd_name s)),
           (''version'', JStr (cd_version s)), (''namespace'', JStr (cd_namespace s)),
           (''releaseName'', JStr (cd_release s)), (''values'', JStr (cd_values s))]"

definition upgrade_body :: "chart_dialog \<Rightarrow> jsval" where
  "upgrade_body s =
     JObj [(''ref'', JStr (cd_ref s)), (''chartName'', str_or_undefined (cd_name s)),
           (''version'', JStr (cd_version s)), (''values'', JStr (cd_values s))]"

definition preview_request :: "chart_dialog \<Rightarrow> http_request" where
  "preview_request s =
     (let c = cp_cluster (cd_props s)
      in if cp_install (cd_props s) then helm_request (HelmInstallPreview c (install_body s))
         else helm_request (HelmUpgradePreview c (target_namespace s) (target_release s) (upgrade_body s)))"

definition action_request :: "chart_dialog \<Rightarrow> http_request" where
  "action_request s =
     (let c = cp_cluster (cd_props s)
      in if cp_install (cd_props s) then helm_action_request (HelmInstall c (install_body s))
         else helm_action_request (HelmUpgrade c (target_namespace s) (target_release s) (upgrade_body s)))"

definition has_denials :: "chart_dialog \<Rightarrow> bool" where
  "has_denials s =
     (case cd_preview s of None \<Rightarrow> False
      | Some p \<Rightarrow> (case pv_denied p of None \<Rightarrow> False | Some ds \<Rightarrow> ds \<noteq> []))"

definition preview_ready :: "chart_dialog \<Rightarrow> bool" where
  "preview_ready s =
     (cd_chart s \<noteq> None
      \<and> (\<not> cp_install (cd_props s) \<or> trim_str (cd_namespace s) \<noteq> [] \<and> trim_str (cd_release s) \<noteq> [])
      \<and> 0 < length (cd_version s))"

definition action_ready :: "chart_dialog \<Rightarrow> bool" where
  "action_ready s = (preview_ready s \<and> \<not> has_denials s)"

datatype panel_state = PanelEmpty | PanelChart | PanelPreview | PanelDenied

definition dialog_panel :: "chart_dialog \<Rightarrow> panel_state" where
  "dialog_panel s =
     (if cd_chart s = None then PanelEmpty else if has_denials s then PanelDenied
      else if cd_preview s \<noteq> None then PanelPreview else PanelChart)"

definition effective_tab :: "chart_dialog \<Rightarrow> chart_preview \<Rightarrow> rendered_tab" where
  "effective_tab s p =
     (if cd_tab s = TabDiff \<and> (cp_install (cd_props s) \<or> pv_diff p = None) then TabManifest else cd_tab s)"

definition friendly_error :: "thrown \<Rightarrow> string" where
  "friendly_error err =
     (case err of
        ThrownApi e \<Rightarrow> show_int (ae_status e) @ '' '' @ ae_message e @
          (case ae_body e of Some t \<Rightarrow> if t \<noteq> [] then '' '' @ em_dash @ '' '' @ trim_str t else []
           | None \<Rightarrow> [])
      | ThrownMultiDocument m \<Rightarrow> m
      | ThrownYamlParse m \<Rightarrow> m
      | ThrownError m \<Rightarrow> m
      | ThrownOther m \<Rightarrow> m)"

definition dialog_toast :: "string \<Rightarrow> chart_dialog \<Rightarrow> chart_dialog" where
  "dialog_toast m s = s\<lparr>cd_toasts := cd_toasts s @ [m]\<rparr>"

definition close_and_reset :: "chart_props \<Rightarrow> chart_dialog \<Rightarrow> chart_dialog" where
  "close_and_reset p s = s\<lparr>cd_open := False, cd_resets := cd_resets s @ [p]\<rparr>"

text \<open>The effect on a changed version; \<open>mutate\<close> replaces the fetch under way.\<close>

definition version_effect :: "string \<Rightarrow> chart_dialog \<Rightarrow> chart_dialog" where
  "version_effect old s =
     (if cd_version s \<noteq> old \<and> cd_ref s \<noteq> [] \<and> cd_version s \<noteq> []
      then s\<lparr>cd_fetch := Some (cd_values s = []),
             cd_sent := cd_sent s @ [helm_request (ChartValues (cp_cluster (cd_props s)) (values_body s) False)]\<rparr>
      else s)"

record action_result =
  ar_name :: string
  ar_namespace :: string
  ar_revision :: int
  ar_rolled_back :: bool

datatype chart_event =
    Opened
  | PropsChanged chart_props
  | RefTyped string
  | NameTyped string
  | VersionPicked string
  | ValuesArrived chart_result
  | ValuesFailed thrown
  | NamespaceTyped string
  | ReleaseTyped string
  | ValuesEdited string
  | TabPicked rendered_tab
  | PreviewClicked
  | PreviewArrived chart_preview
  | PreviewFailed thrown
  | ActionClicked
  | ActionDone action_result
  | ActionFailed thrown
  | CloseClicked
  | ResetTimer

definition on_values :: "chart_result \<Rightarrow> bool \<Rightarrow> chart_dialog \<Rightarrow> chart_dialog" where
  "on_values r was_empty s =
     s\<lparr>cd_fetch := None, cd_chart := Some r,
       cd_values := (if cp_install (cd_props s) \<or> was_empty then ch_values r else cd_values s),
       cd_preview := None\<rparr>"

definition on_preview :: "chart_preview \<Rightarrow> chart_dialog \<Rightarrow> chart_dialog" where
  "on_preview p s =
     s\<lparr>cd_previewing := False, cd_preview := Some p,
       cd_tab := (if (case pv_denied p of None \<Rightarrow> True | Some ds \<Rightarrow> ds = []) then default_tab (cd_props s)
                  else cd_tab s)\<rparr>"

definition on_action_done :: "action_result \<Rightarrow> chart_props \<Rightarrow> chart_dialog \<Rightarrow> chart_dialog" where
  "on_action_done r p s =
     (let c = cp_cluster p;
          s1 = s\<lparr>cd_acting := None,
                 cd_swept := cd_swept s @
                   (if cp_install p then after_install c else after_upgrade c (cp_namespace p) (cp_release p))\<rparr>
      in if cp_install p
         then (close_and_reset p (dialog_toast (''installed '' @ ar_name r @ '' (revision '' @
                 show_int (ar_revision r) @ '')'') s1))
                 \<lparr>cd_path := Some (helm_release_path c (ar_namespace r) (ar_name r))\<rparr>
         else close_and_reset p (dialog_toast
                (if ar_rolled_back r
                 then ''upgrade rolled back (now at revision '' @ show_int (ar_revision r) @ '')''
                 else ''upgraded to revision '' @ show_int (ar_revision r)) s1))"

fun chart_step :: "chart_dialog \<Rightarrow> chart_event \<Rightarrow> chart_dialog" where
  "chart_step s Opened = s\<lparr>cd_open := True\<rparr>"
| "chart_step s (PropsChanged p) = s\<lparr>cd_props := p\<rparr>"
| "chart_step s (RefTyped t) =
     s\<lparr>cd_ref := t, cd_version := [], cd_chart := None, cd_preview := None\<rparr>"
| "chart_step s (NameTyped t) =
     s\<lparr>cd_name := t, cd_version := [], cd_chart := None, cd_preview := None\<rparr>"
| "chart_step s (VersionPicked v) =
     (if cd_fetch s = None then version_effect (cd_version s) (s\<lparr>cd_version := v\<rparr>) else s)"
| "chart_step s (ValuesArrived r) = (case cd_fetch s of None \<Rightarrow> s | Some was_empty \<Rightarrow> on_values r was_empty s)"
| "chart_step s (ValuesFailed err) =
     (case cd_fetch s of None \<Rightarrow> s
      | Some _ \<Rightarrow> dialog_toast (''fetch failed: '' @ friendly_error err) (s\<lparr>cd_fetch := None\<rparr>))"
| "chart_step s (NamespaceTyped t) =
     (if cp_install (cd_props s) \<and> cd_chart s \<noteq> None then s\<lparr>cd_namespace := t, cd_preview := None\<rparr> else s)"
| "chart_step s (ReleaseTyped t) =
     (if cp_install (cd_props s) \<and> cd_chart s \<noteq> None then s\<lparr>cd_release := t, cd_preview := None\<rparr> else s)"
| "chart_step s (ValuesEdited t) =
     (if cd_chart s \<noteq> None then s\<lparr>cd_values := t, cd_preview := None\<rparr> else s)"
| "chart_step s (TabPicked t) = (if dialog_panel s = PanelPreview then s\<lparr>cd_tab := t\<rparr> else s)"
| "chart_step s PreviewClicked =
     (if preview_ready s \<and> \<not> cd_previewing s \<and> cd_acting s = None
      then s\<lparr>cd_previewing := True, cd_asked := Some (preview_request s),
             cd_sent := cd_sent s @ [preview_request s]\<rparr>
      else s)"
| "chart_step s (PreviewArrived p) = (if cd_previewing s then on_preview p s else s)"
| "chart_step s (PreviewFailed err) =
     (if cd_previewing s
      then dialog_toast (''preview failed: '' @ friendly_error err) (s\<lparr>cd_previewing := False\<rparr>) else s)"
| "chart_step s ActionClicked =
     (if action_ready s \<and> cd_acting s = None
      then s\<lparr>cd_acting := Some (cd_props s), cd_sent := cd_sent s @ [action_request s]\<rparr> else s)"
| "chart_step s (ActionDone r) = (case cd_acting s of None \<Rightarrow> s | Some p \<Rightarrow> on_action_done r p s)"
| "chart_step s (ActionFailed err) =
     (case cd_acting s of None \<Rightarrow> s
      | Some p \<Rightarrow> dialog_toast ((if cp_install p then ''install failed: '' else ''upgrade failed: '')
          @ friendly_error err) (s\<lparr>cd_acting := None\<rparr>))"
| "chart_step s CloseClicked = close_and_reset (cd_props s) s"
| "chart_step s ResetTimer =
     (case cd_resets s of [] \<Rightarrow> s | p # ps \<Rightarrow> reset_form p (s\<lparr>cd_resets := ps\<rparr>))"

text \<open>A closed dialog is not rendered: only answers, timers, props and opening reach it.\<close>

fun needs_open :: "chart_event \<Rightarrow> bool" where
  "needs_open Opened = False"
| "needs_open (PropsChanged p) = False"
| "needs_open (ValuesArrived r) = False"
| "needs_open (ValuesFailed err) = False"
| "needs_open (PreviewArrived p) = False"
| "needs_open (PreviewFailed err) = False"
| "needs_open (ActionDone r) = False"
| "needs_open (ActionFailed err) = False"
| "needs_open ResetTimer = False"
| "needs_open _ = True"

definition dialog_step :: "chart_dialog \<Rightarrow> chart_event \<Rightarrow> chart_dialog" where
  "dialog_step s e = (if needs_open e \<and> \<not> cd_open s then s else chart_step s e)"

text \<open>The equivalent command in the footer.\<close>

definition or_placeholder :: "string \<Rightarrow> string \<Rightarrow> string" where
  "or_placeholder s d = (if s \<noteq> [] then s else d)"

definition command_parts :: "bool \<Rightarrow> string \<Rightarrow> string \<Rightarrow> string \<Rightarrow> string \<Rightarrow> string \<Rightarrow> bool \<Rightarrow> string list" where
  "command_parts install ref chart version ns release has_values =
     (let oci = is_oci ref
      in [if install then ''helm install'' else ''helm upgrade'', or_placeholder release ''<release>'',
          if oci then ref else or_placeholder chart ''<chart>'',
          ''--version '' @ or_placeholder version ''<version>'',
          ''--namespace '' @ or_placeholder ns ''<namespace>'', ''--atomic'', ''--wait'']
         @ (if \<not> oci \<and> ref \<noteq> [] then [''--repo '' @ ref] else [])
         @ (if has_values then [''-f values.yaml''] else []))"

definition build_helm_command :: "bool \<Rightarrow> string \<Rightarrow> string \<Rightarrow> string \<Rightarrow> string \<Rightarrow> string \<Rightarrow> bool \<Rightarrow> string" where
  "build_helm_command install ref chart version ns release has_values =
     (if ref = [] \<and> release = []
      then (if install then ''helm install'' else ''helm upgrade'') @
           '' <release> <chart-ref> --version <v> --namespace <ns> --atomic --wait''
      else (let parts = command_parts install ref chart version ns release has_values
            in join_str '' '' (take 3 parts) @ '' '' @ [CHR 0x5C] @ [newline] @ ''    '' @
               join_str '' '' (drop 3 parts)))"

definition dialog_command :: "chart_dialog \<Rightarrow> string" where
  "dialog_command s =
     build_helm_command (cp_install (cd_props s)) (cd_ref s) (cd_name s) (cd_version s)
       (target_namespace s) (target_release s) (trim_str (cd_values s) \<noteq> [])"

end
