(* ===== verification/HelmSafety.thy ===== *)
theory HelmSafety
  imports Helm "HOL-Library.Multiset"
begin

text \<open>
  Properties of the Helm model: what the chart dialog sends and shows, the comparison and the
  rollback of revisions, uninstalling, the caches after each mutation and the grouping of the
  rendered objects.
\<close>

section \<open>The chart dialog\<close>

lemma dialog_sent_cases:
  "dialog_step s e = s \<or> dialog_step s e = chart_step s e"
  by (simp add: dialog_step_def)

lemmas dialog_defs = close_and_reset_def dialog_toast_def reset_form_def on_values_def on_preview_def
  on_action_done_def version_effect_def

text \<open>
  C15: a chart is only installed or upgraded from a complete, permitted form. When a step starts
  an action, the operator has just clicked it on the open dialog, a chart of some version is
  loaded, the release and its namespace are named, the pre-flight shown denies nothing, no other
  action is under way, and the request that leaves is the one the form spells.
\<close>

theorem action_needs_complete_form:
  assumes "cd_acting s = None" "cd_acting (dialog_step s e) \<noteq> None"
  shows "e = ActionClicked \<and> cd_open s \<and> cd_chart s \<noteq> None \<and> cd_version s \<noteq> [] \<and> \<not> has_denials s \<and>
    (cp_install (cd_props s) \<longrightarrow> trim_str (cd_namespace s) \<noteq> [] \<and> trim_str (cd_release s) \<noteq> []) \<and>
    cd_sent (dialog_step s e) = cd_sent s @ [action_request s]"
  using assms
  by (cases e)
     (auto simp: dialog_step_def dialog_defs action_ready_def preview_ready_def Let_def
        split: if_splits option.splits list.splits)

definition sample_props :: chart_props where
  "sample_props =
     \<lparr>cp_install = False, cp_cluster = ''prod'', cp_namespace = ''shop'', cp_release = ''api'',
      cp_ref = ''oci://r/api'', cp_chart = ''api'', cp_values = ''a: 1''\<rparr>"

definition sample_result :: chart_result where
  "sample_result = \<lparr>ch_name = ''api'', ch_version = ''1.0'', ch_values = ''a: 0''\<rparr>"

definition sample_preview :: chart_preview where
  "sample_preview = \<lparr>pv_manifests = [], pv_yaml = [], pv_diff = Some [], pv_denied = None\<rparr>"

definition sample_dialog :: "chart_event list \<Rightarrow> chart_dialog" where
  "sample_dialog es =
     foldl dialog_step (initial_dialog sample_props)
       ([Opened, VersionPicked ''1.0'', ValuesArrived sample_result] @ es)"

lemmas sample_defs = sample_dialog_def sample_props_def sample_result_def sample_preview_def
  initial_dialog_def dialog_step_def dialog_defs default_tab_def

lemma action_needs_complete_form_witness:
  "cd_sent (dialog_step (sample_dialog []) ActionClicked) = cd_sent (sample_dialog []) @ [action_request (sample_dialog [])]"
  by (rule conjunct2 [OF conjunct2 [OF conjunct2 [OF conjunct2 [OF conjunct2 [OF conjunct2 [OF
        action_needs_complete_form]]]]]])
     (simp_all add: sample_defs action_ready_def preview_ready_def has_denials_def)

text \<open>The answers and edits that leave a preview true to the form.\<close>

fun steady :: "chart_dialog \<Rightarrow> chart_event \<Rightarrow> bool" where
  "steady s (RefTyped t) = (\<not> cd_previewing s)"
| "steady s (NameTyped t) = (\<not> cd_previewing s)"
| "steady s (NamespaceTyped t) = (\<not> cd_previewing s)"
| "steady s (ReleaseTyped t) = (\<not> cd_previewing s)"
| "steady s (ValuesEdited t) = (\<not> cd_previewing s)"
| "steady s (ValuesArrived r) = (\<not> cd_previewing s)"
| "steady s (VersionPicked v) = (\<not> cd_previewing s \<and> cd_preview s = None)"
| "steady s (PropsChanged p) = (\<not> cd_previewing s \<and> cd_preview s = None)"
| "steady s ResetTimer = (\<not> cd_previewing s)"
| "steady s _ = True"

fun steady_run :: "chart_dialog \<Rightarrow> chart_event list \<Rightarrow> bool" where
  "steady_run s [] = True"
| "steady_run s (e # es) = (steady s e \<and> steady_run (dialog_step s e) es)"

definition preview_inv :: "chart_dialog \<Rightarrow> bool" where
  "preview_inv s \<longleftrightarrow> (cd_previewing s \<or> cd_preview s \<noteq> None \<longrightarrow> cd_asked s = Some (preview_request s))"

lemma preview_request_cong:
  assumes "cd_props s = cd_props t" "cd_ref s = cd_ref t" "cd_name s = cd_name t" "cd_version s = cd_version t"
    "cd_values s = cd_values t" "cd_namespace s = cd_namespace t" "cd_release s = cd_release t"
  shows "preview_request s = preview_request t"
  using assms by (simp add: preview_request_def install_body_def upgrade_body_def target_namespace_def
      target_release_def Let_def)

lemma preview_inv_step: "preview_inv s \<Longrightarrow> steady s e \<Longrightarrow> preview_inv (chart_step s e)"
  by (cases e)
     (auto simp: preview_inv_def dialog_defs Let_def
        intro!: preview_request_cong split: option.splits list.splits if_splits)

lemma preview_inv_run: "preview_inv s \<Longrightarrow> steady_run s es \<Longrightarrow> preview_inv (foldl dialog_step s es)"
proof (induction es arbitrary: s)
  case (Cons e es)
  then have "preview_inv (dialog_step s e)" by (simp add: dialog_step_def preview_inv_step)
  then show ?case using Cons by simp
qed simp

text \<open>
  C13: the preview that is shown is the preview of what the action would send. As long as
  nothing of the form changes while a preview is computed, and versions and props only change
  while no preview is shown, the preview on the screen answers a request with exactly the body
  that the install or upgrade button sends.
\<close>

theorem preview_is_of_form:
  assumes "steady_run (initial_dialog p) es"
  defines "s \<equiv> foldl dialog_step (initial_dialog p) es"
  assumes "cd_preview s \<noteq> None"
  shows "cd_asked s = Some (preview_request s) \<and> hr_body (preview_request s) = hr_body (action_request s)"
proof -
  have "preview_inv (initial_dialog p)" by (simp add: preview_inv_def initial_dialog_def)
  then have "preview_inv s" unfolding s_def using assms(1) by (rule preview_inv_run)
  then show ?thesis
    using assms(3) by (simp add: preview_inv_def preview_request_def action_request_def send_json_def Let_def)
qed

lemma preview_is_of_form_witness:
  "let s = sample_dialog [ValuesEdited ''a: 2'', PreviewClicked, PreviewArrived sample_preview]
   in cd_asked s = Some (preview_request s)"
  unfolding Let_def sample_dialog_def
  by (rule conjunct1 [OF preview_is_of_form])
     (simp_all add: sample_defs preview_ready_def has_denials_def)

text \<open>
  an edit during the computation: the preview of the old values arrives after the edit
  cleared the panel, and is shown for the new ones, with the action enabled.
\<close>

theorem late_preview_is_shown:
  "let s = sample_dialog [PreviewClicked, ValuesEdited ''b: 2'', PreviewArrived sample_preview]
   in dialog_panel s = PanelPreview \<and> action_ready s \<and> cd_asked s \<noteq> Some (preview_request s)"
  by (simp add: sample_defs dialog_panel_def action_ready_def preview_ready_def has_denials_def Let_def
      preview_request_def upgrade_body_def send_json_def)

text \<open>
  another version: picking it keeps the chart and the preview of the old one on the screen
  until its values arrive (or for good, when their fetch fails), with the action enabled.
\<close>

theorem version_change_keeps_preview:
  "let s = sample_dialog [PreviewClicked, PreviewArrived sample_preview, VersionPicked ''2.0'',
             ValuesFailed (ThrownError ''timeout'')]
   in dialog_panel s = PanelPreview \<and> action_ready s \<and> cd_version s = ''2.0'' \<and>
      cd_chart s = Some sample_result \<and> cd_asked s \<noteq> Some (preview_request s)"
  by (simp add: sample_defs dialog_panel_def action_ready_def preview_ready_def has_denials_def Let_def
      preview_request_def upgrade_body_def send_json_def)

text \<open>
  an upgrade reopened: the form is restored from the props of the render that sent the
  upgrade, so after an upgrade that changed the values the dialog opens with the old ones.
\<close>

theorem upgrade_reopens_with_old_values:
  "cd_values (sample_dialog [ValuesEdited ''a: 2'', ActionClicked,
      ActionDone \<lparr>ar_name = ''api'', ar_namespace = ''shop'', ar_revision = 4, ar_rolled_back = False\<rparr>,
      ResetTimer, PropsChanged (sample_props\<lparr>cp_values := ''a: 2''\<rparr>), Opened]) = ''a: 1''"
  by (simp add: sample_defs action_ready_def preview_ready_def has_denials_def Let_def after_upgrade_def)

text \<open>Closing restores the form, whatever was in it.\<close>

lemma close_restores_form:
  assumes "cd_resets s = []" "cd_open s"
  shows "let t = foldl dialog_step s [CloseClicked, ResetTimer]; u = initial_dialog (cd_props s)
    in \<not> cd_open t \<and> cd_ref t = cd_ref u \<and> cd_name t = cd_name u \<and> cd_version t = [] \<and>
       cd_values t = cd_values u \<and> cd_chart t = None \<and> cd_namespace t = cd_namespace u \<and>
       cd_release t = [] \<and> cd_preview t = None \<and> cd_tab t = cd_tab u \<and> cd_sent t = cd_sent s"
  using assms by (simp add: dialog_step_def dialog_defs initial_dialog_def)

section \<open>Comparing revisions\<close>

lemma sort_by_ne [simp]: "sort_by cmp xs = [] \<longleftrightarrow> xs = []"
  using mset_sort_by [of cmp xs] by (metis mset_zero_iff)

lemma toggle_keeps_pair:
  assumes "distinct sel" "length sel \<le> 2"
  shows "distinct (toggle_revision rv sel) \<and> length (toggle_revision rv sel) \<le> 2"
proof (cases "rv \<in> set sel \<or> length sel < 2")
  case True
  then show ?thesis
    using assms by (auto simp: toggle_revision_def intro: le_trans [OF length_filter_le])
next
  case False
  then have "sel \<noteq> []" by auto
  then have "hd (sort_by compare_as_strings sel) \<in> set (sort_by compare_as_strings sel)" by simp
  also have "\<dots> = set sel" using mset_sort_by [of compare_as_strings sel] by (metis set_mset_mset)
  finally have "length (filter (\<lambda>r. r \<noteq> hd (sort_by compare_as_strings sel)) sel) < length sel"
    by (intro length_filter_less) auto
  then show ?thesis using assms False by (auto simp: toggle_revision_def)
qed

lemma toggles_keep_pair: "distinct sel \<Longrightarrow> length sel \<le> 2 \<Longrightarrow>
    distinct (foldl (\<lambda>s rv. toggle_revision rv s) sel rvs) \<and> length (foldl (\<lambda>s rv. toggle_revision rv s) sel rvs) \<le> 2"
  by (induction rvs arbitrary: sel) (use toggle_keeps_pair in auto)

lemma form_encode_digits: "0 < n \<Longrightarrow> form_encode (show_int n) = show_int n"
proof -
  assume n: "0 < n"
  have "form_char c = [c]" if "c \<in> set (show_nat m)" for c m
    using show_nat_digits [OF that] by (auto simp: form_char_def form_plain_def Let_def)
  then have "concat (map form_char (show_nat m)) = show_nat m" for m
    by (metis (no_types, lifting) concat_map_singleton map_cong list.map_ident)
  then show ?thesis using n by (simp add: form_encode_def show_int_def)
qed

lemma compare_query:
  "0 < a \<Longrightarrow> 0 < b \<Longrightarrow>
     ''?from='' @ show_int a @ ''&to='' @ show_int b = query_suffix [(''from'', show_int a), (''to'', show_int b)]"
  by (simp add: query_suffix_def params_to_string_def form_encode_digits)
     (simp add: form_encode_def form_char_def form_plain_def)

lemma plain_helm: "plain_segment ''helm''" "plain_segment ''diff''"
  by (simp_all add: plain_segment_def)

text \<open>
  comparing opens the diff from the older to the newer of the two marked revisions.
  However the boxes are clicked, at most two revisions are marked; the comparison is enabled
  for exactly two, and the page it opens reads back, from its URL, the release and the smaller
  and the larger revision.
\<close>

theorem compare_opens_ordered_diff:
  assumes "compare_selected c ns name (foldl (\<lambda>s rv. toggle_revision rv s) [] rvs) = Some u"
    and "list_all (\<lambda>rv. 0 < rv) rvs"
  shows "\<exists>a b. a < b \<and> set (foldl (\<lambda>s rv. toggle_revision rv s) [] rvs) = {a, b} \<and>
    path_segments u = [''clusters'', enc c, ''helm'', enc ns, enc name, ''diff''] \<and>
    revision_param ''from'' (parse_query (url_query u)) = a \<and>
    revision_param ''to'' (parse_query (url_query u)) = b"
proof -
  let ?sel = "foldl (\<lambda>s rv. toggle_revision rv s) [] rvs"
  let ?segs = "[''clusters'', enc c, ''helm'', enc ns, enc name, ''diff'']"
  have len: "length ?sel = 2" and u: "u = compare_path c ns name (sort ?sel ! 0) (sort ?sel ! 1)"
    using assms(1) by (auto simp: compare_selected_def compare_enabled_def Let_def split: if_splits)
  have dist: "distinct ?sel" using toggles_keep_pair [of "[]" rvs] by simp
  have sub: "set (toggle_revision rv s) \<subseteq> insert rv (set s)" for rv s
    by (auto simp: toggle_revision_def)
  have "set (foldl (\<lambda>s rv. toggle_revision rv s) s rvs) \<subseteq> set s \<union> set rvs" for s
    by (induction rvs arbitrary: s) (use sub in force)+
  then have pos: "\<forall>r \<in> set ?sel. 0 < r" using assms(2) by (force simp: list_all_iff)
  obtain x y where xy: "?sel = [x, y]" "x \<noteq> y"
    using len dist by (cases ?sel rule: list.exhaust; cases "tl ?sel") auto
  define a b where "a = min x y" "b = max x y"
  have ab: "a < b" "set ?sel = {a, b}" "0 < a" "0 < b" "sort ?sel = [a, b]"
    using xy pos by (auto simp: a_b_def min_def max_def)
  have plain: "\<forall>s \<in> set ?segs. plain_segment s" by (simp add: plain_helm)
  have url: "u = url_path ?segs @ query_suffix [(''from'', show_int a), (''to'', show_int b)]"
    unfolding u ab(5) compare_path_def using compare_query [OF ab(3,4)] by simp
  have segs: "path_segments u = ?segs"
    unfolding url by (rule path_segments_url [OF _ plain]) simp_all
  have "parse_query (url_query u) = [(''from'', show_int a), (''to'', show_int b)]"
    unfolding url url_query_path [OF plain] by (rule parse_query_suffix)
  then show ?thesis
    using ab segs by (auto simp: revision_param_def param_get_def parse_int_show)
qed

lemma compare_opens_ordered_diff_witness:
  "\<exists>u a b. compare_selected ''prod'' ''shop'' ''api'' (foldl (\<lambda>s rv. toggle_revision rv s) [] [7, 3]) = Some u \<and>
     a < b \<and> {7, 3} = {a, b} \<and> revision_param ''from'' (parse_query (url_query u)) = a"
proof -
  let ?u = "compare_path ''prod'' ''shop'' ''api'' 3 7"
  have sel: "foldl (\<lambda>s rv. toggle_revision rv s) [] [7, 3] = [7, 3]" by (simp add: toggle_revision_def)
  have "compare_selected ''prod'' ''shop'' ''api'' (foldl (\<lambda>s rv. toggle_revision rv s) [] [7, 3]) = Some ?u"
    unfolding sel by (simp add: compare_selected_def compare_enabled_def)
  moreover have "list_all (\<lambda>rv. 0 < rv) [7, 3 :: int]" by simp
  ultimately obtain a b where "a < b" "set [7, 3] = {a, b}" "revision_param ''from'' (parse_query (url_query ?u)) = a"
    using compare_opens_ordered_diff [of "''prod''" "''shop''" "''api''" "[7, 3]" ?u] unfolding sel by blast
  then show ?thesis
    using \<open>compare_selected _ _ _ _ = Some ?u\<close>
    by (intro exI [of _ ?u] exI [of _ a] exI [of _ b]) (simp only: list.set(1,2) simp_thms)
qed

text \<open>
  the box that a third mark clears: the revisions are sorted as strings, so of 9 and 10 the
  newer one is dropped.
\<close>

theorem third_mark_drops_newer: "toggle_revision 11 [9, 10] = [9, 11]"
  by (simp add: toggle_revision_def sort_by_def compare_as_strings_def show_int_def show_nat.simps less_char_def)

section \<open>Rollback\<close>

text \<open>
  a rollback leaves only after its diff was seen. A request is sent exactly by confirming
  the open dialog while no rollback is under way, the diff has arrived and the server has not
  denied it; it is one request, for the revision of the dialog and the options shown.
\<close>

theorem rollback_needs_seen_diff:
  assumes "ht_sent (history_step p s e) \<noteq> ht_sent s"
  shows "e = RollbackConfirmed \<and> \<not> ht_pending s \<and> hp_diff p \<and> \<not> blocked_by_denial (ht_error s) \<and>
    (\<exists>rv. ht_target s = Some rv \<and> ht_sent (history_step p s e) = ht_sent s @
       [helm_action_request (HelmRollback (hp_cluster p) (hp_ns p) (hp_name p) (rollback_body s rv))]) \<and>
    ht_pending (history_step p s e)"
  using assms by (cases e) (auto simp: can_submit_rollback_def split: option.splits if_splits)

definition sample_history_props :: history_props where
  "sample_history_props =
     \<lparr>hp_cluster = ''prod'', hp_ns = ''shop'', hp_name = ''api'', hp_viewed = 5, hp_diff = True\<rparr>"

lemma rollback_needs_seen_diff_witness:
  "ht_pending (history_step sample_history_props (history_step sample_history_props initial_history (RollbackClicked 3))
     RollbackConfirmed)"
  using rollback_needs_seen_diff [of sample_history_props
      "history_step sample_history_props initial_history (RollbackClicked 3)" RollbackConfirmed]
  by (simp add: sample_history_props_def initial_history_def is_current_row_def can_submit_rollback_def
      blocked_by_denial_def)

text \<open>
  the row marked current is that of the revision on the page, not of the deployed one: while
  an old revision is viewed its own rollback is disabled, the deployed one is offered, and the
  diff shown starts at the viewed revision although Helm starts from the deployed one.
\<close>

theorem viewed_revision_counts_as_current:
  fixes p :: history_props
  defines "p \<equiv> sample_history_props\<lparr>hp_viewed := 3\<rparr>"
  shows "ht_target (history_step p initial_history (RollbackClicked 3)) = None \<and>
    ht_target (history_step p initial_history (RollbackClicked 5)) = Some 5 \<and>
    qs_query (rollback_diff p (history_step p initial_history (RollbackClicked 2))) =
      QCluster ''prod'' (CHelm (HDiff ''shop'' ''api'' 3 2))"
  by (simp add: p_def sample_history_props_def is_current_row_def initial_history_def rollback_diff_def
      helm_diff_query_def)

section \<open>Uninstalling\<close>

text \<open>
  a release is uninstalled only after its name was typed. Every request that a run of the
  dialog sends leaves on a confirmation of the open dialog whose text is the name of the release,
  and a second one can only leave after the first was answered.
\<close>

theorem uninstall_needs_name:
  assumes "un_sent (uninstall_step c ns name s e) \<noteq> un_sent s"
  shows "e = UninstallConfirmed \<and> un_open s \<and> un_confirm s = name \<and> \<not> un_pending s \<and>
    un_sent (uninstall_step c ns name s e) = un_sent s @
      [helm_action_request (HelmUninstall c ns name (un_keep s) (un_no_hooks s))] \<and>
    un_pending (uninstall_step c ns name s e)"
  using assms by (cases e) (auto split: if_splits)

lemma uninstall_needs_name_witness:
  "un_pending (uninstall_step ''prod'' ''shop'' ''api'' (initial_uninstall\<lparr>un_open := True, un_confirm := ''api''\<rparr>)
     UninstallConfirmed)"
  using uninstall_needs_name [of "''prod''" "''shop''" "''api''"
      "initial_uninstall\<lparr>un_open := True, un_confirm := ''api''\<rparr>" UninstallConfirmed]
  by (simp add: initial_uninstall_def)

text \<open>
  the name stays typed when the dialog is cancelled: opened again, it is confirmed with one
  click.
\<close>

theorem cancel_keeps_typed_name:
  "length (un_sent (foldl (uninstall_step c ns name) initial_uninstall
     [UninstallClicked, TypeName name, UninstallClosed, UninstallClicked, UninstallConfirmed])) = 1"
  by (simp add: initial_uninstall_def)

section \<open>Caches\<close>

text \<open>
  after a rollback the browser refetches what the rollback changed and nothing of other
  releases: the list, the history and the detail of every revision of the release are
  invalidated, and of the details only those.
\<close>

theorem rollback_refreshes_release:
  "key_swept (after_rollback c ns name) (QCluster c (CHelm HList)) \<and>
   key_swept (after_rollback c ns name) (qs_query (helm_history_query c ns name)) \<and>
   key_swept (after_rollback c ns name) (qs_query (helm_release_query d ns' name' rv)) =
     (d = c \<and> ns' = ns \<and> name' = name)"
  by (auto simp: key_swept_def after_rollback_def helm_detail_prefix_def helm_history_query_def helm_release_query_def)

text \<open>
  an upgrade leaves the list, which shows revision, status and chart version, as it was; and
  installing a release anew leaves the cached detail of the uninstalled one.
\<close>

theorem upgrade_leaves_list:
  "\<not> key_swept (after_upgrade c ns name) (qs_query (helm_releases_query c))"
  by (simp add: key_swept_def after_upgrade_def helm_detail_prefix_def helm_releases_query_def)

theorem reinstall_shows_old_release:
  "\<not> key_swept (after_uninstall c @ after_install c) (qs_query (helm_release_query c ns name rv))"
  by (simp add: key_swept_def after_uninstall_def after_install_def helm_release_query_def)

section \<open>Rendered objects\<close>

definition grouped :: "(string \<times> helm_object list) list \<Rightarrow> helm_object list \<Rightarrow> bool" where
  "grouped g ms \<longleftrightarrow> distinct (map fst g) \<and>
     (\<forall>k. map_of g k = (let xs = filter (\<lambda>m. object_kind m = k) ms in if xs = [] then None else Some xs))"

lemma group_objects_grouped: "grouped (group_objects ms) ms"
proof (induction ms rule: rev_induct)
  case Nil
  then show ?case by (simp add: grouped_def group_objects_def)
next
  case (snoc m ms)
  let ?g = "group_objects ms"
  have "group_objects (ms @ [m]) = AList.update (object_kind m)
      ((case map_of ?g (object_kind m) of None \<Rightarrow> [] | Some xs \<Rightarrow> xs) @ [m]) ?g"
    by (simp add: group_objects_def)
  then show ?case
    using snoc by (auto simp: grouped_def update_conv' distinct_update Let_def)
qed

lemma concat_filters: "distinct ks \<Longrightarrow> f ` set ms \<subseteq> set ks \<Longrightarrow>
    mset (concat (map (\<lambda>k. filter (\<lambda>m. f m = k) ms) ks)) = mset ms"
proof (induction ks arbitrary: ms)
  case (Cons k ks)
  let ?rest = "filter (\<lambda>m. f m \<noteq> k) ms"
  have same: "map (\<lambda>k'. filter (\<lambda>m. f m = k') ms) ks = map (\<lambda>k'. filter (\<lambda>m. f m = k') ?rest) ks"
    using Cons.prems(1) by (intro map_cong refl) (auto intro: filter_cong)
  have others: "mset (concat (map (\<lambda>k'. filter (\<lambda>m. f m = k') ?rest) ks)) = mset ?rest"
    using Cons.prems by (intro Cons.IH) auto
  have "mset (concat (map (\<lambda>k'. filter (\<lambda>m. f m = k') ms) (k # ks))) =
      mset (filter (\<lambda>m. f m = k) ms) + mset ?rest"
    by (simp only: list.map concat.simps mset_append same others)
  also have "\<dots> = mset ms" using multiset_partition [of "mset ms" "\<lambda>m. f m = k"] by simp
  finally show ?case .
qed simp

text \<open>
  the tab of rendered resources shows every object once. Its groups are in the order of
  their kinds, each holds the objects of its kind in manifest order, and together they are the
  rendered objects.
\<close>

theorem resources_tab_partitions:
  "sorted (map fst (resources_tab ms)) \<and> distinct (map fst (resources_tab ms)) \<and>
   (\<forall>g \<in> set (resources_tab ms). snd g = filter (\<lambda>m. object_kind m = fst g) ms \<and> snd g \<noteq> []) \<and>
   mset (concat (map snd (resources_tab ms))) = mset ms"
proof -
  let ?g = "group_objects ms"
  let ?ks = "sort (map fst ?g)"
  have dist: "distinct (map fst ?g)"
    and lookup: "\<And>k. map_of ?g k = (let xs = filter (\<lambda>m. object_kind m = k) ms in if xs = [] then None else Some xs)"
    using group_objects_grouped [of ms] by (auto simp: grouped_def)
  have some: "map_of ?g k = Some (filter (\<lambda>m. object_kind m = k) ms) \<and> filter (\<lambda>m. object_kind m = k) ms \<noteq> []"
    if "k \<in> set ?ks" for k
  proof -
    have "map_of ?g k \<noteq> None" using that by (simp add: map_of_eq_None_iff)
    then show ?thesis using lookup [of k] by (auto simp: Let_def split: if_splits)
  qed
  have tab: "resources_tab ms = map (\<lambda>k. (k, filter (\<lambda>m. object_kind m = k) ms)) ?ks"
    using some by (auto simp: resources_tab_def Let_def)
  have "object_kind ` set ms \<subseteq> set ?ks"
  proof
    fix k assume "k \<in> object_kind ` set ms"
    then have "filter (\<lambda>m. object_kind m = k) ms \<noteq> []" by (auto simp: filter_empty_conv)
    then have "map_of ?g k \<noteq> None" using lookup [of k] by (simp add: Let_def)
    then show "k \<in> set ?ks" by (simp add: map_of_eq_None_iff)
  qed
  then have "mset (concat (map (\<lambda>k. filter (\<lambda>m. object_kind m = k) ms) ?ks)) = mset ms"
    using dist by (intro concat_filters) simp_all
  then show ?thesis using dist some by (auto simp: tab comp_def)
qed

lemma resources_tab_partitions_witness:
  "length (concat (map snd (resources_tab [\<lparr>ho_api = ''v1'', ho_kind = [], ho_namespace = [], ho_name = ''x''\<rparr>]))) = 1"
  using resources_tab_partitions [of "[\<lparr>ho_api = ''v1'', ho_kind = [], ho_namespace = [], ho_name = ''x''\<rparr>]"]
  by (metis length_Cons list.size(3) One_nat_def size_mset)

end
