(* ===== verification/KindForm.thy ===== *)
theory KindForm
  imports SchemaWalker Display
begin

text \<open>
  Model of the curated forms of the built-in kinds: the tables of sections and paths, the section
  resolver and the narrowing of a schema (\<open>web/src/lib/schemaForm/k8sAllowlist.ts\<close>), and the grouping of
  the descriptors into sections (\<open>lib/schemaForm/sections.ts\<close>, \<open>SchemaForm.tsx\<close>).
\<close>

section \<open>The tables\<close>

datatype supported_kind = ConfigMapKind | SecretKind | ServiceKind | IngressKind | DeploymentKind | StatefulSetKind

record section_spec =
  ss_id :: string
  ss_label :: string
  ss_paths :: "string list"
  ss_default_open :: bool
  ss_open_when_populated :: bool
  ss_show_count :: bool

record kind_spec =
  ks_sections :: "section_spec list"
  ks_sub_sections :: "(string \<times> section_spec list) list"
  ks_create_only :: "string list"

record kind_gvk =
  kg_group :: string
  kg_version :: string
  kg_kind :: string
  kg_resource :: string

fun get_kind_gvk :: "supported_kind \<Rightarrow> kind_gvk" where
  "get_kind_gvk ConfigMapKind = \<lparr>kg_group = [], kg_version = ''v1'', kg_kind = ''ConfigMap'', kg_resource = ''configmaps''\<rparr>"
| "get_kind_gvk SecretKind = \<lparr>kg_group = [], kg_version = ''v1'', kg_kind = ''Secret'', kg_resource = ''secrets''\<rparr>"
| "get_kind_gvk ServiceKind = \<lparr>kg_group = [], kg_version = ''v1'', kg_kind = ''Service'', kg_resource = ''services''\<rparr>"
| "get_kind_gvk IngressKind =
     \<lparr>kg_group = ''networking.k8s.io'', kg_version = ''v1'', kg_kind = ''Ingress'', kg_resource = ''ingresses''\<rparr>"
| "get_kind_gvk DeploymentKind =
     \<lparr>kg_group = ''apps'', kg_version = ''v1'', kg_kind = ''Deployment'', kg_resource = ''deployments''\<rparr>"
| "get_kind_gvk StatefulSetKind =
     \<lparr>kg_group = ''apps'', kg_version = ''v1'', kg_kind = ''StatefulSet'', kg_resource = ''statefulsets''\<rparr>"

text \<open>A section of a table; none of them sets \<open>defaultOpen\<close>.\<close>

definition table_section :: "string \<Rightarrow> string \<Rightarrow> bool \<Rightarrow> bool \<Rightarrow> string list \<Rightarrow> section_spec" where
  "table_section i label populated show paths =
     \<lparr>ss_id = i, ss_label = label, ss_paths = paths, ss_default_open = False,
      ss_open_when_populated = populated, ss_show_count = show\<rparr>"

definition container_subsections :: "section_spec list" where
  "container_subsections =
    [table_section ''primary'' ''Primary'' False False
       [''name'', ''image'', ''imagePullPolicy'', ''ports'', ''env'', ''envFrom'',
        ''resources''],
     table_section ''probes'' ''Probes & lifecycle'' False False
       [''livenessProbe'', ''readinessProbe'', ''startupProbe'', ''lifecycle''],
     table_section ''mounts'' ''Volume mounts'' True False
       [''volumeMounts''],
     table_section ''advanced'' ''Container advanced'' False True
       [''command'', ''args'', ''workingDir'', ''securityContext'', ''terminationMessagePath'',
        ''terminationMessagePolicy'', ''tty'', ''stdin'', ''stdinOnce'']]"

definition init_container_subsections :: "section_spec list" where
  "init_container_subsections =
     map (\<lambda>s. if ss_id s = ''probes''
              then s\<lparr>ss_label := ''Probes'', ss_paths := filter (\<lambda>p. p \<noteq> ''lifecycle'') (ss_paths s)\<rparr>
              else s) container_subsections"

definition container_rows :: "(string \<times> section_spec list) list" where
  "container_rows =
     [(''spec.template.spec.containers'', container_subsections),
      (''spec.template.spec.initContainers'', init_container_subsections)]"

definition config_map_spec :: kind_spec where
  "config_map_spec =
     \<lparr>ks_sections =
    [table_section ''primary'' ''Data'' False False
       [''data'', ''binaryData''],
     table_section ''metadata'' ''Metadata'' False False
       [''metadata.name'', ''metadata.namespace'', ''metadata.labels'',
        ''metadata.annotations''],
     table_section ''advanced'' ''Advanced'' False True
       [''immutable'']],
      ks_sub_sections = [],
      ks_create_only = [''metadata.name'', ''metadata.namespace'']\<rparr>"

definition secret_spec :: kind_spec where
  "secret_spec =
     \<lparr>ks_sections =
    [table_section ''primary'' ''Data'' False False
       [''type'', ''data'', ''stringData''],
     table_section ''metadata'' ''Metadata'' False False
       [''metadata.name'', ''metadata.namespace'', ''metadata.labels'',
        ''metadata.annotations''],
     table_section ''advanced'' ''Advanced'' False True
       [''immutable'']],
      ks_sub_sections = [],
      ks_create_only = [''metadata.name'', ''metadata.namespace'']\<rparr>"

definition service_spec :: kind_spec where
  "service_spec =
     \<lparr>ks_sections =
    [table_section ''primary'' ''Networking'' False False
       [''spec.type'', ''spec.selector'', ''spec.ports''],
     table_section ''metadata'' ''Metadata'' False False
       [''metadata.name'', ''metadata.namespace'', ''metadata.labels'',
        ''metadata.annotations''],
     table_section ''advanced'' ''Advanced'' False True
       [''spec.clusterIP'', ''spec.externalTrafficPolicy'', ''spec.internalTrafficPolicy'',
        ''spec.sessionAffinity'', ''spec.ipFamilies'', ''spec.ipFamilyPolicy'',
        ''spec.loadBalancerClass'', ''spec.loadBalancerSourceRanges'']],
      ks_sub_sections = [],
      ks_create_only = [''metadata.name'', ''metadata.namespace'', ''spec.clusterIP'',
         ''spec.loadBalancerClass'']\<rparr>"

definition ingress_spec :: kind_spec where
  "ingress_spec =
     \<lparr>ks_sections =
    [table_section ''primary'' ''Routing & TLS'' False False
       [''spec.ingressClassName'', ''spec.rules'', ''spec.tls''],
     table_section ''metadata'' ''Metadata'' False False
       [''metadata.name'', ''metadata.namespace'', ''metadata.labels'',
        ''metadata.annotations''],
     table_section ''advanced'' ''Advanced'' False True
       [''spec.defaultBackend'']],
      ks_sub_sections = [],
      ks_create_only = [''metadata.name'', ''metadata.namespace'']\<rparr>"

definition deployment_spec :: kind_spec where
  "deployment_spec =
     \<lparr>ks_sections =
    [table_section ''primary'' ''Containers'' False False
       [''spec.replicas'', ''spec.template.spec.containers'',
        ''spec.template.spec.initContainers''],
     table_section ''volumes'' ''Volumes'' True False
       [''spec.template.spec.volumes''],
     table_section ''strategy'' ''Strategy & lifecycle'' False False
       [''spec.strategy'', ''spec.minReadySeconds'', ''spec.revisionHistoryLimit'',
        ''spec.progressDeadlineSeconds'', ''spec.paused'',
        ''spec.template.spec.terminationGracePeriodSeconds'',
        ''spec.template.spec.restartPolicy''],
     table_section ''podMetadata'' ''Pod metadata'' False False
       [''spec.template.metadata.labels'', ''spec.template.metadata.annotations''],
     table_section ''metadata'' ''Metadata'' False False
       [''metadata.name'', ''metadata.namespace'', ''metadata.labels'',
        ''metadata.annotations''],
     table_section ''selector'' ''Selector'' False False
       [''spec.selector''],
     table_section ''advanced'' ''Advanced'' False True
       [''spec.template.spec.serviceAccountName'',
        ''spec.template.spec.automountServiceAccountToken'',
        ''spec.template.spec.imagePullSecrets'', ''spec.template.spec.nodeSelector'',
        ''spec.template.spec.affinity'', ''spec.template.spec.tolerations'',
        ''spec.template.spec.topologySpreadConstraints'',
        ''spec.template.spec.securityContext'', ''spec.template.spec.hostNetwork'',
        ''spec.template.spec.hostPID'', ''spec.template.spec.hostIPC'',
        ''spec.template.spec.dnsPolicy'', ''spec.template.spec.dnsConfig'',
        ''spec.template.spec.priorityClassName'', ''spec.template.spec.runtimeClassName'']],
      ks_sub_sections = container_rows,
      ks_create_only = [''metadata.name'', ''metadata.namespace'', ''spec.selector'']\<rparr>"

definition stateful_set_spec :: kind_spec where
  "stateful_set_spec =
     \<lparr>ks_sections =
    [table_section ''primary'' ''Containers'' False False
       [''spec.replicas'', ''spec.serviceName'', ''spec.template.spec.containers'',
        ''spec.template.spec.initContainers''],
     table_section ''volumes'' ''Volumes'' True False
       [''spec.template.spec.volumes''],
     table_section ''persistentStorage'' ''Persistent storage'' True False
       [''spec.volumeClaimTemplates'', ''spec.persistentVolumeClaimRetentionPolicy'',
        ''spec.ordinals''],
     table_section ''strategy'' ''Strategy & lifecycle'' False False
       [''spec.updateStrategy'', ''spec.podManagementPolicy'', ''spec.minReadySeconds'',
        ''spec.revisionHistoryLimit'', ''spec.template.spec.terminationGracePeriodSeconds'',
        ''spec.template.spec.restartPolicy''],
     table_section ''podMetadata'' ''Pod metadata'' False False
       [''spec.template.metadata.labels'', ''spec.template.metadata.annotations''],
     table_section ''metadata'' ''Metadata'' False False
       [''metadata.name'', ''metadata.namespace'', ''metadata.labels'',
        ''metadata.annotations''],
     table_section ''selector'' ''Selector'' False False
       [''spec.selector''],
     table_section ''advanced'' ''Advanced'' False True
       [''spec.template.spec.serviceAccountName'',
        ''spec.template.spec.automountServiceAccountToken'',
        ''spec.template.spec.imagePullSecrets'', ''spec.template.spec.nodeSelector'',
        ''spec.template.spec.affinity'', ''spec.template.spec.tolerations'',
        ''spec.template.spec.topologySpreadConstraints'',
        ''spec.template.spec.securityContext'', ''spec.template.spec.hostNetwork'',
        ''spec.template.spec.hostPID'', ''spec.template.spec.hostIPC'',
        ''spec.template.spec.dnsPolicy'', ''spec.template.spec.dnsConfig'',
        ''spec.template.spec.priorityClassName'', ''spec.template.spec.runtimeClassName'']],
      ks_sub_sections = container_rows,
      ks_create_only = [''metadata.name'', ''metadata.namespace'', ''spec.selector'', ''spec.serviceName'',
         ''spec.podManagementPolicy'', ''spec.volumeClaimTemplates'']\<rparr>"

fun kind_spec_of :: "supported_kind \<Rightarrow> kind_spec" where
  "kind_spec_of ConfigMapKind = config_map_spec"
| "kind_spec_of SecretKind = secret_spec"
| "kind_spec_of ServiceKind = service_spec"
| "kind_spec_of IngressKind = ingress_spec"
| "kind_spec_of DeploymentKind = deployment_spec"
| "kind_spec_of StatefulSetKind = stateful_set_spec"

section \<open>The section of a path\<close>

text \<open>Every path of a table with its section and position, the rows under a synthetic path.\<close>

definition placed_paths :: "kind_spec \<Rightarrow> (string \<times> string \<times> nat) list" where
  "placed_paths k =
     concat (map (\<lambda>s. map (\<lambda>(i, p). (p, ss_id s, i)) (enumerate 0 (ss_paths s))) (ks_sections k))
     @ concat (map (\<lambda>(parent, subs).
         concat (map (\<lambda>s. map (\<lambda>(i, p). (parent @ ''.*.'' @ p, ss_id s, i)) (enumerate 0 (ss_paths s))) subs))
         (ks_sub_sections k))"

text \<open>\<open>stamp\<close>: a second section for a path is an exception.\<close>

fun stamp_paths :: "(string \<times> string \<times> nat) list \<Rightarrow> (string \<times> string \<times> nat) list \<Rightarrow> (string \<times> string \<times> nat) list option" where
  "stamp_paths [] m = Some m"
| "stamp_paths ((p, v) # rest) m =
     (if map_of m p \<noteq> None then None else stamp_paths rest (AList.update p v m))"

definition get_section_resolver :: "kind_spec \<Rightarrow> section_resolver option" where
  "get_section_resolver k =
     (case stamp_paths (placed_paths k) [] of
        None \<Rightarrow> None
      | Some m \<Rightarrow> Some (\<lambda>path. map_of m (join_str ''.'' path)))"

definition get_row_sub_sections :: "kind_spec \<Rightarrow> string \<Rightarrow> section_spec list option" where
  "get_row_sub_sections k parent = map_of (ks_sub_sections k) parent"

section \<open>Narrowing a schema\<close>

datatype trie = Trie (terminal: bool) (kids: "(string \<times> trie) list")

fun insert_path :: "string list \<Rightarrow> trie \<Rightarrow> trie" where
  "insert_path [] t = Trie True (kids t)"
| "insert_path (s # ss) t =
     Trie (terminal t)
       (AList.update s (insert_path ss (case map_of (kids t) s of None \<Rightarrow> Trie False [] | Some c \<Rightarrow> c)) (kids t))"

definition build_path_trie :: "string list \<Rightarrow> trie" where
  "build_path_trie paths = fold (\<lambda>p. insert_path (split_on (CHR ''.'') p)) paths (Trie False [])"

definition wrapped_schema :: "json_schema \<Rightarrow> bool" where
  "wrapped_schema s = (all_of s \<noteq> None \<or> (\<exists>r. sc_ref (core s) = Some r \<and> r \<noteq> []))"

function narrow :: "json_schema \<Rightarrow> trie \<Rightarrow> json_schema" where
  "narrow s t =
     (if wrapped_schema s then s
      else if sc_type (core s) = Some (TypeName ''array'') then
        (case map_of (kids t) ''*'' of
           None \<Rightarrow> s
         | Some w \<Rightarrow>
             (case items s of
                None \<Rightarrow> s
              | Some it \<Rightarrow> Schema (core s) (properties s) (additional s) (Some (narrow it w)) (all_of s) (one_of s)))
      else case properties s of
        None \<Rightarrow> s
      | Some ps \<Rightarrow>
          (let ps' = concat (map (\<lambda>(k, c).
                       case map_of (kids t) k of
                         None \<Rightarrow> []
                       | Some ct \<Rightarrow> [(k, if terminal ct \<and> kids ct = [] then c else narrow c ct)]) ps)
           in Schema ((core s)\<lparr>sc_required := map_option (filter (\<lambda>r. r \<in> fst ` set ps')) (sc_required (core s))\<rparr>)
                (Some ps') (additional s) (items s) (all_of s) (one_of s)))"
  by pat_completeness auto
termination
  by (relation "measure (\<lambda>(s, t). weight s)") (auto dest: weight_items simp: weight_property)

definition all_paths :: "kind_spec \<Rightarrow> string list" where
  "all_paths k =
     concat (map ss_paths (ks_sections k))
     @ concat (map (\<lambda>(parent, subs). concat (map (\<lambda>s. map (\<lambda>p. parent @ ''.*.'' @ p) (ss_paths s)) subs))
         (ks_sub_sections k))"

definition filter_schema_for_kind :: "json_schema \<Rightarrow> kind_spec \<Rightarrow> json_schema" where
  "filter_schema_for_kind s k = narrow s (build_path_trie (all_paths k))"

section \<open>Grouping descriptors\<close>

record buckets =
  bu_by_id :: "(string \<times> field_descriptor list) list"
  bu_total :: nat

definition push_section :: "string \<Rightarrow> field_descriptor \<Rightarrow> buckets \<Rightarrow> buckets" where
  "push_section i d b =
     b\<lparr>bu_by_id := AList.update i ((case map_of (bu_by_id b) i of None \<Rightarrow> [] | Some ds \<Rightarrow> ds) @ [d]) (bu_by_id b),
       bu_total := bu_total b + 1\<rparr>"

definition stop_at :: "field_type \<Rightarrow> bool" where
  "stop_at t = (t = FtArrayOfObjects \<or> t = FtDiscriminator)"

fun visit_section :: "field_descriptor \<Rightarrow> buckets \<Rightarrow> buckets" where
  "visit_section (Field c ch br sh) b =
     (let b = (case fd_section c of Some i \<Rightarrow> if i \<noteq> [] then push_section i (Field c ch br sh) b else b | None \<Rightarrow> b)
      in if stop_at (fd_type c) then b
         else case ch of None \<Rightarrow> b | Some ds \<Rightarrow> fold visit_section ds b)"

definition display_order :: "field_descriptor \<Rightarrow> int" where
  "display_order d = (case fd_display_order (fcore d) of Some n \<Rightarrow> int n | None \<Rightarrow> 9007199254740991)"

definition sort_buckets :: "buckets \<Rightarrow> buckets" where
  "sort_buckets b =
     b\<lparr>bu_by_id := map (\<lambda>(i, ds). (i, sort_by (\<lambda>x y. display_order x - display_order y) ds)) (bu_by_id b)\<rparr>"

definition no_buckets :: buckets where
  "no_buckets = \<lparr>bu_by_id = [], bu_total = 0\<rparr>"

definition collect_sectioned :: "field_descriptor list \<Rightarrow> buckets" where
  "collect_sectioned ds = sort_buckets (fold visit_section ds no_buckets)"

definition collect_row_sub_sections :: "field_descriptor list \<Rightarrow> buckets" where
  "collect_row_sub_sections ds =
     sort_buckets (fold (\<lambda>d b. case fd_section (fcore d) of
                           Some i \<Rightarrow> if i \<noteq> [] then push_section i d b else b | None \<Rightarrow> b) ds no_buckets)"

fun descendant_has_section :: "field_descriptor \<Rightarrow> bool" where
  "descendant_has_section (Field c ch br sh) =
     (case ch of
        None \<Rightarrow> False
      | Some ds \<Rightarrow>
          \<not> stop_at (fd_type c)
          \<and> list_ex (\<lambda>d. fd_section (fcore d) \<noteq> None \<or> descendant_has_section d) ds)"

text \<open>What the form lays out: blocks with their rows, and the fold of the others.\<close>

datatype form_layout = FlatRows "field_descriptor list" | Blocks "(string \<times> field_descriptor list) list" "field_descriptor list"

definition bucket_of :: "buckets \<Rightarrow> string \<Rightarrow> field_descriptor list" where
  "bucket_of b i = (case map_of (bu_by_id b) i of None \<Rightarrow> [] | Some ds \<Rightarrow> ds)"

definition form_layout :: "section_spec list \<Rightarrow> field_descriptor list \<Rightarrow> form_layout" where
  "form_layout secs ds =
     (let b = collect_sectioned ds
      in if secs = [] \<or> bu_total b = 0 then FlatRows ds
         else Blocks (filter (\<lambda>(i, rows). rows \<noteq> []) (map (\<lambda>s. (ss_id s, bucket_of b (ss_id s))) secs))
                (filter (\<lambda>d. fd_section (fcore d) = None \<and> \<not> descendant_has_section d) ds))"

definition row_layout :: "row_sub_config list \<Rightarrow> field_descriptor list \<Rightarrow> form_layout" where
  "row_layout subs ds =
     (let b = collect_row_sub_sections ds
      in if subs = [] \<or> bu_total b = 0 then FlatRows ds
         else Blocks (filter (\<lambda>(i, rows). rows \<noteq> []) (map (\<lambda>s. (rs_id s, bucket_of b (rs_id s))) subs))
                (filter (\<lambda>d. fd_section (fcore d) = None) ds))"

section \<open>The trie holds the paths\<close>

fun trie_at :: "trie \<Rightarrow> string list \<Rightarrow> trie option" where
  "trie_at t [] = Some t"
| "trie_at t (s # ss) = (case map_of (kids t) s of None \<Rightarrow> None | Some c \<Rightarrow> trie_at c ss)"

definition terminal_at :: "trie \<Rightarrow> string list \<Rightarrow> bool" where
  "terminal_at t p = (case trie_at t p of None \<Rightarrow> False | Some u \<Rightarrow> terminal u)"

lemma terminal_at_simps [simp]:
  "terminal_at t [] = terminal t"
  "terminal_at t (s # ss) = (case map_of (kids t) s of None \<Rightarrow> False | Some c \<Rightarrow> terminal_at c ss)"
  by (simp_all add: terminal_at_def split: option.splits)

lemma terminal_insert: "terminal_at (insert_path p t) q \<longleftrightarrow> q = p \<or> terminal_at t q"
proof (induction p t arbitrary: q rule: insert_path.induct)
  case (1 t)
  show ?case by (cases q) auto
next
  case (2 s ss t)
  show ?case
  proof (cases q)
    case (Cons a r)
    show ?thesis
    proof (cases "map_of (kids t) s")
      case None
      have empty: "\<not> terminal_at (Trie False []) r" by (cases r) simp_all
      show ?thesis using 2 [of r] empty by (auto simp: Cons None update_conv')
    next
      case (Some c)
      show ?thesis using 2 [of r] by (auto simp: Cons Some update_conv')
    qed
  qed simp
qed

lemma at_insert: "trie_at (insert_path p t) q \<noteq> None \<longleftrightarrow> prefix q p \<or> trie_at t q \<noteq> None"
proof (induction p t arbitrary: q rule: insert_path.induct)
  case (1 t)
  show ?case by (cases q) auto
next
  case (2 s ss t)
  show ?case
  proof (cases q)
    case (Cons a r)
    show ?thesis
    proof (cases "map_of (kids t) s")
      case None
      have empty: "trie_at (Trie False []) r \<noteq> None \<longleftrightarrow> r = []" by (cases r) simp_all
      show ?thesis using 2 [of r] empty by (auto simp: Cons None update_conv')
    next
      case (Some c)
      show ?thesis using 2 [of r] by (auto simp: Cons Some update_conv')
    qed
  qed simp
qed

definition split_path :: "string \<Rightarrow> string list" where
  "split_path p = split_on (CHR ''.'') p"

lemma trie_table:
  "(terminal_at (build_path_trie ps) q \<longleftrightarrow> q \<in> split_path ` set ps)
   \<and> (trie_at (build_path_trie ps) q \<noteq> None \<longleftrightarrow> q = [] \<or> (\<exists>p \<in> set ps. prefix q (split_path p)))"
proof -
  have "(terminal_at (fold (\<lambda>p. insert_path (split_on (CHR ''.'') p)) ps t) q
        \<longleftrightarrow> q \<in> split_path ` set ps \<or> terminal_at t q)
      \<and> (trie_at (fold (\<lambda>p. insert_path (split_on (CHR ''.'') p)) ps t) q \<noteq> None
        \<longleftrightarrow> (\<exists>p \<in> set ps. prefix q (split_path p)) \<or> trie_at t q \<noteq> None)" for t
  proof (induction ps arbitrary: t)
    case (Cons p ps)
    show ?case using Cons [of "insert_path (split_on (CHR ''.'') p) t"]
      by (auto simp: terminal_insert at_insert split_path_def simp del: not_None_eq)
  qed simp
  from this [of "Trie False []"] show ?thesis
    by (cases q) (auto simp: build_path_trie_def simp del: not_None_eq)
qed

text \<open>
  the trie of a table is the set of its paths. A node ends a path exactly when that path is in the
  table, and there is a node exactly where some path of the table leads.
\<close>

theorem trie_holds_paths:
  "(terminal_at (build_path_trie ps) q \<longleftrightarrow> q \<in> split_path ` set ps)
   \<and> (trie_at (build_path_trie ps) q \<noteq> None \<longleftrightarrow> q = [] \<or> (\<exists>p \<in> set ps. prefix q (split_path p)))"
  by (rule trie_table)

section \<open>Narrowing is exact\<close>

text \<open>The schema at a path of properties.\<close>

fun prop_at :: "json_schema \<Rightarrow> string list \<Rightarrow> json_schema option" where
  "prop_at s [] = Some s"
| "prop_at s (k # p) =
     (if sc_type (core s) = Some (TypeName ''array'') then None
      else case properties s of
             None \<Rightarrow> None
           | Some ps \<Rightarrow> (case map_of ps k of None \<Rightarrow> None | Some c \<Rightarrow> prop_at c p))"

text \<open>No reference has to be followed before the end of the path.\<close>

fun inline_on :: "json_schema \<Rightarrow> string list \<Rightarrow> bool" where
  "inline_on s [] = True"
| "inline_on s (k # p) =
     (\<not> wrapped_schema s
      \<and> (case properties s of
           None \<Rightarrow> True
         | Some ps \<Rightarrow> (case map_of ps k of None \<Rightarrow> True | Some c \<Rightarrow> inline_on c p)))"

fun reach :: "trie \<Rightarrow> string list \<Rightarrow> bool" where
  "reach t [] = True"
| "reach t (k # p) =
     (case map_of (kids t) k of None \<Rightarrow> False | Some c \<Rightarrow> terminal c \<and> kids c = [] \<or> reach c p)"

declare narrow.simps [simp del]

lemma map_of_narrowed:
  "map_of (concat (map (\<lambda>(k, c). case map_of ks k of None \<Rightarrow> [] | Some ct \<Rightarrow> [(k, f c ct)]) ps)) k =
     (case map_of ks k of None \<Rightarrow> None | Some ct \<Rightarrow> map_option (\<lambda>c. f c ct) (map_of ps k))"
  by (induction ps) (auto split: option.splits)

lemma prop_at_narrow:
  "inline_on s p \<Longrightarrow> prop_at (narrow s t) p \<noteq> None \<longleftrightarrow> prop_at s p \<noteq> None \<and> reach t p"
proof (induction p arbitrary: s t)
  case (Cons k p)
  show ?case
  proof (cases "sc_type (core s) = Some (TypeName ''array'')")
    case True
    then have "sc_type (core (narrow s t)) = Some (TypeName ''array'')"
      by (subst narrow.simps) (auto split: option.splits)
    then show ?thesis using True by simp
  next
    case obj: False
    show ?thesis
    proof (cases "properties s")
      case None
      then show ?thesis using obj by (subst narrow.simps) simp
    next
      case (Some ps)
      let ?f = "\<lambda>c ct. if terminal ct \<and> kids ct = [] then c else narrow c ct"
      have n: "properties (narrow s t) = Some (concat (map (\<lambda>(k, c).
            case map_of (kids t) k of None \<Rightarrow> [] | Some ct \<Rightarrow> [(k, ?f c ct)]) ps))"
        "sc_type (core (narrow s t)) = sc_type (core s)"
        using Cons.prems obj Some by (subst narrow.simps, simp add: Let_def)+
      show ?thesis
      proof (cases "map_of ps k")
        case None
        then show ?thesis using obj Some by (simp add: n map_of_narrowed split: option.splits)
      next
        case c: (Some c)
        have "inline_on c p" using Cons.prems Some c by simp
        then show ?thesis using Cons.IH [of c] obj Some c
          by (auto simp: n map_of_narrowed split: option.splits)
      qed
    qed
  qed
qed simp

lemma trie_at_append: "trie_at t (a @ b) = (case trie_at t a of None \<Rightarrow> None | Some u \<Rightarrow> trie_at u b)"
  by (induction a arbitrary: t) (auto split: option.splits)

lemma reach_iff:
  "reach t p \<longleftrightarrow> p = [] \<or> trie_at t p \<noteq> None
     \<or> (\<exists>a u. a \<noteq> [] \<and> prefix a p \<and> trie_at t a = Some u \<and> terminal u \<and> kids u = [])"
proof (induction p arbitrary: t)
  case (Cons k p)
  show ?case
  proof (cases "map_of (kids t) k")
    case None
    have "\<not> (a \<noteq> [] \<and> prefix a (k # p) \<and> trie_at t a = Some u)" for a u
      using None by (cases a) auto
    then show ?thesis using None by auto
  next
    case (Some c)
    have "(\<exists>a u. a \<noteq> [] \<and> prefix a (k # p) \<and> trie_at t a = Some u \<and> terminal u \<and> kids u = [])
      \<longleftrightarrow> terminal c \<and> kids c = []
          \<or> (\<exists>a u. a \<noteq> [] \<and> prefix a p \<and> trie_at c a = Some u \<and> terminal u \<and> kids u = [])" (is "?l = ?r")
    proof
      assume ?l
      then obtain a u where "prefix (k # a) (k # p)" "trie_at t (k # a) = Some u" "terminal u" "kids u = []"
        by (auto simp: neq_Nil_conv)
      then show ?r using Some by (cases a) auto
    next
      assume ?r
      then show ?l
      proof (elim disjE exE conjE)
        assume "terminal c" "kids c = []"
        then show ?l using Some by (intro exI [of _ "[k]"]) simp
      next
        fix a u
        assume "a \<noteq> []" "prefix a p" "trie_at c a = Some u" "terminal u" "kids u = []"
        then show ?l using Some by (intro exI [of _ "k # a"]) simp
      qed
    qed
    moreover have "reach t (k # p) \<longleftrightarrow> terminal c \<and> kids c = [] \<or> reach c p" using Some by simp
    moreover have "trie_at t (k # p) = trie_at c p" using Some by simp
    ultimately show ?thesis unfolding Cons [of c] by (cases "p = []") auto
  qed
qed simp

lemma trie_leaf:
  "(\<exists>u. trie_at (build_path_trie ps) a = Some u \<and> terminal u \<and> kids u = [])
     \<longleftrightarrow> a \<in> split_path ` set ps \<and> (\<forall>b \<in> split_path ` set ps. \<not> strict_prefix a b)"
proof -
  let ?t = "build_path_trie ps"
  have "kids u = [] \<longleftrightarrow> (\<forall>x. trie_at ?t (a @ [x]) = None)" if "trie_at ?t a = Some u" for u
    using that by (cases "kids u") (auto simp: trie_at_append split: option.splits)
  moreover have "terminal_at ?t a \<longleftrightarrow> a \<in> split_path ` set ps" using trie_table by blast
  moreover have "(\<exists>x. trie_at ?t (a @ [x]) \<noteq> None) \<longleftrightarrow> (\<exists>b \<in> split_path ` set ps. strict_prefix a b)"
  proof -
    have "(\<exists>x. prefix (a @ [x]) b) \<longleftrightarrow> strict_prefix a b" for b
      by (metis prefix_order.less_le prefix_snocD strict_prefixE' strict_prefixI' append_prefixD same_append_eq append_Cons append_Nil prefixI append.assoc not_Cons_self2)
    moreover have "trie_at ?t (a @ [x]) \<noteq> None \<longleftrightarrow> (\<exists>b \<in> split_path ` set ps. prefix (a @ [x]) b)" for x
      using trie_table [of ps "a @ [x]"] by auto
    ultimately show ?thesis by blast
  qed
  ultimately show ?thesis by (auto simp: terminal_at_def split: option.splits)
qed

text \<open>
  C21: the curated form narrows a schema to its table. Along properties that need no reference, the
  narrowed schema has a path exactly when the schema has it and the table names it, a longer path
  through it, or a shorter one that no longer path of the table refines.
\<close>

theorem narrowing_is_exact:
  assumes "inline_on s p" "p \<noteq> []"
  shows "prop_at (filter_schema_for_kind s k) p \<noteq> None \<longleftrightarrow>
    prop_at s p \<noteq> None
    \<and> (\<exists>a \<in> split_path ` set (all_paths k).
         prefix p a \<or> prefix a p \<and> (\<forall>b \<in> split_path ` set (all_paths k). \<not> strict_prefix a b))"
proof -
  let ?t = "build_path_trie (all_paths k)"
  let ?P = "split_path ` set (all_paths k)"
  have "split_path q \<noteq> []" for q by (simp add: split_path_def)
  then have ne: "[] \<notin> split_path ` set (all_paths k)" by (metis imageE)
  have "reach ?t p \<longleftrightarrow> (\<exists>a \<in> split_path ` set (all_paths k). prefix p a)
      \<or> (\<exists>a. a \<noteq> [] \<and> prefix a p \<and> (\<exists>u. trie_at ?t a = Some u \<and> terminal u \<and> kids u = []))"
    unfolding reach_iff using trie_table [of "all_paths k" p] assms(2) by blast
  also have "\<dots> \<longleftrightarrow> (\<exists>a \<in> ?P. prefix p a)
      \<or> (\<exists>a. a \<noteq> [] \<and> prefix a p \<and> a \<in> ?P \<and> (\<forall>b \<in> ?P. \<not> strict_prefix a b))"
    unfolding trie_leaf ..
  also have "\<dots> \<longleftrightarrow> (\<exists>a \<in> ?P. prefix p a \<or> prefix a p \<and> (\<forall>b \<in> ?P. \<not> strict_prefix a b))"
    using ne by (metis (no_types, lifting))
  finally have r: "reach ?t p \<longleftrightarrow> (\<exists>a \<in> split_path ` set (all_paths k).
         prefix p a \<or> prefix a p \<and> (\<forall>b \<in> split_path ` set (all_paths k). \<not> strict_prefix a b))" .
  show ?thesis unfolding filter_schema_for_kind_def prop_at_narrow [OF assms(1)] r ..
qed

definition object_schema :: "(string \<times> json_schema) list \<Rightarrow> json_schema" where
  "object_schema ps = Schema (blank\<lparr>sc_type := Some (TypeName ''object'')\<rparr>) (Some ps) None None None None"

lemma narrowing_is_exact_witness:
  "prop_at (filter_schema_for_kind (object_schema [(''status'', object_schema []), (''data'', object_schema [])])
     config_map_spec) [''status''] = None"
proof -
  let ?s = "object_schema [(''status'', object_schema []), (''data'', object_schema [])]"
  have i: "inline_on ?s [''status'']" by (simp add: object_schema_def wrapped_schema_def blank_def)
  have t: "list_all (\<lambda>a. \<not> prefix [''status''] a \<and> \<not> prefix a [''status'']) (map split_path (all_paths config_map_spec))"
    by code_simp
  then show ?thesis using narrowing_is_exact [OF i, of config_map_spec]
    by (auto simp: list_all_iff simp del: prop_at.simps)
qed

section \<open>The tables are consistent\<close>

lemma stamp_paths_lookup:
  "stamp_paths l m = Some m' \<Longrightarrow> map_of m' p = (case map_of m p of Some v \<Rightarrow> Some v | None \<Rightarrow> map_of l p)"
proof (induction l m rule: stamp_paths.induct)
  case (2 q v rest m)
  then show ?case by (auto simp: update_conv' split: if_splits option.splits)
qed (simp split: option.splits)

lemma stamp_paths_succeeds:
  "distinct (map fst l) \<Longrightarrow> \<forall>p \<in> fst ` set l. map_of m p = None \<Longrightarrow> stamp_paths l m \<noteq> None"
proof (induction l m rule: stamp_paths.induct)
  case (2 q v rest m)
  then have "\<forall>p \<in> fst ` set rest. map_of (AList.update q v m) p = None" by (auto simp: update_conv')
  then show ?case using 2 by simp
qed simp

text \<open>Distinctness is checked by segments: each path must reach a new end of the trie.\<close>

fun fresh_paths :: "string list list \<Rightarrow> trie \<Rightarrow> bool" where
  "fresh_paths [] t = True"
| "fresh_paths (p # ps) t = (\<not> terminal_at t p \<and> fresh_paths ps (insert_path p t))"

lemma fresh_distinct: "fresh_paths ps t \<Longrightarrow> distinct ps \<and> (\<forall>p \<in> set ps. \<not> terminal_at t p)"
proof (induction ps arbitrary: t)
  case (Cons p ps)
  then show ?case using Cons.IH [of "insert_path p t"] by (auto simp: terminal_insert)
qed simp

lemma tables_fresh: "fresh_paths (map (split_path \<circ> fst) (placed_paths (kind_spec_of k))) (Trie False [])"
proof (cases k)
  case ConfigMapKind
  show ?thesis unfolding ConfigMapKind by code_simp
next
  case SecretKind
  show ?thesis unfolding SecretKind by code_simp
next
  case ServiceKind
  show ?thesis unfolding ServiceKind by code_simp
next
  case IngressKind
  show ?thesis unfolding IngressKind by code_simp
next
  case DeploymentKind
  show ?thesis unfolding DeploymentKind by code_simp
next
  case StatefulSetKind
  show ?thesis unfolding StatefulSetKind by code_simp
qed

lemma tables_distinct: "distinct (map fst (placed_paths (kind_spec_of k)))"
proof -
  have "distinct (map split_path (map fst (placed_paths (kind_spec_of k))))"
    using fresh_distinct [OF tables_fresh [of k]] by simp
  then show ?thesis by (rule distinct_map [THEN iffD1, THEN conjunct1])
qed

lemma tables_stamp: "stamp_paths (placed_paths (kind_spec_of k)) [] \<noteq> None"
  by (rule stamp_paths_succeeds) (simp_all add: tables_distinct)

text \<open>
  every path of a curated form has its place. No table names a path twice, so building its
  resolver raises no error, and the resolver sends each path to the section that names it, at the
  position it has there.
\<close>

theorem every_path_has_its_place:
  "\<exists>r. get_section_resolver (kind_spec_of k) = Some r
     \<and> (\<forall>(p, i, n) \<in> set (placed_paths (kind_spec_of k)). r (split_path p) = Some (i, n))"
proof -
  obtain m where m: "stamp_paths (placed_paths (kind_spec_of k)) [] = Some m" using tables_stamp [of k] by blast
  have "map_of m (join_str ''.'' (split_path p)) = Some v" if "(p, v) \<in> set (placed_paths (kind_spec_of k))" for p v
    using stamp_paths_lookup [OF m, of p] tables_distinct [of k] that
    by (simp add: split_path_def join_split)
  then show ?thesis using m by (auto simp: get_section_resolver_def)
qed

text \<open>
  a field that cannot change after creation is a field the form shows.
\<close>

theorem create_only_paths_are_shown:
  "set (ks_create_only (kind_spec_of k)) \<subseteq> set (concat (map ss_paths (ks_sections (kind_spec_of k))))"
  by (cases k) (simp_all add: config_map_spec_def secret_spec_def service_spec_def ingress_spec_def
      deployment_spec_def stateful_set_spec_def table_section_def)

section \<open>The layout shows every placed field\<close>

fun stamped :: "field_descriptor \<Rightarrow> field_descriptor list" where
  "stamped (Field c ch br sh) =
     (if fd_section c \<noteq> None \<and> fd_section c \<noteq> Some [] then [Field c ch br sh] else [])
     @ (if stop_at (fd_type c) then [] else case ch of None \<Rightarrow> [] | Some ds \<Rightarrow> concat (map stamped ds))"

definition push_own :: "field_descriptor \<Rightarrow> buckets \<Rightarrow> buckets" where
  "push_own d b = (case fd_section (fcore d) of Some i \<Rightarrow> push_section i d b | None \<Rightarrow> b)"

lemma fold_visit_is_push:
  "(\<And>d b. d \<in> set ds \<Longrightarrow> visit_section d b = fold push_own (stamped d) b) \<Longrightarrow>
     fold visit_section ds b = fold push_own (concat (map stamped ds)) b"
  by (induction ds arbitrary: b) simp_all

lemma push_own_field:
  "push_own (Field c ch br sh) b =
     (case fd_section c of Some i \<Rightarrow> push_section i (Field c ch br sh) b | None \<Rightarrow> b)"
  by (simp add: push_own_def)

lemma visit_is_push: "visit_section d b = fold push_own (stamped d) b"
proof (induction d b rule: visit_section.induct)
  case (1 c ch br sh b)
  show ?case
  proof (cases "ch = None \<or> stop_at (fd_type c)")
    case True
    then show ?thesis by (auto simp: push_own_field Let_def split: option.splits)
  next
    case False
    then obtain ds where ds: "ch = Some ds" "\<not> stop_at (fd_type c)" by auto
    have "fold visit_section ds b' = fold push_own (concat (map stamped ds)) b'" for b'
      by (rule fold_visit_is_push) (use 1 ds in auto)
    then show ?thesis using ds by (auto simp: push_own_field Let_def split: option.splits)
  qed
qed

definition stamped_all :: "field_descriptor list \<Rightarrow> field_descriptor list" where
  "stamped_all ds = concat (map stamped ds)"

lemma stamped_has_section: "d \<in> set (stamped e) \<Longrightarrow> \<exists>i. fd_section (fcore d) = Some i \<and> i \<noteq> []"
  by (induction e rule: stamped.induct) (auto split: if_splits option.splits)

lemma bucket_of_push:
  "bucket_of (fold push_own ds b) i = bucket_of b i @ filter (\<lambda>d. fd_section (fcore d) = Some i) ds"
proof (induction ds arbitrary: b)
  case (Cons d ds)
  have "bucket_of (push_own d b) i = bucket_of b i @ (if fd_section (fcore d) = Some i then [d] else [])"
    by (auto simp: push_own_def push_section_def bucket_of_def update_conv' split: option.splits)
  then show ?case by (simp add: Cons)
qed simp

lemma total_push: "\<forall>d \<in> set ds. fd_section (fcore d) \<noteq> None \<Longrightarrow>
    bu_total (fold push_own ds b) = bu_total b + length ds"
  by (induction ds arbitrary: b) (auto simp: push_own_def push_section_def)

lemma bucket_of_sorted:
  "bucket_of (sort_buckets b) i = sort_by (\<lambda>x y. display_order x - display_order y) (bucket_of b i)"
  by (simp add: bucket_of_def sort_buckets_def map_of_map sort_by_def split: option.splits)

lemma no_buckets_simps [simp]: "bu_total no_buckets = 0" "bucket_of no_buckets i = []"
  by (simp_all add: no_buckets_def bucket_of_def)

lemma set_sort_by: "set (sort_by cmp xs) = set xs"
  by (metis mset_sort_by set_mset_mset)

lemma collected_sections:
  "bucket_of (collect_sectioned ds) i =
     sort_by (\<lambda>x y. display_order x - display_order y)
       (filter (\<lambda>d. fd_section (fcore d) = Some i) (stamped_all ds))"
  "bu_total (collect_sectioned ds) = length (stamped_all ds)"
proof -
  have f: "fold visit_section ds no_buckets = fold push_own (stamped_all ds) no_buckets"
    unfolding stamped_all_def by (rule fold_visit_is_push) (rule visit_is_push)
  show "bucket_of (collect_sectioned ds) i =
     sort_by (\<lambda>x y. display_order x - display_order y)
       (filter (\<lambda>d. fd_section (fcore d) = Some i) (stamped_all ds))"
    by (simp add: collect_sectioned_def bucket_of_sorted f bucket_of_push)
  have "\<forall>d \<in> set (stamped_all ds). fd_section (fcore d) \<noteq> None"
    using stamped_has_section by (fastforce simp: stamped_all_def)
  from total_push [OF this, of no_buckets] show "bu_total (collect_sectioned ds) = length (stamped_all ds)"
    by (simp add: collect_sectioned_def f sort_buckets_def)
qed

text \<open>The fields below a field that the form could show on their own.\<close>

fun below :: "field_descriptor \<Rightarrow> field_descriptor list" where
  "below (Field c ch br sh) =
     (case ch of
        None \<Rightarrow> []
      | Some ds \<Rightarrow> if stop_at (fd_type c) then [] else concat (map (\<lambda>d. d # below d) ds))"

lemma descendant_iff_below:
  "descendant_has_section d \<longleftrightarrow> (\<exists>e \<in> set (below d). fd_section (fcore e) \<noteq> None)"
proof (induction d rule: below.induct)
  case (1 c ch br sh)
  show ?case
  proof (cases "\<exists>ds. ch = Some ds \<and> \<not> stop_at (fd_type c)")
    case True
    then obtain ds where ds: "ch = Some ds" "\<not> stop_at (fd_type c)" by blast
    have ih: "d \<in> set ds \<Longrightarrow>
        descendant_has_section d \<longleftrightarrow> (\<exists>e \<in> set (below d). fd_section (fcore e) \<noteq> None)" for d
      using "1.IH" [OF ds] by blast
    show ?thesis using ds by (simp add: list_ex_iff ih cong: bex_cong)
  qed (auto split: option.splits)
qed

text \<open>
  C24: the form shows every field that has a place, and shows it there only. Laid out in
  sections, each block belongs to a section of the table and holds exactly the reachable fields of that
  section, each as often as the schema has it, in the order of the table; every reachable field
  with a section of the table is in its block; and the others are, in order, exactly the top-level
  fields without a section that have no field with a section below them. A field whose section is
  not in the table is in neither.
\<close>

theorem layout_shows_placed_fields:
  assumes "form_layout secs ds = Blocks blocks others"
  shows "(\<forall>(i, rows) \<in> set blocks.
            i \<in> ss_id ` set secs \<and> rows \<noteq> []
            \<and> mset rows = mset (filter (\<lambda>d. fd_section (fcore d) = Some i) (stamped_all ds))
            \<and> sorted (map display_order rows))
    \<and> (\<forall>d \<in> set (stamped_all ds). \<forall>i. fd_section (fcore d) = Some i \<and> i \<in> ss_id ` set secs
          \<longrightarrow> (\<exists>rows. (i, rows) \<in> set blocks \<and> d \<in> set rows))
    \<and> others = filter (\<lambda>d. fd_section (fcore d) = None
          \<and> (\<forall>e \<in> set (below d). fd_section (fcore e) = None)) ds"
proof -
  let ?sort = "sort_by (\<lambda>x y. display_order x - display_order y)"
  let ?rows = "\<lambda>i. ?sort (filter (\<lambda>d. fd_section (fcore d) = Some i) (stamped_all ds))"
  have b: "blocks = filter (\<lambda>(i, rows). rows \<noteq> []) (map (\<lambda>s. (ss_id s, ?rows (ss_id s))) secs)"
    and o: "others = filter (\<lambda>d. fd_section (fcore d) = None \<and> \<not> descendant_has_section d) ds"
    using assms by (auto simp: form_layout_def collected_sections Let_def split: if_splits)
  have sorted: "sorted (map display_order (?sort xs))" for xs by (rule sorted_sort_by) simp_all
  have rows: "set (?rows i) = {d \<in> set (stamped_all ds). fd_section (fcore d) = Some i}" for i
    by (simp only: set_sort_by set_filter)
  have "\<exists>rows. (i, rows) \<in> set blocks \<and> d \<in> set rows"
    if "d \<in> set (stamped_all ds)" "fd_section (fcore d) = Some i" "i \<in> ss_id ` set secs" for d i
  proof -
    have d: "d \<in> set (?rows i)" using rows that by blast
    then have "?rows i \<noteq> []" by auto
    then show ?thesis using that(3) d unfolding b by auto
  qed
  moreover have "others = filter (\<lambda>d. fd_section (fcore d) = None
      \<and> (\<forall>e \<in> set (below d). fd_section (fcore e) = None)) ds"
    unfolding o descendant_iff_below by simp
  ultimately show ?thesis by (auto simp: b mset_sort_by sorted)
qed

definition sample_field :: "string list \<Rightarrow> field_type \<Rightarrow> string option \<Rightarrow> field_descriptor list option \<Rightarrow> field_descriptor" where
  "sample_field path t sec ch = Field ((plain_core path [] t)\<lparr>fd_section := sec\<rparr>) ch None None"

lemma layout_shows_placed_fields_witness:
  "\<exists>blocks others. form_layout (ks_sections config_map_spec) [sample_field [''data''] FtString (Some ''primary'') None]
       = Blocks blocks others
     \<and> (\<exists>rows. (''primary'', rows) \<in> set blocks)"
proof -
  let ?d = "sample_field [''data''] FtString (Some ''primary'') None"
  have s: "stamped_all [?d] = [?d]" by (simp add: stamped_all_def sample_field_def plain_core_def stop_at_def)
  obtain blocks others where l: "form_layout (ks_sections config_map_spec) [?d] = Blocks blocks others"
  proof -
    have "ks_sections config_map_spec \<noteq> []" by (simp add: config_map_spec_def)
    moreover have "bu_total (collect_sectioned [?d]) \<noteq> 0" by (simp add: collected_sections s)
    ultimately show thesis using that by (simp add: form_layout_def Let_def del: not_gr_zero)
  qed
  have f: "fd_section (fcore ?d) = Some ''primary''" by (simp add: sample_field_def)
  have g: "''primary'' \<in> ss_id ` set (ks_sections config_map_spec)"
    by (simp add: config_map_spec_def table_section_def)
  note placed = layout_shows_placed_fields [OF l, THEN conjunct2, THEN conjunct1, unfolded s, rule_format]
  have "\<exists>rows. (''primary'', rows) \<in> set blocks \<and> ?d \<in> set rows"
    by (rule placed) (use f g in simp_all)
  then show ?thesis using l by blast
qed

text \<open>
  a field the table does not know disappears when a sibling has a place: its parent is left out of the
  others because of the sibling, and it has no block of its own, although the comments say that
  new fields stay discoverable.
\<close>

theorem unlisted_sibling_is_dropped:
  "form_layout (ks_sections deployment_spec)
     [sample_field [''spec''] FtObject None
        (Some [sample_field [''spec'', ''replicas''] FtInteger (Some ''primary'') None,
               sample_field [''spec'', ''newField''] FtString None None])]
   = Blocks [(''primary'', [sample_field [''spec'', ''replicas''] FtInteger (Some ''primary'') None])] []"
  by (simp add: form_layout_def Let_def collected_sections stamped_all_def sample_field_def plain_core_def
      stop_at_def deployment_spec_def table_section_def sort_by_def)

text \<open>
  narrowing stops at a reference: an object whose metadata is wrapped as the server's documents
  have it keeps all of it, managed fields included.
\<close>

theorem wrapped_metadata_is_not_narrowed:
  assumes "wrapped_schema m"
  shows "prop_at (filter_schema_for_kind (object_schema [(''metadata'', m)]) config_map_spec) [''metadata''] = Some m"
proof -
  have t: "map_of (kids (build_path_trie (all_paths config_map_spec))) ''metadata''
      = Some (Trie False [(''name'', Trie True []), (''namespace'', Trie True []), (''labels'', Trie True []),
          (''annotations'', Trie True [])])"
    by code_simp
  have "narrow m u = m" for u using assms by (subst narrow.simps) simp
  then show ?thesis unfolding filter_schema_for_kind_def
    by (subst narrow.simps) (simp add: object_schema_def wrapped_schema_def blank_def t)
qed

end
