(* ===== verification/LabelForm.thy ===== *)
theory LabelForm
  imports Prelude "HOL-Library.List_Lexorder" "HOL-Library.Char_ord"
begin

text \<open>
  Model of the label editor: the validators of \<open>web/src/lib/labels.ts\<close> and the form of
  \<open>components/edit/EditLabelsModal.tsx\<close>. A label map is an association list with distinct keys.
  Lengths are counted in characters of the model; every accepted string is ASCII.
\<close>

section \<open>Validators\<close>

definition alnum :: "char \<Rightarrow> bool" where
  "alnum c = (let n = (of_char c :: nat)
     in 48 \<le> n \<and> n \<le> 57 \<or> 65 \<le> n \<and> n \<le> 90 \<or> 97 \<le> n \<and> n \<le> 122)"

definition lower_alnum :: "char \<Rightarrow> bool" where
  "lower_alnum c = (let n = (of_char c :: nat) in 48 \<le> n \<and> n \<le> 57 \<or> 97 \<le> n \<and> n \<le> 122)"

text \<open>The shape of both patterns: \<open>edge (inner* edge)?\<close>.\<close>

definition edged :: "(char \<Rightarrow> bool) \<Rightarrow> (char \<Rightarrow> bool) \<Rightarrow> string \<Rightarrow> bool" where
  "edged edge inner s =
     (case s of [] \<Rightarrow> False
      | c # r \<Rightarrow> edge c \<and> (r = [] \<or> edge (last r) \<and> list_all (\<lambda>x. inner x \<or> edge x) (butlast r)))"

definition is_segment :: "string \<Rightarrow> bool" where
  "is_segment = edged alnum (\<lambda>c. c = CHR ''-'' \<or> c = CHR ''_'' \<or> c = CHR ''.'')"

definition is_dns_label :: "string \<Rightarrow> bool" where
  "is_dns_label = edged lower_alnum (\<lambda>c. c = CHR ''-'')"

datatype label_error =
    KeyRequired | PrefixEmpty | PrefixTooLong | PrefixNotDns
  | NameEmpty | NameTooLong | NameMalformed | ValueTooLong | ValueMalformed

definition validate_label_key :: "string \<Rightarrow> label_error option" where
  "validate_label_key key =
     (if key = [] then Some KeyRequired
      else let (pre, name) = (case index_of (CHR ''/'') key of
                 Some i \<Rightarrow> (Some (take i key), drop (i + 1) key) | None \<Rightarrow> (None, key));
               prefix_error = (case pre of
                 None \<Rightarrow> None
               | Some p \<Rightarrow>
                   if p = [] then Some PrefixEmpty
                   else if length p > 253 then Some PrefixTooLong
                   else if list_ex (\<lambda>l. \<not> is_dns_label l) (split_on (CHR ''.'') p) then Some PrefixNotDns
                   else None)
           in if prefix_error \<noteq> None then prefix_error
              else if name = [] then Some NameEmpty
              else if length name > 63 then Some NameTooLong
              else if \<not> is_segment name then Some NameMalformed
              else None)"

definition validate_label_value :: "string \<Rightarrow> label_error option" where
  "validate_label_value v =
     (if v = [] then None
      else if length v > 63 then Some ValueTooLong
      else if \<not> is_segment v then Some ValueMalformed else None)"

record label_row =
  lr_id :: nat
  lr_key :: string
  lr_value :: string

definition count_key :: "label_row \<Rightarrow> (string \<times> nat) list \<Rightarrow> (string \<times> nat) list" where
  "count_key r counts =
     (if lr_key r = [] then counts
      else AList.update (lr_key r) ((case map_of counts (lr_key r) of Some n \<Rightarrow> n | None \<Rightarrow> 0) + 1) counts)"

definition find_duplicate_keys :: "label_row list \<Rightarrow> string list" where
  "find_duplicate_keys rows = map fst (filter (\<lambda>(k, n). n > 1) (fold count_key rows []))"

section \<open>The form\<close>

type_synonym labels = "(string \<times> string) list"

record label_form =
  lf_rows :: "label_row list"
  lf_next :: nat

definition blank_row :: "nat \<Rightarrow> label_row" where
  "blank_row i = \<lparr>lr_id = i, lr_key = [], lr_value = []\<rparr>"

text \<open>\<open>n\<close> is the row counter of the module.\<close>

definition from_map :: "nat \<Rightarrow> labels \<Rightarrow> label_form" where
  "from_map n m =
     (if m = [] then \<lparr>lf_rows = [blank_row (n + 1)], lf_next = n + 1\<rparr>
      else \<lparr>lf_rows = map (\<lambda>(i, k, v). \<lparr>lr_id = n + 1 + i, lr_key = k, lr_value = v\<rparr>) (zip [0..<length m] m),
            lf_next = n + length m\<rparr>)"

datatype label_event = EditKey nat string | EditValue nat string | RemoveRow nat | AddRow

fun label_step :: "label_form \<Rightarrow> label_event \<Rightarrow> label_form" where
  "label_step s (EditKey i k) = s\<lparr>lf_rows := map (\<lambda>r. if lr_id r = i then r\<lparr>lr_key := k\<rparr> else r) (lf_rows s)\<rparr>"
| "label_step s (EditValue i v) = s\<lparr>lf_rows := map (\<lambda>r. if lr_id r = i then r\<lparr>lr_value := v\<rparr> else r) (lf_rows s)\<rparr>"
| "label_step s (RemoveRow i) =
     (let rest = filter (\<lambda>r. lr_id r \<noteq> i) (lf_rows s)
      in if rest = [] then s\<lparr>lf_rows := [blank_row (lf_next s + 1)], lf_next := lf_next s + 1\<rparr>
         else s\<lparr>lf_rows := rest\<rparr>)"
| "label_step s AddRow =
     s\<lparr>lf_rows := lf_rows s @ [blank_row (lf_next s + 1)], lf_next := lf_next s + 1\<rparr>"

definition row_has_error :: "label_row list \<Rightarrow> label_row \<Rightarrow> bool" where
  "row_has_error rows r =
     (validate_label_key (lr_key r) \<noteq> None \<or> validate_label_value (lr_value r) \<noteq> None \<or>
      lr_key r \<in> set (find_duplicate_keys rows) \<and> length (lr_key r) > 0)"

definition label_map :: "label_row list \<Rightarrow> labels" where
  "label_map rows =
     fold (\<lambda>r m. if lr_key r \<noteq> [] then AList.update (lr_key r) (lr_value r) m else m) rows []"

definition value_of :: "labels \<Rightarrow> string \<Rightarrow> string" where
  "value_of m k = (case map_of m k of Some v \<Rightarrow> v | None \<Rightarrow> ''undefined'')"

definition normalize_labels :: "labels \<Rightarrow> string" where
  "normalize_labels m =
     join_str [newline] (map (\<lambda>k. k @ ''='' @ value_of m k) (sort (map fst m)))"

text \<open>What \<open>onSubmit\<close> gets; None when the button is disabled.\<close>

definition submit_labels :: "labels \<Rightarrow> label_form \<Rightarrow> labels option" where
  "submit_labels initial s =
     (let has_errors = list_ex (row_has_error (lf_rows s)) (lf_rows s);
          unchanged = (normalize_labels (label_map (lf_rows s)) = normalize_labels initial)
      in if has_errors \<or> unchanged then None else Some (label_map (lf_rows s)))"

section \<open>Duplicates\<close>

lemma count_key_lookup:
  "k \<noteq> [] \<Longrightarrow> map_of (fold count_key rows m) k =
     (let n = length (filter (\<lambda>r. lr_key r = k) rows)
      in case map_of m k of Some c \<Rightarrow> Some (c + n) | None \<Rightarrow> if n = 0 then None else Some n)"
proof (induction rows arbitrary: m)
  case (Cons r rows)
  then show ?case
    by (auto simp: count_key_def Let_def update_conv' split: option.splits)
qed (simp split: option.split)

lemma count_key_distinct: "distinct (map fst m) \<Longrightarrow> distinct (map fst (fold count_key rows m))"
  by (induction rows arbitrary: m) (simp_all add: count_key_def distinct_update)

lemma count_key_nonempty: "[] \<notin> fst ` set m \<Longrightarrow> [] \<notin> fst ` set (fold count_key rows m)"
proof (induction rows arbitrary: m)
  case (Cons r rows)
  have "[] \<notin> fst ` set (count_key r m)"
    using Cons.prems by (auto simp: count_key_def dest!: update_memD)
  then show ?case using Cons.IH by simp
qed simp

lemma duplicate_iff:
  "k \<in> set (find_duplicate_keys rows) \<longleftrightarrow> k \<noteq> [] \<and> length (filter (\<lambda>r. lr_key r = k) rows) > 1"
proof -
  let ?c = "fold count_key rows []"
  have d: "distinct (map fst ?c)" by (rule count_key_distinct) simp
  have e: "[] \<notin> fst ` set ?c" by (rule count_key_nonempty) simp
  have "k \<in> set (find_duplicate_keys rows) \<longleftrightarrow> (\<exists>n. map_of ?c k = Some n \<and> n > 1)"
    using d by (force simp: find_duplicate_keys_def)
  moreover have "map_of ?c [] = None" using e by (simp add: map_of_eq_None_iff)
  ultimately show ?thesis
    using count_key_lookup [of k rows "[]"] by (cases "k = []") (auto simp: Let_def split: if_splits)
qed

section \<open>Rows without errors\<close>

definition row_pairs :: "label_row list \<Rightarrow> labels" where
  "row_pairs rows = map (\<lambda>r. (lr_key r, lr_value r)) rows"

definition valid_pair :: "string \<times> string \<Rightarrow> bool" where
  "valid_pair p = (validate_label_key (fst p) = None \<and> validate_label_value (snd p) = None)"

definition valid_labels :: "labels \<Rightarrow> bool" where
  "valid_labels m = (distinct (map fst m) \<and> list_all valid_pair m)"

lemma distinct_by_count:
  "distinct (map f xs) \<longleftrightarrow> (\<forall>x \<in> set xs. length (filter (\<lambda>r. f r = f x) xs) \<le> 1)"
proof (induction xs)
  case (Cons y ys)
  have none: "length (filter (\<lambda>r. f r = f y) ys) = 0 \<longleftrightarrow> f y \<notin> f ` set ys"
    by (simp add: filter_empty_conv image_iff) metis
  show ?case
  proof (cases "f y \<in> f ` set ys")
    case True
    then show ?thesis using none by auto
  next
    case False
    then have "length (filter (\<lambda>r. f r = f x) (y # ys)) = length (filter (\<lambda>r. f r = f x) ys)" if "x \<in> set ys" for x
      using that False by (metis (mono_tags, lifting) filter.simps(2) imageI)
    moreover have "\<forall>x \<in> set ys. f x \<noteq> f y" using False by (metis imageI)
    ultimately show ?thesis using False none Cons by auto
  qed
qed simp

lemma valid_key_nonempty: "validate_label_key k = None \<Longrightarrow> k \<noteq> []"
  by (auto simp: validate_label_key_def)

lemma no_errors_iff: "\<not> list_ex (row_has_error rows) rows \<longleftrightarrow> valid_labels (row_pairs rows)"
proof -
  have "\<not> list_ex (row_has_error rows) rows \<longleftrightarrow>
      list_all valid_pair (row_pairs rows) \<and>
      (\<forall>r \<in> set rows. lr_key r \<notin> set (find_duplicate_keys rows) \<or> lr_key r = [])"
    by (auto simp: list_ex_iff list_all_iff row_has_error_def row_pairs_def valid_pair_def)
  also have "\<dots> \<longleftrightarrow> list_all valid_pair (row_pairs rows) \<and>
      (\<forall>r \<in> set rows. length (filter (\<lambda>x. lr_key x = lr_key r) rows) \<le> 1)"
    using valid_key_nonempty
    by (auto simp: duplicate_iff list_all_iff row_pairs_def valid_pair_def not_less)
  also have "\<dots> \<longleftrightarrow> valid_labels (row_pairs rows)"
    by (auto simp: valid_labels_def row_pairs_def distinct_by_count comp_def)
  finally show ?thesis .
qed

lemma label_map_fold:
  "distinct (map fst m @ map lr_key rows) \<Longrightarrow> list_all (\<lambda>r. lr_key r \<noteq> []) rows \<Longrightarrow>
     fold (\<lambda>r m. if lr_key r \<noteq> [] then AList.update (lr_key r) (lr_value r) m else m) rows m = m @ row_pairs rows"
proof (induction rows arbitrary: m)
  case (Cons r rows)
  have "AList.update k v m = m @ [(k, v)]" if "k \<notin> fst ` set m" for k v
    using that by (induction m) auto
  with Cons show ?case by (auto simp: row_pairs_def)
qed (simp add: row_pairs_def)

lemma label_map_pairs: "valid_labels (row_pairs rows) \<Longrightarrow> label_map rows = row_pairs rows"
  using label_map_fold [of "[]" rows] valid_key_nonempty
  by (auto simp: label_map_def valid_labels_def row_pairs_def valid_pair_def list_all_iff comp_def)

section \<open>The comparison of label maps\<close>

lemma edged_chars: "edged edge inner s \<Longrightarrow> c \<in> set s \<Longrightarrow> edge c \<or> inner c"
  by (cases s) (auto simp: edged_def list_all_iff, metis append_butlast_last_id butlast.simps(1) in_set_butlastD
      empty_iff list.set(1) rotate1.simps(2) set_ConsD set_rotate1 Un_iff set_append)

definition label_char :: "char \<Rightarrow> bool" where
  "label_char c = (alnum c \<or> c \<in> {CHR ''-'', CHR ''_'', CHR ''.'', CHR ''/''})"

lemma segment_chars: "is_segment s \<Longrightarrow> c \<in> set s \<Longrightarrow> label_char c"
  using edged_chars [of alnum _ s c] by (auto simp: is_segment_def label_char_def)

lemma dns_chars: "is_dns_label s \<Longrightarrow> c \<in> set s \<Longrightarrow> label_char c"
  using edged_chars [of lower_alnum _ s c]
  by (auto simp: is_dns_label_def label_char_def alnum_def lower_alnum_def Let_def)

lemma join_str_chars: "c \<in> set (join_str sep xs) \<Longrightarrow> c \<in> set sep \<or> (\<exists>x \<in> set xs. c \<in> set x)"
  by (induction sep xs rule: join_str.induct) auto

lemma index_of_split: "index_of c s = Some i \<Longrightarrow> s = take i s @ c # drop (i + 1) s"
proof -
  assume i: "index_of c s = Some i"
  then have len: "i = length (takeWhile (\<lambda>x. x \<noteq> c) s)" "i < length s"
    by (auto simp: index_of_def Let_def split: if_splits)
  then have "s ! i = c" using nth_length_takeWhile [of "\<lambda>x. x \<noteq> c" s] by simp
  then show ?thesis using id_take_nth_drop [OF len(2)] by simp
qed

lemma dns_prefix_chars:
  "\<not> list_ex (\<lambda>l. \<not> is_dns_label l) (split_on (CHR ''.'') p) \<Longrightarrow> c \<in> set p \<Longrightarrow> label_char c"
  using join_str_chars [of c "''.''" "split_on (CHR ''.'') p"] dns_chars
  by (auto simp: join_split list_ex_iff label_char_def)

lemma valid_key_chars: "validate_label_key k = None \<Longrightarrow> c \<in> set k \<Longrightarrow> label_char c"
proof (cases "index_of (CHR ''/'') k")
  case None
  assume "validate_label_key k = None" "c \<in> set k"
  then show ?thesis using None segment_chars [of k c] by (auto simp: validate_label_key_def split: if_splits)
next
  case (Some i)
  assume k: "validate_label_key k = None" "c \<in> set k"
  then have "is_segment (drop (i + 1) k)" "\<not> list_ex (\<lambda>l. \<not> is_dns_label l) (split_on (CHR ''.'') (take i k))"
    using Some by (auto simp: validate_label_key_def Let_def split: if_splits)
  moreover have "c \<in> set (take i k) \<or> c = CHR ''/'' \<or> c \<in> set (drop (i + 1) k)"
    using k(2) index_of_split [OF Some] by (metis Un_iff set_ConsD set_append)
  ultimately show ?thesis using segment_chars dns_prefix_chars by (auto simp: label_char_def)
qed

lemma valid_value_chars: "validate_label_value v = None \<Longrightarrow> c \<in> set v \<Longrightarrow> label_char c"
  using segment_chars [of v c] by (auto simp: validate_label_value_def split: if_splits)

lemma label_char_safe: "\<not> label_char (CHR ''='')" "\<not> label_char newline"
  by (simp_all add: label_char_def alnum_def newline_def)

lemma value_of_mem: "distinct (map fst m) \<Longrightarrow> (k, v) \<in> set m \<Longrightarrow> value_of m k = v"
  by (simp add: value_of_def)

lemma valid_entry:
  assumes "valid_labels m" "k \<in> set (sort (map fst m))"
  shows "CHR ''='' \<notin> set k" "newline \<notin> set (k @ ''='' @ value_of m k)"
proof -
  obtain v where v: "(k, v) \<in> set m" using assms(2) by auto
  then have "valid_pair (k, v)" "value_of m k = v"
    using assms(1) value_of_mem by (auto simp: valid_labels_def list_all_iff)
  then show "CHR ''='' \<notin> set k" "newline \<notin> set (k @ ''='' @ value_of m k)"
    using valid_key_chars [of k] valid_value_chars [of v] label_char_safe
    by (auto simp: valid_pair_def newline_def)
qed

lemma sort_Nil_iff: "sort xs = [] \<longleftrightarrow> xs = []" for xs :: "string list"
  by (metis length_0_conv length_sort)

lemma normalize_lines:
  assumes "valid_labels m" "m \<noteq> []"
  shows "map (\<lambda>l. (takeWhile (\<lambda>c. c \<noteq> CHR ''='') l, drop 1 (dropWhile (\<lambda>c. c \<noteq> CHR ''='') l)))
       (split_on newline (normalize_labels m)) =
     map (\<lambda>k. (k, value_of m k)) (sort (map fst m))"
proof -
  have split: "split_on newline (normalize_labels m) = map (\<lambda>k. k @ ''='' @ value_of m k) (sort (map fst m))"
    unfolding normalize_labels_def
  proof (rule split_join)
    show "map (\<lambda>k. k @ ''='' @ value_of m k) (sort (map fst m)) \<noteq> []"
      using assms(2) by (simp add: sort_Nil_iff)
    show "\<forall>x \<in> set (map (\<lambda>k. k @ ''='' @ value_of m k) (sort (map fst m))). newline \<notin> set x"
      using valid_entry(2) [OF assms(1)] by simp
  qed
  have parts: "takeWhile (\<lambda>c. c \<noteq> CHR ''='') (k @ CHR ''='' # v) = k \<and>
    dropWhile (\<lambda>c. c \<noteq> CHR ''='') (k @ CHR ''='' # v) = CHR ''='' # v"
    if "CHR ''='' \<notin> set k" for k v :: string
    using that by (induction k) auto
  show ?thesis
    unfolding split map_map
  proof (rule map_cong [OF refl])
    fix k assume "k \<in> set (sort (map fst m))"
    from valid_entry(1) [OF assms(1) this] show "((\<lambda>l. (takeWhile (\<lambda>c. c \<noteq> CHR ''='') l,
        drop 1 (dropWhile (\<lambda>c. c \<noteq> CHR ''='') l))) \<circ> (\<lambda>k. k @ ''='' @ value_of m k)) k = (k, value_of m k)"
      using parts [of k "value_of m k"] by simp
  qed
qed

lemma normalize_empty: "normalize_labels m = [] \<longleftrightarrow> m = []"
proof -
  have "join_str [newline] (map (\<lambda>k. k @ ''='' @ f k) ks) = [] \<longleftrightarrow> ks = []" for f and ks :: "string list"
    by (cases ks; cases "tl ks") simp_all
  then have "normalize_labels m = [] \<longleftrightarrow> sort (map fst m) = []" unfolding normalize_labels_def .
  then show ?thesis by (simp add: sort_Nil_iff)
qed

lemma pairs_of_normalized: "valid_labels m \<Longrightarrow> set (map (\<lambda>k. (k, value_of m k)) (sort (map fst m))) = set m"
  by (force simp: valid_labels_def value_of_def)

lemma normalize_inj:
  assumes "valid_labels m" "valid_labels m'"
  shows "normalize_labels m = normalize_labels m' \<longleftrightarrow> set m = set m'"
proof
  assume eq: "normalize_labels m = normalize_labels m'"
  show "set m = set m'"
  proof (cases "m = [] \<or> m' = []")
    case True
    then show ?thesis using eq normalize_empty by metis
  next
    case False
    then have "map (\<lambda>k. (k, value_of m k)) (sort (map fst m)) = map (\<lambda>k. (k, value_of m' k)) (sort (map fst m'))"
      using eq normalize_lines [OF assms(1)] normalize_lines [OF assms(2)] by simp
    then show ?thesis using pairs_of_normalized [OF assms(1)] pairs_of_normalized [OF assms(2)] by simp
  qed
next
  assume eq: "set m = set m'"
  then have "set (map fst m) = set (map fst m')" by simp
  moreover have "distinct (map fst m)" "distinct (map fst m')" using assms by (simp_all add: valid_labels_def)
  ultimately have keys: "sort (map fst m) = sort (map fst m')"
    by (intro sorted_distinct_set_unique) simp_all
  have "map_of m = map_of m'"
    using eq assms by (metis map_of_inject_set valid_labels_def)
  then show "normalize_labels m = normalize_labels m'"
    unfolding normalize_labels_def value_of_def keys by simp
qed

text \<open>
  The save button is enabled exactly when every row is a valid label, no key occurs twice and the
  labels differ from those of the object, and it sends the rows.
\<close>

theorem save_sends_valid_changes:
  assumes "valid_labels initial"
  shows "submit_labels initial s =
     (if valid_labels (row_pairs (lf_rows s)) \<and> set (row_pairs (lf_rows s)) \<noteq> set initial
      then Some (row_pairs (lf_rows s)) else None)"
proof (cases "valid_labels (row_pairs (lf_rows s))")
  case True
  then show ?thesis
    using normalize_inj [OF True assms] no_errors_iff [of "lf_rows s"]
    by (simp add: submit_labels_def Let_def label_map_pairs)
next
  case False
  then show ?thesis using no_errors_iff [of "lf_rows s"] by (simp add: submit_labels_def)
qed

lemma save_sends_valid_changes_witness:
  "submit_labels [(''app'', ''shop'')]
     (label_step (from_map 0 [(''app'', ''shop'')]) (EditValue 1 ''cart'')) = Some [(''app'', ''cart'')]"
proof -
  let ?s = "label_step (from_map 0 [(''app'', ''shop'')]) (EditValue 1 ''cart'')"
  have "valid_labels [(''app'', ''shop'')]" "valid_labels (row_pairs (lf_rows ?s))"
    "row_pairs (lf_rows ?s) = [(''app'', ''cart'')]"
    by code_simp+
  then show ?thesis using save_sends_valid_changes [of "[(''app'', ''shop'')]" ?s] by simp
qed

section \<open>The rows\<close>

definition label_inv :: "label_form \<Rightarrow> bool" where
  "label_inv s =
     (lf_rows s \<noteq> [] \<and> distinct (map lr_id (lf_rows s)) \<and> list_all (\<lambda>r. lr_id r \<le> lf_next s) (lf_rows s))"

lemma edit_keeps_ids:
  "map lr_id (map (\<lambda>r. if P r then r\<lparr>lr_key := k\<rparr> else r) rows) = map lr_id rows"
  "map lr_id (map (\<lambda>r. if P r then r\<lparr>lr_value := v\<rparr> else r) rows) = map lr_id rows"
  by (induction rows) auto

lemma label_inv_ids:
  "label_inv s \<longleftrightarrow> map lr_id (lf_rows s) \<noteq> [] \<and> distinct (map lr_id (lf_rows s)) \<and>
     list_all (\<lambda>i. i \<le> lf_next s) (map lr_id (lf_rows s))"
  by (simp add: label_inv_def list.pred_map comp_def)

lemma label_inv_step: "label_inv s \<Longrightarrow> label_inv (label_step s e)"
proof (induction s e rule: label_step.induct)
  case (1 s i k)
  then show ?case unfolding label_inv_ids by (simp add: edit_keeps_ids del: map_map)
next
  case (2 s i v)
  then show ?case unfolding label_inv_ids by (simp add: edit_keeps_ids del: map_map)
next
  case (3 s i)
  then show ?case
    by (auto simp: label_inv_def Let_def blank_row_def list_all_iff distinct_map intro: inj_on_subset)
next
  case (4 s)
  then show ?case by (fastforce simp: label_inv_def blank_row_def list_all_iff)
qed

interpretation label_form: event_machine label_step label_inv
  by unfold_locales (rule label_inv_step)

lemma label_inv_init: "label_inv (from_map n m)"
proof (cases "m = []")
  case False
  have "map lr_id (map (\<lambda>(i, k, v). \<lparr>lr_id = n + 1 + i, lr_key = k, lr_value = v\<rparr>) (zip [0..<length m] m)) =
      map (\<lambda>i. n + 1 + i) [0..<length m]"
    by (rule nth_equalityI) (simp_all add: case_prod_beta)
  then show ?thesis using False
    unfolding label_inv_ids from_map_def
    by (simp add: distinct_map list_all_iff inj_on_def del: upt_Suc)
qed (simp add: label_inv_def from_map_def blank_row_def)

text \<open>Every run of edits leaves at least one row, and no two rows share their identity.\<close>

theorem label_rows_invariant: "label_inv (foldl label_step (from_map n initial) es)"
  by (rule label_form.inv_run [OF label_inv_init])

section \<open>Where the editor falls short\<close>

text \<open>
  The last label of an object cannot be removed: the form keeps an empty row, whose missing key
  is an error, so no sequence of edits ever sends the empty map.
\<close>

theorem labels_cannot_be_cleared:
  "submit_labels initial (foldl label_step (from_map n initial) es) \<noteq> Some []"
proof
  let ?s = "foldl label_step (from_map n initial) es"
  assume sent: "submit_labels initial ?s = Some []"
  then have "valid_labels (row_pairs (lf_rows ?s))"
    using no_errors_iff [of "lf_rows ?s"] by (auto simp: submit_labels_def Let_def split: if_splits)
  then have "label_map (lf_rows ?s) = row_pairs (lf_rows ?s)" by (rule label_map_pairs)
  moreover have "lf_rows ?s \<noteq> []"
    using label_form.inv_run [OF label_inv_init] by (simp add: label_inv_def)
  ultimately show False using sent by (auto simp: submit_labels_def Let_def row_pairs_def split: if_splits)
qed

text \<open>The comment limits each part of the prefix to 63 characters; a longer one is accepted.\<close>

theorem long_dns_label_accepted:
  "validate_label_key (replicate 64 (CHR ''a'') @ ''/name'') = None"
  by code_simp

end
