(* ===== verification/Mutations.thy ===== *)
theory Mutations
  imports ListShape QueryKeys ConflictPolicy ApiClient
begin

text \<open>
  Model of \<open>web/src/hooks/mutations\<close>: the optimistic lifecycle of \<open>_useOptimistic.ts\<close> and the
  five hooks that use it (scale, edit labels, rollout restart, cordon, suspend) with the delete
  hook, each with its cache updates and its request. The query client is a parameter: reading,
  writing and listing the entries of its cache, with the documented laws \<open>lawful_cache\<close>.
  An effect of the client besides the cache (cancel, invalidate) and a toast is a log entry.
\<close>

section \<open>The query client\<close>

record 'c query_ops =
  qo_get :: "'c \<Rightarrow> query_key \<Rightarrow> jsval"
  qo_set :: "query_key \<Rightarrow> jsval \<Rightarrow> 'c \<Rightarrow> 'c"
  qo_keys :: "'c \<Rightarrow> query_key list"

text \<open>Writing undefined is a no-op; the keys with data are listed, each once.\<close>

definition lawful_cache :: "'c query_ops \<Rightarrow> bool" where
  "lawful_cache ops \<longleftrightarrow>
     (\<forall>k v c k'. qo_get ops (qo_set ops k v c) k' =
        (if k' = k \<and> v \<noteq> JUndefined then v else qo_get ops c k')) \<and>
     (\<forall>c k. qo_get ops c k \<noteq> JUndefined \<longrightarrow> k \<in> set (qo_keys ops c)) \<and>
     (\<forall>c. distinct (qo_keys ops c))"

definition is_list_key :: "query_key \<Rightarrow> query_key \<Rightarrow> bool" where
  "is_list_key pfx k \<longleftrightarrow> prefix pfx k \<and> 4 < length k \<and> k ! 4 = KStr ''list''"

definition get_lists :: "'c query_ops \<Rightarrow> query_key \<Rightarrow> 'c \<Rightarrow> (query_key \<times> jsval) list" where
  "get_lists ops pfx c = map (\<lambda>k. (k, qo_get ops c k)) (filter (is_list_key pfx) (qo_keys ops c))"

definition set_lists :: "'c query_ops \<Rightarrow> query_key \<Rightarrow> (jsval \<Rightarrow> jsval) \<Rightarrow> 'c \<Rightarrow> 'c" where
  "set_lists ops pfx f c =
     fold (\<lambda>k c. qo_set ops k (f (qo_get ops c k)) c) (filter (is_list_key pfx) (qo_keys ops c)) c"

definition update_entry :: "'c query_ops \<Rightarrow> query_key \<Rightarrow> (jsval \<Rightarrow> jsval) \<Rightarrow> 'c \<Rightarrow> 'c" where
  "update_entry ops k f c = qo_set ops k (f (qo_get ops c k)) c"

section \<open>The mutations\<close>

datatype mutation =
    ScaleResource (mu_kind0: string) (mu_ns0: string) (mu_name0: string) int
  | EditLabels (mu_kind0: string) (mu_ns0: string) (mu_name0: string) entries
  | RolloutRestart (mu_kind0: string) (mu_ns0: string) (mu_name0: string) string
  | ToggleCordon (mu_name0: string) bool
  | ToggleSuspend (mu_ns0: string) (mu_name0: string) bool
  | DeleteResource (mu_kind0: string) (mu_ns0: string) (mu_name0: string)

fun mu_kind :: "mutation \<Rightarrow> string" where
  "mu_kind (ToggleCordon name b) = ''nodes''"
| "mu_kind (ToggleSuspend ns name b) = ''cronjobs''"
| "mu_kind m = mu_kind0 m"

fun mu_ns :: "mutation \<Rightarrow> string" where
  "mu_ns (ToggleCordon name b) = []"
| "mu_ns m = mu_ns0 m"

abbreviation mu_name :: "mutation \<Rightarrow> string" where
  "mu_name m \<equiv> mu_name0 m"

definition kind_detail :: "string \<Rightarrow> string \<Rightarrow> string \<Rightarrow> string \<Rightarrow> query_key" where
  "kind_detail cluster kind ns name = query_key (QCluster cluster (CKind kind (KDetail ns name)))"

definition kind_meta_key :: "string \<Rightarrow> string \<Rightarrow> string \<Rightarrow> string \<Rightarrow> query_key" where
  "kind_meta_key cluster kind ns name = query_key (QCluster cluster (CKind kind (KMeta ns name)))"

definition kind_all :: "string \<Rightarrow> string \<Rightarrow> query_key" where
  "kind_all cluster kind = query_key (QCluster cluster (CKind kind KAll))"

abbreviation detail_key :: "string \<Rightarrow> mutation \<Rightarrow> query_key" where
  "detail_key cluster m \<equiv> kind_detail cluster (mu_kind m) (mu_ns m) (mu_name m)"

abbreviation meta_key :: "string \<Rightarrow> mutation \<Rightarrow> query_key" where
  "meta_key cluster m \<equiv> kind_meta_key cluster (mu_kind m) (mu_ns m) (mu_name m)"

abbreviation kind_prefix :: "string \<Rightarrow> mutation \<Rightarrow> query_key" where
  "kind_prefix cluster m \<equiv> kind_all cluster (mu_kind m)"

section \<open>Optimistic updates\<close>

text \<open>\<open>{ ...prev, field: v }\<close>, and the same on a value that may be missing.\<close>

definition with_field :: "string \<Rightarrow> jsval \<Rightarrow> jsval \<Rightarrow> jsval" where
  "with_field k v prev = JObj (spread (own_entries prev) [(k, v)])"

definition patch_detail :: "string \<Rightarrow> jsval \<Rightarrow> jsval \<Rightarrow> jsval" where
  "patch_detail k v prev = (if js_truthy prev then with_field k v prev else prev)"

definition named_row :: "string \<Rightarrow> jsval \<Rightarrow> jsval" where
  "named_row name ns = JObj [(''name'', JStr name), (''namespace'', ns)]"

definition scale_optimistic ::
    "'c query_ops \<Rightarrow> string \<Rightarrow> string \<Rightarrow> string \<Rightarrow> string \<Rightarrow> int \<Rightarrow> 'c \<Rightarrow> 'c" where
  "scale_optimistic ops cluster kind ns name n c =
     set_lists ops (kind_all cluster kind)
       (\<lambda>prev. patch_row_in_list prev kind (named_row name (JStr ns)) (with_field ''replicas'' (JNum n)))
       (update_entry ops (kind_detail cluster kind ns name) (patch_detail ''replicas'' (JNum n)) c)"

definition labels_optimistic ::
    "'c query_ops \<Rightarrow> string \<Rightarrow> string \<Rightarrow> string \<Rightarrow> string \<Rightarrow> entries \<Rightarrow> 'c \<Rightarrow> 'c" where
  "labels_optimistic ops cluster kind ns name labels c =
     update_entry ops (kind_detail cluster kind ns name) (patch_detail ''labels'' (JObj labels)) c"

definition cordon_optimistic :: "'c query_ops \<Rightarrow> string \<Rightarrow> string \<Rightarrow> bool \<Rightarrow> 'c \<Rightarrow> 'c" where
  "cordon_optimistic ops cluster name b c =
     set_lists ops (kind_all cluster ''nodes'')
       (\<lambda>prev. patch_row_in_list prev ''nodes'' (JObj [(''name'', JStr name)])
                 (with_field ''unschedulable'' (JBool b)))
       (update_entry ops (kind_detail cluster ''nodes'' [] name) (patch_detail ''unschedulable'' (JBool b)) c)"

definition suspend_optimistic :: "'c query_ops \<Rightarrow> string \<Rightarrow> string \<Rightarrow> string \<Rightarrow> bool \<Rightarrow> 'c \<Rightarrow> 'c" where
  "suspend_optimistic ops cluster ns name b c =
     set_lists ops (kind_all cluster ''cronjobs'')
       (\<lambda>prev. patch_row_in_list prev ''cronjobs'' (named_row name (JStr ns)) (with_field ''suspend'' (JBool b)))
       (update_entry ops (kind_detail cluster ''cronjobs'' ns name) (patch_detail ''suspend'' (JBool b)) c)"

text \<open>\<open>args.namespace || undefined\<close>\<close>

definition optional_ns :: "string \<Rightarrow> jsval" where
  "optional_ns ns = (if ns \<noteq> [] then JStr ns else JUndefined)"

definition delete_optimistic :: "'c query_ops \<Rightarrow> string \<Rightarrow> string \<Rightarrow> string \<Rightarrow> string \<Rightarrow> 'c \<Rightarrow> 'c" where
  "delete_optimistic ops cluster kind ns name c =
     set_lists ops (kind_all cluster kind)
       (\<lambda>prev. if kind = ''pods''
               then patch_row_in_list prev kind (named_row name (optional_ns ns))
                      (with_field ''phase'' (JStr ''Terminating''))
               else remove_row_from_list prev kind (named_row name (optional_ns ns))) c"

text \<open>The restart shows nothing at once.\<close>

fun apply_optimistic :: "'c query_ops \<Rightarrow> string \<Rightarrow> mutation \<Rightarrow> 'c \<Rightarrow> 'c" where
  "apply_optimistic ops cluster (ScaleResource kind ns name n) c = scale_optimistic ops cluster kind ns name n c"
| "apply_optimistic ops cluster (EditLabels kind ns name labels) c =
     labels_optimistic ops cluster kind ns name labels c"
| "apply_optimistic ops cluster (RolloutRestart kind ns name at) c = c"
| "apply_optimistic ops cluster (ToggleCordon name b) c = cordon_optimistic ops cluster name b c"
| "apply_optimistic ops cluster (ToggleSuspend ns name b) c = suspend_optimistic ops cluster ns name b c"
| "apply_optimistic ops cluster (DeleteResource kind ns name) c = delete_optimistic ops cluster kind ns name c"

text \<open>Whether the hook touches the lists: the label editor and the restart do not.\<close>

fun patches_lists :: "mutation \<Rightarrow> bool" where
  "patches_lists (EditLabels kind ns name labels) = False"
| "patches_lists (RolloutRestart kind ns name at) = False"
| "patches_lists m = True"

record snapshot =
  sn_detail :: jsval
  sn_lists :: "(query_key \<times> jsval) list"

definition take_snapshot :: "'c query_ops \<Rightarrow> string \<Rightarrow> mutation \<Rightarrow> 'c \<Rightarrow> snapshot" where
  "take_snapshot ops cluster m c =
     \<lparr>sn_detail = qo_get ops c (detail_key cluster m),
      sn_lists = (if patches_lists m then get_lists ops (kind_prefix cluster m) c else [])\<rparr>"

definition rollback :: "'c query_ops \<Rightarrow> string \<Rightarrow> mutation \<Rightarrow> snapshot \<Rightarrow> 'c \<Rightarrow> 'c" where
  "rollback ops cluster m snap c =
     fold (\<lambda>(k, v). qo_set ops k v) (sn_lists snap) (qo_set ops (detail_key cluster m) (sn_detail snap) c)"

section \<open>Requests\<close>

definition group_version :: "kind_meta \<Rightarrow> string" where
  "group_version meta = (if km_group meta \<noteq> [] then km_group meta @ ''/'' @ km_version meta else km_version meta)"

text \<open>
  Per hook: the operation and the identity of its body, the object it addresses, and the action's
  name in an error.
\<close>

definition scale_body :: "kind_meta \<Rightarrow> string \<Rightarrow> string \<Rightarrow> int \<Rightarrow> patch_op list \<times> identity" where
  "scale_body meta ns name n =
     ([ReplaceOp [PKey ''spec'', PKey ''replicas''] (JNum n)],
      \<lparr>id_apiVersion = group_version meta, id_kind = km_kind meta, id_name = name, id_namespace = Some ns\<rparr>)"

definition labels_body :: "kind_meta \<Rightarrow> string \<Rightarrow> string \<Rightarrow> entries \<Rightarrow> patch_op list \<times> identity" where
  "labels_body meta ns name labels =
     ([ReplaceOp [PKey ''metadata'', PKey ''labels''] (JObj labels)],
      \<lparr>id_apiVersion = group_version meta, id_kind = km_kind meta, id_name = name,
       id_namespace = (if ns \<noteq> [] then Some ns else None)\<rparr>)"

definition restart_body :: "kind_meta \<Rightarrow> string \<Rightarrow> string \<Rightarrow> string \<Rightarrow> patch_op list \<times> identity" where
  "restart_body meta ns name at =
     ([ReplaceOp [PKey ''spec'', PKey ''template'', PKey ''metadata'', PKey ''annotations'',
         PKey ''kubectl.kubernetes.io/restartedAt''] (JStr at)],
      \<lparr>id_apiVersion = group_version meta, id_kind = km_kind meta, id_name = name, id_namespace = Some ns\<rparr>)"

definition cordon_body :: "kind_meta \<Rightarrow> string \<Rightarrow> bool \<Rightarrow> patch_op list \<times> identity" where
  "cordon_body meta name b =
     ([ReplaceOp [PKey ''spec'', PKey ''unschedulable''] (JBool b)],
      \<lparr>id_apiVersion = km_version meta, id_kind = km_kind meta, id_name = name, id_namespace = None\<rparr>)"

definition suspend_body :: "kind_meta \<Rightarrow> string \<Rightarrow> string \<Rightarrow> bool \<Rightarrow> patch_op list \<times> identity" where
  "suspend_body meta ns name b =
     ([ReplaceOp [PKey ''spec'', PKey ''suspend''] (JBool b)],
      \<lparr>id_apiVersion = km_group meta @ ''/'' @ km_version meta, id_kind = km_kind meta, id_name = name,
       id_namespace = Some ns\<rparr>)"

definition object_ref :: "string \<Rightarrow> kind_meta \<Rightarrow> string option \<Rightarrow> string \<Rightarrow> resource_ref" where
  "object_ref cluster meta ns name =
     \<lparr>rf_cluster = cluster, rf_group = km_group meta, rf_version = km_version meta,
      rf_resource = km_resource meta, rf_namespace = ns, rf_name = name\<rparr>"

text \<open>The body, the object and the action's name; a deletion has no body.\<close>

fun mutation_body :: "mutation \<Rightarrow> kind_meta \<Rightarrow> (patch_op list \<times> identity) option" where
  "mutation_body (ScaleResource kind ns name n) meta = Some (scale_body meta ns name n)"
| "mutation_body (EditLabels kind ns name labels) meta = Some (labels_body meta ns name labels)"
| "mutation_body (RolloutRestart kind ns name at) meta = Some (restart_body meta ns name at)"
| "mutation_body (ToggleCordon name b) meta = Some (cordon_body meta name b)"
| "mutation_body (ToggleSuspend ns name b) meta = Some (suspend_body meta ns name b)"
| "mutation_body (DeleteResource kind ns name) meta = None"

fun mutation_ref :: "string \<Rightarrow> mutation \<Rightarrow> kind_meta \<Rightarrow> resource_ref" where
  "mutation_ref cluster (ToggleCordon name b) meta = object_ref cluster meta None name"
| "mutation_ref cluster (EditLabels kind ns name labels) meta =
     object_ref cluster meta (if ns \<noteq> [] then Some ns else None) name"
| "mutation_ref cluster (DeleteResource kind ns name) meta =
     object_ref cluster meta (if ns \<noteq> [] then Some ns else None) name"
| "mutation_ref cluster m meta = object_ref cluster meta (Some (mu_ns m)) (mu_name m)"

fun action_phrase :: "mutation \<Rightarrow> string" where
  "action_phrase (ScaleResource kind ns name n) = ''scale''"
| "action_phrase (EditLabels kind ns name labels) = ''update labels''"
| "action_phrase (RolloutRestart kind ns name at) = ''rollout restart''"
| "action_phrase (ToggleCordon name b) = ''cordon toggle''"
| "action_phrase (ToggleSuspend ns name b) = ''suspend toggle''"
| "action_phrase (DeleteResource kind ns name) = []"

text \<open>
  \<open>mutationFn\<close>: \<open>server\<close> answers a request; the stringifier of the YAML library and \<open>JSON.parse\<close>
  are arguments. A kind outside the registry is a TypeError.
\<close>

definition mutation_fn ::
    "(jsval \<Rightarrow> string) \<Rightarrow> (string \<Rightarrow> jsval option) \<Rightarrow> ('s \<Rightarrow> http_request \<Rightarrow> (thrown + jsval) \<times> 's) \<Rightarrow>
     string \<Rightarrow> mutation \<Rightarrow> 's \<Rightarrow> (thrown + jsval) \<times> 's" where
  "mutation_fn stringify json_parse server cluster m s =
     (case map_of kind_registry (mu_kind m) of
        None \<Rightarrow> (Inl (ThrownError ''TypeError''), s)
      | Some meta \<Rightarrow>
          (let ref = mutation_ref cluster m meta
           in case mutation_body m meta of
                None \<Rightarrow> server s (delete_resource_fetch ref)
              | Some (patch, idt) \<Rightarrow> (case build_minimal_ssa stringify patch idt of
                         Inl e \<Rightarrow> (Inl (ThrownError ''tree''), s)
                       | Inr yaml \<Rightarrow>
                           (case apply_with_lenient_conflict json_parse
                                   (\<lambda>s force. server s (apply_resource_fetch ref yaml False force))
                                   (action_phrase m) s of
                              (LenientOk r, _, s') \<Rightarrow> (Inr r, s')
                            | (LenientThrow e, _, s') \<Rightarrow> (Inl e, s')
                            | (LenientTypeError, _, s') \<Rightarrow> (Inl (ThrownError ''TypeError''), s')))))"

section \<open>Toasts\<close>

definition thrown_message :: "thrown \<Rightarrow> string" where
  "thrown_message e =
     (case e of ThrownApi a \<Rightarrow> ae_message a | ThrownMultiDocument m \<Rightarrow> m | ThrownYamlParse m \<Rightarrow> m
      | ThrownError m \<Rightarrow> m | ThrownOther m \<Rightarrow> ''unknown'')"

definition drop_plural :: "string \<Rightarrow> string" where
  "drop_plural s = (if ends_with ''s'' s then butlast s else s)"

fun success_toast :: "mutation \<Rightarrow> string" where
  "success_toast (ScaleResource kind ns name n) = ''scaled '' @ name @ '' to '' @ show_int n"
| "success_toast (EditLabels kind ns name labels) = ''updated labels on '' @ name"
| "success_toast (RolloutRestart kind ns name at) = ''restarted '' @ drop_plural kind @ '' '' @ name"
| "success_toast (ToggleCordon name b) = (if b then ''cordoned'' else ''uncordoned'') @ '' node '' @ name"
| "success_toast (ToggleSuspend ns name b) = (if b then ''suspended'' else ''resumed'') @ '' cronjob '' @ name"
| "success_toast (DeleteResource kind ns name) = ''deleted '' @ kind @ ''/'' @ name"

definition failed_action :: "mutation \<Rightarrow> string" where
  "failed_action m =
     (case m of
        ScaleResource kind ns name n \<Rightarrow> ''scale '' @ name @ '' to '' @ show_int n
      | EditLabels kind ns name labels \<Rightarrow> ''update labels on '' @ name
      | RolloutRestart kind ns name at \<Rightarrow> ''restart '' @ name
      | ToggleCordon name b \<Rightarrow> (if b then ''cordon '' else ''uncordon '') @ name
      | ToggleSuspend ns name b \<Rightarrow> (if b then ''suspend '' else ''resume '') @ name
      | DeleteResource kind ns name \<Rightarrow> ''delete '' @ kind @ ''/'' @ name)"

definition error_toast :: "mutation \<Rightarrow> thrown \<Rightarrow> string" where
  "error_toast m e = ''failed to '' @ failed_action m @ '': '' @ thrown_message e"

section \<open>The lifecycle\<close>

datatype mutation_effect =
    EffCancel query_key
  | EffInvalidate query_key
  | EffSuccess string
  | EffError string

text \<open>
  Where a mutation stands: awaiting the first or second cancellation, in flight with its
  snapshot, awaiting the first, second or third invalidation, settled.
\<close>

datatype mutation_phase =
    MuCancelDetail
  | MuCancelList
  | MuInFlight snapshot
  | MuDetail
  | MuMeta
  | MuList
  | MuDone

record 'c mutations =
  ms_cache :: 'c
  ms_runs :: "(mutation \<times> mutation_phase) list"
  ms_log :: "mutation_effect list"

definition set_run :: "nat \<Rightarrow> mutation_phase \<Rightarrow> mutation_effect list \<Rightarrow> 'c mutations \<Rightarrow> 'c mutations" where
  "set_run i ph effs s =
     s\<lparr>ms_runs := (ms_runs s)[i := (fst (ms_runs s ! i), ph)], ms_log := ms_log s @ effs\<rparr>"

definition start_mutation :: "string \<Rightarrow> mutation \<Rightarrow> 'c mutations \<Rightarrow> 'c mutations" where
  "start_mutation cluster m s =
     s\<lparr>ms_runs := ms_runs s @ [(m, MuCancelDetail)],
       ms_log := ms_log s @ [EffCancel (detail_key cluster m)]\<rparr>"

text \<open>An awaited cancellation or invalidation is over.\<close>

definition advance :: "'c query_ops \<Rightarrow> string \<Rightarrow> nat \<Rightarrow> 'c mutations \<Rightarrow> 'c mutations" where
  "advance ops cluster i s =
     (let (m, ph) = ms_runs s ! i
      in case ph of
           MuCancelDetail \<Rightarrow> set_run i MuCancelList [EffCancel (kind_prefix cluster m)] s
         | MuCancelList \<Rightarrow>
             (set_run i (MuInFlight (take_snapshot ops cluster m (ms_cache s))) [] s)
               \<lparr>ms_cache := apply_optimistic ops cluster m (ms_cache s)\<rparr>
         | MuDetail \<Rightarrow> set_run i MuMeta [EffInvalidate (meta_key cluster m)] s
         | MuMeta \<Rightarrow> set_run i MuList [EffInvalidate (kind_prefix cluster m)] s
         | MuList \<Rightarrow> set_run i MuDone [EffSuccess (success_toast m)] s
         | _ \<Rightarrow> s)"

definition settle_mutation ::
    "'c query_ops \<Rightarrow> string \<Rightarrow> nat \<Rightarrow> thrown + jsval \<Rightarrow> 'c mutations \<Rightarrow> 'c mutations" where
  "settle_mutation ops cluster i answer s =
     (let (m, ph) = ms_runs s ! i
      in case ph of
           MuInFlight snap \<Rightarrow>
             (case answer of
                Inr _ \<Rightarrow> set_run i MuDetail [EffInvalidate (detail_key cluster m)] s
              | Inl err \<Rightarrow>
                  (set_run i MuDone [EffError (error_toast m err)] s)
                    \<lparr>ms_cache := rollback ops cluster m snap (ms_cache s)\<rparr>)
         | _ \<Rightarrow> s)"

datatype mutation_event =
    MuStart mutation
  | MuAdvance nat
  | MuSettle nat "thrown + jsval"
  | MuWrite query_key jsval

text \<open>\<open>MuWrite\<close> is any other writer of the cache: a refetch that landed, or a stream.\<close>

fun mutation_step :: "'c query_ops \<Rightarrow> string \<Rightarrow> 'c mutations \<Rightarrow> mutation_event \<Rightarrow> 'c mutations" where
  "mutation_step ops cluster s (MuStart m) = start_mutation cluster m s"
| "mutation_step ops cluster s (MuAdvance i) = (if i < length (ms_runs s) then advance ops cluster i s else s)"
| "mutation_step ops cluster s (MuSettle i answer) =
     (if i < length (ms_runs s) then settle_mutation ops cluster i answer s else s)"
| "mutation_step ops cluster s (MuWrite k v) = s\<lparr>ms_cache := qo_set ops k v (ms_cache s)\<rparr>"

definition mutation_run :: "'c query_ops \<Rightarrow> string \<Rightarrow> 'c \<Rightarrow> mutation_event list \<Rightarrow> 'c mutations" where
  "mutation_run ops cluster c es =
     foldl (mutation_step ops cluster) \<lparr>ms_cache = c, ms_runs = [], ms_log = []\<rparr> es"

section \<open>Triggering a cron job\<close>

definition trigger_key :: "string \<Rightarrow> string \<Rightarrow> kind_query \<Rightarrow> query_key" where
  "trigger_key cluster kind q = query_key (QCluster cluster (CKind kind q))"

definition trigger_effects :: "string \<Rightarrow> string \<Rightarrow> string \<Rightarrow> thrown + string \<Rightarrow> mutation_effect list" where
  "trigger_effects cluster ns name answer =
     (case answer of
        Inr job \<Rightarrow>
          [EffInvalidate (trigger_key cluster ''jobs'' KAll), EffInvalidate (trigger_key cluster ''pods'' KAll),
           EffInvalidate (trigger_key cluster ''cronjobs'' (KDetail ns name)),
           EffSuccess (''triggered '' @ name @ arrow_right @ job)]
      | Inl e \<Rightarrow> [EffError (''failed to trigger '' @ name @ '': '' @ thrown_message e)])"

end
