(* ===== verification/YamlReplay.thy ===== *)
theory YamlReplay
  imports YamlPatch
begin

text \<open>
  Correctness of the diff against the patch builder: replaying the operations of
  \<open>diff_map\<close> with the builder's own \<open>apply_ops\<close> turns the baseline into the draft. The
  replay is stated for documents of YAML values whose lists are atomic (no merge key is
  registered for them). The theory also holds the facts on \<open>deep_equal\<close> and on the paths
  and values that \<open>compute_ops\<close> can emit.
\<close>

section \<open>Structural equality\<close>

fun no_undefined :: "jsval \<Rightarrow> bool" where
  "no_undefined JUndefined = False"
| "no_undefined (JArr xs) = (\<forall>x \<in> set xs. no_undefined x)"
| "no_undefined (JObj kvs) = (\<forall>kv \<in> set kvs. no_undefined (snd kv))"
| "no_undefined _ = True"

definition yaml_value :: "jsval \<Rightarrow> bool" where
  "yaml_value v = (wf_js v \<and> no_undefined v)"

lemma yaml_value_obj:
  "yaml_value (JObj kvs) \<longleftrightarrow>
     distinct (map fst kvs) \<and> (\<forall>kv \<in> set kvs. yaml_value (snd kv))"
  by (auto simp: yaml_value_def)

lemma deep_equal_items_alt:
  "length xs = length ys \<Longrightarrow>
     deep_equal_items xs ys \<longleftrightarrow> (\<forall>i < length xs. deep_equal (xs ! i) (ys ! i))"
proof (induction xs ys rule: list_induct2)
  case (Cons x xs y ys)
  then show ?case by (auto simp: less_Suc_eq_0_disj)
qed simp

lemma deep_equal_keys_alt:
  "deep_equal_keys kvs b \<longleftrightarrow> (\<forall>(k, v) \<in> set kvs. deep_equal v (get_prop b k))"
  by (induction kvs) auto

declare get_prop_obj [simp]

lemma deep_equal_obj_alt:
  "deep_equal (JObj r) (JObj a) \<longleftrightarrow>
     length r = length a \<and> (\<forall>(k, v) \<in> set r. deep_equal v (entry_get a k))"
  by (auto simp: own_key_count_def deep_equal_keys_alt)

lemma deep_equal_refl: "wf_js v \<Longrightarrow> deep_equal v v"
proof (induction "size v" arbitrary: v rule: less_induct)
  case less
  show ?case
  proof (cases v)
    case (JArr xs)
    have "deep_equal (xs ! i) (xs ! i)" if "i < length xs" for i
    proof -
      from that have m: "xs ! i \<in> set xs" by simp
      then have "size (xs ! i) \<le> size_list size xs" by (rule size_list_estimation') simp
      with m less JArr show ?thesis by auto
    qed
    then show ?thesis using JArr by (simp add: deep_equal_items_alt)
  next
    case (JObj kvs)
    have "deep_equal x (entry_get kvs k)" if "(k, x) \<in> set kvs" for k x
      using that less JObj by (auto simp: entry_get_distinct size_entry_less)
    then show ?thesis using JObj by (auto simp: own_key_count_def deep_equal_keys_alt)
  qed auto
qed

lemma deep_equal_undefined [simp]: "deep_equal v JUndefined \<longleftrightarrow> v = JUndefined"
  by (cases v) auto

lemma yaml_entry_absent:
  "yaml_value (JObj kvs) \<Longrightarrow> entry_get kvs k = JUndefined \<longleftrightarrow> \<not> has_key kvs k"
  by (auto simp: entry_get_absent yaml_value_def entry_get_distinct)

lemma yaml_entry:
  "yaml_value (JObj kvs) \<Longrightarrow> has_key kvs k \<Longrightarrow> yaml_value (entry_get kvs k)"
  by (auto simp: yaml_value_def entry_get_distinct)

section \<open>Sameness of documents\<close>

lemma item_size_less: "x \<in> set xs \<Longrightarrow> size (x :: jsval) < Suc (size_list size xs)"
  using size_list_estimation' [of x xs "size x" size] by simp

lemma entry_size_less: "(k, v) \<in> set kvs \<Longrightarrow> size v < Suc (entries_size kvs)"
  using size_entry_less [of k v kvs] by simp

text \<open>
  Two values are the same up to the order of keys: maps with the same keys and the same values
  under them, lists of the same length with the same items, equal scalars. A map is never the same
  as a list.
\<close>

function (sequential) same_value :: "jsval \<Rightarrow> jsval \<Rightarrow> bool" where
  "same_value (JObj r) b =
     (case b of
        JObj a \<Rightarrow> fst ` set r = fst ` set a \<and> (\<forall>kv \<in> set r. same_value (snd kv) (entry_get a (fst kv)))
      | _ \<Rightarrow> False)"
| "same_value (JArr xs) b =
     (case b of
        JArr ys \<Rightarrow> length xs = length ys \<and> (\<forall>p \<in> set (zip xs ys). same_value (fst p) (snd p))
      | _ \<Rightarrow> False)"
| "same_value v b = (v = b)"
  by pat_completeness auto
termination
  by (relation "measure (size \<circ> fst)")
     (auto dest!: set_zip_leftD intro: item_size_less entry_size_less)

text \<open>
  Somewhere under the same keys and positions the first value has a map and the second a list with as
  many items as the map has keys, the least case being an empty map and an empty list.
\<close>

function (sequential) list_for_map :: "jsval \<Rightarrow> jsval \<Rightarrow> bool" where
  "list_for_map (JObj r) b =
     (case b of
        JArr ys \<Rightarrow> length r = length ys
      | JObj a \<Rightarrow> (\<exists>kv \<in> set r. list_for_map (snd kv) (entry_get a (fst kv)))
      | _ \<Rightarrow> False)"
| "list_for_map (JArr xs) b =
     (case b of
        JArr ys \<Rightarrow> length xs = length ys \<and> (\<exists>p \<in> set (zip xs ys). list_for_map (fst p) (snd p))
      | _ \<Rightarrow> False)"
| "list_for_map v b = False"
  by pat_completeness auto
termination
  by (relation "measure (size \<circ> fst)")
     (auto dest!: set_zip_leftD intro: item_size_less entry_size_less)

lemma same_value_arr:
  "same_value (JArr xs) (JArr ys) \<longleftrightarrow> length xs = length ys \<and> (\<forall>i < length xs. same_value (xs ! i) (ys ! i))"
  by (auto simp: set_zip; blast)

lemma list_for_map_arr:
  "list_for_map (JArr xs) (JArr ys) \<longleftrightarrow>
     length xs = length ys \<and> (\<exists>i < length xs. list_for_map (xs ! i) (ys ! i))"
  by (auto simp: set_zip; blast)

lemma same_value_refl: "wf_js v \<Longrightarrow> same_value v v"
proof (induction v)
  case (JArr xs)
  then show ?case unfolding same_value_arr by simp
next
  case (JObj kvs)
  have "same_value (snd kv) (entry_get kvs (fst kv))" if "kv \<in> set kvs" for kv
  proof -
    have "entry_get kvs (fst kv) = snd kv"
      using that JObj.prems entry_get_distinct [of kvs "fst kv" "snd kv"] by simp
    then show ?thesis using that JObj by (auto simp: snds.simps)
  qed
  then show ?case by simp
qed simp_all

text \<open>Where the code's equality and sameness part: only at a map against a list of its length.\<close>

lemma deep_equal_same:
  "deep_equal b a \<Longrightarrow> yaml_value b \<Longrightarrow> yaml_value a \<Longrightarrow> \<not> list_for_map b a \<Longrightarrow> same_value b a"
proof (induction b arbitrary: a)
  case (JArr xs)
  then obtain ys where a: "a = JArr ys" by (auto split: jsval.splits)
  have l: "length xs = length ys" using JArr.prems a by simp
  have "same_value (xs ! i) (ys ! i)" if i: "i < length xs" for i
  proof (rule JArr.IH)
    show "xs ! i \<in> set xs" using i by simp
    show "deep_equal (xs ! i) (ys ! i)" using JArr.prems(1) a l i by (simp add: deep_equal_items_alt)
    show "yaml_value (xs ! i)" "yaml_value (ys ! i)"
      using JArr.prems(2,3) a l i by (auto simp: yaml_value_def)
    show "\<not> list_for_map (xs ! i) (ys ! i)"
      using JArr.prems(4) a l i unfolding a list_for_map_arr by blast
  qed
  then show ?case unfolding a same_value_arr using l by blast
next
  case (JObj r)
  show ?case
  proof (cases a)
    case (JArr ys)
    have "length (own_entries (JArr ys)) = length ys" by (simp add: array_entries_def)
    then show ?thesis using JObj.prems JArr by (simp add: own_key_count_def)
  next
    case a: (JObj m)
    have d: "distinct (map fst r)" "distinct (map fst m)" using JObj.prems a by (simp_all add: yaml_value_obj)
    have eq: "length r = length m" "\<forall>(k, v) \<in> set r. deep_equal v (entry_get m k)"
      using JObj.prems(1) unfolding a deep_equal_obj_alt by simp_all
    have has: "k \<in> fst ` set m" if "(k, v) \<in> set r" for k v
    proof -
      have "no_undefined v" using that JObj.prems(2) by (auto simp: yaml_value_def)
      then have "v \<noteq> JUndefined" by auto
      moreover have "deep_equal v (entry_get m k)" using eq(2) that by blast
      ultimately have "entry_get m k \<noteq> JUndefined" by auto
      then show ?thesis by (auto simp: entry_get_def split: option.splits dest!: map_of_SomeD intro: rev_image_eqI)
    qed
    then have "fst ` set r \<subseteq> fst ` set m" by auto
    moreover have "card (fst ` set r) = card (fst ` set m)"
      using d eq(1) by (metis distinct_card length_map list.set_map)
    ultimately have "fst ` set r = fst ` set m" by (simp add: card_subset_eq)
    moreover have "same_value (snd kv) (entry_get m (fst kv))" if kv: "kv \<in> set r" for kv
    proof (rule JObj.IH [OF kv])
      show "snd kv \<in> Basic_BNFs.snds kv" by (simp add: snds.simps)
      show "deep_equal (snd kv) (entry_get m (fst kv))" using eq(2) kv by auto
      show "yaml_value (snd kv)" using JObj.prems(2) kv by (auto simp: yaml_value_obj)
      show "yaml_value (entry_get m (fst kv))"
        using yaml_entry [of m "fst kv"] JObj.prems(3) a has [of "fst kv" "snd kv"] kv by auto
      show "\<not> list_for_map (snd kv) (entry_get m (fst kv))" using JObj.prems(4) a kv by auto
    qed
    ultimately show ?thesis unfolding a by simp
  qed (use JObj.prems in auto)
qed (auto split: jsval.splits)

section \<open>Reading and writing along a path of keys\<close>

fun get_at :: "jsval \<Rightarrow> string list \<Rightarrow> jsval option" where
  "get_at v [] = Some v"
| "get_at (JObj kvs) (k # ks) = (if has_key kvs k then get_at (entry_get kvs k) ks else None)"
| "get_at _ (k # ks) = None"

fun put_at :: "jsval \<Rightarrow> string list \<Rightarrow> jsval \<Rightarrow> jsval" where
  "put_at v [] c = c"
| "put_at (JObj kvs) (k # ks) c = JObj (AList.update k (put_at (entry_get kvs k) ks c) kvs)"
| "put_at v (k # ks) c = v"

lemma has_key_update [simp]: "has_key (AList.update k v kvs) k' \<longleftrightarrow> k' = k \<or> has_key kvs k'"
  by (simp add: dom_update)

lemma has_key_delete [simp]: "has_key (AList.delete k kvs) k' \<longleftrightarrow> k' \<noteq> k \<and> has_key kvs k'"
  by (induction kvs) auto

lemma get_put_same: "get_at root ks = Some n \<Longrightarrow> get_at (put_at root ks c) ks = Some c"
  by (induction root ks rule: get_at.induct) (auto split: if_splits)

lemma put_put_same:
  "get_at root ks = Some n \<Longrightarrow> put_at (put_at root ks c) ks d = put_at root ks d"
  by (induction root ks rule: get_at.induct) (auto split: if_splits)

lemma has_key_map_of: "has_key kvs k \<Longrightarrow> map_of kvs k = Some (entry_get kvs k)"
  by (auto simp: entry_get_def split: option.splits dest!: weak_map_of_SomeI)

lemma put_same: "get_at root ks = Some n \<Longrightarrow> put_at root ks n = root"
  by (induction root ks rule: get_at.induct)
     (auto split: if_splits simp: has_key_map_of update_triv)

lemma get_at_snoc:
  "get_at root ks = Some (JObj m) \<Longrightarrow> has_key m k \<Longrightarrow> get_at root (ks @ [k]) = Some (entry_get m k)"
  by (induction root ks rule: get_at.induct) (auto split: if_splits)

lemma put_at_snoc:
  "get_at root ks = Some (JObj m) \<Longrightarrow>
     put_at root (ks @ [k]) c = put_at root ks (JObj (AList.update k c m))"
  by (induction root ks rule: get_at.induct) (auto split: if_splits)

lemma apply_at_below:
  assumes "get_at root ks = Some n" "p \<noteq> []"
  shows "apply_at root (map PKey ks @ p) v =
     (case apply_at n p v of Inl e \<Rightarrow> Inl e | Inr n' \<Rightarrow> Inr (put_at root ks n'))"
  using assms
proof (induction root ks rule: get_at.induct)
  case (1 v)
  then show ?case by (simp split: sum.split)
next
  case (2 kvs k ks)
  obtain s t where p: "map PKey ks @ p = s # t" using "2.prems"(2) by (cases "map PKey ks @ p") auto
  from "2.prems" have hk: "has_key kvs k" and g: "get_at (entry_get kvs k) ks = Some n"
    by (auto split: if_splits)
  from "2.IH" [OF hk g "2.prems"(2)] hk p show ?case by (auto split: sum.splits)
qed auto

lemma apply_ops_append:
  "apply_ops root (xs @ ys) =
     (case apply_ops root xs of Inl e \<Rightarrow> Inl e | Inr root' \<Rightarrow> apply_ops root' ys)"
  by (induction root xs rule: apply_ops.induct) (auto split: sum.splits)

section \<open>Replaying a diff\<close>

text \<open>No list below \<open>v\<close>, reached along keys from \<open>p\<close>, has a registered merge key.\<close>

fun atomic_at :: "path \<Rightarrow> jsval \<Rightarrow> bool" where
  "atomic_at p (JArr xs) = (merge_key_for_array_at p = None)"
| "atomic_at p (JObj kvs) = (\<forall>kv \<in> set kvs. atomic_at (p @ [PKey (fst kv)]) (snd kv))"
| "atomic_at p _ = True"

lemma atomic_entry:
  "atomic_at p (JObj kvs) \<Longrightarrow> entry_get kvs k = v \<Longrightarrow> v \<noteq> JUndefined \<Longrightarrow> atomic_at (p @ [PKey k]) v"
  using entry_get_mem [of kvs k v] by fastforce

text \<open>What one key must look like in the replayed object, compared with the draft.\<close>

definition key_ok :: "entries \<Rightarrow> entries \<Rightarrow> string \<Rightarrow> bool" where
  "key_ok r a k =
     ((has_key r k \<longleftrightarrow> has_key a k) \<and> (has_key a k \<longrightarrow> same_value (entry_get r k) (entry_get a k)))"

text \<open>The operations that \<open>diff_map\<close> emits for one key.\<close>

definition diff_key :: "entries \<Rightarrow> entries \<Rightarrow> path \<Rightarrow> string \<Rightarrow> patch_op list" where
  "diff_key b a path k =
     (let bv = entry_get b k; av = entry_get a k; child_path = path @ [PKey k]
      in if deep_equal bv av then []
         else if bv = JUndefined then [AddOp child_path av]
         else if av = JUndefined then [RemoveOp child_path]
         else (case bv of
                 JObj b \<Rightarrow> (case av of JObj a \<Rightarrow> diff_map b a child_path
                                    | _ \<Rightarrow> [ReplaceOp child_path av])
               | JArr b \<Rightarrow> (case av of JArr a \<Rightarrow> diff_array b a child_path
                                    | _ \<Rightarrow> [ReplaceOp child_path av])
               | _ \<Rightarrow> [ReplaceOp child_path av]))"

lemma diff_map_keys: "diff_map b a path = concat (map (diff_key b a path) (all_keys b a))"
  by (subst diff_map.simps) (simp add: diff_key_def [abs_def])

definition replays :: "jsval \<Rightarrow> string list \<Rightarrow> patch_op list \<Rightarrow> entries \<Rightarrow> bool" where
  "replays root ks ops r = (apply_ops root ops = Inr (put_at root ks (JObj r)))"

lemma replay_leaf:
  assumes "get_at root ks = Some (JObj m)" "op_path op = map PKey ks @ [PKey k]"
  shows "replays root ks [op]
     (case op_leaf op of None \<Rightarrow> AList.delete k m | Some v \<Rightarrow> AList.update k v m)"
  using assms
  by (simp add: replays_def apply_op_to_tree_def apply_at_below split: option.split)

lemma replays_Nil: "get_at root ks = Some (JObj m) \<Longrightarrow> replays root ks [] m"
  by (simp add: replays_def put_same)

lemma replays_append:
  assumes "get_at root ks = Some (JObj m)" "replays root ks xs r1"
    and "replays (put_at root ks (JObj r1)) ks ys r2"
  shows "replays root ks (xs @ ys) r2"
  using assms by (simp add: replays_def apply_ops_append put_put_same)

text \<open>One key: the replay changes that key only, into a value that agrees with the draft.\<close>

definition key_replay :: "entries \<Rightarrow> entries \<Rightarrow> path \<Rightarrow> string list \<Rightarrow> string \<Rightarrow> bool" where
  "key_replay b a path ks k =
     (\<forall>root m. get_at root ks = Some (JObj m) \<longrightarrow> distinct (map fst m) \<longrightarrow>
        map_of m k = map_of b k \<longrightarrow>
        (\<exists>m'. replays root ks (diff_key b a path k) m' \<and> distinct (map fst m') \<and>
              key_ok m' a k \<and> (\<forall>k'. k' \<noteq> k \<longrightarrow> map_of m' k' = map_of m k')))"

lemma entry_get_cong: "map_of m k = map_of b k \<Longrightarrow> entry_get m k = entry_get b k"
  by (simp add: entry_get_def)

lemma has_key_cong: "map_of m k = map_of b k \<Longrightarrow> has_key m k \<longleftrightarrow> has_key b k"
  by (metis map_of_eq_None_iff)

lemma key_ok_cong: "map_of m k = map_of b k \<Longrightarrow> key_ok m a k \<longleftrightarrow> key_ok b a k"
  unfolding key_ok_def using entry_get_cong [of m k b] has_key_cong [of m k b] by simp

lemma key_replay_leaf:
  assumes a: "yaml_value (JObj a)" and ops: "diff_key b a path k = [op]"
    and p: "path = map PKey ks" and op: "op_path op = path @ [PKey k]"
    and leaf: "op_leaf op = (if has_key a k then Some (entry_get a k) else None)"
  shows "key_replay b a path ks k"
  unfolding key_replay_def
proof (intro allI impI)
  fix root m
  assume g: "get_at root ks = Some (JObj m)" and d: "distinct (map fst m)"
  let ?m' = "case op_leaf op of None \<Rightarrow> AList.delete k m | Some v \<Rightarrow> AList.update k v m"
  have "key_ok ?m' a k"
    using a by (simp add: leaf key_ok_def same_value_refl [OF wf_entry_get] yaml_value_def)
  moreover have "distinct (map fst ?m')"
    using d by (auto simp: distinct_update distinct_delete split: option.split)
  moreover have "\<forall>k'. k' \<noteq> k \<longrightarrow> map_of ?m' k' = map_of m k'"
    by (auto simp: update_conv' delete_conv' split: option.split)
  moreover have "replays root ks (diff_key b a path k) ?m'"
    using replay_leaf [OF g, of op k] ops op p by simp
  ultimately show "\<exists>m'. replays root ks (diff_key b a path k) m' \<and> distinct (map fst m') \<and>
              key_ok m' a k \<and> (\<forall>k'. k' \<noteq> k \<longrightarrow> map_of m' k' = map_of m k')"
    by blast
qed

text \<open>A list of distinct keys, each replayed in turn.\<close>

lemma keys_replay:
  assumes "\<forall>k \<in> set keys. key_replay b a path ks k" "distinct keys"
    and "get_at root ks = Some (JObj m)" "distinct (map fst m)"
    and "\<forall>k \<in> set keys. map_of m k = map_of b k"
  shows "\<exists>m'. replays root ks (concat (map (diff_key b a path) keys)) m' \<and>
     distinct (map fst m') \<and> (\<forall>k \<in> set keys. key_ok m' a k) \<and>
     (\<forall>k'. k' \<notin> set keys \<longrightarrow> map_of m' k' = map_of m k')"
  using assms
proof (induction keys arbitrary: root m)
  case Nil
  then show ?case using replays_Nil by fastforce
next
  case (Cons k keys)
  have "key_replay b a path ks k" "map_of m k = map_of b k" using Cons.prems by simp_all
  then obtain m1 where m1: "replays root ks (diff_key b a path k) m1" "distinct (map fst m1)"
      "key_ok m1 a k" "\<forall>k'. k' \<noteq> k \<longrightarrow> map_of m1 k' = map_of m k'"
    using Cons.prems(3,4) unfolding key_replay_def by blast
  let ?root1 = "put_at root ks (JObj m1)"
  have g1: "get_at ?root1 ks = Some (JObj m1)"
    using Cons.prems(3) by (rule get_put_same)
  have rest: "\<forall>k' \<in> set keys. map_of m1 k' = map_of b k'"
    using Cons.prems(2,5) m1(4) by (metis distinct.simps(2) list.set_intros(2))
  have keys: "\<forall>k \<in> set keys. key_replay b a path ks k" "distinct keys" "k \<notin> set keys"
    using Cons.prems(1,2) by simp_all
  from Cons.IH [OF keys(1,2) g1 m1(2) rest] obtain m' where
    m': "replays ?root1 ks (concat (map (diff_key b a path) keys)) m'" "distinct (map fst m')"
      "\<forall>k' \<in> set keys. key_ok m' a k'" "\<forall>k'. k' \<notin> set keys \<longrightarrow> map_of m' k' = map_of m1 k'"
    by blast
  have "key_ok m' a k"
    using m'(4) keys(3) m1(3) key_ok_cong [of m' k m1 a] by blast
  with m' m1(4) have "distinct (map fst m') \<and> (\<forall>k' \<in> set (k # keys). key_ok m' a k') \<and>
      (\<forall>k'. k' \<notin> set (k # keys) \<longrightarrow> map_of m' k' = map_of m k')"
    by simp
  moreover have "replays root ks (concat (map (diff_key b a path) (k # keys))) m'"
    using replays_append [OF Cons.prems(3) m1(1) m'(1)] by simp
  ultimately show ?case by blast
qed

lemma all_keys_distinct:
  "distinct (map fst b) \<Longrightarrow> distinct (map fst a) \<Longrightarrow> distinct (all_keys b a)"
  by (auto simp: all_keys_def)

lemma set_all_keys: "k \<in> set (all_keys b a) \<longleftrightarrow> has_key b k \<or> has_key a k"
  by (auto simp: all_keys_def)

lemma same_keys_length:
  "distinct (map fst r) \<Longrightarrow> distinct (map fst a) \<Longrightarrow> \<forall>k. has_key r k \<longleftrightarrow> has_key a k \<Longrightarrow>
     length r = length a"
  by (metis distinct_card length_map list.set_map subsetI subset_antisym)

lemma key_ok_same:
  assumes "distinct (map fst r)" "\<forall>k. key_ok r a k"
  shows "same_value (JObj r) (JObj a)"
proof -
  have "fst ` set r = fst ` set a" using assms(2) by (auto simp: key_ok_def)
  moreover have "same_value v (entry_get a k)" if "(k, v) \<in> set r" for k v
  proof -
    have "has_key r k" "entry_get r k = v" using that assms(1) by (force, simp add: entry_get_distinct)
    then show ?thesis using assms(2) unfolding key_ok_def by blast
  qed
  ultimately show ?thesis by auto
qed

text \<open>The nested call, one level below: it replays into the slot of \<open>k\<close>.\<close>

lemma nested_replay:
  assumes "get_at root ks = Some (JObj m)" "map_of m k = Some (JObj b')"
    and "replays root (ks @ [k]) ops r"
  shows "replays root ks ops (AList.update k (JObj r) m)"
  using assms by (simp add: replays_def put_at_snoc)

text \<open>The induction hypothesis of the replay, for one pair of nested objects.\<close>

definition map_replay :: "entries \<Rightarrow> entries \<Rightarrow> path \<Rightarrow> string list \<Rightarrow> bool" where
  "map_replay b a path ks =
     (\<forall>root. get_at root ks = Some (JObj b) \<longrightarrow>
        (\<exists>r. replays root ks (diff_map b a path) r \<and> same_value (JObj r) (JObj a) \<and>
             distinct (map fst r)))"

lemma key_replay_nested:
  assumes obj: "\<not> deep_equal (entry_get b k) (entry_get a k)"
      "entry_get b k = JObj b'" "entry_get a k = JObj a'"
    and has: "has_key b k" "has_key a k"
    and IH: "map_replay b' a' (path @ [PKey k]) (ks @ [k])"
  shows "key_replay b a path ks k"
  unfolding key_replay_def
proof (intro allI impI)
  fix root m
  assume g: "get_at root ks = Some (JObj m)" and d: "distinct (map fst m)"
    and mb: "map_of m k = map_of b k"
  have ops: "diff_key b a path k = diff_map b' a' (path @ [PKey k])"
    using obj by (simp add: diff_key_def Let_def del: deep_equal.simps)
  have mk: "map_of m k = Some (JObj b')" using mb has(1) obj(2) has_key_map_of by metis
  then have "get_at root (ks @ [k]) = Some (JObj b')"
    using get_at_snoc [OF g, of k] by (force simp: entry_get_def dest: map_of_SomeD)
  then obtain r where r: "replays root (ks @ [k]) (diff_map b' a' (path @ [PKey k])) r"
      "same_value (JObj r) (JObj a')"
    using IH unfolding map_replay_def by blast
  let ?m' = "AList.update k (JObj r) m"
  have "key_ok ?m' a k" using r(2) has(2) obj by (simp add: key_ok_def del: deep_equal.simps same_value.simps)
  moreover have "replays root ks (diff_key b a path k) ?m'"
    using nested_replay [OF g mk r(1)] ops by simp
  ultimately show "\<exists>m'. replays root ks (diff_key b a path k) m' \<and> distinct (map fst m') \<and>
        key_ok m' a k \<and> (\<forall>k'. k' \<noteq> k \<longrightarrow> map_of m' k' = map_of m k')"
    using d by (intro exI [of _ ?m']) (simp add: distinct_update update_conv')
qed

lemma diff_key_cases:
  assumes "atomic_at path (JObj b)"
  obtains (eq) "deep_equal (entry_get b k) (entry_get a k)" "diff_key b a path k = []"
  | (add) "\<not> deep_equal (entry_get b k) (entry_get a k)" "entry_get b k = JUndefined"
      "diff_key b a path k = [AddOp (path @ [PKey k]) (entry_get a k)]"
  | (rem) "entry_get a k = JUndefined" "diff_key b a path k = [RemoveOp (path @ [PKey k])]"
  | (obj) b' a' where "\<not> deep_equal (entry_get b k) (entry_get a k)"
      "entry_get b k = JObj b'" "entry_get a k = JObj a'"
  | (rep) "entry_get a k \<noteq> JUndefined"
      "diff_key b a path k = [ReplaceOp (path @ [PKey k]) (entry_get a k)]"
proof -
  have "\<not> deep_equal (entry_get b k) (entry_get a k) \<Longrightarrow> entry_get b k = JArr xs \<Longrightarrow>
      entry_get a k = JArr ys \<Longrightarrow>
      diff_key b a path k = [ReplaceOp (path @ [PKey k]) (entry_get a k)]" for xs ys
    using atomic_entry [OF assms, of k "JArr xs"]
    by (simp add: diff_key_def Let_def diff_array.simps)
  then show ?thesis
    using that by (fastforce simp: diff_key_def Let_def split: jsval.splits if_splits)
qed

lemma key_replay_step:
  assumes yb: "yaml_value (JObj b)" and ya: "yaml_value (JObj a)"
    and at: "atomic_at path (JObj b)" and sw: "\<not> list_for_map (JObj b) (JObj a)"
    and p: "path = map PKey ks"
    and IH: "\<And>b' a'. entry_get b k = JObj b' \<Longrightarrow> yaml_value (JObj b') \<Longrightarrow> yaml_value (JObj a') \<Longrightarrow>
        \<not> list_for_map (JObj b') (JObj a') \<Longrightarrow> atomic_at (path @ [PKey k]) (JObj b') \<Longrightarrow> map_replay b' a' (path @ [PKey k]) (ks @ [k])"
  shows "key_replay b a path ks k"
proof -
  have absent: "entry_get b k = JUndefined \<longleftrightarrow> \<not> has_key b k"
      "entry_get a k = JUndefined \<longleftrightarrow> \<not> has_key a k"
    using yb ya by (simp_all add: yaml_entry_absent)
  have swk: "\<not> list_for_map (entry_get b k) (entry_get a k)" if "has_key b k"
  proof -
    have "(k, entry_get b k) \<in> set b" using that by (simp add: has_key_map_of map_of_SomeD)
    then show ?thesis using sw by auto
  qed
  show ?thesis using at
  proof (cases rule: diff_key_cases [where k = k and a = a])
    case eq
    have "same_value (entry_get b k) (entry_get a k)" if "has_key b k" "has_key a k"
      by (rule deep_equal_same [OF eq(1) yaml_entry [OF yb that(1)] yaml_entry [OF ya that(2)] swk [OF that(1)]])
    then have "key_ok b a k" unfolding key_ok_def using eq(1) absent by (metis deep_equal.simps(3) deep_equal_undefined)
    then have "key_ok m a k" if "map_of m k = map_of b k" for m
      using that key_ok_cong by blast
    then show ?thesis
      using eq(2) unfolding key_replay_def by (auto intro: replays_Nil)
  next
    case add
    then have "has_key a k" using absent by (cases "has_key a k") auto
    with add(3) p show ?thesis by (intro key_replay_leaf [OF ya]) auto
  next
    case rem
    with absent p show ?thesis by (intro key_replay_leaf [OF ya rem(2)]) auto
  next
    case rep
    with absent p show ?thesis by (intro key_replay_leaf [OF ya rep(2)]) auto
  next
    case (obj b' a')
    then have hb: "has_key b k" and ha: "has_key a k" using absent by auto
    have "yaml_value (JObj b')" "yaml_value (JObj a')"
      using yaml_entry [OF yb hb] yaml_entry [OF ya ha] obj by simp_all
    moreover have "atomic_at (path @ [PKey k]) (JObj b')"
      using atomic_entry [OF at obj(2)] by simp
    moreover have "\<not> list_for_map (JObj b') (JObj a')" using swk [OF hb] obj by simp
    ultimately show ?thesis using key_replay_nested [OF obj hb ha] IH obj(2) by blast
  qed
qed

lemma diff_map_replays:
  assumes "yaml_value (JObj b)" "yaml_value (JObj a)" "atomic_at path (JObj b)"
    "\<not> list_for_map (JObj b) (JObj a)" and "path = map PKey ks"
  shows "map_replay b a path ks"
  using assms
proof (induction "entries_size b" arbitrary: b a path ks rule: less_induct)
  case less
  have kr: "key_replay b a path ks k" for k
  proof (rule key_replay_step [OF less.prems])
    fix b' a'
    assume nested: "entry_get b k = JObj b'" "yaml_value (JObj b')" "yaml_value (JObj a')"
      "\<not> list_for_map (JObj b') (JObj a')" "atomic_at (path @ [PKey k]) (JObj b')"
    show "map_replay b' a' (path @ [PKey k]) (ks @ [k])"
      by (rule less.hyps [OF entry_get_obj_size [OF nested(1)] nested(2,3,5,4)])
         (simp add: less.prems(5))
  qed
  have db: "distinct (map fst b)" and da: "distinct (map fst a)"
    using less.prems by (simp_all add: yaml_value_obj)
  show ?case unfolding map_replay_def
  proof (intro allI impI)
    fix root
    assume g: "get_at root ks = Some (JObj b)"
    obtain r where r: "replays root ks (diff_map b a path) r" "distinct (map fst r)"
        "\<forall>k \<in> set (all_keys b a). key_ok r a k"
        "\<forall>k. k \<notin> set (all_keys b a) \<longrightarrow> map_of r k = map_of b k"
      using keys_replay [of "all_keys b a" b a path ks root b] kr all_keys_distinct [OF db da] g db
      unfolding diff_map_keys by blast
    have "key_ok r a k" for k
    proof (cases "k \<in> set (all_keys b a)")
      case False
      then have "\<not> has_key r k" using r(4) has_key_cong [of r k b] by (simp add: set_all_keys)
      with False show ?thesis unfolding key_ok_def by (simp add: set_all_keys)
    qed (use r in blast)
    with r(1,2) da show "\<exists>r. replays root ks (diff_map b a path) r \<and>
        same_value (JObj r) (JObj a) \<and> distinct (map fst r)"
      using key_ok_same by blast
  qed
qed

section \<open>Which paths an operation can have\<close>

lemma diff_key_paths_aux:
  assumes "\<And>xs ys. entry_get b k = JArr xs \<Longrightarrow> entry_get a k = JArr ys \<Longrightarrow>
      \<not> deep_equal (JArr xs) (JArr ys) \<Longrightarrow>
      \<forall>op \<in> set (diff_array xs ys (path @ [PKey k])). prefix (path @ [PKey k]) (op_path op)"
    and "\<And>b' a'. entry_get b k = JObj b' \<Longrightarrow> entry_get a k = JObj a' \<Longrightarrow>
      \<not> deep_equal (JObj b') (JObj a') \<Longrightarrow>
      \<forall>op \<in> set (diff_map b' a' (path @ [PKey k])). prefix (path @ [PKey k]) (op_path op)"
  shows "\<forall>op \<in> set (diff_key b a path k). prefix (path @ [PKey k]) (op_path op)"
  using assms unfolding diff_key_def Let_def
  by (cases "entry_get b k"; cases "entry_get a k") (simp_all del: deep_equal.simps)

lemma diff_paths_below:
  "\<forall>op \<in> set (diff_map b a path). prefix path (op_path op)"
  "\<forall>op \<in> set (diff_array bs as path). prefix path (op_path op)"
proof (induction b a path and bs as path rule: diff_map_diff_array.induct)
  case (1 b a path)
  have "\<forall>op \<in> set (diff_key b a path k). prefix (path @ [PKey k]) (op_path op)"
    if "k \<in> set (all_keys b a)" for k
    using that "1.IH" by (intro diff_key_paths_aux) (simp_all del: deep_equal.simps)
  then show ?case unfolding diff_map_keys by (auto dest: append_prefixD)
next
  case (2 bs as path)
  have step: "prefix path (op_path op)"
    if "merge_key_for_array_at path = Some mk"
      "length (index_by mk bs) = length bs" "length (index_by mk as) = length as"
      "k \<in> set (all_keys (index_by mk bs) (index_by mk as))"
      "map_of (index_by mk bs) k = Some b" "map_of (index_by mk as) k = Some a"
      "op \<in> set (diff_map b a (path @ [PMerge mk k]))" for mk k b a op
    using "2.IH" [OF that(1) refl refl _ that(4) refl that(5,6)] that(2,3,7)
    by (auto dest: append_prefixD)
  show ?case
    by (subst diff_array.simps) (auto simp: Let_def intro: step split: option.splits)
qed

lemma diff_key_paths: "op \<in> set (diff_key b a path k) \<Longrightarrow> prefix (path @ [PKey k]) (op_path op)"
  using diff_key_paths_aux [of b k a path] diff_paths_below by blast

lemma diff_map_path:
  assumes "op \<in> set (diff_map b a path)"
  obtains k rest where "has_key b k \<or> has_key a k" "op_path op = path @ PKey k # rest"
    "op \<in> set (diff_key b a path k)"
proof -
  from assms obtain k where k: "k \<in> set (all_keys b a)" "op \<in> set (diff_key b a path k)"
    by (auto simp: diff_map_keys)
  then obtain rest where "op_path op = path @ PKey k # rest"
    using diff_key_paths by (fastforce simp: prefix_def)
  with k that show ?thesis by (auto simp: set_all_keys)
qed

text \<open>Paths of the fields the server manages, which are stripped before diffing.\<close>

fun server_managed :: "path \<Rightarrow> bool" where
  "server_managed (PKey k # rest) =
     (k = ''status'' \<or>
      k = ''metadata'' \<and>
        (case rest of PKey m # _ \<Rightarrow> m \<in> set disallowed_at_metadata | _ \<Rightarrow> False))"
| "server_managed _ = False"

lemma strip_entry_root:
  assumes "(k, v) \<in> set (strip_entry kv)"
  shows "k \<noteq> ''status''" "k = ''metadata'' \<Longrightarrow> v = JObj m \<Longrightarrow> has_key m mk \<Longrightarrow>
      mk \<notin> set disallowed_at_metadata"
  using assms by (auto simp: strip_entry_def split: if_splits jsval.splits prod.splits)

lemma strip_root:
  assumes "strip_server_managed (JObj kvs) = JObj s" "(k, v) \<in> set s"
  shows "k \<noteq> ''status''" "k = ''metadata'' \<Longrightarrow> v = JObj m \<Longrightarrow> has_key m mk \<Longrightarrow>
      mk \<notin> set disallowed_at_metadata"
proof -
  from assms obtain kv where "(k, v) \<in> set (strip_entry kv)" by auto
  from strip_entry_root [OF this] show "k \<noteq> ''status''"
    "k = ''metadata'' \<Longrightarrow> v = JObj m \<Longrightarrow> has_key m mk \<Longrightarrow> mk \<notin> set disallowed_at_metadata"
    by blast+
qed

lemma merge_key_metadata [simp]: "merge_key_for_array_at [PKey ''metadata''] = None"
  by (simp add: merge_key_for_array_at_def merge_keys_def)

lemma stripped_diff_not_managed:
  assumes b: "strip_server_managed (JObj b0) = JObj b" and a: "strip_server_managed (JObj a0) = JObj a"
    and op: "op \<in> set (diff_map b a [])"
  shows "\<not> server_managed (op_path op)"
proof -
  obtain k rest where k: "has_key b k \<or> has_key a k" "op_path op = PKey k # rest"
      "op \<in> set (diff_key b a [] k)"
    by (rule diff_map_path [OF op]) auto
  have "k \<noteq> ''status''" using k(1) strip_root(1) [OF b] strip_root(1) [OF a] by fastforce
  moreover have "m \<notin> set disallowed_at_metadata" if km: "k = ''metadata''" "rest = PKey m # r" for m r
  proof -
    have nested: "has_key b' m \<or> has_key a' m"
      if "entry_get b k = JObj b'" "entry_get a k = JObj a'"
        "op \<in> set (diff_map b' a' [PKey k])" for b' a'
      using diff_map_path [OF that(3)] k(2) km(2) by force
    obtain b' a' where o: "entry_get b k = JObj b'" "entry_get a k = JObj a'"
        "op \<in> set (diff_map b' a' [PKey k])"
      using k(2,3) km
      by (auto simp: diff_key_def Let_def diff_array.simps simp del: deep_equal.simps
          split: if_splits jsval.splits)
    from nested [OF o] show ?thesis
      using strip_root(2) [OF b entry_get_mem [OF o(1)] km(1)]
        strip_root(2) [OF a entry_get_mem [OF o(2)] km(1)] by blast
  qed
  ultimately show ?thesis using k(2) by (auto split: list.splits path_segment.splits)
qed

section \<open>Which parts of the payload an operation can reach\<close>

lemma put_slot_key_get:
  "k \<noteq> seg \<Longrightarrow> get_at (put_slot (JObj kvs) (SlotKey seg) c) (k # ks) = get_at (JObj kvs) (k # ks)"
  by simp

lemma apply_at_frame:
  assumes "apply_at root p v = Inr root'"
    and "\<not> prefix (map PKey ks) p" "\<not> prefix p (map PKey ks)"
  shows "get_at root' ks = get_at root ks"
  using assms
proof (induction root p v arbitrary: ks root' rule: apply_at.induct)
  case (2 node seg v)
  then obtain k ks' where ks: "ks = k # ks'" by (cases ks) auto
  show ?case
  proof (cases seg)
    case (PKey s)
    with 2 ks show ?thesis by (auto split: jsval.splits option.splits; force)
  qed (use 2 ks in \<open>auto simp: Let_def split: jsval.splits option.splits prod.splits\<close>)
next
  case (3 node seg next_seg rest v)
  obtain k ks' where ks: "ks = k # ks'" using "3.prems"(2) by (cases ks) auto
  obtain node' sl child child' where st: "step_into node seg next_seg = Inr (node', sl, child)"
      and ch: "apply_at child (next_seg # rest) v = Inr child'"
      and r': "root' = put_slot node' sl child'"
    using "3.prems"(1) by (auto split: sum.splits)
  show ?case
  proof (cases seg)
    case (PKey s)
    with st obtain kvs where n: "node = JObj kvs" by (cases node) auto
    show ?thesis
    proof (cases "s = k")
      case False
      with st r' n PKey ks show ?thesis by (auto simp: Let_def split: if_splits; force)
    next
      case True
      have np: "\<not> prefix (map PKey ks') (next_seg # rest)" "\<not> prefix (next_seg # rest) (map PKey ks')"
        using "3.prems"(2,3) ks PKey True by auto
      have g: "get_at child' ks' = get_at child ks'"
        using "3.IH" [OF st refl refl ch np] .
      obtain k2 ks2 where k2: "ks' = k2 # ks2" using np(1) by (cases ks') auto
      from g st r' n PKey ks True k2 show ?thesis
        by (auto simp: Let_def split: if_splits)
    qed
  qed (use st r' ks in \<open>auto simp: Let_def split: jsval.splits option.splits prod.splits\<close>)
qed simp

lemma apply_ops_frame:
  assumes "apply_ops root ops = Inr root'"
    and "\<forall>op \<in> set ops. \<not> prefix (map PKey ks) (op_path op) \<and> \<not> prefix (op_path op) (map PKey ks)"
  shows "get_at root' ks = get_at root ks"
  using assms
proof (induction root ops rule: apply_ops.induct)
  case (2 root op ops)
  then obtain root1 where "apply_op_to_tree root op = Inr root1" "apply_ops root1 ops = Inr root'"
    by (auto split: sum.splits)
  moreover from this have "get_at root1 ks = get_at root ks"
    using 2 apply_at_frame unfolding apply_op_to_tree_def by simp
  ultimately show ?case using 2 by simp
qed simp

lemma apply_at_leaf:
  "apply_at root (map PKey (ks @ [k])) v = Inr root' \<Longrightarrow> get_at root' (ks @ [k]) = v"
proof (induction ks arbitrary: root root')
  case Nil
  then show ?case by (auto split: jsval.splits option.splits)
next
  case (Cons k0 ks)
  obtain s rest where p: "map PKey (ks @ [k]) = PKey s # rest"
    by (cases "ks @ [k]") auto
  from Cons.prems p obtain node' sl child child'
    where st: "step_into root (PKey k0) (PKey s) = Inr (node', sl, child)"
      and ch: "apply_at child (map PKey (ks @ [k])) v = Inr child'"
      and r': "root' = put_slot node' sl child'"
    by (auto split: sum.splits)
  from Cons.IH [OF ch] st r' show ?case
    by (cases root) (auto simp: Let_def split: if_splits)
qed

lemma apply_ops_leaf:
  assumes "apply_ops root (xs @ op # ys) = Inr tree" "op_path op = map PKey (ks @ [k])"
    and "\<forall>y \<in> set ys. \<not> prefix (map PKey (ks @ [k])) (op_path y) \<and>
           \<not> prefix (op_path y) (map PKey (ks @ [k]))"
  shows "get_at tree (ks @ [k]) = op_leaf op"
proof -
  from assms(1) obtain r1 r2 where "apply_op_to_tree r1 op = Inr r2" "apply_ops r2 ys = Inr tree"
    by (auto simp: apply_ops_append split: sum.splits)
  then show ?thesis
    using apply_at_leaf assms(2) apply_ops_frame [OF _ assms(3)]
    unfolding apply_op_to_tree_def by metis
qed

lemma wf_strip: "wf_js v \<Longrightarrow> wf_js (strip_server_managed v)"
proof (cases v)
  case (JObj kvs)
  assume wf: "wf_js v"
  have keys: "map fst (strip_entry kv) = (if fst kv = ''status'' then [] else [fst kv])" for kv
    by (cases "snd kv") (auto simp: strip_entry_def split: prod.splits)
  have "map fst (concat (map strip_entry kvs)) = filter (\<lambda>k. k \<noteq> ''status'') (map fst kvs)"
    by (induction kvs) (auto simp: keys)
  moreover have "wf_js x" if "kv \<in> set kvs" "(k, x) \<in> set (strip_entry kv)" for kv k x
    using that wf JObj
    by (fastforce simp: strip_entry_def distinct_map_filter split: if_splits jsval.splits prod.splits)
  ultimately show ?thesis using wf JObj by (auto simp: distinct_filter)
qed auto

section \<open>Properties\<close>

text \<open>C1: for a baseline and a draft whose lists are atomic, replaying the operations of the
  diff on the baseline with the builder's own tree walk succeeds and gives the draft, up to the order
  of keys, unless somewhere the draft has a list where the baseline has a map of as many entries
  (\<open>empty_map_to_list_unnoticed\<close> shows what happens there).\<close>

theorem diff_replays_to_draft:
  assumes "yaml_value (JObj baseline)" "yaml_value (JObj draft)" "atomic_at [] (JObj baseline)"
    and "\<not> list_for_map (JObj baseline) (JObj draft)"
  shows "\<exists>r. apply_ops (JObj baseline) (diff_node (JObj baseline) (JObj draft) []) = Inr r \<and>
     same_value r (JObj draft)"
proof (cases "deep_equal (JObj baseline) (JObj draft)")
  case True
  then show ?thesis using deep_equal_same [OF True assms(1,2,4)]
    by (simp add: diff_node_def del: deep_equal.simps same_value.simps)
next
  case False
  from diff_map_replays [OF assms, of "[]"] obtain r where
    "replays (JObj baseline) [] (diff_map baseline draft []) r" "same_value (JObj r) (JObj draft)"
    unfolding map_replay_def by auto
  with False show ?thesis by (auto simp: diff_node_def replays_def simp del: deep_equal.simps same_value.simps)
qed

theorem diff_replays_to_draft_witness:
  "\<exists>r. apply_ops (JObj [(''spec'', JObj [(''replicas'', JNum 1), (''paused'', JBool True)])])
         (diff_node (JObj [(''spec'', JObj [(''replicas'', JNum 1), (''paused'', JBool True)])])
            (JObj [(''spec'', JObj [(''replicas'', JNum 2), (''args'', JArr [JStr ''x''])])]) []) = Inr r \<and>
       same_value r (JObj [(''spec'', JObj [(''replicas'', JNum 2), (''args'', JArr [JStr ''x''])])])"
  by (rule diff_replays_to_draft) (simp_all add: yaml_value_def entry_get_def)

text \<open>comparing a text that parses to a well-formed document with itself yields no
  operations, so an unchanged buffer never produces a change.\<close>

theorem unchanged_text_no_ops:
  assumes "parse_or_throw parse text = Inr (doc, js)" "wf_js js"
  shows "compute_ops parse text text = Inr []"
  using assms by (simp add: compute_ops_def diff_node_def deep_equal_refl wf_strip)

theorem unchanged_text_no_ops_witness:
  "compute_ops (\<lambda>_. [\<lparr>doc_js = JObj [(''kind'', JStr ''Pod'')], doc_errors = []\<rparr>]) ''x'' ''x'' = Inr []"
  by (rule unchanged_text_no_ops [where js = "JObj [(''kind'', JStr ''Pod'')]"
        and doc = "\<lparr>doc_js = JObj [(''kind'', JStr ''Pod'')], doc_errors = []\<rparr>"])
     (simp_all add: parse_or_throw_def Let_def)

text \<open>C9: no operation computed from two texts addresses the status block or one of the
  server-managed fields of the top-level metadata.\<close>

theorem server_fields_never_sent:
  assumes "compute_ops parse baseline draft = Inr ops" "op \<in> set ops"
  shows "\<not> server_managed (op_path op)"
proof -
  from assms(1) obtain bj aj where
    ops: "ops = diff_node (strip_server_managed bj) (strip_server_managed aj) []"
    by (auto simp: compute_ops_def split: sum.splits prod.splits)
  have top: "merge_key_for_array_at [] = None" by (simp add: merge_key_for_array_at_def merge_keys_def)
  show ?thesis
  proof (cases "\<exists>b0 a0. bj = JObj b0 \<and> aj = JObj a0")
    case True
    with ops assms(2) show ?thesis
      by (auto simp: diff_node_def stripped_diff_not_managed simp del: deep_equal.simps split: if_splits)
  next
    case False
    with ops assms(2) top have "op_path op = []"
      by (cases bj; cases aj)
         (auto simp: diff_node_def diff_array.simps simp del: deep_equal.simps split: if_splits)
    then show ?thesis by simp
  qed
qed

definition status_only_parse :: "string \<Rightarrow> yaml_document list" where
  "status_only_parse text =
     [\<lparr>doc_js = JObj [(''kind'', JStr text), (''status'', JStr text)], doc_errors = []\<rparr>]"

theorem server_fields_never_sent_witness:
  "\<not> server_managed (op_path (ReplaceOp [PKey ''kind''] (JStr ''b'')))"
  by (rule server_fields_never_sent [of status_only_parse "''a''" "''b''"
        "[ReplaceOp [PKey ''kind''] (JStr ''b'')]"])
     (simp_all add: compute_ops_def status_only_parse_def parse_or_throw_def Let_def diff_node_def
        diff_map.simps all_keys_def strip_entry_def own_key_count_def)

text \<open>the payload is minimal: at a key path that no operation reaches, neither above nor
  below, the payload tree holds what the identity header alone holds there.\<close>

theorem payload_minimal:
  assumes "minimal_ssa_tree ops idt = Inr tree"
    and "\<forall>op \<in> set ops. \<not> prefix (map PKey ks) (op_path op) \<and> \<not> prefix (op_path op) (map PKey ks)"
  shows "get_at tree ks = get_at (identity_root idt) ks"
  using assms apply_ops_frame unfolding minimal_ssa_tree_def by blast

definition pod_identity :: identity where
  "pod_identity = \<lparr>id_apiVersion = ''v1'', id_kind = ''Pod'', id_name = ''web'', id_namespace = None\<rparr>"

theorem payload_minimal_witness:
  "get_at (JObj [(''apiVersion'', JStr ''v1''), (''kind'', JStr ''Pod''),
      (''metadata'', JObj [(''name'', JStr ''web'')]), (''spec'', JObj [(''replicas'', JNum 3)])])
     [''metadata'', ''name''] = get_at (identity_root pod_identity) [''metadata'', ''name'']"
  by (rule payload_minimal [of "[ReplaceOp [PKey ''spec'', PKey ''replicas''] (JNum 3)]"])
     (simp_all add: minimal_ssa_tree_def identity_root_def pod_identity_def apply_op_to_tree_def)

text \<open>an operation on a key path decides what the payload holds there, when no later
  operation reaches the path: the value it adds or replaces, and nothing after a removal.\<close>

theorem payload_holds_leaf:
  assumes "minimal_ssa_tree (xs @ op # ys) idt = Inr tree" "op_path op = map PKey (ks @ [k])"
    and "\<forall>y \<in> set ys. \<not> prefix (map PKey (ks @ [k])) (op_path y) \<and>
           \<not> prefix (op_path y) (map PKey (ks @ [k]))"
  shows "get_at tree (ks @ [k]) = op_leaf op"
  using assms apply_ops_leaf unfolding minimal_ssa_tree_def by blast

theorem payload_holds_leaf_witness:
  "get_at (JObj [(''apiVersion'', JStr ''v1''), (''kind'', JStr ''Pod''),
      (''metadata'', JObj [(''name'', JStr ''web''), (''labels'', JObj [])])])
     ([''metadata'', ''labels''] @ [''app'']) = op_leaf (RemoveOp [PKey ''metadata'', PKey ''labels'', PKey ''app''])"
  by (rule payload_holds_leaf [of "[]" _ "[]" pod_identity])
     (simp_all add: minimal_ssa_tree_def identity_root_def pod_identity_def apply_op_to_tree_def)

text \<open>the identity header is not protected from the operations: a draft that drops
  \<open>metadata.name\<close> gives a payload without the name.\<close>

theorem identity_name_can_be_dropped:
  "\<exists>ops tree.
     compute_ops (\<lambda>t. [\<lparr>doc_js = JObj [(''metadata'', JObj (if t = ''old''
           then [(''name'', JStr ''web''), (''namespace'', JStr ''d'')]
           else [(''namespace'', JStr ''d'')]))], doc_errors = []\<rparr>]) ''old'' ''new'' = Inr ops \<and>
     minimal_ssa_tree ops pod_identity = Inr tree \<and>
     get_at tree [''metadata'', ''name''] = None"
  by (simp add: compute_ops_def parse_or_throw_def Let_def diff_node_def diff_map.simps all_keys_def
      strip_entry_def own_key_count_def disallowed_at_metadata_def minimal_ssa_tree_def
      identity_root_def pod_identity_def apply_op_to_tree_def)

text \<open>structural equality is not symmetric on an empty map and an empty list, so turning
  an empty map into an empty list is not seen as a change, while the reverse edit is.\<close>

theorem empty_map_to_list_unnoticed:
  "diff_node (JObj [(k, JObj [])]) (JObj [(k, JArr [])]) [] = [] \<and>
   diff_node (JObj [(k, JArr [])]) (JObj [(k, JObj [])]) [] = [ReplaceOp [PKey k] (JObj [])]"
  by (simp add: diff_node_def diff_map.simps all_keys_def own_key_count_def array_entries_def)

text \<open>the builder can fail with an error that is not one of the parser's: a draft that
  nests a map under \<open>kind\<close> makes the tree walk meet the identity header's string.\<close>

theorem builder_throws_plain_error:
  "\<exists>m. build_apply_body (\<lambda>t. [\<lparr>doc_js = JObj [(''kind'', JObj (if t = ''old'' then []
           else [(''a'', JNull)]))], doc_errors = []\<rparr>]) stringify ''old'' ''new'' pod_identity
       = Inl (TreeError m)"
  by (simp add: build_apply_body_def build_minimal_ssa_def compute_ops_def parse_or_throw_def Let_def
      diff_node_def diff_map.simps all_keys_def strip_entry_def own_key_count_def
      minimal_ssa_tree_def identity_root_def pod_identity_def apply_op_to_tree_def)

end
