(* ===== verification/MutationSafety.thy ===== *)
theory MutationSafety
  imports Mutations YamlReplay
begin

text \<open>
  Correctness of the optimistic mutations: the rollback restores the cache, the optimistic
  update reaches every cached list, the request claims one field, and success is announced after
  the cache was reconciled; a rollback also undoes what the stream wrote in between.
\<close>

section \<open>The cache\<close>

lemma lawful_get_set:
  "lawful_cache ops \<Longrightarrow> qo_get ops (qo_set ops k v c) k' =
     (if k' = k \<and> v \<noteq> JUndefined then v else qo_get ops c k')"
  by (simp only: lawful_cache_def)

lemma lawful_keys: "lawful_cache ops \<Longrightarrow> qo_get ops c k \<noteq> JUndefined \<Longrightarrow> k \<in> set (qo_keys ops c)"
  by (simp add: lawful_cache_def)

lemma lawful_distinct: "lawful_cache ops \<Longrightarrow> distinct (qo_keys ops c)"
  by (simp add: lawful_cache_def)

text \<open>Writing entries one after the other: the last write of a key wins, undefined is skipped.\<close>

lemma get_write_all:
  assumes "lawful_cache ops" "\<forall>(k', v) \<in> set kvs. v = f k'"
  shows "qo_get ops (fold (\<lambda>(k, v). qo_set ops k v) kvs c) k =
    (if k \<in> fst ` set kvs \<and> f k \<noteq> JUndefined then f k else qo_get ops c k)"
  using assms(2)
  by (induction kvs arbitrary: c) (auto simp: lawful_get_set [OF assms(1)])

lemma get_set_lists:
  assumes "lawful_cache ops"
  shows "qo_get ops (set_lists ops pfx f c) k =
    (if k \<in> set (qo_keys ops c) \<and> is_list_key pfx k \<and> f (qo_get ops c k) \<noteq> JUndefined
     then f (qo_get ops c k) else qo_get ops c k)"
proof -
  have "qo_get ops (fold (\<lambda>k c. qo_set ops k (f (qo_get ops c k)) c) ks c) k =
      (if k \<in> set ks \<and> f (qo_get ops c k) \<noteq> JUndefined then f (qo_get ops c k) else qo_get ops c k)"
    if "distinct ks" for ks
    using that by (induction ks arbitrary: c) (auto simp: lawful_get_set [OF assms])
  from this [of "filter (is_list_key pfx) (qo_keys ops c)"] show ?thesis
    by (auto simp: set_lists_def lawful_distinct [OF assms])
qed

lemma with_items_undefined [simp]: "with_items kind f JUndefined = JUndefined"
  by (simp add: with_items_def)

lemma with_items_defined: "v \<noteq> JUndefined \<Longrightarrow> with_items kind f v \<noteq> JUndefined"
  by (auto simp: with_items_def Let_def split: option.splits jsval.splits)

text \<open>The change of one cached list.\<close>

definition list_change :: "mutation \<Rightarrow> jsval \<Rightarrow> jsval" where
  "list_change m prev =
     (case m of
        ScaleResource kind ns name n \<Rightarrow>
          patch_row_in_list prev kind (named_row name (JStr ns)) (with_field ''replicas'' (JNum n))
      | ToggleCordon name b \<Rightarrow>
          patch_row_in_list prev ''nodes'' (JObj [(''name'', JStr name)]) (with_field ''unschedulable'' (JBool b))
      | ToggleSuspend ns name b \<Rightarrow>
          patch_row_in_list prev ''cronjobs'' (named_row name (JStr ns)) (with_field ''suspend'' (JBool b))
      | DeleteResource kind ns name \<Rightarrow>
          (if kind = ''pods''
           then patch_row_in_list prev kind (named_row name (optional_ns ns))
                  (with_field ''phase'' (JStr ''Terminating''))
           else remove_row_from_list prev kind (named_row name (optional_ns ns)))
      | _ \<Rightarrow> prev)"

lemma row_updates_undefined [simp]:
  "patch_row_in_list v kind t p = JUndefined \<longleftrightarrow> v = JUndefined"
  "remove_row_from_list v kind t = JUndefined \<longleftrightarrow> v = JUndefined"
  using with_items_defined [of v] by (auto simp: patch_row_in_list_def remove_row_from_list_def)

lemma list_change_undefined: "list_change m v = JUndefined \<longleftrightarrow> v = JUndefined"
  by (cases m) (simp_all add: list_change_def)

lemma list_change_of_undefined [simp]: "list_change m JUndefined = JUndefined"
  by (simp add: list_change_undefined)

lemma patch_detail_undefined [simp]: "patch_detail k v prev = JUndefined \<longleftrightarrow> prev = JUndefined"
  by (auto simp: patch_detail_def with_field_def)

lemma patch_detail_of_undefined [simp]: "patch_detail k v JUndefined = JUndefined"
  by simp

text \<open>
  The six hooks have one shape: a field shown in the detail, and a change of every list.
\<close>

fun shown_field :: "mutation \<Rightarrow> (string \<times> jsval) option" where
  "shown_field (ScaleResource kind ns name n) = Some (''replicas'', JNum n)"
| "shown_field (ToggleCordon name b) = Some (''unschedulable'', JBool b)"
| "shown_field (ToggleSuspend ns name b) = Some (''suspend'', JBool b)"
| "shown_field (EditLabels kind ns name labels) = Some (''labels'', JObj labels)"
| "shown_field m = None"

lemma optimistic_shape:
  "apply_optimistic ops cluster m c =
     (let c1 = (case shown_field m of
                  Some (k, v) \<Rightarrow> update_entry ops (detail_key cluster m) (patch_detail k v) c
                | None \<Rightarrow> c)
      in if patches_lists m then set_lists ops (kind_prefix cluster m) (list_change m) c1 else c1)"
  by (cases m)
     (simp_all add: list_change_def [abs_def] scale_optimistic_def labels_optimistic_def cordon_optimistic_def
       suspend_optimistic_def delete_optimistic_def)

text \<open>The keys of the lists and of the detail differ.\<close>

lemma detail_not_list: "\<not> is_list_key pfx (detail_key cluster m)"
  by (simp add: is_list_key_def kind_detail_def)

lemma get_optimistic:
  assumes "lawful_cache ops"
  shows "qo_get ops (apply_optimistic ops cluster m c) k =
    (if k = detail_key cluster m
     then (case shown_field m of Some (f, v) \<Rightarrow> patch_detail f v (qo_get ops c k) | None \<Rightarrow> qo_get ops c k)
     else if patches_lists m \<and> is_list_key (kind_prefix cluster m) k
     then list_change m (qo_get ops c k) else qo_get ops c k)"
proof -
  define c1 where "c1 = (case shown_field m of
      Some (f, v) \<Rightarrow> update_entry ops (detail_key cluster m) (patch_detail f v) c | None \<Rightarrow> c)"
  have c1: "qo_get ops c1 k = (if k = detail_key cluster m
      then (case shown_field m of Some (f, v) \<Rightarrow> patch_detail f v (qo_get ops c k) | None \<Rightarrow> qo_get ops c k)
      else qo_get ops c k)" for k
    by (auto simp: c1_def update_entry_def lawful_get_set [OF assms] split: option.splits)
  have "qo_get ops (set_lists ops (kind_prefix cluster m) (list_change m) c1) k =
      (if is_list_key (kind_prefix cluster m) k then list_change m (qo_get ops c1 k) else qo_get ops c1 k)"
    using lawful_keys [OF assms, of c1 k]
    by (cases "qo_get ops c1 k = JUndefined") (simp_all add: get_set_lists [OF assms] list_change_undefined)
  then show ?thesis
    using detail_not_list [of "kind_prefix cluster m" cluster m]
    by (auto simp: optimistic_shape c1_def [symmetric] c1)
qed

lemma get_rollback:
  assumes "lawful_cache ops"
  shows "qo_get ops (rollback ops cluster m (take_snapshot ops cluster m c) c2) k =
    (if qo_get ops c k \<noteq> JUndefined \<and> (k = detail_key cluster m \<or>
        patches_lists m \<and> is_list_key (kind_prefix cluster m) k)
     then qo_get ops c k else qo_get ops c2 k)"
proof -
  define snap where "snap = take_snapshot ops cluster m c"
  have entries: "\<forall>(k', v) \<in> set (sn_lists snap). v = qo_get ops c k'"
    by (auto simp: snap_def take_snapshot_def get_lists_def)
  have listed: "k \<in> fst ` set (sn_lists snap) \<and> qo_get ops c k \<noteq> JUndefined \<longleftrightarrow>
      patches_lists m \<and> is_list_key (kind_prefix cluster m) k \<and> qo_get ops c k \<noteq> JUndefined"
    using lawful_keys [OF assms, of c k]
    by (auto simp: snap_def take_snapshot_def get_lists_def image_iff)
  have "sn_detail snap = qo_get ops c (detail_key cluster m)"
    by (simp add: snap_def take_snapshot_def)
  then show ?thesis
    unfolding snap_def [symmetric] rollback_def get_write_all [OF assms entries] listed
    by (auto simp: lawful_get_set [OF assms])
qed

section \<open>Properties\<close>

text \<open>
  C11: A failed mutation leaves no trace: rolling back the optimistic update gives every entry of the
  cache its old value, for each of the six mutations.
\<close>

theorem rollback_restores_cache:
  assumes "lawful_cache ops"
  shows "qo_get ops (rollback ops cluster m (take_snapshot ops cluster m c)
    (apply_optimistic ops cluster m c)) k = qo_get ops c k"
  by (auto simp: get_rollback [OF assms] get_optimistic [OF assms] split: option.splits)

text \<open>A cache as an association list.\<close>

definition alist_cache :: "(query_key \<times> jsval) list query_ops" where
  "alist_cache =
     \<lparr>qo_get = (\<lambda>c k. case map_of c k of Some v \<Rightarrow> v | None \<Rightarrow> JUndefined),
      qo_set = (\<lambda>k v c. if v = JUndefined then c else AList.update k v c),
      qo_keys = (\<lambda>c. remdups (map fst c))\<rparr>"

lemma alist_cache_lawful: "lawful_cache alist_cache"
  by (auto simp: lawful_cache_def alist_cache_def update_conv' split: option.splits)
     (metis domI dom_map_of_conv_image_fst)

definition web_scaled :: mutation where
  "web_scaled = ScaleResource ''deployments'' ''shop'' ''web'' 5"

definition deployment_row :: "string \<Rightarrow> int \<Rightarrow> jsval" where
  "deployment_row name n =
     JObj [(''name'', JStr name), (''namespace'', JStr ''shop''), (''replicas'', JNum n)]"

definition deployments_of :: "jsval list \<Rightarrow> jsval" where
  "deployments_of rows = JObj [(''deployments'', JArr rows)]"

definition shop_list :: query_key where
  "shop_list = query_key (QCluster ''prod'' (CKind ''deployments'' (KList ''shop'')))"

lemma rollback_restores_cache_witness:
  "let c = [(shop_list, deployments_of [deployment_row ''web'' 3])]
   in qo_get alist_cache (rollback alist_cache ''prod'' web_scaled
        (take_snapshot alist_cache ''prod'' web_scaled c)
        (apply_optimistic alist_cache ''prod'' web_scaled c)) shop_list =
      deployments_of [deployment_row ''web'' 3]"
  unfolding Let_def rollback_restores_cache [OF alist_cache_lawful]
  by (simp add: alist_cache_def)

lemma filter_length_same: "length (filter P xs) = length xs \<Longrightarrow> filter P xs = xs"
  by (metis filter_True length_filter_less less_irrefl)

text \<open>
  A deleted object disappears from every list the cache holds of its kind, the list over all
  namespaces included, and no other row does (pods stay, marked as terminating).
\<close>

theorem delete_hides_row_everywhere:
  assumes "lawful_cache ops" "kind \<noteq> ''pods''" "map_of list_items_key kind = Some field"
    "is_list_key (kind_prefix cluster (DeleteResource kind ns name)) k"
    "js_truthy (qo_get ops c k)" "get_prop (qo_get ops c k) field = JArr items"
  shows "get_prop (qo_get ops (apply_optimistic ops cluster (DeleteResource kind ns name) c) k) field =
    JArr (filter (\<lambda>row. identity_for kind row \<noteq>
      identity_for kind (named_row name (optional_ns ns))) items)"
proof -
  define m where "m = DeleteResource kind ns name"
  have "k \<noteq> detail_key cluster m" using assms(4) detail_not_list m_def by metis
  then have "qo_get ops (apply_optimistic ops cluster m c) k = list_change m (qo_get ops c k)"
    using assms(4) unfolding get_optimistic [OF assms(1)] by (simp add: m_def)
  also have "\<dots> = remove_row_from_list (qo_get ops c k) kind (named_row name (optional_ns ns))"
    using assms(2) by (simp add: list_change_def m_def)
  finally show ?thesis
    using assms(3,5,6)
    by (auto simp: m_def remove_row_from_list_def with_items_def drop_row_def get_prop_obj Let_def
        dest!: filter_length_same)
qed

lemma delete_hides_row_everywhere_witness:
  "get_prop (qo_get alist_cache (apply_optimistic alist_cache ''prod''
       (DeleteResource ''deployments'' ''shop'' ''web'')
       [(shop_list, deployments_of [deployment_row ''web'' 3, deployment_row ''api'' 1])]) shop_list) ''deployments''
   = JArr [deployment_row ''api'' 1]"
proof -
  define c where "c = [(shop_list, deployments_of [deployment_row ''web'' 3, deployment_row ''api'' 1])]"
  have "map_of list_items_key ''deployments'' = Some ''deployments''" by code_simp
  moreover have "is_list_key (kind_prefix ''prod'' (DeleteResource ''deployments'' ''shop'' ''web'')) shop_list"
    by code_simp
  moreover have "js_truthy (qo_get alist_cache c shop_list)"
    "get_prop (qo_get alist_cache c shop_list) ''deployments'' =
      JArr [deployment_row ''web'' 3, deployment_row ''api'' 1]"
    by (simp_all add: c_def alist_cache_def deployments_of_def get_prop_obj)
  ultimately have "get_prop (qo_get alist_cache (apply_optimistic alist_cache ''prod''
        (DeleteResource ''deployments'' ''shop'' ''web'') c) shop_list) ''deployments'' =
      JArr (filter (\<lambda>row. identity_for ''deployments'' row \<noteq> identity_for ''deployments''
        (named_row ''web'' (JStr ''shop'')))
        [deployment_row ''web'' 3, deployment_row ''api'' 1])"
    using delete_hides_row_everywhere [OF alist_cache_lawful, of "''deployments''" "''deployments''" "''prod''"
        "''shop''" "''web''" shop_list c] by (simp add: optional_ns_def)
  moreover have "filter (\<lambda>row. identity_for ''deployments'' row \<noteq> identity_for ''deployments''
        (named_row ''web'' (JStr ''shop'')))
        [deployment_row ''web'' 3, deployment_row ''api'' 1] = [deployment_row ''api'' 1]"
    by code_simp
  ultimately show ?thesis by (simp only: c_def)
qed

section \<open>The request\<close>

lemmas tree_simps = minimal_ssa_tree_def identity_root_def apply_op_to_tree_def

text \<open>
  A quick action claims one field and nothing else: the body it applies holds the identity of
  the object and exactly the field of the action, so that server-side apply leaves every other
  field to its manager.
\<close>

theorem quick_action_claims_one_field:
  "(case scale_body meta ns name n of (patch, idt) \<Rightarrow> minimal_ssa_tree patch idt) =
     Inr (JObj (own_entries (identity_root (snd (scale_body meta ns name n))) @
       [(''spec'', JObj [(''replicas'', JNum n)])])) \<and>
   (case cordon_body meta name b of (patch, idt) \<Rightarrow> minimal_ssa_tree patch idt) =
     Inr (JObj (own_entries (identity_root (snd (cordon_body meta name b))) @
       [(''spec'', JObj [(''unschedulable'', JBool b)])])) \<and>
   (case suspend_body meta ns name b of (patch, idt) \<Rightarrow> minimal_ssa_tree patch idt) =
     Inr (JObj (own_entries (identity_root (snd (suspend_body meta ns name b))) @
       [(''spec'', JObj [(''suspend'', JBool b)])])) \<and>
   (case restart_body meta ns name at of (patch, idt) \<Rightarrow> minimal_ssa_tree patch idt) =
     Inr (JObj (own_entries (identity_root (snd (restart_body meta ns name at))) @
       [(''spec'', JObj [(''template'', JObj [(''metadata'', JObj [(''annotations'',
          JObj [(''kubectl.kubernetes.io/restartedAt'', JStr at)])])])])])) \<and>
   (case labels_body meta ns name labels of (patch, idt) \<Rightarrow> minimal_ssa_tree patch idt) =
     Inr (JObj [(''apiVersion'', JStr (group_version meta)), (''kind'', JStr (km_kind meta)),
       (''metadata'', JObj ([(''name'', JStr name)] @ (if ns \<noteq> [] then [(''namespace'', JStr ns)] else []) @
         [(''labels'', JObj labels)]))])"
  by (cases "ns = []")
     (simp_all add: tree_simps scale_body_def cordon_body_def suspend_body_def restart_body_def labels_body_def)

section \<open>The order of effects\<close>

definition reconciled :: "string \<Rightarrow> mutation \<Rightarrow> mutation_effect list \<Rightarrow> bool" where
  "reconciled cluster m log \<longleftrightarrow>
     {EffCancel (detail_key cluster m), EffCancel (kind_prefix cluster m),
      EffInvalidate (detail_key cluster m), EffInvalidate (meta_key cluster m),
      EffInvalidate (kind_prefix cluster m)} \<subseteq> set log"

text \<open>What the log already holds in each phase.\<close>

fun phase_log :: "string \<Rightarrow> mutation \<Rightarrow> mutation_phase \<Rightarrow> mutation_effect set" where
  "phase_log cluster m MuCancelDetail = {EffCancel (detail_key cluster m)}"
| "phase_log cluster m MuDone = {}"
| "phase_log cluster m ph =
     {EffCancel (detail_key cluster m), EffCancel (kind_prefix cluster m)} \<union>
     (if ph \<in> {MuDetail, MuMeta, MuList} then {EffInvalidate (detail_key cluster m)} else {}) \<union>
     (if ph \<in> {MuMeta, MuList} then {EffInvalidate (meta_key cluster m)} else {}) \<union>
     (if ph = MuList then {EffInvalidate (kind_prefix cluster m)} else {})"

definition effects_inv :: "string \<Rightarrow> mutation set \<Rightarrow> 'c mutations \<Rightarrow> bool" where
  "effects_inv cluster started s \<longleftrightarrow>
     (\<forall>(m, ph) \<in> set (ms_runs s). m \<in> started \<and> phase_log cluster m ph \<subseteq> set (ms_log s)) \<and>
     (\<forall>j < length (ms_log s). \<forall>msg. ms_log s ! j = EffSuccess msg \<longrightarrow>
        (\<exists>m \<in> started. msg = success_toast m \<and> reconciled cluster m (take j (ms_log s))))"

lemma effects_inv_cache [simp]: "effects_inv cluster ms (s\<lparr>ms_cache := c\<rparr>) = effects_inv cluster ms s"
  by (simp add: effects_inv_def)

lemma effects_inv_set_run:
  assumes "effects_inv cluster ms s" "i < length (ms_runs s)" "ms_runs s ! i = (m, ph)"
    "phase_log cluster m ph' \<subseteq> phase_log cluster m ph \<union> set effs"
    "effs = [] \<or> (\<exists>eff. effs = [eff] \<and> (\<forall>msg. eff = EffSuccess msg \<longrightarrow>
        msg = success_toast m \<and> ph = MuList))"
  shows "effects_inv cluster ms (set_run i ph' effs s)"
proof -
  have m: "m \<in> ms" "phase_log cluster m ph \<subseteq> set (ms_log s)"
    using assms(1,2,3) nth_mem [of i "ms_runs s"] by (auto simp: effects_inv_def)
  have "reconciled cluster m (ms_log s)" if "ph = MuList"
    using m that by (simp add: reconciled_def)
  then show ?thesis
    using assms m
    by (auto simp: effects_inv_def set_run_def nth_append less_Suc_eq dest!: set_update_subset_insert [THEN subsetD])
qed

lemma effects_inv_step:
  assumes "effects_inv cluster ms s"
  shows "effects_inv cluster (ms \<union> {m. e = MuStart m}) (mutation_step ops cluster s e)"
proof (cases e)
  case (MuStart m)
  then show ?thesis
    using assms by (auto simp: effects_inv_def start_mutation_def nth_append less_Suc_eq)
next
  case (MuAdvance i)
  obtain m ph where run: "ms_runs s ! i = (m, ph)" by fastforce
  then show ?thesis
    using MuAdvance assms
    by (cases ph) (auto simp: advance_def intro!: effects_inv_set_run [where m = m and ph = ph])
next
  case (MuSettle i answer)
  obtain m ph where run: "ms_runs s ! i = (m, ph)" by fastforce
  then show ?thesis
    using MuSettle assms
    by (cases ph; cases answer)
       (auto simp: settle_mutation_def intro!: effects_inv_set_run [where m = m and ph = ph])
qed (use assms in simp)

text \<open>
  C17: Success is announced only after the cache was reconciled: a success toast comes from a
  mutation that was started, after the queries of its object were cancelled and its detail, its
  meta (which the drift banner reads) and the lists of its kind were invalidated.
\<close>

theorem success_follows_reconciliation:
  assumes "j < length (ms_log (mutation_run ops cluster c es))"
    "ms_log (mutation_run ops cluster c es) ! j = EffSuccess msg"
  shows "\<exists>m. MuStart m \<in> set es \<and> msg = success_toast m \<and>
    reconciled cluster m (take j (ms_log (mutation_run ops cluster c es)))"
proof -
  have "effects_inv cluster {m. MuStart m \<in> set es} (mutation_run ops cluster c es)"
  proof (induction es rule: rev_induct)
    case Nil
    show ?case by (simp add: mutation_run_def effects_inv_def)
  next
    case (snoc e es)
    have "{m. MuStart m \<in> set (es @ [e])} = {m. MuStart m \<in> set es} \<union> {m. e = MuStart m}" by auto
    then show ?case using effects_inv_step [OF snoc, of e ops] by (simp add: mutation_run_def)
  qed
  then show ?thesis using assms by (auto simp: effects_inv_def)
qed

definition scaling_succeeds :: "mutation_event list" where
  "scaling_succeeds =
     [MuStart web_scaled, MuAdvance 0, MuAdvance 0, MuSettle 0 (Inr JNull),
      MuAdvance 0, MuAdvance 0, MuAdvance 0]"

lemma success_follows_reconciliation_witness:
  "\<exists>m. MuStart m \<in> set scaling_succeeds \<and> ''scaled web to 5'' = success_toast m \<and>
     reconciled ''prod'' m (take 5 (ms_log (mutation_run alist_cache ''prod'' [] scaling_succeeds)))"
proof -
  have log: "length (ms_log (mutation_run alist_cache ''prod'' [] scaling_succeeds)) = 6"
    "ms_log (mutation_run alist_cache ''prod'' [] scaling_succeeds) ! 5 = EffSuccess ''scaled web to 5''"
    by code_simp+
  show ?thesis
    using success_follows_reconciliation [of 5 alist_cache "''prod''" "[]" scaling_succeeds] log by simp
qed

text \<open>
  The snapshot also undoes what others wrote meanwhile: a row the stream removed while the
  request was in flight is back after the request failed.
\<close>

theorem rollback_undoes_stream_delete:
  "qo_get alist_cache (ms_cache (mutation_run alist_cache ''prod''
     [(shop_list, deployments_of [deployment_row ''web'' 3, deployment_row ''api'' 1])]
     [MuStart web_scaled, MuAdvance 0, MuAdvance 0,
      MuWrite shop_list (deployments_of [deployment_row ''web'' 5]),
      MuSettle 0 (Inl (ThrownError ''offline''))])) shop_list =
   deployments_of [deployment_row ''web'' 3, deployment_row ''api'' 1]"
  by code_simp

end
