(* ===== verification/ReplicaSetView.thy ===== *)
theory ReplicaSetView
  imports Display TableSelection "HOL-Library.Multiset" "HOL-Library.AList"
begin

text \<open>
  Model of the list of replica sets by deployment (\<open>web/src/pages/ReplicaSetsPage.tsx\<close>) and of
  the helpers of the detail overlay (\<open>components/page/detailOverlayHelpers.ts\<close>): widths, keys and
  the neighbours that j and k lead to. The comparison of strings by locale is a parameter.
\<close>

section \<open>Replica sets by deployment\<close>

record replica_set =
  rs_namespace :: string
  rs_name :: string
  rs_owner :: string
  rs_desired :: int
  rs_created :: string

definition rs_key :: "replica_set \<Rightarrow> string" where
  "rs_key r = rs_namespace r @ ''/'' @ rs_name r"

definition is_active_rs :: "replica_set \<Rightarrow> bool" where
  "is_active_rs r = (0 < rs_desired r)"

definition parse_owner_name :: "string \<Rightarrow> string" where
  "parse_owner_name owner = (if CHR ''/'' \<in> set owner then split_on (CHR ''/'') owner ! 1 else owner)"

definition last_index_of :: "char \<Rightarrow> string \<Rightarrow> nat option" where
  "last_index_of c s = (if c \<in> set s then Some (length s - 1 - length (takeWhile (\<lambda>x. x \<noteq> c) (rev s))) else None)"

definition split_rs_name :: "string \<Rightarrow> string \<Rightarrow> string \<times> string" where
  "split_rs_name name owner =
     (if owner \<noteq> [] \<and> starts_with (owner @ ''-'') name then (owner, drop (length owner + 1) name)
      else case last_index_of (CHR ''-'') name of
             Some i \<Rightarrow> if 0 < i then (take i name, drop (i + 1) name) else (name, [])
           | None \<Rightarrow> (name, []))"

record rs_group =
  gr_key :: string
  gr_namespace :: string
  gr_deployment :: string
  gr_active :: "replica_set option"
  gr_dormant :: "replica_set list"

definition group_key :: "replica_set \<Rightarrow> string" where
  "group_key r = rs_namespace r @ ''/'' @ parse_owner_name (rs_owner r)"

definition into_group :: "replica_set \<Rightarrow> rs_group \<Rightarrow> rs_group" where
  "into_group r g =
     (if is_active_rs r then g\<lparr>gr_active := Some r\<rparr> else g\<lparr>gr_dormant := gr_dormant g @ [r]\<rparr>)"

definition empty_group :: "replica_set \<Rightarrow> rs_group" where
  "empty_group r =
     \<lparr>gr_key = group_key r, gr_namespace = rs_namespace r, gr_deployment = parse_owner_name (rs_owner r),
      gr_active = None, gr_dormant = []\<rparr>"

definition collect_rs ::
  "replica_set \<Rightarrow> (string \<times> rs_group) list \<times> replica_set list \<Rightarrow> (string \<times> rs_group) list \<times> replica_set list" where
  "collect_rs r acc =
     (let (gs, alone) = acc
      in if rs_owner r = [] then (gs, alone @ [r])
         else (AList.update (group_key r)
                 (into_group r (case map_of gs (group_key r) of None \<Rightarrow> empty_group r | Some g \<Rightarrow> g)) gs, alone))"

definition compare_groups :: "(string \<Rightarrow> string \<Rightarrow> int) \<Rightarrow> rs_group \<Rightarrow> rs_group \<Rightarrow> int" where
  "compare_groups lc a b =
     (if (gr_active a \<noteq> None) \<noteq> (gr_active b \<noteq> None) then (if gr_active a \<noteq> None then -1 else 1)
      else lc (gr_deployment a) (gr_deployment b))"

definition group_replica_sets ::
  "(string \<Rightarrow> string \<Rightarrow> int) \<Rightarrow> replica_set list \<Rightarrow> rs_group list \<times> replica_set list" where
  "group_replica_sets lc filtered =
     (let (gs, alone) = fold collect_rs filtered ([], []);
          newest = (\<lambda>g. g\<lparr>gr_dormant := sort_by (\<lambda>a b. lc (rs_created b) (rs_created a)) (gr_dormant g)\<rparr>)
      in (sort_by (compare_groups lc) (map (newest \<circ> snd) gs), alone))"

definition total_active :: "replica_set list \<Rightarrow> nat" where
  "total_active rs = length (filter is_active_rs rs)"

definition toggle_group :: "string \<Rightarrow> string set \<Rightarrow> string set" where
  "toggle_group k s = (if k \<in> s then s - {k} else insert k s)"

definition group_rows :: "rs_group \<Rightarrow> replica_set list" where
  "group_rows g = (case gr_active g of None \<Rightarrow> [] | Some r \<Rightarrow> [r]) @ gr_dormant g"

definition visible_ids :: "string set \<Rightarrow> bool \<Rightarrow> rs_group list \<Rightarrow> replica_set list \<Rightarrow> string list" where
  "visible_ids expanded searching groups alone =
     concat (map (\<lambda>g. (case gr_active g of None \<Rightarrow> [] | Some r \<Rightarrow> [rs_key r])
                     @ (if gr_key g \<in> expanded \<or> searching then map rs_key (gr_dormant g) else [])) groups)
     @ map rs_key alone"

section \<open>The overlay\<close>

definition clamp_width :: "int \<Rightarrow> int \<Rightarrow> int \<Rightarrow> int \<Rightarrow> int" where
  "clamp_width value mn mx container =
     (let upper = min mx (container * 95 div 100)
      in if value < mn then mn else if upper < value then upper else value)"

definition is_narrow_viewport :: "int \<Rightarrow> int \<Rightarrow> bool" where
  "is_narrow_viewport container initial = (0 < container \<and> container < initial + 180)"

definition effective_width :: "int \<Rightarrow> int \<Rightarrow> int \<Rightarrow> int \<Rightarrow> int \<Rightarrow> int" where
  "effective_width width initial mn mx container =
     (if is_narrow_viewport container initial then container else clamp_width width mn mx container)"

definition pick_neighbors :: "('r \<Rightarrow> string) \<Rightarrow> 'r list \<Rightarrow> string \<Rightarrow> 'r option \<times> 'r option" where
  "pick_neighbors key rows sel =
     (case position sel (map key rows) of
        None \<Rightarrow> (None, None)
      | Some i \<Rightarrow> (if 0 < i then Some (rows ! (i - 1)) else None,
                  if i < length rows - 1 then Some (rows ! (i + 1)) else None))"

datatype 'r nav = NavDismiss | NavTo 'r

definition overlay_nav :: "('r \<Rightarrow> string) \<Rightarrow> 'r list \<Rightarrow> string option \<Rightarrow> string \<Rightarrow> 'r nav option" where
  "overlay_nav key rows selected k =
     (case selected of
        None \<Rightarrow> None
      | Some sel \<Rightarrow>
          (let (prv, nxt) = pick_neighbors key rows sel
           in if k = ''Escape'' then Some NavDismiss
              else if k = ''j'' \<or> k = ''ArrowDown'' then map_option NavTo nxt
              else if k = ''k'' \<or> k = ''ArrowUp'' then map_option NavTo prv
              else None))"

section \<open>What the list shows\<close>

lemma mset_concat_update:
  "distinct (map fst gs) \<Longrightarrow>
   mset (concat (map (f \<circ> snd) (AList.update k v gs))) + (case map_of gs k of None \<Rightarrow> {#} | Some g \<Rightarrow> mset (f g))
     = mset (concat (map (f \<circ> snd) gs)) + mset (f v)"
proof (induction gs)
  case (Cons p gs)
  obtain a b where p: "p = (a, b)" by fastforce
  show ?case
  proof (cases "a = k")
    case True
    then have "map_of gs k = None" using Cons.prems p by (auto simp: map_of_eq_None_iff)
    then show ?thesis using True p by simp
  next
    case False
    then show ?thesis using Cons p by (simp add: ac_simps)
  qed
qed simp

definition collected :: "replica_set list \<Rightarrow> (string \<times> rs_group) list \<times> replica_set list \<Rightarrow> bool" where
  "collected rs acc =
     (distinct (map fst (fst acc))
      \<and> mset (concat (map (group_rows \<circ> snd) (fst acc))) + mset (snd acc) = mset rs
      \<and> (\<forall>k g a. map_of (fst acc) k = Some g \<and> gr_active g = Some a \<longrightarrow>
           a \<in> set rs \<and> is_active_rs a \<and> rs_owner a \<noteq> [] \<and> group_key a = k))"

lemma collected_step:
  assumes "collected rs acc"
    and one: "\<forall>a \<in> set rs. is_active_rs a \<and> is_active_rs r \<and> rs_owner a \<noteq> [] \<and> group_key a = group_key r
      \<longrightarrow> rs_owner r = []"
  shows "collected (rs @ [r]) (collect_rs r acc)"
proof -
  obtain gs alone where acc: "acc = (gs, alone)" by fastforce
  have d: "distinct (map fst gs)" and ms: "mset (concat (map (group_rows \<circ> snd) gs)) + mset alone = mset rs"
    and act: "\<forall>k g a. map_of gs k = Some g \<and> gr_active g = Some a \<longrightarrow>
        a \<in> set rs \<and> is_active_rs a \<and> rs_owner a \<noteq> [] \<and> group_key a = k"
    using assms(1) by (simp_all add: collected_def acc)
  show ?thesis
  proof (cases "rs_owner r = []")
    case True
    then show ?thesis using d ms act by (auto simp: collected_def collect_rs_def acc)
  next
    case False
    let ?k = "group_key r"
    let ?g = "case map_of gs ?k of None \<Rightarrow> empty_group r | Some g \<Rightarrow> g"
    have none: "gr_active ?g = None" if "is_active_rs r"
      using act one that False
      by (cases "map_of gs ?k"; cases "gr_active ?g") (auto simp: empty_group_def)
    have rows: "mset (group_rows (into_group r ?g)) = mset (group_rows ?g) + {#r#}"
      using none by (auto simp: into_group_def group_rows_def split: option.splits)
    have old: "mset (group_rows ?g) = (case map_of gs ?k of None \<Rightarrow> {#} | Some g \<Rightarrow> mset (group_rows g))"
      by (auto simp: empty_group_def group_rows_def split: option.splits)
    have rows': "mset (concat (map (group_rows \<circ> snd) (AList.update ?k (into_group r ?g) gs)))
        = mset (concat (map (group_rows \<circ> snd) gs)) + {#r#}"
      using mset_concat_update [OF d, of group_rows ?k "into_group r ?g"] unfolding rows old
      by (simp add: add.assoc [symmetric])
    define g0 where "g0 = ?g"
    have keep: "map_of gs ?k = Some g0" if "gr_active g0 = Some a" for a
      using that by (cases "map_of gs ?k") (simp_all add: g0_def empty_group_def)
    have upd: "map_of (AList.update ?k (into_group r g0) gs) = (map_of gs)(?k \<mapsto> into_group r g0)"
      by (rule update_conv')
    have act': "\<forall>k g a. map_of (AList.update ?k (into_group r ?g) gs) k = Some g \<and> gr_active g = Some a \<longrightarrow>
        a \<in> set (rs @ [r]) \<and> is_active_rs a \<and> rs_owner a \<noteq> [] \<and> group_key a = k"
    proof (intro allI impI, elim conjE)
      fix k g a
      assume u0: "map_of (AList.update ?k (into_group r ?g) gs) k = Some g" and ga: "gr_active g = Some a"
      have u: "((map_of gs)(?k \<mapsto> into_group r g0)) k = Some g"
        using u0 unfolding g0_def [symmetric] upd .
      show "a \<in> set (rs @ [r]) \<and> is_active_rs a \<and> rs_owner a \<noteq> [] \<and> group_key a = k"
      proof (cases "k = ?k")
        case True
        then have g: "g = into_group r g0" using u by simp
        show ?thesis
        proof (cases "is_active_rs r")
          case active: True
          then have "a = r" using ga unfolding g by (simp add: into_group_def)
          then show ?thesis using active False True by simp
        next
          case inactive: False
          then have "gr_active g0 = Some a" using ga unfolding g by (simp add: into_group_def)
          then show ?thesis using act [rule_format, of ?k g0 a] keep True by simp
        qed
      next
        case other: False
        then have "map_of gs k = Some g" using u by simp
        then show ?thesis using act [rule_format, of k g a] ga by simp
      qed
    qed
    have step: "collect_rs r acc = (AList.update ?k (into_group r ?g) gs, alone)"
      using False by (simp add: collect_rs_def acc)
    have "distinct (map fst (AList.update ?k (into_group r ?g) gs))" using d by (rule distinct_update)
    moreover have "(mset (concat (map (group_rows \<circ> snd) gs)) + {#r#}) + mset alone = mset (rs @ [r])"
      using ms [symmetric] by simp
    ultimately show ?thesis unfolding step collected_def fst_conv snd_conv rows' using act' by blast
  qed
qed

definition one_active_each :: "replica_set list \<Rightarrow> bool" where
  "one_active_each rs =
     (distinct rs \<and> (\<forall>a \<in> set rs. \<forall>b \<in> set rs.
        is_active_rs a \<and> is_active_rs b \<and> rs_owner a \<noteq> [] \<and> rs_owner b \<noteq> [] \<and> group_key a = group_key b \<longrightarrow> a = b))"

lemma collected_all: "one_active_each rs \<Longrightarrow> collected rs (fold collect_rs rs ([], []))"
proof (induction rs rule: rev_induct)
  case Nil
  show ?case by (simp add: collected_def)
next
  case (snoc r rs)
  then have ih: "collected rs (fold collect_rs rs ([], []))" by (simp add: one_active_each_def)
  have "\<forall>a \<in> set rs. is_active_rs a \<and> is_active_rs r \<and> rs_owner a \<noteq> [] \<and> group_key a = group_key r
      \<longrightarrow> rs_owner r = []"
    using snoc.prems by (auto simp: one_active_each_def)
  from collected_step [OF ih this] show ?case by simp
qed

lemma mset_rows_sorted: "mset (concat (map f (sort_by cmp xs))) = mset (concat (map f xs))"
proof -
  have "mset (concat (map f ys)) = (\<Sum>y\<in>#mset ys. mset (f y))" for ys by (induction ys) simp_all
  then show ?thesis by (simp add: mset_sort_by)
qed

lemma newest_rows:
  "mset (concat (map (group_rows \<circ> (\<lambda>g. g\<lparr>gr_dormant := sort_by cmp (gr_dormant g)\<rparr>) \<circ> snd) gs))
     = mset (concat (map (group_rows \<circ> snd) gs))"
  by (induction gs) (simp_all add: group_rows_def mset_sort_by)

lemma ids_when_searching:
  "visible_ids expanded True groups alone = map rs_key (concat (map group_rows groups) @ alone)"
  by (induction groups) (auto simp: visible_ids_def group_rows_def split: option.splits)

text \<open>
  the grouped list shows each replica set once. When no deployment has two active ones, the
  rows of the groups and the standalone rows are exactly the filtered replica sets, each once,
  whatever their order; and with every group open the ids counted as visible are theirs.
\<close>

theorem grouped_list_is_complete:
  assumes "one_active_each filtered"
  shows "let (groups, alone) = group_replica_sets lc filtered
    in mset (concat (map group_rows groups) @ alone) = mset filtered
       \<and> mset (visible_ids expanded True groups alone) = mset (map rs_key filtered)"
proof -
  obtain gs alone where f: "fold collect_rs filtered ([], []) = (gs, alone)" by fastforce
  let ?newest = "\<lambda>g. g\<lparr>gr_dormant := sort_by (\<lambda>a b. lc (rs_created b) (rs_created a)) (gr_dormant g)\<rparr>"
  have g: "group_replica_sets lc filtered = (sort_by (compare_groups lc) (map (?newest \<circ> snd) gs), alone)"
    by (simp add: group_replica_sets_def f)
  have "mset (concat (map group_rows (sort_by (compare_groups lc) (map (?newest \<circ> snd) gs))))
      = mset (concat (map (group_rows \<circ> snd) gs))"
    using newest_rows [of "\<lambda>a b. lc (rs_created b) (rs_created a)" gs]
    by (simp add: mset_rows_sorted comp_assoc)
  then have m: "mset (concat (map group_rows (sort_by (compare_groups lc) (map (?newest \<circ> snd) gs))) @ alone)
      = mset filtered"
    using collected_all [OF assms] by (simp add: collected_def f)
  then show ?thesis unfolding g Let_def prod.case ids_when_searching
    by (simp only: mset_map m simp_thms)
qed

lemma grouped_list_is_complete_witness:
  "let r = (\<lambda>n d. \<lparr>rs_namespace = ''n'', rs_name = n, rs_owner = ''Deployment/web'', rs_desired = d, rs_created = ''1''\<rparr>);
       (groups, alone) = group_replica_sets (\<lambda>_ _. 0) [r ''web-1'' 0, r ''web-2'' 3]
   in mset (concat (map group_rows groups) @ alone) = mset [r ''web-1'' 0, r ''web-2'' 3]"
proof -
  let ?r = "\<lambda>n d. \<lparr>rs_namespace = ''n'', rs_name = n, rs_owner = ''Deployment/web'', rs_desired = d, rs_created = ''1''\<rparr>"
  have "one_active_each [?r ''web-1'' 0, ?r ''web-2'' 3]"
    by (simp add: one_active_each_def is_active_rs_def)
  from grouped_list_is_complete [OF this, of "\<lambda>_ _. 0"] show ?thesis by (auto simp: Let_def)
qed

text \<open>
  during a rolling update the old replica set disappears: both it and the new one want
  replicas, the group keeps the one that comes later only, and the list and the visible ids miss
  the other, though the bar above counts two as active.
\<close>

theorem rolling_update_hides_one:
  "let r = (\<lambda>n d. \<lparr>rs_namespace = ''n'', rs_name = n, rs_owner = ''Deployment/web'', rs_desired = d, rs_created = ''1''\<rparr>);
       (groups, alone) = group_replica_sets (\<lambda>_ _. 0) [r ''web-1'' 2, r ''web-2'' 1]
   in visible_ids {} True groups alone = [''n/web-2''] \<and> total_active [r ''web-1'' 2, r ''web-2'' 1] = 2"
  by (simp add: group_replica_sets_def collect_rs_def group_key_def parse_owner_name_def into_group_def
      empty_group_def is_active_rs_def sort_by_def visible_ids_def rs_key_def total_active_def Let_def)

section \<open>Moving through the rows\<close>

lemma position_nth: "position x xs = Some i \<Longrightarrow> i < length xs \<and> xs ! i = x"
  by (induction xs arbitrary: i) (auto split: if_splits)

lemma position_distinct: "distinct xs \<Longrightarrow> i < length xs \<Longrightarrow> position (xs ! i) xs = Some i"
proof (induction xs arbitrary: i)
  case (Cons x xs)
  then show ?case by (cases i) auto
qed simp

text \<open>
  j and k undo each other. When the rows have different keys and j leads from the selected
  row to another, k leads from there back to a row with the key selected before.
\<close>

theorem neighbours_undo_each_other:
  assumes "distinct (map key rows)" "overlay_nav key rows (Some sel) ''j'' = Some (NavTo r)"
  shows "\<exists>b. overlay_nav key rows (Some (key r)) ''k'' = Some (NavTo b) \<and> key b = sel"
proof -
  obtain i where i: "position sel (map key rows) = Some i" "i < length rows - 1" "r = rows ! (i + 1)"
    using assms(2) by (auto simp: overlay_nav_def pick_neighbors_def Let_def split: option.splits if_splits)
  have p: "position (key r) (map key rows) = Some (i + 1)"
    using position_distinct [OF assms(1), of "i + 1"] i(2,3) by simp
  have "key (rows ! i) = sel" using position_nth [OF i(1)] i(2) by auto
  then show ?thesis by (auto simp: overlay_nav_def pick_neighbors_def Let_def p)
qed

lemma neighbours_undo_each_other_witness:
  "overlay_nav (\<lambda>s. s) [''a'', ''b'', ''c''] (Some ''b'') ''k'' = Some (NavTo ''a'')"
proof -
  have "overlay_nav (\<lambda>s. s) [''a'', ''b'', ''c''] (Some ''a'') ''j'' = Some (NavTo ''b'')" by code_simp
  from neighbours_undo_each_other [OF _ this] show ?thesis by auto
qed

text \<open>
  the drawer stays inside its window. It is as wide as the window when that is narrow;
  otherwise it is at least its least width and, unless the window is too small for that, at most
  its greatest width and 95 percent of the window.
\<close>

theorem drawer_width_is_bounded:
  "let w = effective_width width initial mn mx container
   in if is_narrow_viewport container initial then w = container
      else (mn \<le> min mx (container * 95 div 100) \<longrightarrow> mn \<le> w \<and> w \<le> mx \<and> w \<le> container * 95 div 100)"
  by (auto simp: effective_width_def clamp_width_def Let_def min_def)

end
