(* ===== verification/SchemaFormSafety.thy ===== *)
theory SchemaFormSafety
  imports SchemaWalker
begin

text \<open>
  Correctness of the schema walker: every property gets one field at its path, every descriptor
  at any depth has the shape the renderer dispatches on, cyclic references are cut, the choice
  of the editor mode sees every required field that cannot be rendered, and what a merge of
  \<open>allOf\<close> entries keeps.
\<close>

section \<open>One field per property\<close>

lemma stamp_section_core [simp]:
  "fd_path (fcore (stamp_section opts p d)) = fd_path (fcore d)"
  "fd_required (fcore (stamp_section opts p d)) = fd_required (fcore d)"
  "fd_type (fcore (stamp_section opts p d)) = fd_type (fcore d)"
  "children (stamp_section opts p d) = children d"
  "branches (stamp_section opts p d) = branches d"
  "shared_children (stamp_section opts p d) = shared_children d"
  by (cases d; simp add: stamp_section_def split: option.split prod.split)+

lemma base_core_simps [simp]:
  "fd_path (base_core opts s path req) = path"
  "fd_required (base_core opts s path req) = req"
  "fd_unsupported_reason (base_core opts s path req) = None"
  "fd_item_type (base_core opts s path req) = None"
  "fd_kv_value_type (base_core opts s path req) = None"
  by (simp_all add: base_core_def plain_core_def)

lemma walk_typed_core:
  "fd_path (fcore (walk_typed opts s path base seen)) = fd_path base \<and>
   fd_required (fcore (walk_typed opts s path base seen)) = fd_required base"
  by (simp add: walk_typed.simps leaf_def unsupported_def Let_def split: option.split)

lemma walk_field_core:
  "fd_path (fcore (walk_field opts raw path req seen)) = path"
  "fd_required (fcore (walk_field opts raw path req seen)) = req"
  by (simp_all add: walk_field.simps walk_field_impl.simps walk_typed_core unsupported_field_def
      leaf_def plain_core_def split: prod.split option.split list.split)

text \<open>
  An object schema gives exactly one field per property, in the order of the schema, at the
  property's path and required exactly when the schema lists it, whatever the property's schema
  is (references, merges, discriminators and unsupported shapes included).
\<close>

theorem object_fields_exact:
  "map (\<lambda>d. (fd_path (fcore d), fd_required (fcore d))) (walk_object opts s path seen) =
   map (\<lambda>(k, child). (path @ [k], k \<in> set (opt_list (sc_required (core s)))))
     (opt_list (properties s))"
  by (simp add: walk_object.simps walk_field_core comp_def case_prod_beta)

section \<open>Descriptors are well formed\<close>

text \<open>What the renderer assumes of a descriptor, at every depth.\<close>

fun wf_field :: "field_descriptor \<Rightarrow> bool" where
  "wf_field (Field c ch br sh) =
     (((fd_type c = FtObject \<or> fd_type c = FtArrayOfObjects) = (ch \<noteq> None)) \<and>
      ((fd_type c = FtDiscriminator) = (br \<noteq> None)) \<and> br \<noteq> Some [] \<and>
      (sh = None \<or> fd_type c = FtDiscriminator) \<and>
      ((fd_type c = FtUnsupported) = (fd_unsupported_reason c \<noteq> None)) \<and>
      (case fd_item_type c of None \<Rightarrow> fd_type c \<noteq> FtArrayOfPrimitives
       | Some t \<Rightarrow> fd_type c = FtArrayOfPrimitives \<and> t \<in> set primitive_types) \<and>
      (case fd_kv_value_type c of None \<Rightarrow> fd_type c \<noteq> FtKvMap
       | Some t \<Rightarrow> fd_type c = FtKvMap \<and> t \<in> set primitive_types) \<and>
      (case ch of None \<Rightarrow> True | Some ds \<Rightarrow> list_all wf_field ds) \<and>
      (case sh of None \<Rightarrow> True | Some ds \<Rightarrow> list_all wf_field ds) \<and>
      (case br of None \<Rightarrow> True
       | Some bs \<Rightarrow> list_all (\<lambda>b. list_all wf_field (br_descriptors b)) bs))"

definition wf_branches :: "discriminator_branch list \<Rightarrow> bool" where
  "wf_branches bs = list_all (\<lambda>b. list_all wf_field (br_descriptors b)) bs"

lemma wf_stamp_section [simp]: "wf_field (stamp_section opts p d) = wf_field d"
  by (cases d) (simp add: stamp_section_def split: option.split prod.split)

lemma wf_stamp_row [simp]: "wf_field (stamp_row r pre d) = wf_field d"
proof (induction r pre d rule: stamp_row.induct)
  case (1 r pre c ch br sh)
  have "list_all wf_field (map (stamp_row r pre) ds) = list_all wf_field ds"
    if "ch = Some ds" "\<not> (fd_type c = FtArrayOfObjects \<or> fd_type c = FtDiscriminator)" for ds
    using "1.IH" [OF that(2,1)] by (simp add: list_all_iff)
  then show ?case by (cases ch) (auto split: option.split prod.split)
qed

lemma wf_stamp_rows [simp]: "list_all wf_field (stamp_rows opts p ds) = list_all wf_field ds"
  by (simp add: stamp_rows_def list_all_iff split: option.split)

definition base_ok :: "field_core \<Rightarrow> bool" where
  "base_ok c \<longleftrightarrow> fd_unsupported_reason c = None \<and> fd_item_type c = None \<and> fd_kv_value_type c = None"

lemma base_ok_base_core [simp]: "base_ok (base_core opts s path req)"
  by (simp add: base_ok_def)

lemma plain_core_simps [simp]:
  "fd_path (plain_core p l t) = p" "fd_type (plain_core p l t) = t"
  "fd_unsupported_reason (plain_core p l t) = None" "fd_item_type (plain_core p l t) = None"
  "fd_kv_value_type (plain_core p l t) = None"
  by (simp_all add: plain_core_def)

lemma wf_unsupported [simp]: "base_ok c \<Longrightarrow> wf_field (unsupported c reason)"
  "wf_field (unsupported_field raw path req reason)"
  by (simp_all add: unsupported_def unsupported_field_def leaf_def base_ok_def)

lemma wf_discriminator:
  "base_ok c \<Longrightarrow> bs \<noteq> [] \<Longrightarrow> wf_branches bs \<Longrightarrow> list_all wf_field (opt_list sh) \<Longrightarrow>
   wf_field (Field (c\<lparr>fd_type := FtDiscriminator\<rparr>) None (Some bs) sh)"
  by (cases sh) (simp_all add: base_ok_def wf_branches_def)

definition wf_hinted ::
  "(discriminator_branch list \<times> field_descriptor list option) option \<Rightarrow> bool" where
  "wf_hinted r =
     (case r of None \<Rightarrow> True
      | Some (bs, sh) \<Rightarrow> bs \<noteq> [] \<and> wf_branches bs \<and> list_all wf_field (opt_list sh))"

lemma wf_hinted_simps [simp]:
  "wf_hinted None"
  "wf_hinted (Some (bs, sh)) \<longleftrightarrow> bs \<noteq> [] \<and> wf_branches bs \<and> list_all wf_field (opt_list sh)"
  by (simp_all add: wf_hinted_def)

definition wf_some_branches :: "discriminator_branch list option \<Rightarrow> bool" where
  "wf_some_branches r = (case r of None \<Rightarrow> True | Some bs \<Rightarrow> wf_branches bs)"

lemma wf_some_branches_simps [simp]:
  "wf_some_branches None" "wf_some_branches (Some bs) \<longleftrightarrow> wf_branches bs"
  by (simp_all add: wf_some_branches_def)

lemma wf_branches_simps [simp]:
  "wf_branches []" "wf_branches [Branch l d s k ds] \<longleftrightarrow> list_all wf_field ds"
  by (simp_all add: wf_branches_def)

lemma wf_branches_concat:
  "(\<And>x. x \<in> set xs \<Longrightarrow> wf_branches (f x)) \<Longrightarrow> wf_branches (concat (map f xs))"
  by (induction xs) (simp_all add: wf_branches_def)

lemma base_ok_core [simp]:
  "base_ok base \<Longrightarrow> fd_unsupported_reason base = None"
  "base_ok base \<Longrightarrow> fd_item_type base = None" "base_ok base \<Longrightarrow> fd_kv_value_type base = None"
  by (simp_all add: base_ok_def)

lemma wf_walk:
  "list_all wf_field (walk_object opts s path seen)"
  "wf_field (walk_field opts s path req seen)"
  "wf_field (walk_field_impl opts s path req seen)"
  "base_ok base \<Longrightarrow> wf_field (walk_typed opts s path base seen)"
  "wf_hinted (build_hinted opts s hint seen)"
  "wf_some_branches (build_branches opts s seen)"
  "list_all wf_field (walk_branch_schema opts s path seen)"
proof (induction opts s path seen and opts s path req seen and opts s path req seen
    and opts s path base seen and opts s hint seen and opts s seen and opts s path seen
    rule: walk_object_walk_field_walk_field_impl_walk_typed_build_hinted_build_branches_walk_branch_schema.induct)
  case (1 opts s path seen)
  then show ?case by (force simp: walk_object.simps list_all_iff)
next
  case (2 opts raw path required seen)
  then show ?case by (simp add: walk_field.simps)
next
  case (3 opts raw path required parent_seen)
  obtain r seen where d: "deref (wo_components opts) raw parent_seen = (r, seen)" by (metis surj_pair)
  show ?case
  proof (cases r)
    case (Some t)
    let ?hinted = "case find_hint opts raw of
        Some hint \<Rightarrow> if properties t \<noteq> None then build_hinted opts t hint seen else None | None \<Rightarrow> None"
    let ?oneof = "if wo_allow_one_of opts \<and> opt_list (one_of t) \<noteq> []
        then build_branches opts t seen else None"
    have h: "wf_hinted ?hinted"
      using "3.IH"(1) [OF d [symmetric] Some]
      by (cases "find_hint opts raw"; cases "properties t = None") auto
    show ?thesis
    proof (cases ?hinted)
      case None
      have "wf_some_branches ?oneof"
        using "3.IH"(2) [OF d [symmetric] Some None] by simp
      moreover have "wf_field (walk_typed opts t path (base_core opts t path required) seen)"
        if "?oneof = None \<or> ?oneof = Some []"
        using that "3.IH"(3) [OF d [symmetric] Some None] "3.IH"(4) [OF d [symmetric] Some None]
        by fastforce
      ultimately show ?thesis
        unfolding walk_field_impl.simps d Some prod.case option.case None
        by (cases ?oneof) (auto simp: wf_some_branches_def wf_branches_def split: list.split)
    next
      case (Some p)
      obtain bs sh where p: "p = (bs, sh)" by (cases p)
      have "wf_field (Field ((base_core opts t path required)\<lparr>fd_type := FtDiscriminator\<rparr>) None
          (Some bs) sh)"
        using h Some p by (intro wf_discriminator) simp_all
      then show ?thesis
        unfolding walk_field_impl.simps d \<open>r = Some t\<close> prod.case option.case Some p .
    qed
  qed (simp add: walk_field_impl.simps d)
next
  case (5 opts s hint parent_seen)
  let ?keys = "filter (\<lambda>k. k \<in> fst ` set (opt_list (properties s))) (dh_branches hint)"
  show ?case
  proof (cases "?keys = []")
    case False
    then obtain k where k0: "k \<in> set ?keys" by (metis list.set_intros(1) list.exhaust)
    then obtain sub where k: "map_of (opt_list (properties s)) k = Some sub"
      by (auto dest: weak_map_of_SomeI)
    have bs: "wf_branches (concat (map (\<lambda>key. case map_of (opt_list (properties s)) key of
          None \<Rightarrow> []
        | Some sub \<Rightarrow>
            [Branch (case map_of (dh_labels hint) key of
                       Some l \<Rightarrow> l | None \<Rightarrow> branch_label_for sub (Some key) 0)
               (sc_description (core sub)) sub (Some key)
               (walk_branch_schema opts sub [key] parent_seen)]) ?keys))" (is "wf_branches ?bs")
      by (rule wf_branches_concat) (use "5.IH"(1) [OF False] in \<open>auto simp: wf_branches_def split: option.splits\<close>)
    have ne: "?bs \<noteq> []" using k0 k by (auto split: option.splits)
    have sh: "list_all wf_field (map (\<lambda>(key, child). walk_field opts child [key]
          (key \<in> set (opt_list (sc_required (core s)))) parent_seen)
        (filter (\<lambda>(key, child). key \<notin> set (dh_branches hint)) (opt_list (properties s))))"
      using "5.IH"(2) [OF False] by (fastforce simp: list_all_iff)
    show ?thesis
      unfolding build_hinted.simps if_not_P [OF False] Let_def wf_hinted_simps
      using bs ne sh by simp
  qed (simp add: build_hinted.simps wf_hinted_def)
next
  case (7 opts s base_path seen)
  then show ?case by (force simp: walk_branch_schema.simps list_all_iff)
next
  case (6 opts s parent_seen)
  let ?oo = "opt_list (one_of s)"
  let ?marker = "properties s \<noteq> None \<and> list_all is_single_required_key_branch ?oo"
  show ?case
  proof (cases "?oo = []")
    case ne: False
    show ?thesis
    proof (cases ?marker)
      case True
      show ?thesis
        unfolding build_branches.simps if_not_P [OF ne] if_P [OF True]
        using "6.IH"(1) [OF ne True]
        by (auto intro!: wf_branches_concat split: option.split)
    next
      case False
      show ?thesis
        unfolding build_branches.simps if_not_P [OF ne] if_not_P [OF False]
        using "6.IH"(2) [OF ne False]
        by (auto intro!: wf_branches_concat split: option.split prod.split)
    qed
  qed (simp add: build_branches.simps)
next
  case (4 opts s path base seen)
  note ok = "4.prems"
  let ?t = "normalize_type (sc_type (core s))"
  let ?bad = "sc_any_of (core s) \<or> one_of s \<noteq> None \<or> all_of s \<noteq> None \<or> sc_pattern_properties (core s)"
  show ?case
  proof (cases "?bad \<or> sc_ref (core s) \<noteq> None \<or> ?t \<notin> {''object'', ''array''}")
    case True
    then show ?thesis
      using ok by (auto simp: walk_typed.simps Let_def leaf_def)
  next
    case plain: False
    then have flat: "\<not> ?bad" "\<not> sc_ref (core s) \<noteq> None" by simp_all
    show ?thesis
    proof (cases "?t = ''object''")
      case True
      then show ?thesis
        using ok flat "4.IH"(1) [OF flat refl refl]
        by (auto simp: walk_typed.simps Let_def leaf_def is_primitive_additional_properties_def
            split: option.split additional_props.split)
    next
      case False
      then have arr: "?t = ''array''" using plain by simp
      show ?thesis
      proof (cases "items s")
        case None
        then show ?thesis using ok flat arr by (simp add: walk_typed.simps Let_def)
      next
        case (Some its)
        let ?r = "row_schema opts its seen"
        let ?it = "normalize_type (sc_type (core ?r))"
        let ?hinted = "case find_hint opts its of
            Some hint \<Rightarrow> (if properties ?r \<noteq> None
                         then build_hinted opts ?r hint (row_seen opts its seen) else None)
          | None \<Rightarrow> None"
        show ?thesis
        proof (cases "wo_allow_array_of_objects opts \<and> ?it = ''object''")
          case True
          have h: "wf_hinted ?hinted"
            using "4.IH"(2) [OF flat refl refl _ _ _ _ arr Some refl _ True] arr True
            by (cases "find_hint opts its"; cases "properties ?r = None") (auto simp: primitive_types_def)
          have w: "?hinted = None \<Longrightarrow> list_all wf_field (walk_object opts ?r [] (row_seen opts its seen))"
            using "4.IH"(3) [OF flat refl refl _ _ _ _ arr Some refl _ True] arr True
            by (simp add: primitive_types_def)
          have "wf_field (Field ((plain_core [] ti FtDiscriminator)\<lparr>fd_description := d\<rparr>) None (Some bs) sh)"
            if "?hinted = Some (bs, sh)" for bs sh ti d
            using h that by (cases sh) (simp_all add: wf_branches_def)
          then show ?thesis
            using ok flat arr True Some w
            by (cases ?hinted) (auto simp: walk_typed.simps Let_def primitive_types_def)
        next
          case False
          then show ?thesis
            using ok flat arr Some by (auto simp: walk_typed.simps Let_def leaf_def)
        qed
      qed
    qed
  qed
qed

lemma wf_build: "list_all wf_field (build_field_descriptors s opts)"
  by (simp add: build_field_descriptors_def wf_walk split: prod.split option.split)

text \<open>
  C7: Every descriptor the walker emits, at any depth and for any schema and options, has the
  shape the renderer dispatches on: objects and object rows carry children, discriminators at
  least one branch, unsupported fields a reason, primitive lists and maps a primitive value
  type, and nothing else carries any of these.
\<close>

theorem descriptors_well_formed:
  "list_all wf_field (build_field_descriptors s opts)"
  by (simp add: build_field_descriptors_def wf_walk split: prod.split option.split)

section \<open>References are followed once\<close>

definition follows :: "components \<Rightarrow> string list \<Rightarrow> string list \<Rightarrow> bool" where
  "follows comps seen seen' \<longleftrightarrow>
     (\<exists>new. seen' = new @ seen \<and> distinct new \<and> set new \<inter> set seen = {} \<and>
        set new \<subseteq> (\<lambda>k. ref_prefix @ k) ` fst ` set (opt_list comps))"

lemma follows_refl [simp]: "follows comps seen seen"
  by (simp add: follows_def)

lemma follows_trans [trans]:
  "follows comps a b \<Longrightarrow> follows comps b c \<Longrightarrow> follows comps a c"
  unfolding follows_def by (elim exE conjE) (rule exI, auto)

lemma follows_ref:
  assumes "comps = Some schemas" "ref \<notin> set seen" "resolve_ref schemas ref = Some t"
  shows "follows comps seen (ref # seen)"
proof -
  obtain k where "ref = ref_prefix @ k" "map_of schemas k = Some t"
    using assms(3) by (auto simp: resolve_ref_def prefix_def split: if_splits)
  then show ?thesis
    using assms(1,2) unfolding follows_def by (intro exI [of _ "[ref]"]) (force dest: map_of_SomeD)
qed

lemma follows_step:
  "comps = Some schemas \<Longrightarrow> ref \<notin> set seen \<Longrightarrow> resolve_ref schemas ref = Some t \<Longrightarrow>
   follows comps (ref # seen) seen' \<Longrightarrow> follows comps seen seen'"
  by (rule follows_trans [OF follows_ref])

lemma merge_follows:
  "follows comps seen (snd (merge_all_of comps s seen))"
  "follows comps seen (snd (resolve_entries comps es seen))"
  "follows comps seen (snd (resolve_entry comps e seen))"
proof (induction comps s seen and comps es seen and comps e seen
    rule: merge_all_of_resolve_entries_resolve_entry.induct)
  case (1 comps s seen)
  then show ?case by (auto simp: merge_all_of.simps split: prod.splits option.splits)
next
  case (3 comps e es seen)
  then show ?case
    by (cases "resolve_entry comps e seen")
       (force intro: follows_trans split: prod.splits option.splits)
next
  case (4 comps e seen)
  then show ?case
    by (subst resolve_entry.simps)
       (auto simp: case_prod_beta intro: follows_step follows_ref split: option.split)
qed simp

lemma flatten_follows: "follows comps seen (snd (flatten comps s seen))"
  by (simp add: flatten_def merge_follows)

text \<open>
  Resolving a schema follows each reference at most once and only references of the document,
  also when the document is cyclic: the references added are new, distinct and name components,
  so there are at most as many as components.
\<close>

theorem references_followed_once:
  "\<exists>new. snd (deref comps s seen) = new @ seen \<and> distinct new \<and> set new \<inter> set seen = {} \<and>
     set new \<subseteq> (\<lambda>k. ref_prefix @ k) ` fst ` set (opt_list comps) \<and>
     length new \<le> length (opt_list comps)"
proof -
  have "follows comps seen (snd (deref comps s seen))"
  proof (induction comps s seen rule: deref.induct)
    case (1 comps s seen)
    show ?case
    proof (cases "\<exists>ref schemas t. sc_ref (core s) = Some ref \<and> comps = Some schemas \<and>
        ref \<notin> set seen \<and> resolve_ref schemas ref = Some t")
      case True
      then obtain ref schemas t where t: "sc_ref (core s) = Some ref" "comps = Some schemas"
        "ref \<notin> set seen" "resolve_ref schemas ref = Some t" by blast
      obtain r seen' where d: "deref comps t (ref # seen) = (r, seen')" by (metis surj_pair)
      have f: "follows comps (ref # seen) seen'" using "1.IH" [OF t] d by simp
      have "snd (deref comps s seen) =
          (case r of None \<Rightarrow> seen' | Some c \<Rightarrow> snd (flatten comps c seen'))"
        by (subst deref.simps) (simp add: t d [unfolded t(2)] case_prod_beta Let_def
            split: option.split)
      moreover have "follows comps (ref # seen) \<dots>"
        using f flatten_follows by (cases r) (auto intro: follows_trans)
      ultimately show ?thesis using follows_step [OF t(2,3,4)] by simp
    next
      case False
      then have "snd (deref comps s seen) = seen \<or>
          snd (deref comps s seen) = snd (flatten comps s seen)"
        by (subst (1 2) deref.simps) (auto simp: case_prod_beta Let_def split: option.splits)
      then show ?thesis using flatten_follows [of comps seen s] by auto
    qed
  qed
  then obtain new where new: "snd (deref comps s seen) = new @ seen" "distinct new"
    "set new \<inter> set seen = {}" "set new \<subseteq> (\<lambda>k. ref_prefix @ k) ` fst ` set (opt_list comps)"
    by (auto simp: follows_def)
  have "length new = card (set new)" using new(2) by (simp add: distinct_card)
  also have "\<dots> \<le> card ((\<lambda>k. ref_prefix @ k) ` fst ` set (opt_list comps))"
    by (rule card_mono [OF _ new(4)]) simp
  also have "\<dots> \<le> card (set (opt_list comps))"
    by (meson card_image_le finite_imageI le_trans List.finite_set)
  also have "\<dots> \<le> length (opt_list comps)" by (rule card_length)
  finally show ?thesis using new by blast
qed

section \<open>The initial mode of an editor\<close>

text \<open>A descriptor and everything the form could show below it.\<close>

definition kids :: "field_descriptor \<Rightarrow> field_descriptor list" where
  "kids d = opt_list (children d) @ opt_list (shared_children d)
     @ concat (map br_descriptors (opt_list (branches d)))"

inductive nested :: "field_descriptor \<Rightarrow> field_descriptor \<Rightarrow> bool" where
  self: "nested d d"
| below: "c \<in> set (kids d) \<Longrightarrow> nested c e \<Longrightarrow> nested d e"

inductive_cases nested_elim: "nested d e"

definition blocks :: "field_descriptor \<Rightarrow> bool" where
  "blocks e \<longleftrightarrow> fd_type (fcore e) = FtUnsupported \<and> fd_required (fcore e)"

lemma opt_list_mem: "x \<in> set (opt_list v) \<longleftrightarrow> (\<exists>xs. v = Some xs \<and> x \<in> set xs)"
  by (cases v) simp_all

lemma kid_induct [case_names step]:
  assumes step: "\<And>d. (\<And>c. c \<in> set (kids d) \<Longrightarrow> P c) \<Longrightarrow> P d"
  shows "P d"
proof -
  have "P d" and "\<And>c. c \<in> set (br_descriptors b) \<Longrightarrow> P c" for b
  proof (induction d and b)
    case (Field c ch br sh)
    show ?case
      by (rule step) (use Field in \<open>auto simp: kids_def opt_list_mem\<close>)
  qed simp
  then show ?thesis by blast
qed

lemma wf_kids: "wf_field d \<Longrightarrow> c \<in> set (kids d) \<Longrightarrow> wf_field c"
  by (cases d) (auto simp: kids_def opt_list_mem list_all_iff)

lemma required_unsupported_step:
  "wf_field d \<Longrightarrow> walk_required_unsupported d \<longleftrightarrow> blocks d \<or> list_ex walk_required_unsupported (kids d)"
  by (cases d)
     (auto simp: kids_def blocks_def list_ex_iff opt_list_mem split: option.splits)

lemma required_unsupported_nested:
  "wf_field d \<Longrightarrow> walk_required_unsupported d \<longleftrightarrow> (\<exists>e. nested d e \<and> blocks e)"
proof (induction d rule: kid_induct)
  case (step d)
  have "walk_required_unsupported d \<longleftrightarrow>
      blocks d \<or> (\<exists>c \<in> set (kids d). \<exists>e. nested c e \<and> blocks e)"
    using step.IH wf_kids [OF step.prems]
    unfolding required_unsupported_step [OF step.prems] list_ex_iff by blast
  also have "\<dots> \<longleftrightarrow> (\<exists>e. nested d e \<and> blocks e)"
    by (blast intro: self below elim: nested_elim)
  finally show ?case .
qed

text \<open>
  C20: The editor starts in YAML mode exactly when, somewhere in the form at any depth (rows, shared
  fields and branches included), there is a required field the form cannot render.
\<close>

theorem yaml_mode_iff_required_unrenderable:
  "has_required_unsupported_field s opts \<longleftrightarrow>
     (\<exists>d e. d \<in> set (build_field_descriptors s opts) \<and> nested d e \<and>
        fd_type (fcore e) = FtUnsupported \<and> fd_required (fcore e))"
  using wf_build [of s opts] required_unsupported_nested
  by (auto simp: has_required_unsupported_field_def list_ex_iff list_all_iff blocks_def)

section \<open>What a merge keeps\<close>

lemma set_add_new [simp]: "set (add_new x xs) = insert x (set xs)"
  by (auto simp: add_new_def)

lemma set_fold_add_new [simp]: "set (fold add_new xs ys) = set xs \<union> set ys"
  by (induction xs arbitrary: ys) auto

lemma set_fold_required:
  "set (fold (\<lambda>e. fold add_new (f e)) es ys) = (\<Union>e \<in> set es. set (f e)) \<union> set ys"
  by (induction es arbitrary: ys) auto

lemma map_of_update_all:
  "distinct (map fst qs) \<Longrightarrow>
   map_of (fold (\<lambda>(k, v). AList.update k v) qs ps) k =
     (case map_of qs k of Some v \<Rightarrow> Some v | None \<Rightarrow> map_of ps k)"
proof (induction qs arbitrary: ps)
  case (Cons q qs)
  obtain j v where q: "q = (j, v)" by (cases q)
  have "map_of qs j = None" using Cons.prems q by (simp add: map_of_eq_None_iff)
  then show ?case
    using Cons.IH [of "AList.update j v ps"] Cons.prems
    by (auto simp: q update_conv' split: option.split)
qed simp

lemma update_all_empty: "fold (\<lambda>(k, v). AList.update k v) qs ps = [] \<Longrightarrow> ps = []"
proof (induction qs arbitrary: ps)
  case (Cons q qs)
  then show ?case by (cases q; cases ps) (auto split: if_splits)
qed simp

lemma merge_properties_empty: "merge_properties s es = [] \<Longrightarrow> opt_list (properties s) = []"
proof -
  have "fold (\<lambda>e. fold (\<lambda>(k, v). AList.update k v) (opt_list (properties e))) es ps = [] \<Longrightarrow> ps = []"
    for ps by (induction es arbitrary: ps) (auto dest!: update_all_empty)
  then show "merge_properties s es = [] \<Longrightarrow> opt_list (properties s) = []"
    by (simp add: merge_properties_def)
qed

text \<open>
  When the types of an \<open>allOf\<close> agree nothing a part asks for is lost: a property is required
  exactly when the schema or some part requires it, and the schema of a property is that of the
  last part that declares it (the schema itself counting first).
\<close>

theorem merge_keeps_every_part:
  assumes "length (declared_types (core s) (map core es)) \<le> 1"
    and "\<forall>e \<in> set es. distinct (map fst (opt_list (properties e)))"
  shows "(r \<in> set (opt_list (sc_required (core (merge_resolved s es)))) \<longleftrightarrow>
      r \<in> set (opt_list (sc_required (core s))) \<or>
      (\<exists>e \<in> set es. r \<in> set (opt_list (sc_required (core e))))) \<and>
    map_of (opt_list (properties (merge_resolved s es))) k =
      foldl (\<lambda>acc e. case map_of (opt_list (properties e)) k of Some v \<Rightarrow> Some v | None \<Rightarrow> acc)
        (map_of (opt_list (properties s)) k) es"
proof
  let ?req = "fold (\<lambda>e. fold add_new (opt_list (sc_required e))) (map core es)
      (remdups_first (opt_list (sc_required (core s))))"
  have "set ?req = (\<Union>e \<in> set es. set (opt_list (sc_required (core e)))) \<union>
      set (opt_list (sc_required (core s)))"
    by (simp add: set_fold_required remdups_first_def)
  moreover have "set (opt_list (if ?req \<noteq> [] then Some ?req else sc_required (core s))) = set ?req"
    using calculation by (cases "?req = []") auto
  ultimately show "r \<in> set (opt_list (sc_required (core (merge_resolved s es)))) \<longleftrightarrow>
      r \<in> set (opt_list (sc_required (core s))) \<or>
      (\<exists>e \<in> set es. r \<in> set (opt_list (sc_required (core e))))"
    using assms(1) by (auto simp: merge_resolved_def merge_core_def Let_def)
next
  let ?f = "\<lambda>e. fold (\<lambda>(k, v). AList.update k v) (opt_list (properties e))"
  have "map_of (fold ?f es ps) k =
      foldl (\<lambda>acc e. case map_of (opt_list (properties e)) k of Some v \<Rightarrow> Some v | None \<Rightarrow> acc)
        (map_of ps k) es" if "\<forall>e \<in> set es. distinct (map fst (opt_list (properties e)))" for ps
    using that by (induction es arbitrary: ps) (simp_all add: map_of_update_all)
  then have props: "map_of (merge_properties s es) k =
      foldl (\<lambda>acc e. case map_of (opt_list (properties e)) k of Some v \<Rightarrow> Some v | None \<Rightarrow> acc)
        (map_of (opt_list (properties s)) k) es"
    using assms(2) by (simp add: merge_properties_def)
  have "opt_list (properties s) = []" if "merge_properties s es = []"
    using that merge_properties_empty by blast
  then show "map_of (opt_list (properties (merge_resolved s es))) k =
      foldl (\<lambda>acc e. case map_of (opt_list (properties e)) k of Some v \<Rightarrow> Some v | None \<Rightarrow> acc)
        (map_of (opt_list (properties s)) k) es"
    using assms(1) props by (auto simp: merge_resolved_def Let_def)
qed

definition string_schema :: json_schema where
  "string_schema = Schema (blank\<lparr>sc_type := Some (TypeName ''string'')\<rparr>) None None None None None"

definition object_with :: "(string \<times> json_schema) list \<Rightarrow> string list \<Rightarrow> json_schema" where
  "object_with ps req =
     Schema (blank\<lparr>sc_type := Some (TypeName ''object''), sc_required := Some req\<rparr>) (Some ps)
       None None None None"

theorem merge_keeps_every_part_witness:
  "''a'' \<in> set (opt_list (sc_required (core
       (merge_resolved (object_with [] [''b'']) [object_with [(''a'', string_schema)] [''a'']])))) \<and>
   map_of (opt_list (properties
       (merge_resolved (object_with [] [''b'']) [object_with [(''a'', string_schema)] [''a'']]))) ''a''
     = Some string_schema"
  using merge_keeps_every_part [of "object_with [] [''b'']" "[object_with [(''a'', string_schema)] [''a'']]"
      "''a''" "''a''"]
  by (simp add: object_with_def declared_types_def add_type_def add_new_def)

text \<open>
  The merger's comment lets a schema's own description override an inherited one; the
  inherited one replaces it.
\<close>

theorem inherited_description_wins:
  "sc_description (core (fst (merge_all_of None
      (Schema (blank\<lparr>sc_description := Some ''own''\<rparr>) None None None
        (Some [Schema (blank\<lparr>sc_description := Some ''inherited''\<rparr>) None None None None None]) None) [])))
   = Some ''inherited''"
  by code_simp

text \<open>
  A part that is itself an inline \<open>allOf\<close> is not flattened: its properties and its required
  fields are lost, so the form shows an object without fields.
\<close>

theorem inline_nested_all_of_is_lost:
  "(let inner = Schema blank None None None (Some [object_with [(''a'', string_schema)] [''a'']]) None;
        outer = Schema (blank\<lparr>sc_type := Some (TypeName ''object'')\<rparr>) None None None (Some [inner]) None
    in properties (fst (merge_all_of None outer [])) = None \<and>
       sc_required (core (fst (merge_all_of None outer []))) = None)"
  by code_simp

end
