(* ===== verification/SearchPalette.thy ===== *)
theory SearchPalette
  imports ResourceQueries Display LogView
begin

text \<open>
  Model of \<open>web/src/components/search/SearchPalette.tsx\<close>, the resource finder: the debounced text,
  the matches among the custom resource definitions and the server's results, the highlighted row
  and the keys that move and open it, the grouping of the rows, the rows on the screen and the
  addresses they lead to.
  The answers of the server and the time are events.
\<close>

section \<open>Matches and rows\<close>

record search_result =
  sr_kind :: string
  sr_name :: string
  sr_namespace :: "string option"

definition crd_cap :: nat where
  "crd_cap = 6"

definition crd_hit :: "string \<Rightarrow> crd \<Rightarrow> bool" where
  "crd_hit q c =
     (name_matches (cd_kind c) q \<or> name_matches (cd_plural c) q
      \<or> (case cd_short_names c of None \<Rightarrow> False | Some ns \<Rightarrow> list_ex (\<lambda>s. name_matches s q) ns))"

fun crd_loop :: "string \<Rightarrow> crd list \<Rightarrow> crd list \<Rightarrow> crd list" where
  "crd_loop q [] out = out"
| "crd_loop q (c # cs) out =
     (let out' = (if crd_hit q c then out @ [c] else out)
      in if crd_cap \<le> length out' then out' else crd_loop q cs out')"

definition crd_matches :: "string \<Rightarrow> crd list \<Rightarrow> crd list" where
  "crd_matches q cs = (if q = [] then [] else crd_loop q cs [])"

record result_group =
  rg_kind :: string
  rg_rows :: "search_result list"
  rg_start :: nat

text \<open>The loop of the grouping; the kind of the last group is the current one.\<close>

fun group_loop :: "nat \<Rightarrow> search_result list \<Rightarrow> result_group list \<Rightarrow> result_group list" where
  "group_loop idx [] groups = groups"
| "group_loop idx (r # rs) groups =
     (let gs = (if groups = [] \<or> rg_kind (last groups) \<noteq> sr_kind r
                then groups @ [\<lparr>rg_kind = sr_kind r, rg_rows = [], rg_start = idx\<rparr>] else groups);
          g = last gs
      in group_loop (idx + 1) rs (butlast gs @ [g\<lparr>rg_rows := rg_rows g @ [r]\<rparr>]))"

definition group_results :: "search_result list \<Rightarrow> result_group list" where
  "group_results rs = group_loop 0 rs []"

text \<open>The rows on the screen with the index each of them is highlighted by.\<close>

definition row_indices :: "nat \<Rightarrow> search_result list \<Rightarrow> (nat \<times> search_result) list" where
  "row_indices crds rs =
     concat (map (\<lambda>g. map (\<lambda>i. (crds + rg_start g + i, rg_rows g ! i)) [0..<length (rg_rows g)])
               (group_results rs))"

section \<open>Addresses\<close>

definition search_kinds :: "string list" where
  "search_kinds =
     [''pods'', ''deployments'', ''statefulsets'', ''daemonsets'', ''services'', ''configmaps'', ''secrets'']"

definition path_for_crd :: "string \<Rightarrow> crd \<Rightarrow> string" where
  "path_for_crd cluster c =
     ''/clusters/'' @ enc cluster @ ''/customresources/'' @ enc (cd_group c) @ ''/'' @
       enc (cd_storage c) @ ''/'' @ enc (cd_plural c)"

definition path_for_result :: "string \<Rightarrow> search_result \<Rightarrow> string option" where
  "path_for_result cluster r =
     (let ns = enc (str_or_empty (sr_namespace r)); n = enc (sr_name r)
      in if sr_kind r \<in> set search_kinds
         then Some (''/clusters/'' @ enc cluster @ ''/'' @ sr_kind r @ ''?selNs='' @ ns @ ''&sel='' @ n @
                 ''&tab=describe'')
         else if sr_kind r = ''namespaces''
         then Some (''/clusters/'' @ enc cluster @ ''/namespaces?sel='' @ n @ ''&tab=describe'')
         else None)"

definition highlighted_name :: "string \<Rightarrow> string \<Rightarrow> string \<times> string \<times> string" where
  "highlighted_name name query =
     (if query = [] then (name, [], [])
      else case index_from (to_lower query) (to_lower name) 0 of
             None \<Rightarrow> (name, [], [])
           | Some i \<Rightarrow> (take i name, take (length query) (drop i name), drop (i + length query) name))"

section \<open>The palette\<close>

record palette =
  pa_open :: bool
  pa_query :: string
  pa_debounced :: string
  pa_timer :: "string option"
  pa_active :: nat
  pa_seen :: "nat \<times> nat \<times> string"
  pa_crds :: "crd list"
  pa_answers :: "(string \<times> search_result list) list"
  pa_fetching :: bool
  pa_failed :: bool
  pa_went :: "string list"

definition palette_results :: "palette \<Rightarrow> search_result list" where
  "palette_results s = (case map_of (pa_answers s) (pa_debounced s) of None \<Rightarrow> [] | Some rs \<Rightarrow> rs)"

definition palette_crds :: "palette \<Rightarrow> crd list" where
  "palette_crds s = crd_matches (pa_debounced s) (pa_crds s)"

definition total_rows :: "palette \<Rightarrow> nat" where
  "total_rows s = length (palette_crds s) + length (palette_results s)"

text \<open>The effect that moves the highlight to the top when the set of rows changes.\<close>

definition reset_highlight :: "palette \<Rightarrow> palette" where
  "reset_highlight s =
     (let now = (length (palette_results s), length (palette_crds s), pa_debounced s)
      in if now = pa_seen s then s else s\<lparr>pa_active := 0, pa_seen := now\<rparr>)"

definition closed_palette :: palette where
  "closed_palette =
     \<lparr>pa_open = False, pa_query = [], pa_debounced = [], pa_timer = None, pa_active = 0,
      pa_seen = (0, 0, []), pa_crds = [], pa_answers = [], pa_fetching = False, pa_failed = False,
      pa_went = []\<rparr>"

definition close_palette :: "palette \<Rightarrow> palette" where
  "close_palette s =
     s\<lparr>pa_open := False, pa_query := [], pa_debounced := [], pa_timer := Some [], pa_active := 0\<rparr>"

definition go_to :: "string option \<Rightarrow> palette \<Rightarrow> palette" where
  "go_to path s =
     (case path of
        None \<Rightarrow> s
      | Some p \<Rightarrow> if p \<noteq> [] then close_palette (s\<lparr>pa_went := pa_went s @ [p]\<rparr>) else s)"

definition address_of_row :: "string \<Rightarrow> palette \<Rightarrow> nat \<Rightarrow> string option" where
  "address_of_row cluster s i =
     (let cs = palette_crds s; rs = palette_results s
      in if i < length cs then Some (path_for_crd cluster (cs ! i))
         else if i - length cs < length rs then path_for_result cluster (rs ! (i - length cs))
         else None)"

datatype palette_body = BodyNoCluster | BodyHint | BodySearching | BodyFailed | BodyNoMatches | BodyRows

definition body_of :: "string \<Rightarrow> palette \<Rightarrow> palette_body" where
  "body_of cluster s =
     (if cluster = [] then BodyNoCluster
      else if pa_debounced s = [] then BodyHint
      else if pa_fetching s \<and> palette_results s = [] then BodySearching
      else if pa_failed s then BodyFailed
      else if total_rows s = 0 then BodyNoMatches else BodyRows)"

text \<open>
  The rows on the screen, each with the index it is highlighted by and the callback of its button:
  first the matching definitions, then the groups of the results.
\<close>

datatype shown_row = CrdRow crd | ResultRow search_result

definition row_path :: "string \<Rightarrow> shown_row \<Rightarrow> string option" where
  "row_path cluster row =
     (case row of CrdRow c \<Rightarrow> Some (path_for_crd cluster c) | ResultRow r \<Rightarrow> path_for_result cluster r)"

definition shown_rows :: "string \<Rightarrow> palette \<Rightarrow> (nat \<times> shown_row) list" where
  "shown_rows cluster s =
     (if pa_open s \<and> body_of cluster s = BodyRows
      then map (\<lambda>(i, c). (i, CrdRow c)) (enumerate 0 (palette_crds s))
           @ map (\<lambda>(i, r). (i, ResultRow r)) (row_indices (length (palette_crds s)) (palette_results s))
      else [])"

text \<open>
  The highlight of a row, as its \<open>data-active\<close> has it. The events of the mouse name a row by its
  position on the screen.
\<close>

definition highlighted_rows :: "string \<Rightarrow> palette \<Rightarrow> shown_row list" where
  "highlighted_rows cluster s = map snd (filter (\<lambda>(i, row). i = pa_active s) (shown_rows cluster s))"

datatype palette_event =
    Opened
  | Closed
  | TextTyped string
  | DebounceFired
  | CrdsLoaded "crd list"
  | Answered string "search_result list"
  | QueryFlags bool bool
  | ArrowDown
  | ArrowUp
  | EnterPressed
  | RowHovered nat
  | RowClicked nat

fun palette_handler :: "string \<Rightarrow> palette \<Rightarrow> palette_event \<Rightarrow> palette" where
  "palette_handler c s Opened = s\<lparr>pa_open := True\<rparr>"
| "palette_handler c s Closed = close_palette s"
| "palette_handler c s (TextTyped t) =
     (if pa_open s \<and> c \<noteq> [] then s\<lparr>pa_query := t, pa_timer := Some (trim_str t)\<rparr> else s)"
| "palette_handler c s DebounceFired =
     (case pa_timer s of None \<Rightarrow> s | Some t \<Rightarrow> s\<lparr>pa_debounced := t, pa_timer := None\<rparr>)"
| "palette_handler c s (CrdsLoaded cs) = s\<lparr>pa_crds := cs\<rparr>"
| "palette_handler c s (Answered q rs) = s\<lparr>pa_answers := (q, rs) # pa_answers s\<rparr>"
| "palette_handler c s (QueryFlags fetching failed) = s\<lparr>pa_fetching := fetching, pa_failed := failed\<rparr>"
| "palette_handler c s ArrowDown =
     (if pa_open s then s\<lparr>pa_active := min (pa_active s + 1) (total_rows s - 1)\<rparr> else s)"
| "palette_handler c s ArrowUp = (if pa_open s then s\<lparr>pa_active := pa_active s - 1\<rparr> else s)"
| "palette_handler c s EnterPressed =
     (if pa_open s then go_to (address_of_row c s (pa_active s)) s else s)"
| "palette_handler c s (RowHovered i) =
     (if i < length (shown_rows c s) then s\<lparr>pa_active := fst (shown_rows c s ! i)\<rparr> else s)"
| "palette_handler c s (RowClicked i) =
     (if i < length (shown_rows c s) then go_to (row_path c (snd (shown_rows c s ! i))) s else s)"

definition palette_step :: "string \<Rightarrow> palette \<Rightarrow> palette_event \<Rightarrow> palette" where
  "palette_step c s e = reset_highlight (palette_handler c s e)"

section \<open>Rows\<close>

lemma crd_loop_eq:
  "length out < crd_cap \<Longrightarrow> crd_loop q cs out = take crd_cap (out @ filter (crd_hit q) cs)"
proof (induction q cs out rule: crd_loop.induct)
  case (2 q c cs out)
  show ?case
  proof (cases "crd_hit q c")
    case True
    have "crd_cap - length out = Suc 0" if "crd_cap \<le> length (out @ [c])" using that 2(2) by simp
    then show ?thesis using True 2 by (cases "crd_cap \<le> length (out @ [c])") (simp_all add: Let_def)
  next
    case False
    then show ?thesis using 2 by (simp add: Let_def)
  qed
qed simp

text \<open>The definitions matched are the first six hits, in the order of the list.\<close>

lemma crd_matches_eq: "q \<noteq> [] \<Longrightarrow> crd_matches q cs = take 6 (filter (crd_hit q) cs)"
  using crd_loop_eq [of "[]" q cs] by (simp add: crd_matches_def crd_cap_def)

definition groups_ok :: "nat \<Rightarrow> search_result list \<Rightarrow> result_group list \<Rightarrow> bool" where
  "groups_ok n done gs =
     (concat (map rg_rows gs) = done \<and> length done = n
      \<and> list_all (\<lambda>g. rg_rows g \<noteq> [] \<and> list_all (\<lambda>r. sr_kind r = rg_kind g) (rg_rows g)) gs
      \<and> (\<forall>k < length gs. rg_start (gs ! k) = length (concat (map rg_rows (take k gs)))))"

lemma groups_ok_new:
  assumes "groups_ok n done gs"
  shows "groups_ok (n + 1) (done @ [r]) (gs @ [\<lparr>rg_kind = sr_kind r, rg_rows = [r], rg_start = n\<rparr>])"
  using assms by (auto simp: groups_ok_def nth_append less_Suc_eq)

lemma groups_ok_same:
  assumes "groups_ok n done (hs @ [g])" "rg_kind g = sr_kind r"
  shows "groups_ok (n + 1) (done @ [r]) (hs @ [g\<lparr>rg_rows := rg_rows g @ [r]\<rparr>])"
  using assms by (auto simp: groups_ok_def nth_append less_Suc_eq)

lemma group_loop_ok:
  "groups_ok n done gs \<Longrightarrow> groups_ok (n + length rs) (done @ rs) (group_loop n rs gs)"
proof (induction n rs gs arbitrary: "done" rule: group_loop.induct)
  case (2 n r rs gs)
  let ?gs = "if gs = [] \<or> rg_kind (last gs) \<noteq> sr_kind r
      then gs @ [\<lparr>rg_kind = sr_kind r, rg_rows = [], rg_start = n\<rparr>] else gs"
  let ?g = "last ?gs"
  have step: "groups_ok (n + 1) (done @ [r]) (butlast ?gs @ [?g\<lparr>rg_rows := rg_rows ?g @ [r]\<rparr>])"
  proof (cases "gs = [] \<or> rg_kind (last gs) \<noteq> sr_kind r")
    case True
    then show ?thesis using groups_ok_new [OF 2(2)] by simp
  next
    case False
    then have "gs = butlast gs @ [last gs]" by simp
    then show ?thesis using groups_ok_same [of n "done" "butlast gs" "last gs" r] False 2(2) by simp
  qed
  show ?case using 2(1) [OF refl refl step] by (simp add: Let_def)
qed simp

lemma groups_of_results: "groups_ok (length rs) rs (group_results rs)"
proof -
  have "groups_ok 0 [] []" by (simp add: groups_ok_def)
  from group_loop_ok [OF this, of rs] show ?thesis by (simp add: group_results_def)
qed

lemma concat_indices:
  "(\<forall>k < length gs. rg_start (gs ! k) = m + length (concat (map rg_rows (take k gs)))) \<Longrightarrow>
   concat (map (\<lambda>g. map (\<lambda>i. (c + rg_start g + i, rg_rows g ! i)) [0..<length (rg_rows g)]) gs)
     = map (\<lambda>i. (c + m + i, concat (map rg_rows gs) ! i)) [0..<length (concat (map rg_rows gs))]"
proof (induction gs arbitrary: m)
  case (Cons g gs)
  let ?n = "length (rg_rows g)" and ?rest = "concat (map rg_rows gs)"
  have start: "rg_start g = m" using Cons.prems by (auto dest: spec [of _ 0])
  have "\<forall>k < length gs. rg_start (gs ! k) = (m + ?n) + length (concat (map rg_rows (take k gs)))"
  proof (intro allI impI)
    fix k assume "k < length gs"
    then show "rg_start (gs ! k) = (m + ?n) + length (concat (map rg_rows (take k gs)))"
      using Cons.prems [rule_format, of "Suc k"] by simp
  qed
  note ih = Cons.IH [OF this]
  have "map (\<lambda>i. (c + m + i, (rg_rows g @ ?rest) ! i)) [0..<?n + length ?rest] =
      map (\<lambda>i. (c + m + i, rg_rows g ! i)) [0..<?n] @
      map (\<lambda>i. (c + (m + ?n) + i, ?rest ! i)) [0..<length ?rest]"
    by (rule nth_equalityI) (auto simp: nth_append)
  then show ?case using start ih by simp
qed simp

text \<open>
  each row is highlighted by its own index. Grouping the results by kind loses and reorders
  none of them: reading the groups from the top gives the results with the indices that follow the
  matches of the definitions, one by one, and no group is empty or mixes kinds.
\<close>

theorem rows_follow_results:
  "row_indices crds rs = map (\<lambda>i. (crds + i, rs ! i)) [0..<length rs]
   \<and> list_all (\<lambda>g. rg_rows g \<noteq> [] \<and> list_all (\<lambda>r. sr_kind r = rg_kind g) (rg_rows g)) (group_results rs)"
proof -
  have ok: "groups_ok (length rs) rs (group_results rs)" by (rule groups_of_results)
  then have "\<forall>k < length (group_results rs).
      rg_start (group_results rs ! k) = 0 + length (concat (map rg_rows (take k (group_results rs))))"
    by (simp add: groups_ok_def)
  from concat_indices [OF this, of crds] ok show ?thesis
    by (simp add: row_indices_def groups_ok_def)
qed

text \<open>All the rows in the order of their indices.\<close>

definition all_rows :: "palette \<Rightarrow> shown_row list" where
  "all_rows s = map CrdRow (palette_crds s) @ map ResultRow (palette_results s)"

lemma length_all_rows [simp]: "length (all_rows s) = total_rows s"
  by (simp add: all_rows_def total_rows_def)

lemma map_enumerate: "map (\<lambda>(i, x). (i, f x)) (enumerate n xs) = enumerate n (map f xs)"
  by (intro nth_equalityI) (simp_all add: nth_enumerate_eq)

lemma shown_rows_eq:
  "shown_rows c s = (if pa_open s \<and> body_of c s = BodyRows then enumerate 0 (all_rows s) else [])"
proof -
  have "map (\<lambda>i. (n + i, xs ! i)) [0..<length xs] = enumerate n xs" for n and xs :: "search_result list"
    by (intro nth_equalityI) (simp_all add: nth_enumerate_eq)
  then have r: "row_indices n rs = enumerate n rs" for n rs by (simp add: rows_follow_results)
  show ?thesis by (simp only: shown_rows_def r map_enumerate all_rows_def enumerate_append_eq length_map add_0)
qed

lemma shown_row_index: "k < length (shown_rows c s) \<Longrightarrow> shown_rows c s ! k = (k, all_rows s ! k) \<and> k < total_rows s"
  by (auto simp: shown_rows_eq nth_enumerate_eq split: if_splits)

lemma filter_enumerate:
  "a < length xs \<Longrightarrow> filter (\<lambda>(i, x). i = n + a) (enumerate n xs) = [(n + a, xs ! a)]"
proof (induction xs arbitrary: n a)
  case (Cons x xs)
  show ?case
  proof (cases a)
    case 0
    have "filter (\<lambda>(i, x). i = n) (enumerate (Suc n) xs) = []"
      by (auto simp: filter_empty_conv in_set_enumerate_eq)
    then show ?thesis using 0 by simp
  next
    case (Suc b)
    then show ?thesis using Cons.IH [of b "Suc n"] Cons.prems by simp
  qed
qed simp

lemma highlighted_row:
  assumes "pa_open s" "body_of c s = BodyRows" "pa_active s < total_rows s"
  shows "highlighted_rows c s = [all_rows s ! pa_active s]"
  using assms filter_enumerate [of "pa_active s" "all_rows s" 0]
  by (simp add: highlighted_rows_def shown_rows_eq)

lemma address_is_row_path:
  "i < total_rows s \<Longrightarrow> address_of_row c s i = row_path c (all_rows s ! i)"
  by (auto simp: address_of_row_def row_path_def all_rows_def total_rows_def nth_append Let_def)

section \<open>The highlight\<close>

definition palette_inv :: "palette \<Rightarrow> bool" where
  "palette_inv s =
     ((pa_active s = 0 \<or> pa_active s < total_rows s)
      \<and> pa_seen s = (length (palette_results s), length (palette_crds s), pa_debounced s))"

lemma palette_inv_reset:
  "pa_active s = 0 \<or> pa_active s < fst (pa_seen s) + fst (snd (pa_seen s)) \<Longrightarrow> palette_inv (reset_highlight s)"
  by (cases "pa_seen s")
     (auto simp: reset_highlight_def palette_inv_def Let_def total_rows_def palette_results_def palette_crds_def)

lemma handler_active:
  assumes "palette_inv s"
  shows "pa_active (palette_handler c s e) = 0
    \<or> pa_active (palette_handler c s e)
        < fst (pa_seen (palette_handler c s e)) + fst (snd (pa_seen (palette_handler c s e)))"
  using assms
  by (cases e)
     (auto simp: palette_inv_def close_palette_def go_to_def total_rows_def dest!: shown_row_index
       split: option.splits)

lemma palette_inv_step: "palette_inv s \<Longrightarrow> palette_inv (palette_step c s e)"
  unfolding palette_step_def by (rule palette_inv_reset) (rule handler_active)

interpretation palette: event_machine "palette_step c" palette_inv
  by unfold_locales (rule palette_inv_step)

lemma closed_palette_inv: "palette_inv closed_palette"
  by (simp add: palette_inv_def closed_palette_def palette_results_def palette_crds_def crd_matches_def)

lemma pa_went_reset [simp]: "pa_went (reset_highlight t) = pa_went t"
  by (simp add: reset_highlight_def Let_def)

definition way_to :: "string option \<Rightarrow> string list" where
  "way_to path = (case path of Some p \<Rightarrow> if p \<noteq> [] then [p] else [] | None \<Rightarrow> [])"

lemma pa_went_go_to [simp]: "pa_went (go_to path s) = pa_went s @ way_to path"
  by (auto simp: go_to_def close_palette_def way_to_def split: option.splits)

lemma went_by_enter:
  assumes "pa_open s" "pa_active s < total_rows s"
  shows "pa_went (palette_step c s EnterPressed) = pa_went s @ way_to (row_path c (all_rows s ! pa_active s))"
  using assms by (simp add: palette_step_def address_is_row_path)

text \<open>
  C40: enter opens the highlighted row. In every history of the palette, while rows are shown, the
  rows are the matching definitions followed by the results; exactly one of them is highlighted,
  and enter leads to the page of that row. A click on the row at position \<open>k\<close> leads to the page of
  the row at that position, and so does enter after the mouse has moved onto it.
\<close>

theorem enter_opens_highlighted_row:
  assumes "s = foldl (palette_step c) closed_palette es" "pa_open s" "body_of c s = BodyRows"
    "k < length (shown_rows c s)"
  shows "map snd (shown_rows c s) = map CrdRow (palette_crds s) @ map ResultRow (palette_results s)
    \<and> (\<exists>row. highlighted_rows c s = [row]
         \<and> pa_went (palette_step c s EnterPressed) = pa_went s @ way_to (row_path c row))
    \<and> (let row = snd (shown_rows c s ! k)
       in pa_went (palette_step c s (RowClicked k)) = pa_went s @ way_to (row_path c row)
          \<and> pa_went (palette_step c (palette_step c s (RowHovered k)) EnterPressed)
              = pa_went s @ way_to (row_path c row))"
proof -
  have inv: "palette_inv s" unfolding assms(1) by (rule palette.inv_run [OF closed_palette_inv])
  note at = shown_row_index [OF assms(4)]
  have act: "pa_active s < total_rows s" using inv at by (auto simp: palette_inv_def)
  let ?h = "s\<lparr>pa_active := k\<rparr>"
  have rows: "palette_crds ?h = palette_crds s" "palette_results ?h = palette_results s"
    by (simp_all add: palette_crds_def palette_results_def)
  have h: "palette_step c s (RowHovered k) = ?h"
    using assms(4) at inv by (simp add: palette_step_def reset_highlight_def palette_inv_def rows)
  have "pa_went (palette_step c ?h EnterPressed) = pa_went s @ way_to (row_path c (all_rows s ! k))"
    using went_by_enter [of ?h c] assms(2) at by (simp add: total_rows_def all_rows_def rows)
  moreover have "pa_went (palette_step c s (RowClicked k)) = pa_went s @ way_to (row_path c (all_rows s ! k))"
    using assms(4) at by (simp add: palette_step_def)
  moreover have "map snd (shown_rows c s) = all_rows s"
    using assms(2,3) by (simp add: shown_rows_eq map_snd_enumerate)
  ultimately show ?thesis
    using highlighted_row [OF assms(2,3) act] went_by_enter [OF assms(2) act] at
    by (simp add: h all_rows_def)
qed

lemma enter_opens_highlighted_row_witness:
  "let pod = \<lparr>sr_kind = ''pods'', sr_name = ''api'', sr_namespace = Some ''web''\<rparr>;
       svc = \<lparr>sr_kind = ''services'', sr_name = ''api'', sr_namespace = Some ''web''\<rparr>;
       s = foldl (palette_step ''prod'') closed_palette
             [Opened, TextTyped ''api '', DebounceFired, Answered ''api'' [pod, svc]]
   in highlighted_rows ''prod'' s = [ResultRow pod]
      \<and> pa_went (palette_step ''prod'' s EnterPressed) = way_to (path_for_result ''prod'' pod)
      \<and> pa_went (palette_step ''prod'' s (RowClicked 1)) = way_to (path_for_result ''prod'' svc)"
proof -
  let ?pod = "\<lparr>sr_kind = ''pods'', sr_name = ''api'', sr_namespace = Some ''web''\<rparr>"
  let ?svc = "\<lparr>sr_kind = ''services'', sr_name = ''api'', sr_namespace = Some ''web''\<rparr>"
  let ?s = "foldl (palette_step ''prod'') closed_palette
             [Opened, TextTyped ''api '', DebounceFired, Answered ''api'' [?pod, ?svc]]"
  have e: "pa_open ?s" "body_of ''prod'' ?s = BodyRows" "pa_went ?s = []"
    "shown_rows ''prod'' ?s = [(0, ResultRow ?pod), (1, ResultRow ?svc)]"
    "highlighted_rows ''prod'' ?s = [ResultRow ?pod]"
    by code_simp+
  have k: "1 < length (shown_rows ''prod'' ?s)" by (simp only: e) simp
  show ?thesis using enter_opens_highlighted_row [OF refl e(1,2) k]
    by (simp only: e Let_def nth_Cons_Suc nth_Cons_0 One_nat_def snd_conv row_path_def shown_row.case append_Nil) auto
qed

text \<open>
  enter before the debounce opens a row of the old text: the highlight and the rows belong to
  the debounced text until the timer fires.
\<close>

theorem enter_ignores_new_text:
  assumes "pa_open s" "c \<noteq> []" "palette_inv s" "address_of_row c s (pa_active s) = Some p" "p \<noteq> []"
  shows "pa_went (palette_step c (palette_step c s (TextTyped t)) EnterPressed) = pa_went s @ [p]"
proof -
  let ?u = "s\<lparr>pa_query := t, pa_timer := Some (trim_str t)\<rparr>"
  have rows: "palette_crds ?u = palette_crds s" "palette_results ?u = palette_results s"
    by (simp_all add: palette_crds_def palette_results_def)
  have u: "palette_step c s (TextTyped t) = ?u"
    using assms(1-3) by (simp add: palette_step_def reset_highlight_def palette_inv_def rows)
  have "address_of_row c ?u (pa_active ?u) = Some p" using assms(4) by (simp add: address_of_row_def rows)
  then show ?thesis using assms(1,5) unfolding u
    by (simp add: palette_step_def go_to_def close_palette_def reset_highlight_def Let_def)
qed

text \<open>
  enter opens a row that is not shown: while the server's answer is on its way, or after it
  failed, the body shows no rows, but enter opens the first matching definition.
\<close>

theorem enter_opens_hidden_definition:
  assumes "pa_open s" "body_of c s \<in> {BodySearching, BodyFailed}" "palette_crds s \<noteq> []" "pa_active s = 0"
  shows "pa_went (palette_step c s EnterPressed) = pa_went s @ [path_for_crd c (hd (palette_crds s))]"
proof -
  have "address_of_row c s 0 = Some (path_for_crd c (hd (palette_crds s)))"
    using assms(3) by (simp add: address_of_row_def Let_def hd_conv_nth)
  then show ?thesis using assms
    by (simp add: palette_step_def go_to_def close_palette_def reset_highlight_def Let_def path_for_crd_def)
qed

section \<open>Addresses\<close>

lemma encode_char_no_amp: "CHR ''&'' \<notin> set (encode_uri_char c)"
proof -
  have h: "n < 16 \<Longrightarrow> hex_digit n \<noteq> CHR ''&''" for n
    by (auto simp: hex_digit_def dest: arg_cong [where f = "of_char :: char \<Rightarrow> nat"])
  have "(of_char c :: nat) div 16 < 16" using of_char_less [of c] by linarith
  then have "CHR ''&'' \<notin> set (percent c)"
    using h [of "of_char c div 16"] h [of "of_char c mod 16"] by (auto simp: percent_def Let_def)
  moreover have "uri_unreserved c \<Longrightarrow> CHR ''&'' \<notin> set [c]" by (auto simp: uri_unreserved_def Let_def)
  ultimately show ?thesis by (simp add: encode_char_percent)
qed

lemma enc_no_amp: "CHR ''&'' \<notin> set (enc s)"
  using encode_char_no_amp by (auto simp: encode_uri_component_def)

text \<open>
  the address of a result names it. For a namespaced kind the parameters of the address are
  the namespace, the name and the tab, and decoding them gives back the namespace and the name,
  whatever characters they hold; the part before them is the list page of the kind.
\<close>

theorem result_address_names_it:
  assumes "path_for_result cluster r = Some p" "sr_kind r \<noteq> ''namespaces''"
  shows "\<exists>q. p = ''/clusters/'' @ enc cluster @ ''/'' @ sr_kind r @ ''?'' @ q
    \<and> length (split_on (CHR ''&'') q) = 3
    \<and> decode_uri_component (drop 4 (split_on (CHR ''&'') q ! 1)) = sr_name r
    \<and> decode_uri_component (drop 6 (split_on (CHR ''&'') q ! 0)) = str_or_empty (sr_namespace r)"
proof -
  let ?ns = "enc (str_or_empty (sr_namespace r))" and ?n = "enc (sr_name r)"
  let ?q = "''selNs='' @ ?ns @ ''&sel='' @ ?n @ ''&tab=describe''"
  have p: "p = ''/clusters/'' @ enc cluster @ ''/'' @ sr_kind r @ ''?'' @ ?q"
    using assms by (auto simp: path_for_result_def Let_def split: if_splits)
  have no: "CHR ''&'' \<notin> set (''selNs='' @ ?ns)" "CHR ''&'' \<notin> set (''sel='' @ ?n)" "CHR ''&'' \<notin> set ''tab=describe''"
    using enc_no_amp by simp_all
  have "split_on (CHR ''&'') ?q = [''selNs='' @ ?ns, ''sel='' @ ?n, ''tab=describe'']"
    using split_on_no_sep [OF no(1)] split_on_no_sep [OF no(2)] split_on_id [OF no(3)] by simp
  then show ?thesis using p by (intro exI [of _ ?q]) simp
qed

lemma result_address_names_it_witness:
  "\<exists>q. the (path_for_result ''prod'' \<lparr>sr_kind = ''pods'', sr_name = ''a&b'', sr_namespace = Some ''x''\<rparr>)
      = ''/clusters/'' @ enc ''prod'' @ ''/pods?'' @ q
    \<and> decode_uri_component (drop 4 (split_on (CHR ''&'') q ! 1)) = ''a&b''"
proof -
  let ?r = "\<lparr>sr_kind = ''pods'', sr_name = ''a&b'', sr_namespace = Some ''x''\<rparr>"
  obtain p where p: "path_for_result ''prod'' ?r = Some p"
    by (simp add: path_for_result_def search_kinds_def Let_def)
  from result_address_names_it [OF p] show ?thesis using p by auto
qed

text \<open>The highlighted name reads as the name, and its middle part matches the text up to case.\<close>

theorem highlight_keeps_name:
  "let (a, m, b) = highlighted_name name query
   in a @ m @ b = name \<and> (m = [] \<or> to_lower m = to_lower query)"
proof (cases "query = []")
  case False
  show ?thesis
  proof (cases "index_from (to_lower query) (to_lower name) 0")
    case (Some i)
    then have "prefix (to_lower query) (drop i (to_lower name))"
      by (auto simp: index_from_def find_Some_iff)
    then obtain t where "drop i (to_lower name) = to_lower query @ t" by (auto simp: prefix_def)
    then have "take (length query) (drop i (to_lower name)) = to_lower query" by simp
    then have "to_lower (take (length query) (drop i name)) = to_lower query"
      by (simp add: take_map drop_map)
    moreover have "take i name @ take (length query) (drop i name) @ drop (i + length query) name = name"
      by (metis append_take_drop_id drop_drop add.commute)
    ultimately show ?thesis using False Some by (simp add: highlighted_name_def)
  qed (use False in \<open>simp add: highlighted_name_def\<close>)
qed (simp add: highlighted_name_def)

end
