(* ===== verification/SecretForm.thy ===== *)
theory SecretForm
  imports UrlCodec
begin

text \<open>
  Model of the plaintext layer over the data of a secret
  (\<open>web/src/lib/schemaForm/base64DataLayer.ts\<close>), the form that uses it
  (\<open>components/edit/SecretForm.tsx\<close>) and the bridge between a form's object and the text its parent
  keeps (\<open>lib/schemaForm/SchemaFormBridge.tsx\<close>). The YAML library and \<open>JSON.stringify\<close> are parameters.
  A string stands for the bytes of its UTF-8 form, so \<open>TextEncoder\<close> does nothing and \<open>TextDecoder\<close>
  replaces what is not UTF-8.
\<close>

section \<open>Base64\<close>

definition sextet :: "char \<Rightarrow> nat option" where
  "sextet c = (let i = length (takeWhile (\<lambda>x. x \<noteq> c) base64_alphabet) in if i < 64 then Some i else None)"

fun base64_bytes :: "nat list \<Rightarrow> nat list" where
  "base64_bytes (a # b # c # d # rest) =
     (a * 4 + b div 16) # (b mod 16 * 16 + c div 4) # (c mod 4 * 64 + d) # base64_bytes rest"
| "base64_bytes [a, b, c] = [a * 4 + b div 16, b mod 16 * 16 + c div 4]"
| "base64_bytes [a, b] = [a * 4 + b div 16]"
| "base64_bytes _ = []"

definition ascii_space :: "char \<Rightarrow> bool" where
  "ascii_space c = ((of_char c :: nat) \<in> set [9, 10, 12, 13, 32])"

definition drop_pad :: "string \<Rightarrow> string" where
  "drop_pad s = (if s \<noteq> [] \<and> last s = CHR ''='' then butlast s else s)"

text \<open>The function \<open>atob\<close> of the platform; \<open>None\<close> is its exception.\<close>

definition atob :: "string \<Rightarrow> nat list option" where
  "atob s =
     (let t = filter (\<lambda>c. \<not> ascii_space c) s;
          u = (if length t mod 4 = 0 then drop_pad (drop_pad t) else t)
      in if length u mod 4 = 1 then None else map_option base64_bytes (those (map sextet u)))"

section \<open>UTF-8\<close>

text \<open>What a first byte announces: the number of further bytes and the range of the next one.\<close>

definition utf8_lead :: "nat \<Rightarrow> (nat \<times> nat \<times> nat) option" where
  "utf8_lead b =
     (if b < 128 then Some (0, 0, 0)
      else if 194 \<le> b \<and> b \<le> 223 then Some (1, 128, 191)
      else if 224 \<le> b \<and> b \<le> 239 then
        Some (2, if b = 224 then 160 else 128, if b = 237 then 159 else 191)
      else if 240 \<le> b \<and> b \<le> 244 then
        Some (3, if b = 240 then 144 else 128, if b = 244 then 143 else 191)
      else None)"

definition replacement :: "nat list" where
  "replacement = [239, 191, 189]"

text \<open>A pending sequence: further bytes needed, the range of the next one, the bytes read.\<close>

type_synonym pending = "(nat \<times> nat \<times> nat \<times> nat list) option"

definition utf8_first :: "nat \<Rightarrow> nat list \<times> pending" where
  "utf8_first b =
     (case utf8_lead b of
        None \<Rightarrow> (replacement, None)
      | Some (n, lo, hi) \<Rightarrow> if n = 0 then ([b], None) else ([], Some (n, lo, hi, [b])))"

fun utf8_scan :: "pending \<Rightarrow> nat list \<Rightarrow> nat list" where
  "utf8_scan None [] = []"
| "utf8_scan (Some _) [] = replacement"
| "utf8_scan None (b # bs) = (let (out, p) = utf8_first b in out @ utf8_scan p bs)"
| "utf8_scan (Some (n, lo, hi, seen)) (b # bs) =
     (if lo \<le> b \<and> b \<le> hi then
        (if n = 1 then seen @ [b] @ utf8_scan None bs
         else utf8_scan (Some (n - 1, 128, 191, seen @ [b])) bs)
      else let (out, p) = utf8_first b in replacement @ out @ utf8_scan p bs)"

text \<open>\<open>new TextDecoder().decode\<close>: a byte order mark at the start is dropped.\<close>

definition text_decode :: "nat list \<Rightarrow> nat list" where
  "text_decode bs = utf8_scan None (if take 3 bs = [239, 187, 191] then drop 3 bs else bs)"

definition safe_atob :: "string \<Rightarrow> string" where
  "safe_atob s = (case atob s of None \<Rightarrow> s | Some bs \<Rightarrow> map char_of (text_decode bs))"

definition safe_btoa :: "string \<Rightarrow> string" where
  "safe_btoa s = btoa s"

section \<open>The layer over a document\<close>

definition convert_entries :: "(string \<Rightarrow> string) \<Rightarrow> entries \<Rightarrow> entries" where
  "convert_entries f data = map (\<lambda>(k, v). (k, case v of JStr s \<Rightarrow> JStr (f s) | _ \<Rightarrow> v)) data"

definition map_data ::
  "(string \<Rightarrow> string) \<Rightarrow> (string \<Rightarrow> jsval option) \<Rightarrow> (jsval \<Rightarrow> string option) \<Rightarrow> string \<Rightarrow> string" where
  "map_data f parse stringify yaml =
     (if trim_str yaml = [] then yaml
      else case parse yaml of
        Some (JObj root) \<Rightarrow>
          (case entry_get root ''data'' of
             JObj data \<Rightarrow>
               (case stringify (JObj (spread root [(''data'', JObj (convert_entries f data))])) of
                  Some t \<Rightarrow> t | None \<Rightarrow> yaml)
           | _ \<Rightarrow> yaml)
      | _ \<Rightarrow> yaml)"

definition decode_secret_yaml ::
  "(string \<Rightarrow> jsval option) \<Rightarrow> (jsval \<Rightarrow> string option) \<Rightarrow> string \<Rightarrow> string" where
  "decode_secret_yaml = map_data safe_atob"

definition encode_secret_yaml ::
  "(string \<Rightarrow> jsval option) \<Rightarrow> (jsval \<Rightarrow> string option) \<Rightarrow> string \<Rightarrow> string" where
  "encode_secret_yaml = map_data safe_btoa"

section \<open>The form\<close>

text \<open>The text of the parent, the object of the bridge, the toggle of the form and the reports of unreadable text.\<close>

record secret_form =
  sf_yaml :: string
  sf_obj :: entries
  sf_raw :: bool
  sf_errors :: nat

definition parse_safe :: "(string \<Rightarrow> jsval option) \<Rightarrow> string \<Rightarrow> entries \<times> nat" where
  "parse_safe parse yaml =
     (if trim_str yaml = [] then ([], 0)
      else case parse yaml of Some (JObj o') \<Rightarrow> (o', 0) | _ \<Rightarrow> ([], 1))"

definition form_view ::
  "(string \<Rightarrow> jsval option) \<Rightarrow> (jsval \<Rightarrow> string option) \<Rightarrow> bool \<Rightarrow> string \<Rightarrow> string" where
  "form_view parse stringify raw yaml = (if raw then yaml else decode_secret_yaml parse stringify yaml)"

definition secret_change ::
  "(string \<Rightarrow> jsval option) \<Rightarrow> (jsval \<Rightarrow> string option) \<Rightarrow> string \<Rightarrow> secret_form \<Rightarrow> secret_form" where
  "secret_change parse stringify t s =
     s\<lparr>sf_yaml := (if sf_raw s then t else encode_secret_yaml parse stringify t)\<rparr>"

text \<open>The bridge's effect after the text it is given changed.\<close>

definition bridge_effect ::
  "(entries \<Rightarrow> string) \<Rightarrow> (string \<Rightarrow> jsval option) \<Rightarrow> string \<Rightarrow> secret_form \<Rightarrow> secret_form" where
  "bridge_effect json parse view s =
     (let (reparsed, e) = parse_safe parse view
      in s\<lparr>sf_obj := (if json (sf_obj s) = json reparsed then sf_obj s else reparsed),
           sf_errors := sf_errors s + e\<rparr>)"

datatype secret_event = SfEdit entries | SfToggle | SfParent string

text \<open>Every event is followed by a render, in which the bridge sees the view of the parent's text.\<close>

definition secret_step ::
  "(entries \<Rightarrow> string) \<Rightarrow> (string \<Rightarrow> jsval option) \<Rightarrow> (jsval \<Rightarrow> string option)
    \<Rightarrow> secret_form \<Rightarrow> secret_event \<Rightarrow> secret_form" where
  "secret_step json parse stringify s e =
     (let s1 = (case e of
                  SfEdit next \<Rightarrow>
                    (let s = s\<lparr>sf_obj := next\<rparr>
                     in case stringify (JObj next) of
                          Some t \<Rightarrow> secret_change parse stringify t s | None \<Rightarrow> s)
                | SfToggle \<Rightarrow> s\<lparr>sf_raw := \<not> sf_raw s\<rparr>
                | SfParent t \<Rightarrow> s\<lparr>sf_yaml := t\<rparr>);
          old = form_view parse stringify (sf_raw s) (sf_yaml s);
          view = form_view parse stringify (sf_raw s1) (sf_yaml s1)
      in if view = old then s1 else bridge_effect json parse view s1)"

section \<open>Base64 keeps every byte\<close>

fun sextets :: "nat list \<Rightarrow> nat list" where
  "sextets [] = []"
| "sextets [a] = [a div 4, a mod 4 * 16]"
| "sextets [a, b] = [a div 4, a mod 4 * 16 + b div 16, b mod 16 * 4]"
| "sextets (a # b # c # rest) =
     a div 4 # (a mod 4 * 16 + b div 16) # (b mod 16 * 4 + c div 64) # (c mod 64) # sextets rest"

fun pad_count :: "nat list \<Rightarrow> nat" where
  "pad_count [] = 0"
| "pad_count [a] = 2"
| "pad_count [a, b] = 1"
| "pad_count (a # b # c # rest) = pad_count rest"

lemma groups_are_sextets:
  "base64_groups bs = map ((!) base64_alphabet) (sextets bs) @ replicate (pad_count bs) CHR ''=''"
  by (induction bs rule: sextets.induct) (simp_all add: numeral_2_eq_2)

lemma pad_fills: "(length (sextets bs) + pad_count bs) mod 4 = 0 \<and> pad_count bs \<le> 2
    \<and> length (sextets bs) mod 4 \<noteq> 1"
  by (induction bs rule: sextets.induct) simp_all

lemma sextets_less: "\<forall>b \<in> set bs. b < 256 \<Longrightarrow> \<forall>x \<in> set (sextets bs). x < 64"
  by (induction bs rule: sextets.induct) auto

lemma pack_div: "y < m \<Longrightarrow> (x * m + y) div m = (x :: nat)" and pack_mod: "y < m \<Longrightarrow> (x * m + y) mod m = (y :: nat)"
  by simp_all

lemma three_bytes:
  assumes "b < 256" "c < (256 :: nat)"
  shows "(a :: nat) div 4 * 4 + (a mod 4 * 16 + b div 16) div 16 = a"
    "(a mod 4 * 16 + b div 16) mod 16 * 16 + (b mod 16 * 4 + c div 64) div 4 = b"
    "(b mod 16 * 4 + c div 64) mod 4 * 64 + c mod 64 = c"
proof -
  have b: "b div 16 < 16" and c: "c div 64 < 4" using assms by (simp_all add: less_mult_imp_div_less)
  show "a div 4 * 4 + (a mod 4 * 16 + b div 16) div 16 = a"
    unfolding pack_div [OF b] by simp
  show "(a mod 4 * 16 + b div 16) mod 16 * 16 + (b mod 16 * 4 + c div 64) div 4 = b"
    unfolding pack_mod [OF b] pack_div [OF c] by simp
  show "(b mod 16 * 4 + c div 64) mod 4 * 64 + c mod 64 = c"
    unfolding pack_mod [OF c] by simp
qed

lemma bytes_of_sextets: "\<forall>b \<in> set bs. b < 256 \<Longrightarrow> base64_bytes (sextets bs) = bs"
proof (induction bs rule: sextets.induct)
  case (3 a b)
  then show ?case using three_bytes(1, 2) [of b 0 a] by (simp add: algebra_simps)
next
  case (4 a b c rest)
  then show ?case using three_bytes(1, 2) [of b c a] three_bytes(3) [of b c] by (simp add: algebra_simps)
qed auto

lemma sextet_alphabet: "n < 64 \<Longrightarrow> sextet (base64_alphabet ! n) = Some n"
proof -
  have "list_all (\<lambda>n. sextet (base64_alphabet ! n) = Some n) [0..<64]" by code_simp
  then show "n < 64 \<Longrightarrow> sextet (base64_alphabet ! n) = Some n" by (simp add: list_all_iff)
qed

lemma alphabet_plain: "n < 64 \<Longrightarrow> base64_alphabet ! n \<noteq> CHR ''='' \<and> \<not> ascii_space (base64_alphabet ! n)"
proof -
  have "list_all (\<lambda>n. base64_alphabet ! n \<noteq> CHR ''='' \<and> \<not> ascii_space (base64_alphabet ! n)) [0..<64]" by code_simp
  then show "n < 64 \<Longrightarrow> ?thesis" by (simp add: list_all_iff)
qed

lemma drop_pad_plain: "CHR ''='' \<notin> set s \<Longrightarrow> drop_pad s = s"
  by (auto simp: drop_pad_def) (metis last_in_set)

lemma drop_pad_snoc: "drop_pad (s @ [CHR ''='']) = s"
  by (simp add: drop_pad_def)

lemma drop_pads:
  assumes "CHR ''='' \<notin> set s" "k \<le> 2"
  shows "drop_pad (drop_pad (s @ replicate k CHR ''='')) = s"
proof -
  consider "k = 0" | "k = 1" | "k = 2" using assms(2) by linarith
  then show ?thesis
  proof cases
    case 3
    then have "s @ replicate k CHR ''='' = (s @ [CHR ''='']) @ [CHR ''='']" by (simp add: numeral_2_eq_2)
    then show ?thesis by (simp only: drop_pad_snoc)
  qed (simp_all add: drop_pad_plain assms drop_pad_snoc)
qed

lemma those_sextets: "\<forall>x \<in> set xs. x < 64 \<Longrightarrow> those (map (sextet \<circ> (!) base64_alphabet) xs) = Some xs"
  by (induction xs) (simp_all add: sextet_alphabet)

theorem atob_of_btoa: "atob (btoa s) = Some (map of_char s)"
proof -
  let ?bs = "map of_char s :: nat list"
  let ?x = "map ((!) base64_alphabet) (sextets ?bs)"
  have b: "\<forall>b \<in> set ?bs. b < 256" using of_char_less by auto
  note less = sextets_less [OF b]
  have plain: "CHR ''='' \<notin> set ?x" "filter (\<lambda>c. \<not> ascii_space c) ?x = ?x"
    using less alphabet_plain by (auto simp: filter_id_conv dest!: bspec) (metis alphabet_plain)
  have "\<not> ascii_space CHR ''=''" by code_simp
  then have t: "filter (\<lambda>c. \<not> ascii_space c) (btoa s) = ?x @ replicate (pad_count ?bs) CHR ''=''"
    unfolding btoa_def groups_are_sextets by (simp add: plain(2))
  have u: "drop_pad (drop_pad (?x @ replicate (pad_count ?bs) CHR ''='')) = ?x"
    using pad_fills [of ?bs] by (intro drop_pads plain(1)) simp
  show ?thesis
    unfolding atob_def t Let_def
    using pad_fills [of ?bs] by (simp add: u those_sextets [OF less] bytes_of_sextets [OF b])
qed

section \<open>UTF-8 text is decoded to itself\<close>

definition utf8_encode :: "nat \<Rightarrow> nat list" where
  "utf8_encode c =
     (if c < 128 then [c]
      else if c < 2048 then [192 + c div 64, 128 + c mod 64]
      else if c < 65536 then [224 + c div 4096, 128 + c div 64 mod 64, 128 + c mod 64]
      else [240 + c div 262144, 128 + c div 4096 mod 64, 128 + c div 64 mod 64, 128 + c mod 64])"

definition scalar_value :: "nat \<Rightarrow> bool" where
  "scalar_value c = (c < 1114112 \<and> \<not> (55296 \<le> c \<and> c \<le> 57343))"

lemma scan_two: "\<lbrakk>2 \<le> q; q < 32; y < 64\<rbrakk> \<Longrightarrow>
    utf8_scan None ([192 + q, 128 + y] @ rest) = [192 + q, 128 + y] @ utf8_scan None rest"
  by (simp add: utf8_first_def utf8_lead_def)

lemma scan_three: "\<lbrakk>q < 16; x < 64; y < 64; q = 0 \<longrightarrow> 32 \<le> x; q = 13 \<longrightarrow> x < 32\<rbrakk> \<Longrightarrow>
    utf8_scan None ([224 + q, 128 + x, 128 + y] @ rest) = [224 + q, 128 + x, 128 + y] @ utf8_scan None rest"
  by (auto simp: utf8_first_def utf8_lead_def)

lemma scan_four: "\<lbrakk>q < 5; x < 64; y < 64; z < 64; q = 0 \<longrightarrow> 16 \<le> x; q = 4 \<longrightarrow> x < 16\<rbrakk> \<Longrightarrow>
    utf8_scan None ([240 + q, 128 + x, 128 + y, 128 + z] @ rest)
      = [240 + q, 128 + x, 128 + y, 128 + z] @ utf8_scan None rest"
  by (auto simp: utf8_first_def utf8_lead_def)

lemma scan_scalar:
  assumes "scalar_value c"
  shows "utf8_scan None (utf8_encode c @ rest) = utf8_encode c @ utf8_scan None rest"
proof -
  consider "c < 128" | "128 \<le> c" "c < 2048" | "2048 \<le> c" "c < 65536" | "65536 \<le> c" by linarith
  then show ?thesis
  proof cases
    case 1
    then show ?thesis by (simp add: utf8_encode_def utf8_first_def utf8_lead_def)
  next
    case 2
    have e: "utf8_encode c = [192 + c div 64, 128 + c mod 64]" using 2 by (simp add: utf8_encode_def)
    show ?thesis unfolding e
      by (rule scan_two) (use 2 in \<open>simp_all add: less_eq_div_iff_mult_less_eq div_less_iff_less_mult\<close>)
  next
    case 3
    define m where "m = c div 64"
    have e: "utf8_encode c = [224 + m div 64, 128 + m mod 64, 128 + c mod 64]"
      using 3 by (simp add: utf8_encode_def m_def div_mult2_eq [symmetric])
    have r: "32 \<le> m" "m < 1024" "\<not> (864 \<le> m \<and> m < 896)"
      using 3 assms by (auto simp: m_def scalar_value_def less_eq_div_iff_mult_less_eq div_less_iff_less_mult)
    have d: "m = 64 * (m div 64) + m mod 64" "m mod 64 < 64" by simp_all
    then have "m div 64 < 16" "m div 64 = 0 \<longrightarrow> 32 \<le> m mod 64" "m div 64 = 13 \<longrightarrow> m mod 64 < 32"
      using r by linarith+
    then show ?thesis unfolding e by (intro scan_three) simp_all
  next
    case 4
    define k where "k = c div 4096"
    have e: "utf8_encode c = [240 + k div 64, 128 + k mod 64, 128 + c div 64 mod 64, 128 + c mod 64]"
      using 4 by (simp add: utf8_encode_def k_def div_mult2_eq [symmetric])
    have r: "16 \<le> k" "k < 272"
      using 4 assms by (auto simp: k_def scalar_value_def less_eq_div_iff_mult_less_eq div_less_iff_less_mult)
    have d: "k = 64 * (k div 64) + k mod 64" "k mod 64 < 64" by simp_all
    then have "k div 64 < 5" "k div 64 = 0 \<longrightarrow> 16 \<le> k mod 64" "k div 64 = 4 \<longrightarrow> k mod 64 < 16"
      using r by linarith+
    then show ?thesis unfolding e by (intro scan_four) simp_all
  qed
qed

lemma scan_text: "\<forall>c \<in> set cs. scalar_value c \<Longrightarrow>
    utf8_scan None (concat (map utf8_encode cs)) = concat (map utf8_encode cs)"
proof (induction cs)
  case (Cons c cs)
  then show ?case using scan_scalar [of c "concat (map utf8_encode cs)"] by simp
qed simp

text \<open>The bytes of a text, without a byte order mark in front.\<close>

definition plain_text :: "string \<Rightarrow> bool" where
  "plain_text s =
     ((\<exists>cs. (\<forall>c \<in> set cs. scalar_value c) \<and> map of_char s = concat (map utf8_encode cs))
      \<and> take 3 (map of_char s) \<noteq> [239, 187, 191 :: nat])"

lemma btoa_atob_text: "plain_text s \<Longrightarrow> safe_atob (safe_btoa s) = s"
proof -
  assume "plain_text s"
  then have "text_decode (map of_char s) = map of_char s"
    by (auto simp: plain_text_def text_decode_def scan_text)
  then show ?thesis by (simp add: safe_atob_def safe_btoa_def atob_of_btoa comp_def)
qed

text \<open>
  a value typed into the form is the value it shows. Encoding a text for the secret and
  decoding it again gives the text, whatever characters it has.
\<close>

theorem typed_secret_survives: "plain_text s \<Longrightarrow> safe_atob (safe_btoa s) = s"
  by (rule btoa_atob_text)

lemma ascii_is_plain: "\<forall>c \<in> set s. (of_char c :: nat) < 128 \<Longrightarrow> plain_text s"
proof -
  assume a: "\<forall>c \<in> set s. (of_char c :: nat) < 128"
  have id: "concat (map utf8_encode ns) = ns" if "\<forall>n \<in> set ns. n < 128" for ns
    using that by (induction ns) (simp_all add: utf8_encode_def)
  have "map of_char s = concat (map utf8_encode (map of_char s))"
    by (rule id [symmetric]) (use a in auto)
  moreover have "\<forall>c \<in> set (map of_char s). scalar_value c" using a by (auto simp: scalar_value_def)
  moreover have "take 3 (map of_char s) \<noteq> [239, 187, 191 :: nat]"
    using a by (cases s) auto
  ultimately show ?thesis unfolding plain_text_def by blast
qed

lemma typed_secret_survives_witness: "safe_atob (safe_btoa ''p4ss'') = ''p4ss''"
  by (rule typed_secret_survives, rule ascii_is_plain) simp

section \<open>The layer over the document\<close>







text \<open>What the form relies on in the YAML library: what it writes for an object it reads back.\<close>

definition reads_back :: "(string \<Rightarrow> jsval option) \<Rightarrow> (jsval \<Rightarrow> string option) \<Rightarrow> jsval \<Rightarrow> bool" where
  "reads_back parse stringify v =
     (case stringify v of None \<Rightarrow> False | Some t \<Rightarrow> trim_str t \<noteq> [] \<and> parse t = Some v)"

definition typed_texts :: "entries \<Rightarrow> bool" where
  "typed_texts data = (\<forall>(k, v) \<in> set data. \<forall>t. v = JStr t \<longrightarrow> plain_text t)"

lemma convert_forth: "typed_texts data \<Longrightarrow> convert_entries safe_atob (convert_entries safe_btoa data) = data"
proof (induction data)
  case (Cons p data)
  obtain a v where p: "p = (a, v)" by fastforce
  have "convert_entries safe_atob (convert_entries safe_btoa [(a, v)]) = [(a, v)]"
    using Cons.prems by (cases v) (auto simp: p typed_texts_def convert_entries_def btoa_atob_text)
  then show ?case using Cons by (simp add: p convert_entries_def typed_texts_def)
qed (simp add: convert_entries_def)

lemma update_back: "map_of al k = Some v \<Longrightarrow> AList.update k v (AList.update k w al) = al"
  by (induction al) (auto split: if_splits)

lemma map_data_object:
  assumes "trim_str t \<noteq> []" "parse t = Some (JObj root)" "map_of root ''data'' = Some (JObj d)"
    "stringify (JObj (AList.update ''data'' (JObj (convert_entries f d)) root)) = Some u"
  shows "map_data f parse stringify t = u"
  using assms by (simp add: map_data_def entry_get_def spread_def)

text \<open>
  typing into the form of a secret settles at once. After an edit whose values are texts the
  parent's text holds the same object with every value encoded, and the render that follows
  gives the form back exactly the object just typed, with no report of an error.
\<close>

theorem secret_edit_settles:
  assumes "\<not> sf_raw s" "map_of next ''data'' = Some (JObj d)" "typed_texts d"
    and "reads_back parse stringify (JObj next)"
    and "reads_back parse stringify (JObj (AList.update ''data'' (JObj (convert_entries safe_btoa d)) next))"
  shows "let s' = secret_step json parse stringify s (SfEdit next)
    in sf_obj s' = next \<and> sf_errors s' = sf_errors s
       \<and> parse (sf_yaml s') = Some (JObj (AList.update ''data'' (JObj (convert_entries safe_btoa d)) next))"
proof -
  let ?enc = "AList.update ''data'' (JObj (convert_entries safe_btoa d)) next"
  obtain t where t: "stringify (JObj next) = Some t" "trim_str t \<noteq> []" "parse t = Some (JObj next)"
    using assms(4) by (auto simp: reads_back_def split: option.splits)
  obtain u where u: "stringify (JObj ?enc) = Some u" "trim_str u \<noteq> []" "parse u = Some (JObj ?enc)"
    using assms(5) by (auto simp: reads_back_def split: option.splits)
  have enc: "encode_secret_yaml parse stringify t = u"
    unfolding encode_secret_yaml_def
    using t(2,3) assms(2) u(1) by (intro map_data_object [of t parse "next" d stringify safe_btoa u])
  have data: "map_of ?enc ''data'' = Some (JObj (convert_entries safe_btoa d))" by (simp add: update_conv')
  have "AList.update ''data'' (JObj (convert_entries safe_atob (convert_entries safe_btoa d))) ?enc = next"
    unfolding convert_forth [OF assms(3)] by (rule update_back [OF assms(2)])
  then have dec: "decode_secret_yaml parse stringify u = t"
    unfolding decode_secret_yaml_def using u(2,3) data t(1)
    by (intro map_data_object [of u parse ?enc "convert_entries safe_btoa d" stringify safe_atob t]) simp_all
  show ?thesis
    using assms(1) by (simp add: secret_step_def t secret_change_def enc form_view_def dec
        bridge_effect_def parse_safe_def u(3) Let_def)
qed

lemma secret_edit_settles_witness:
  "let a = [(''data'', JObj [(''k'', JStr ''hi'')])]; b = [(''data'', JObj [(''k'', JStr ''aGk='')])];
       parse = (\<lambda>t. if t = ''a'' then Some (JObj a) else if t = ''b'' then Some (JObj b) else None);
       stringify = (\<lambda>v. if v = JObj a then Some ''a'' else if v = JObj b then Some ''b'' else None);
       s' = secret_step (\<lambda>_. []) parse stringify \<lparr>sf_yaml = ''b'', sf_obj = [], sf_raw = False, sf_errors = 0\<rparr> (SfEdit a)
   in sf_obj s' = a \<and> parse (sf_yaml s') = Some (JObj b)"
proof -
  let ?a = "[(''data'', JObj [(''k'', JStr ''hi'')])]"
  let ?b = "[(''data'', JObj [(''k'', JStr ''aGk='')])]"
  let ?parse = "\<lambda>t. if t = ''a'' then Some (JObj ?a) else if t = ''b'' then Some (JObj ?b) else None"
  let ?stringify = "\<lambda>v. if v = JObj ?a then Some ''a'' else if v = JObj ?b then Some ''b'' else None"
  let ?s = "\<lparr>sf_yaml = ''b'', sf_obj = [], sf_raw = False, sf_errors = 0\<rparr>"
  have e: "safe_btoa ''hi'' = ''aGk=''" by code_simp
  have b: "AList.update ''data'' (JObj (convert_entries safe_btoa [(''k'', JStr ''hi'')])) ?a = ?b"
    by (simp add: convert_entries_def e)
  have t: "typed_texts [(''k'', JStr ''hi'')]" by (simp add: typed_texts_def ascii_is_plain)
  have trims: "trim_str ''a'' \<noteq> []" "trim_str ''b'' \<noteq> []" by code_simp+
  have "let s' = secret_step (\<lambda>_. []) ?parse ?stringify ?s (SfEdit ?a)
    in sf_obj s' = ?a \<and> sf_errors s' = sf_errors ?s \<and> ?parse (sf_yaml s')
        = Some (JObj (AList.update ''data'' (JObj (convert_entries safe_btoa [(''k'', JStr ''hi'')])) ?a))"
    by (rule secret_edit_settles) (simp_all only: b, simp_all add: t reads_back_def trims)
  then show ?thesis unfolding b Let_def by blast
qed

section \<open>Where the layer loses something\<close>

text \<open>
  a binary value is destroyed by editing another key: its bytes are decoded as text, what is
  not UTF-8 is replaced, and the replacement is what is encoded again.
\<close>

theorem binary_secret_is_destroyed:
  "convert_entries safe_btoa (AList.update ''user'' (JStr ''ann'') (convert_entries safe_atob
      [(''user'', JStr ''Ym9i''), (''key'', JStr ''/w=='')]))
   = [(''user'', JStr ''YW5u''), (''key'', JStr ''77+9'')]"
  by code_simp

text \<open>
  a value that already is base64 is encoded once more, although the comment says it is skipped.
\<close>

theorem base64_is_encoded_again: "safe_btoa ''aGk='' = ''YUdrPQ==''"
  by code_simp

text \<open>
  text that cannot be read empties the form, although the comment says the object is kept; the next
  edit then replaces the whole document by what was edited.
\<close>

theorem unreadable_text_empties_form:
  assumes "parse t = None" "trim_str t \<noteq> []" "sf_raw s" "sf_yaml s \<noteq> t" "json (sf_obj s) \<noteq> json []"
  shows "sf_obj (secret_step json parse stringify s (SfParent t)) = []"
  using assms by (simp add: secret_step_def form_view_def bridge_effect_def parse_safe_def)

end
