(* ===== verification/WorkloadActions.thy ===== *)
theory WorkloadActions
  imports Helm ManagedFields ApplyState AddonVersions CanI
begin

text \<open>
  Model of the controls that act on one object: the action bar of the editors
  (\<open>web/src/components/detail/yaml/ActionBar.tsx\<close>), the scale popover
  (\<open>components/edit/ScalePopover.tsx\<close>), the rollback dialog
  (\<open>components/workload/RollbackDialog.tsx\<close>) and the toolbar of a built-in kind with its
  confirmations (\<open>components/edit/ResourceActions.tsx\<close>). The optimistic mutations behind them are
  those of the mutation hooks; here they are requests that are sent and settle.
\<close>

section \<open>The action bar\<close>

record bar_props =
  bp_dirty :: bool
  bp_errors :: nat
  bp_state :: apply_state
  bp_hide_diff :: bool
  bp_hide_errors :: bool

datatype bar_button = BarCancel | BarPatch | BarDryRun | BarDiff | BarApply

definition no_edits :: string where
  "no_edits = ''make a change first''"

definition busy_msg :: "action_bar_view \<Rightarrow> string" where
  "busy_msg v =
     (if av_status_chip v = ChipInFlight CValidating then ''dry-run in progress'' @ ellipsis_char
      else ''apply in progress'' @ ellipsis_char)"

definition edit_reason :: "bar_props \<Rightarrow> string option" where
  "edit_reason p =
     (let v = action_bar_view_model (bp_state p)
      in if av_busy v then Some (busy_msg v) else if \<not> bp_dirty p then Some no_edits else None)"

definition apply_reason :: "bar_props \<Rightarrow> string option" where
  "apply_reason p =
     (let v = action_bar_view_model (bp_state p)
      in if av_busy v then Some (busy_msg v)
         else if \<not> bp_dirty p then Some no_edits
         else if \<not> bp_hide_errors p \<and> 0 < bp_errors p
         then Some (''fix '' @ show_nat (bp_errors p) @ '' schema error'' @
                (if bp_errors p = 1 then [] else ''s'') @ '' first'')
         else None)"

datatype bar_outcome = RunsAction | ShowsToast string | IgnoresClick

definition guarded :: "string option \<Rightarrow> bar_outcome" where
  "guarded reason = (case reason of Some r \<Rightarrow> if r \<noteq> [] then ShowsToast r else RunsAction | None \<Rightarrow> RunsAction)"

fun bar_click :: "bar_props \<Rightarrow> bar_button \<Rightarrow> bar_outcome" where
  "bar_click p BarCancel = (if av_busy (action_bar_view_model (bp_state p)) then IgnoresClick else RunsAction)"
| "bar_click p BarPatch = guarded (edit_reason p)"
| "bar_click p BarDryRun = guarded (edit_reason p)"
| "bar_click p BarDiff = (if bp_hide_diff p then IgnoresClick else guarded (edit_reason p))"
| "bar_click p BarApply = guarded (apply_reason p)"

section \<open>Scaling\<close>

definition digits_of :: "string \<Rightarrow> string" where
  "digits_of s = takeWhile is_digit s"

text \<open>
  \<open>Number(value)\<close> on the texts a number field can hold, when it is an integer; None also for the
  empty text. Values beyond 2^53, which JavaScript rounds, keep their exact value here.
\<close>

definition number_field :: "string \<Rightarrow> int option" where
  "number_field s =
     (let neg = starts_with ''-'' s;
          t = (if neg then tl s else s);
          ip = digits_of t;
          r1 = drop (length ip) t;
          dot = starts_with ''.'' r1;
          fp = (if dot then digits_of (tl r1) else []);
          r2 = (if dot then drop (length fp) (tl r1) else r1);
          ex = (r2 \<noteq> [] \<and> hd r2 \<in> set ''eE'');
          r3 = (if ex then tl r2 else r2);
          eneg = starts_with ''-'' r3;
          r4 = (if eneg \<or> starts_with ''+'' r3 then tl r3 else r3);
          ds = digits_of r4
      in if ip @ fp = [] \<or> (dot \<and> fp = []) \<or> (if ex then ds = [] \<or> drop (length ds) r4 \<noteq> [] else r2 \<noteq> [])
         then None
         else (let m = (if neg then - decimal_value (ip @ fp) else decimal_value (ip @ fp));
                   e = (if ex then (if eneg then - decimal_value ds else decimal_value ds) else 0)
                         - int (length fp)
               in if 0 \<le> e then Some (m * 10 ^ nat e)
                  else if m mod 10 ^ nat (- e) = 0 then Some (m div 10 ^ nat (- e)) else None))"

definition scale_valid :: "string \<Rightarrow> bool" where
  "scale_valid v = (trim_str v \<noteq> [] \<and> (case number_field v of Some n \<Rightarrow> 0 \<le> n | None \<Rightarrow> False))"

definition submit_disabled :: "int \<Rightarrow> string \<Rightarrow> bool" where
  "submit_disabled current v = (\<not> scale_valid v \<or> number_field v = Some current)"

definition will_stop_all_pods :: "int \<Rightarrow> string \<Rightarrow> bool" where
  "will_stop_all_pods current v = (scale_valid v \<and> number_field v = Some 0 \<and> 0 < current)"

definition bump :: "int \<Rightarrow> string \<Rightarrow> string" where
  "bump delta v = show_int (max 0 ((case number_field v of Some n \<Rightarrow> n | None \<Rightarrow> 0) + delta))"

record scale_popover =
  sp_current :: int
  sp_open :: bool
  sp_value :: string
  sp_submitted :: "int list"

definition open_scale :: "int \<Rightarrow> scale_popover" where
  "open_scale current =
     \<lparr>sp_current = current, sp_open = True, sp_value = show_int current, sp_submitted = []\<rparr>"

definition scale_submit :: "scale_popover \<Rightarrow> scale_popover" where
  "scale_submit s =
     (if submit_disabled (sp_current s) (sp_value s) then s
      else (case number_field (sp_value s) of
              None \<Rightarrow> s
            | Some n \<Rightarrow> s\<lparr>sp_submitted := sp_submitted s @ [n], sp_open := False\<rparr>))"

datatype scale_event = ScaleTyped string | KeyUp | KeyDown | MinusClicked | PlusClicked | ScaleEnter | ScaleCancel | CountChanged int

fun scale_step :: "scale_popover \<Rightarrow> scale_event \<Rightarrow> scale_popover" where
  "scale_step s (ScaleTyped v) = (if sp_open s then s\<lparr>sp_value := v\<rparr> else s)"
| "scale_step s KeyUp = (if sp_open s then s\<lparr>sp_value := bump 1 (sp_value s)\<rparr> else s)"
| "scale_step s KeyDown = (if sp_open s then s\<lparr>sp_value := bump (-1) (sp_value s)\<rparr> else s)"
| "scale_step s MinusClicked =
     (if sp_open s \<and> scale_valid (sp_value s) \<and> number_field (sp_value s) \<noteq> Some 0
      then s\<lparr>sp_value := bump (-1) (sp_value s)\<rparr> else s)"
| "scale_step s PlusClicked =
     (if sp_open s \<and> (scale_valid (sp_value s) \<or> trim_str (sp_value s) = [])
      then s\<lparr>sp_value := bump 1 (sp_value s)\<rparr> else s)"
| "scale_step s ScaleEnter = (if sp_open s then scale_submit s else s)"
| "scale_step s ScaleCancel = s\<lparr>sp_open := False\<rparr>"
| "scale_step s (CountChanged n) = s\<lparr>sp_current := n\<rparr>"

definition replicas_owner :: "(string \<Rightarrow> jsval option) \<Rightarrow> managed_entry list \<Rightarrow> manager_info option" where
  "replicas_owner json entries =
     (case map_of (path_to_manager (parse_managed_fields json entries)) ''spec.replicas'' of
        None \<Rightarrow> None
      | Some m \<Rightarrow> if m = [] then None else Some (classify_manager m))"

definition show_hpa_warning :: "(string \<Rightarrow> jsval option) \<Rightarrow> managed_entry list \<Rightarrow> bool" where
  "show_hpa_warning json entries =
     (case replicas_owner json entries of None \<Rightarrow> False | Some i \<Rightarrow> ri_category i = CONTROLLER)"

section \<open>Rolling back\<close>

record revision =
  rv_number :: int
  rv_current :: bool

record revision_history =
  rh_revisions :: "revision list"
  rh_paused :: bool

record workload_ref =
  wr_cluster :: string
  wr_kind :: string
  wr_namespace :: string
  wr_name :: string

record rollback_dialog =
  rb_open :: bool
  rb_history :: "revision_history option"
  rb_selected :: "int option"
  rb_reason :: string
  rb_pending :: bool
  rb_resuming :: bool
  rb_sent :: "http_request list"
  rb_swept :: "query list"
  rb_toasts :: "string list"

definition closed_rollback :: rollback_dialog where
  "closed_rollback =
     \<lparr>rb_open = False, rb_history = None, rb_selected = None, rb_reason = [], rb_pending = False,
      rb_resuming = False, rb_sent = [], rb_swept = [], rb_toasts = []\<rparr>"

fun kind_label :: "string \<Rightarrow> string" where
  "kind_label k =
     (if k = ''deployments'' then ''deployment'' else if k = ''statefulsets'' then ''statefulset''
      else if k = ''daemonsets'' then ''daemonset'' else ''undefined'')"

definition is_paused :: "rollback_dialog \<Rightarrow> bool" where
  "is_paused s = (case rb_history s of Some h \<Rightarrow> rh_paused h | None \<Rightarrow> False)"

definition rollback_body :: "int \<Rightarrow> string \<Rightarrow> jsval" where
  "rollback_body n reason =
     JObj ((''revision'', JNum n) #
           (if trim_str reason \<noteq> [] then [(''reason'', JStr (trim_str reason))] else []))"

definition revision_of :: "rollback_dialog \<Rightarrow> int \<Rightarrow> revision option" where
  "revision_of s n =
     (case rb_history s of None \<Rightarrow> None | Some h \<Rightarrow> find (\<lambda>r. rv_number r = n) (rh_revisions h))"

definition revisions_query :: "workload_ref \<Rightarrow> query" where
  "revisions_query w = QCluster (wr_cluster w) (CKind (wr_kind w) (KRevisions (wr_namespace w) (wr_name w)))"

definition right_arrow :: string where
  "right_arrow = map char_of [226, 134, 146 :: nat]"

definition on_rolled_back :: "workload_ref \<Rightarrow> int \<Rightarrow> rollback_dialog \<Rightarrow> rollback_dialog" where
  "on_rolled_back w new_revision s =
     s\<lparr>rb_pending := False,
       rb_toasts := rb_toasts s @ [''rolled back '' @ kind_label (wr_kind w) @ '' '' @ wr_name w @
         '' '' @ right_arrow @ '' revision '' @ (if new_revision \<noteq> 0 then show_int new_revision else ''(observing)'')],
       rb_swept := rb_swept s @ [QCluster (wr_cluster w) (CKind (wr_kind w) KAll), revisions_query w],
       rb_open := False\<rparr>"

definition resume_yaml :: "workload_ref \<Rightarrow> string" where
  "resume_yaml w =
     join_str [newline]
       [''apiVersion: apps/v1'', ''kind: Deployment'', ''metadata:'', ''  name: '' @ wr_name w,
        ''  namespace: '' @ wr_namespace w, ''spec:'', ''  paused: false'', []]"

definition resume_request :: "workload_ref \<Rightarrow> http_request" where
  "resume_request w =
     \<lparr>hr_method = PATCH,
      hr_url = cluster_url (wr_cluster w) [''resources'', ''apps'', ''v1'', enc (wr_kind w),
                 enc (wr_namespace w), enc (wr_name w)] @ ''?force=true'',
      hr_headers = [(''Content-Type'', ''application/x-yaml'')],
      hr_body = Some (TextBody (resume_yaml w))\<rparr>"

datatype rollback_event =
    RollbackOpened
  | RollbackClosed
  | HistoryArrived revision_history
  | RevisionClicked int
  | ReasonTyped string
  | RollbackConfirmed
  | RolledBack int
  | RollbackFailed thrown
  | ResumeClicked
  | Resumed
  | ResumeFailed thrown

text \<open>
  The close button of the header is always live, the cancel button of the body is not while a
  rollback runs. A text field of at most 200 characters takes no longer text.
\<close>

fun rollback_step :: "workload_ref \<Rightarrow> rollback_dialog \<Rightarrow> rollback_event \<Rightarrow> rollback_dialog" where
  "rollback_step w s RollbackOpened =
     (if rb_open s then s else s\<lparr>rb_open := True, rb_selected := None, rb_reason := []\<rparr>)"
| "rollback_step w s RollbackClosed = s\<lparr>rb_open := False\<rparr>"
| "rollback_step w s (HistoryArrived h) = s\<lparr>rb_history := Some h\<rparr>"
| "rollback_step w s (RevisionClicked n) =
     (if rb_open s \<and> \<not> is_paused s \<and>
         (case revision_of s n of Some r \<Rightarrow> \<not> rv_current r | None \<Rightarrow> False)
      then s\<lparr>rb_selected := Some n\<rparr> else s)"
| "rollback_step w s (ReasonTyped t) =
     (if rb_open s \<and> rb_history s \<noteq> None \<and> \<not> is_paused s \<and> length t \<le> 200 then s\<lparr>rb_reason := t\<rparr> else s)"
| "rollback_step w s RollbackConfirmed =
     (if rb_open s \<and> rb_history s \<noteq> None \<and> \<not> is_paused s \<and> \<not> rb_pending s
      then (case rb_selected s of
              None \<Rightarrow> s
            | Some n \<Rightarrow> s\<lparr>rb_pending := True,
                rb_sent := rb_sent s @ [rollout_request (Rollback (wr_cluster w) (wr_kind w)
                   (wr_namespace w) (wr_name w) (rollback_body n (rb_reason s)))]\<rparr>)
      else s)"
| "rollback_step w s (RolledBack n) = (if rb_pending s then on_rolled_back w n s else s)"
| "rollback_step w s (RollbackFailed err) =
     (if rb_pending s
      then s\<lparr>rb_pending := False, rb_toasts := rb_toasts s @ [''rollback failed: '' @ friendly_error err]\<rparr>
      else s)"
| "rollback_step w s ResumeClicked =
     (if rb_open s \<and> is_paused s \<and> \<not> rb_resuming s
      then s\<lparr>rb_resuming := True, rb_sent := rb_sent s @ [resume_request w]\<rparr> else s)"
| "rollback_step w s Resumed =
     (if rb_resuming s
      then s\<lparr>rb_resuming := False, rb_swept := rb_swept s @ [revisions_query w], rb_open := False,
             rb_toasts := rb_toasts s @ [wr_name w @ '' resumed '' @ em_dash @ '' open the dialog again to roll back'']\<rparr>
      else s)"
| "rollback_step w s (ResumeFailed err) =
     (if rb_resuming s
      then s\<lparr>rb_resuming := False, rb_toasts := rb_toasts s @ [''resume failed: '' @ friendly_error err]\<rparr>
      else s)"

section \<open>The toolbar of an object\<close>

text \<open>
  The \<open>allowed\<close> fields of the four decisions of \<open>useCanIBatch\<close>, in the order of the checks. A
  decision also allows while its answer is pending (see \<open>CanI\<close>): it is not yet a right.
\<close>

record action_decisions =
  ar_edit :: bool
  ar_delete :: bool
  ar_scale :: bool
  ar_create_jobs :: bool

record action_detail =
  ad_replicas :: "int option"
  ad_suspend :: "bool option"
  ad_unschedulable :: "bool option"

record action_env =
  ae_kind :: string
  ae_name :: string
  ae_decisions :: action_decisions
  ae_detail :: "action_detail option"

definition decisions_of :: "can_i_decision list \<Rightarrow> action_decisions" where
  "decisions_of ds =
     \<lparr>ar_edit = cd_allowed (ds ! 0), ar_delete = cd_allowed (ds ! 1), ar_scale = cd_allowed (ds ! 2),
      ar_create_jobs = cd_allowed (ds ! 3)\<rparr>"

datatype action_button =
    BtnEdit | BtnLabels | BtnScale | BtnDelete | BtnRestart | BtnRollback | BtnSuspend | BtnTrigger | BtnCordon

definition scalable_kinds :: "string list" where
  "scalable_kinds = [''deployments'', ''statefulsets'', ''replicasets'']"

definition restartable_kinds :: "string list" where
  "restartable_kinds = [''deployments'', ''statefulsets'', ''daemonsets'']"

definition cached_replicas :: "action_env \<Rightarrow> int option" where
  "cached_replicas v = (case ae_detail v of None \<Rightarrow> None | Some d \<Rightarrow> ad_replicas d)"

fun button_shown :: "action_env \<Rightarrow> action_button \<Rightarrow> bool" where
  "button_shown v BtnScale = (ae_kind v \<in> set scalable_kinds \<and> cached_replicas v \<noteq> None)"
| "button_shown v BtnRestart = (ae_kind v \<in> set restartable_kinds)"
| "button_shown v BtnRollback = is_rollbackable (ae_kind v)"
| "button_shown v BtnSuspend = (ae_kind v = ''cronjobs'' \<and> ae_detail v \<noteq> None)"
| "button_shown v BtnTrigger = (ae_kind v = ''cronjobs'')"
| "button_shown v BtnCordon = (ae_kind v = ''nodes'' \<and> ae_detail v \<noteq> None)"
| "button_shown v _ = True"

fun button_allowed :: "action_env \<Rightarrow> action_button \<Rightarrow> bool" where
  "button_allowed v BtnDelete = ar_delete (ae_decisions v)"
| "button_allowed v BtnScale = (ar_scale (ae_decisions v) \<and> cached_replicas v \<noteq> None)"
| "button_allowed v BtnTrigger = ar_create_jobs (ae_decisions v)"
| "button_allowed v _ = ar_edit (ae_decisions v)"

definition suspended :: "action_env \<Rightarrow> bool" where
  "suspended v = (case ae_detail v of Some d \<Rightarrow> ad_suspend d = Some True | None \<Rightarrow> False)"

definition cordoned :: "action_env \<Rightarrow> bool" where
  "cordoned v = (case ae_detail v of Some d \<Rightarrow> ad_unschedulable d = Some True | None \<Rightarrow> False)"

fun button_label :: "action_env \<Rightarrow> action_button \<Rightarrow> string" where
  "button_label v BtnSuspend = (if suspended v then ''Resume'' else ''Suspend'')"
| "button_label v BtnCordon = (if cordoned v then ''Uncordon'' else ''Cordon'')"
| "button_label v BtnLabels = ''Labels''"
| "button_label v BtnScale = ''Scale''"
| "button_label v BtnDelete = ''Delete''"
| "button_label v BtnRestart = ''Restart''"
| "button_label v BtnRollback = ''Rollback''"
| "button_label v BtnTrigger = ''Trigger now''"
| "button_label v BtnEdit = ''Edit''"

text \<open>The label of the button that confirms, in the dialog that describes the action.\<close>

fun confirm_label :: "action_env \<Rightarrow> action_button \<Rightarrow> string" where
  "confirm_label v BtnDelete = ''delete''"
| "confirm_label v BtnRestart = ''restart''"
| "confirm_label v BtnTrigger = ''trigger''"
| "confirm_label v BtnSuspend = (if suspended v then ''resume'' else ''suspend'')"
| "confirm_label v BtnCordon = (if cordoned v then ''uncordon'' else ''cordon'')"
| "confirm_label v _ = []"

datatype sent_action =
    SentDelete
  | SentRestart
  | SentTrigger
  | SentSuspend bool
  | SentCordon bool

text \<open>
  The confirmations that send: each with its dialog, its mutation's state and error, and the text
  typed into the deletion dialog.
\<close>

record action_state =
  ra_open :: "action_button list"
  ra_pending :: "action_button list"
  ra_errors :: "(action_button \<times> string) list"
  ra_typed :: string
  ra_sent :: "(action_button \<times> sent_action) list"
  ra_left :: bool

definition initial_actions :: action_state where
  "initial_actions =
     \<lparr>ra_open = [], ra_pending = [], ra_errors = [], ra_typed = [], ra_sent = [], ra_left = False\<rparr>"

definition confirmed_buttons :: "action_button list" where
  "confirmed_buttons = [BtnDelete, BtnRestart, BtnTrigger, BtnSuspend, BtnCordon]"

fun action_of :: "action_env \<Rightarrow> action_button \<Rightarrow> sent_action option" where
  "action_of v BtnDelete = Some SentDelete"
| "action_of v BtnRestart = Some SentRestart"
| "action_of v BtnTrigger = Some SentTrigger"
| "action_of v BtnSuspend = Some (SentSuspend (\<not> suspended v))"
| "action_of v BtnCordon = Some (SentCordon (\<not> cordoned v))"
| "action_of v _ = None"

datatype action_event =
    ButtonClicked action_button
  | DeleteNameTyped string
  | ActionConfirmed action_button
  | ActionDismissed action_button
  | ActionSettled action_button "string option"

text \<open>\<open>mutation.reset()\<close> forgets the error; a new call of the mutation does too.\<close>

definition forget_error :: "action_button \<Rightarrow> action_state \<Rightarrow> action_state" where
  "forget_error b s = s\<lparr>ra_errors := filter (\<lambda>e. fst e \<noteq> b) (ra_errors s)\<rparr>"

fun action_step :: "action_state \<Rightarrow> action_env \<times> action_event \<Rightarrow> action_state" where
  "action_step s (v, ButtonClicked b) =
     (if button_shown v b \<and> button_allowed v b
      then s\<lparr>ra_open := (if b \<in> set confirmed_buttons then List.insert b (ra_open s) else ra_open s),
             ra_typed := (if b = BtnDelete \<and> b \<notin> set (ra_open s) then [] else ra_typed s)\<rparr>
      else s)"
| "action_step s (v, DeleteNameTyped t) =
     (if BtnDelete \<in> set (ra_open s) \<and> BtnDelete \<notin> set (ra_pending s) then s\<lparr>ra_typed := t\<rparr> else s)"
| "action_step s (v, ActionConfirmed b) =
     (case action_of v b of
        None \<Rightarrow> s
      | Some a \<Rightarrow>
          if b \<in> set (ra_open s) \<and> b \<notin> set (ra_pending s) \<and> (b = BtnDelete \<longrightarrow> ra_typed s = ae_name v)
          then (forget_error b s)\<lparr>ra_pending := b # ra_pending s, ra_sent := ra_sent s @ [(b, a)]\<rparr>
          else s)"
| "action_step s (v, ActionDismissed b) =
     (if b \<in> set (ra_open s) \<and> b \<notin> set (ra_pending s)
      then (forget_error b s)\<lparr>ra_open := removeAll b (ra_open s)\<rparr> else s)"
| "action_step s (v, ActionSettled b r) =
     (if b \<notin> set (ra_pending s) then s
      else (let s1 = s\<lparr>ra_pending := removeAll b (ra_pending s)\<rparr>
            in case r of
                 Some err \<Rightarrow> s1\<lparr>ra_errors := (b, err) # ra_errors s1\<rparr>
               | None \<Rightarrow> s1\<lparr>ra_open := removeAll b (ra_open s1),
                            ra_left := (ra_left s1 \<or> b = BtnDelete)\<rparr>))"

definition delete_error_shape :: "thrown \<Rightarrow> int option \<times> string" where
  "delete_error_shape err =
     (case err of
        ThrownApi e \<Rightarrow>
          (Some (ae_status e),
           (case ae_body e of
              Some t \<Rightarrow> if trim_str t \<noteq> [] then trim_str t else ae_message e
            | None \<Rightarrow> ae_message e))
      | ThrownMultiDocument m \<Rightarrow> (None, if m \<noteq> [] then m else ''delete failed'')
      | ThrownYamlParse m \<Rightarrow> (None, if m \<noteq> [] then m else ''delete failed'')
      | ThrownError m \<Rightarrow> (None, if m \<noteq> [] then m else ''delete failed'')
      | ThrownOther m \<Rightarrow> (None, if m \<noteq> [] then m else ''delete failed''))"

end
