(* ===== verification/WorkloadSafety.thy ===== *)
theory WorkloadSafety
  imports WorkloadActions
begin

text \<open>
  What the controls of an object promise: the action bar runs or explains, the scale popover sends
  a new non-negative count, a rollback names a picked revision, and the toolbar sends nothing
  without the right, the confirmation and, for a deletion, the typed name.
\<close>

section \<open>The action bar\<close>

lemma guarded_simps [simp]:
  "guarded None = RunsAction" "r \<noteq> [] \<Longrightarrow> guarded (Some r) = ShowsToast r"
  by (simp_all add: guarded_def)

lemma busy_msg_not_Nil [simp]: "busy_msg v \<noteq> []"
  by (simp add: busy_msg_def)

text \<open>
  the bar runs an action or says why not. Patch, dry-run and diff run exactly when there is
  an edit and no apply, banner or dry-run is in the way; apply runs exactly when besides that no
  schema error is shown; otherwise each click shows a toast with a reason that is not empty, and no
  click is lost silently.
\<close>

theorem bar_runs_or_explains:
  "(bar_click p BarDryRun = RunsAction) = (bp_dirty p \<and> \<not> av_busy (action_bar_view_model (bp_state p)))
   \<and> (bar_click p BarApply = RunsAction) =
       (bar_click p BarDryRun = RunsAction \<and> (bp_hide_errors p \<or> bp_errors p = 0))
   \<and> list_all (\<lambda>b. bar_click p b = RunsAction \<or> (\<exists>r. bar_click p b = ShowsToast r \<and> r \<noteq> []))
       [BarPatch, BarDryRun, BarApply]"
  by (auto simp: edit_reason_def apply_reason_def Let_def no_edits_def)

text \<open>
  the comment calls the cancel button always live, the escape hatch of the user; with a
  conflict or an error on the banner nothing runs, yet cancel is disabled and the other buttons
  answer that an apply is in progress.
\<close>

theorem banner_disables_cancel:
  assumes "bp_state p = ForceRequired c \<or> bp_state p = ErrorState e"
  shows "bar_click p BarCancel = IgnoresClick
    \<and> bar_click p BarApply = ShowsToast (''apply in progress'' @ ellipsis_char)
    \<and> \<not> in_flight (bp_state p)"
  using assms
  by (auto simp: apply_reason_def action_bar_view_model_def Let_def guarded_def busy_msg_def)

section \<open>Scaling\<close>

lemma is_digit_show_nat: "c \<in> set (show_nat n) \<Longrightarrow> is_digit c"
  using show_nat_digits by (auto simp: is_digit_def)

lemma digits_show_nat [simp]: "digits_of (show_nat n) = show_nat n"
  by (simp add: digits_of_def takeWhile_eq_all_conv is_digit_show_nat)

lemma show_nat_no_sign: "\<not> starts_with ''-'' (show_nat n)"
proof -
  have "is_digit (hd (show_nat n))" using show_nat_not_Nil is_digit_show_nat hd_in_set by blast
  then have "hd (show_nat n) \<noteq> CHR ''-''" by (auto simp: is_digit_def)
  then show ?thesis by (cases "show_nat n") (auto simp: show_nat_not_Nil)
qed

lemma number_field_show: "0 \<le> n \<Longrightarrow> number_field (show_int n) = Some n"
  using show_nat_no_sign [of "nat n"]
  by (simp add: number_field_def show_int_def Let_def decimal_show_nat show_nat_not_Nil)

lemma show_nat_no_ws: "trim_str (show_nat n) = show_nat n"
proof -
  have "all_digits (show_nat n)"
    by (simp add: all_digits_def list_all_iff is_digit_show_nat show_nat_not_Nil)
  then show ?thesis by (rule trim_digits)
qed

lemma scale_valid_show: "0 \<le> n \<Longrightarrow> scale_valid (show_int n)"
  using number_field_show [of n] by (simp add: scale_valid_def show_int_def show_nat_no_ws show_nat_not_Nil)

lemma bump_show: "0 \<le> n \<Longrightarrow> bump d (show_int n) = show_int (max 0 (n + d))"
  by (simp add: bump_def number_field_show)

definition scale_inv :: "scale_popover \<Rightarrow> bool" where
  "scale_inv s =
     (length (sp_submitted s) \<le> 1 \<and> (sp_open s \<longrightarrow> sp_submitted s = []) \<and> list_all (\<lambda>n. 0 \<le> n) (sp_submitted s))"

lemma scale_submit_cases:
  "scale_submit s = s \<or>
   (\<exists>n. scale_submit s = s\<lparr>sp_submitted := sp_submitted s @ [n], sp_open := False\<rparr> \<and> 0 \<le> n \<and> n \<noteq> sp_current s)"
  by (auto simp: scale_submit_def submit_disabled_def scale_valid_def split: option.splits)

lemma scale_inv_step: "scale_inv s \<Longrightarrow> scale_inv (scale_step s e)"
  using scale_submit_cases [of s] by (cases e) (auto simp: scale_inv_def)

interpretation scale: event_machine scale_step scale_inv
  by unfold_locales (rule scale_inv_step)

text \<open>
  scaling asks for a new count, once. Whatever is typed and pressed, an opened popover
  submits at most one value, a non-negative integer; and the step that submits it does so only for
  a value other than the count shown, and closes the popover.
\<close>

theorem scale_submits_new_count:
  "let s = foldl scale_step (open_scale c) es
   in length (sp_submitted s) \<le> 1 \<and> list_all (\<lambda>n. 0 \<le> n) (sp_submitted s)
      \<and> (scale_step s ScaleEnter = s
         \<or> (\<exists>n. sp_submitted (scale_step s ScaleEnter) = [n] \<and> 0 \<le> n \<and> n \<noteq> sp_current s
              \<and> \<not> sp_open (scale_step s ScaleEnter)))"
proof -
  let ?s = "foldl scale_step (open_scale c) es"
  have "scale_inv (open_scale c)" by (simp add: scale_inv_def open_scale_def)
  then have "scale_inv ?s" by (rule scale.inv_run)
  then show ?thesis using scale_submit_cases [of ?s] by (auto simp: scale_inv_def Let_def)
qed

lemma keys_up:
  "sp_open s \<Longrightarrow> 0 \<le> n \<Longrightarrow> sp_value s = show_int n \<Longrightarrow>
   foldl scale_step s (replicate k KeyUp) = s\<lparr>sp_value := show_int (n + int k)\<rparr>"
proof (induction k arbitrary: s n)
  case (Suc k)
  then show ?case using Suc.IH [of "s\<lparr>sp_value := show_int (n + 1)\<rparr>" "n + 1"]
    by (simp add: bump_show algebra_simps)
qed simp

lemma keys_down:
  "sp_open s \<Longrightarrow> int k \<le> n \<Longrightarrow> sp_value s = show_int n \<Longrightarrow>
   foldl scale_step s (replicate k KeyDown) = s\<lparr>sp_value := show_int (n - int k)\<rparr>"
proof (induction k arbitrary: s n)
  case (Suc k)
  then show ?case using Suc.IH [of "s\<lparr>sp_value := show_int (n - 1)\<rparr>" "n - 1"]
    by (simp add: bump_show algebra_simps)
qed simp

text \<open>
  the keyboard reaches every count. From an opened popover, pressing the arrow keys as many
  times as the target differs from the current count and then enter submits exactly the target.
\<close>

theorem arrow_keys_reach_any_count:
  assumes "0 \<le> c" "0 \<le> n" "n \<noteq> c"
  shows "sp_submitted (foldl scale_step (open_scale c)
      ((if c \<le> n then replicate (nat (n - c)) KeyUp else replicate (nat (c - n)) KeyDown) @ [ScaleEnter])) = [n]"
proof -
  let ?keys = "if c \<le> n then replicate (nat (n - c)) KeyUp else replicate (nat (c - n)) KeyDown"
  have "foldl scale_step (open_scale c) ?keys = (open_scale c)\<lparr>sp_value := show_int n\<rparr>"
    using keys_up [of "open_scale c" c "nat (n - c)"] keys_down [of "open_scale c" "nat (c - n)" c] assms
    by (simp add: open_scale_def)
  then show ?thesis
    using assms scale_valid_show [of n] number_field_show [of n]
    by (simp add: scale_submit_def submit_disabled_def) (simp add: open_scale_def)
qed

lemma arrow_keys_reach_any_count_witness:
  "sp_submitted (foldl scale_step (open_scale 3) (replicate 2 KeyUp @ [ScaleEnter])) = [5]"
  using arrow_keys_reach_any_count [of 3 5] by simp

section \<open>Rolling back\<close>

text \<open>
  a late answer closes a dialog that was opened again: the rollback runs on after the dialog was
  closed, and its success closes whatever dialog is open then.
\<close>

theorem late_success_closes_reopened:
  assumes "rb_pending s" "\<not> rb_open s"
  shows "let t = rollback_step w s RollbackOpened
    in rb_open t \<and> rb_pending t \<and> \<not> rb_open (rollback_step w t (RolledBack n))"
  using assms by (simp add: Let_def on_rolled_back_def)

text \<open>
  the guard against rolling back to the current revision is in the list only: a selection made
  before a new history arrives stays, and is sent though its revision is the current one by then.
\<close>

theorem current_revision_can_be_sent:
  "let w = \<lparr>wr_cluster = ''c'', wr_kind = ''deployments'', wr_namespace = ''n'', wr_name = ''web''\<rparr>;
       r = (\<lambda>n b. \<lparr>rv_number = n, rv_current = b\<rparr>);
       s = foldl (rollback_step w) closed_rollback
             [RollbackOpened, HistoryArrived \<lparr>rh_revisions = [r 2 True, r 1 False], rh_paused = False\<rparr>,
              RevisionClicked 1, HistoryArrived \<lparr>rh_revisions = [r 2 False, r 1 True], rh_paused = False\<rparr>,
              RollbackConfirmed]
   in map hr_body (rb_sent s) = [Some (JsonBody (JObj [(''revision'', JNum 1)]))]"
  by code_simp

definition rollback_call :: "workload_ref \<Rightarrow> int \<Rightarrow> string \<Rightarrow> http_request" where
  "rollback_call w n reason =
     rollout_request (Rollback (wr_cluster w) (wr_kind w) (wr_namespace w) (wr_name w) (rollback_body n reason))"

text \<open>What a run has offered: the revisions that some history listed as not current.\<close>

definition offered :: "rollback_event list \<Rightarrow> int \<Rightarrow> bool" where
  "offered es n =
     list_ex (\<lambda>e. case e of
         HistoryArrived h \<Rightarrow> list_ex (\<lambda>r. rv_number r = n \<and> \<not> rv_current r) (rh_revisions h)
       | _ \<Rightarrow> False) es"

definition rollback_inv :: "workload_ref \<Rightarrow> rollback_event list \<Rightarrow> rollback_dialog \<Rightarrow> bool" where
  "rollback_inv w es s =
     ((\<forall>h. rb_history s = Some h \<longrightarrow> HistoryArrived h \<in> set es)
      \<and> (\<forall>n. rb_selected s = Some n \<longrightarrow> offered es n \<and> RevisionClicked n \<in> set es)
      \<and> length (rb_reason s) \<le> 200
      \<and> (\<forall>r \<in> set (rb_sent s). r = resume_request w \<or>
           (\<exists>n reason. r = rollback_call w n reason \<and> offered es n \<and> RevisionClicked n \<in> set es
              \<and> length reason \<le> 200)))"

lemma offered_more: "offered es n \<Longrightarrow> offered (es @ [e]) n"
  by (simp add: offered_def)

lemma rollback_inv_more: "rollback_inv w es s \<Longrightarrow> rollback_inv w (es @ [e]) s"
  unfolding rollback_inv_def using offered_more [of es _ e] by (simp, blast)

lemma revision_offered:
  assumes "rollback_inv w es s" "revision_of s n = Some r" "\<not> rv_current r"
  shows "offered es n"
proof -
  obtain h where h: "rb_history s = Some h" "find (\<lambda>r. rv_number r = n) (rh_revisions h) = Some r"
    using assms(2) by (auto simp: revision_of_def split: option.splits)
  then have "r \<in> set (rh_revisions h)" "rv_number r = n" by (auto simp: find_Some_iff)
  then show ?thesis using h(1) assms(1,3)
    by (auto simp: rollback_inv_def offered_def list_ex_iff intro!: bexI [of _ "HistoryArrived h"])
qed

lemma rollback_inv_step:
  assumes "rollback_inv w es s"
  shows "rollback_inv w (es @ [e]) (rollback_step w s e)"
proof -
  have more: "rollback_inv w (es @ [e]) s" using rollback_inv_more [OF assms] .
  show ?thesis
  proof (cases e)
    case (RevisionClicked n)
    have "offered (es @ [e]) n" if "revision_of s n = Some r" "\<not> rv_current r" for r
      using revision_offered [OF assms that] by (rule offered_more)
    then show ?thesis using more RevisionClicked by (auto simp: rollback_inv_def split: option.splits)
  next
    case RollbackConfirmed
    then show ?thesis using more
      by (auto simp: rollback_inv_def rollback_call_def split: option.splits)
  next
    case (HistoryArrived h)
    then show ?thesis using more by (simp add: rollback_inv_def)
  qed (use more in \<open>simp_all add: rollback_inv_def on_rolled_back_def\<close>)
qed

lemma rollback_run: "rollback_inv w es (foldl (rollback_step w) closed_rollback es)"
proof (induction es rule: rev_induct)
  case Nil
  show ?case by (simp add: rollback_inv_def closed_rollback_def)
qed (simp add: rollback_inv_step)

text \<open>The history the dialog shows: the last one that arrived.\<close>

definition shown_history :: "rollback_event list \<Rightarrow> revision_history option" where
  "shown_history es = foldl (\<lambda>h e. case e of HistoryArrived h' \<Rightarrow> Some h' | _ \<Rightarrow> h) None es"

lemma history_field: "rb_history (foldl (rollback_step w) closed_rollback es) = shown_history es"
proof (induction es rule: rev_induct)
  case Nil
  show ?case by (simp add: shown_history_def closed_rollback_def)
next
  case (snoc e es)
  have "rb_history (rollback_step w t e) = (case e of HistoryArrived h \<Rightarrow> Some h | _ \<Rightarrow> rb_history t)" for t
    by (cases e) (simp_all add: on_rolled_back_def split: option.splits)
  moreover have "shown_history (es @ [e]) = (case e of HistoryArrived h \<Rightarrow> Some h | _ \<Rightarrow> shown_history es)"
    by (cases e) (simp_all add: shown_history_def)
  ultimately show ?case using snoc by (simp split: rollback_event.split)
qed

lemma body_entries:
  "rollback_body n t = JObj kvs \<Longrightarrow> map_of kvs ''revision'' = Some (JNum n)
     \<and> map_of kvs ''reason'' = (if trim_str t = [] then None else Some (JStr (trim_str t)))"
  by (auto simp: rollback_body_def)

text \<open>
  C32: a rollback names the revision that was offered and picked. After any history a further event
  sends nothing, or one request of two kinds. Confirming, while the history shown is not paused,
  posts to the rollback endpoint of the dialog's object a body whose revision is the selected
  one, which some history listed as not current and which was clicked, and whose reason is the
  trimmed text of at most 200 characters, if any. Resuming, only while the history shown is
  paused, sends the patch that unpauses the rollout.
\<close>

theorem rollback_targets_picked_revision:
  fixes w es e
  defines "s \<equiv> foldl (rollback_step w) closed_rollback es"
  shows "rb_sent (rollback_step w s e) = rb_sent s
    \<or> (\<exists>h n kvs r. e = RollbackConfirmed \<and> rb_sent (rollback_step w s e) = rb_sent s @ [r]
         \<and> shown_history es = Some h \<and> \<not> rh_paused h
         \<and> rb_selected s = Some n \<and> offered es n \<and> RevisionClicked n \<in> set es
         \<and> hr_method r = POST
         \<and> hr_url r = cluster_url (wr_cluster w) [enc (wr_kind w), enc (wr_namespace w), enc (wr_name w), ''rollback'']
         \<and> hr_body r = Some (JsonBody (JObj kvs)) \<and> map_of kvs ''revision'' = Some (JNum n)
         \<and> map_of kvs ''reason'' =
             (if trim_str (rb_reason s) = [] then None else Some (JStr (trim_str (rb_reason s))))
         \<and> length (rb_reason s) \<le> 200)
    \<or> (\<exists>h. e = ResumeClicked \<and> rb_sent (rollback_step w s e) = rb_sent s @ [resume_request w]
         \<and> shown_history es = Some h \<and> rh_paused h)"
proof -
  have inv: "rollback_inv w es s" unfolding s_def by (rule rollback_run)
  have h: "rb_history s = shown_history es" unfolding s_def by (rule history_field)
  show ?thesis
  proof (cases "rb_sent (rollback_step w s e) = rb_sent s")
    case False
    then consider (confirm) n g where "e = RollbackConfirmed" "rb_selected s = Some n" "rb_history s = Some g"
        "\<not> rh_paused g" "rb_sent (rollback_step w s e) = rb_sent s @ [rollback_call w n (rb_reason s)]"
      | (resume) g where "e = ResumeClicked" "rb_history s = Some g" "rh_paused g"
        "rb_sent (rollback_step w s e) = rb_sent s @ [resume_request w]"
      by (cases e) (auto simp: on_rolled_back_def is_paused_def rollback_call_def split: if_splits option.splits)
    then show ?thesis
    proof cases
      case confirm
      obtain kvs where kvs: "rollback_body n (rb_reason s) = JObj kvs" by (simp add: rollback_body_def)
      have "offered es n" "RevisionClicked n \<in> set es" "length (rb_reason s) \<le> 200"
        using inv confirm(2) by (auto simp: rollback_inv_def)
      moreover have "hr_method (rollback_call w n (rb_reason s)) = POST"
        "hr_url (rollback_call w n (rb_reason s))
           = cluster_url (wr_cluster w) [enc (wr_kind w), enc (wr_namespace w), enc (wr_name w), ''rollback'']"
        "hr_body (rollback_call w n (rb_reason s)) = Some (JsonBody (JObj kvs))"
        by (simp_all add: rollback_call_def kvs send_json_def)
      ultimately show ?thesis
        using confirm body_entries [OF kvs] h by (intro disjI2 disjI1 exI conjI) auto
    next
      case resume
      then show ?thesis using h by (intro disjI2) auto
    qed
  qed simp
qed

section \<open>The toolbar\<close>

text \<open>The decision a button needs, spelled out, and the kinds it belongs to.\<close>

definition decision_for :: "action_env \<Rightarrow> action_button \<Rightarrow> bool" where
  "decision_for v b =
     (if b = BtnDelete then ar_delete (ae_decisions v)
      else if b = BtnTrigger then ar_create_jobs (ae_decisions v) \<and> ae_kind v = ''cronjobs''
      else if b = BtnSuspend then ar_edit (ae_decisions v) \<and> ae_kind v = ''cronjobs''
      else if b = BtnCordon then ar_edit (ae_decisions v) \<and> ae_kind v = ''nodes''
      else if b = BtnRestart then ar_edit (ae_decisions v) \<and> ae_kind v \<in> {''deployments'', ''statefulsets'', ''daemonsets''}
      else False)"

definition clicked_while_allowed :: "(action_env \<times> action_event) list \<Rightarrow> action_button \<Rightarrow> bool" where
  "clicked_while_allowed es b = list_ex (\<lambda>(v, e). e = ButtonClicked b \<and> decision_for v b) es"

text \<open>What the operator reads on the confirming button, as an action.\<close>

definition label_means :: "string \<Rightarrow> sent_action option" where
  "label_means l = map_of [(''delete'', SentDelete), (''restart'', SentRestart), (''trigger'', SentTrigger),
     (''suspend'', SentSuspend True), (''resume'', SentSuspend False), (''cordon'', SentCordon True),
     (''uncordon'', SentCordon False)] l"

text \<open>The action was confirmed under a label that means it, after a click while it was allowed.\<close>

definition confirmed_as :: "(action_env \<times> action_event) list \<Rightarrow> action_button \<Rightarrow> sent_action \<Rightarrow> bool" where
  "confirmed_as es b a =
     (\<exists>k < length es. snd (es ! k) = ActionConfirmed b \<and> label_means (confirm_label (fst (es ! k)) b) = Some a
        \<and> clicked_while_allowed (take k es) b)"

definition named_in :: "(action_env \<times> action_event) list \<Rightarrow> bool" where
  "named_in es = list_ex (\<lambda>(v, e). e = ActionConfirmed BtnDelete \<and> DeleteNameTyped (ae_name v) \<in> snd ` set es) es"

definition action_inv :: "(action_env \<times> action_event) list \<Rightarrow> action_state \<Rightarrow> bool" where
  "action_inv es s =
     ((\<forall>b \<in> set (ra_open s). clicked_while_allowed es b)
      \<and> (ra_typed s = [] \<or> DeleteNameTyped (ra_typed s) \<in> snd ` set es)
      \<and> (\<forall>(b, a) \<in> set (ra_sent s). confirmed_as es b a))"

lemma clicked_more: "clicked_while_allowed es b \<Longrightarrow> clicked_while_allowed (es @ [x]) b"
  by (simp add: clicked_while_allowed_def)

lemma confirmed_more: "confirmed_as es b a \<Longrightarrow> confirmed_as (es @ [x]) b a"
  unfolding confirmed_as_def by (force simp: nth_append)

lemma confirmed_last:
  "clicked_while_allowed es b \<Longrightarrow> label_means (confirm_label v b) = Some a \<Longrightarrow>
   confirmed_as (es @ [(v, ActionConfirmed b)]) b a"
  unfolding confirmed_as_def by (intro exI [of _ "length es"]) simp

lemma action_of_label: "action_of v b = Some a \<Longrightarrow> label_means (confirm_label v b) = Some a"
  by (cases b) (auto simp: label_means_def)

lemma action_inv_more: "action_inv es s \<Longrightarrow> action_inv (es @ [x]) s"
  unfolding action_inv_def by (auto simp: clicked_more confirmed_more)

lemma allowed_button:
  "b \<in> set confirmed_buttons \<Longrightarrow> button_shown v b \<Longrightarrow> button_allowed v b \<Longrightarrow> decision_for v b"
  by (auto simp: confirmed_buttons_def decision_for_def restartable_kinds_def)

lemma forget_error_fields [simp]:
  "ra_open (forget_error b s) = ra_open s" "ra_typed (forget_error b s) = ra_typed s"
  "ra_sent (forget_error b s) = ra_sent s" "ra_pending (forget_error b s) = ra_pending s"
  by (simp_all add: forget_error_def)

lemma action_inv_step:
  assumes "action_inv es s"
  shows "action_inv (es @ [(v, e)]) (action_step s (v, e))"
proof -
  have more: "action_inv (es @ [(v, e)]) s" using action_inv_more [OF assms] .
  show ?thesis
  proof (cases e)
    case (ButtonClicked b)
    then have "clicked_while_allowed (es @ [(v, e)]) b"
      if "b \<in> set confirmed_buttons" "button_shown v b" "button_allowed v b"
      using allowed_button [OF that] by (simp add: clicked_while_allowed_def)
    then show ?thesis using more ButtonClicked by (auto simp: action_inv_def)
  next
    case (DeleteNameTyped t)
    then show ?thesis using more by (auto simp: action_inv_def)
  next
    case (ActionConfirmed b)
    then have "confirmed_as (es @ [(v, e)]) b a" if "action_of v b = Some a" "b \<in> set (ra_open s)" for a
      using assms that confirmed_last action_of_label by (auto simp: action_inv_def)
    then show ?thesis using more ActionConfirmed by (auto simp: action_inv_def split: option.splits)
  qed (use more in \<open>auto simp: action_inv_def Let_def split: option.splits\<close>)
qed

lemma action_run: "action_inv es (foldl action_step initial_actions es)"
proof (induction es rule: rev_induct)
  case Nil
  show ?case by (simp add: action_inv_def initial_actions_def)
next
  case (snoc x es)
  then show ?case by (cases x) (simp add: action_inv_step)
qed

text \<open>
  C33: no action while its decision denies it, and none but the one confirmed. In every history of
  the toolbar, under decisions and details that may change at each step, whatever was sent for a
  button was confirmed under a label that means exactly the action sent, after a click on that
  button at a moment when the permission decision it needs allowed it and the object was of a kind
  that has it. A decision also allows while its answer is pending (see
  \<open>pending_decisions_allow\<close>).
\<close>

theorem no_action_while_denied:
  "list_all (\<lambda>(b, a). confirmed_as es b a) (ra_sent (foldl action_step initial_actions es))"
  using action_run [of es] by (auto simp: action_inv_def list_all_iff)

text \<open>While the answer to the toolbar's batch is pending, every decision allows.\<close>

lemma pending_decisions_allow:
  assumes "cluster \<noteq> []" "cache cluster (canonical_key (toolbar_checks meta ns)) = QPending"
  shows "decisions_of (use_can_i_batch cache mode tier cluster (toolbar_checks meta ns))
    = \<lparr>ar_edit = True, ar_delete = True, ar_scale = True, ar_create_jobs = True\<rparr>"
proof -
  have "length (toolbar_checks meta ns) = 4" by (simp add: toolbar_checks_def)
  then have "cd_allowed (use_can_i_batch cache mode tier cluster (toolbar_checks meta ns) ! i)" if "i < 4" for i
    using assms that by (simp add: batch_nth build_can_i_decision_def Let_def)
  then show ?thesis by (simp add: decisions_of_def)
qed

lemma delete_named_step:
  assumes "action_inv es s" "BtnDelete \<notin> fst ` set (ra_sent s) \<or> named_in es"
  shows "BtnDelete \<notin> fst ` set (ra_sent (action_step s (v, e))) \<or> named_in (es @ [(v, e)])
    \<or> ae_name v = []"
proof (cases e)
  case (ActionConfirmed b)
  have m: "named_in es \<Longrightarrow> named_in (es @ [(v, e)])" by (auto simp: named_in_def list_ex_iff)
  have "named_in (es @ [(v, e)])" if "b = BtnDelete" "ra_typed s = ae_name v" "ae_name v \<noteq> []"
    using that assms(1) ActionConfirmed by (auto simp: named_in_def action_inv_def list_ex_iff image_iff)
  then show ?thesis using ActionConfirmed assms(2) m
    by (auto split: option.splits)
qed (use assms(2) in \<open>auto simp: Let_def named_in_def list_ex_iff split: option.splits\<close>)

text \<open>
  a deletion needs the typed name. When every object has a name, a deletion is sent only in a
  history in which the name of the object it is confirmed for was typed.
\<close>

theorem deletion_needs_typed_name:
  assumes "\<forall>(v, e) \<in> set es. ae_name v \<noteq> []"
  shows "BtnDelete \<notin> fst ` set (ra_sent (foldl action_step initial_actions es)) \<or> named_in es"
  using assms
proof (induction es rule: rev_induct)
  case Nil
  show ?case by (simp add: initial_actions_def)
next
  case (snoc x es)
  obtain v e where x: "x = (v, e)" by fastforce
  then show ?case using snoc delete_named_step [OF action_run, of es v e] by auto
qed

lemma deletion_needs_typed_name_witness:
  "named_in (let v = \<lparr>ae_kind = ''pods'', ae_name = ''p'', ae_decisions = \<lparr>ar_edit = True, ar_delete = True,
        ar_scale = True, ar_create_jobs = True\<rparr>, ae_detail = None\<rparr>
      in [(v, ButtonClicked BtnDelete), (v, DeleteNameTyped ''p''), (v, ActionConfirmed BtnDelete)])"
proof -
  let ?v = "\<lparr>ae_kind = ''pods'', ae_name = ''p'', ae_decisions = \<lparr>ar_edit = True, ar_delete = True,
        ar_scale = True, ar_create_jobs = True\<rparr>, ae_detail = None\<rparr>"
  let ?es = "[(?v, ButtonClicked BtnDelete), (?v, DeleteNameTyped ''p''), (?v, ActionConfirmed BtnDelete)]"
  have "BtnDelete \<in> fst ` set (ra_sent (foldl action_step initial_actions ?es))" by code_simp
  then show ?thesis using deletion_needs_typed_name [of ?es] by (simp add: Let_def)
qed

definition sends_of :: "action_button \<Rightarrow> action_state \<Rightarrow> nat" where
  "sends_of b s = length (filter (\<lambda>x. fst x = b) (ra_sent s))"

definition settles_of :: "action_button \<Rightarrow> (action_env \<times> action_event) list \<Rightarrow> nat" where
  "settles_of b es = length (filter (\<lambda>(v, e). case e of ActionSettled b' r \<Rightarrow> b' = b | _ \<Rightarrow> False) es)"

lemma single_flight_step:
  "sends_of b s \<le> n + of_bool (b \<in> set (ra_pending s)) \<Longrightarrow>
   sends_of b (action_step s x) \<le> n + settles_of b [x] + of_bool (b \<in> set (ra_pending (action_step s x)))"
  by (cases x; cases "snd x")
     (auto simp: sends_of_def settles_of_def Let_def split: option.splits)

text \<open>
  one request of a kind at a time. In every history an action was sent at most once more than
  its earlier requests have settled, and that one is the pending one: a second click of a
  confirmation never sends twice.
\<close>

theorem actions_one_at_a_time:
  "let s = foldl action_step initial_actions es
   in sends_of b s \<le> settles_of b es + of_bool (b \<in> set (ra_pending s))"
proof (induction es rule: rev_induct)
  case Nil
  show ?case by (simp add: sends_of_def initial_actions_def)
next
  case (snoc x es)
  have "settles_of b (es @ [x]) = settles_of b es + settles_of b [x]" by (simp add: settles_of_def)
  then show ?case using snoc single_flight_step [of b _ "settles_of b es" x] by (simp add: Let_def)
qed

text \<open>
  the comment says the actions render unconditionally, disabled where a right is missing;
  scale, suspend and cordon are not rendered at all until the detail of the object is cached,
  so the tooltip about loading replicas is never shown.
\<close>

theorem buttons_hidden_until_loaded:
  assumes "ae_detail v = None"
  shows "\<not> button_shown v BtnScale \<and> \<not> button_shown v BtnSuspend \<and> \<not> button_shown v BtnCordon
    \<and> (button_shown u BtnScale \<longrightarrow> cached_replicas u \<noteq> None)"
  using assms by (simp add: cached_replicas_def)

end
