(* ===== verification/YamlPath.thy ===== *)
theory YamlPath
  imports ManagedFields
begin

text \<open>
  Model of \<open>web/src/lib/yamlPath.ts\<close> and of the ownership glyphs of
  \<open>components/detail/yaml/YamlEditor.tsx\<close>: the path of an editor line, found by walking up the
  decreasing indentations, and the gutter marks for the lines whose path another manager owns.
  The editor's buffer is its list of lines; line numbers start at 1.
\<close>

section \<open>The path of a line\<close>

definition merge_key_fields :: "string list" where
  "merge_key_fields =
     [''name'', ''key'', ''containerPort'', ''mountPath'', ''ip'', ''topologyKey'', ''type'']"

definition line_indent :: "string \<Rightarrow> nat" where
  "line_indent raw = length raw - length (trim_start raw)"

definition strip_dash :: "string \<Rightarrow> string" where
  "strip_dash s = (case s of c # r \<Rightarrow> if c = CHR ''-'' then dropWhile is_ws r else s | [] \<Rightarrow> [])"

definition strip_quotes :: "string \<Rightarrow> string" where
  "strip_quotes s =
     (let t = (case s of c # r \<Rightarrow> if is_quote c then r else s | [] \<Rightarrow> [])
      in if t \<noteq> [] \<and> is_quote (last t) then butlast t else t)"

definition key_char :: "char \<Rightarrow> bool" where
  "key_char c = (is_word_char c \<or> c = CHR ''.'' \<or> c = CHR ''-'' \<or> c = CHR ''/'')"

text \<open>The pattern of one \<open>key: value\<close> on a line.\<close>

definition match_key_value :: "string \<Rightarrow> (string \<times> string) option" where
  "match_key_value s =
     (let key = takeWhile key_char s; rest = dropWhile key_char s
      in case rest of
           c # r \<Rightarrow> if key \<noteq> [] \<and> c = CHR '':'' \<and> trim_str r \<noteq> [] then Some (key, trim_str r) else None
         | [] \<Rightarrow> None)"

fun merge_key_scan :: "bool \<Rightarrow> nat \<Rightarrow> string list \<Rightarrow> (string \<times> string) option" where
  "merge_key_scan at_item indent [] = None"
| "merge_key_scan at_item indent (raw # ls) =
     (if trim_str raw = [] then merge_key_scan False indent ls
      else if \<not> at_item \<and> line_indent raw \<le> indent then None
      else (case match_key_value (strip_dash (trim_str raw)) of
              Some (k, v) \<Rightarrow> if k \<in> set merge_key_fields then Some (k, strip_quotes v)
                             else merge_key_scan False indent ls
            | None \<Rightarrow> merge_key_scan False indent ls))"

text \<open>The item starts at index \<open>j\<close>; it and the next ten lines are read.\<close>

definition find_array_merge_key :: "string list \<Rightarrow> nat \<Rightarrow> nat \<Rightarrow> (string \<times> string) option" where
  "find_array_merge_key ls j indent = merge_key_scan True indent (take 11 (drop j ls))"

definition line_segments :: "string list \<Rightarrow> nat \<Rightarrow> string list" where
  "line_segments ls j =
     (let trimmed = trim_str (ls ! j); indent = line_indent (ls ! j)
      in if starts_with ''-'' trimmed then
           (case find_array_merge_key ls j indent of
              Some (k, v) \<Rightarrow> [''['' @ k @ ''='' @ v @ '']''] | None \<Rightarrow> [''[]''])
         else (case index_of (CHR '':'') trimmed of
                 Some n \<Rightarrow> if n > 0 then [take n trimmed] else [] | None \<Rightarrow> []))"

text \<open>The loop over the lines from \<open>i\<close> up; \<open>cur\<close> is None before the first line that counts.\<close>

fun scan_up :: "string list \<Rightarrow> nat \<Rightarrow> nat option \<Rightarrow> string list \<Rightarrow> string list" where
  "scan_up ls 0 cur parts = parts"
| "scan_up ls (Suc j) cur parts =
     (let trimmed = trim_str (ls ! j); indent = line_indent (ls ! j)
      in if trimmed = [] \<or> starts_with ''#'' trimmed then scan_up ls j cur parts
         else if (case cur of None \<Rightarrow> True | Some c \<Rightarrow> indent < c)
         then (let parts' = line_segments ls j @ parts
               in if indent = 0 then parts' else scan_up ls j (Some indent) parts')
         else scan_up ls j cur parts)"

fun join_brackets :: "string \<Rightarrow> string" where
  "join_brackets [] = []"
| "join_brackets [c] = [c]"
| "join_brackets (c # d # s) =
     (if c = CHR ''.'' \<and> d = CHR ''['' then CHR ''['' # join_brackets s else c # join_brackets (d # s))"

definition path_for_line :: "string list \<Rightarrow> nat \<Rightarrow> string" where
  "path_for_line ls n =
     join_brackets (join_str ''.'' (scan_up ls (min (max n 1) (length ls)) None []))"

section \<open>The glyphs\<close>

definition spa_manager :: string where
  "spa_manager = ''periscope-spa''"

text \<open>The marked lines with the manager each hover names.\<close>

definition owner_glyphs :: "field_owner list \<Rightarrow> string list \<Rightarrow> (nat \<times> string) list" where
  "owner_glyphs owners ls =
     (let foreign = filter (\<lambda>o1. fo_manager o1 \<noteq> spa_manager) owners;
          owner_map = path_to_manager foreign
      in if foreign = [] then []
         else concat (map (\<lambda>i.
                let path = path_for_line ls i
                in if path = [] then []
                   else (case map_of owner_map path of
                           Some m \<Rightarrow> if m = [] then [] else [(i, m)] | None \<Rightarrow> []))
              [1..<length ls + 1]))"

section \<open>Block documents\<close>

text \<open>
  A document in block style with lists indented below their key: a field with a scalar (empty when
  the field has children), or a list item led by its merge key, with its other fields below.
\<close>

datatype ynode =
    YField (yn_key: string) (yn_value: string) (yn_kids: "ynode list")
  | YItem (yn_key: string) (yn_value: string) (yn_kids: "ynode list")

definition spaces :: "nat \<Rightarrow> string" where
  "spaces d = replicate d (CHR '' '')"

fun node_text :: "ynode \<Rightarrow> string" where
  "node_text (YField k v _) = k @ '':'' @ (if v = [] then [] else '' '' @ v)"
| "node_text (YItem k v _) = ''- '' @ k @ '': '' @ v"

fun node_lines :: "nat \<Rightarrow> ynode \<Rightarrow> string list" where
  "node_lines d (YField k v xs) = (spaces d @ node_text (YField k v xs)) # concat (map (node_lines (d + 2)) xs)"
| "node_lines d (YItem k v xs) = (spaces d @ node_text (YItem k v xs)) # concat (map (node_lines (d + 2)) xs)"

fun node_item :: "ynode \<Rightarrow> path_item" where
  "node_item (YField k v xs) = PField k"
| "node_item (YItem k v xs) = PSelector k v"

text \<open>The path of every line of a node, in the order of its lines.\<close>

fun node_paths :: "ynode \<Rightarrow> path_item list list" where
  "node_paths (YField k v xs) = [PField k] # map ((#) (PField k)) (concat (map node_paths xs))"
| "node_paths (YItem k v xs) = [PSelector k v] # map ((#) (PSelector k v)) (concat (map node_paths xs))"

definition plain_key :: "string \<Rightarrow> bool" where
  "plain_key k =
     (k \<noteq> [] \<and> list_all (\<lambda>c. \<not> is_ws c \<and> c \<noteq> CHR '':'' \<and> c \<noteq> CHR ''['') k \<and>
      hd k \<noteq> CHR ''#'' \<and> hd k \<noteq> CHR ''-'')"

definition plain_selector :: "string \<Rightarrow> bool" where
  "plain_selector v =
     (v \<noteq> [] \<and> list_all (\<lambda>c. \<not> is_ws c \<and> \<not> is_quote c \<and> c \<noteq> CHR ''['') v)"

fun plain_node :: "ynode \<Rightarrow> bool" where
  "plain_node (YField k v xs) = (plain_key k \<and> (v = [] \<or> \<not> is_ws (last v)) \<and> list_all plain_node xs)"
| "plain_node (YItem k v xs) = (k \<in> set merge_key_fields \<and> plain_selector v \<and> list_all plain_node xs)"

fun segment_text :: "path_item \<Rightarrow> string" where
  "segment_text (PField n) = n"
| "segment_text (PSelector k v) = ''['' @ k @ ''='' @ v @ '']''"

text \<open>What the walk sees of a line: its indentation and its one segment.\<close>

fun node_marks :: "nat \<Rightarrow> ynode \<Rightarrow> (nat \<times> string) list" where
  "node_marks d (YField k v xs) = (d, segment_text (PField k)) # concat (map (node_marks (d + 2)) xs)"
| "node_marks d (YItem k v xs) = (d, segment_text (PSelector k v)) # concat (map (node_marks (d + 2)) xs)"

section \<open>Reading a line\<close>

lemma spaces_ws: "c \<in> set (spaces d) \<Longrightarrow> is_ws c"
  by (auto simp: spaces_def is_ws_def)

lemma drop_spaces: "t \<noteq> [] \<Longrightarrow> \<not> is_ws (hd t) \<Longrightarrow> dropWhile is_ws (spaces d @ t) = t"
  using spaces_ws [of _ d] by (cases t) (simp_all add: dropWhile_append)

lemma indent_spaces: "t \<noteq> [] \<Longrightarrow> \<not> is_ws (hd t) \<Longrightarrow> line_indent (spaces d @ t) = d"
  by (simp add: line_indent_def trim_start_def drop_spaces) (simp add: spaces_def)

lemma trim_spaces: "t \<noteq> [] \<Longrightarrow> \<not> is_ws (hd t) \<Longrightarrow> \<not> is_ws (last t) \<Longrightarrow> trim_str (spaces d @ t) = t"
  by (simp add: trim_str_def drop_spaces dropWhile_eq_self_iff [THEN iffD2] hd_rev)

lemma text_ends: "plain_node x \<Longrightarrow> node_text x \<noteq> [] \<and> \<not> is_ws (hd (node_text x)) \<and> \<not> is_ws (last (node_text x))"
  by (cases x) (auto simp: plain_key_def plain_selector_def list_all_iff is_ws_def hd_append)

definition describes :: "string \<Rightarrow> nat \<times> string \<Rightarrow> bool" where
  "describes line m =
     (trim_str line \<noteq> [] \<and> \<not> starts_with ''#'' (trim_str line) \<and> line_indent line = fst m \<and>
      (\<forall>ls j. j < length ls \<longrightarrow> ls ! j = line \<longrightarrow> line_segments ls j = [snd m]))"

lemma merge_fields_key_chars: "k \<in> set merge_key_fields \<Longrightarrow> k \<noteq> [] \<and> list_all key_char k"
  by (auto simp: merge_key_fields_def key_char_def is_word_char_def)

lemma match_item:
  assumes "k \<in> set merge_key_fields" "plain_selector v"
  shows "match_key_value (k @ '': '' @ v) = Some (k, v)"
proof -
  have k: "k \<noteq> []" "\<forall>c \<in> set k. key_char c" using merge_fields_key_chars [OF assms(1)] by (auto simp: list_all_iff)
  have "\<not> key_char (CHR '':'')" by (simp add: key_char_def is_word_char_def)
  then have "takeWhile key_char (k @ '': '' @ v) = k" "dropWhile key_char (k @ '': '' @ v) = '': '' @ v"
    using k takeWhile_stop [of k key_char "CHR '':''"] dropWhile_stop [of k key_char "CHR '':''"] by simp_all
  moreover have "trim_str ('' '' @ v) = v"
    using assms(2) trim_spaces [of v 1] by (simp add: plain_selector_def list_all_iff spaces_def)
  ultimately show ?thesis using k assms(2) by (simp add: match_key_value_def plain_selector_def)
qed

lemma strip_plain: "plain_selector v \<Longrightarrow> strip_quotes v = v"
  by (cases v) (auto simp: strip_quotes_def plain_selector_def list_all_iff)

lemma strip_item: "k \<in> set merge_key_fields \<Longrightarrow> strip_dash (''- '' @ k @ s) = k @ s"
  by (auto simp: strip_dash_def merge_key_fields_def is_ws_def)

lemma item_describes:
  assumes "plain_node (YItem k v xs)"
  shows "describes (spaces d @ node_text (YItem k v xs)) (d, segment_text (PSelector k v))"
proof -
  let ?t = "node_text (YItem k v xs)"
  have ends: "trim_str (spaces d @ ?t) = ?t" "line_indent (spaces d @ ?t) = d"
    using text_ends [OF assms] trim_spaces indent_spaces by blast+
  have "line_segments ls j = [segment_text (PSelector k v)]"
    if "j < length ls" "ls ! j = spaces d @ ?t" for ls j
  proof -
    have "take 11 (drop j ls) = (spaces d @ ?t) # take 10 (drop (Suc j) ls)"
      using that by (simp add: Cons_nth_drop_Suc [symmetric])
    then have "find_array_merge_key ls j d = Some (k, v)"
      using assms ends match_item [of k v] strip_item [of k "'': '' @ v"] strip_plain [of v]
      by (simp add: find_array_merge_key_def)
    then show ?thesis unfolding line_segments_def Let_def that(2) ends by simp
  qed
  then show ?thesis using ends by (simp add: describes_def)
qed

lemma field_describes:
  assumes "plain_node (YField k v xs)"
  shows "describes (spaces d @ node_text (YField k v xs)) (d, segment_text (PField k))"
proof -
  let ?t = "node_text (YField k v xs)"
  have ends: "trim_str (spaces d @ ?t) = ?t" "line_indent (spaces d @ ?t) = d"
    using text_ends [OF assms] trim_spaces indent_spaces by blast+
  have k: "k \<noteq> []" "hd k \<noteq> CHR ''#''" "hd k \<noteq> CHR ''-''" "CHR '':'' \<notin> set k"
    using assms by (auto simp: plain_key_def list_all_iff)
  have first: "\<not> starts_with [c] ?t" if "hd k \<noteq> c" for c
    using k(1) that by (cases k) auto
  have stop: "takeWhile (\<lambda>x. x \<noteq> CHR '':'') (k @ CHR '':'' # r) = k" for r
    using k by (intro takeWhile_stop) auto
  have "takeWhile (\<lambda>x. x \<noteq> CHR '':'') ?t = k"
    using stop by simp
  then have "index_of (CHR '':'') ?t = Some (length k)"
    by (simp add: index_of_def)
  moreover have "take (length k) ?t = k" by simp
  ultimately have "line_segments ls j = [segment_text (PField k)]"
    if "ls ! j = spaces d @ ?t" for ls j
    unfolding line_segments_def Let_def that ends using first k by simp
  then show ?thesis unfolding describes_def ends using first k text_ends [OF assms] by simp
qed

section \<open>Walking up\<close>

fun scan_marks :: "(nat \<times> string) list \<Rightarrow> nat option \<Rightarrow> string list \<Rightarrow> string list" where
  "scan_marks [] cur parts = parts"
| "scan_marks ((i, s) # ms) cur parts =
     (if (case cur of None \<Rightarrow> True | Some c \<Rightarrow> i < c)
      then (if i = 0 then s # parts else scan_marks ms (Some i) (s # parts))
      else scan_marks ms cur parts)"

lemma scan_up_marks:
  assumes "list_all2 describes ls ms" "n \<le> length ls"
  shows "scan_up ls n cur parts = scan_marks (rev (take n ms)) cur parts"
  using assms(2)
proof (induction n arbitrary: cur parts)
  case (Suc n)
  then have n: "n < length ls" "n < length ms" using assms(1) by (auto dest: list_all2_lengthD)
  obtain i s where m: "ms ! n = (i, s)" by (cases "ms ! n")
  have d: "describes (ls ! n) (i, s)" using assms(1) n m by (metis list_all2_nthD)
  then have "line_segments ls n = [s]" using n by (simp add: describes_def)
  then show ?case
    using Suc n m d by (simp add: take_Suc_conv_app_nth describes_def Let_def split: option.split)
qed simp

text \<open>The walks from every line of a block, below a context given in reverse.\<close>

fun scans :: "(nat \<times> string) list \<Rightarrow> (nat \<times> string) list \<Rightarrow> string list list" where
  "scans ctx [] = []"
| "scans ctx (m # ms) = scan_marks (m # ctx) None [] # scans (m # ctx) ms"

lemma scans_append: "scans ctx (ms @ ns) = scans ctx ms @ scans (rev ms @ ctx) ns"
  by (induction ms arbitrary: ctx) simp_all

lemma scans_eq: "scans ctx ms = map (\<lambda>n. scan_marks (rev (take (Suc n) ms) @ ctx) None []) [0..<length ms]"
proof (induction ms arbitrary: ctx)
  case (Cons m ms)
  have "[0..<length (m # ms)] = 0 # map Suc [0..<length ms]"
    by (simp add: upt_conv_Cons map_Suc_upt del: upt_Suc)
  then show ?case using Cons [of "m # ctx"] by simp
qed simp

text \<open>Below the context, a line at indentation \<open>d\<close> has the path \<open>base\<close>.\<close>

definition leads_to :: "(nat \<times> string) list \<Rightarrow> nat \<Rightarrow> string list \<Rightarrow> bool" where
  "leads_to ctx d base = (\<forall>parts. scan_marks ctx (Some d) parts = base @ parts)"

lemma scan_marks_root: "scan_marks ms (Some 0) parts = parts"
  by (induction ms) auto

lemma leads_to_root: "leads_to ctx 0 []"
  by (simp add: leads_to_def scan_marks_root)

lemma leads_to_child: "leads_to ctx d base \<Longrightarrow> leads_to ((d, s) # ctx) (d + 2) (base @ [s])"
  using leads_to_root [of ctx] by (cases d) (fastforce simp: leads_to_def)+

lemma marks_deep: "(i, s) \<in> set (node_marks d x) \<Longrightarrow> d \<le> i"
  by (induction d x rule: node_marks.induct) fastforce+

lemma leads_to_skip:
  "leads_to ctx d base \<Longrightarrow> (\<And>i s. (i, s) \<in> set ms \<Longrightarrow> d \<le> i) \<Longrightarrow> leads_to (ms @ ctx) d base"
proof (induction ms)
  case (Cons m ms)
  then have "leads_to (ms @ ctx) d base" by auto
  moreover have "\<not> fst m < d" using Cons.prems(2) [of "fst m" "snd m"] by simp
  ultimately show ?case by (cases m) (auto simp: leads_to_def)
qed simp

lemma first_line: "leads_to ctx d base \<Longrightarrow> scan_marks ((d, s) # ctx) None [] = base @ [s]"
  using leads_to_root [of ctx] by (cases d) (auto simp: leads_to_def)

lemma scans_kids:
  assumes "\<And>x ctx. x \<in> set xs \<Longrightarrow> leads_to ctx d base \<Longrightarrow>
      scans ctx (node_marks d x) = map (\<lambda>p. base @ map segment_text p) (node_paths x)"
    and "leads_to ctx d base"
  shows "scans ctx (concat (map (node_marks d) xs)) =
     map (\<lambda>p. base @ map segment_text p) (concat (map node_paths xs))"
  using assms
proof (induction xs arbitrary: ctx)
  case (Cons x xs)
  have "leads_to (rev (node_marks d x) @ ctx) d base"
    using Cons.prems(2) marks_deep by (intro leads_to_skip) auto
  then show ?case using Cons by (simp add: scans_append)
qed simp

lemma scans_node:
  "leads_to ctx d base \<Longrightarrow>
     scans ctx (node_marks d x) = map (\<lambda>p. base @ map segment_text p) (node_paths x)"
proof (induction x arbitrary: ctx d base)
  case (YField k v xs)
  have "scans ((d, k) # ctx) (concat (map (node_marks (d + 2)) xs)) =
      map (\<lambda>p. (base @ [k]) @ map segment_text p) (concat (map node_paths xs))"
    using YField.IH leads_to_child [OF YField.prems, of k] by (intro scans_kids)
  then show ?case using first_line [OF YField.prems] by simp
next
  case (YItem k v xs)
  let ?s = "segment_text (PSelector k v)"
  have "scans ((d, ?s) # ctx) (concat (map (node_marks (d + 2)) xs)) =
      map (\<lambda>p. (base @ [?s]) @ map segment_text p) (concat (map node_paths xs))"
    using YItem.IH leads_to_child [OF YItem.prems, of ?s] by (intro scans_kids)
  then show ?case using first_line [OF YItem.prems] by simp
qed

lemma describes_node: "plain_node x \<Longrightarrow> list_all2 describes (node_lines d x) (node_marks d x)"
proof (induction x arbitrary: d)
  case (YField k v xs)
  then have "list_all2 describes (concat (map (node_lines (d + 2)) xs)) (concat (map (node_marks (d + 2)) xs))"
    by (induction xs) (auto intro: list_all2_appendI)
  then show ?case using field_describes [OF YField.prems, of d] by simp
next
  case (YItem k v xs)
  then have "list_all2 describes (concat (map (node_lines (d + 2)) xs)) (concat (map (node_marks (d + 2)) xs))"
    by (induction xs) (auto intro: list_all2_appendI)
  then show ?case using item_describes [OF YItem.prems, of d] by simp
qed

section \<open>From segments to paths\<close>

lemma join_brackets_plain:
  "CHR ''['' \<notin> set s \<Longrightarrow> r = [] \<or> hd r \<noteq> CHR ''['' \<Longrightarrow> join_brackets (s @ r) = s @ join_brackets r"
proof (induction s)
  case (Cons c s)
  then show ?case by (cases s; cases r) auto
qed simp

lemma join_brackets_skip: "c \<noteq> CHR ''.'' \<Longrightarrow> join_brackets (c # s) = c # join_brackets s"
  by (cases s) auto

fun item_plain :: "path_item \<Rightarrow> bool" where
  "item_plain (PField n) = (n \<noteq> [] \<and> CHR ''['' \<notin> set n)"
| "item_plain (PSelector k v) = (CHR ''['' \<notin> set k \<and> CHR ''['' \<notin> set v)"

lemma join_brackets_path:
  "list_all item_plain ps \<Longrightarrow> join_brackets (concat (map (\<lambda>p. ''.'' @ segment_text p) ps)) = editor_path ps"
proof (induction ps)
  case (Cons p ps)
  let ?r = "concat (map (\<lambda>p. ''.'' @ segment_text p) ps)"
  have r: "?r = [] \<or> hd ?r \<noteq> CHR ''[''" by (cases ps) auto
  show ?case
  proof (cases p)
    case (PField n)
    then have "CHR ''['' \<notin> set n" "n \<noteq> []" using Cons.prems by auto
    then have "join_brackets (CHR ''.'' # n @ ?r) = CHR ''.'' # join_brackets (n @ ?r)"
      by (cases n) auto
    with PField Cons r \<open>CHR ''['' \<notin> set n\<close> show ?thesis by (simp add: join_brackets_plain)
  next
    case (PSelector k v)
    then have "join_brackets ((k @ ''='' @ v @ '']'') @ ?r) = (k @ ''='' @ v @ '']'') @ join_brackets ?r"
      using Cons.prems r by (intro join_brackets_plain) auto
    with PSelector Cons show ?thesis by simp
  qed
qed simp

lemma join_as_concat: "join_str sep (s # ss) = s @ concat (map (\<lambda>t. sep @ t) ss)"
  by (induction ss arbitrary: s) simp_all

fun path_text :: "path_item list \<Rightarrow> string" where
  "path_text (PField n # ps) = n @ editor_path ps"
| "path_text ps = editor_path ps"

lemma path_text_joined:
  assumes "list_all item_plain (PField n # ps)"
  shows "join_brackets (join_str ''.'' (map segment_text (PField n # ps))) = path_text (PField n # ps)"
proof -
  let ?r = "concat (map (\<lambda>p. ''.'' @ segment_text p) ps)"
  have "?r = [] \<or> hd ?r = CHR ''.''" by (cases ps) simp_all
  then have r: "?r = [] \<or> hd ?r \<noteq> CHR ''[''" by auto
  have "join_brackets (n @ ?r) = n @ join_brackets ?r"
    by (rule join_brackets_plain [OF _ r]) (use assms in simp)
  moreover have "join_brackets ?r = editor_path ps" using assms by (intro join_brackets_path) simp
  ultimately show ?thesis unfolding list.map join_as_concat by (simp add: comp_def)
qed

lemma paths_plain:
  "plain_node x \<Longrightarrow> p \<in> set (node_paths x) \<Longrightarrow> list_all item_plain p \<and> p \<noteq> [] \<and> hd p = node_item x"
proof (induction x arbitrary: p)
  case (YField k v xs)
  have kids: "list_all item_plain q" if "y \<in> set xs" "q \<in> set (node_paths y)" for y q
    using YField.IH [OF that(1) _ that(2)] YField.prems(1) that(1) by (simp add: list_all_iff)
  have "item_plain (PField k)" using YField.prems(1) by (auto simp: plain_key_def list_all_iff)
  then show ?case using YField.prems(2) kids by auto
next
  case (YItem k v xs)
  have kids: "list_all item_plain q" if "y \<in> set xs" "q \<in> set (node_paths y)" for y q
    using YItem.IH [OF that(1) _ that(2)] YItem.prems(1) that(1) by (simp add: list_all_iff)
  have "\<not> key_char (CHR ''['')" by (simp add: key_char_def is_word_char_def)
  then have "CHR ''['' \<notin> set k"
    using merge_fields_key_chars [of k] YItem.prems(1) by (auto simp: list_all_iff)
  moreover have "CHR ''['' \<notin> set v"
    using YItem.prems(1) unfolding plain_node.simps plain_selector_def list_all_iff by blast
  ultimately have "item_plain (PSelector k v)" by simp
  then show ?case using YItem.prems(2) kids by auto
qed

definition doc_lines :: "ynode list \<Rightarrow> string list" where
  "doc_lines xs = concat (map (node_lines 0) xs)"

definition doc_paths :: "ynode list \<Rightarrow> string list" where
  "doc_paths xs = map path_text (concat (map node_paths xs))"

text \<open>A document of plain fields.\<close>

definition plain_doc :: "ynode list \<Rightarrow> bool" where
  "plain_doc xs = list_all (\<lambda>x. plain_node x \<and> (case x of YField k v ys \<Rightarrow> True | YItem k v ys \<Rightarrow> False)) xs"

lemma doc_path_shape:
  assumes "plain_doc xs" "p \<in> set (concat (map node_paths xs))"
  obtains n ps where "p = PField n # ps" "list_all item_plain (PField n # ps)"
proof -
  obtain x where x: "x \<in> set xs" "p \<in> set (node_paths x)" using assms(2) by auto
  then have plain: "plain_node x" "case x of YField k v ys \<Rightarrow> True | YItem k v ys \<Rightarrow> False"
    using assms(1) by (simp_all add: plain_doc_def list_all_iff)
  then obtain n where "node_item x = PField n" by (cases x) simp_all
  then show thesis using that paths_plain [OF plain(1) x(2)] by (metis list.collapse)
qed

text \<open>
  In a document whose lists are indented below their key and whose items are led by their merge
  key, the path of every line is the path of the field or item on it, in the notation of the
  ownership data and of the conflict view.
\<close>

theorem line_paths_are_editor_paths:
  assumes "plain_doc xs"
  shows "map (path_for_line (doc_lines xs)) [1..<length (doc_lines xs) + 1] = doc_paths xs"
proof -
  let ?ms = "concat (map (node_marks 0) xs)"
  have plain: "plain_node x" if "x \<in> set xs" for x
    using assms that by (simp add: plain_doc_def list_all_iff)
  have d: "list_all2 describes (doc_lines xs) ?ms"
    using plain unfolding doc_lines_def
    by (induction xs) (auto intro!: list_all2_appendI describes_node)
  have len: "length ?ms = length (doc_lines xs)" using d by (simp add: list_all2_lengthD)
  have "scans [] ?ms = map (\<lambda>p. [] @ map segment_text p) (concat (map node_paths xs))"
    by (rule scans_kids [OF scans_node leads_to_root])
  then have scanned: "map (\<lambda>n. scan_marks (rev (take (Suc n) ?ms)) None []) [0..<length ?ms] =
      map (map segment_text) (concat (map node_paths xs))"
    by (simp add: scans_eq)
  have "map (path_for_line (doc_lines xs)) [1..<length (doc_lines xs) + 1] =
      map (\<lambda>n. join_brackets (join_str ''.'' (scan_marks (rev (take (Suc n) ?ms)) None []))) [0..<length ?ms]"
  proof -
    have "[1..<length (doc_lines xs) + 1] = map Suc [0..<length (doc_lines xs)]" by (simp add: map_Suc_upt)
    then show ?thesis
      unfolding len by (simp add: path_for_line_def scan_up_marks [OF d] comp_def del: upt_Suc)
  qed
  also have "\<dots> = map (\<lambda>p. join_brackets (join_str ''.'' (map segment_text p))) (concat (map node_paths xs))"
    using arg_cong [OF scanned, of "map (\<lambda>p. join_brackets (join_str ''.'' p))"] by (simp add: comp_def)
  also have "\<dots> = doc_paths xs"
    unfolding doc_paths_def
  proof (rule map_cong [OF refl])
    fix p assume "p \<in> set (concat (map node_paths xs))"
    then show "join_brackets (join_str ''.'' (map segment_text p)) = path_text p"
      by (rule doc_path_shape [OF assms]) (simp only: path_text_joined)
  qed
  finally show ?thesis .
qed

definition sample_doc :: "ynode list" where
  "sample_doc =
     [YField ''spec'' [] [YField ''replicas'' ''3'' [],
        YField ''containers'' [] [YItem ''name'' ''web'' [YField ''image'' ''nginx'' []]]]]"

lemma line_paths_are_editor_paths_witness:
  "map (path_for_line (doc_lines sample_doc)) [1..<6] =
     [''spec'', ''spec.replicas'', ''spec.containers'', ''spec.containers[name=web]'',
      ''spec.containers[name=web].image'']"
proof -
  have "plain_doc sample_doc" "length (doc_lines sample_doc) + 1 = 6"
    "doc_paths sample_doc = [''spec'', ''spec.replicas'', ''spec.containers'', ''spec.containers[name=web]'',
      ''spec.containers[name=web].image'']"
    by code_simp+
  then show ?thesis using line_paths_are_editor_paths [of sample_doc] by metis
qed

section \<open>Glyphs\<close>

lemma find_filter: "find P (filter Q xs) = find (\<lambda>x. Q x \<and> P x) xs"
  by (induction xs) auto

lemma find_rev_filter: "find P (rev (filter Q xs)) = find (\<lambda>x. Q x \<and> P x) (rev xs)"
  by (simp add: rev_filter find_filter)

definition last_foreign_owner :: "field_owner list \<Rightarrow> string \<Rightarrow> string option" where
  "last_foreign_owner owners path =
     map_option fo_manager (find (\<lambda>x. fo_manager x \<noteq> spa_manager \<and> fo_path x = path) (rev owners))"

lemma owner_map_lookup:
  "map_of (path_to_manager (filter (\<lambda>x. fo_manager x \<noteq> spa_manager) owners)) path =
     last_foreign_owner owners path"
  by (simp add: path_to_manager_def map_of_fold_update last_foreign_owner_def find_rev_filter)

text \<open>
  The gutter marks exactly the lines of fields that another manager owns, and the hover names
  the last owner in the ownership data.
\<close>

theorem glyphs_mark_foreign_fields:
  assumes "plain_doc xs" "[] \<notin> fo_manager ` set owners"
  shows "owner_glyphs owners (doc_lines xs) =
     concat (map (\<lambda>(i, path). case last_foreign_owner owners path of Some m \<Rightarrow> [(i, m)] | None \<Rightarrow> [])
       (zip [1..<length (doc_lines xs) + 1] (doc_paths xs)))"
proof -
  let ?ls = "doc_lines xs"
  let ?ns = "[1..<length ?ls + 1]"
  have nonempty: "[] \<notin> set (doc_paths xs)"
  proof
    assume "[] \<in> set (doc_paths xs)"
    then obtain p where p: "p \<in> set (concat (map node_paths xs))" "path_text p = []"
      unfolding doc_paths_def by (metis imageE list.set_map)
    from assms(1) p(1) show False by (rule doc_path_shape) (use p(2) in simp)
  qed
  have owners: "m \<noteq> []" if found: "last_foreign_owner owners p = Some m" for p m
  proof -
    obtain x where "x \<in> set (rev owners)" "m = fo_manager x"
      using found find_Some_mem unfolding last_foreign_owner_def map_option_eq_Some by metis
    then show ?thesis using assms(2) by (metis imageI set_rev)
  qed
  have none: "last_foreign_owner owners p = None" if "filter (\<lambda>x. fo_manager x \<noteq> spa_manager) owners = []" for p
    using owner_map_lookup [of owners p] that by (simp add: path_to_manager_def)
  have "owner_glyphs owners ?ls =
      concat (map (\<lambda>i. let path = path_for_line ?ls i in
        if path = [] then [] else (case last_foreign_owner owners path of
          Some m \<Rightarrow> if m = [] then [] else [(i, m)] | None \<Rightarrow> [])) ?ns)"
    using none by (simp add: owner_glyphs_def Let_def owner_map_lookup cong: if_cong del: upt_Suc)
  also have "\<dots> = concat (map (\<lambda>(i, path). if path = [] then [] else (case last_foreign_owner owners path of
          Some m \<Rightarrow> if m = [] then [] else [(i, m)] | None \<Rightarrow> [])) (zip ?ns (map (path_for_line ?ls) ?ns)))"
    by (simp add: zip_map2 zip_same_conv_map comp_def Let_def cong: if_cong del: upt_Suc)
  also have "zip ?ns (map (path_for_line ?ls) ?ns) = zip ?ns (doc_paths xs)"
    by (simp only: line_paths_are_editor_paths [OF assms(1)])
  also have "map (\<lambda>(i, path). if path = [] then [] else (case last_foreign_owner owners path of
          Some m \<Rightarrow> if m = [] then [] else [(i, m)] | None \<Rightarrow> [])) (zip ?ns (doc_paths xs)) =
      map (\<lambda>(i, path). case last_foreign_owner owners path of Some m \<Rightarrow> [(i, m)] | None \<Rightarrow> [])
        (zip ?ns (doc_paths xs))"
    using nonempty owners by (auto split: option.split dest: set_zip_rightD)
  finally show ?thesis .
qed

lemma glyphs_mark_foreign_fields_witness:
  "owner_glyphs
     [\<lparr>fo_path = ''spec.replicas'', fo_manager = ''kube-controller-manager'', fo_operation = OpUpdate\<rparr>,
      \<lparr>fo_path = ''spec.containers[name=web].image'', fo_manager = ''periscope-spa'', fo_operation = OpApply\<rparr>]
     (doc_lines sample_doc) = [(2, ''kube-controller-manager'')]"
proof -
  let ?owners = "[\<lparr>fo_path = ''spec.replicas'', fo_manager = ''kube-controller-manager'', fo_operation = OpUpdate\<rparr>,
      \<lparr>fo_path = ''spec.containers[name=web].image'', fo_manager = ''periscope-spa'', fo_operation = OpApply\<rparr>]"
  have "plain_doc sample_doc"
    "concat (map (\<lambda>(i, path). case last_foreign_owner ?owners path of Some m \<Rightarrow> [(i, m)] | None \<Rightarrow> [])
       (zip [1..<length (doc_lines sample_doc) + 1] (doc_paths sample_doc))) = [(2, ''kube-controller-manager'')]"
    by code_simp+
  then show ?thesis using glyphs_mark_foreign_fields [of sample_doc ?owners] by simp
qed

section \<open>Where the walk goes wrong\<close>

text \<open>
  The server's YAML writes a list at the indentation of its key. The key is then skipped, so the
  fields of the items have a path no manager owns, and the first field of an item has none.
\<close>

theorem lists_at_key_indent_lose_their_key:
  "let ls = [''spec:'', ''  containers:'', ''  - image: nginx'', ''    name: web'']
   in path_for_line ls 2 = ''spec.containers'' \<and> path_for_line ls 3 = ''spec[name=web]'' \<and>
      path_for_line ls 4 = ''spec[name=web].name''"
  by code_simp

text \<open>A blank or comment line is said to have no path; it gets the path of the line above.\<close>

theorem comments_take_the_path_above:
  "let ls = [''spec:'', ''  replicas: 3'', ''  # scaled by hand'', []]
   in path_for_line ls 3 = ''spec.replicas'' \<and> path_for_line ls 4 = ''spec.replicas''"
  by code_simp

end
