(* ===== verification/Spec2Isabelle.thy ===== *)
theory Spec2Isabelle
  imports AddonDialogs ApiRoutesSafety ApplySafety ApplyYamlSafety AuditView BulkToolbar CanI Cve Display
    EditorSafety ExecSafety ExecSessionsSafety FormValueSafety HelmSafety KindForm LabelForm ManagedFields
    MutationSafety ReplicaSetView SchemaFormSafety SearchPalette SecretForm StreamSafety TableSelection
    WorkloadSafety YamlPath YamlReplay
begin

text \<open>
  Verification library for the core logic of the Periscope web console, the TypeScript client under
  \<open>web/src\<close>. Paths below are relative to that directory unless they say otherwise.

  \<^bold>\<open>The program.\<close> The console lists the objects of Kubernetes clusters, keeps the lists current over
  server-sent events, edits objects as YAML or as a form generated from their schema, sends the
  difference as a server-side apply, opens shells and logs, and drives Helm releases and EKS add-ons.
  Its parts interact through four shared things: the query cache (keys of \<open>lib/queryKeys.ts\<close>), the
  client of the HTTP interface (\<open>lib/api.ts\<close>), the classification of field managers
  (\<open>lib/managers.ts\<close>) and the conflict policy (\<open>lib/conflictPolicy.ts\<close>). A watch stream writes the
  cached lists that the optimistic mutations also write; the editors read detail queries, run the
  apply hook, and the apply hook invalidates what the lists and panels show.

  \<^bold>\<open>How the model is built.\<close> A pure function is a HOL function on the same arguments. A component with
  state is a record and a step function on events: the calls of the user interface, the answers of
  the server, the ticks of timers, the renders of React. The commands a step issues (requests, cache
  invalidations, toasts, navigations) are recorded in the state in order, so that a property can say
  what was sent and when. Histories are lists of events, and properties about histories quantify over
  all of them: every interleaving of answers, timers and clicks is one of the lists. Failures are
  values of a sum or an option. JavaScript values are the datatype \<open>jsval\<close> of \<open>Prelude\<close>, with objects
  as association lists in insertion order. What is not under \<open>src/\<close> is an argument of the
  definitions: the YAML library, \<open>JSON.parse\<close> of server text, the comparison of strings by locale,
  \<open>crypto.randomUUID\<close>, clocks, and the answers of the server; where a law of such a parameter is used
  (for instance that identities drawn are distinct, or that the query client returns what was written)
  it is a premise of the theorem, and the theorem's witness instantiates it.

  \<^bold>\<open>Interfaces.\<close> \<open>event_machine\<close> (an invariant every step keeps) and \<open>absorbing_machine\<close> (one with a
  terminal state) in \<open>Prelude\<close> are interpreted on the apply hook, the resource stream, the exec
  client, the add-on dialogs, the label form, the toasts, the table selection, the bulk toolbar, the
  scale popover, the component above the YAML editor and the search palette. \<open>worker_pool\<close> is the contract of the six-way pool and is
  interpreted on the bulk download and on the apply dialog. \<open>row_store\<close> is what the list updaters owe
  their callers, interpreted on the registry of kinds. \<open>provider_property\<close> carries an invariant of the
  exec provider through the calls of its clients and is interpreted three times.

  \<^bold>\<open>Theories and sources.\<close>

  Foundations.
  \<^item> \<open>Prelude\<close>: JavaScript values and strings, association lists, stable sorting, positions, event machines.
  \<^item> \<open>ApiError\<close>: the error class of \<open>lib/api.ts\<close>. \<open>UrlCodec\<close>: \<open>encodeURIComponent\<close>,
    \<open>URLSearchParams\<close> and their inverses, used by every request.
  \<^item> \<open>QueryKeys\<close>: \<open>lib/queryKeys.ts\<close>; different queries have different keys, and a prefix of a kind
    covers exactly that kind.

  Editing and applying.
  \<^item> \<open>YamlPatch\<close>, \<open>YamlReplay\<close>: \<open>lib/yamlPatch.ts\<close> and \<open>lib/applyBodyBuilder.ts\<close>, the diff of two
    documents and the minimal apply payload. Replaying the operations on the baseline gives the draft
    when the lists are atomic (lists under a merge key are compared by item, and the payload leaves
    unnamed items to the server) and no map becomes a list of as many entries, a change the comparison
    does not see; server-managed fields never occur in an operation.
  \<^item> \<open>Managers\<close>, \<open>ConflictPolicy\<close>, \<open>ApplyState\<close>, \<open>ApplyLifecycle\<close>, \<open>ApplySafety\<close>: \<open>lib/managers.ts\<close>,
    \<open>lib/conflictPolicy.ts\<close>, \<open>hooks/mutations/_applyWithLenientConflict.ts\<close>, \<open>hooks/useApplyState.ts\<close>
    with its two view models, and \<open>hooks/useApplyLifecycle.ts\<close>. A commit follows an accepted dry run
    of the same payload, force needs a conflict that was shown or one whose managers may all be
    overridden, one run is live, and cancelled runs send nothing.
  \<^item> \<open>ManagedFields\<close>, \<open>YamlPath\<close>: \<open>lib/managedFields.ts\<close>, \<open>lib/drift.ts\<close>, \<open>lib/yamlPath.ts\<close>, the paths
    of managed fields, of conflicts and of editor lines, which agree, and the drift detector.
  \<^item> \<open>StripForEdit\<close>, \<open>EditorBuffer\<close>, \<open>EditorSafety\<close>: \<open>lib/stripForEdit.ts\<close>,
    \<open>components/detail/yaml/YamlEditor.tsx\<close>, \<open>components/edit/KindEditRouter.tsx\<close>. The effects of the
    editor run after each render in the order of the source; they settle within two renders and never
    touch the unsaved text of a mounted editor, and a change of mode carries the draft. The components
    above the editors unmount them, with their text, when a refetch fails.
  \<^item> \<open>WorkerPool\<close>, \<open>ApplyYaml\<close>, \<open>ApplyYamlSafety\<close>: the pool of \<open>lib/multiYaml.ts\<close>, the parser
    \<open>lib/applyYamlParser.ts\<close>, the dialog \<open>hooks/useApplyYamlState.ts\<close> and its footer.
  \<^item> \<open>JsonSchema\<close>, \<open>SchemaWalker\<close>, \<open>SchemaFormSafety\<close>, \<open>FormValues\<close>, \<open>FormValueSafety\<close>:
    \<open>lib/schemaForm\<close>, from the schema to field descriptors and from edits to values. The walk
    is total: each level follows a reference not yet seen on its path or descends into a lighter schema.
  \<^item> \<open>KindForm\<close>, \<open>SecretForm\<close>: \<open>lib/schemaForm/k8sAllowlist.ts\<close>, \<open>sections.ts\<close>, \<open>base64DataLayer.ts\<close> and
    \<open>SchemaFormBridge.tsx\<close>: the curated forms of six kinds, which fields they show and where, and the
    plaintext view of secrets, which gives back every text but not binary values.
  \<^item> \<open>LabelForm\<close>: \<open>lib/labels.ts\<close> and the modal for labels.

  Lists, streams and actions.
  \<^item> \<open>ListShape\<close>, \<open>ResourceStream\<close>, \<open>StreamSafety\<close>: \<open>lib/listShape.ts\<close>, \<open>lib/k8sKinds.ts\<close>,
    \<open>hooks/useResourceStream.ts\<close>. A cached list refines a finite map from row identity to row, and
    batching only delays the writes; what still waits when the stream closes is never written.
  \<^item> \<open>ResourceQueries\<close>: \<open>hooks/useResource.ts\<close>, \<open>lib/customResources.ts\<close>, \<open>lib/features.ts\<close>: which request
    each hook sends, how often it polls, what an apply invalidates and what it does not reach, and when
    a list is neither streamed nor polled.
  \<^item> \<open>Mutations\<close>, \<open>MutationSafety\<close>: \<open>hooks/mutations\<close>, the optimistic updates and their rollback.
  \<^item> \<open>CanI\<close>: \<open>hooks/useCanI.ts\<close>, \<open>lib/canIReason.ts\<close>, \<open>hooks/useApplyPreFlight.ts\<close>, \<open>hooks/useCanApply.ts\<close>:
    the permission decisions, which also allow while their answer is pending.
  \<^item> \<open>WorkloadActions\<close>, \<open>WorkloadSafety\<close>: the action bar, the scale popover, the rollback dialog and
    the toolbar of an object with its confirmations, whose labels are read back as the action they name.
  \<^item> \<open>TableSelection\<close>, \<open>BulkYaml\<close>, \<open>BulkToolbar\<close>: selecting rows, fetching and naming their file, the
    toolbar with its confirmation of sensitive rows and its audit record.
  \<^item> \<open>ReplicaSetView\<close>: the replica sets by deployment and the keys and widths of the detail overlay.
  \<^item> \<open>SearchPalette\<close>: \<open>components/search/SearchPalette.tsx\<close>.
  \<^item> \<open>AuditView\<close>: \<open>pages/AuditPage.tsx\<close> with its filters, pages and density strip.

  Requests, shells and logs.
  \<^item> \<open>ApiClient\<close>, \<open>ApiRoutes\<close>, \<open>ApiRoutesSafety\<close>: every request of \<open>lib/api.ts\<close> against the routes that
    \<open>cmd/periscope/main.go\<close> (at the root of the repository) registers; the types of two requests for events admit nine
    kinds that no route serves.
  \<^item> \<open>ExecClient\<close>, \<open>ExecSafety\<close>, \<open>ExecSessions\<close>, \<open>ExecSessionsSafety\<close>: \<open>exec/ExecClient.ts\<close> and
    \<open>exec/ExecSessionsContext.tsx\<close>, the socket with its reconnects and the drawer of sessions.
  \<^item> \<open>LogStream\<close>, \<open>LogView\<close>: \<open>hooks/useLogStream.ts\<close> and \<open>components/logs\<close>.

  Security, add-ons and Helm.
  \<^item> \<open>Cve\<close>: \<open>lib/severity.ts\<close>, \<open>lib/cve.ts\<close>, \<open>lib/findingFilters.ts\<close>, \<open>hooks/useCve.ts\<close> and their views.
  \<^item> \<open>AddonVersions\<close>, \<open>AddonStub\<close>, \<open>AddonDialogs\<close>: \<open>lib/addonInstall.ts\<close>, \<open>lib/addonUpgrade.ts\<close>,
    \<open>lib/addonCatalog.ts\<close>, \<open>hooks/useAddons.ts\<close>, \<open>hooks/useAddonInstall.ts\<close> and the two dialogs.
  \<^item> \<open>Helm\<close>, \<open>HelmSafety\<close>: \<open>hooks/useHelm.ts\<close>, \<open>hooks/useChartFetch.ts\<close>, the release pages and dialogs.
  \<^item> \<open>Display\<close>: \<open>lib/cron.ts\<close>, \<open>lib/format.ts\<close>, \<open>lib/tlsExpiry.ts\<close>, \<open>lib/eosChip.ts\<close>, \<open>lib/nodegroups.ts\<close>,
    \<open>lib/upgradeInsights.ts\<close>, \<open>lib/toastBus.ts\<close>.

  \<^bold>\<open>Groups of lemmas.\<close> Each component has first the lemmas of its data (well-formedness, what a lookup
  returns after an update), then its invariant with one lemma per event, then the properties. Theories
  whose name ends in \<open>Safety\<close> hold only lemmas and properties over the definitions of the theory they
  import. Theorems that show where the code and its comments disagree, or where it loses something,
  stand beside the properties and are named after what happens.

  \<^bold>\<open>Bounds of the code, kept as they are.\<close> The cached events are capped at 500 rows, a stream and a
  shell reconnect at most four times without a success in between, a pool runs six workers, a
  selection holds at most 100 rows, a drawer five sessions, a log pane 50,000 lines, a batch of
  permission checks 64 entries, the walk over vulnerability pages stops at 200 pages, descriptions wrap
  at column 70, the pod hash is computed on 32-bit words, search and copied context span five lines,
  polls are between 15 and 60 seconds, two revisions are compared, six definitions are offered by the
  palette, the reason of a rollback has at most 200 characters, the drawer is 95 percent of its
  window at most. Each is the constant of the source, and no theorem depends on a smaller one.

  \<^bold>\<open>Recursion.\<close> Loops are structural recursions, or \<open>function\<close> definitions with a measure: the
  size of the two trees for the diff, the references left and the weight of the schema for the walker.
  The loop of the highlighter is a \<open>partial_function (option)\<close>, and that it returns is a theorem. No function carries fuel: a walk over pages is cut by the bound the code itself has.

  \<^bold>\<open>Differences from JavaScript that the model accepts.\<close> Strings are lists of 8-bit characters, so
  lengths count bytes where the code counts UTF-16 units; numbers are integers, except where a machine
  width matters (the pod hash). A \<open>Map\<close> or an object is an association list whose order is that of
  insertion; keys that look like array indices, which JavaScript moves to the front, are not treated
  apart. Promises settle as events, so their order is arbitrary.

  \<^bold>\<open>Not modelled, and why.\<close> The Go server (its handlers, the stores and the controllers under \<open>internal\<close>)
  is a second program in another language; only its route table is here, as the contract of the client's URLs.
  React's rendering, the markup and styles, Monaco, the virtual scroller and the terminal emulator have no
  value to reason about in the source: the pages and the read-only panels that only lay out the fields of a
  response are left out, as are the wire types of \<open>lib/types.ts\<close> beyond the records the operations above read.
  The hint table of \<open>lib/schemaForm/k8sDiscriminatorHints.ts\<close> is data that the walker receives as an option.
  react-query itself (stale times, retries, garbage collection) and the browser's storage are services whose documented
  laws are premises where they matter.
\<close>

end
